(* ===== verification/Simula_Prelude.thy ===== *)
theory Simula_Prelude
  imports Main "HOL-Library.AList" "HOL-Library.Char_ord" "HOL-Library.List_Lexorder"
begin

text \<open>
  Shared material of the development: the result type of code that can abort, the two
  container models (\<open>std::map\<close> as a key-sorted association list, \<open>std::unordered_map\<close> as an
  association list), and generic lemmas on lists used by several components.
\<close>

named_theorems result_simps \<open>evaluation of the result monad\<close>

section \<open>Results of code that may abort\<close>

text \<open>
  What ends a run of the C++ code other than a normal return:
  \<^item> \<open>Assert_Failed\<close>: a \<open>CHART_ASSERT\<close>, \<open>CHART_REQUIRE\<close> or \<open>CHART_ENSURE\<close> of
    \<open>chart/assert.hpp\<close> that is false (the build with assertions enabled: \<open>abort()\<close>);
  \<^item> \<open>Null_Call\<close>: a call through a null function pointer;
  \<^item> \<open>Uncaught_Exception\<close>: a C++ exception that leaves a state handler (the worker thread
    then ends in \<open>std::terminate\<close>);
  \<^item> \<open>Out_Of_Fuel\<close>: not a behaviour of the code; the model's loop bound was reached.
\<close>

datatype fault = Assert_Failed | Null_Call | Uncaught_Exception | Out_Of_Fuel

type_synonym 'a result = "fault + 'a"

fun bindE :: "'e + 'a \<Rightarrow> ('a \<Rightarrow> 'e + 'b) \<Rightarrow> 'e + 'b" where
  "bindE (Inl e) f = Inl e"
| "bindE (Inr x) f = f x"

declare bindE.simps [result_simps]

lemma bindE_eq_Inr: "bindE m f = Inr y \<longleftrightarrow> (\<exists>x. m = Inr x \<and> f x = Inr y)"
  by (cases m) auto

lemma bindE_eq_Inl: "bindE m f = Inl e \<longleftrightarrow> m = Inl e \<or> (\<exists>x. m = Inr x \<and> f x = Inl e)"
  by (cases m) auto

lemma bindE_assoc: "bindE (bindE m f) g = bindE m (\<lambda>x. bindE (f x) g)"
  by (cases m) auto

lemma bindE_cong [fundef_cong]:
  "m = m' \<Longrightarrow> (\<And>x. m' = Inr x \<Longrightarrow> f x = f' x) \<Longrightarrow> bindE m f = bindE m' f'"
  by (cases m') auto

lemma bindE_to: "m = Inr x \<Longrightarrow> f x = y \<Longrightarrow> bindE m f = y"
  by simp

lemma bindE_if: "bindE (if b then m else m') f = (if b then bindE m f else bindE m' f)"
  by simp

lemma Inr_fst: "map_sum id fst m = Inr a \<Longrightarrow> m = Inr (a, snd (projr m))"
  by (cases m) auto

text \<open>Code that comes to a normal end.\<close>

definition returns :: "'e + 'a \<Rightarrow> bool" where
  "returns m \<longleftrightarrow> (\<exists>x. m = Inr x)"

lemma returns_value [simp]: "returns (Inr x)" "\<not> returns (Inl e)"
  by (simp_all add: returns_def)

lemma returns_bind [intro]: "returns m \<Longrightarrow> (\<And>x. m = Inr x \<Longrightarrow> returns (f x)) \<Longrightarrow> returns (bindE m f)"
  by (auto simp: returns_def)

lemma returns_pair: "returns m \<Longrightarrow> \<exists>a b. m = Inr (a, b)"
  by (auto simp: returns_def)

section \<open>Containers\<close>

subsection \<open>\<open>std::map\<close>: a key-sorted association list\<close>

text \<open>
  \<open>smap_upd\<close> is \<open>m[k] = v\<close>, \<open>smap_del\<close> is \<open>m.erase(k)\<close>, and the list itself is the
  iteration order of the map. \<open>std::string\<close> keys compare bytewise, as \<open>string\<close> does under
  the lexicographic order of the library.
\<close>

fun smap_upd :: "'k::linorder \<Rightarrow> 'v \<Rightarrow> ('k \<times> 'v) list \<Rightarrow> ('k \<times> 'v) list" where
  "smap_upd k v [] = [(k, v)]"
| "smap_upd k v ((k', v') # m) =
     (if k = k' then (k, v) # m
      else if k < k' then (k, v) # (k', v') # m
      else (k', v') # smap_upd k v m)"

definition smap_del :: "'k \<Rightarrow> ('k \<times> 'v) list \<Rightarrow> ('k \<times> 'v) list" where
  "smap_del k m = filter (\<lambda>(k', _). k' \<noteq> k) m"

definition smap_ok :: "('k::linorder \<times> 'v) list \<Rightarrow> bool" where
  "smap_ok m \<longleftrightarrow> sorted_wrt (<) (map fst m)"

lemma smap_upd_keys: "fst ` set (smap_upd k v m) = insert k (fst ` set m)"
  by (induction k v m rule: smap_upd.induct) auto

lemma smap_ok_upd [intro]: "smap_ok m \<Longrightarrow> smap_ok (smap_upd k v m)"
proof (induction k v m rule: smap_upd.induct)
  case (2 k v k' v' m)
  have keys: "set (map fst (smap_upd k v m)) = insert k (set (map fst m))"
    using smap_upd_keys [of k v m] by simp
  with 2 show ?case by (auto simp: smap_ok_def simp del: set_map)
qed (simp add: smap_ok_def)

lemma smap_ok_del [intro]: "smap_ok m \<Longrightarrow> smap_ok (smap_del k m)"
  by (induction m) (auto simp: smap_ok_def smap_del_def)

lemma map_of_smap_upd [simp]:
  "smap_ok m \<Longrightarrow> map_of (smap_upd k v m) = (map_of m)(k \<mapsto> v)"
  by (induction k v m rule: smap_upd.induct) (auto simp: smap_ok_def fun_eq_iff)

lemma map_of_smap_del [simp]: "map_of (smap_del k m) = (map_of m)(k := None)"
  by (induction m) (auto simp: smap_del_def fun_eq_iff)

section \<open>Lists\<close>

text \<open>The elements of an optional value.\<close>

definition opt_list :: "'a option \<Rightarrow> 'a list" where
  "opt_list x = (case x of None \<Rightarrow> [] | Some y \<Rightarrow> [y])"

lemma opt_list_simps [simp]: "opt_list None = []" "opt_list (Some x) = [x]"
  by (simp_all add: opt_list_def)

lemma takeWhile_notin_all: "x \<notin> set xs \<Longrightarrow> takeWhile (\<lambda>y. y \<noteq> x) xs = xs"
  by (induction xs) auto

lemma takeWhile_const_True [simp]: "takeWhile (\<lambda>x. True) xs = xs"
  by (induction xs) auto

end
