(* ===== verification/Chart_Hsm.thy ===== *)
theory Chart_Hsm
  imports Simula_Prelude
begin

text \<open>
  The hierarchical state machine of \<open>component/chart/include/chart\<close>: \<open>event.hpp\<close> (signals and
  events), \<open>hsm.hpp\<close> (\<open>Hsm::to\<close>, \<open>super\<close>, \<open>top\<close>, \<open>init\<close>, \<open>dispatch\<close>, \<open>collect_lineage\<close>).
\<close>

section \<open>Data\<close>

text \<open>
  An \<open>Event\<close> is a \<open>Signal\<close> with a payload. The four system signals are constructors, a user
  signal together with the payload its handler casts to is a value of the component's own
  type \<open>'u\<close>. A \<open>StateFn\<close> is null, \<open>&Hsm::top\<close>, or one of the component's state handlers.
\<close>

datatype 'u event = None_Signal | Entry_Signal | Exit_Signal | Init_Signal | User 'u

datatype status = HANDLED | IGNORED | UNHANDLED | NEED_TO_TRANSFER | TO_SUPER

datatype 's sref = Null_St | Top_St | St 's

datatype dispatch_event = HandlerVisit | Hook | Ignored

text \<open>Calls received by the \<open>TraceFn\<close> and the \<open>DispatchProbeFn\<close>.\<close>

datatype ('s, 'u) instr =
    Trace "'u event" "'s sref" "'s sref"
  | Probe "'u event" "'s sref" dispatch_event

record ('s, 'u) hsm =
  hstate :: "'s sref"
  htemp :: "'s sref"
  last_ignored :: bool
  trace_fn :: bool
  probe_fn :: bool
  instr_log :: "('s, 'u) instr list"

type_synonym ('s, 'u, 'z) handlers =
  "'s \<Rightarrow> 'u event \<Rightarrow> ('s, 'u, 'z) hsm_scheme \<Rightarrow> (status \<times> ('s, 'u, 'z) hsm_scheme) result"

definition kMaxNest :: nat where
  "kMaxNest = 8"

section \<open>Operations of class Hsm\<close>

definition to_st :: "'s sref \<Rightarrow> ('s, 'u, 'z) hsm_scheme \<Rightarrow> status \<times> ('s, 'u, 'z) hsm_scheme" where
  "to_st t h = (NEED_TO_TRANSFER, h\<lparr>htemp := t\<rparr>)"

definition super_st :: "'s sref \<Rightarrow> ('s, 'u, 'z) hsm_scheme \<Rightarrow> status \<times> ('s, 'u, 'z) hsm_scheme" where
  "super_st p h = (TO_SUPER, h\<lparr>htemp := p\<rparr>)"

text \<open>A call through a \<open>StateFn\<close>; \<open>Hsm::top\<close> returns \<open>IGNORED\<close> and changes nothing.\<close>

fun call :: "('s, 'u, 'z) handlers \<Rightarrow> 's sref \<Rightarrow> 'u event \<Rightarrow> ('s, 'u, 'z) hsm_scheme
    \<Rightarrow> (status \<times> ('s, 'u, 'z) hsm_scheme) result" where
  "call H Null_St e h = Inl Null_Call"
| "call H Top_St e h = Inr (IGNORED, h)"
| "call H (St s) e h = H s e h"

definition trace :: "'u event \<Rightarrow> 's sref \<Rightarrow> 's sref \<Rightarrow> ('s, 'u, 'z) hsm_scheme
    \<Rightarrow> ('s, 'u, 'z) hsm_scheme" where
  "trace e a b h = (if trace_fn h then h\<lparr>instr_log := instr_log h @ [Trace e a b]\<rparr> else h)"

definition probe :: "'u event \<Rightarrow> 's sref \<Rightarrow> dispatch_event \<Rightarrow> ('s, 'u, 'z) hsm_scheme
    \<Rightarrow> ('s, 'u, 'z) hsm_scheme" where
  "probe e s k h = (if probe_fn h then h\<lparr>instr_log := instr_log h @ [Probe e s k]\<rparr> else h)"

text \<open>
  The upward walk that \<open>collect_lineage\<close>, \<open>init\<close> and part 3 of \<open>dispatch\<close> share: while
  \<open>htemp\<close> is not a stopping point, record it and ask it for its super-state. \<open>k\<close> is the
  number of free slots of the \<open>StateFn[kMaxNest]\<close> array; none left is the failed assertion.
\<close>

fun climb :: "nat \<Rightarrow> ('s, 'u, 'z) handlers \<Rightarrow> ('s sref \<Rightarrow> 's sref \<Rightarrow> bool) \<Rightarrow> 's sref list \<Rightarrow> 's sref
    \<Rightarrow> ('s, 'u, 'z) hsm_scheme \<Rightarrow> ('s sref list \<times> ('s, 'u, 'z) hsm_scheme) result" where
  "climb 0 H stop out cur h =
     (if stop cur (htemp h) then Inr (out, h) else Inl Assert_Failed)"
| "climb (Suc k) H stop out cur h =
     (if stop cur (htemp h) then Inr (out, h)
      else let c = htemp h in
        bindE (call H c None_Signal h) (\<lambda>(_, h). climb k H stop (out @ [c]) c h))"

definition collect_lineage :: "('s, 'u, 'z) handlers \<Rightarrow> 's sref \<Rightarrow> ('s, 'u, 'z) hsm_scheme
    \<Rightarrow> ('s sref list \<times> ('s, 'u, 'z) hsm_scheme) result" where
  "collect_lineage H from h =
     (let save = htemp h in
      bindE (call H from None_Signal (h\<lparr>htemp := from\<rparr>)) (\<lambda>(_, h).
      bindE (climb (kMaxNest - 1) H (\<lambda>cur t. t = Top_St \<or> t = cur) [from] from h) (\<lambda>(out, h).
      Inr (out, h\<lparr>htemp := save\<rparr>))))"

fun enter_seq :: "('s, 'u, 'z) handlers \<Rightarrow> 's sref list \<Rightarrow> ('s, 'u, 'z) hsm_scheme
    \<Rightarrow> ('s, 'u, 'z) hsm_scheme result" where
  "enter_seq H [] h = Inr h"
| "enter_seq H (s # ss) h = bindE (call H s Entry_Signal h) (\<lambda>(_, h). enter_seq H ss h)"

text \<open>\<open>Hsm::init\<close>: the outer \<open>do\<close>-\<open>while\<close> loop (bounded by the fuel \<open>n\<close>) and the function.\<close>

fun init_loop :: "nat \<Rightarrow> ('s, 'u, 'z) handlers \<Rightarrow> 's sref \<Rightarrow> ('s, 'u, 'z) hsm_scheme
    \<Rightarrow> ('s sref \<times> ('s, 'u, 'z) hsm_scheme) result" where
  "init_loop 0 H t h = Inl Out_Of_Fuel"
| "init_loop (Suc n) H t h =
     (let p0 = htemp h in
      bindE (call H p0 None_Signal h) (\<lambda>(_, h).
      bindE (climb (kMaxNest - 1) H (\<lambda>_ x. x = t) [p0] p0 h) (\<lambda>(path, h).
      bindE (enter_seq H (rev path) h) (\<lambda>h.
      bindE (call H p0 Init_Signal (h\<lparr>htemp := p0\<rparr>)) (\<lambda>(r, h).
        if r = NEED_TO_TRANSFER then init_loop n H p0 h else Inr (p0, h))))))"

definition init :: "nat \<Rightarrow> ('s, 'u, 'z) handlers \<Rightarrow> 's sref \<Rightarrow> ('s, 'u, 'z) hsm_scheme
    \<Rightarrow> ('s, 'u, 'z) hsm_scheme result" where
  "init n H initial h =
     (if initial = Null_St then Inl Assert_Failed
      else bindE (init_loop n H Top_St (h\<lparr>hstate := Top_St, htemp := initial\<rparr>)) (\<lambda>(t, h).
        Inr (trace None_Signal Top_St t (h\<lparr>hstate := t, htemp := t\<rparr>))))"

text \<open>Part 1 of \<open>dispatch\<close>: from the current state upward until a handler takes the event.\<close>

fun walk :: "nat \<Rightarrow> ('s, 'u, 'z) handlers \<Rightarrow> 'u event \<Rightarrow> ('s, 'u, 'z) hsm_scheme
    \<Rightarrow> (status \<times> 's sref \<times> ('s, 'u, 'z) hsm_scheme) result" where
  "walk 0 H e h = Inl Out_Of_Fuel"
| "walk (Suc n) H e h =
     (let s = htemp h in
      bindE (call H s e (probe e s HandlerVisit h)) (\<lambda>(r, h).
        if r = UNHANDLED then bindE (call H s None_Signal h) (\<lambda>(_, h). walk n H e h)
        else if r = TO_SUPER then walk n H e h
        else Inr (r, s, h)))"

text \<open>One iteration of the exit loops 2a and 2c; the next state is left in \<open>htemp\<close>.\<close>

definition exit_step :: "('s, 'u, 'z) handlers \<Rightarrow> 's sref \<Rightarrow> ('s, 'u, 'z) hsm_scheme
    \<Rightarrow> ('s, 'u, 'z) hsm_scheme result" where
  "exit_step H cur h =
     bindE (call H cur Exit_Signal h) (\<lambda>(r, h).
       if r = HANDLED then bindE (call H cur None_Signal h) (\<lambda>(_, h). Inr h) else Inr h)"

text \<open>Part 2a: exit from the current state up to, but excluding, the handling state.\<close>

fun exit_to :: "nat \<Rightarrow> ('s, 'u, 'z) handlers \<Rightarrow> 's sref \<Rightarrow> 's sref \<Rightarrow> ('s, 'u, 'z) hsm_scheme
    \<Rightarrow> ('s, 'u, 'z) hsm_scheme result" where
  "exit_to 0 H cur s h = (if cur = s then Inr h else Inl Out_Of_Fuel)"
| "exit_to (Suc n) H cur s h =
     (if cur = s then Inr h
      else bindE (exit_step H cur h) (\<lambda>h. exit_to n H (htemp h) s h))"

fun index_of :: "'a \<Rightarrow> 'a list \<Rightarrow> nat option" where
  "index_of x [] = None"
| "index_of x (y # ys) = (if y = x then Some 0 else map_option Suc (index_of x ys))"

text \<open>
  Part 2c: exit from the handling state upward until a state of the target's lineage; its
  index in \<open>tpath\<close>, or \<open>length tpath\<close> (\<open>tn\<close>) when the walk reaches \<open>Hsm::top\<close>.
\<close>

fun find_lca :: "nat \<Rightarrow> ('s, 'u, 'z) handlers \<Rightarrow> 's sref list \<Rightarrow> 's sref \<Rightarrow> ('s, 'u, 'z) hsm_scheme
    \<Rightarrow> (nat \<times> ('s, 'u, 'z) hsm_scheme) result" where
  "find_lca 0 H tpath cur h = (if cur = Top_St then Inr (length tpath, h) else Inl Out_Of_Fuel)"
| "find_lca (Suc n) H tpath cur h =
     (if cur = Top_St then Inr (length tpath, h)
      else case index_of cur tpath of
        Some i \<Rightarrow> Inr (i, h)
      | None \<Rightarrow> bindE (exit_step H cur h) (\<lambda>h. find_lca n H tpath (htemp h) h))"

text \<open>Part 3: follow \<open>Init_Signal\<close> transitions down to a leaf.\<close>

fun init_drill :: "nat \<Rightarrow> ('s, 'u, 'z) handlers \<Rightarrow> 's sref \<Rightarrow> ('s, 'u, 'z) hsm_scheme
    \<Rightarrow> ('s sref \<times> ('s, 'u, 'z) hsm_scheme) result" where
  "init_drill 0 H cur h = Inl Out_Of_Fuel"
| "init_drill (Suc n) H cur h =
     bindE (call H cur Init_Signal (h\<lparr>htemp := cur\<rparr>)) (\<lambda>(r, h).
       if r \<noteq> NEED_TO_TRANSFER then Inr (cur, h)
       else let new_target = htemp h in
         bindE (call H new_target None_Signal h) (\<lambda>(_, h).
         bindE (climb (kMaxNest - 1) H (\<lambda>_ x. x = cur \<or> x = Top_St) [new_target] new_target h)
           (\<lambda>(npath, h).
         bindE (enter_seq H (rev npath) h) (\<lambda>h. init_drill n H new_target h))))"

text \<open>Parts 2b to 2d: exits and entries of the transition from \<open>s\<close> to \<open>target\<close>.\<close>

definition transfer :: "nat \<Rightarrow> ('s, 'u, 'z) handlers \<Rightarrow> 's sref \<Rightarrow> 's sref
    \<Rightarrow> ('s, 'u, 'z) hsm_scheme \<Rightarrow> ('s, 'u, 'z) hsm_scheme result" where
  "transfer n H s target h =
     (if s = target then
        bindE (call H s Exit_Signal h) (\<lambda>(_, h).
        bindE (call H target Entry_Signal h) (\<lambda>(_, h). Inr h))
      else
        bindE (collect_lineage H target h) (\<lambda>(tpath, h).
        bindE (find_lca n H tpath s h) (\<lambda>(lca_idx, h).
        enter_seq H (rev (take lca_idx tpath)) h)))"

definition user_signal :: "'u event \<Rightarrow> bool" where
  "user_signal e \<longleftrightarrow> (case e of User _ \<Rightarrow> True | _ \<Rightarrow> False)"

text \<open>The end of a dispatch without a transition.\<close>

definition settle_unchanged :: "'u event \<Rightarrow> 's sref \<Rightarrow> status \<Rightarrow> 's sref \<Rightarrow> ('s, 'u, 'z) hsm_scheme
    \<Rightarrow> ('s, 'u, 'z) hsm_scheme" where
  "settle_unchanged e s r original h =
     (let h = (if r = IGNORED then probe e s Ignored h
               else if user_signal e then probe e s Hook h else h);
          h = (if r = IGNORED then h\<lparr>last_ignored := True\<rparr> else h)
      in h\<lparr>hstate := original, htemp := original\<rparr>)"

definition dispatch :: "nat \<Rightarrow> ('s, 'u, 'z) handlers \<Rightarrow> 'u event \<Rightarrow> ('s, 'u, 'z) hsm_scheme
    \<Rightarrow> ('s, 'u, 'z) hsm_scheme result" where
  "dispatch n H e h =
     (let original = hstate h in
      bindE (walk n H e (h\<lparr>last_ignored := False, htemp := original\<rparr>)) (\<lambda>(r, s, h).
        if r \<noteq> NEED_TO_TRANSFER then Inr (settle_unchanged e s r original h)
        else let target = htemp h in
          bindE (exit_to n H original s h) (\<lambda>h.
          bindE (transfer n H s target h) (\<lambda>h.
          bindE (init_drill n H target h) (\<lambda>(leaf, h).
          Inr (trace e original leaf (h\<lparr>hstate := leaf, htemp := leaf\<rparr>)))))))"

end
