(* ===== verification/Chart_Uml.thy ===== *)
theory Chart_Uml
  imports Chart_Hsm
begin

text \<open>
  The reference semantics of a hierarchical state chart, stated on the tree of states and not
  on the way \<open>hsm.hpp\<close> walks it, the contract a set of state handlers has to keep (the locale
  \<open>state_chart\<close>), and the refinement: for handlers that keep the contract, \<open>Hsm::dispatch\<close> and
  \<open>Hsm::init\<close> compute the reference semantics and never fail an assertion or loop.
\<close>

section \<open>Reference semantics\<close>

text \<open>
  \<open>par s\<close> is the super-state of \<open>s\<close>, \<open>ini s\<close> the target of its initial transition, \<open>en s\<close> and
  \<open>ex s\<close> its entry and exit actions. \<open>lin par s\<close> is \<open>s\<close> and its proper ancestors, innermost
  first.
\<close>

fun chain :: "('s \<Rightarrow> 's sref) \<Rightarrow> nat \<Rightarrow> 's sref \<Rightarrow> 's list" where
  "chain par (Suc n) (St s) = s # chain par n (par s)"
| "chain par n r = []"

definition lin :: "('s \<Rightarrow> 's sref) \<Rightarrow> 's sref \<Rightarrow> 's list" where
  "lin par r = chain par kMaxNest r"

fun reaches_top :: "('s \<Rightarrow> 's sref) \<Rightarrow> nat \<Rightarrow> 's sref \<Rightarrow> bool" where
  "reaches_top par n Top_St = True"
| "reaches_top par (Suc n) (St s) = reaches_top par n (par s)"
| "reaches_top par n r = False"

text \<open>Offer the event to each state of a lineage in turn until one takes it.\<close>

fun resolve :: "('s, 'u, 'z) handlers \<Rightarrow> 'u event \<Rightarrow> 's list \<Rightarrow> ('s, 'u, 'z) hsm_scheme
    \<Rightarrow> (status \<times> 's sref \<times> ('s, 'u, 'z) hsm_scheme) result" where
  "resolve H e [] h = Inr (IGNORED, Top_St, probe e Top_St HandlerVisit (h\<lparr>htemp := Top_St\<rparr>))"
| "resolve H e (s # ss) h =
     bindE (H s e (probe e (St s) HandlerVisit (h\<lparr>htemp := St s\<rparr>))) (\<lambda>(r, h).
       if r = TO_SUPER \<or> r = UNHANDLED then resolve H e ss h else Inr (r, St s, h))"

text \<open>
  A transition taken by \<open>s\<close> with target \<open>t\<close> while the leaf \<open>c\<close> is active leaves every state
  below \<open>s\<close>, then the states of \<open>s\<close>'s lineage that are not ancestors of the target; it enters
  the target's lineage below the common ancestor, outermost first. A self-transition leaves
  and re-enters \<open>s\<close>.
\<close>

definition exits :: "('s \<Rightarrow> 's sref) \<Rightarrow> 's \<Rightarrow> 's \<Rightarrow> 's \<Rightarrow> 's list" where
  "exits par c s t =
     takeWhile (\<lambda>x. x \<noteq> s) (lin par (St c)) @
     (if s = t then [s] else takeWhile (\<lambda>x. x \<notin> set (lin par (St t))) (lin par (St s)))"

definition entries :: "('s \<Rightarrow> 's sref) \<Rightarrow> 's \<Rightarrow> 's \<Rightarrow> 's list" where
  "entries par s t =
     (if s = t then [t] else rev (takeWhile (\<lambda>x. x \<notin> set (lin par (St s))) (lin par (St t))))"

text \<open>Initial transitions: the leaf reached from \<open>s\<close> and the states entered on the way.\<close>

fun settle :: "('s \<Rightarrow> 's sref) \<Rightarrow> ('s \<Rightarrow> 's option) \<Rightarrow> nat \<Rightarrow> 's \<Rightarrow> 's \<times> 's list" where
  "settle par ini 0 s = (s, [])"
| "settle par ini (Suc n) s =
     (case ini s of
        None \<Rightarrow> (s, [])
      | Some t \<Rightarrow> (case settle par ini n t of
          (l, xs) \<Rightarrow> (l, rev (takeWhile (\<lambda>x. x \<noteq> s) (lin par (St t))) @ xs)))"

definition uml_dispatch :: "('s \<Rightarrow> 's sref) \<Rightarrow> ('s \<Rightarrow> 's option)
    \<Rightarrow> ('s \<Rightarrow> ('s, 'u, 'z) hsm_scheme \<Rightarrow> ('s, 'u, 'z) hsm_scheme)
    \<Rightarrow> ('s \<Rightarrow> ('s, 'u, 'z) hsm_scheme \<Rightarrow> ('s, 'u, 'z) hsm_scheme)
    \<Rightarrow> ('s, 'u, 'z) handlers \<Rightarrow> 'u \<Rightarrow> 's \<Rightarrow> ('s, 'u, 'z) hsm_scheme
    \<Rightarrow> ('s, 'u, 'z) hsm_scheme result" where
  "uml_dispatch par ini en ex H u c h =
     bindE (resolve H (User u) (lin par (St c)) (h\<lparr>last_ignored := False\<rparr>)) (\<lambda>(r, src, h1).
       case (r, src, htemp h1) of
         (NEED_TO_TRANSFER, St s, St t) \<Rightarrow>
           (let (leaf, ys) = settle par ini kMaxNest t;
                h2 = fold en (entries par s t @ ys) (fold ex (exits par c s t) h1)
            in Inr (trace (User u) (St c) (St leaf) (h2\<lparr>hstate := St leaf, htemp := St leaf\<rparr>)))
       | _ \<Rightarrow> Inr (settle_unchanged (User u) src r (St c) h1))"

lemma chain_stable:
  "reaches_top par n r \<Longrightarrow> n \<le> m \<Longrightarrow> chain par m r = chain par n r"
proof (induction n arbitrary: m r)
  case 0
  then show ?case by (cases r; cases m) auto
next
  case (Suc n)
  then obtain m' where m: "m = Suc m'" "n \<le> m'" by (cases m) auto
  show ?case
  proof (cases r)
    case (St s)
    with Suc.prems m Suc.IH [of "par s" m'] show ?thesis by simp
  qed (simp_all add: m)
qed

lemma length_chain: "length (chain par n r) \<le> n"
proof (induction n arbitrary: r)
  case (Suc n)
  then show ?case by (cases r) auto
qed simp

lemma index_of_None: "index_of x ys = None \<longleftrightarrow> x \<notin> set ys"
  by (induction ys) auto

lemma index_of_append: "x \<notin> set ys \<Longrightarrow> index_of x (ys @ x # zs) = Some (length ys)"
  by (induction ys) auto

lemma resolve_temp [simp]: "resolve H e xs (h\<lparr>htemp := t\<rparr>) = resolve H e xs h"
  by (cases xs) simp_all

lemma htemp_upd_same [simp]: "htemp h = t \<Longrightarrow> h\<lparr>htemp := t\<rparr> = h"
  by (cases h) simp

lemma htemp_upd_ex [simp]: "\<exists>t. h = h\<lparr>htemp := t\<rparr>"
  by (rule exI [of _ "htemp h"]) simp

section \<open>The contract of state handlers\<close>

text \<open>
  What \<open>Hsm\<close> relies on: \<open>None_Signal\<close> only reports the super-state, except in a \<open>sink\<close>: a
  top-level state that handles every event itself, never transitions and leaves \<open>None_Signal\<close>
  unanswered (\<open>collect_lineage\<close> stops there because \<open>temp_\<close> is still the state itself); the
  depth is within \<open>kMaxNest\<close>; entry, exit and initial handlers do not fail and their effect does not depend on
  the scratch slot; an exit handler that is not \<open>HANDLED\<close> has reported its super-state; the
  initial transition goes to a proper descendant; on a user signal a handler that delegates
  reports its super-state, and a transition has a proper state as its target.
\<close>

locale state_chart =
  fixes H :: "('s, 'u, 'z) handlers"
    and par :: "'s \<Rightarrow> 's sref"
    and ini :: "'s \<Rightarrow> 's option"
    and en ex :: "'s \<Rightarrow> ('s, 'u, 'z) hsm_scheme \<Rightarrow> ('s, 'u, 'z) hsm_scheme"
    and sink :: "'s \<Rightarrow> bool"
  assumes none_signal: "\<not> sink s \<Longrightarrow> H s None_Signal h = Inr (TO_SUPER, h\<lparr>htemp := par s\<rparr>)"
    and none_sink: "sink s \<Longrightarrow> H s None_Signal h = Inr (HANDLED, h)"
    and sink_top: "sink s \<Longrightarrow> par s = Top_St"
    and sink_leaf: "par s = St p \<Longrightarrow> \<not> sink p"
    and sink_user: "sink s \<Longrightarrow> H s (User u) h = Inr (r, h') \<Longrightarrow> r = HANDLED \<or> r = IGNORED"
    and depth: "reaches_top par kMaxNest (St s)"
    and entry: "\<exists>r t. H s Entry_Signal h = Inr (r, (en s h)\<lparr>htemp := t\<rparr>)"
    and exit: "\<not> sink s \<Longrightarrow>
      \<exists>r t. H s Exit_Signal h = Inr (r, (ex s h)\<lparr>htemp := t\<rparr>) \<and> (r = HANDLED \<or> t = par s)"
    and en_temp: "en s (h\<lparr>htemp := x\<rparr>) = (en s h)\<lparr>htemp := x\<rparr>"
    and ex_temp: "ex s (h\<lparr>htemp := x\<rparr>) = (ex s h)\<lparr>htemp := x\<rparr>"
    and init_some: "ini s = Some t \<Longrightarrow> H s Init_Signal h = Inr (NEED_TO_TRANSFER, h\<lparr>htemp := St t\<rparr>)"
    and init_none: "ini s = None \<Longrightarrow>
      \<exists>r t. H s Init_Signal h = Inr (r, h\<lparr>htemp := t\<rparr>) \<and> r \<noteq> NEED_TO_TRANSFER"
    and init_below: "ini s = Some t \<Longrightarrow> s \<in> set (lin par (St t)) \<and> t \<noteq> s"
    and user_super: "H s (User u) h = Inr (TO_SUPER, h') \<Longrightarrow> htemp h' = par s"
    and user_to: "H s (User u) h = Inr (NEED_TO_TRANSFER, h') \<Longrightarrow> \<exists>t. htemp h' = St t"
begin

subsection \<open>Lineages\<close>

lemma reaches_par: "reaches_top par (kMaxNest - 1) (par s)"
  using depth [of s] by (simp add: kMaxNest_def numeral_eq_Suc)

lemma par_not_null: "par s \<noteq> Null_St"
  using reaches_par [of s] by (auto simp: kMaxNest_def)

lemma lin_Top [simp]: "lin par Top_St = []"
  by (simp add: lin_def)

lemma lin_St: "lin par (St s) = s # lin par (par s)"
proof -
  have "lin par (St s) = s # chain par (kMaxNest - 1) (par s)"
    by (simp add: lin_def kMaxNest_def numeral_eq_Suc)
  also have "chain par (kMaxNest - 1) (par s) = lin par (par s)"
    using chain_stable [OF reaches_par, of kMaxNest s] by (simp add: lin_def)
  finally show ?thesis .
qed

lemma length_lin: "length (lin par r) \<le> kMaxNest"
  by (simp add: lin_def length_chain)

lemma lin_induct [case_names sup]:
  assumes "\<And>s. (\<And>p. par s = St p \<Longrightarrow> P p) \<Longrightarrow> P s"
  shows "P s"
proof (induction "length (lin par (St s))" arbitrary: s rule: less_induct)
  case less
  show ?case
  proof (rule assms)
    fix p assume "par s = St p"
    then show "P p" using less by (simp add: lin_St [of s])
  qed
qed

lemma lin_shorter: "par s = St p \<Longrightarrow> length (lin par (St p)) < length (lin par (St s))"
  by (simp add: lin_St [of s])

lemma lin_suffix: "x \<in> set (lin par (St s)) \<Longrightarrow> \<exists>ys. lin par (St s) = ys @ lin par (St x)"
proof (induction s rule: lin_induct)
  case (sup s)
  show ?case
  proof (cases "x = s")
    case True
    then show ?thesis by auto
  next
    case False
    with sup.prems have x: "x \<in> set (lin par (par s))" by (simp add: lin_St [of s])
    then obtain p where p: "par s = St p"
      using par_not_null [of s] by (cases "par s") auto
    with sup.IH [OF p] x obtain ys where "lin par (St p) = ys @ lin par (St x)" by auto
    then have "lin par (St s) = (s # ys) @ lin par (St x)" by (simp add: lin_St [of s] p)
    then show ?thesis by blast
  qed
qed

lemma lin_trans:
  "y \<in> set (lin par (St x)) \<Longrightarrow> x \<in> set (lin par (St s)) \<Longrightarrow> y \<in> set (lin par (St s))"
  using lin_suffix [of x s] by auto

lemma distinct_lin: "distinct (lin par (St s))"
proof (induction s rule: lin_induct)
  case (sup s)
  show ?case
  proof (cases "par s")
    case (St p)
    have "s \<notin> set (lin par (St p))"
    proof
      assume "s \<in> set (lin par (St p))"
      then obtain ys where "lin par (St p) = ys @ lin par (St s)" using lin_suffix by blast
      then have "length (lin par (St s)) \<le> length (lin par (St p))" by simp
      with lin_shorter [OF St] show False by simp
    qed
    with sup.IH [OF St] show ?thesis by (simp add: lin_St [of s] St)
  qed (simp_all add: lin_St [of s] par_not_null)
qed

subsection \<open>The walks of the dispatcher\<close>

lemma fold_ex_temp: "fold ex xs (h\<lparr>htemp := t\<rparr>) = (fold ex xs h)\<lparr>htemp := t\<rparr>"
  by (induction xs arbitrary: h) (simp_all add: ex_temp)

lemma fold_en_temp: "fold en xs (h\<lparr>htemp := t\<rparr>) = (fold en xs h)\<lparr>htemp := t\<rparr>"
  by (induction xs arbitrary: h) (simp_all add: en_temp)

lemma walk_resolve:
  "htemp h \<noteq> Null_St \<Longrightarrow> length (lin par (htemp h)) < n \<Longrightarrow>
   walk n H (User u) h = resolve H (User u) (lin par (htemp h)) h"
proof (induction n arbitrary: h)
  case (Suc n)
  show ?case
  proof (cases "htemp h")
    case (St s)
    let ?h0 = "probe (User u) (St s) HandlerVisit h"
    have len: "length (lin par (par s)) < n" using Suc.prems(2) by (simp add: St lin_St [of s])
    show ?thesis
    proof (cases "H s (User u) ?h0")
      case (Inr rh)
      then obtain r h' where rh: "H s (User u) ?h0 = Inr (r, h')" by (cases rh) auto
      have sink: "r = UNHANDLED \<Longrightarrow> \<not> sink s" using sink_user [OF _ rh] by auto
      consider "r = UNHANDLED" | "r = TO_SUPER" | "r \<noteq> UNHANDLED" "r \<noteq> TO_SUPER" by blast
      then show ?thesis
      proof cases
        case 1
        with rh len Suc.IH [of "h'\<lparr>htemp := par s\<rparr>"] sink show ?thesis
          by (simp add: St lin_St [of s] none_signal par_not_null)
      next
        case 2
        with rh have "htemp h' = par s" using user_super by blast
        with 2 rh len Suc.IH [of h'] show ?thesis
          by (simp add: St lin_St [of s] par_not_null)
      qed (use rh in \<open>simp add: St lin_St [of s]\<close>)
    qed (simp add: St lin_St [of s])
  qed (use Suc.prems in simp_all)
qed simp

lemma exit_step_St: "\<not> sink s \<Longrightarrow> exit_step H (St s) h = Inr ((ex s h)\<lparr>htemp := par s\<rparr>)"
  using exit [of s h] by (auto simp: exit_step_def none_signal)

lemma exit_to_lin:
  "s \<in> set (lin par (St c)) \<Longrightarrow> length (lin par (St c)) \<le> n \<Longrightarrow>
   \<exists>t. exit_to n H (St c) (St s) h =
     Inr ((fold ex (takeWhile (\<lambda>x. x \<noteq> s) (lin par (St c))) h)\<lparr>htemp := t\<rparr>)"
proof (induction n arbitrary: c h)
  case 0
  then show ?case by (simp add: lin_St [of c])
next
  case (Suc n)
  show ?case
  proof (cases "c = s")
    case True
    then show ?thesis by (intro exI [of _ "htemp h"]) (simp add: lin_St [of s])
  next
    case False
    with Suc.prems obtain p where p: "par c = St p"
      using par_not_null [of c] by (cases "par c") (auto simp: lin_St [of c])
    with Suc.prems False have "s \<in> set (lin par (St p))" "length (lin par (St p)) \<le> n"
      by (auto simp: lin_St [of c])
    moreover have "\<not> sink c" using sink_top [of c] p by auto
    ultimately show ?thesis using Suc.IH [of p "(ex c h)\<lparr>htemp := St p\<rparr>"] False
      by (auto simp: exit_step_St p lin_St [of c] fold_ex_temp)
  qed
qed

lemma takeWhile_common:
  assumes "s \<in> set (lin par (St t))"
  shows "\<exists>ys. lin par (St t) = ys @ lin par (St s) \<and> s \<notin> set ys \<and>
     takeWhile (\<lambda>x. x \<notin> set (lin par (St s))) (lin par (St t)) = ys"
proof -
  obtain ys where ys: "lin par (St t) = ys @ lin par (St s)" using lin_suffix [OF assms] by blast
  have disj: "set ys \<inter> set (lin par (St s)) = {}" using distinct_lin [of t] by (simp add: ys)
  have "takeWhile (\<lambda>x. x \<notin> set (lin par (St s))) (ys @ lin par (St s)) = ys"
    using disj by (subst takeWhile_append2) (auto simp: lin_St [of s])
  moreover have "s \<notin> set ys" using disj by (auto simp: lin_St [of s])
  ultimately show ?thesis using ys by auto
qed

lemma find_lca_lin:
  "\<not> sink s \<Longrightarrow> length (lin par (St s)) \<le> n \<Longrightarrow>
   \<exists>i x. find_lca n H (map St (lin par (St t))) (St s) h =
       Inr (i, (fold ex (takeWhile (\<lambda>y. y \<notin> set (lin par (St t))) (lin par (St s))) h)\<lparr>htemp := x\<rparr>) \<and>
     take i (map St (lin par (St t))) =
       map St (takeWhile (\<lambda>y. y \<notin> set (lin par (St s))) (lin par (St t)))"
proof (induction n arbitrary: s h)
  case 0
  then show ?case by (simp add: lin_St [of s])
next
  case (Suc n)
  let ?L = "lin par (St t)"
  show ?case
  proof (cases "s \<in> set ?L")
    case True
    then obtain ys where ys: "?L = ys @ lin par (St s)" "s \<notin> set ys"
      "takeWhile (\<lambda>y. y \<notin> set (lin par (St s))) ?L = ys" using takeWhile_common by blast
    have "index_of (St s) (map St ?L) = Some (length ys)"
      using index_of_append [of "St s" "map St ys"] ys(2) by (auto simp: ys(1) lin_St [of s])
    with True ys show ?thesis
      by (intro exI [of _ "length ys"] exI [of _ "htemp h"]) (simp add: lin_St [of s])
  next
    case False
    let ?h = "(ex s h)\<lparr>htemp := par s\<rparr>"
    have step: "find_lca (Suc n) H (map St ?L) (St s) h = find_lca n H (map St ?L) (par s) ?h"
    proof -
      have "index_of (St s) (map St ?L) = None" using False by (auto simp: index_of_None)
      then show ?thesis using Suc.prems(1) by (simp add: exit_step_St)
    qed
    show ?thesis
    proof (cases "par s")
      case (St p)
      have same: "takeWhile (\<lambda>y. y \<notin> set (lin par (St s))) ?L =
          takeWhile (\<lambda>y. y \<notin> set (lin par (St p))) ?L"
        using False by (intro takeWhile_cong) (auto simp: lin_St [of s] St)
      have "length (lin par (St p)) \<le> n" using Suc.prems by (simp add: lin_St [of s] St)
      from Suc.IH [OF sink_leaf [OF St] this, of ?h] False show ?thesis
        unfolding same step by (auto simp: St lin_St [of s] fold_ex_temp)
    next
      case Top_St
      then show ?thesis using False unfolding step
        by (intro exI [of _ "length ?L"] exI [of _ Top_St])
          (cases n; simp add: lin_St [of s] takeWhile_notin_all)
    qed (simp add: par_not_null)
  qed
qed

lemma climb_lin:
  assumes stop: "\<And>c x. par c = St x \<Longrightarrow> stop (St c) (St x) = P x"
  shows "length (lin par (par c)) \<le> k \<Longrightarrow> htemp h = par c \<Longrightarrow>
    (\<forall>c. stop (St c) Top_St) \<or> (\<exists>x \<in> set (lin par (par c)). P x) \<Longrightarrow>
    \<exists>r. climb k H stop out (St c) h =
      Inr (out @ map St (takeWhile (\<lambda>x. \<not> P x) (lin par (par c))), h\<lparr>htemp := r\<rparr>)"
proof (induction k arbitrary: c out h)
  case 0
  then show ?case
    using par_not_null [of c] by (cases "par c") (auto simp: lin_St intro!: exI [of _ "htemp h"])
next
  case (Suc k)
  show ?case
  proof (cases "par c")
    case Top_St
    with Suc.prems show ?thesis by (auto intro!: exI [of _ "htemp h"])
  next
    case (St x)
    show ?thesis
    proof (cases "P x")
      case True
      with Suc.prems(2) St stop [OF St] show ?thesis
        by (auto simp: lin_St intro!: exI [of _ "htemp h"])
    next
      case False
      have "length (lin par (par x)) \<le> k" using Suc.prems(1) by (simp add: St lin_St)
      moreover have "(\<forall>c. stop (St c) Top_St) \<or> (\<exists>x \<in> set (lin par (par x)). P x)"
        using Suc.prems(3) False by (auto simp: St lin_St)
      ultimately obtain r where "climb k H stop (out @ [St x]) (St x) (h\<lparr>htemp := par x\<rparr>) =
          Inr ((out @ [St x]) @ map St (takeWhile (\<lambda>x. \<not> P x) (lin par (par x))),
               h\<lparr>htemp := par x, htemp := r\<rparr>)"
        using Suc.IH [of x "h\<lparr>htemp := par x\<rparr>" "out @ [St x]"] by auto
      with Suc.prems(2) St stop [OF St] False show ?thesis
        by (auto simp: none_signal [OF sink_leaf [OF St]] lin_St)
    qed
  qed (simp add: par_not_null)
qed

lemma length_lin_par: "length (lin par (par s)) \<le> kMaxNest - 1"
  using length_lin [of "St s"] by (simp add: lin_St)

lemma collect_lineage_lin: "collect_lineage H (St t) h = Inr (map St (lin par (St t)), h)"
proof (cases "sink t")
  case True
  then show ?thesis
    by (simp add: collect_lineage_def none_sink lin_St [of t] sink_top kMaxNest_def numeral_eq_Suc)
next
  case False
  have stop: "(St x = Top_St \<or> St x = St c) = False" if "par c = St x" for c x
    using lin_shorter [OF that] by auto
  obtain r where "climb (kMaxNest - 1) H (\<lambda>cur t. t = Top_St \<or> t = cur) [St t] (St t)
      (h\<lparr>htemp := par t\<rparr>) =
    Inr ([St t] @ map St (takeWhile (\<lambda>x. \<not> False) (lin par (par t))), h\<lparr>htemp := par t, htemp := r\<rparr>)"
    using climb_lin [where P = "\<lambda>_. False" and stop = "\<lambda>cur t. t = Top_St \<or> t = cur"
        and c = t and h = "h\<lparr>htemp := par t\<rparr>" and out = "[St t]", OF stop length_lin_par] by auto
  with False show ?thesis by (simp add: collect_lineage_def none_signal lin_St [of t])
qed

lemma enter_seq_St: "\<exists>t. enter_seq H (map St xs) h = Inr ((fold en xs h)\<lparr>htemp := t\<rparr>)"
proof (induction xs arbitrary: h)
  case Nil
  show ?case by (auto intro: exI [of _ "htemp h"])
next
  case (Cons s xs)
  obtain r t where "H s Entry_Signal h = Inr (r, (en s h)\<lparr>htemp := t\<rparr>)" using entry by blast
  with Cons.IH [of "(en s h)\<lparr>htemp := t\<rparr>"] show ?case by (auto simp: fold_en_temp)
qed

lemma transfer_lin:
  assumes "kMaxNest \<le> n" and src: "\<not> sink s"
  shows "\<exists>x. transfer n H (St s) (St t) h =
    Inr ((fold en (entries par s t) (fold ex (if s = t then [s] else
      takeWhile (\<lambda>y. y \<notin> set (lin par (St t))) (lin par (St s))) h))\<lparr>htemp := x\<rparr>)"
proof (cases "s = t")
  case True
  obtain r x where r: "H s Exit_Signal h = Inr (r, (ex s h)\<lparr>htemp := x\<rparr>)"
    using exit [OF src] by blast
  obtain r' x' where "H s Entry_Signal ((ex s h)\<lparr>htemp := x\<rparr>) =
      Inr (r', (en s ((ex s h)\<lparr>htemp := x\<rparr>))\<lparr>htemp := x'\<rparr>)" using entry by blast
  with True r show ?thesis by (auto simp: transfer_def entries_def en_temp)
next
  case False
  let ?L = "lin par (St t)" and ?xs = "takeWhile (\<lambda>y. y \<notin> set (lin par (St t))) (lin par (St s))"
  have "length (lin par (St s)) \<le> n" using length_lin [of "St s"] assms by simp
  from find_lca_lin [OF src this, of t h] obtain i x where
    lca: "find_lca n H (map St ?L) (St s) h = Inr (i, (fold ex ?xs h)\<lparr>htemp := x\<rparr>)" and
    i: "take i (map St ?L) = map St (takeWhile (\<lambda>y. y \<notin> set (lin par (St s))) ?L)" by blast
  obtain x' where "enter_seq H (map St (entries par s t)) ((fold ex ?xs h)\<lparr>htemp := x\<rparr>) =
      Inr ((fold en (entries par s t) ((fold ex ?xs h)\<lparr>htemp := x\<rparr>))\<lparr>htemp := x'\<rparr>)"
    using enter_seq_St by blast
  with False lca i show ?thesis
    by (auto simp: transfer_def collect_lineage_lin entries_def rev_map fold_en_temp)
qed

lemma init_longer:
  assumes "ini c = Some t"
  shows "length (lin par (St c)) < length (lin par (St t))"
proof -
  from init_below [OF assms] obtain ys where ys: "lin par (St t) = ys @ lin par (St c)" and "t \<noteq> c"
    using lin_suffix by blast
  then have "ys \<noteq> []" by (auto simp: lin_St)
  with ys show ?thesis by simp
qed

lemma init_target_no_sink: "ini c = Some t \<Longrightarrow> \<not> sink t"
  using init_below [of c t] sink_top [of t] by (auto simp: lin_St [of t])

lemma init_drill_settle:
  "kMaxNest - length (lin par (St c)) < n \<Longrightarrow> kMaxNest - length (lin par (St c)) \<le> m \<Longrightarrow>
   settle par ini m c = (l, ys) \<Longrightarrow>
   \<exists>x. init_drill n H (St c) h = Inr (St l, (fold en ys h)\<lparr>htemp := x\<rparr>)"
proof (induction n arbitrary: c h m l ys)
  case (Suc n)
  show ?case
  proof (cases "ini c")
    case None
    then obtain r t where "H c Init_Signal (h\<lparr>htemp := St c\<rparr>) = Inr (r, h\<lparr>htemp := St c, htemp := t\<rparr>)"
      "r \<noteq> NEED_TO_TRANSFER" using init_none [of c "h\<lparr>htemp := St c\<rparr>"] by blast
    moreover have "l = c" "ys = []" using Suc.prems(3) None by (cases m; simp)+
    ultimately show ?thesis by auto
  next
    case (Some t)
    note longer = init_longer [OF Some] and below = init_below [OF Some]
    have max: "length (lin par (St t)) \<le> kMaxNest" by (rule length_lin)
    then obtain m' where m: "m = Suc m'" using Suc.prems(2) longer by (cases m) auto
    obtain zs where t: "settle par ini m' t = (l, zs)" and
      ys: "ys = rev (takeWhile (\<lambda>x. x \<noteq> c) (lin par (St t))) @ zs"
      using Suc.prems(3) by (auto simp: m Some split: prod.splits)
    obtain r where climb: "climb (kMaxNest - 1) H (\<lambda>_ x. x = St c \<or> x = Top_St) [St t] (St t)
        (h\<lparr>htemp := par t\<rparr>) =
      Inr ([St t] @ map St (takeWhile (\<lambda>x. \<not> x = c) (lin par (par t))), h\<lparr>htemp := par t, htemp := r\<rparr>)"
      using climb_lin [where P = "\<lambda>x. x = c" and stop = "\<lambda>_ x. x = St c \<or> x = Top_St"
          and c = t and h = "h\<lparr>htemp := par t\<rparr>" and out = "[St t]", OF _ length_lin_par] by auto
    let ?es = "rev (takeWhile (\<lambda>x. x \<noteq> c) (lin par (St t)))"
    have npath: "rev ([St t] @ map St (takeWhile (\<lambda>x. \<not> x = c) (lin par (par t)))) = map St ?es"
      using below by (simp add: lin_St [of t] rev_map)
    obtain x where enter: "enter_seq H (map St ?es) (h\<lparr>htemp := r\<rparr>) =
        Inr ((fold en ?es (h\<lparr>htemp := r\<rparr>))\<lparr>htemp := x\<rparr>)" using enter_seq_St by blast
    have "kMaxNest - length (lin par (St t)) < n" "kMaxNest - length (lin par (St t)) \<le> m'"
      using Suc.prems(1,2) longer max by (auto simp: m)
    from Suc.IH [OF this t, of "(fold en ?es h)\<lparr>htemp := x\<rparr>"]
    show ?thesis using climb enter npath
      by (auto simp: init_some [OF Some] none_signal [OF init_target_no_sink [OF Some]] fold_en_temp ys)
  qed
qed simp

lemma resolve_transfer:
  "resolve H (User u) xs h = Inr (NEED_TO_TRANSFER, src, h') \<Longrightarrow>
   \<exists>s t. src = St s \<and> s \<in> set xs \<and> \<not> sink s \<and> htemp h' = St t"
proof (induction xs arbitrary: h)
  case (Cons a xs)
  from Cons.prems show ?case
    by (auto simp: bindE_eq_Inr split: if_splits dest: user_to sink_user dest!: Cons.IH)
qed simp

lemma walk_start:
  assumes "kMaxNest < n"
  shows "walk n H (User u) (h\<lparr>last_ignored := False, htemp := St c\<rparr>) =
    resolve H (User u) (lin par (St c)) (h\<lparr>last_ignored := False\<rparr>)"
  using walk_resolve [of "h\<lparr>last_ignored := False, htemp := St c\<rparr>" n u] length_lin [of "St c"] assms
  by simp

lemma transition_refines:
  assumes fuel: "kMaxNest < n" and s: "s \<in> set (lin par (St c))" and src: "\<not> sink s"
    and settle: "settle par ini kMaxNest t = (l, ys)"
  shows "\<exists>x. bindE (exit_to n H (St c) (St s) h) (\<lambda>h.
      bindE (transfer n H (St s) (St t) h) (\<lambda>h. init_drill n H (St t) h)) =
    Inr (St l, (fold en (entries par s t @ ys) (fold ex (exits par c s t) h))\<lparr>htemp := x\<rparr>)"
proof -
  let ?h1 = "fold ex (takeWhile (\<lambda>x. x \<noteq> s) (lin par (St c))) h"
  let ?h2 = "fold en (entries par s t) (fold ex (exits par c s t) h)"
  obtain x1 where e1: "exit_to n H (St c) (St s) h = Inr (?h1\<lparr>htemp := x1\<rparr>)"
    using exit_to_lin [OF s, of n h] length_lin [of "St c"] fuel by auto
  obtain x2 where e2: "transfer n H (St s) (St t) (?h1\<lparr>htemp := x1\<rparr>) = Inr (?h2\<lparr>htemp := x2\<rparr>)"
    using transfer_lin [OF _ src, of n t "?h1\<lparr>htemp := x1\<rparr>"] fuel
    by (auto simp: exits_def fold_ex_temp fold_en_temp)
  obtain x3 where e3: "init_drill n H (St t) (?h2\<lparr>htemp := x2\<rparr>) =
      Inr (St l, (fold en ys ?h2)\<lparr>htemp := x3\<rparr>)"
    using init_drill_settle [OF _ _ settle, of n "?h2\<lparr>htemp := x2\<rparr>"] fuel
    by (auto simp: fold_en_temp)
  show ?thesis using e1 e2 e3 by auto
qed

theorem dispatch_refines:
  assumes fuel: "kMaxNest < n" and cur: "hstate h = St c"
  shows "dispatch n H (User u) h = uml_dispatch par ini en ex H u c h"
proof (cases "resolve H (User u) (lin par (St c)) (h\<lparr>last_ignored := False\<rparr>)")
  case (Inl e)
  then show ?thesis using walk_start [OF fuel] by (simp add: dispatch_def cur uml_dispatch_def)
next
  case (Inr res)
  then obtain r src h1 where
    res: "resolve H (User u) (lin par (St c)) (h\<lparr>last_ignored := False\<rparr>) = Inr (r, src, h1)"
    by (cases res) auto
  show ?thesis
  proof (cases "r = NEED_TO_TRANSFER")
    case False
    then show ?thesis using walk_start [OF fuel] res
      by (cases r) (simp_all add: dispatch_def cur uml_dispatch_def)
  next
    case True
    with res obtain s t where s: "src = St s" "s \<in> set (lin par (St c))" "\<not> sink s"
      and t: "htemp h1 = St t" using resolve_transfer by blast
    obtain l ys where settle: "settle par ini kMaxNest t = (l, ys)" by fastforce
    from transition_refines [OF fuel s(2,3) settle, of h1] show ?thesis using res
      by (auto simp: dispatch_def cur uml_dispatch_def walk_start [OF fuel] True s(1) t settle
          bindE_assoc [symmetric])
  qed
qed

subsection \<open>The initial transition\<close>

lemma init_loop_settle:
  "\<not> sink p \<Longrightarrow> kMaxNest - length (lin par (St p)) < n \<Longrightarrow> kMaxNest - length (lin par (St p)) \<le> m \<Longrightarrow>
   settle par ini m p = (l, ys) \<Longrightarrow> htemp h = St p \<Longrightarrow>
   b = Top_St \<or> (\<exists>q. b = St q \<and> q \<noteq> p \<and> q \<in> set (lin par (St p))) \<Longrightarrow>
   \<exists>x. init_loop n H b h = Inr (St l,
     (fold en (rev (takeWhile (\<lambda>x. St x \<noteq> b) (lin par (St p))) @ ys) h)\<lparr>htemp := x\<rparr>)"
proof (induction n arbitrary: p h m l ys b)
  case (Suc n)
  let ?es = "rev (takeWhile (\<lambda>x. St x \<noteq> b) (lin par (St p)))"
  obtain r where climb: "climb (kMaxNest - 1) H (\<lambda>_ x. x = b) [St p] (St p) (h\<lparr>htemp := par p\<rparr>) =
      Inr ([St p] @ map St (takeWhile (\<lambda>x. \<not> St x = b) (lin par (par p))), h\<lparr>htemp := par p, htemp := r\<rparr>)"
    using climb_lin [where P = "\<lambda>x. St x = b" and stop = "\<lambda>_ x. x = b"
        and c = p and h = "h\<lparr>htemp := par p\<rparr>" and out = "[St p]", OF _ length_lin_par] Suc.prems(6)
    by (auto simp: lin_St [of p])
  have "St p \<noteq> b" using Suc.prems(6) by auto
  then have path: "rev ([St p] @ map St (takeWhile (\<lambda>x. \<not> St x = b) (lin par (par p)))) = map St ?es"
    by (simp add: lin_St [of p] rev_map)
  obtain x where enter: "enter_seq H (map St ?es) (h\<lparr>htemp := r\<rparr>) = Inr ((fold en ?es h)\<lparr>htemp := x\<rparr>)"
    using enter_seq_St [of ?es "h\<lparr>htemp := r\<rparr>"] by (auto simp: fold_en_temp)
  let ?h = "(fold en ?es h)\<lparr>htemp := St p\<rparr>"
  have unfold: "init_loop (Suc n) H b h = bindE (call H (St p) Init_Signal ?h)
      (\<lambda>(r, h). if r = NEED_TO_TRANSFER then init_loop n H (St p) h else Inr (St p, h))"
    using climb enter path by (simp add: Suc.prems(1,5) none_signal Let_def)
  show ?case
  proof (cases "ini p")
    case None
    then obtain r t where "H p Init_Signal ?h = Inr (r, ?h\<lparr>htemp := t\<rparr>)" "r \<noteq> NEED_TO_TRANSFER"
      using init_none by blast
    moreover have "l = p" "ys = []" using Suc.prems(4) None by (cases m; simp)+
    ultimately show ?thesis unfolding unfold by auto
  next
    case (Some t)
    note longer = init_longer [OF Some] and below = init_below [OF Some]
    have max: "length (lin par (St t)) \<le> kMaxNest" by (rule length_lin)
    then obtain m' where m: "m = Suc m'" using Suc.prems(3) longer by (cases m) auto
    obtain zs where t: "settle par ini m' t = (l, zs)" and
      ys: "ys = rev (takeWhile (\<lambda>x. x \<noteq> p) (lin par (St t))) @ zs"
      using Suc.prems(4) by (auto simp: m Some split: prod.splits)
    have "kMaxNest - length (lin par (St t)) < n" "kMaxNest - length (lin par (St t)) \<le> m'"
      using Suc.prems(2,3) longer max by (auto simp: m)
    from Suc.IH [OF init_target_no_sink [OF Some] this t, of "?h\<lparr>htemp := St t\<rparr>" "St p"] below show ?thesis unfolding unfold
      by (auto simp: init_some [OF Some] fold_en_temp ys)
  qed
qed simp

theorem init_refines:
  assumes fuel: "kMaxNest < n" and src: "\<not> sink s" and settle: "settle par ini kMaxNest s = (leaf, ys)"
  shows "init n H (St s) h =
    Inr (trace None_Signal Top_St (St leaf)
      ((fold en (rev (lin par (St s)) @ ys) (h\<lparr>hstate := Top_St\<rparr>))\<lparr>hstate := St leaf, htemp := St leaf\<rparr>))"
proof -
  have "takeWhile (\<lambda>x. St x \<noteq> Top_St) (lin par (St s)) = lin par (St s)" by simp
  with init_loop_settle [OF src _ _ settle, of n "h\<lparr>hstate := Top_St, htemp := St s\<rparr>" Top_St] fuel
  show ?thesis by (auto simp: init_def fold_en_temp)
qed

subsection \<open>Reasoning about a dispatch by its handlers\<close>

text \<open>
  A rule for properties of the component's own data: \<open>P\<close> holds while the event travels up the
  lineage of the active leaf, \<open>Q\<close> once it is done with. The obligations are about single
  handlers, about transitions as a whole, and about events that no state takes.
\<close>

lemma resolve_post:
  assumes upd: "\<And>h x. P (h\<lparr>htemp := x\<rparr>) = P h" "\<And>h x. P (h\<lparr>instr_log := x\<rparr>) = P h"
    and pass: "\<And>s h r h'. s \<in> set xs \<Longrightarrow> P h \<Longrightarrow> H s (User u) h = Inr (r, h') \<Longrightarrow>
      r = TO_SUPER \<or> r = UNHANDLED \<Longrightarrow> P h'"
    and res: "resolve H (User u) xs h = Inr (r, src, h')" and P: "P h"
  shows "(\<exists>s h1. s \<in> set xs \<and> src = St s \<and> P h1 \<and> H s (User u) h1 = Inr (r, h') \<and>
            r \<noteq> TO_SUPER \<and> r \<noteq> UNHANDLED) \<or>
         (src = Top_St \<and> r = IGNORED \<and> P h' \<and>
            (\<forall>s \<in> set xs. \<exists>h1 r1 h2. H s (User u) h1 = Inr (r1, h2) \<and> (r1 = TO_SUPER \<or> r1 = UNHANDLED)))"
  using pass res P
proof (induction xs arbitrary: h)
  case Nil
  then show ?case by (auto simp: probe_def upd)
next
  case (Cons s xs)
  let ?h0 = "probe (User u) (St s) HandlerVisit (h\<lparr>htemp := St s\<rparr>)"
  have P0: "P ?h0" using Cons.prems(3) by (simp add: probe_def upd)
  from Cons.prems(2) obtain r1 h1 where H: "H s (User u) ?h0 = Inr (r1, h1)"
    and rest: "if r1 = TO_SUPER \<or> r1 = UNHANDLED then resolve H (User u) xs h1 = Inr (r, src, h')
      else (r, src, h') = (r1, St s, h1)"
    by (auto simp: bindE_eq_Inr split: if_splits)
  show ?case
  proof (cases "r1 = TO_SUPER \<or> r1 = UNHANDLED")
    case True
    then have "P h1" using Cons.prems(1) [OF _ P0 H] by simp
    with Cons.IH [of h1] Cons.prems(1) rest True H show ?thesis by (auto; blast)
  next
    case False
    with rest H P0 show ?thesis by auto
  qed
qed

lemma dispatch_rule:
  assumes fuel: "kMaxNest < n" and cur: "hstate h = St c" and P: "P h"
    and dis: "dispatch n H (User u) h = Inr h'"
    and updP: "\<And>h x. P (h\<lparr>htemp := x\<rparr>) = P h" "\<And>h x. P (h\<lparr>instr_log := x\<rparr>) = P h"
      "\<And>h x. P (h\<lparr>last_ignored := x\<rparr>) = P h"
    and updQ: "\<And>l h x. Q l (h\<lparr>htemp := x\<rparr>) = Q l h" "\<And>l h x. Q l (h\<lparr>instr_log := x\<rparr>) = Q l h"
      "\<And>l h x. Q l (h\<lparr>last_ignored := x\<rparr>) = Q l h" "\<And>l h x. Q l (h\<lparr>hstate := x\<rparr>) = Q l h"
    and pass: "\<And>s h r h'. s \<in> set (lin par (St c)) \<Longrightarrow> P h \<Longrightarrow> H s (User u) h = Inr (r, h') \<Longrightarrow>
      r = TO_SUPER \<or> r = UNHANDLED \<Longrightarrow> P h'"
    and taken: "\<And>s h r h'. s \<in> set (lin par (St c)) \<Longrightarrow> P h \<Longrightarrow> H s (User u) h = Inr (r, h') \<Longrightarrow>
      r = HANDLED \<or> r = IGNORED \<Longrightarrow> Q c h'"
    and top: "\<And>h. P h \<Longrightarrow> \<forall>s \<in> set (lin par (St c)). \<exists>h1 r1 h2.
      H s (User u) h1 = Inr (r1, h2) \<and> (r1 = TO_SUPER \<or> r1 = UNHANDLED) \<Longrightarrow> Q c h"
    and move: "\<And>s h h' t. s \<in> set (lin par (St c)) \<Longrightarrow> P h \<Longrightarrow>
      H s (User u) h = Inr (NEED_TO_TRANSFER, h') \<Longrightarrow> htemp h' = St t \<Longrightarrow>
      Q (fst (settle par ini kMaxNest t))
        (fold en (entries par s t @ snd (settle par ini kMaxNest t)) (fold ex (exits par c s t) h'))"
  shows "\<exists>l. hstate h' = St l \<and> Q l h'"
proof -
  obtain r src h1 where
    res: "resolve H (User u) (lin par (St c)) (h\<lparr>last_ignored := False\<rparr>) = Inr (r, src, h1)"
    and h': "(case (r, src, htemp h1) of
         (NEED_TO_TRANSFER, St s, St t) \<Rightarrow>
           (let (leaf, ys) = settle par ini kMaxNest t;
                h2 = fold en (entries par s t @ ys) (fold ex (exits par c s t) h1)
            in Inr (trace (User u) (St c) (St leaf) (h2\<lparr>hstate := St leaf, htemp := St leaf\<rparr>)))
       | _ \<Rightarrow> Inr (settle_unchanged (User u) src r (St c) h1)) = (Inr h' :: fault + _)"
    using dis by (auto simp: dispatch_refines [OF fuel cur] uml_dispatch_def bindE_eq_Inr)
  have unchanged: "\<exists>l. hstate h' = St l \<and> Q l h'"
    if "h' = settle_unchanged (User u) src r (St c) h1" "Q c h1"
    using that by (simp add: settle_unchanged_def Let_def probe_def updQ)
  have P': "P (h\<lparr>last_ignored := False\<rparr>)" using P by (simp add: updP)
  have "(\<exists>s h0. s \<in> set (lin par (St c)) \<and> src = St s \<and> P h0 \<and> H s (User u) h0 = Inr (r, h1) \<and>
            r \<noteq> TO_SUPER \<and> r \<noteq> UNHANDLED) \<or>
         (src = Top_St \<and> r = IGNORED \<and> P h1 \<and>
            (\<forall>s \<in> set (lin par (St c)). \<exists>h1 r1 h2. H s (User u) h1 = Inr (r1, h2) \<and>
              (r1 = TO_SUPER \<or> r1 = UNHANDLED)))"
    by (rule resolve_post [where P = P, OF updP(1,2) _ res P']) (rule pass)
  then consider
      (took) s h0 where "s \<in> set (lin par (St c))" "src = St s" "P h0" "H s (User u) h0 = Inr (r, h1)"
        "r \<noteq> TO_SUPER" "r \<noteq> UNHANDLED"
    | (ignored) "src = Top_St" "r = IGNORED" "P h1" "\<forall>s \<in> set (lin par (St c)). \<exists>h1 r1 h2.
      H s (User u) h1 = Inr (r1, h2) \<and> (r1 = TO_SUPER \<or> r1 = UNHANDLED)"
    by blast
  then show ?thesis
  proof cases
    case took
    show ?thesis
    proof (cases "r = NEED_TO_TRANSFER")
      case True
      with took obtain t where t: "htemp h1 = St t" using user_to by blast
      have "Q (fst (settle par ini kMaxNest t)) (fold en (entries par s t @ snd (settle par ini kMaxNest t))
          (fold ex (exits par c s t) h1))"
        using move [OF took(1,3) _ t] took(4) True by simp
      with h' True took(2) t show ?thesis
        by (auto simp: Let_def trace_def updQ simp del: fold_append split: prod.splits)
    next
      case False
      then have "r = HANDLED \<or> r = IGNORED" using took(5,6) by (cases r) auto
      with taken [OF took(1,3,4)] h' show ?thesis by (intro unchanged) (cases r; auto)+
    qed
  next
    case ignored
    with top h' show ?thesis by (intro unchanged) auto
  qed
qed

text \<open>Handlers that do not fail on user signals make every dispatch return.\<close>

lemma resolve_total:
  assumes "\<And>s h. \<exists>r h'. H s (User u) h = Inr (r, h')"
  shows "\<exists>r src h'. resolve H (User u) xs h = Inr (r, src, h')"
proof (induction xs arbitrary: h)
  case (Cons s xs)
  obtain r h1 where "H s (User u) (probe (User u) (St s) HandlerVisit (h\<lparr>htemp := St s\<rparr>)) = Inr (r, h1)"
    using assms by blast
  with Cons.IH [of h1] show ?case by simp
qed simp

lemma dispatch_total:
  assumes "kMaxNest < n" "hstate h = St c" "\<And>s h. \<exists>r h'. H s (User u) h = Inr (r, h')"
  shows "\<exists>h'. dispatch n H (User u) h = Inr h'"
  using resolve_total [OF assms(3), of "lin par (St c)" "h\<lparr>last_ignored := False\<rparr>"]
  by (auto simp: dispatch_refines [OF assms(1,2)] uml_dispatch_def Let_def
      split: status.splits sref.splits prod.splits)

end

section \<open>The nesting limit\<close>

lemma climb_too_deep:
  assumes none: "\<And>s h. H s None_Signal h = Inr (TO_SUPER, h\<lparr>htemp := par s\<rparr>)"
    and up: "\<And>s. par s \<noteq> St s" and nn: "\<And>s. par s \<noteq> Null_St"
  shows "\<not> reaches_top par k (htemp h) \<Longrightarrow> htemp h \<noteq> Null_St \<Longrightarrow> htemp h \<noteq> cur \<Longrightarrow>
    climb k H (\<lambda>cur t. t = Top_St \<or> t = cur) out cur h = Inl Assert_Failed"
proof (induction k arbitrary: out cur h)
  case 0
  then show ?case by (cases "htemp h") auto
next
  case (Suc k)
  then obtain s where s: "htemp h = St s" by (cases "htemp h") auto
  with Suc.prems have "\<not> reaches_top par k (par s)" "St s \<noteq> cur" by auto
  with Suc.IH [of "h\<lparr>htemp := par s\<rparr>" "St s" "out @ [St s]"] up nn show ?case by (simp add: s none)
qed

text \<open>Handlers nested deeper than \<open>kMaxNest\<close> are caught: computing the lineage of such a
  state fails the assertion instead of writing past the end of the array.\<close>

theorem nesting_limit_asserted:
  assumes "\<And>s h. H s None_Signal h = Inr (TO_SUPER, h\<lparr>htemp := par s\<rparr>)"
    and "\<And>s. par s \<noteq> St s" "\<And>s. par s \<noteq> Null_St" "\<not> reaches_top par kMaxNest (St s)"
  shows "collect_lineage H (St s) h = Inl Assert_Failed"
proof -
  have "\<not> reaches_top par (kMaxNest - 1) (par s)" using assms(4) by (simp add: kMaxNest_def numeral_eq_Suc)
  with climb_too_deep [of H par, OF assms(1-3)] assms(2,3) show ?thesis
    by (simp add: collect_lineage_def Let_def assms(1))
qed

definition demo_deep :: "nat \<Rightarrow> unit event \<Rightarrow> (nat, unit) hsm \<Rightarrow> (status \<times> (nat, unit) hsm) result" where
  "demo_deep s e h = Inr (TO_SUPER, h\<lparr>htemp := (if s < 8 then St (s + 1) else Top_St)\<rparr>)"

theorem nesting_limit_asserted_witness:
  "collect_lineage demo_deep (St 0) \<lparr>hstate = Top_St, htemp = Top_St, last_ignored = False, trace_fn = False,
     probe_fn = False, instr_log = []\<rparr> = Inl Assert_Failed"
  by (rule nesting_limit_asserted [where par = "\<lambda>s. if s < 8 then St (s + 1) else Top_St"])
    (simp_all add: demo_deep_def kMaxNest_def numeral_eq_Suc)

end
