(* ===== verification/Chart_Ao.thy ===== *)
theory Chart_Ao
  imports Chart_Uml
begin

text \<open>
  \<open>chart/active_object.hpp\<close> (an \<open>Hsm\<close> with an event queue and a worker) and
  \<open>chart/defer.hpp\<close> (the queue of deferred events). Each operation that the code runs under the
  object's mutex is one function; a run of the worker is the repetition of \<open>run_step\<close>. Posted
  events carry user signals.
\<close>

section \<open>FIFO queues\<close>

text \<open>The contract shared by the two event queues of the library.\<close>

fun drain_n :: "nat \<Rightarrow> ('q \<Rightarrow> ('e \<times> 'q) option) \<Rightarrow> 'q \<Rightarrow> 'e list" where
  "drain_n 0 pop q = []"
| "drain_n (Suc k) pop q = (case pop q of None \<Rightarrow> [] | Some (e, q') \<Rightarrow> e # drain_n k pop q')"

locale fifo =
  fixes push :: "'e \<Rightarrow> 'q \<Rightarrow> 'q"
    and pop :: "'q \<Rightarrow> ('e \<times> 'q) option"
    and items :: "'q \<Rightarrow> 'e list"
    and invar :: "'q \<Rightarrow> bool"
  assumes items_push: "invar q \<Longrightarrow> items (push e q) = items q @ [e]"
    and invar_push: "invar q \<Longrightarrow> invar (push e q)"
    and pop_None: "pop q = None \<longleftrightarrow> items q = []"
    and pop_Some: "pop q = Some (e, q') \<Longrightarrow> items q = e # items q'"
begin

lemma items_push_all: "invar q \<Longrightarrow> items (fold push es q) = items q @ es"
  by (induction es arbitrary: q) (simp_all add: items_push invar_push)

lemma drain_items: "drain_n k pop q = take k (items q)"
proof (induction k arbitrary: q)
  case (Suc k)
  show ?case
  proof (cases "pop q")
    case None
    then show ?thesis using pop_None [of q] by simp
  next
    case (Some p)
    then show ?thesis using Suc pop_Some [of q "fst p" "snd p"] by (cases p) simp
  qed
qed simp

text \<open>What was pushed comes out in the order of the pushes, after what was there before.\<close>

lemma fifo_order:
  "invar q \<Longrightarrow> drain_n (length (items q) + length es) pop (fold push es q) = items q @ es"
  by (simp add: drain_items items_push_all)

end

section \<open>ActiveObject\<close>

record ('s, 'u) active_object = "('s, 'u) hsm" +
  ao_name :: string
  ao_inst :: bool
  ao_q :: "'u list"
  ao_running :: bool

definition post_fifo :: "'u \<Rightarrow> ('s, 'u, 'z) active_object_scheme \<Rightarrow> ('s, 'u, 'z) active_object_scheme" where
  "post_fifo e h = (if \<not> ao_running h then h else h\<lparr>ao_q := ao_q h @ [e]\<rparr>)"

definition post_lifo :: "'u \<Rightarrow> ('s, 'u, 'z) active_object_scheme \<Rightarrow> ('s, 'u, 'z) active_object_scheme" where
  "post_lifo e h = (if \<not> ao_running h then h else h\<lparr>ao_q := e # ao_q h\<rparr>)"

type_synonym ('s, 'u, 'z) ao_handlers =
  "'s \<Rightarrow> 'u event \<Rightarrow> ('s, 'u, 'z) active_object_scheme
     \<Rightarrow> (status \<times> ('s, 'u, 'z) active_object_scheme) result"

text \<open>
  \<open>start_at\<close> runs \<open>init\<close> on the caller's thread, then launches the worker. An instrument
  installs the trace and the probe callback first.
\<close>

definition start_at :: "nat \<Rightarrow> ('s, 'u, 'z) ao_handlers \<Rightarrow> 's sref \<Rightarrow> ('s, 'u, 'z) active_object_scheme
    \<Rightarrow> ('s, 'u, 'z) active_object_scheme result" where
  "start_at n H initial h =
     (if ao_running h then Inl Assert_Failed
      else let h = (if ao_inst h then h\<lparr>trace_fn := True, probe_fn := True\<rparr> else h) in
        bindE (init n H initial h) (\<lambda>h. Inr (h\<lparr>ao_running := True\<rparr>)))"

text \<open>
  One iteration of \<open>run\<close>: the worker blocks on the condition variable (\<open>Waiting\<close>), returns
  (\<open>Exited\<close>), or pops the front event and dispatches it (\<open>Dispatched\<close>).
\<close>

datatype run_outcome = Waiting | Exited | Dispatched

definition ao_pop :: "('s, 'u, 'z) active_object_scheme \<Rightarrow> ('u \<times> ('s, 'u, 'z) active_object_scheme) option" where
  "ao_pop h = (case ao_q h of [] \<Rightarrow> None | e # es \<Rightarrow> Some (e, h\<lparr>ao_q := es\<rparr>))"

definition run_step :: "nat \<Rightarrow> ('s, 'u, 'z) ao_handlers \<Rightarrow> ('s, 'u, 'z) active_object_scheme
    \<Rightarrow> (run_outcome \<times> ('s, 'u, 'z) active_object_scheme) result" where
  "run_step n H h =
     (case ao_pop h of
        None \<Rightarrow> Inr (if ao_running h then Waiting else Exited, h)
      | Some (e, h) \<Rightarrow> bindE (dispatch n H (User e) h) (\<lambda>h. Inr (Dispatched, h)))"

text \<open>The worker's loop until it blocks or returns; \<open>k\<close> bounds the number of events.\<close>

fun run :: "nat \<Rightarrow> nat \<Rightarrow> ('s, 'u, 'z) ao_handlers \<Rightarrow> ('s, 'u, 'z) active_object_scheme
    \<Rightarrow> ('s, 'u, 'z) active_object_scheme result" where
  "run 0 n H h = (if ao_q h = [] then Inr h else Inl Out_Of_Fuel)"
| "run (Suc k) n H h =
     bindE (run_step n H h) (\<lambda>(o', h). if o' = Dispatched then run k n H h else Inr h)"

text \<open>
  \<open>stop\<close>: clear \<open>running_\<close>, wake and join the worker (unless called on it), clear the queue.
  Joining waits for the worker's loop to return.
\<close>

definition stop :: "nat \<Rightarrow> nat \<Rightarrow> ('s, 'u, 'z) ao_handlers \<Rightarrow> bool \<Rightarrow> ('s, 'u, 'z) active_object_scheme
    \<Rightarrow> ('s, 'u, 'z) active_object_scheme result" where
  "stop k n H on_worker h =
     (if \<not> ao_running h then Inr h
      else let h = h\<lparr>ao_running := False\<rparr> in
        bindE (if on_worker then Inr h else run k n H h) (\<lambda>h. Inr (h\<lparr>ao_q := []\<rparr>)))"

section \<open>DeferQueue\<close>

type_synonym 'u defer_queue = "'u list"

definition dq_push :: "'u \<Rightarrow> 'u defer_queue \<Rightarrow> 'u defer_queue" where
  "dq_push e q = q @ [e]"

definition dq_pop :: "'u defer_queue \<Rightarrow> ('u \<times> 'u defer_queue) option" where
  "dq_pop q = (case q of [] \<Rightarrow> None | e # es \<Rightarrow> Some (e, es))"

definition recall :: "'u defer_queue \<Rightarrow> ('s, 'u, 'z) active_object_scheme
    \<Rightarrow> bool \<times> 'u defer_queue \<times> ('s, 'u, 'z) active_object_scheme" where
  "recall q ao =
     (case dq_pop q of None \<Rightarrow> (False, q, ao) | Some (e, q) \<Rightarrow> (True, q, post_lifo e ao))"

text \<open>The loop \<open>while (q.pop(e)) ao.post_fifo(e)\<close>, structural on the popped queue.\<close>

fun recall_all :: "'u defer_queue \<Rightarrow> ('s, 'u, 'z) active_object_scheme
    \<Rightarrow> nat \<times> 'u defer_queue \<times> ('s, 'u, 'z) active_object_scheme" where
  "recall_all [] ao = (0, [], ao)"
| "recall_all (e # es) ao = (case recall_all es (post_fifo e ao) of (n, q, ao) \<Rightarrow> (Suc n, q, ao))"

section \<open>Correctness of the queues\<close>

interpretation dq: fifo dq_push dq_pop "\<lambda>q. q" "\<lambda>_. True"
  by unfold_locales (auto simp: dq_push_def dq_pop_def split: list.splits)

interpretation aoq: fifo post_fifo ao_pop ao_q ao_running
  by unfold_locales (auto simp: post_fifo_def ao_pop_def split: list.splits)

lemma post_fifo_sel [simp]:
  "ao_running (post_fifo e h) = ao_running h"
  "hstate (post_fifo e h) = hstate h"
  "htemp (post_fifo e h) = htemp h"
  by (simp_all add: post_fifo_def)

lemma recall_all_fold: "recall_all q ao = (length q, [], fold post_fifo q ao)"
  by (induction q arbitrary: ao) simp_all

lemma fold_post_fifo_stopped: "\<not> ao_running h \<Longrightarrow> fold post_fifo es h = h"
  by (induction es) (simp_all add: post_fifo_def)

lemma fold_post_fifo: "ao_running h \<Longrightarrow> fold post_fifo es h = h\<lparr>ao_q := ao_q h @ es\<rparr>"
  by (induction es arbitrary: h) (simp_all add: post_fifo_def)

section \<open>The worker and its queue\<close>

text \<open>
  Handlers reach the queue only through \<open>post_fifo\<close> and \<open>post_lifo\<close>, so they leave
  \<open>running_\<close> alone and, once it is cleared, the queue too.
\<close>

definition posts_only :: "('s, 'u, 'z) active_object_scheme \<Rightarrow> ('s, 'u, 'z) active_object_scheme \<Rightarrow> bool" where
  "posts_only h h' \<longleftrightarrow>
     ao_running h' = ao_running h \<and> (\<not> ao_running h \<longrightarrow> ao_q h' = ao_q h)"

lemma posts_only_refl [simp]: "posts_only h h"
  by (simp add: posts_only_def)

lemma posts_only_trans: "posts_only a b \<Longrightarrow> posts_only b c \<Longrightarrow> posts_only a c"
  by (simp add: posts_only_def)

lemma posts_only_post [simp]: "posts_only h (post_fifo e h)" "posts_only h (post_lifo e h)"
  by (simp_all add: posts_only_def post_fifo_def post_lifo_def)

text \<open>Dispatch the given events in order, the rest waiting in the queue.\<close>

fun dispatch_all :: "nat \<Rightarrow> ('s, 'u, 'z) ao_handlers \<Rightarrow> 'u list \<Rightarrow> ('s, 'u, 'z) active_object_scheme
    \<Rightarrow> ('s, 'u, 'z) active_object_scheme result" where
  "dispatch_all n H [] h = Inr h"
| "dispatch_all n H (e # es) h =
     bindE (dispatch n H (User e) (h\<lparr>ao_q := es\<rparr>)) (dispatch_all n H es)"

lemma posts_only_upd [simp]:
  "posts_only h (probe e r k h') = posts_only h h'"
  "posts_only h (trace e a b h') = posts_only h h'"
  "posts_only h (h'\<lparr>htemp := x\<rparr>) = posts_only h h'"
  "posts_only h (h'\<lparr>hstate := y\<rparr>) = posts_only h h'"
  "posts_only h (h'\<lparr>last_ignored := bb\<rparr>) = posts_only h h'"
  by (simp_all add: posts_only_def probe_def trace_def)

lemma posts_only_unchanged [simp]: "posts_only h (settle_unchanged e s r c h') = posts_only h h'"
  by (simp add: settle_unchanged_def Let_def)

lemma hstate_unchanged [simp]: "hstate (settle_unchanged e s r c h) = c"
  by (simp add: settle_unchanged_def Let_def)

lemma hstate_trace [simp]: "hstate (trace e a b h) = hstate h"
  by (simp add: trace_def)

locale ao_chart = state_chart H par ini en ex sink
  for H :: "('s, 'u, 'z) ao_handlers"
    and par :: "'s \<Rightarrow> 's sref"
    and ini :: "'s \<Rightarrow> 's option"
    and en ex :: "'s \<Rightarrow> ('s, 'u, 'z) active_object_scheme \<Rightarrow> ('s, 'u, 'z) active_object_scheme"
    and sink :: "'s \<Rightarrow> bool" +
  assumes user_posts: "H s (User u) h = Inr (r, h') \<Longrightarrow> posts_only h h'"
    and en_posts: "posts_only h (en s h)"
    and ex_posts: "posts_only h (ex s h)"
begin

lemma fold_en_posts: "posts_only h (fold en xs h)"
  by (induction xs arbitrary: h) (auto intro: posts_only_trans [OF en_posts])

lemma fold_ex_posts: "posts_only h (fold ex xs h)"
  by (induction xs arbitrary: h) (auto intro: posts_only_trans [OF ex_posts])

lemma resolve_posts: "resolve H (User u) xs h = Inr (r, src, h') \<Longrightarrow> posts_only h h'"
proof (induction xs arbitrary: h)
  case (Cons s xs)
  let ?h0 = "probe (User u) (St s) HandlerVisit (h\<lparr>htemp := St s\<rparr>)"
  from Cons.prems obtain r1 h1 where H: "H s (User u) ?h0 = Inr (r1, h1)"
    and rest: "h1 = h' \<or> resolve H (User u) xs h1 = Inr (r, src, h')"
    by (auto simp: bindE_eq_Inr split: if_splits)
  have "posts_only h ?h0" by simp
  from this user_posts [OF H] have "posts_only h h1" by (rule posts_only_trans)
  then show ?case using rest Cons.IH posts_only_trans by blast
qed auto

lemma dispatch_posts:
  assumes "kMaxNest < n" "hstate h = St c" "dispatch n H (User u) h = Inr h'"
  shows "posts_only h h' \<and> (\<exists>c'. hstate h' = St c')"
proof -
  from assms obtain r src h1 where
    res: "resolve H (User u) (lin par (St c)) (h\<lparr>last_ignored := False\<rparr>) = Inr (r, src, h1)"
    and h': "(case (r, src, htemp h1) of
         (NEED_TO_TRANSFER, St s, St t) \<Rightarrow>
           (let (leaf, ys) = settle par ini kMaxNest t;
                h2 = fold en (entries par s t @ ys) (fold ex (exits par c s t) h1)
            in Inr (trace (User u) (St c) (St leaf) (h2\<lparr>hstate := St leaf, htemp := St leaf\<rparr>)))
       | _ \<Rightarrow> Inr (settle_unchanged (User u) src r (St c) h1)) = (Inr h' :: fault + _)"
    by (auto simp: dispatch_refines uml_dispatch_def bindE_eq_Inr)
  have h1: "posts_only h h1" using resolve_posts [OF res] by (simp add: posts_only_def)
  have "posts_only h1 (fold en ys (fold ex xs h1))" for xs ys
    using fold_ex_posts fold_en_posts posts_only_trans by blast
  then have "posts_only h (fold en ys (fold ex xs h1))" for xs ys
    using h1 posts_only_trans by blast
  then show ?thesis using h' h1
    by (auto simp: Let_def simp del: fold_append split: status.splits sref.splits prod.splits)
qed

lemma run_stopped:
  assumes fuel: "kMaxNest < n"
  shows "\<not> ao_running h \<Longrightarrow> hstate h = St c \<Longrightarrow> length (ao_q h) \<le> k \<Longrightarrow>
    run k n H h = dispatch_all n H (ao_q h) h"
proof (induction k arbitrary: h c)
  case (Suc k)
  show ?case
  proof (cases "ao_q h")
    case Nil
    with Suc.prems show ?thesis by (simp add: run_step_def ao_pop_def)
  next
    case (Cons e es)
    let ?h = "h\<lparr>ao_q := es\<rparr>"
    show ?thesis
    proof (cases "dispatch n H (User e) ?h")
      case (Inr h')
      have "hstate ?h = St c" using Suc.prems by simp
      from dispatch_posts [OF fuel this Inr] obtain c' where
        "\<not> ao_running h'" "ao_q h' = es" "hstate h' = St c'"
        using Suc.prems by (auto simp: posts_only_def)
      with Suc.IH [of h' c'] Suc.prems Cons Inr show ?thesis
        by (simp add: run_step_def ao_pop_def)
    qed (simp add: Cons run_step_def ao_pop_def)
  qed
qed simp

theorem stop_drains:
  assumes "kMaxNest < n" "hstate h = St c" "ao_running h" "length (ao_q h) \<le> k"
  shows "stop k n H False h =
    bindE (dispatch_all n H (ao_q h) (h\<lparr>ao_running := False\<rparr>)) (\<lambda>h. Inr (h\<lparr>ao_q := []\<rparr>))"
  using assms run_stopped [of n "h\<lparr>ao_running := False\<rparr>" c k] by (simp add: stop_def)

end

section \<open>Properties\<close>

text \<open>The event queue of a running active object is first-in first-out: the worker pops the
  events in the order in which they were posted, after those that were already queued.\<close>

theorem events_popped_in_order:
  assumes "ao_running h"
  shows "drain_n (length (ao_q h) + length es) ao_pop (fold post_fifo es h) = ao_q h @ es"
  using assms by (rule aoq.fifo_order)

definition demo_object :: "(nat, nat) active_object" where
  "demo_object = \<lparr>hstate = St 0, htemp = St 0, last_ignored = False, trace_fn = False, probe_fn = False,
     instr_log = [], ao_name = ''demo'', ao_inst = False, ao_q = [1], ao_running = True\<rparr>"

theorem events_popped_in_order_witness:
  "ao_running demo_object \<and> drain_n 3 ao_pop (fold post_fifo [2, 3] demo_object) = [1, 2, 3]"
  using events_popped_in_order [of demo_object "[2, 3]"]
  by (simp add: demo_object_def eval_nat_numeral del: fold_simps)

text \<open>Recalling the deferred events of a running object empties the defer queue and appends the
  events, in the order of deferral, behind every event already in the object's queue.\<close>

theorem recall_all_appends:
  assumes "ao_running ao"
  shows "recall_all (fold dq_push es []) ao = (length es, [], ao\<lparr>ao_q := ao_q ao @ es\<rparr>)"
proof -
  have "fold dq_push es [] = es" using dq.items_push_all [where q = "[]"] by simp
  then show ?thesis using fold_post_fifo [OF assms] by (simp add: recall_all_fold)
qed

theorem recall_all_appends_witness:
  "ao_running demo_object \<and>
   recall_all (fold dq_push [5, 6] []) demo_object = (2, [], demo_object\<lparr>ao_q := [1, 5, 6]\<rparr>)"
  using recall_all_appends [of demo_object "[5, 6]"] by (simp add: demo_object_def)

end
