(* ===== verification/Chart_Fabric.thy ===== *)
theory Chart_Fabric
  imports Chart_Ao
begin

text \<open>
  \<open>chart/publish_subscribe.hpp\<close> (the subscription table and the fan-out of published events) and
  the cleanup hooks of \<open>chart/active_object.hpp\<close> that a destroyed object runs. Active objects
  are named by numbers; a store maps each to its state. A null pointer is \<open>None\<close>.
\<close>

section \<open>Fabric\<close>

record fabric =
  subs :: "int \<rightharpoonup> nat list"

definition fabric_init :: fabric where
  "fabric_init = \<lparr>subs = Map.empty\<rparr>"

definition subscribe :: "nat option \<Rightarrow> int \<Rightarrow> fabric \<Rightarrow> fabric result" where
  "subscribe who sig f =
     (case who of
        None \<Rightarrow> Inl Assert_Failed
      | Some w \<Rightarrow>
          let l = (case subs f sig of None \<Rightarrow> [] | Some l \<Rightarrow> l) in
          Inr (f\<lparr>subs := (subs f)(sig \<mapsto> (if w \<in> set l then l else l @ [w]))\<rparr>))"

definition drop_empty :: "nat list \<Rightarrow> nat list option" where
  "drop_empty l = (if l = [] then None else Some l)"

definition unsubscribe :: "nat \<Rightarrow> int \<Rightarrow> fabric \<Rightarrow> fabric" where
  "unsubscribe w sig f =
     (case subs f sig of
        None \<Rightarrow> f
      | Some l \<Rightarrow> f\<lparr>subs := (subs f)(sig := drop_empty (removeAll w l))\<rparr>)"

definition unsubscribe_all :: "nat \<Rightarrow> fabric \<Rightarrow> fabric" where
  "unsubscribe_all w f =
     f\<lparr>subs := (\<lambda>sig. Option.bind (subs f sig) (\<lambda>l. drop_empty (removeAll w l)))\<rparr>"

type_synonym ('s, 'u, 'z) ao_store = "nat \<Rightarrow> ('s, 'u, 'z) active_object_scheme"

definition post_to :: "'u \<Rightarrow> nat \<Rightarrow> ('s, 'u, 'z) ao_store \<Rightarrow> ('s, 'u, 'z) ao_store" where
  "post_to e w st = st(w := post_fifo e (st w))"

text \<open>\<open>sig_of e\<close> is the integer \<open>e.sig\<close>; the subscriber list is copied before the posts.\<close>

definition publish :: "('u \<Rightarrow> int) \<Rightarrow> 'u \<Rightarrow> fabric \<Rightarrow> ('s, 'u, 'z) ao_store \<Rightarrow> ('s, 'u, 'z) ao_store" where
  "publish sig_of e f st =
     (case subs f (sig_of e) of None \<Rightarrow> st | Some targets \<Rightarrow> fold (post_to e) targets st)"

section \<open>Cleanup hooks\<close>

definition register_cleanup_hook :: "(nat \<Rightarrow> 'w \<Rightarrow> 'w) \<Rightarrow> (nat \<Rightarrow> 'w \<Rightarrow> 'w) list \<Rightarrow> (nat \<Rightarrow> 'w \<Rightarrow> 'w) list" where
  "register_cleanup_hook fn hooks = hooks @ [fn]"

definition run_cleanup_hooks :: "(nat \<Rightarrow> 'w \<Rightarrow> 'w) list \<Rightarrow> nat \<Rightarrow> 'w \<Rightarrow> 'w" where
  "run_cleanup_hooks hooks ao w = fold (\<lambda>fn. fn ao) hooks w"

text \<open>The registry after static initialisation holds the hook of the fabric.\<close>

definition initial_hooks :: "(nat \<Rightarrow> fabric \<Rightarrow> fabric) list" where
  "initial_hooks = register_cleanup_hook unsubscribe_all []"

text \<open>\<open>~ActiveObject\<close>: stop the worker, then run the hooks.\<close>

definition destroy :: "nat \<Rightarrow> nat \<Rightarrow> ('s, 'u, 'z) ao_handlers \<Rightarrow> nat \<Rightarrow> fabric \<times> ('s, 'u, 'z) ao_store
    \<Rightarrow> (fabric \<times> ('s, 'u, 'z) ao_store) result" where
  "destroy k n H w = (\<lambda>(f, st).
     bindE (stop k n H False (st w)) (\<lambda>h. Inr (run_cleanup_hooks initial_hooks w f, st(w := h))))"

section \<open>The fabric as a relation\<close>

text \<open>The abstract state is the set of (subscriber, signal) pairs.\<close>

definition set_of :: "nat list option \<Rightarrow> nat set" where
  "set_of l = (case l of None \<Rightarrow> {} | Some l \<Rightarrow> set l)"

definition subscriptions :: "fabric \<Rightarrow> (nat \<times> int) set" where
  "subscriptions f = {(w, sig). w \<in> set_of (subs f sig)}"

definition fabric_inv :: "fabric \<Rightarrow> bool" where
  "fabric_inv f \<longleftrightarrow> (\<forall>sig. subs f sig \<noteq> Some []) \<and> (\<forall>sig l. subs f sig = Some l \<longrightarrow> distinct l)"

lemma set_of_simps [simp]:
  "set_of None = {}" "set_of (Some l) = set l" "set_of (drop_empty l) = set l"
  by (simp_all add: set_of_def drop_empty_def)

lemma fabric_inv_init: "fabric_inv fabric_init"
  by (simp add: fabric_inv_def fabric_init_def)

lemma subscribe_inv: "fabric_inv f \<Longrightarrow> subscribe who sig f = Inr f' \<Longrightarrow> fabric_inv f'"
  by (auto simp: fabric_inv_def subscribe_def Let_def split: option.splits if_splits)

lemma unsubscribe_inv: "fabric_inv f \<Longrightarrow> fabric_inv (unsubscribe w sig f)"
  by (auto simp: fabric_inv_def unsubscribe_def drop_empty_def distinct_removeAll
      split: option.splits if_splits)

lemma unsubscribe_all_inv: "fabric_inv f \<Longrightarrow> fabric_inv (unsubscribe_all w f)"
  by (auto simp: fabric_inv_def unsubscribe_all_def drop_empty_def distinct_removeAll bind_eq_Some_conv
      split: if_splits)

lemmas fabric_inv_intros = fabric_inv_init subscribe_inv unsubscribe_inv unsubscribe_all_inv

lemma subscriptions_subscribe:
  "subscribe (Some w) sig f = Inr f' \<Longrightarrow> subscriptions f' = insert (w, sig) (subscriptions f)"
  by (auto simp: subscriptions_def subscribe_def Let_def split: option.splits if_splits)

lemma subscriptions_unsubscribe: "subscriptions (unsubscribe w sig f) = subscriptions f - {(w, sig)}"
  by (auto simp: subscriptions_def unsubscribe_def split: option.splits if_splits)

lemma subscriptions_unsubscribe_all:
  "subscriptions (unsubscribe_all w f) = {(w', sig) \<in> subscriptions f. w' \<noteq> w}"
proof -
  have "set_of (Option.bind l (\<lambda>l. drop_empty (removeAll w l))) = set_of l - {w}" for l
    by (cases l) simp_all
  then show ?thesis by (auto simp: subscriptions_def unsubscribe_all_def)
qed

lemma fold_post_to: "distinct ws \<Longrightarrow>
  fold (post_to e) ws st = (\<lambda>w. if w \<in> set ws then post_fifo e (st w) else st w)"
  by (induction ws arbitrary: st) (auto simp: post_to_def fun_eq_iff)

lemma publish_store:
  "fabric_inv f \<Longrightarrow> publish sig_of e f st =
     (\<lambda>w. if (w, sig_of e) \<in> subscriptions f then post_fifo e (st w) else st w)"
  by (auto simp: publish_def subscriptions_def fabric_inv_def fold_post_to fun_eq_iff split: option.splits)

lemma destroy_subscriptions:
  "destroy k n H w (f, st) = Inr (f', st') \<Longrightarrow> subscriptions f' = {(w', sig) \<in> subscriptions f. w' \<noteq> w}"
  by (auto simp: destroy_def bindE_eq_Inr initial_hooks_def register_cleanup_hook_def
      run_cleanup_hooks_def subscriptions_unsubscribe_all)

lemma destroy_inv: "fabric_inv f \<Longrightarrow> destroy k n H w (f, st) = Inr (f', st') \<Longrightarrow> fabric_inv f'"
  by (auto simp: destroy_def bindE_eq_Inr initial_hooks_def register_cleanup_hook_def
      run_cleanup_hooks_def intro: unsubscribe_all_inv)

section \<open>Properties\<close>

text \<open>The subscription table implements a relation between objects and signals: \<open>subscribe\<close>
  adds a pair, \<open>unsubscribe\<close> removes it, \<open>unsubscribe_all\<close> removes an object's pairs, and all keep
  the table free of duplicates and empty lists.\<close>

theorem fabric_refines_relation:
  assumes "fabric_inv f"
  shows "(\<exists>f'. subscribe (Some w) sig f = Inr f' \<and> fabric_inv f' \<and>
            subscriptions f' = insert (w, sig) (subscriptions f)) \<and>
    fabric_inv (unsubscribe w sig f) \<and> subscriptions (unsubscribe w sig f) = subscriptions f - {(w, sig)} \<and>
    fabric_inv (unsubscribe_all w f) \<and>
    subscriptions (unsubscribe_all w f) = {(w', s) \<in> subscriptions f. w' \<noteq> w}"
proof -
  obtain f' where "subscribe (Some w) sig f = Inr f'" by (simp add: subscribe_def Let_def)
  with assms show ?thesis
    by (auto simp: subscriptions_subscribe subscriptions_unsubscribe subscriptions_unsubscribe_all
        intro: fabric_inv_intros)
qed

theorem fabric_refines_relation_witness:
  "fabric_inv fabric_init \<and> (\<exists>f'. subscribe (Some 3) 40 fabric_init = Inr f' \<and> subscriptions f' = {(3, 40)})"
  using fabric_refines_relation [OF fabric_inv_init, of 3 40] fabric_inv_init
  by (auto simp: fabric_init_def subscriptions_def)

text \<open>Publishing an event posts it once to each object subscribed to its signal and touches no
  other object; after an object is destroyed, nothing is ever posted to it again.\<close>

theorem publish_reaches_subscribers:
  assumes "fabric_inv f"
  shows "publish sig_of e f st w = (if (w, sig_of e) \<in> subscriptions f then post_fifo e (st w) else st w) \<and>
    (destroy k n H w (f, st) = Inr (f', st') \<longrightarrow> publish sig_of e f' st' w = st' w)"
proof -
  have "publish sig_of e f' st' w = st' w" if d: "destroy k n H w (f, st) = Inr (f', st')"
    using publish_store [OF destroy_inv [OF assms d], of sig_of e st'] destroy_subscriptions [OF d] by simp
  with publish_store [OF assms, of sig_of e st] show ?thesis by simp
qed

definition demo_ao :: "(nat, nat) active_object" where
  "demo_ao = \<lparr>hstate = St 0, htemp = St 0, last_ignored = False, trace_fn = False, probe_fn = False,
     instr_log = [], ao_name = ''demo'', ao_inst = False, ao_q = [], ao_running = True\<rparr>"

definition demo_fabric :: fabric where
  "demo_fabric = \<lparr>subs = [40 \<mapsto> [3]]\<rparr>"

theorem publish_reaches_subscribers_witness:
  "fabric_inv demo_fabric \<and> ao_q (publish (\<lambda>_. 40) 7 demo_fabric (\<lambda>_. demo_ao) 3) = [7] \<and>
   ao_q (publish (\<lambda>_. 40) 7 demo_fabric (\<lambda>_. demo_ao) 4) = []"
proof -
  have inv: "fabric_inv demo_fabric" by (auto simp: fabric_inv_def demo_fabric_def)
  have "(3, 40) \<in> subscriptions demo_fabric" "(4, 40) \<notin> subscriptions demo_fabric"
    by (simp_all add: subscriptions_def demo_fabric_def)
  with publish_reaches_subscribers [OF inv, of "\<lambda>_. 40" 7 "\<lambda>_. demo_ao"] inv show ?thesis
    by (simp add: post_fifo_def demo_ao_def)
qed

end
