(* ===== verification/Chart_Timer.thy ===== *)
theory Chart_Timer
  imports Simula_Prelude
begin

text \<open>
  \<open>chart/time_event.hpp\<close>: the process-wide \<open>TimerService\<close> (a set of items ordered by deadline
  and token, a validity table, one worker thread) and the \<open>TimeEvent\<close> wrapper. The worker
  releases the mutex while it runs an item's function, so \<open>schedule\<close> and \<open>cancel\<close> from other
  threads fall between the two halves of a firing; the model has the same two halves.
\<close>

section \<open>State\<close>

text \<open>
  Deadlines and periods are milliseconds. \<open>'f\<close> stands for the closures the service is given.
  \<open>Token\<close> is an unsigned 64-bit counter. \<open>phase\<close> is the control point of the worker:
  \<open>Sleeping\<close> (waiting, lock released), \<open>Batch now\<close> (inside the inner loop, with the clock value
  read before it), \<open>Firing now it\<close> (running \<open>it.fn()\<close> with the lock released). \<open>fired\<close> records
  the calls \<open>it.fn()\<close>.
\<close>

record 'f item =
  due :: int
  it_fn :: 'f
  period :: int
  tok :: nat

datatype 'f phase = Sleeping | Batch int | Firing int "'f item" | Returned

record 'f timer_service =
  ts_items :: "'f item list"
  ts_valid :: "nat \<rightharpoonup> bool"
  ts_next :: nat
  ts_stopping :: bool
  ts_phase :: "'f phase"
  ts_fired :: "'f item list"

definition timer_init :: "'f timer_service" where
  "timer_init = \<lparr>ts_items = [], ts_valid = Map.empty, ts_next = 0, ts_stopping = False,
     ts_phase = Sleeping, ts_fired = []\<rparr>"

text \<open>\<open>Item::operator<\<close> and insertion into the \<open>std::multiset\<close> (after equal elements).\<close>

definition item_less :: "'f item \<Rightarrow> 'f item \<Rightarrow> bool" where
  "item_less a b = (if due a \<noteq> due b then due a < due b else tok a < tok b)"

fun item_insert :: "'f item \<Rightarrow> 'f item list \<Rightarrow> 'f item list" where
  "item_insert x [] = [x]"
| "item_insert x (y # ys) = (if item_less x y then x # y # ys else y # item_insert x ys)"

section \<open>Operations\<close>

definition next_token :: "nat \<Rightarrow> nat" where
  "next_token n = (n + 1) mod 2 ^ 64"

definition schedule :: "'f \<Rightarrow> int \<Rightarrow> int \<Rightarrow> 'f timer_service \<Rightarrow> nat \<times> 'f timer_service" where
  "schedule fn first per s =
     (let tk = next_token (ts_next s) in
      (tk, s\<lparr>ts_next := tk, ts_valid := (ts_valid s)(tk \<mapsto> True),
             ts_items := item_insert \<lparr>due = first, it_fn = fn, period = per, tok = tk\<rparr> (ts_items s)\<rparr>))"

definition cancel :: "nat \<Rightarrow> 'f timer_service \<Rightarrow> 'f timer_service" where
  "cancel tk s =
     (case ts_valid s tk of None \<Rightarrow> s | Some _ \<Rightarrow> s\<lparr>ts_valid := (ts_valid s)(tk \<mapsto> False)\<rparr>)"

definition alive :: "'f timer_service \<Rightarrow> nat \<Rightarrow> bool" where
  "alive s tk \<longleftrightarrow> ts_valid s tk = Some True"

text \<open>The worker wakes up from a wait; \<open>now\<close> is the value of \<open>Clock::now()\<close> it reads.\<close>

definition wake :: "int \<Rightarrow> 'f timer_service \<Rightarrow> 'f timer_service" where
  "wake now s = (if ts_stopping s then s\<lparr>ts_phase := Returned\<rparr> else s\<lparr>ts_phase := Batch now\<rparr>)"

text \<open>
  One iteration of the inner loop up to the call of \<open>it.fn()\<close>: the loop ends, or the first
  item is removed and then dropped (it was cancelled) or about to run.
\<close>

definition batch_step :: "int \<Rightarrow> 'f timer_service \<Rightarrow> 'f timer_service" where
  "batch_step now s =
     (case ts_items s of
        [] \<Rightarrow> s\<lparr>ts_phase := Sleeping\<rparr>
      | it # rest \<Rightarrow>
          if \<not> due it \<le> now then s\<lparr>ts_phase := Sleeping\<rparr>
          else if \<not> alive s (tok it) then
            s\<lparr>ts_items := rest, ts_valid := (ts_valid s)(tok it := None)\<rparr>
          else s\<lparr>ts_items := rest, ts_phase := Firing now it\<rparr>)"

text \<open>
  \<open>it.fn()\<close> and the rest of the iteration: a periodic item that is still valid is put back
  with a deadline computed from the clock value \<open>clk\<close> read then; any other is forgotten.
\<close>

definition fire_finish :: "int \<Rightarrow> int \<Rightarrow> 'f item \<Rightarrow> 'f timer_service \<Rightarrow> 'f timer_service" where
  "fire_finish clk now it s0 =
     (let s = s0\<lparr>ts_fired := ts_fired s0 @ [it]\<rparr> in
      if ts_stopping s then s\<lparr>ts_phase := Returned\<rparr>
      else if period it > 0 \<and> alive s (tok it) then
        s\<lparr>ts_items := item_insert (it\<lparr>due := clk + period it\<rparr>) (ts_items s), ts_phase := Batch now\<rparr>
      else s\<lparr>ts_valid := (ts_valid s)(tok it := None), ts_phase := Batch now\<rparr>)"

section \<open>The service as a transition system\<close>

text \<open>
  Steps of client threads and of the worker. \<open>fresh\<close>: fewer than $2^{64} - 1$ calls of
  \<open>schedule\<close> so far, so that the counter has not wrapped around.
\<close>

inductive timer_step :: "'f timer_service \<Rightarrow> 'f timer_service \<Rightarrow> bool" where
  do_schedule: "ts_next s + 1 < 2 ^ 64 \<Longrightarrow> timer_step s (snd (schedule fn first per s))"
| do_cancel: "timer_step s (cancel tk s)"
| do_wake: "ts_phase s = Sleeping \<Longrightarrow> timer_step s (wake now s)"
| do_batch: "ts_phase s = Batch now \<Longrightarrow> timer_step s (batch_step now s)"
| do_fire: "ts_phase s = Firing now it \<Longrightarrow> now \<le> clk \<Longrightarrow> timer_step s (fire_finish clk now it s)"
| do_stop: "timer_step s (s\<lparr>ts_stopping := True\<rparr>)"

inductive timer_reach :: "'f timer_service \<Rightarrow> bool" where
  reach_init: "timer_reach timer_init"
| reach_step: "timer_reach s \<Longrightarrow> timer_step s t \<Longrightarrow> timer_reach t"

section \<open>TimeEvent\<close>

text \<open>\<open>te_tok\<close> is the optional token; the target and signal are the closure \<open>te_fn\<close>.\<close>

record 'f time_event =
  te_fn :: 'f
  te_tok :: "nat option"

definition disarm :: "'f time_event \<Rightarrow> 'f timer_service \<Rightarrow> 'f time_event \<times> 'f timer_service" where
  "disarm te s =
     (case te_tok te of None \<Rightarrow> (te, s) | Some tk \<Rightarrow> (te\<lparr>te_tok := None\<rparr>, cancel tk s))"

definition arm_one_shot :: "int \<Rightarrow> int \<Rightarrow> 'f time_event \<Rightarrow> 'f timer_service
    \<Rightarrow> 'f time_event \<times> 'f timer_service" where
  "arm_one_shot clk delay te s =
     (case disarm te s of (te, s) \<Rightarrow>
      (case schedule (te_fn te) (clk + delay) 0 s of (tk, s) \<Rightarrow> (te\<lparr>te_tok := Some tk\<rparr>, s)))"

definition arm_periodic :: "int \<Rightarrow> int \<Rightarrow> int \<Rightarrow> 'f time_event \<Rightarrow> 'f timer_service
    \<Rightarrow> ('f time_event \<times> 'f timer_service) result" where
  "arm_periodic clk first per te s =
     (if \<not> per > 0 then Inl Assert_Failed
      else case disarm te s of (te, s) \<Rightarrow>
        (case schedule (te_fn te) (clk + first) per s of (tk, s) \<Rightarrow> Inr (te\<lparr>te_tok := Some tk\<rparr>, s)))"

definition armed :: "'f time_event \<Rightarrow> bool" where
  "armed te \<longleftrightarrow> te_tok te \<noteq> None"

section \<open>Invariant\<close>

text \<open>
  The tokens the worker still owns are those of the waiting items and of the item being
  fired. They are distinct, were handed out by \<open>schedule\<close>, and each has an entry in the
  validity table; the waiting items are in deadline order.
\<close>

definition firing :: "'f timer_service \<Rightarrow> 'f item list" where
  "firing s = (case ts_phase s of Firing _ it \<Rightarrow> [it] | _ \<Rightarrow> [])"

definition owned :: "'f timer_service \<Rightarrow> nat list" where
  "owned s = map tok (firing s @ ts_items s)"

definition timer_inv :: "'f timer_service \<Rightarrow> bool" where
  "timer_inv s \<longleftrightarrow>
     distinct (owned s) \<and> sorted_wrt item_less (ts_items s) \<and>
     (\<forall>tk \<in> set (owned s). tk \<le> ts_next s) \<and>
     (\<forall>tk. ts_valid s tk \<noteq> None \<longrightarrow> 0 < tk \<and> tk \<le> ts_next s) \<and>
     (ts_phase s \<noteq> Returned \<longrightarrow> (\<forall>tk. ts_valid s tk \<noteq> None \<longleftrightarrow> tk \<in> set (owned s)))"

lemma item_less_trans: "item_less a b \<Longrightarrow> item_less b c \<Longrightarrow> item_less a c"
  by (auto simp: item_less_def split: if_splits)

lemma item_less_total: "tok a \<noteq> tok b \<Longrightarrow> \<not> item_less a b \<Longrightarrow> item_less b a"
  by (auto simp: item_less_def split: if_splits)

lemma set_item_insert [simp]: "set (item_insert x ys) = insert x (set ys)"
  by (induction ys) auto

lemma length_item_insert [simp]: "length (item_insert x ys) = Suc (length ys)"
  by (induction ys) auto

lemma distinct_item_insert:
  "distinct (map tok (item_insert x ys)) \<longleftrightarrow> tok x \<notin> tok ` set ys \<and> distinct (map tok ys)"
  by (induction ys) auto

lemma sorted_item_insert:
  "sorted_wrt item_less ys \<Longrightarrow> tok x \<notin> tok ` set ys \<Longrightarrow> sorted_wrt item_less (item_insert x ys)"
proof (induction ys)
  case (Cons y ys)
  then show ?case by (auto intro: item_less_trans item_less_total)
qed simp

lemmas timer_simps = timer_inv_def owned_def firing_def alive_def

lemma timer_inv_init: "timer_inv timer_init"
  by (simp add: timer_init_def timer_simps)

lemma next_token_fresh: "n + 1 < 2 ^ 64 \<Longrightarrow> next_token n = n + 1"
  by (simp add: next_token_def)

lemma timer_inv_schedule:
  assumes inv: "timer_inv s" and fresh: "ts_next s + 1 < 2 ^ 64"
  shows "timer_inv (snd (schedule fn first per s))"
proof -
  have new: "ts_next s + 1 \<notin> set (owned s)" "ts_valid s (ts_next s + 1) = None"
    using inv by (force simp: timer_inv_def)+
  show ?thesis using inv new
    by (auto simp: schedule_def Let_def next_token_fresh [OF fresh] timer_simps distinct_item_insert
        le_SucI split: phase.splits intro!: sorted_item_insert)
qed

lemma timer_inv_cancel: "timer_inv s \<Longrightarrow> timer_inv (cancel tk s)"
  by (auto simp: cancel_def timer_simps split: option.splits phase.splits)

lemma timer_inv_wake: "timer_inv s \<Longrightarrow> ts_phase s = Sleeping \<Longrightarrow> timer_inv (wake now s)"
  by (auto simp: wake_def timer_simps)

lemma timer_inv_batch: "timer_inv s \<Longrightarrow> ts_phase s = Batch now \<Longrightarrow> timer_inv (batch_step now s)"
  by (auto simp: batch_step_def timer_simps split: list.splits)

lemma timer_inv_fire:
  "timer_inv s \<Longrightarrow> ts_phase s = Firing now it \<Longrightarrow> timer_inv (fire_finish clk now it s)"
  by (auto simp: fire_finish_def Let_def timer_simps distinct_item_insert intro!: sorted_item_insert)

lemma timer_inv_step: "timer_step s t \<Longrightarrow> timer_inv s \<Longrightarrow> timer_inv t"
proof (induction rule: timer_step.induct)
  case (do_stop s)
  then show ?case by (simp add: timer_simps split: phase.splits)
qed (auto intro: timer_inv_schedule timer_inv_cancel timer_inv_wake timer_inv_batch timer_inv_fire)

lemma timer_inv_reach: "timer_reach s \<Longrightarrow> timer_inv s"
  by (induction rule: timer_reach.induct) (auto intro: timer_inv_init timer_inv_step)

section \<open>Watching\<close>

text \<open>
  \<open>watching s f tk\<close>: the service still has a live item with the function \<open>f\<close> under the token \<open>tk\<close>, or
  is running that function.
\<close>

definition watching :: "'f timer_service \<Rightarrow> 'f \<Rightarrow> nat \<Rightarrow> bool" where
  "watching s f tk \<longleftrightarrow>
     (\<exists>it \<in> set (ts_items s). tok it = tk \<and> it_fn it = f \<and> alive s tk) \<or> (\<exists>it \<in> set (firing s). it_fn it = f)"

lemma cancel_sel [simp]:
  "ts_items (cancel tk s) = ts_items s" "ts_next (cancel tk s) = ts_next s" "firing (cancel tk s) = firing s"
  by (simp_all add: cancel_def firing_def split: option.splits)

lemma alive_cancel: "alive (cancel tk s) tk' \<longleftrightarrow> alive s tk' \<and> tk' \<noteq> tk"
  by (auto simp: cancel_def alive_def split: option.splits)

lemma distinct_tok_rest:
  assumes "timer_inv s" "ts_items s = it # rest" "x \<in> set rest"
  shows "tok x \<noteq> tok it"
proof -
  have "tok it \<notin> tok ` set rest" using assms(1,2) by (simp add: timer_inv_def owned_def)
  then show ?thesis using assms(3) by (metis image_eqI)
qed

lemma watching_cancel: "tk' \<noteq> tk \<Longrightarrow> watching s f tk' \<Longrightarrow> watching (cancel tk s) f tk'"
  by (auto simp: watching_def alive_cancel)

lemma watching_schedule:
  assumes "watching s f tk" "tk \<le> ts_next s" "ts_next s + 1 < 2 ^ 64"
  shows "watching (snd (schedule fn t p s)) f tk"
  using assms by (auto simp: watching_def schedule_def Let_def next_token_fresh alive_def firing_def)

lemma watching_scheduled: "watching (snd (schedule f t p s)) f (fst (schedule f t p s))"
  by (auto simp: watching_def schedule_def Let_def alive_def)

lemma watching_wake: "ts_phase s = Sleeping \<Longrightarrow> watching s f tk \<Longrightarrow> watching (wake now s) f tk"
  by (auto simp: watching_def wake_def alive_def firing_def)

lemma watching_batch:
  assumes inv: "timer_inv s" and ph: "ts_phase s = Batch now" and w: "watching s f tk"
  shows "watching (batch_step now s) f tk"
proof -
  from w ph obtain it where it: "it \<in> set (ts_items s)" "tok it = tk" "it_fn it = f" "alive s tk"
    by (auto simp: watching_def firing_def)
  then obtain x xs where items: "ts_items s = x # xs" by (cases "ts_items s") auto
  show ?thesis
  proof (cases "it = x")
    case True
    have "it \<in> set (ts_items (batch_step now s)) \<and> alive (batch_step now s) tk \<or>
        it \<in> set (firing (batch_step now s))"
      using it(1,2,4) True by (simp add: batch_step_def items firing_def alive_def)
    with it(2,3) show ?thesis unfolding watching_def by blast
  next
    case False
    with it(1) items have mem: "it \<in> set xs" by simp
    have ne: "tok it \<noteq> tok x" by (rule distinct_tok_rest [OF inv items mem])
    have "set xs \<subseteq> set (ts_items (batch_step now s))" by (auto simp: batch_step_def items)
    moreover have "ts_valid (batch_step now s) (tok it) = ts_valid s (tok it)"
      using ne by (simp add: batch_step_def items)
    ultimately show ?thesis using mem it(2-4) unfolding watching_def alive_def by auto
  qed
qed

lemma watching_fire:
  assumes "timer_inv s" "ts_phase s = Firing now it" "watching s f tk" "it_fn it \<noteq> f"
  shows "watching (fire_finish clk now it s) f tk"
proof -
  from assms(2-4) obtain it' where it': "it' \<in> set (ts_items s)" "tok it' = tk" "it_fn it' = f" "alive s tk"
    by (auto simp: watching_def firing_def)
  have "tok it \<notin> tok ` set (ts_items s)" using assms(1,2) by (simp add: timer_inv_def owned_def firing_def)
  then have "tok it' \<noteq> tok it" using it'(1) by (metis image_eqI)
  then have "ts_valid (fire_finish clk now it s) (tok it') = ts_valid s (tok it')"
    by (simp add: fire_finish_def Let_def)
  moreover have "set (ts_items s) \<subseteq> set (ts_items (fire_finish clk now it s))"
    by (auto simp: fire_finish_def Let_def)
  ultimately show ?thesis using it' unfolding watching_def alive_def by auto
qed


section \<open>Cancelled timers\<close>

text \<open>A token that was handed out, is not valid and is not being fired.\<close>

definition dead :: "nat \<Rightarrow> 'f timer_service \<Rightarrow> bool" where
  "dead tk s \<longleftrightarrow> tk \<le> ts_next s \<and> \<not> alive s tk \<and> tk \<notin> tok ` set (firing s)"

definition fires_of :: "nat \<Rightarrow> 'f timer_service \<Rightarrow> 'f item list" where
  "fires_of tk s = filter (\<lambda>it. tok it = tk) (ts_fired s)"

lemma dead_step: "timer_step s t \<Longrightarrow> dead tk s \<Longrightarrow> dead tk t \<and> fires_of tk t = fires_of tk s"
proof (induction rule: timer_step.induct)
  case (do_schedule s fn first per)
  then show ?case
    by (auto simp: dead_def fires_of_def schedule_def Let_def next_token_fresh firing_def alive_def
        split: phase.splits)
next
  case (do_batch s now)
  then show ?case
    by (auto simp: dead_def fires_of_def batch_step_def firing_def alive_def split: list.splits)
qed (auto simp: dead_def fires_of_def cancel_def wake_def fire_finish_def Let_def firing_def alive_def
       split: option.splits phase.splits)

lemma dead_steps: "timer_step\<^sup>*\<^sup>* s t \<Longrightarrow> dead tk s \<Longrightarrow> dead tk t \<and> fires_of tk t = fires_of tk s"
  by (induction rule: rtranclp_induct) (use dead_step in fastforce)+

lemma cancel_dead:
  "timer_inv s \<Longrightarrow> tk \<le> ts_next s \<Longrightarrow> tk \<notin> tok ` set (firing s) \<Longrightarrow> dead tk (cancel tk s)"
  by (auto simp: dead_def cancel_def alive_def firing_def split: option.splits)

lemma fires_of_cancel [simp]: "fires_of tk (cancel tk' s) = fires_of tk s"
  by (simp add: fires_of_def cancel_def split: option.splits)

section \<open>One-shot timers\<close>

definition one_shot_inv :: "'f timer_service \<Rightarrow> bool" where
  "one_shot_inv s \<longleftrightarrow>
     (\<forall>it \<in> set (ts_fired s). tok it \<le> ts_next s) \<and>
     (\<forall>it \<in> set (ts_fired s). period it \<le> 0 \<longrightarrow> tok it \<notin> set (owned s)) \<and>
     distinct (map tok (filter (\<lambda>it. period it \<le> 0) (ts_fired s)))"

lemma one_shot_step: "timer_step s t \<Longrightarrow> timer_inv s \<Longrightarrow> one_shot_inv s \<Longrightarrow> one_shot_inv t"
proof (induction rule: timer_step.induct)
  case (do_schedule s fn first per)
  then show ?case
    by (auto simp: one_shot_inv_def schedule_def Let_def next_token_fresh owned_def firing_def le_SucI
        split: phase.splits)
next
  case (do_batch s now)
  then show ?case
    by (auto simp: one_shot_inv_def batch_step_def owned_def firing_def split: list.splits)
next
  case (do_fire s now it clk)
  then show ?case
    by (auto simp: one_shot_inv_def fire_finish_def Let_def timer_simps)
qed (auto simp: one_shot_inv_def cancel_def wake_def owned_def firing_def
       split: option.splits phase.splits)

lemma one_shot_reach: "timer_reach s \<Longrightarrow> one_shot_inv s"
proof (induction rule: timer_reach.induct)
  case reach_init
  show ?case by (simp add: one_shot_inv_def timer_init_def)
next
  case (reach_step s t)
  then show ?case using one_shot_step timer_inv_reach by blast
qed

section \<open>A batch without interference\<close>

text \<open>The worker's steps on their own, with clock value \<open>clk\<close> for the re-armed deadlines.\<close>

fun worker_run :: "nat \<Rightarrow> int \<Rightarrow> 'f timer_service \<Rightarrow> 'f timer_service" where
  "worker_run 0 clk s = s"
| "worker_run (Suc k) clk s =
     (case ts_phase s of
        Batch now \<Rightarrow> worker_run k clk (batch_step now s)
      | Firing now it \<Rightarrow> worker_run k clk (fire_finish clk now it s)
      | _ \<Rightarrow> s)"

definition due_items :: "int \<Rightarrow> 'f timer_service \<Rightarrow> 'f item list" where
  "due_items now s = takeWhile (\<lambda>it. due it \<le> now) (ts_items s)"

lemma takeWhile_item_insert:
  "sorted_wrt item_less ys \<Longrightarrow> now < due x \<Longrightarrow>
   takeWhile (\<lambda>it. due it \<le> now) (item_insert x ys) = takeWhile (\<lambda>it. due it \<le> now) ys"
proof (induction ys)
  case (Cons y ys)
  then show ?case by (auto simp: item_less_def split: if_splits)
qed simp

lemma worker_run_settled: "ts_phase s = Sleeping \<Longrightarrow> worker_run k clk s = s"
  by (cases k) simp_all

lemma batch_done:
  "due_items now s = [] \<Longrightarrow> batch_step now s = s\<lparr>ts_phase := Sleeping\<rparr>"
  by (auto simp: due_items_def batch_step_def split: list.splits if_splits)

lemma worker_run_batch:
  "timer_inv s \<Longrightarrow> ts_phase s = Batch now \<Longrightarrow> now \<le> clk \<Longrightarrow> \<not> ts_stopping s \<Longrightarrow>
   2 * length (due_items now s) < k \<Longrightarrow>
   ts_phase (worker_run k clk s) = Sleeping \<and>
   ts_fired (worker_run k clk s) =
     ts_fired s @ filter (\<lambda>it. alive s (tok it)) (due_items now s)"
proof (induction "length (due_items now s)" arbitrary: s k)
  case 0
  then obtain k' where "k = Suc k'" by (cases k) auto
  with 0 show ?case by (simp add: batch_done worker_run_settled)
next
  case (Suc n)
  then obtain it rest where items: "ts_items s = it # rest" and due: "due it \<le> now"
    by (cases "ts_items s") (auto simp: due_items_def split: if_splits)
  have D: "due_items now s = it # takeWhile (\<lambda>it. due it \<le> now) rest"
    by (simp add: due_items_def items due)
  obtain k' where k: "k = Suc (Suc k')" using Suc.prems(5) D by (cases k; cases "k - 1") auto
  have inv1: "timer_inv (batch_step now s)" by (rule timer_inv_batch [OF Suc.prems(1,2)])
  have other: "tok x \<noteq> tok it" if "x \<in> set (takeWhile (\<lambda>it. due it \<le> now) rest)" for x
  proof -
    have "x \<in> set rest" using that by (auto dest: set_takeWhileD)
    then show ?thesis by (rule distinct_tok_rest [OF Suc.prems(1) items])
  qed
  have sorted: "sorted_wrt item_less rest" using Suc.prems(1) by (simp add: timer_inv_def items)
  show ?case
  proof (cases "alive s (tok it)")
    case False
    let ?t = "batch_step now s"
    have t: "?t = s\<lparr>ts_items := rest, ts_valid := (ts_valid s)(tok it := None)\<rparr>"
      using False due by (simp add: batch_step_def items)
    have "due_items now ?t = takeWhile (\<lambda>it. due it \<le> now) rest" by (simp add: t due_items_def)
    moreover have "filter (\<lambda>x. alive ?t (tok x)) (takeWhile (\<lambda>it. due it \<le> now) rest) =
        filter (\<lambda>x. alive s (tok x)) (takeWhile (\<lambda>it. due it \<le> now) rest)"
      by (intro filter_cong) (auto simp: t alive_def dest: other)
    ultimately show ?thesis
      using Suc.hyps(1) [of ?t "Suc k'"] Suc.hyps(2) Suc.prems inv1 False D k by (simp add: t)
  next
    case True
    let ?f = "batch_step now s" and ?t = "fire_finish clk now it (batch_step now s)"
    have f: "?f = s\<lparr>ts_items := rest, ts_phase := Firing now it\<rparr>"
      using True due by (simp add: batch_step_def items)
    have inv2: "timer_inv ?t" by (rule timer_inv_fire [OF inv1]) (simp add: f)
    have D2: "due_items now ?t = takeWhile (\<lambda>it. due it \<le> now) rest"
      using Suc.prems(3) takeWhile_item_insert [OF sorted]
      by (auto simp: fire_finish_def Let_def f due_items_def Suc.prems(4))
    have "filter (\<lambda>x. alive ?t (tok x)) (takeWhile (\<lambda>it. due it \<le> now) rest) =
        filter (\<lambda>x. alive s (tok x)) (takeWhile (\<lambda>it. due it \<le> now) rest)"
      by (intro filter_cong) (auto simp: fire_finish_def Let_def f alive_def dest: other)
    moreover have "ts_phase ?t = Batch now" "\<not> ts_stopping ?t" "ts_fired ?t = ts_fired s @ [it]"
      using Suc.prems(4) by (auto simp: fire_finish_def Let_def f)
    moreover have "worker_run k clk s = worker_run k' clk ?t"
      using Suc.prems(2) by (simp add: k f)
    ultimately show ?thesis
      using Suc.hyps(1) [of ?t k'] Suc.hyps(2) Suc.prems(3,5) inv2 True D D2 k by simp
  qed
qed

section \<open>Properties\<close>

text \<open>In every state the timer service can reach, whatever the interleaving of clients and
  worker, the items wait in deadline order, no token is held twice, and the validity table has an
  entry for exactly the tokens the worker still owns.\<close>

theorem timer_state_consistent:
  assumes "timer_reach s"
  shows "timer_inv s"
  using assms by (rule timer_inv_reach)

definition demo_timers :: "string timer_service" where
  "demo_timers = snd (schedule ''b'' 5 0 (snd (schedule ''a'' 9 0 timer_init)))"

lemma demo_timers_reach: "timer_reach demo_timers"
  unfolding demo_timers_def
  by (intro reach_step [OF reach_step [OF reach_init do_schedule] do_schedule])
    (simp_all add: timer_init_def schedule_def Let_def next_token_def)

theorem timer_state_consistent_witness:
  "timer_reach demo_timers \<and> timer_inv demo_timers \<and> map tok (ts_items demo_timers) = [2, 1]"
  using demo_timers_reach timer_state_consistent [OF demo_timers_reach]
  by (simp add: demo_timers_def timer_init_def schedule_def Let_def next_token_def item_less_def)

text \<open>C10: once \<open>cancel\<close> returns for a token whose function is not running at that moment, that
  function is never called again, in any continuation.\<close>

theorem cancelled_never_fires:
  assumes "timer_reach s" "tk \<le> ts_next s" "tk \<notin> tok ` set (firing s)"
    and "timer_step\<^sup>*\<^sup>* (cancel tk s) t"
  shows "fires_of tk t = fires_of tk s"
  using dead_steps [OF assms(4) cancel_dead [OF timer_inv_reach [OF assms(1)] assms(2,3)]] by simp

theorem cancelled_never_fires_witness:
  "timer_reach demo_timers \<and> (2::nat) \<le> ts_next demo_timers \<and> 2 \<notin> tok ` set (firing demo_timers) \<and>
   timer_step\<^sup>*\<^sup>* (cancel 2 demo_timers) (batch_step 100 (wake 100 (cancel 2 demo_timers))) \<and>
   fires_of 2 (batch_step 100 (wake 100 (cancel 2 demo_timers))) = fires_of 2 demo_timers"
proof -
  let ?s = "cancel 2 demo_timers"
  have sel: "(2::nat) \<le> ts_next demo_timers" "2 \<notin> tok ` set (firing demo_timers)" "ts_phase ?s = Sleeping"
    "ts_phase (wake 100 ?s) = Batch 100"
    by (simp_all add: demo_timers_def timer_init_def schedule_def Let_def next_token_def firing_def
        cancel_def wake_def)
  have "timer_step\<^sup>*\<^sup>* ?s (wake 100 ?s)" using do_wake [OF sel(3)] by (rule r_into_rtranclp)
  then have "timer_step\<^sup>*\<^sup>* ?s (batch_step 100 (wake 100 ?s))"
    using do_batch [OF sel(4)] by (rule rtranclp.rtrancl_into_rtrancl)
  with cancelled_never_fires [OF demo_timers_reach sel(1,2) this] demo_timers_reach sel show ?thesis by simp
qed

text \<open>A one-shot timer (period zero) runs its function at most once.\<close>

theorem one_shot_fires_once:
  assumes "timer_reach s"
  shows "distinct (map tok (filter (\<lambda>it. period it \<le> 0) (ts_fired s)))"
  using one_shot_reach [OF assms] by (simp add: one_shot_inv_def)

definition demo_fired :: "string timer_service" where
  "demo_fired = fire_finish 7 6 \<lparr>due = 5, it_fn = ''b'', period = 0, tok = 2\<rparr> (batch_step 6 (wake 6 demo_timers))"

lemmas demo_timer_eval = demo_fired_def demo_timers_def timer_init_def schedule_def Let_def next_token_def
  item_less_def wake_def batch_step_def fire_finish_def alive_def

lemma demo_fired_reach: "timer_reach demo_fired"
  unfolding demo_fired_def
proof (intro reach_step [OF reach_step [OF reach_step [OF demo_timers_reach do_wake] do_batch] do_fire])
qed (simp_all add: demo_timer_eval)

theorem one_shot_fires_once_witness:
  "timer_reach demo_fired \<and> map tok (ts_fired demo_fired) = [2] \<and>
   distinct (map tok (filter (\<lambda>it. period it \<le> 0) (ts_fired demo_fired)))"
  using demo_fired_reach one_shot_fires_once [OF demo_fired_reach] by (simp add: demo_timer_eval)

text \<open>C35: a batch of the worker that no other thread interrupts ends, and has then run exactly the
  functions of the due items that were not cancelled, in the order of their deadlines.\<close>

theorem batch_fires_due_items:
  assumes "timer_inv s" "ts_phase s = Batch now" "now \<le> clk" "\<not> ts_stopping s"
    and "2 * length (due_items now s) < k"
  shows "ts_phase (worker_run k clk s) = Sleeping \<and>
    ts_fired (worker_run k clk s) = ts_fired s @ filter (\<lambda>it. alive s (tok it)) (due_items now s)"
  using worker_run_batch [OF assms] by simp

theorem batch_fires_due_items_witness:
  "timer_inv (wake 6 demo_timers) \<and> ts_phase (worker_run 3 7 (wake 6 demo_timers)) = Sleeping \<and>
   map it_fn (ts_fired (worker_run 3 7 (wake 6 demo_timers))) = [''b'']"
proof -
  let ?s = "wake 6 demo_timers"
  have inv: "timer_inv ?s"
    by (rule timer_inv_wake [OF timer_inv_reach [OF demo_timers_reach]]) (simp add: demo_timer_eval)
  have "ts_phase ?s = Batch 6" "\<not> ts_stopping ?s" "2 * length (due_items 6 ?s) < 3"
    "ts_fired ?s @ filter (\<lambda>it. alive ?s (tok it)) (due_items 6 ?s) = [\<lparr>due = 5, it_fn = ''b'', period = 0, tok = 2\<rparr>]"
    by (simp_all add: demo_timer_eval due_items_def)
  with batch_fires_due_items [OF inv, of 6 7 3] inv show ?thesis by simp
qed

end
