(* ===== verification/Envelope.thy ===== *)
theory Envelope
  imports Simula_Prelude "HOL-Library.Word"
begin

text \<open>
  \<open>component/common/Envelope.{hpp,cpp}\<close>: the message wrapper, its JSON form, the error code table
  and the correlation ids.
\<close>

section \<open>The JSON library\<close>

text \<open>
  \<open>nlohmann::json\<close> is a parameter of the model: a type \<open>'j\<close> of values and the operations the
  code uses. \<open>j_find j k\<close> is \<open>j.contains(k)\<close> together with \<open>j[k]\<close> on a value with that key;
  \<open>j_int\<close> is the number read by \<open>is_number_integer\<close> and \<open>get\<close>, \<open>j_string\<close> that read by
  \<open>is_string\<close> and \<open>get\<close>, \<open>j_bool\<close> a boolean, \<open>j_number\<close>
  the integer that \<open>get\<close> of an arithmetic type yields from a number or a boolean, before it is cut to
  the width of the type; \<open>j_iter\<close> are the values a range loop visits (none
  exactly when \<open>empty()\<close>): the elements of an array, the member values of an object, nothing for
  null, and any other value itself.
\<close>

record 'j json_lib =
  j_object :: 'j
  j_set :: "string \<Rightarrow> 'j \<Rightarrow> 'j \<Rightarrow> 'j"
  j_find :: "'j \<Rightarrow> string \<Rightarrow> 'j option"
  j_is_object :: "'j \<Rightarrow> bool"
  j_of_int :: "int \<Rightarrow> 'j"
  j_int :: "'j \<Rightarrow> int option"
  j_of_string :: "string \<Rightarrow> 'j"
  j_string :: "'j \<Rightarrow> string option"
  j_bool :: "'j \<Rightarrow> bool option"
  j_number :: "'j \<Rightarrow> int option"
  j_of_bool :: "bool \<Rightarrow> 'j"
  j_of_list :: "'j list \<Rightarrow> 'j"
  j_array :: "'j \<Rightarrow> 'j list option"
  j_iter :: "'j \<Rightarrow> 'j list"

text \<open>The documented behaviour the envelope code relies on.\<close>

definition json_ok :: "'j json_lib \<Rightarrow> bool" where
  "json_ok J \<longleftrightarrow>
     j_is_object J (j_object J) \<and> (\<forall>k. j_find J (j_object J) k = None) \<and>
     (\<forall>j k v. j_is_object J j \<longrightarrow>
        j_is_object J (j_set J k v j) \<and> j_find J (j_set J k v j) = (j_find J j)(k \<mapsto> v)) \<and>
     (\<forall>n. j_int J (j_of_int J n) = Some n) \<and>
     (\<forall>s. j_string J (j_of_string J s) = Some s) \<and>
     (\<forall>b. j_bool J (j_of_bool J b) = Some b) \<and>
     (\<forall>n. j_number J (j_of_int J n) = Some n) \<and>
     (\<forall>xs. j_array J (j_of_list J xs) = Some xs) \<and>
     (\<forall>xs. j_iter J (j_of_list J xs) = xs)"

text \<open>A concrete library, for evaluation: JSON values as trees, objects as association lists.\<close>

datatype jtree = JNull | JBool bool | JInt int | JStr string | JArr "jtree list"
  | JObj "(string \<times> jtree) list"

definition tree_lib :: "jtree json_lib" where
  "tree_lib = \<lparr>
     j_object = JObj [],
     j_set = (\<lambda>k v j. case j of JObj m \<Rightarrow> JObj (AList.update k v m) | _ \<Rightarrow> j),
     j_find = (\<lambda>j k. case j of JObj m \<Rightarrow> map_of m k | _ \<Rightarrow> None),
     j_is_object = (\<lambda>j. case j of JObj m \<Rightarrow> True | _ \<Rightarrow> False),
     j_of_int = JInt,
     j_int = (\<lambda>j. case j of JInt n \<Rightarrow> Some n | _ \<Rightarrow> None),
     j_of_string = JStr,
     j_string = (\<lambda>j. case j of JStr s \<Rightarrow> Some s | _ \<Rightarrow> None),
     j_bool = (\<lambda>j. case j of JBool b \<Rightarrow> Some b | _ \<Rightarrow> None),
     j_number = (\<lambda>j. case j of JInt n \<Rightarrow> Some n | JBool b \<Rightarrow> Some (of_bool b) | _ \<Rightarrow> None),
     j_of_bool = JBool,
     j_of_list = JArr,
     j_array = (\<lambda>j. case j of JArr xs \<Rightarrow> Some xs | _ \<Rightarrow> None),
     j_iter = (\<lambda>j. case j of JNull \<Rightarrow> [] | JArr xs \<Rightarrow> xs | JObj m \<Rightarrow> map snd m | _ \<Rightarrow> [j])\<rparr>"

lemma tree_lib_ok: "json_ok tree_lib"
  by (auto simp: json_ok_def tree_lib_def update_conv' split: jtree.splits)

text \<open>
  \<open>j.value(k, dflt)\<close>: the member converted to the type of the default, or the default when there
  is none; it throws on a value that is not an object and on a member of another type.
\<close>

definition value_as :: "('j \<Rightarrow> 'a option) \<Rightarrow> 'j json_lib \<Rightarrow> 'j \<Rightarrow> string \<Rightarrow> 'a \<Rightarrow> 'a result" where
  "value_as get J j k dflt =
     (if \<not> j_is_object J j then Inl Uncaught_Exception
      else case j_find J j k of
        None \<Rightarrow> Inr dflt
      | Some v \<Rightarrow> (case get v of None \<Rightarrow> Inl Uncaught_Exception | Some x \<Rightarrow> Inr x))"

text \<open>\<open>value(k, 0u)\<close> and \<open>value(k, 0)\<close>: 32 bits of the number; \<open>value(k, false)\<close>; \<open>value(k, std::string())\<close>.\<close>

definition value_word :: "'j json_lib \<Rightarrow> 'j \<Rightarrow> string \<Rightarrow> 32 word result" where
  "value_word J j k = value_as (\<lambda>v. map_option word_of_int (j_number J v)) J j k 0"

definition value_bool :: "'j json_lib \<Rightarrow> 'j \<Rightarrow> string \<Rightarrow> bool result" where
  "value_bool J j k = value_as (j_bool J) J j k False"

definition value_string :: "'j json_lib \<Rightarrow> 'j \<Rightarrow> string \<Rightarrow> string result" where
  "value_string J j k = value_as (j_string J) J j k []"

text \<open>\<open>data.value(k, json::array())\<close> and the range loop over it.\<close>

definition value_items :: "'j json_lib \<Rightarrow> 'j \<Rightarrow> string \<Rightarrow> 'j list result" where
  "value_items J j k =
     (if \<not> j_is_object J j then Inl Uncaught_Exception
      else Inr (case j_find J j k of None \<Rightarrow> [] | Some v \<Rightarrow> j_iter J v))"

section \<open>Envelope\<close>

record 'j envelope =
  env_v :: int
  env_corrId :: string
  env_ts :: int
  env_src :: string
  env_dest :: "string option"
  env_data :: "'j option"
  env_error :: "'j option"

definition set_opt :: "'j json_lib \<Rightarrow> string \<Rightarrow> 'j option \<Rightarrow> 'j \<Rightarrow> 'j" where
  "set_opt J k v j = (case v of None \<Rightarrow> j | Some x \<Rightarrow> j_set J k x j)"

definition toJson :: "'j json_lib \<Rightarrow> 'j envelope \<Rightarrow> 'j" where
  "toJson J e =
     (let j = j_object J;
          j = j_set J ''v'' (j_of_int J (env_v e)) j;
          j = j_set J ''corrId'' (j_of_string J (env_corrId e)) j;
          j = j_set J ''ts'' (j_of_int J (env_ts e)) j;
          j = j_set J ''src'' (j_of_string J (env_src e)) j;
          j = set_opt J ''dest'' (map_option (j_of_string J) (env_dest e)) j;
          j = set_opt J ''data'' (env_data e) j;
          j = set_opt J ''error'' (env_error e) j
      in j)"

text \<open>
  \<open>get<int>()\<close> and \<open>get<int64_t>()\<close> convert the stored integer to the C++ type, modulo its
  width.
\<close>

definition to_int32 :: "int \<Rightarrow> int" where
  "to_int32 n = (n + 2 ^ 31) mod 2 ^ 32 - 2 ^ 31"

definition to_int64 :: "int \<Rightarrow> int" where
  "to_int64 n = (n + 2 ^ 63) mod 2 ^ 64 - 2 ^ 63"

definition field_int :: "'j json_lib \<Rightarrow> 'j \<Rightarrow> string \<Rightarrow> int option" where
  "field_int J j k = Option.bind (j_find J j k) (j_int J)"

definition field_string :: "'j json_lib \<Rightarrow> 'j \<Rightarrow> string \<Rightarrow> string option" where
  "field_string J j k = Option.bind (j_find J j k) (j_string J)"

text \<open>
  An optional field: absent is \<open>Inr None\<close>; present with the wrong type is the error \<open>msg\<close>.
\<close>

definition opt_field :: "string \<Rightarrow> ('j \<Rightarrow> 'b option) \<Rightarrow> 'j option \<Rightarrow> string + 'b option" where
  "opt_field msg get fld =
     (case fld of
        None \<Rightarrow> Inr None
      | Some j \<Rightarrow> (case get j of None \<Rightarrow> Inl msg | Some x \<Rightarrow> Inr (Some x)))"

definition as_object :: "'j json_lib \<Rightarrow> 'j \<Rightarrow> 'j option" where
  "as_object J j = (if j_is_object J j then Some j else None)"

definition fromJson :: "'j json_lib \<Rightarrow> 'j \<Rightarrow> string + 'j envelope" where
  "fromJson J j =
     (if \<not> j_is_object J j then Inl ''envelope is not a JSON object''
      else case field_int J j ''v'' of None \<Rightarrow> Inl ''missing/invalid field `v`'' | Some v \<Rightarrow>
      if to_int32 v \<noteq> 1 then Inl ''envelope `v` != 1''
      else case field_string J j ''corrId'' of None \<Rightarrow> Inl ''missing/invalid field `corrId`'' | Some c \<Rightarrow>
      case field_int J j ''ts'' of None \<Rightarrow> Inl ''missing/invalid field `ts`'' | Some t \<Rightarrow>
      case field_string J j ''src'' of None \<Rightarrow> Inl ''missing/invalid field `src`'' | Some s \<Rightarrow>
      bindE (opt_field ''invalid field `dest`'' (j_string J) (j_find J j ''dest'')) (\<lambda>dst.
      bindE (opt_field ''invalid field `data`'' (as_object J) (j_find J j ''data'')) (\<lambda>dat.
      bindE (opt_field ''invalid field `error`'' (as_object J) (j_find J j ''error'')) (\<lambda>er.
      Inr \<lparr>env_v = to_int32 v, env_corrId = c, env_ts = to_int64 t, env_src = s,
           env_dest = dst, env_data = dat, env_error = er\<rparr>))))"

section \<open>Error codes\<close>

text \<open>The values of \<open>telux::common::ErrorCode\<close> that the table names.\<close>

type_synonym error_code = int

definition EC_SUCCESS :: error_code where "EC_SUCCESS = 0"
definition EC_RADIO_NOT_AVAILABLE :: error_code where "EC_RADIO_NOT_AVAILABLE = 1"
definition EC_GENERIC_FAILURE :: error_code where "EC_GENERIC_FAILURE = 2"
definition EC_INVALID_STATE :: error_code where "EC_INVALID_STATE = 41"
definition EC_NO_RESOURCES :: error_code where "EC_NO_RESOURCES = 42"
definition EC_INVALID_ARGUMENTS :: error_code where "EC_INVALID_ARGUMENTS = 44"
definition EC_DEVICE_IN_USE :: error_code where "EC_DEVICE_IN_USE = 64"
definition EC_INVALID_OPERATION :: error_code where "EC_INVALID_OPERATION = 1070"
definition EC_NOT_SUPPORTED :: error_code where "EC_NOT_SUPPORTED = 1094"
definition EC_OP_IN_PROGRESS :: error_code where "EC_OP_IN_PROGRESS = 1118"
definition EC_SUBSYSTEM_UNAVAILABLE :: error_code where "EC_SUBSYSTEM_UNAVAILABLE = 5000"
definition EC_OPERATION_TIMEOUT :: error_code where "EC_OPERATION_TIMEOUT = 5001"

lemmas error_code_defs = EC_SUCCESS_def EC_RADIO_NOT_AVAILABLE_def EC_GENERIC_FAILURE_def
  EC_INVALID_STATE_def EC_NO_RESOURCES_def EC_INVALID_ARGUMENTS_def EC_DEVICE_IN_USE_def
  EC_INVALID_OPERATION_def EC_NOT_SUPPORTED_def EC_OP_IN_PROGRESS_def
  EC_SUBSYSTEM_UNAVAILABLE_def EC_OPERATION_TIMEOUT_def

definition kErrorCodes :: "(string \<times> error_code) list" where
  "kErrorCodes = [
     (''SUCCESS'', EC_SUCCESS),
     (''GENERIC_FAILURE'', EC_GENERIC_FAILURE),
     (''RADIO_NOT_AVAILABLE'', EC_RADIO_NOT_AVAILABLE),
     (''INVALID_ARGUMENTS'', EC_INVALID_ARGUMENTS),
     (''OP_IN_PROGRESS'', EC_OP_IN_PROGRESS),
     (''NOT_SUPPORTED'', EC_NOT_SUPPORTED),
     (''DEVICE_IN_USE'', EC_DEVICE_IN_USE),
     (''INVALID_OPERATION'', EC_INVALID_OPERATION),
     (''NO_RESOURCES'', EC_NO_RESOURCES),
     (''OPERATION_TIMEOUT'', EC_OPERATION_TIMEOUT),
     (''INVALID_STATE'', EC_INVALID_STATE)]"

fun first_match :: "('a \<Rightarrow> 'b option) \<Rightarrow> 'a list \<Rightarrow> 'b option" where
  "first_match f [] = None"
| "first_match f (x # xs) = (case f x of None \<Rightarrow> first_match f xs | Some y \<Rightarrow> Some y)"

definition parseErrorCode :: "string \<Rightarrow> error_code" where
  "parseErrorCode wire =
     (case first_match (\<lambda>(w, c). if w = wire then Some c else None) kErrorCodes of
        Some c \<Rightarrow> c | None \<Rightarrow> EC_GENERIC_FAILURE)"

definition errorCodeName :: "error_code \<Rightarrow> string" where
  "errorCodeName code =
     (case first_match (\<lambda>(w, c). if c = code then Some w else None) kErrorCodes of
        Some w \<Rightarrow> w | None \<Rightarrow> ''GENERIC_FAILURE'')"

section \<open>Correlation ids\<close>

text \<open>\<open>snprintf("%08x")\<close> of a 32-bit value: eight lowercase hexadecimal digits.\<close>

definition hex_digit :: "nat \<Rightarrow> char" where
  "hex_digit d = ''0123456789abcdef'' ! d"

fun hex_n :: "nat \<Rightarrow> nat \<Rightarrow> string" where
  "hex_n 0 n = []"
| "hex_n (Suc k) n = hex_n k (n div 16) @ [hex_digit (n mod 16)]"

definition nextCorrId :: "32 word \<Rightarrow> string \<times> 32 word" where
  "nextCorrId g_corr_counter = (hex_n 8 (unat g_corr_counter), g_corr_counter + 1)"

section \<open>Builders\<close>

text \<open>The counter is threaded, the clock value \<open>now\<close> of \<open>nowMs()\<close> is an argument.\<close>

definition makeRequestEnvelope :: "int \<Rightarrow> string \<Rightarrow> 'j \<Rightarrow> 32 word \<Rightarrow> 'j envelope \<times> 32 word" where
  "makeRequestEnvelope now src dat ctr =
     (case nextCorrId ctr of (c, ctr) \<Rightarrow>
      (\<lparr>env_v = 1, env_corrId = c, env_ts = now, env_src = src, env_dest = None,
        env_data = Some dat, env_error = None\<rparr>, ctr))"

definition makeResponseEnvelope :: "int \<Rightarrow> string \<Rightarrow> string \<Rightarrow> string \<Rightarrow> 'j \<Rightarrow> 'j envelope" where
  "makeResponseEnvelope now src corrId dst dat =
     \<lparr>env_v = 1, env_corrId = corrId, env_ts = now, env_src = src, env_dest = Some dst,
      env_data = Some dat, env_error = None\<rparr>"

definition makeErrorEnvelope :: "'j json_lib \<Rightarrow> int \<Rightarrow> string \<Rightarrow> string \<Rightarrow> string \<Rightarrow> error_code \<Rightarrow> string
    \<Rightarrow> 'j envelope" where
  "makeErrorEnvelope J now src corrId dst code msg =
     (let err = j_set J ''code'' (j_of_string J (errorCodeName code)) (j_object J);
          err = (if msg \<noteq> [] then j_set J ''msg'' (j_of_string J msg) err else err)
      in \<lparr>env_v = 1, env_corrId = corrId, env_ts = now, env_src = src, env_dest = Some dst,
          env_data = None, env_error = Some err\<rparr>)"

definition makeEventEnvelope :: "int \<Rightarrow> string \<Rightarrow> 'j \<Rightarrow> 32 word \<Rightarrow> 'j envelope \<times> 32 word" where
  "makeEventEnvelope now src dat ctr =
     (case nextCorrId ctr of (c, ctr) \<Rightarrow>
      (\<lparr>env_v = 1, env_corrId = c, env_ts = now, env_src = src, env_dest = None,
        env_data = Some dat, env_error = None\<rparr>, ctr))"

section \<open>Lemmas\<close>

text \<open>What a value of the C++ struct satisfies when it is about to be sent.\<close>

definition env_wf :: "'j json_lib \<Rightarrow> 'j envelope \<Rightarrow> bool" where
  "env_wf J e \<longleftrightarrow> env_v e = 1 \<and> - (2 ^ 63) \<le> env_ts e \<and> env_ts e < 2 ^ 63 \<and>
     (\<forall>d. env_data e = Some d \<longrightarrow> j_is_object J d) \<and> (\<forall>d. env_error e = Some d \<longrightarrow> j_is_object J d)"

lemma to_int64_id: "- (2 ^ 63) \<le> n \<Longrightarrow> n < 2 ^ 63 \<Longrightarrow> to_int64 n = n"
  by (simp add: to_int64_def)

lemma json_okD:
  assumes "json_ok J"
  shows "j_is_object J (j_object J)" "j_find J (j_object J) k = None"
    "j_is_object J j \<Longrightarrow> j_is_object J (j_set J k v j)"
    "j_is_object J j \<Longrightarrow> j_find J (j_set J k v j) = (j_find J j)(k \<mapsto> v)"
    "j_int J (j_of_int J n) = Some n" "j_string J (j_of_string J s) = Some s"
    "j_bool J (j_of_bool J b) = Some b" "j_number J (j_of_int J n) = Some n" "j_array J (j_of_list J xs) = Some xs"
    "j_iter J (j_of_list J xs) = xs"
  using assms by (auto simp: json_ok_def)

lemma set_opt_object: "json_ok J \<Longrightarrow> j_is_object J j \<Longrightarrow> j_is_object J (set_opt J k v j)"
  by (simp add: set_opt_def json_okD split: option.splits)

lemma set_opt_find:
  "json_ok J \<Longrightarrow> j_is_object J j \<Longrightarrow>
   j_find J (set_opt J k v j) k' = (if k' = k \<and> v \<noteq> None then v else j_find J j k')"
  by (auto simp: set_opt_def json_okD split: option.splits)

lemma toJson_object: "json_ok J \<Longrightarrow> j_is_object J (toJson J e)"
  by (simp add: toJson_def Let_def set_opt_object json_okD)

lemma toJson_find:
  assumes "json_ok J"
  shows "j_find J (toJson J e) ''v'' = Some (j_of_int J (env_v e))"
    "j_find J (toJson J e) ''corrId'' = Some (j_of_string J (env_corrId e))"
    "j_find J (toJson J e) ''ts'' = Some (j_of_int J (env_ts e))"
    "j_find J (toJson J e) ''src'' = Some (j_of_string J (env_src e))"
    "j_find J (toJson J e) ''dest'' = map_option (j_of_string J) (env_dest e)"
    "j_find J (toJson J e) ''data'' = env_data e"
    "j_find J (toJson J e) ''error'' = env_error e"
  using assms by (simp_all add: toJson_def Let_def set_opt_find set_opt_object json_okD)

lemma fromJson_toJson:
  assumes J: "json_ok J" and e: "env_wf J e"
  shows "fromJson J (toJson J e) = Inr e"
proof -
  have "opt_field m (j_string J) (map_option (j_of_string J) (env_dest e)) = Inr (env_dest e)" for m
    by (simp add: opt_field_def json_okD [OF J] split: option.splits)
  moreover have "opt_field m (as_object J) (env_data e) = Inr (env_data e)"
    "opt_field m (as_object J) (env_error e) = Inr (env_error e)" for m
    using e by (auto simp: opt_field_def as_object_def env_wf_def split: option.splits)
  moreover have "to_int32 1 = 1" by (simp add: to_int32_def)
  ultimately show ?thesis using e J
    by (simp add: fromJson_def toJson_object toJson_find field_int_def field_string_def json_okD
        env_wf_def to_int64_id)
qed

text \<open>Whatever is accepted has the documented shape.\<close>

lemma fromJson_wf:
  assumes "fromJson J j = Inr e"
  shows "env_wf J e"
proof -
  have ts: "- (2 ^ 63) \<le> to_int64 t \<and> to_int64 t < 2 ^ 63" for t
    by (simp add: to_int64_def minus_mod_eq_mult_div [symmetric] algebra_simps)
  show ?thesis using assms ts
    by (auto simp: fromJson_def env_wf_def opt_field_def as_object_def bindE_eq_Inr
        split: if_splits option.splits)
qed

lemma distinct_table: "distinct (map fst kErrorCodes)" "distinct (map snd kErrorCodes)"
  by (simp_all add: kErrorCodes_def error_code_defs)

lemma first_match_fst: "first_match (\<lambda>(w, c). if w = k then Some c else None) m = map_of m k"
  by (induction m) auto

lemma first_match_snd:
  "distinct (map snd m) \<Longrightarrow> (w, k) \<in> set m \<Longrightarrow>
   first_match (\<lambda>(w, c). if c = k then Some w else None) m = Some w"
  by (induction m) (auto simp: rev_image_eqI)

lemma first_match_snd_None:
  "k \<notin> snd ` set m \<Longrightarrow> first_match (\<lambda>(w, c). if c = k then Some w else None) m = None"
  by (induction m) auto

lemma parseErrorCode_entry: "(w, c) \<in> set kErrorCodes \<Longrightarrow> parseErrorCode w = c"
  using distinct_table by (simp add: parseErrorCode_def first_match_fst)

lemma errorCodeName_entry: "(w, c) \<in> set kErrorCodes \<Longrightarrow> errorCodeName c = w"
  using distinct_table by (simp add: errorCodeName_def first_match_snd)

lemma hex_digit_inj: "d < 16 \<Longrightarrow> e < 16 \<Longrightarrow> hex_digit d = hex_digit e \<Longrightarrow> d = e"
  by (simp add: hex_digit_def nth_eq_iff_index_eq)

lemma length_hex_n [simp]: "length (hex_n k n) = k"
  by (induction k arbitrary: n) auto

lemma hex_n_inj: "m < 16 ^ k \<Longrightarrow> n < 16 ^ k \<Longrightarrow> hex_n k m = hex_n k n \<Longrightarrow> m = n"
proof (induction k arbitrary: m n)
  case (Suc k)
  then have "m div 16 = n div 16" and "m mod 16 = n mod 16"
    by (auto intro!: Suc.IH hex_digit_inj)
  then show ?case by (metis div_mult_mod_eq)
qed simp

text \<open>The ids of \<open>n\<close> consecutive calls.\<close>

fun corr_ids :: "nat \<Rightarrow> 32 word \<Rightarrow> string list" where
  "corr_ids 0 c = []"
| "corr_ids (Suc n) c = (case nextCorrId c of (s, c) \<Rightarrow> s # corr_ids n c)"

lemma corr_ids_nth: "i < n \<Longrightarrow> corr_ids n c ! i = hex_n 8 (unat (c + of_nat i))"
  by (induction n arbitrary: c i) (auto simp: nextCorrId_def nth_Cons ac_simps split: nat.splits)

lemma length_corr_ids [simp]: "length (corr_ids n c) = n"
  by (induction n arbitrary: c) (auto simp: nextCorrId_def)

lemma unat_lt_16_8: "unat (c :: 32 word) < 16 ^ 8"
  using unsigned_less [of c, where ?'a = nat] by simp

lemma of_nat_inj32:
  assumes "(of_nat i :: 32 word) = of_nat j" "i < 2 ^ 32" "j < 2 ^ 32"
  shows "i = j"
proof -
  have "unat (of_nat i :: 32 word) = unat (of_nat j :: 32 word)" using assms(1) by simp
  then show ?thesis using assms(2,3) by (simp add: unat_of_nat)
qed

lemma distinct_corr_ids:
  assumes "n \<le> 2 ^ 32"
  shows "distinct (corr_ids n c)"
  unfolding distinct_conv_nth
proof (intro allI impI notI)
  fix i j
  assume ij: "i < length (corr_ids n c)" "j < length (corr_ids n c)" "i \<noteq> j"
    and eq: "corr_ids n c ! i = corr_ids n c ! j"
  from eq ij have "unat (c + of_nat i) = unat (c + of_nat j)"
    by (auto simp: corr_ids_nth intro: hex_n_inj [OF unat_lt_16_8 unat_lt_16_8])
  then have "c + of_nat i = c + of_nat j" by (simp only: word_unat_eq_iff)
  then have "(of_nat i :: 32 word) = of_nat j" by simp
  then have "i = j" using ij assms by (intro of_nat_inj32) auto
  with ij show False by simp
qed

section \<open>Properties\<close>

text \<open>C36: an envelope survives its JSON form: parsing what \<open>toJson\<close> wrote gives the envelope back.\<close>

theorem envelope_roundtrip:
  assumes "json_ok J" "env_wf J e"
  shows "fromJson J (toJson J e) = Inr e"
  using assms by (rule fromJson_toJson)

definition demo_env :: "jtree envelope" where
  "demo_env = makeResponseEnvelope 17 ''mpss'' ''0000002a'' ''pa-1'' (JObj [(''ok'', JBool True)])"

lemma demo_env_wf: "env_wf tree_lib demo_env"
  by (simp add: env_wf_def demo_env_def makeResponseEnvelope_def tree_lib_def)

theorem envelope_roundtrip_witness:
  "json_ok tree_lib \<and> env_wf tree_lib demo_env \<and> fromJson tree_lib (toJson tree_lib demo_env) = Inr demo_env"
  using envelope_roundtrip [OF tree_lib_ok demo_env_wf] tree_lib_ok demo_env_wf by simp

text \<open>Whatever JSON value arrives, \<open>fromJson\<close> either reports an error or yields an envelope of
  version 1 whose time stamp fits 64 bits and whose \<open>data\<close> and \<open>error\<close> are objects.\<close>

theorem parsed_envelope_wf:
  "case fromJson J j of Inl msg \<Rightarrow> msg \<noteq> [] | Inr e \<Rightarrow> env_wf J e"
  using fromJson_wf [of J j]
  by (auto simp: fromJson_def opt_field_def split: sum.splits option.splits if_splits)

text \<open>The error table is a bijection between its names and codes: each translates to the other
  and back, every other code is written as \<open>GENERIC_FAILURE\<close> and every unknown name read as it.\<close>

theorem error_codes_roundtrip:
  "(c \<in> snd ` set kErrorCodes \<longrightarrow> parseErrorCode (errorCodeName c) = c) \<and>
   (w \<in> fst ` set kErrorCodes \<longrightarrow> errorCodeName (parseErrorCode w) = w) \<and>
   (c \<notin> snd ` set kErrorCodes \<longrightarrow> errorCodeName c = ''GENERIC_FAILURE'') \<and>
   (w \<notin> fst ` set kErrorCodes \<longrightarrow> parseErrorCode w = EC_GENERIC_FAILURE)"
proof -
  have "parseErrorCode w = EC_GENERIC_FAILURE" if "w \<notin> fst ` set kErrorCodes"
    using that by (simp add: parseErrorCode_def first_match_fst map_of_eq_None_iff [THEN iffD2])
  moreover have "errorCodeName c = ''GENERIC_FAILURE''" if "c \<notin> snd ` set kErrorCodes"
    using that by (simp add: errorCodeName_def first_match_snd_None)
  ultimately show ?thesis by (auto simp: parseErrorCode_entry errorCodeName_entry)
qed

theorem error_codes_roundtrip_witness:
  "parseErrorCode (errorCodeName 1118) = 1118 \<and> errorCodeName (parseErrorCode ''NO_RESOURCES'') = ''NO_RESOURCES'' \<and>
   errorCodeName 5000 = ''GENERIC_FAILURE''"
proof -
  have "1118 \<in> snd ` set kErrorCodes" "''NO_RESOURCES'' \<in> fst ` set kErrorCodes" "5000 \<notin> snd ` set kErrorCodes"
    by (simp_all add: kErrorCodes_def error_code_defs)
  with error_codes_roundtrip [of 1118 "''NO_RESOURCES''"] error_codes_roundtrip [of 5000] show ?thesis by simp
qed

text \<open>C37: the correlation ids of up to $2^{32}$ consecutive requests of a process are pairwise
  different, wherever the 32-bit counter stands.\<close>

theorem correlation_ids_distinct:
  assumes "n \<le> 2 ^ 32"
  shows "distinct (corr_ids n c)"
  using assms by (rule distinct_corr_ids)

theorem correlation_ids_distinct_witness:
  "(3::nat) \<le> 2 ^ 32 \<and> distinct (corr_ids 3 (- 1))"
  using correlation_ids_distinct [of 3 "- 1"] by simp

end
