(* ===== verification/Modem_Bridge.thy ===== *)
theory Modem_Bridge
  imports Chart_Ao Chart_Timer Envelope
begin

text \<open>
  \<open>component/common/ModemBridge.{hpp,cpp}\<close>: the request/response router between the managers and
  the modem process, a state chart on an active object. Outside the model are libmosquitto, the
  JSON parser and the schema validator; they are the parameter \<open>X\<close>. Clients' callbacks are
  named by numbers; their invocations, and the calls of libmosquitto, are the effects recorded
  in \<open>br_out\<close>. The timer service is the model of \<open>Chart_Timer\<close>, part of the state.
\<close>

section \<open>Data\<close>

datatype bstate =
    NotOperational | Disconnected | Connecting | Connected | Subscribing | Operational
  | Backoff | ShuttingDown

text \<open>\<open>SendReqPld\<close>.\<close>

record 'j send_req =
  sr_topic :: string
  sr_rsp_schema_id :: string
  sr_envelope :: "'j envelope"
  sr_cb :: nat
  sr_deadline :: int

text \<open>The signals of \<open>CommonSignals\<close> that the bridge uses, each with its payload.\<close>

datatype 'j bridge_event =
    Start_Signal
  | Stop_Signal
  | LinkUp_Signal int
  | LinkDown_Signal int
  | ConnectTimeout_Signal
  | AllSubAcked_Signal
  | SendReq_Signal "'j send_req"
  | RspTimeout_Signal string
  | EvtRecv_Signal string string
  | SubscribeEvent_Signal string string nat
  | UnsubscribeEvent_Signal string
  | SubscribeConnectivity_Signal nat nat
  | UnsubscribeConnectivity_Signal nat
  | Drain_Signal nat
  | PublishOneway_Signal string string "'j envelope"

datatype 'j effect =
    Rpc_Called nat "'j envelope option"
  | Evt_Called nat string "'j envelope"
  | Conn_Called nat bool
  | Drain_Done nat
  | Mosq_Reconnect_Delay int int
  | Mosq_Connect string int int
  | Mosq_Loop_Start
  | Mosq_Disconnect
  | Mosq_Loop_Stop
  | Mosq_Subscribe string
  | Mosq_Unsubscribe string
  | Mosq_Publish string string

text \<open>The closures the bridge gives to the timer service.\<close>

datatype bridge_timer = Rsp_Timer string | Connect_Timer

record broker_config =
  use_uds :: bool
  cfg_host :: string
  cfg_port :: int
  keepalive_s :: int
  connect_timeout :: int
  backoff_initial :: int
  backoff_max :: int
  socket_path :: string

record in_flight =
  if_topic :: string
  if_rsp_schema_id :: string
  if_cb :: nat
  if_timer_token :: nat

record 'j modem_bridge = "(bstate, 'j bridge_event) active_object" +
  br_cfg :: broker_config
  br_pa_id :: string
  br_client :: bool
  br_in_flight :: "(string \<times> in_flight) list"
  br_subs :: "(string \<times> string \<times> nat) list"
  br_conn_obs :: "(nat \<times> nat) list"
  br_next_conn_token :: nat
  br_failures :: int
  br_connect_timeout :: "bridge_timer time_event"
  br_deferred :: "'j bridge_event list"
  br_timers :: "bridge_timer timer_service"
  br_now :: int
  br_out :: "'j effect list"

text \<open>
  The parameter: JSON values and text (\<open>None\<close>: \<open>json::parse\<close> throws), the schema validation
  (\<open>None\<close>: the schema lookup or the validator throws), the return codes of libmosquitto as
  functions of what happened so far, the socket path of the build.
\<close>

record 'j bridge_ext =
  x_json :: "'j json_lib"
  x_parse :: "string \<Rightarrow> 'j option"
  x_dump :: "'j \<Rightarrow> string"
  x_schema :: "string \<Rightarrow> 'j \<Rightarrow> bool option"
  x_connect_rc :: "'j effect list \<Rightarrow> int"
  x_publish_rc :: "'j effect list \<Rightarrow> int"
  x_uds_socket :: string

definition MOSQ_ERR_SUCCESS :: int where
  "MOSQ_ERR_SUCCESS = 0"

section \<open>Helpers\<close>

definition emit :: "'j effect \<Rightarrow> 'j modem_bridge \<Rightarrow> 'j modem_bridge" where
  "emit x h = h\<lparr>br_out := br_out h @ [x]\<rparr>"

text \<open>Schema id of an outbound request topic; empty outside \<open>mp/req/\<close> and \<open>ap/req/\<close>.\<close>

definition starts_with :: "string \<Rightarrow> string \<Rightarrow> bool" where
  "starts_with p s \<longleftrightarrow> take (length p) s = p"

definition resolveReqSchemaId :: "string \<Rightarrow> string" where
  "resolveReqSchemaId topic =
     (let kMpPrefix = ''mp/req/''; kApPrefix = ''ap/req/'';
          finish = (\<lambda>rest. map (\<lambda>c. if c = CHR ''/'' then CHR ''.'' else c) rest @ ''.req'')
      in if starts_with kMpPrefix topic then finish (drop (length kMpPrefix) topic)
         else if starts_with kApPrefix topic then finish (drop (length kApPrefix) topic)
         else [])"

definition kRspWildcard :: string where
  "kRspWildcard = ''mp/rsp/#''"

definition kApRspWildcard :: string where
  "kApRspWildcard = ''ap/rsp/#''"

definition issueAllSubscribes :: "'j modem_bridge \<Rightarrow> 'j modem_bridge" where
  "issueAllSubscribes h =
     fold (\<lambda>(topic, _). emit (Mosq_Subscribe topic)) (br_subs h)
       (emit (Mosq_Subscribe kApRspWildcard) (emit (Mosq_Subscribe kRspWildcard) h))"

definition notifyConnectivity :: "bool \<Rightarrow> 'j modem_bridge \<Rightarrow> 'j modem_bridge" where
  "notifyConnectivity operational h =
     fold (\<lambda>(token, cb). emit (Conn_Called cb operational)) (br_conn_obs h) h"

definition cancel_timer :: "nat \<Rightarrow> 'j modem_bridge \<Rightarrow> 'j modem_bridge" where
  "cancel_timer tk h = (if tk \<noteq> 0 then h\<lparr>br_timers := cancel tk (br_timers h)\<rparr> else h)"

text \<open>
  \<open>failAllInFlight_\<close>: fail every RPC in flight, clear the table, then pop the deferred events
  and fail the requests among them.
\<close>

definition failAllInFlight :: "'j modem_bridge \<Rightarrow> 'j modem_bridge" where
  "failAllInFlight h0 =
     (let h = fold (\<lambda>(corrId, fl) h. emit (Rpc_Called (if_cb fl) None)
                 (cancel_timer (if_timer_token fl) h)) (br_in_flight h0) h0;
          h = h\<lparr>br_in_flight := []\<rparr>;
          h = fold (\<lambda>e h. case e of SendReq_Signal p \<Rightarrow> emit (Rpc_Called (sr_cb p) None) h | _ \<Rightarrow> h)
                (br_deferred h) h
      in h\<lparr>br_deferred := []\<rparr>)"

definition validate :: "'j bridge_ext \<Rightarrow> string \<Rightarrow> 'j \<Rightarrow> bool" where
  "validate X schema_id payload =
     (case x_schema X schema_id payload of None \<Rightarrow> True | Some ok \<Rightarrow> ok)"

definition data_invalid :: "'j bridge_ext \<Rightarrow> string \<Rightarrow> 'j envelope \<Rightarrow> bool" where
  "data_invalid X schema_id env =
     (case env_data env of None \<Rightarrow> False | Some d \<Rightarrow> \<not> validate X schema_id d)"

definition publish_body :: "'j bridge_ext \<Rightarrow> string \<Rightarrow> 'j envelope \<Rightarrow> 'j modem_bridge \<Rightarrow> int \<times> 'j modem_bridge" where
  "publish_body X topic env h =
     (x_publish_rc X (br_out h), emit (Mosq_Publish topic (x_dump X (toJson (x_json X) env))) h)"

text \<open>
  Removal of an entry of \<open>in_flight_\<close> with the invocation of its callback, after its timer was
  cancelled (\<open>RspTimeout\<close> does not cancel).
\<close>

definition complete :: "bool \<Rightarrow> string \<Rightarrow> 'j envelope option \<Rightarrow> 'j modem_bridge \<Rightarrow> 'j modem_bridge" where
  "complete cancel_it corrId rsp h =
     (case map_of (br_in_flight h) corrId of
        None \<Rightarrow> h
      | Some fl \<Rightarrow>
          let h = (if cancel_it then cancel_timer (if_timer_token fl) h else h) in
          emit (Rpc_Called (if_cb fl) rsp) (h\<lparr>br_in_flight := AList.delete corrId (br_in_flight h)\<rparr>))"

definition emplace :: "'k \<Rightarrow> 'v \<Rightarrow> ('k \<times> 'v) list \<Rightarrow> ('k \<times> 'v) list" where
  "emplace k v m = (if map_of m k = None then m @ [(k, v)] else m)"

definition doSendRequest :: "'j bridge_ext \<Rightarrow> 'j send_req \<Rightarrow> 'j modem_bridge \<Rightarrow> 'j modem_bridge" where
  "doSendRequest X p h =
     (let now = br_now h; env = sr_envelope p; corrId = env_corrId env;
          req_schema_id = resolveReqSchemaId (sr_topic p)
      in if sr_deadline p \<le> now then emit (Rpc_Called (sr_cb p) None) h
      else if req_schema_id \<noteq> [] \<and> data_invalid X req_schema_id env then
        emit (Rpc_Called (sr_cb p) None) h
      else
        case schedule (Rsp_Timer corrId) (now + (sr_deadline p - now)) 0 (br_timers h) of (tk, ts) \<Rightarrow>
        let fl = \<lparr>if_topic = sr_topic p, if_rsp_schema_id = sr_rsp_schema_id p,
                   if_cb = sr_cb p, if_timer_token = tk\<rparr>;
            h = h\<lparr>br_timers := ts, br_in_flight := emplace corrId fl (br_in_flight h)\<rparr>
        in case publish_body X (sr_topic p) env h of (rc, h) \<Rightarrow>
          if rc \<noteq> MOSQ_ERR_SUCCESS then complete True corrId None h else h)"

definition doPublishOneway :: "'j bridge_ext \<Rightarrow> string \<Rightarrow> string \<Rightarrow> 'j envelope \<Rightarrow> 'j modem_bridge \<Rightarrow> 'j modem_bridge" where
  "doPublishOneway X topic schema_id env h =
     (if schema_id \<noteq> [] \<and> data_invalid X schema_id env then h
      else snd (publish_body X topic env h))"

text \<open>The \<open>EvtRecv_Signal\<close> branch of \<open>Operational_St\<close>.\<close>

definition recvMessage :: "'j bridge_ext \<Rightarrow> string \<Rightarrow> string \<Rightarrow> 'j modem_bridge \<Rightarrow> 'j modem_bridge" where
  "recvMessage X topic body h =
     (case x_parse X body of None \<Rightarrow> h | Some j \<Rightarrow>
      case fromJson (x_json X) j of Inl _ \<Rightarrow> h | Inr env \<Rightarrow>
      case env_dest env of
        Some dst \<Rightarrow>
          if dst \<noteq> br_pa_id h then h
          else (case map_of (br_in_flight h) (env_corrId env) of
              None \<Rightarrow> h
            | Some fl \<Rightarrow>
                if data_invalid X (if_rsp_schema_id fl) env
                then complete True (env_corrId env) None h
                else complete True (env_corrId env) (Some env) h)
      | None \<Rightarrow>
          (case map_of (br_subs h) topic of
             None \<Rightarrow> h
           | Some (schema_id, cb) \<Rightarrow>
               if data_invalid X schema_id env then h else emit (Evt_Called cb topic env) h))"

text \<open>Entry action of \<open>Connecting_St\<close>.\<close>

definition enterConnecting :: "'j bridge_ext \<Rightarrow> 'j modem_bridge \<Rightarrow> 'j modem_bridge" where
  "enterConnecting X h =
     (let cfg = br_cfg h;
          sock = (if socket_path cfg = [] then x_uds_socket X else socket_path cfg);
          host = (if use_uds cfg then sock else cfg_host cfg);
          port = (if use_uds cfg then 0 else cfg_port cfg);
          rc = x_connect_rc X (br_out h);
          h = emit (Mosq_Connect host port (keepalive_s cfg)) h;
          h = (if rc \<noteq> MOSQ_ERR_SUCCESS then post_fifo (LinkDown_Signal (-1)) h
               else emit Mosq_Loop_Start h)
      in case arm_one_shot (br_now h) (connect_timeout cfg) (br_connect_timeout h) (br_timers h) of
        (te, ts) \<Rightarrow> h\<lparr>br_connect_timeout := te, br_timers := ts\<rparr>)"

definition exitConnecting :: "'j modem_bridge \<Rightarrow> 'j modem_bridge" where
  "exitConnecting h =
     (case disarm (br_connect_timeout h) (br_timers h) of
        (te, ts) \<Rightarrow> h\<lparr>br_connect_timeout := te, br_timers := ts\<rparr>)"

definition subscribeTopic :: "string \<Rightarrow> string \<Rightarrow> nat \<Rightarrow> 'j modem_bridge \<Rightarrow> 'j modem_bridge" where
  "subscribeTopic topic schema_id cb h = h\<lparr>br_subs := smap_upd topic (schema_id, cb) (br_subs h)\<rparr>"

definition unsubscribeTopic :: "string \<Rightarrow> 'j modem_bridge \<Rightarrow> 'j modem_bridge" where
  "unsubscribeTopic topic h = h\<lparr>br_subs := smap_del topic (br_subs h)\<rparr>"

definition addObserver :: "nat \<Rightarrow> nat \<Rightarrow> 'j modem_bridge \<Rightarrow> 'j modem_bridge" where
  "addObserver token cb h = h\<lparr>br_conn_obs := smap_upd token cb (br_conn_obs h)\<rparr>"

definition dropObserver :: "nat \<Rightarrow> 'j modem_bridge \<Rightarrow> 'j modem_bridge" where
  "dropObserver token h = h\<lparr>br_conn_obs := smap_del token (br_conn_obs h)\<rparr>"

definition defer_ev :: "'j bridge_event \<Rightarrow> 'j modem_bridge \<Rightarrow> 'j modem_bridge" where
  "defer_ev e h = h\<lparr>br_deferred := dq_push e (br_deferred h)\<rparr>"

definition enterOperational :: "'j modem_bridge \<Rightarrow> 'j modem_bridge" where
  "enterOperational h =
     (let h = notifyConnectivity True h in
      case recall_all (br_deferred h) h of (_, q, h) \<Rightarrow> h\<lparr>br_deferred := q\<rparr>)"

definition bump_failures :: "'j modem_bridge \<Rightarrow> 'j modem_bridge" where
  "bump_failures h = h\<lparr>br_failures := br_failures h + 1\<rparr>"

definition enterShuttingDown :: "'j modem_bridge \<Rightarrow> 'j modem_bridge" where
  "enterShuttingDown h =
     (let h = failAllInFlight (notifyConnectivity False h) in
      if br_client h then emit Mosq_Loop_Stop (emit Mosq_Disconnect h) else h)"

section \<open>State handlers\<close>

type_synonym 'j bridge_fn = "'j bridge_event event \<Rightarrow> 'j modem_bridge \<Rightarrow> status \<times> 'j modem_bridge"

fun NotOperational_St :: "'j bridge_fn" where
  "NotOperational_St Entry_Signal h = (HANDLED, h)"
| "NotOperational_St Exit_Signal h = (HANDLED, h)"
| "NotOperational_St (User (SubscribeConnectivity_Signal tk cb)) h = (HANDLED, addObserver tk cb h)"
| "NotOperational_St (User (UnsubscribeConnectivity_Signal tk)) h = (HANDLED, dropObserver tk h)"
| "NotOperational_St (User (SubscribeEvent_Signal t sid cb)) h = (HANDLED, subscribeTopic t sid cb h)"
| "NotOperational_St (User (UnsubscribeEvent_Signal t)) h = (HANDLED, unsubscribeTopic t h)"
| "NotOperational_St (User (Drain_Signal d)) h = (HANDLED, emit (Drain_Done d) h)"
| "NotOperational_St _ h = super_st Top_St h"

fun Disconnected_St :: "'j bridge_fn" where
  "Disconnected_St Entry_Signal h = (HANDLED, h)"
| "Disconnected_St (User Start_Signal) h = to_st (St Connecting) h"
| "Disconnected_St (User (SendReq_Signal p)) h = (HANDLED, emit (Rpc_Called (sr_cb p) None) h)"
| "Disconnected_St (User (PublishOneway_Signal t sid env)) h = (HANDLED, h)"
| "Disconnected_St (User Stop_Signal) h = to_st (St ShuttingDown) h"
| "Disconnected_St _ h = super_st (St NotOperational) h"

fun Connecting_St :: "'j bridge_ext \<Rightarrow> 'j bridge_fn" where
  "Connecting_St X Entry_Signal h = (HANDLED, enterConnecting X h)"
| "Connecting_St X Exit_Signal h = (HANDLED, exitConnecting h)"
| "Connecting_St X (User (LinkUp_Signal rc)) h =
     (if rc = 0 then to_st (St Connected) (h\<lparr>br_failures := 0\<rparr>)
      else to_st (St Backoff) (bump_failures h))"
| "Connecting_St X (User ConnectTimeout_Signal) h = to_st (St Backoff) (bump_failures h)"
| "Connecting_St X (User (LinkDown_Signal rc)) h = to_st (St Backoff) (bump_failures h)"
| "Connecting_St X (User Stop_Signal) h = to_st (St ShuttingDown) h"
| "Connecting_St X (User (SendReq_Signal p)) h = (HANDLED, defer_ev (SendReq_Signal p) h)"
| "Connecting_St X (User (PublishOneway_Signal t sid env)) h =
     (HANDLED, defer_ev (PublishOneway_Signal t sid env) h)"
| "Connecting_St X _ h = super_st (St NotOperational) h"

fun Connected_St :: "'j bridge_fn" where
  "Connected_St Entry_Signal h = (HANDLED, h)"
| "Connected_St Init_Signal h = to_st (St Subscribing) h"
| "Connected_St (User (LinkDown_Signal rc)) h = to_st (St Backoff) (bump_failures h)"
| "Connected_St (User Stop_Signal) h = to_st (St ShuttingDown) h"
| "Connected_St (User (UnsubscribeConnectivity_Signal tk)) h = (HANDLED, dropObserver tk h)"
| "Connected_St (User (Drain_Signal d)) h = (HANDLED, emit (Drain_Done d) h)"
| "Connected_St (User (SubscribeEvent_Signal t sid cb)) h =
     (HANDLED, emit (Mosq_Subscribe t) (subscribeTopic t sid cb h))"
| "Connected_St (User (UnsubscribeEvent_Signal t)) h =
     (HANDLED, emit (Mosq_Unsubscribe t) (unsubscribeTopic t h))"
| "Connected_St _ h = super_st Top_St h"

fun Subscribing_St :: "'j bridge_fn" where
  "Subscribing_St Entry_Signal h = (HANDLED, post_fifo AllSubAcked_Signal (issueAllSubscribes h))"
| "Subscribing_St (User AllSubAcked_Signal) h = to_st (St Operational) h"
| "Subscribing_St (User (SubscribeConnectivity_Signal tk cb)) h = (HANDLED, addObserver tk cb h)"
| "Subscribing_St (User (SendReq_Signal p)) h = (HANDLED, defer_ev (SendReq_Signal p) h)"
| "Subscribing_St (User (PublishOneway_Signal t sid env)) h =
     (HANDLED, defer_ev (PublishOneway_Signal t sid env) h)"
| "Subscribing_St _ h = super_st (St Connected) h"

fun Operational_St :: "'j bridge_ext \<Rightarrow> 'j bridge_fn" where
  "Operational_St X Entry_Signal h = (HANDLED, enterOperational h)"
| "Operational_St X Exit_Signal h = (HANDLED, failAllInFlight (notifyConnectivity False h))"
| "Operational_St X (User (SendReq_Signal p)) h = (HANDLED, doSendRequest X p h)"
| "Operational_St X (User (PublishOneway_Signal t sid env)) h = (HANDLED, doPublishOneway X t sid env h)"
| "Operational_St X (User (SubscribeConnectivity_Signal tk cb)) h =
     (HANDLED, addObserver tk cb (emit (Conn_Called cb True) h))"
| "Operational_St X (User (EvtRecv_Signal t body)) h = (HANDLED, recvMessage X t body h)"
| "Operational_St X (User (RspTimeout_Signal corrId)) h = (HANDLED, complete False corrId None h)"
| "Operational_St X _ h = super_st (St Connected) h"

fun Backoff_St :: "'j bridge_fn" where
  "Backoff_St Entry_Signal h = (HANDLED, failAllInFlight (notifyConnectivity False h))"
| "Backoff_St (User (LinkUp_Signal rc)) h =
     (if rc = 0 then to_st (St Connected) (h\<lparr>br_failures := 0\<rparr>) else (HANDLED, h))"
| "Backoff_St (User Stop_Signal) h = to_st (St ShuttingDown) h"
| "Backoff_St (User (SendReq_Signal p)) h = (HANDLED, defer_ev (SendReq_Signal p) h)"
| "Backoff_St (User (LinkDown_Signal rc)) h = (HANDLED, h)"
| "Backoff_St _ h = super_st (St NotOperational) h"

fun ShuttingDown_St :: "'j bridge_fn" where
  "ShuttingDown_St Entry_Signal h = (HANDLED, enterShuttingDown h)"
| "ShuttingDown_St (User (Drain_Signal d)) h = (HANDLED, emit (Drain_Done d) h)"
| "ShuttingDown_St _ h = (HANDLED, h)"

fun bridge_handlers :: "'j bridge_ext \<Rightarrow> bstate \<Rightarrow> 'j bridge_event event \<Rightarrow> 'j modem_bridge
    \<Rightarrow> (status \<times> 'j modem_bridge) result" where
  "bridge_handlers X NotOperational e h = Inr (NotOperational_St e h)"
| "bridge_handlers X Disconnected e h = Inr (Disconnected_St e h)"
| "bridge_handlers X Connecting e h = Inr (Connecting_St X e h)"
| "bridge_handlers X Connected e h = Inr (Connected_St e h)"
| "bridge_handlers X Subscribing e h = Inr (Subscribing_St e h)"
| "bridge_handlers X Operational e h = Inr (Operational_St X e h)"
| "bridge_handlers X Backoff e h = Inr (Backoff_St e h)"
| "bridge_handlers X ShuttingDown e h = Inr (ShuttingDown_St e h)"

section \<open>Construction and lifecycle\<close>

definition default_config :: "bool \<Rightarrow> broker_config" where
  "default_config uds = \<lparr>use_uds = uds, cfg_host = ''localhost'', cfg_port = 1883, keepalive_s = 60,
     connect_timeout = 5000, backoff_initial = 500, backoff_max = 30000, socket_path = []\<rparr>"

definition newBridge :: "broker_config \<Rightarrow> string \<Rightarrow> 'j modem_bridge" where
  "newBridge cfg paId =
     \<lparr>hstate = Top_St, htemp = Top_St, last_ignored = False, trace_fn = False, probe_fn = False,
      instr_log = [], ao_name = ''ModemBridge'', ao_inst = False, ao_q = [], ao_running = False,
      br_cfg = cfg, br_pa_id = paId, br_client = False, br_in_flight = [], br_subs = [],
      br_conn_obs = [], br_next_conn_token = 1, br_failures = 0,
      br_connect_timeout = \<lparr>te_fn = Connect_Timer, te_tok = None\<rparr>, br_deferred = [],
      br_timers = timer_init, br_now = 0, br_out = []\<rparr>"

text \<open>\<open>buildPaId\<close>, from the process name, the role and the random short id it reads.\<close>

definition buildPaId :: "string \<Rightarrow> string \<Rightarrow> string \<Rightarrow> string" where
  "buildPaId processName whoami shortId = processName @ ''-'' @ whoami @ ''-'' @ shortId"

definition setBrokerConfig :: "broker_config \<Rightarrow> 'j modem_bridge \<Rightarrow> 'j modem_bridge result" where
  "setBrokerConfig cfg h = (if ao_running h then Inl Assert_Failed else Inr (h\<lparr>br_cfg := cfg\<rparr>))"

text \<open>
  \<open>start\<close>; \<open>new_ok\<close> tells whether \<open>mosquitto_new\<close> returned a client. The delays are cast to
  \<open>unsigned int\<close>.
\<close>

definition reconnect_delays :: "broker_config \<Rightarrow> int \<times> int" where
  "reconnect_delays cfg =
     (let rd = max 1 (backoff_initial cfg div 1000) mod 2 ^ 32
      in (rd, max rd (backoff_max cfg div 1000) mod 2 ^ 32))"

definition bridge_start :: "nat \<Rightarrow> 'j bridge_ext \<Rightarrow> bool \<Rightarrow> 'j modem_bridge \<Rightarrow> 'j modem_bridge result" where
  "bridge_start n X new_ok h =
     (if ao_running h then Inr h
      else let h = h\<lparr>br_client := new_ok\<rparr> in
        if \<not> new_ok then Inr h
        else case reconnect_delays (br_cfg h) of (rd, rd_max) \<Rightarrow>
          bindE (start_at n (bridge_handlers X) (St Disconnected) (emit (Mosq_Reconnect_Delay rd rd_max) h))
            (\<lambda>h. Inr (post_fifo Start_Signal h)))"

text \<open>\<open>currentState\<close>: the handlers that are not leaves, and \<open>top\<close>, read as \<open>Disconnected\<close>.\<close>

definition currentState :: "'j modem_bridge \<Rightarrow> bstate" where
  "currentState h =
     (case hstate h of
        St s \<Rightarrow> if s = NotOperational \<or> s = Connected then Disconnected else s
      | _ \<Rightarrow> Disconnected)"

section \<open>Calls of the clients and of libmosquitto: each posts one event\<close>

definition send_request :: "string \<Rightarrow> string \<Rightarrow> 'j envelope \<Rightarrow> nat \<Rightarrow> int \<Rightarrow> 'j modem_bridge \<Rightarrow> 'j modem_bridge" where
  "send_request topic rsp_schema_id req cb timeout h =
     post_fifo (SendReq_Signal \<lparr>sr_topic = topic, sr_rsp_schema_id = rsp_schema_id,
       sr_envelope = req, sr_cb = cb, sr_deadline = br_now h + timeout\<rparr>) h"

definition subscribe_event :: "string \<Rightarrow> string \<Rightarrow> nat \<Rightarrow> 'j modem_bridge \<Rightarrow> 'j modem_bridge" where
  "subscribe_event topic schema_id cb = post_fifo (SubscribeEvent_Signal topic schema_id cb)"

definition publish_oneway :: "string \<Rightarrow> string \<Rightarrow> 'j envelope \<Rightarrow> 'j modem_bridge \<Rightarrow> 'j modem_bridge" where
  "publish_oneway topic schema_id msg = post_fifo (PublishOneway_Signal topic schema_id msg)"

definition unsubscribe_event :: "string \<Rightarrow> 'j modem_bridge \<Rightarrow> 'j modem_bridge" where
  "unsubscribe_event topic = post_fifo (UnsubscribeEvent_Signal topic)"

definition subscribe_connectivity :: "nat \<Rightarrow> 'j modem_bridge \<Rightarrow> nat \<times> 'j modem_bridge" where
  "subscribe_connectivity cb h =
     (let token = br_next_conn_token h;
          h = h\<lparr>br_next_conn_token := (token + 1) mod 2 ^ 64\<rparr>
      in (token, post_fifo (SubscribeConnectivity_Signal token cb) h))"

definition unsubscribe_connectivity :: "nat \<Rightarrow> 'j modem_bridge \<Rightarrow> 'j modem_bridge" where
  "unsubscribe_connectivity token h =
     (if token = 0 then h else post_fifo (UnsubscribeConnectivity_Signal token) h)"

definition onConnect :: "int \<Rightarrow> 'j modem_bridge \<Rightarrow> 'j modem_bridge" where
  "onConnect rc = post_fifo (LinkUp_Signal (if rc = 0 then 0 else -1))"

definition onDisconnect :: "int \<Rightarrow> 'j modem_bridge \<Rightarrow> 'j modem_bridge" where
  "onDisconnect rc = post_fifo (LinkDown_Signal (-1))"

definition onMessage :: "string \<Rightarrow> string \<Rightarrow> 'j modem_bridge \<Rightarrow> 'j modem_bridge" where
  "onMessage topic payload = post_fifo (EvtRecv_Signal topic payload)"

text \<open>What a timer's function posts.\<close>

fun timer_event :: "bridge_timer \<Rightarrow> 'j bridge_event" where
  "timer_event (Rsp_Timer corrId) = RspTimeout_Signal corrId"
| "timer_event Connect_Timer = ConnectTimeout_Signal"

text \<open>
  \<open>drain\<close> posts the fence (number \<open>d\<close>) and waits until the worker has passed it; \<open>stop\<close> posts
  \<open>Stop_Signal\<close>, drains, and stops the active object. The wait is a run of the worker; \<open>k\<close>
  bounds the number of events it takes.
\<close>

definition drain_post :: "nat \<Rightarrow> 'j modem_bridge \<Rightarrow> 'j modem_bridge" where
  "drain_post d h = (if \<not> ao_running h then h else post_fifo (Drain_Signal d) h)"

definition drain :: "nat \<Rightarrow> nat \<Rightarrow> 'j bridge_ext \<Rightarrow> bool \<Rightarrow> nat \<Rightarrow> 'j modem_bridge \<Rightarrow> 'j modem_bridge result" where
  "drain k n X on_worker d h =
     (if on_worker then Inl Assert_Failed
      else if \<not> ao_running h then Inr h
      else run k n (bridge_handlers X) (drain_post d h))"

definition bridge_stop :: "nat \<Rightarrow> nat \<Rightarrow> 'j bridge_ext \<Rightarrow> bool \<Rightarrow> nat \<Rightarrow> 'j modem_bridge \<Rightarrow> 'j modem_bridge result" where
  "bridge_stop k n X on_worker d h =
     (if \<not> ao_running h then Inr h
      else bindE (drain k n X on_worker d (post_fifo Stop_Signal h))
        (stop k n (bridge_handlers X) on_worker))"

end
