(* ===== verification/Bridge_Chart.thy ===== *)
theory Bridge_Chart
  imports Modem_Bridge
begin

text \<open>
  The modem bridge as an instance of the state chart contract: its tree of states, its entry
  and exit actions, closed forms of the helpers its handlers call, and the interpretation of
  \<open>ao_chart\<close>.
\<close>

section \<open>Closed forms of the helpers\<close>

named_theorems bridge_closed \<open>closed forms of the bridge's helper functions\<close>

lemma emit_sel [simp]:
  "hstate (emit x h) = hstate h" "htemp (emit x h) = htemp h" "ao_q (emit x h) = ao_q h"
  "ao_running (emit x h) = ao_running h" "br_in_flight (emit x h) = br_in_flight h"
  "br_deferred (emit x h) = br_deferred h" "br_timers (emit x h) = br_timers h"
  "br_subs (emit x h) = br_subs h" "br_conn_obs (emit x h) = br_conn_obs h"
  "br_connect_timeout (emit x h) = br_connect_timeout h" "br_pa_id (emit x h) = br_pa_id h"
  "br_cfg (emit x h) = br_cfg h" "br_client (emit x h) = br_client h"
  "br_now (emit x h) = br_now h" "br_out (emit x h) = br_out h @ [x]"
  by (simp_all add: emit_def)

lemma fold_emit:
  "fold (\<lambda>x. emit (f x)) xs h = h\<lparr>br_out := br_out h @ map f xs\<rparr>"
  by (induction xs arbitrary: h) (simp_all add: emit_def)

lemma notifyConnectivity_closed [bridge_closed]:
  "notifyConnectivity b h =
     h\<lparr>br_out := br_out h @ map (\<lambda>(token, cb). Conn_Called cb b) (br_conn_obs h)\<rparr>"
  by (simp add: notifyConnectivity_def case_prod_unfold fold_emit)

lemma issueAllSubscribes_closed [bridge_closed]:
  "issueAllSubscribes h =
     h\<lparr>br_out := br_out h @ [Mosq_Subscribe kRspWildcard, Mosq_Subscribe kApRspWildcard] @
        map (\<lambda>(topic, _). Mosq_Subscribe topic) (br_subs h)\<rparr>"
  by (simp add: issueAllSubscribes_def case_prod_unfold fold_emit) (simp add: emit_def)

definition cancel_token :: "nat \<Rightarrow> bridge_timer timer_service \<Rightarrow> bridge_timer timer_service" where
  "cancel_token tk s = (if tk \<noteq> 0 then cancel tk s else s)"

definition flight_tokens :: "(string \<times> in_flight) list \<Rightarrow> nat list" where
  "flight_tokens fs = map (\<lambda>(_, fl). if_timer_token fl) fs"

definition flight_cbs :: "(string \<times> in_flight) list \<Rightarrow> nat list" where
  "flight_cbs fs = map (\<lambda>(_, fl). if_cb fl) fs"

fun req_cbs :: "'j bridge_event list \<Rightarrow> nat list" where
  "req_cbs [] = []"
| "req_cbs (SendReq_Signal p # es) = sr_cb p # req_cbs es"
| "req_cbs (_ # es) = req_cbs es"

lemma req_cbs_append [simp]: "req_cbs (xs @ ys) = req_cbs xs @ req_cbs ys"
  by (induction xs rule: req_cbs.induct) simp_all

lemma cancel_timer_closed [bridge_closed]:
  "cancel_timer tk h = h\<lparr>br_timers := cancel_token tk (br_timers h)\<rparr>"
  by (simp add: cancel_timer_def cancel_token_def)

lemma fail_flights:
  "fold (\<lambda>(corrId, fl) h. emit (Rpc_Called (if_cb fl) None) (cancel_timer (if_timer_token fl) h)) fs h =
     h\<lparr>br_timers := fold cancel_token (flight_tokens fs) (br_timers h),
       br_out := br_out h @ map (\<lambda>cb. Rpc_Called cb None) (flight_cbs fs)\<rparr>"
  by (induction fs arbitrary: h) (auto simp: flight_tokens_def flight_cbs_def bridge_closed emit_def)

lemma fail_deferred:
  "fold (\<lambda>e h. case e of SendReq_Signal p \<Rightarrow> emit (Rpc_Called (sr_cb p) None) h | _ \<Rightarrow> h) es h =
     h\<lparr>br_out := br_out h @ map (\<lambda>cb. Rpc_Called cb None) (req_cbs es)\<rparr>"
  by (induction es arbitrary: h rule: req_cbs.induct) (simp_all add: emit_def)

lemma failAllInFlight_closed [bridge_closed]:
  "failAllInFlight h =
     h\<lparr>br_timers := fold cancel_token (flight_tokens (br_in_flight h)) (br_timers h),
       br_in_flight := [], br_deferred := [],
       br_out := br_out h @
         map (\<lambda>cb. Rpc_Called cb None) (flight_cbs (br_in_flight h) @ req_cbs (br_deferred h))\<rparr>"
  by (simp add: failAllInFlight_def Let_def fail_flights fail_deferred)

lemma post_fifo_closed [bridge_closed]:
  "post_fifo e h = h\<lparr>ao_q := (if ao_running h then ao_q h @ [e] else ao_q h)\<rparr>"
  by (simp add: post_fifo_def)

lemma fold_post_closed:
  "fold post_fifo es h = h\<lparr>ao_q := (if ao_running h then ao_q h @ es else ao_q h)\<rparr>"
  using fold_post_fifo [of h es] fold_post_fifo_stopped [of h es] by (cases "ao_running h") auto

lemma enterOperational_closed [bridge_closed]:
  "enterOperational h =
     h\<lparr>br_out := br_out h @ map (\<lambda>(token, cb). Conn_Called cb True) (br_conn_obs h),
       ao_q := (if ao_running h then ao_q h @ br_deferred h else ao_q h), br_deferred := []\<rparr>"
  by (simp add: enterOperational_def Let_def bridge_closed recall_all_fold fold_post_closed)

lemma enterShuttingDown_closed [bridge_closed]:
  "enterShuttingDown h =
     (let h' = failAllInFlight (notifyConnectivity False h)
      in h'\<lparr>br_out := br_out h' @ (if br_client h then [Mosq_Disconnect, Mosq_Loop_Stop] else [])\<rparr>)"
  by (simp add: enterShuttingDown_def Let_def bridge_closed emit_def)

lemma arm_one_shot_fst: "\<exists>tk s'. arm_one_shot clk d te s = (te\<lparr>te_tok := Some tk\<rparr>, s')"
  by (auto simp: arm_one_shot_def disarm_def schedule_def Let_def split: option.splits)

section \<open>The chart\<close>

fun bridge_par :: "bstate \<Rightarrow> bstate sref" where
  "bridge_par NotOperational = Top_St"
| "bridge_par Connected = Top_St"
| "bridge_par ShuttingDown = Top_St"
| "bridge_par Disconnected = St NotOperational"
| "bridge_par Connecting = St NotOperational"
| "bridge_par Backoff = St NotOperational"
| "bridge_par Subscribing = St Connected"
| "bridge_par Operational = St Connected"

fun bridge_ini :: "bstate \<Rightarrow> bstate option" where
  "bridge_ini Connected = Some Subscribing"
| "bridge_ini _ = None"

fun bridge_en :: "'j bridge_ext \<Rightarrow> bstate \<Rightarrow> 'j modem_bridge \<Rightarrow> 'j modem_bridge" where
  "bridge_en X Connecting h = enterConnecting X h"
| "bridge_en X Subscribing h = post_fifo AllSubAcked_Signal (issueAllSubscribes h)"
| "bridge_en X Operational h = enterOperational h"
| "bridge_en X Backoff h = failAllInFlight (notifyConnectivity False h)"
| "bridge_en X ShuttingDown h = enterShuttingDown h"
| "bridge_en X _ h = h"

fun bridge_ex :: "bstate \<Rightarrow> 'j modem_bridge \<Rightarrow> 'j modem_bridge" where
  "bridge_ex Connecting h = exitConnecting h"
| "bridge_ex Operational h = failAllInFlight (notifyConnectivity False h)"
| "bridge_ex _ h = h"

lemmas bridge_status = to_st_def super_st_def bump_failures_def

lemma enterConnecting_temp: "enterConnecting X (h\<lparr>htemp := x\<rparr>) = (enterConnecting X h)\<lparr>htemp := x\<rparr>"
  by (simp add: enterConnecting_def Let_def emit_def bridge_closed split: prod.splits)

lemma exitConnecting_temp: "exitConnecting (h\<lparr>htemp := x\<rparr>) = (exitConnecting h)\<lparr>htemp := x\<rparr>"
  by (simp add: exitConnecting_def split: prod.splits)

lemma enterConnecting_posts: "posts_only h (enterConnecting X h)"
  by (simp add: enterConnecting_def Let_def emit_def post_fifo_def posts_only_def split: prod.splits)

lemma exitConnecting_posts: "posts_only h (exitConnecting h)"
  by (simp add: exitConnecting_def posts_only_def split: prod.splits)

lemma complete_sel [simp]:
  "ao_running (complete b k r h) = ao_running h" "ao_q (complete b k r h) = ao_q h"
  by (simp_all add: complete_def Let_def emit_def bridge_closed split: option.splits)

lemma doSendRequest_sel [simp]:
  "ao_running (doSendRequest X p h) = ao_running h" "ao_q (doSendRequest X p h) = ao_q h"
  by (simp_all add: doSendRequest_def Let_def publish_body_def split: prod.splits)

lemma doPublishOneway_sel [simp]:
  "ao_running (doPublishOneway X t sid env h) = ao_running h" "ao_q (doPublishOneway X t sid env h) = ao_q h"
  by (simp_all add: doPublishOneway_def publish_body_def)

lemma recvMessage_sel [simp]:
  "ao_running (recvMessage X t b h) = ao_running h" "ao_q (recvMessage X t b h) = ao_q h"
  by (simp_all add: recvMessage_def split: option.splits sum.splits prod.splits)

lemmas bridge_fun_elims = NotOperational_St.elims Disconnected_St.elims Connecting_St.elims
  Connected_St.elims Subscribing_St.elims Operational_St.elims Backoff_St.elims ShuttingDown_St.elims

lemmas bridge_simples = bridge_status subscribeTopic_def unsubscribeTopic_def addObserver_def
  dropObserver_def defer_ev_def

interpretation br: ao_chart "bridge_handlers X" bridge_par bridge_ini "bridge_en X" bridge_ex
  "\<lambda>s. s = ShuttingDown"
  for X :: "'j bridge_ext"
proof unfold_locales
  fix s :: bstate and h h' :: "'j modem_bridge" and u r t p x
  show "s \<noteq> ShuttingDown \<Longrightarrow> bridge_handlers X s None_Signal h = Inr (TO_SUPER, h\<lparr>htemp := bridge_par s\<rparr>)"
    by (cases s) (simp_all add: bridge_status)
  show "s = ShuttingDown \<Longrightarrow> bridge_handlers X s None_Signal h = Inr (HANDLED, h)" by simp
  show "s = ShuttingDown \<Longrightarrow> bridge_par s = Top_St" by simp
  show "bridge_par s = St p \<Longrightarrow> p \<noteq> ShuttingDown" by (cases s) auto
  show "s = ShuttingDown \<Longrightarrow> bridge_handlers X s (User u) h = Inr (r, h') \<Longrightarrow> r = HANDLED \<or> r = IGNORED"
    by (cases u) auto
  show "reaches_top bridge_par kMaxNest (St s)" by (cases s) (simp_all add: kMaxNest_def numeral_eq_Suc)
  show "\<exists>r t. bridge_handlers X s Entry_Signal h = Inr (r, (bridge_en X s h)\<lparr>htemp := t\<rparr>)"
    by (cases s) simp_all
  show "s \<noteq> ShuttingDown \<Longrightarrow> \<exists>r t. bridge_handlers X s Exit_Signal h = Inr (r, (bridge_ex s h)\<lparr>htemp := t\<rparr>) \<and>
      (r = HANDLED \<or> t = bridge_par s)"
    by (cases s) (auto simp: bridge_status)
  show "bridge_en X s (h\<lparr>htemp := x\<rparr>) = (bridge_en X s h)\<lparr>htemp := x\<rparr>"
    by (cases s) (simp_all add: bridge_closed enterConnecting_temp Let_def)
  show "bridge_ex s (h\<lparr>htemp := x\<rparr>) = (bridge_ex s h)\<lparr>htemp := x\<rparr>"
    by (cases s) (simp_all add: bridge_closed exitConnecting_temp)
  show "bridge_ini s = Some t \<Longrightarrow> bridge_handlers X s Init_Signal h = Inr (NEED_TO_TRANSFER, h\<lparr>htemp := St t\<rparr>)"
    for t by (cases s) (simp_all add: bridge_status)
  show "bridge_ini s = None \<Longrightarrow>
      \<exists>r t. bridge_handlers X s Init_Signal h = Inr (r, h\<lparr>htemp := t\<rparr>) \<and> r \<noteq> NEED_TO_TRANSFER"
    by (cases s) (auto simp: bridge_status)
  show "bridge_ini s = Some t \<Longrightarrow> s \<in> set (lin bridge_par (St t)) \<and> t \<noteq> s" for t
    by (cases s) (auto simp: lin_def kMaxNest_def numeral_eq_Suc)
  show "bridge_handlers X s (User u) h = Inr (TO_SUPER, h') \<Longrightarrow> htemp h' = bridge_par s"
    by (cases s; cases u) (auto simp: bridge_status split: if_splits)
  show "bridge_handlers X s (User u) h = Inr (NEED_TO_TRANSFER, h') \<Longrightarrow> \<exists>t. htemp h' = St t"
    by (cases s; cases u) (auto simp: bridge_status split: if_splits)
  show "bridge_handlers X s (User u) h = Inr (r, h') \<Longrightarrow> posts_only h h'"
    by (cases s; cases u) (auto simp: bridge_simples posts_only_def split: if_splits)
  show "posts_only h (bridge_en X s h)"
    by (cases s) (simp_all add: bridge_closed enterConnecting_posts posts_only_def [of h] Let_def)
  show "posts_only h (bridge_ex s h)"
    by (cases s) (simp_all add: bridge_closed exitConnecting_posts posts_only_def [of h])
qed

end
