(* ===== verification/Bridge_React.thy ===== *)
theory Bridge_React
  imports Bridge_Chart
begin

text \<open>
  A flat specification of the modem bridge, one transition table per leaf state, and the
  refinement: dispatching an event through the hierarchical chart does what the table says.
\<close>

section \<open>The bridge as a flat transition table\<close>

text \<open>
  \<open>react\<close> says, for each leaf state and event, which leaf is active afterwards and what happens
  to the data. It is the specification against which the hierarchical chart is checked.
\<close>

definition goto :: "'j bridge_ext \<Rightarrow> bstate \<Rightarrow> bstate \<Rightarrow> 'j modem_bridge \<Rightarrow> bstate \<times> 'j modem_bridge" where
  "goto X c l h = (l, bridge_en X l (bridge_ex c h))"

text \<open>Events that a composite state handles for its leaves.\<close>

fun react_common :: "bool \<Rightarrow> 'j bridge_event \<Rightarrow> 'j modem_bridge \<Rightarrow> 'j modem_bridge" where
  "react_common linked (UnsubscribeConnectivity_Signal tk) h = dropObserver tk h"
| "react_common linked (Drain_Signal d) h = emit (Drain_Done d) h"
| "react_common linked (SubscribeEvent_Signal t sid cb) h =
     (let h = subscribeTopic t sid cb h in if linked then emit (Mosq_Subscribe t) h else h)"
| "react_common linked (UnsubscribeEvent_Signal t) h =
     (let h = unsubscribeTopic t h in if linked then emit (Mosq_Unsubscribe t) h else h)"
| "react_common linked _ h = h"

fun react_Disconnected :: "'j bridge_ext \<Rightarrow> 'j bridge_event \<Rightarrow> 'j modem_bridge \<Rightarrow> bstate \<times> 'j modem_bridge" where
  "react_Disconnected X Start_Signal h = goto X Disconnected Connecting h"
| "react_Disconnected X Stop_Signal h = goto X Disconnected ShuttingDown h"
| "react_Disconnected X (SendReq_Signal p) h = (Disconnected, emit (Rpc_Called (sr_cb p) None) h)"
| "react_Disconnected X (SubscribeConnectivity_Signal tk cb) h = (Disconnected, addObserver tk cb h)"
| "react_Disconnected X u h = (Disconnected, react_common False u h)"

fun react_Connecting :: "'j bridge_ext \<Rightarrow> 'j bridge_event \<Rightarrow> 'j modem_bridge \<Rightarrow> bstate \<times> 'j modem_bridge" where
  "react_Connecting X (LinkUp_Signal rc) h =
     (if rc = 0 then goto X Connecting Subscribing (h\<lparr>br_failures := 0\<rparr>)
      else goto X Connecting Backoff (bump_failures h))"
| "react_Connecting X ConnectTimeout_Signal h = goto X Connecting Backoff (bump_failures h)"
| "react_Connecting X (LinkDown_Signal rc) h = goto X Connecting Backoff (bump_failures h)"
| "react_Connecting X Stop_Signal h = goto X Connecting ShuttingDown h"
| "react_Connecting X (SendReq_Signal p) h = (Connecting, defer_ev (SendReq_Signal p) h)"
| "react_Connecting X (PublishOneway_Signal t sid env) h = (Connecting, defer_ev (PublishOneway_Signal t sid env) h)"
| "react_Connecting X (SubscribeConnectivity_Signal tk cb) h = (Connecting, addObserver tk cb h)"
| "react_Connecting X u h = (Connecting, react_common False u h)"

fun react_Backoff :: "'j bridge_ext \<Rightarrow> 'j bridge_event \<Rightarrow> 'j modem_bridge \<Rightarrow> bstate \<times> 'j modem_bridge" where
  "react_Backoff X (LinkUp_Signal rc) h =
     (if rc = 0 then goto X Backoff Subscribing (h\<lparr>br_failures := 0\<rparr>) else (Backoff, h))"
| "react_Backoff X Stop_Signal h = goto X Backoff ShuttingDown h"
| "react_Backoff X (SendReq_Signal p) h = (Backoff, defer_ev (SendReq_Signal p) h)"
| "react_Backoff X (SubscribeConnectivity_Signal tk cb) h = (Backoff, addObserver tk cb h)"
| "react_Backoff X u h = (Backoff, react_common False u h)"

fun react_Subscribing :: "'j bridge_ext \<Rightarrow> 'j bridge_event \<Rightarrow> 'j modem_bridge \<Rightarrow> bstate \<times> 'j modem_bridge" where
  "react_Subscribing X AllSubAcked_Signal h = goto X Subscribing Operational h"
| "react_Subscribing X (LinkDown_Signal rc) h = goto X Subscribing Backoff (bump_failures h)"
| "react_Subscribing X Stop_Signal h = goto X Subscribing ShuttingDown h"
| "react_Subscribing X (SendReq_Signal p) h = (Subscribing, defer_ev (SendReq_Signal p) h)"
| "react_Subscribing X (PublishOneway_Signal t sid env) h = (Subscribing, defer_ev (PublishOneway_Signal t sid env) h)"
| "react_Subscribing X (SubscribeConnectivity_Signal tk cb) h = (Subscribing, addObserver tk cb h)"
| "react_Subscribing X u h = (Subscribing, react_common True u h)"

fun react_Operational :: "'j bridge_ext \<Rightarrow> 'j bridge_event \<Rightarrow> 'j modem_bridge \<Rightarrow> bstate \<times> 'j modem_bridge" where
  "react_Operational X (LinkDown_Signal rc) h = goto X Operational Backoff (bump_failures h)"
| "react_Operational X Stop_Signal h = goto X Operational ShuttingDown h"
| "react_Operational X (SendReq_Signal p) h = (Operational, doSendRequest X p h)"
| "react_Operational X (PublishOneway_Signal t sid env) h = (Operational, doPublishOneway X t sid env h)"
| "react_Operational X (SubscribeConnectivity_Signal tk cb) h =
     (Operational, addObserver tk cb (emit (Conn_Called cb True) h))"
| "react_Operational X (EvtRecv_Signal t body) h = (Operational, recvMessage X t body h)"
| "react_Operational X (RspTimeout_Signal corrId) h = (Operational, complete False corrId None h)"
| "react_Operational X u h = (Operational, react_common True u h)"

fun react_ShuttingDown :: "'j bridge_event \<Rightarrow> 'j modem_bridge \<Rightarrow> bstate \<times> 'j modem_bridge" where
  "react_ShuttingDown (Drain_Signal d) h = (ShuttingDown, emit (Drain_Done d) h)"
| "react_ShuttingDown u h = (ShuttingDown, h)"

fun react :: "'j bridge_ext \<Rightarrow> bstate \<Rightarrow> 'j bridge_event \<Rightarrow> 'j modem_bridge \<Rightarrow> bstate \<times> 'j modem_bridge" where
  "react X Disconnected u h = react_Disconnected X u h"
| "react X Connecting u h = react_Connecting X u h"
| "react X Backoff u h = react_Backoff X u h"
| "react X Subscribing u h = react_Subscribing X u h"
| "react X Operational u h = react_Operational X u h"
| "react X ShuttingDown u h = react_ShuttingDown u h"
| "react X NotOperational u h = (NotOperational, h)"
| "react X Connected u h = (Connected, h)"

definition leaf :: "bstate \<Rightarrow> bool" where
  "leaf s \<longleftrightarrow> s \<noteq> NotOperational \<and> s \<noteq> Connected"

text \<open>The fields that belong to \<open>Hsm\<close>, which the data operations neither read nor write.\<close>

definition reframe :: "bstate sref \<Rightarrow> bstate sref \<Rightarrow> bool \<Rightarrow> (bstate, 'j bridge_event) instr list
    \<Rightarrow> 'j modem_bridge \<Rightarrow> 'j modem_bridge" where
  "reframe a b i l h = h\<lparr>hstate := a, htemp := b, last_ignored := i, instr_log := l\<rparr>"

lemma reframe_sel [simp]:
  "ao_q (reframe a b i l h) = ao_q h" "ao_running (reframe a b i l h) = ao_running h"
  "br_in_flight (reframe a b i l h) = br_in_flight h" "br_deferred (reframe a b i l h) = br_deferred h"
  "br_timers (reframe a b i l h) = br_timers h" "br_subs (reframe a b i l h) = br_subs h"
  "br_conn_obs (reframe a b i l h) = br_conn_obs h" "br_out (reframe a b i l h) = br_out h"
  "br_connect_timeout (reframe a b i l h) = br_connect_timeout h" "br_cfg (reframe a b i l h) = br_cfg h"
  "br_client (reframe a b i l h) = br_client h" "br_now (reframe a b i l h) = br_now h"
  "br_pa_id (reframe a b i l h) = br_pa_id h" "br_failures (reframe a b i l h) = br_failures h"
  "br_next_conn_token (reframe a b i l h) = br_next_conn_token h"
  "hstate (reframe a b i l h) = a" "htemp (reframe a b i l h) = b"
  "last_ignored (reframe a b i l h) = i" "instr_log (reframe a b i l h) = l"
  by (simp_all add: reframe_def)

lemma reframe_upd [simp]:
  "(reframe a b i l h)\<lparr>hstate := x\<rparr> = reframe x b i l h"
  "(reframe a b i l h)\<lparr>htemp := x\<rparr> = reframe a x i l h"
  "(reframe a b i l h)\<lparr>last_ignored := ig\<rparr> = reframe a b ig l h"
  "(reframe a b i l h)\<lparr>instr_log := lg\<rparr> = reframe a b i lg h"
  "(reframe a b i l h)\<lparr>br_failures := n\<rparr> = reframe a b i l (h\<lparr>br_failures := n\<rparr>)"
  "(reframe a b i l h)\<lparr>ao_q := q\<rparr> = reframe a b i l (h\<lparr>ao_q := q\<rparr>)"
  by (simp_all add: reframe_def)

lemma reframe_comm [simp]:
  "emit x (reframe a b i l h) = reframe a b i l (emit x h)"
  "cancel_timer tk (reframe a b i l h) = reframe a b i l (cancel_timer tk h)"
  "notifyConnectivity bb (reframe a b i l h) = reframe a b i l (notifyConnectivity bb h)"
  "failAllInFlight (reframe a b i l h) = reframe a b i l (failAllInFlight h)"
  "issueAllSubscribes (reframe a b i l h) = reframe a b i l (issueAllSubscribes h)"
  "post_fifo e (reframe a b i l h) = reframe a b i l (post_fifo e h)"
  "enterOperational (reframe a b i l h) = reframe a b i l (enterOperational h)"
  "enterShuttingDown (reframe a b i l h) = reframe a b i l (enterShuttingDown h)"
  "exitConnecting (reframe a b i l h) = reframe a b i l (exitConnecting h)"
  "enterConnecting X (reframe a b i l h) = reframe a b i l (enterConnecting X h)"
  "addObserver tk cb (reframe a b i l h) = reframe a b i l (addObserver tk cb h)"
  "dropObserver tk (reframe a b i l h) = reframe a b i l (dropObserver tk h)"
  "subscribeTopic t sid cb (reframe a b i l h) = reframe a b i l (subscribeTopic t sid cb h)"
  "unsubscribeTopic t (reframe a b i l h) = reframe a b i l (unsubscribeTopic t h)"
  "defer_ev e (reframe a b i l h) = reframe a b i l (defer_ev e h)"
  "bump_failures (reframe a b i l h) = reframe a b i l (bump_failures h)"
  by (simp_all add: reframe_def bridge_closed bridge_simples emit_def exitConnecting_def
      enterConnecting_def Let_def split: prod.splits)

lemma reframe_complete [simp]:
  "complete c k r (reframe a b i l h) = reframe a b i l (complete c k r h)"
  by (simp add: complete_def Let_def split: option.splits) (simp add: reframe_def bridge_closed emit_def)

lemma reframe_publish [simp]:
  "publish_body X t env (reframe a b i l h) = map_prod id (reframe a b i l) (publish_body X t env h)"
  by (simp add: publish_body_def)

lemma reframe_send [simp]:
  "doSendRequest X p (reframe a b i l h) = reframe a b i l (doSendRequest X p h)"
  by (simp add: doSendRequest_def Let_def publish_body_def split: prod.splits)
   (simp add: reframe_def emit_def complete_def bridge_closed split: option.splits)

lemma reframe_oneway [simp]:
  "doPublishOneway X t sid env (reframe a b i l h) = reframe a b i l (doPublishOneway X t sid env h)"
  by (simp add: doPublishOneway_def publish_body_def)

lemma reframe_recv [simp]:
  "recvMessage X t body (reframe a b i l h) = reframe a b i l (recvMessage X t body h)"
  by (simp add: recvMessage_def split: option.splits sum.splits prod.splits)

lemma reframe_en [simp]: "bridge_en X s (reframe a b i l h) = reframe a b i l (bridge_en X s h)"
  by (cases s) simp_all

lemma reframe_ex [simp]: "bridge_ex s (reframe a b i l h) = reframe a b i l (bridge_ex s h)"
  by (cases s) simp_all

definition framed :: "'j modem_bridge \<Rightarrow> 'j modem_bridge \<Rightarrow> bool" where
  "framed h h' \<longleftrightarrow> (\<exists>a b i l. h' = reframe a b i l h)"

lemma reframe_reframe [simp]: "reframe a b i l (reframe a' b' i' l' h) = reframe a b i l h"
  by (simp add: reframe_def)

lemma reframe_eq [simp]: "reframe (hstate h) (htemp h) (last_ignored h) (instr_log h) h = h"
  by (simp add: reframe_def)

lemma framed_iff: "framed h h' \<longleftrightarrow> reframe Top_St Top_St False [] h' = reframe Top_St Top_St False [] h"
  unfolding framed_def by (metis reframe_eq reframe_reframe)

lemma framed_upd:
  "framed h (h'\<lparr>hstate := x\<rparr>) = framed h h'" "framed h (h'\<lparr>htemp := x\<rparr>) = framed h h'"
  "framed h (h'\<lparr>last_ignored := ii\<rparr>) = framed h h'" "framed h (h'\<lparr>instr_log := ll\<rparr>) = framed h h'"
  by (simp_all add: framed_iff reframe_def)

section \<open>Lineages and initial transitions of the bridge\<close>

lemma lin_bridge [simp]:
  "lin bridge_par (St Disconnected) = [Disconnected, NotOperational]"
  "lin bridge_par (St Connecting) = [Connecting, NotOperational]"
  "lin bridge_par (St Backoff) = [Backoff, NotOperational]"
  "lin bridge_par (St Subscribing) = [Subscribing, Connected]"
  "lin bridge_par (St Operational) = [Operational, Connected]"
  "lin bridge_par (St ShuttingDown) = [ShuttingDown]"
  "lin bridge_par (St NotOperational) = [NotOperational]"
  "lin bridge_par (St Connected) = [Connected]"
  by (simp_all add: lin_def kMaxNest_def numeral_eq_Suc)

lemma settle_bridge [simp]:
  "settle bridge_par bridge_ini kMaxNest s = (if s = Connected then (Subscribing, [Subscribing]) else (s, []))"
  by (cases s) (simp_all add: kMaxNest_def numeral_eq_Suc)


section \<open>Refinement\<close>

lemma bridge_total: "\<exists>r h'. bridge_handlers X s (User u) h = Inr (r, h')"
  by (cases s) (auto simp: prod_eq_iff intro: exI [of _ "fst p" for p] exI [of _ "snd p" for p] surj_pair)

lemma react_pass:
  "leaf c \<Longrightarrow> s \<in> set (lin bridge_par (St c)) \<Longrightarrow> framed h0 h \<Longrightarrow>
   bridge_handlers X s (User u) h = Inr (r, h') \<Longrightarrow> r = TO_SUPER \<or> r = UNHANDLED \<Longrightarrow> framed h0 h'"
  by (cases s; cases u) (auto simp: to_st_def super_st_def framed_upd leaf_def split: if_splits)

lemma react_top:
  "leaf c \<Longrightarrow> \<forall>s \<in> set (lin bridge_par (St c)). \<exists>h1 r1 h2.
     bridge_handlers X s (User u) h1 = Inr (r1, h2) \<and> (r1 = TO_SUPER \<or> r1 = UNHANDLED) \<Longrightarrow>
   react X c u h = (c, h)"
  by (cases c; cases u) (auto simp: to_st_def super_st_def leaf_def split: if_splits)

lemma framed_reframe [simp]: "framed h (reframe a b i l h)"
  by (auto simp: framed_def)

lemma react_taken:
  "leaf c \<Longrightarrow> s \<in> set (lin bridge_par (St c)) \<Longrightarrow>
   bridge_handlers X s (User u) (reframe a b i l h) = Inr (r, h') \<Longrightarrow> r = HANDLED \<or> r = IGNORED \<Longrightarrow>
   c = fst (react X c u h) \<and> framed (snd (react X c u h)) h'"
  by (cases c; cases u) (auto simp: to_st_def super_st_def leaf_def Let_def split: if_splits)

definition bridge_moves :: "(bstate \<times> bstate) list" where
  "bridge_moves =
     [(Disconnected, Connecting), (Disconnected, ShuttingDown), (Connecting, Connected),
      (Connecting, Backoff), (Connecting, ShuttingDown), (Backoff, Connected),
      (Backoff, ShuttingDown), (Subscribing, Operational), (Connected, Backoff),
      (Connected, ShuttingDown)]"

lemma move_goto:
  "leaf c \<Longrightarrow> s \<in> set (lin bridge_par (St c)) \<Longrightarrow> (s, t) \<in> set bridge_moves \<Longrightarrow>
   fold (bridge_en X) (entries bridge_par s t @ snd (settle bridge_par bridge_ini kMaxNest t))
     (fold bridge_ex (exits bridge_par c s t) h) =
   snd (goto X c (fst (settle bridge_par bridge_ini kMaxNest t)) h)"
  by (cases c) (auto simp: leaf_def bridge_moves_def goto_def entries_def exits_def)

fun count_failures :: "'j bridge_event \<Rightarrow> 'j modem_bridge \<Rightarrow> 'j modem_bridge" where
  "count_failures (LinkUp_Signal rc) h = (if rc = 0 then h\<lparr>br_failures := 0\<rparr> else bump_failures h)"
| "count_failures ConnectTimeout_Signal h = bump_failures h"
| "count_failures (LinkDown_Signal rc) h = bump_failures h"
| "count_failures _ h = h"

lemma transfer_data:
  "bridge_handlers X s (User u) (reframe a b i l h) = Inr (NEED_TO_TRANSFER, h') \<Longrightarrow>
   \<exists>t. h' = reframe a (St t) i l (count_failures u h) \<and> (s, t) \<in> set bridge_moves"
  by (cases s; cases u) (auto simp: to_st_def super_st_def bridge_moves_def split: if_splits)

lemma transfer_react:
  "leaf c \<Longrightarrow> s \<in> set (lin bridge_par (St c)) \<Longrightarrow>
   bridge_handlers X s (User u) h0 = Inr (NEED_TO_TRANSFER, h') \<Longrightarrow> htemp h' = St t \<Longrightarrow>
   react X c u h = goto X c (fst (settle bridge_par bridge_ini kMaxNest t)) (count_failures u h)"
  by (cases c; cases u) (auto simp: to_st_def super_st_def leaf_def split: if_splits)

lemma react_move:
  assumes "leaf c" "s \<in> set (lin bridge_par (St c))"
    "bridge_handlers X s (User u) (reframe a b i l h) = Inr (NEED_TO_TRANSFER, h')" "htemp h' = St t"
  shows "fst (settle bridge_par bridge_ini kMaxNest t) = fst (react X c u h) \<and>
   framed (snd (react X c u h))
     (fold (bridge_en X) (entries bridge_par s t @ snd (settle bridge_par bridge_ini kMaxNest t))
       (fold bridge_ex (exits bridge_par c s t) h'))"
proof -
  from transfer_data [OF assms(3)] assms(4)
  have h': "h' = reframe a (St t) i l (count_failures u h)" and t: "(s, t) \<in> set bridge_moves" by auto
  show ?thesis
    unfolding move_goto [OF assms(1,2) t] transfer_react [OF assms] h' by (simp add: goto_def)
qed

lemma dispatch_react:
  assumes fuel: "kMaxNest < n" and cur: "hstate h = St c" and leaf: "leaf c"
  shows "\<exists>h'. dispatch n (bridge_handlers X) (User u) h = Inr h' \<and>
    hstate h' = St (fst (react X c u h)) \<and> framed (snd (react X c u h)) h'"
proof -
  obtain h' where dis: "dispatch n (bridge_handlers X) (User u) h = Inr h'"
    using br.dispatch_total [OF fuel cur bridge_total] by blast
  have "\<exists>l. hstate h' = St l \<and> l = fst (react X c u h) \<and> framed (snd (react X c u h)) h'"
  proof (rule br.dispatch_rule [where P = "framed h", OF fuel cur _ dis])
    show "framed h h" by (metis framed_reframe reframe_eq)
    show "c = fst (react X c u h) \<and> framed (snd (react X c u h)) h1"
      if "framed h h1" "\<forall>s \<in> set (lin bridge_par (St c)). \<exists>h1 r1 h2.
        bridge_handlers X s (User u) h1 = Inr (r1, h2) \<and> (r1 = TO_SUPER \<or> r1 = UNHANDLED)" for h1
      using react_top [OF leaf that(2), of h] that(1) by simp
    fix s h1 r h2 t
    assume s: "s \<in> set (lin bridge_par (St c))" and h1: "framed h h1"
    show "bridge_handlers X s (User u) h1 = Inr (r, h2) \<Longrightarrow> r = TO_SUPER \<or> r = UNHANDLED \<Longrightarrow> framed h h2"
      by (rule react_pass [OF leaf s h1])
    from h1 obtain a b i l where h1: "h1 = reframe a b i l h" by (auto simp: framed_def)
    show "bridge_handlers X s (User u) h1 = Inr (r, h2) \<Longrightarrow> r = HANDLED \<or> r = IGNORED \<Longrightarrow>
        c = fst (react X c u h) \<and> framed (snd (react X c u h)) h2"
      unfolding h1 by (rule react_taken [OF leaf s])
    show "bridge_handlers X s (User u) h1 = Inr (NEED_TO_TRANSFER, h2) \<Longrightarrow> htemp h2 = St t \<Longrightarrow>
       fst (settle bridge_par bridge_ini kMaxNest t) = fst (react X c u h) \<and>
       framed (snd (react X c u h))
         (fold (bridge_en X) (entries bridge_par s t @ snd (settle bridge_par bridge_ini kMaxNest t))
           (fold bridge_ex (exits bridge_par c s t) h2))"
      unfolding h1 by (rule react_move [OF leaf s])
  qed (simp_all add: framed_upd)
  with dis show ?thesis by auto
qed

lemma react_leaf: "leaf c \<Longrightarrow> leaf (fst (react X c u h))"
  by (cases c; cases u) (auto simp: leaf_def goto_def)

end
