(* ===== verification/Bridge_Inv.thy ===== *)
theory Bridge_Inv
  imports Bridge_React "HOL-Library.Multiset"
begin

text \<open>
  What one reaction of the modem bridge does to its data: no callback is lost or duplicated
  (\<open>account\<close>), the invariant of the tables (\<open>bridge_inv\<close>), the timer tokens (\<open>timers_ok\<close>), the
  supervision of every request in flight (\<open>watched\<close>), the correlation ids (\<open>outstanding\<close>).
\<close>

section \<open>Accounting of request callbacks\<close>

text \<open>
  The callbacks that were invoked, and those still held in the table of requests in flight,
  the deferred events and the event queue.
\<close>

fun called_cbs :: "'j effect list \<Rightarrow> nat list" where
  "called_cbs [] = []"
| "called_cbs (Rpc_Called cb r # xs) = cb # called_cbs xs"
| "called_cbs (_ # xs) = called_cbs xs"

lemma called_cbs_append [simp]: "called_cbs (xs @ ys) = called_cbs xs @ called_cbs ys"
  by (induction xs rule: called_cbs.induct) simp_all

lemma called_cbs_map [simp]:
  "called_cbs (map (\<lambda>cb. Rpc_Called cb r) xs) = xs"
  "called_cbs (map (\<lambda>(token, cb). Conn_Called cb b) ys) = []"
  "called_cbs (map (\<lambda>(topic, z). Mosq_Subscribe topic) zs) = []"
  by (induction xs; induction ys; induction zs; auto)+

definition account :: "'j modem_bridge \<Rightarrow> nat multiset" where
  "account h = mset (called_cbs (br_out h)) + mset (flight_cbs (br_in_flight h)) +
     mset (req_cbs (br_deferred h)) + mset (req_cbs (ao_q h))"

text \<open>The table of requests in flight has one entry per correlation id.\<close>

definition flight_ok :: "'j modem_bridge \<Rightarrow> bool" where
  "flight_ok h \<longleftrightarrow> distinct (map fst (br_in_flight h))"

lemma flight_cbs_delete:
  "distinct (map fst fs) \<Longrightarrow> map_of fs k = Some fl \<Longrightarrow>
   add_mset (if_cb fl) (mset (flight_cbs (AList.delete k fs))) = mset (flight_cbs fs)"
proof (induction fs)
  case (Cons f fs)
  obtain k' fl' where f: "f = (k', fl')" by (cases f)
  show ?case
  proof (cases "k' = k")
    case True
    with Cons.prems have "k \<notin> fst ` set fs" by (auto simp: f)
    then have "AList.delete k fs = fs" by (rule AList.delete_id)
    then show ?thesis using Cons.prems True by (simp add: f flight_cbs_def)
  next
    case False
    with Cons show ?thesis by (simp add: f flight_cbs_def)
  qed
qed simp

lemma account_emit [simp]: "account (emit (Rpc_Called cb r) h) = add_mset cb (account h)"
  by (simp add: account_def)

lemma account_complete: "flight_ok h \<Longrightarrow> account (complete b k r h) = account h"
  using flight_cbs_delete [of "br_in_flight h" k]
  by (auto simp: complete_def Let_def account_def emit_def bridge_closed flight_ok_def split: option.splits)

lemma emplace_cbs:
  "mset (flight_cbs (emplace k v fs)) = 
    (if map_of fs k = None then add_mset (if_cb v) (mset (flight_cbs fs)) else mset (flight_cbs fs))"
  by (simp add: emplace_def flight_cbs_def)

lemma flight_ok_emplace: "distinct (map fst fs) \<Longrightarrow> distinct (map fst (emplace k v fs))"
  by (auto simp: emplace_def map_of_eq_None_iff)


lemma account_send:
  assumes "flight_ok h"
  shows "account (doSendRequest X p h) =
    (if br_now h < sr_deadline p \<and> 
        \<not> (resolveReqSchemaId (sr_topic p) \<noteq> [] \<and> data_invalid X (resolveReqSchemaId (sr_topic p)) (sr_envelope p)) \<and>
        map_of (br_in_flight h) (env_corrId (sr_envelope p)) \<noteq> None
     then account h else add_mset (sr_cb p) (account h))"
proof -
  let ?k = "env_corrId (sr_envelope p)"
  have reg: "account (complete b ?k r (emit (Mosq_Publish t body) (h\<lparr>br_timers := ts, br_in_flight := emplace ?k fl (br_in_flight h)\<rparr>))) =
     account (h\<lparr>br_in_flight := emplace ?k fl (br_in_flight h)\<rparr>)" for b r t body ts fl
    using assms by (subst account_complete) (simp_all add: flight_ok_def flight_ok_emplace account_def)
  have ins: "account (emit (Mosq_Publish t body) (h\<lparr>br_timers := ts, br_in_flight := emplace ?k fl (br_in_flight h)\<rparr>)) =
     account (h\<lparr>br_in_flight := emplace ?k fl (br_in_flight h)\<rparr>)" for t body ts fl
    by (simp add: account_def)
  have acc: "account (h\<lparr>br_in_flight := emplace ?k fl (br_in_flight h)\<rparr>) =
     (if map_of (br_in_flight h) ?k = None then add_mset (if_cb fl) (account h) else account h)" for fl
    by (simp add: account_def emplace_cbs)
  show ?thesis
    by (auto simp: doSendRequest_def Let_def publish_body_def reg ins acc split: prod.splits)
qed

lemma account_oneway [simp]: "account (doPublishOneway X t sid env h) = account h"
  by (simp add: doPublishOneway_def publish_body_def account_def)

lemma account_recv: "flight_ok h \<Longrightarrow> account (recvMessage X t body h) = account h"
  by (auto simp: recvMessage_def account_complete split: option.splits sum.splits prod.splits)
    (simp_all add: account_def)

lemma account_common: "req_cbs [u] = [] \<Longrightarrow> account (react_common b u h) = account h"
  by (cases u) (auto simp: account_def bridge_simples Let_def)

lemma called_cbs_sel: "called_cbs (br_out (exitConnecting h)) = called_cbs (br_out h)"
  by (simp add: exitConnecting_def split: prod.splits)

lemma account_exitConnecting [simp]: "account (exitConnecting h) = account h"
  by (simp add: exitConnecting_def account_def split: prod.splits)

lemma account_enterConnecting [simp]: "account (enterConnecting X h) = account h"
  by (simp add: enterConnecting_def account_def Let_def bridge_closed split: prod.splits)

lemma flight_cbs_Nil [simp]: "flight_cbs [] = []"
  by (simp add: flight_cbs_def)

lemma account_fail [simp]: "account (failAllInFlight (notifyConnectivity b h)) = account h"
  by (simp add: bridge_closed account_def)

lemma account_shutdown [simp]: "account (enterShuttingDown h) = account h"
  by (simp add: bridge_closed Let_def account_def)

lemma account_subscribing [simp]: "account (post_fifo AllSubAcked_Signal (issueAllSubscribes h)) = account h"
  by (simp add: bridge_closed account_def)

lemma account_operational:
  "account (enterOperational h) = (if ao_running h then account h else account h - mset (req_cbs (br_deferred h)))"
  by (simp add: bridge_closed account_def)


lemma account_en:
  "account (bridge_en X s h) =
     (if s = Operational \<and> \<not> ao_running h then account h - mset (req_cbs (br_deferred h)) else account h)"
  by (cases s) (simp_all add: account_operational)

lemma account_ex [simp]: "account (bridge_ex s h) = account h"
  by (cases s) simp_all

lemma bridge_ex_running [simp]: "ao_running (bridge_ex s h) = ao_running h"
  by (cases s) (simp_all add: bridge_closed exitConnecting_def split: prod.splits)

lemma account_upd [simp]:
  "account (h\<lparr>br_failures := n\<rparr>) = account h" "account (bump_failures h) = account h"
  "account (addObserver tk cb h) = account h"
  "account (emit (Conn_Called cb b) h) = account h"
  "account (emit (Drain_Done d) h) = account h"
  "account (emit (Mosq_Subscribe t) h) = account h" "account (emit (Mosq_Unsubscribe t) h) = account h"
  "account (dropObserver tk h) = account h" "account (subscribeTopic t sid cb h) = account h"
  "account (unsubscribeTopic t h) = account h"
  by (simp_all add: account_def bridge_simples)

lemma account_goto: "account (snd (goto X c l h)) \<subseteq># account h"
  by (simp add: goto_def account_en)

lemma account_goto_eq: "ao_running h \<Longrightarrow> account (snd (goto X c l h)) = account h"
  by (simp add: goto_def account_en)

lemma account_defer [simp]: "account (defer_ev u h) = account h + mset (req_cbs [u])"
  by (simp add: defer_ev_def dq_push_def account_def)

lemma account_react_le:
  assumes "flight_ok h"
  shows "account (snd (react X c u h)) \<subseteq># account h + mset (req_cbs [u])"
  using assms
  by (cases c; cases u)
    (auto simp: account_complete account_recv account_send account_common intro: account_goto 
       subset_mset.order_trans [OF account_goto])

lemma account_react_eq:
  assumes "flight_ok h" "ao_running h" "leaf c" "c \<noteq> ShuttingDown"
    "\<And>p. u = SendReq_Signal p \<Longrightarrow> map_of (br_in_flight h) (env_corrId (sr_envelope p)) = None"
  shows "account (snd (react X c u h)) = account h + mset (req_cbs [u])"
  using assms
  by (cases c; cases u)
    (auto simp: account_complete account_recv account_send account_common account_goto_eq leaf_def bump_failures_def)

section \<open>Data invariant\<close>

fun deferrable :: "'j bridge_event \<Rightarrow> bool" where
  "deferrable (SendReq_Signal p) = True"
| "deferrable (PublishOneway_Signal t sid env) = True"
| "deferrable _ = False"

text \<open>
  Between two events the bridge rests in a leaf; requests are in flight only in \<open>Operational\<close>;
  only requests and one-way messages are deferred, and only while a connection is being
  established or lost; the connect watchdog is armed exactly in \<open>Connecting\<close>.
\<close>

definition bridge_inv :: "bstate \<Rightarrow> 'j modem_bridge \<Rightarrow> bool" where
  "bridge_inv c h \<longleftrightarrow>
     leaf c \<and> flight_ok h \<and> (br_in_flight h \<noteq> [] \<longrightarrow> c = Operational) \<and>
     (br_deferred h \<noteq> [] \<longrightarrow> c = Connecting \<or> c = Subscribing \<or> c = Backoff) \<and>
     list_all deferrable (br_deferred h) \<and>
     smap_ok (br_subs h) \<and> smap_ok (br_conn_obs h) \<and>
     (armed (br_connect_timeout h) \<longleftrightarrow> c = Connecting)"

lemma complete_more_sel [simp]:
  "br_deferred (complete b k r h) = br_deferred h" "br_subs (complete b k r h) = br_subs h"
  "br_conn_obs (complete b k r h) = br_conn_obs h"
  "br_connect_timeout (complete b k r h) = br_connect_timeout h"
  by (simp_all add: complete_def Let_def bridge_closed split: option.splits)

lemma flight_complete [simp]: "br_in_flight (complete b k r h) = AList.delete k (br_in_flight h)"
  by (auto simp: complete_def Let_def bridge_closed map_of_eq_None_iff split: option.splits)

lemma doSendRequest_more_sel [simp]:
  "br_deferred (doSendRequest X p h) = br_deferred h" "br_subs (doSendRequest X p h) = br_subs h"
  "br_conn_obs (doSendRequest X p h) = br_conn_obs h"
  "br_connect_timeout (doSendRequest X p h) = br_connect_timeout h"
  by (simp_all add: doSendRequest_def Let_def publish_body_def split: prod.splits)

lemma doPublishOneway_more_sel [simp]:
  "br_deferred (doPublishOneway X t sid env h) = br_deferred h" "br_subs (doPublishOneway X t sid env h) = br_subs h"
  "br_conn_obs (doPublishOneway X t sid env h) = br_conn_obs h"
  "br_connect_timeout (doPublishOneway X t sid env h) = br_connect_timeout h"
  "br_in_flight (doPublishOneway X t sid env h) = br_in_flight h"
  "br_timers (doPublishOneway X t sid env h) = br_timers h"
  by (simp_all add: doPublishOneway_def publish_body_def)

lemma recvMessage_more_sel [simp]:
  "br_deferred (recvMessage X t body h) = br_deferred h" "br_subs (recvMessage X t body h) = br_subs h"
  "br_conn_obs (recvMessage X t body h) = br_conn_obs h"
  "br_connect_timeout (recvMessage X t body h) = br_connect_timeout h"
  by (simp_all add: recvMessage_def split: option.splits sum.splits prod.splits)

lemma flight_ok_complete: "flight_ok h \<Longrightarrow> flight_ok (complete b k r h)"
  by (simp add: flight_ok_def AList.distinct_delete)

lemma flight_ok_send: "flight_ok h \<Longrightarrow> flight_ok (doSendRequest X p h)"
  by (auto simp: doSendRequest_def Let_def publish_body_def flight_ok_def
      intro!: AList.distinct_delete flight_ok_emplace split: prod.splits)

lemma flight_ok_recv: "flight_ok h \<Longrightarrow> flight_ok (recvMessage X t body h)"
  by (auto simp: recvMessage_def flight_ok_complete flight_ok_def
      intro: AList.distinct_delete split: option.splits sum.splits prod.splits)

lemma enterConnecting_sel [simp]:
  "br_in_flight (enterConnecting X h) = br_in_flight h" "br_deferred (enterConnecting X h) = br_deferred h"
  "br_subs (enterConnecting X h) = br_subs h" "br_conn_obs (enterConnecting X h) = br_conn_obs h"
  "armed (br_connect_timeout (enterConnecting X h))"
  using arm_one_shot_fst
  by (auto simp: enterConnecting_def Let_def bridge_closed armed_def arm_one_shot_def split: prod.splits)

lemma exitConnecting_sel [simp]:
  "br_in_flight (exitConnecting h) = br_in_flight h" "br_deferred (exitConnecting h) = br_deferred h"
  "br_subs (exitConnecting h) = br_subs h" "br_conn_obs (exitConnecting h) = br_conn_obs h"
  "\<not> armed (br_connect_timeout (exitConnecting h))" "ao_q (exitConnecting h) = ao_q h"
  "ao_running (exitConnecting h) = ao_running h"
  by (auto simp: exitConnecting_def armed_def disarm_def split: prod.splits option.splits)

lemma fst_goto [simp]: "fst (goto X c l h) = l"
  by (simp add: goto_def)

definition flat_moves :: "(bstate \<times> bstate) set" where
  "flat_moves = {(Disconnected, Connecting), (Connecting, Subscribing), (Connecting, Backoff),
     (Backoff, Subscribing), (Subscribing, Operational), (Subscribing, Backoff), (Operational, Backoff)} \<union>
     {(c, ShuttingDown) | c. leaf c}"

lemma inv_goto:
  assumes "bridge_inv c h" "(c, l) \<in> flat_moves"
  shows "bridge_inv l (snd (goto X c l h))"
  using assms by (cases c; cases l)
    (auto simp: flat_moves_def goto_def bridge_inv_def bridge_closed flight_ok_def leaf_def Let_def)

lemma inv_upd [simp]:
  "bridge_inv c (h\<lparr>br_failures := n\<rparr>) = bridge_inv c h" "bridge_inv c (bump_failures h) = bridge_inv c h"
  "bridge_inv c (emit x h) = bridge_inv c h"
  by (simp_all add: bridge_inv_def flight_ok_def bump_failures_def)

lemma inv_tables:
  assumes "bridge_inv c h"
  shows "bridge_inv c (addObserver tk cb h)" "bridge_inv c (dropObserver tk h)"
    "bridge_inv c (subscribeTopic t sid cb h)" "bridge_inv c (unsubscribeTopic t h)"
  using assms by (auto simp: bridge_inv_def flight_ok_def bridge_simples)

lemma inv_defer:
  "bridge_inv c h \<Longrightarrow> c = Connecting \<or> c = Subscribing \<or> c = Backoff \<Longrightarrow> deferrable u \<Longrightarrow>
   bridge_inv c (defer_ev u h)"
  by (auto simp: bridge_inv_def flight_ok_def bridge_simples dq_push_def)

lemma inv_operational:
  assumes "bridge_inv Operational h"
  shows "bridge_inv Operational (doSendRequest X p h)" "bridge_inv Operational (doPublishOneway X t sid env h)"
    "bridge_inv Operational (recvMessage X t body h)" "bridge_inv Operational (complete b k r h)"
  using assms
  by (simp_all add: bridge_inv_def flight_ok_send flight_ok_recv flight_ok_complete)
   (simp_all add: flight_ok_def)

lemma inv_react: "bridge_inv c h \<Longrightarrow> bridge_inv (fst (react X c u h)) (snd (react X c u h))"
  by (cases c; cases u)
    (auto simp: inv_tables inv_operational inv_defer inv_goto flat_moves_def leaf_def Let_def)

section \<open>Timers of the requests in flight\<close>

text \<open>
  The tokens the bridge holds are pairwise different and were handed out by the service.
  \<open>watches s k tk\<close>: the timer service still has a live item for request \<open>k\<close>, or is running its
  function; \<open>watched\<close>: every request in flight has that, or its timeout is already queued.
\<close>

definition timer_tokens :: "'j modem_bridge \<Rightarrow> nat list" where
  "timer_tokens h = flight_tokens (br_in_flight h) @
     (case te_tok (br_connect_timeout h) of None \<Rightarrow> [] | Some tk \<Rightarrow> [tk])"

definition timers_ok :: "'j modem_bridge \<Rightarrow> bool" where
  "timers_ok h \<longleftrightarrow> timer_inv (br_timers h) \<and> distinct (timer_tokens h) \<and>
     (\<forall>tk \<in> set (timer_tokens h). 0 < tk \<and> tk \<le> ts_next (br_timers h))"

definition watches :: "bridge_timer timer_service \<Rightarrow> string \<Rightarrow> nat \<Rightarrow> bool" where
  "watches s k tk \<longleftrightarrow> watching s (Rsp_Timer k) tk"

definition watched :: "'j bridge_event list \<Rightarrow> 'j modem_bridge \<Rightarrow> bool" where
  "watched q h \<longleftrightarrow> (\<forall>(k, fl) \<in> set (br_in_flight h).
     watches (br_timers h) k (if_timer_token fl) \<or> RspTimeout_Signal k \<in> set q)"

lemma watches_cancel: "tk' \<noteq> tk \<Longrightarrow> watches s k tk' \<Longrightarrow> watches (cancel_token tk s) k tk'"
  by (simp add: watches_def cancel_token_def watching_cancel)

lemma watches_schedule:
  assumes "watches s k tk" "tk \<le> ts_next s" "ts_next s + 1 < 2 ^ 64"
  shows "watches (snd (schedule fn t p s)) k tk"
  using assms watching_schedule by (auto simp: watches_def)

lemma watches_scheduled:
  "watches (snd (schedule (Rsp_Timer k) t p s)) k (fst (schedule (Rsp_Timer k) t p s))"
  by (simp add: watches_def watching_scheduled)

lemma timer_inv_cancel_token: "timer_inv s \<Longrightarrow> timer_inv (cancel_token tk s)"
  by (simp add: cancel_token_def timer_inv_cancel)

lemma timer_inv_cancel_tokens: "timer_inv s \<Longrightarrow> timer_inv (fold cancel_token tks s)"
  by (induction tks arbitrary: s) (simp_all add: timer_inv_cancel_token)

lemma cancel_token_next [simp]: "ts_next (cancel_token tk s) = ts_next s"
  by (simp add: cancel_token_def)

lemma cancel_tokens_next [simp]: "ts_next (fold cancel_token tks s) = ts_next s"
  by (induction tks arbitrary: s) simp_all

lemma flight_tokens_delete:
  "set (flight_tokens (AList.delete k fs)) \<subseteq> set (flight_tokens fs)"
  "distinct (flight_tokens fs) \<Longrightarrow> distinct (flight_tokens (AList.delete k fs))"
  by (auto simp: flight_tokens_def AList.delete_eq distinct_map_filter)

lemma flight_token_other:
  assumes "distinct (flight_tokens fs)" "(k, fl) \<in> set fs" "(k', fl') \<in> set fs" "k \<noteq> k'"
  shows "if_timer_token fl \<noteq> if_timer_token fl'"
  using assms by (induction fs) (auto simp: flight_tokens_def rev_image_eqI)

lemma timers_ok_complete: "timers_ok h \<Longrightarrow> timers_ok (complete b k r h)"
  using flight_tokens_delete [where k = k and fs = "br_in_flight h"]
  by (fastforce simp: timers_ok_def timer_tokens_def complete_def Let_def bridge_closed
      timer_inv_cancel_token split: option.splits)

lemma watched_complete:
  assumes "timers_ok h" "flight_ok h" "watched (u # q) h" 
    and "\<And>k'. u = RspTimeout_Signal k' \<Longrightarrow> k' = k"
  shows "watched q (complete b k r h)"
proof (cases "map_of (br_in_flight h) k")
  case None
  have "k \<notin> fst ` set (br_in_flight h)" using None by (simp add: map_of_eq_None_iff)
  then show ?thesis using assms(3,4) None by (force simp: watched_def complete_def)
next
  case (Some fl)
  have T: "distinct (flight_tokens (br_in_flight h))" using assms(1) by (simp add: timers_ok_def timer_tokens_def)
  have "watches (br_timers (complete b k r h)) k' (if_timer_token fl') \<or> RspTimeout_Signal k' \<in> set q"
    if f: "(k', fl') \<in> set (AList.delete k (br_in_flight h))" for k' fl'
  proof -
    have k': "k' \<noteq> k" "(k', fl') \<in> set (br_in_flight h)"
      using f by (auto simp: AList.delete_eq)
    then have "if_timer_token fl' \<noteq> if_timer_token fl"
      using flight_token_other [OF T k'(2) map_of_SomeD [OF Some]] by simp
    moreover have "watches (br_timers h) k' (if_timer_token fl') \<or> RspTimeout_Signal k' \<in> set q"
      using assms(3,4) k' by (force simp: watched_def)
    ultimately show ?thesis
      by (auto simp: complete_def Some Let_def bridge_closed watches_cancel)
  qed
  then show ?thesis by (auto simp: watched_def)
qed

lemma watched_complete_plain:
  assumes "timers_ok h" "flight_ok h" "watched q h" shows "watched q (complete b k r h)"
proof -
  have "watched (Stop_Signal # q) h" using assms(3) by (force simp: watched_def)
  from watched_complete [OF assms(1,2) this] show ?thesis by simp
qed

lemma schedule_sel:
  "fst (schedule fn t p s) = next_token (ts_next s)" "ts_next (snd (schedule fn t p s)) = next_token (ts_next s)"
  by (simp_all add: schedule_def Let_def)

lemma flight_tokens_emplace:
  "flight_tokens (emplace k fl fs) =
     flight_tokens fs @ (if map_of fs k = None then [if_timer_token fl] else [])"
  by (simp add: flight_tokens_def emplace_def)

lemma register_ok:
  assumes "timers_ok h" "watched q h" "ts_next (br_timers h) + 1 < 2 ^ 64"
    and "schedule (Rsp_Timer k) t 0 (br_timers h) = (tk, ts)" "if_timer_token fl = tk"
  defines "h1 \<equiv> h\<lparr>br_timers := ts, br_in_flight := emplace k fl (br_in_flight h)\<rparr>"
  shows "timers_ok h1" "watched q h1"
proof -
  have s: "tk = ts_next (br_timers h) + 1" "ts_next ts = ts_next (br_timers h) + 1"
    using schedule_sel [of "Rsp_Timer k" t 0 "br_timers h"] assms(3,4) by (simp_all add: next_token_fresh)
  have ti: "timer_inv ts"
    using timer_inv_schedule [of "br_timers h" "Rsp_Timer k" t 0] assms(1,3,4) by (simp add: timers_ok_def)
  have "ts_next (br_timers h) + 1 \<notin> set (timer_tokens h)" using assms(1) by (force simp: timers_ok_def)
  with assms(1) ti s assms(5) show "timers_ok h1"
    by (auto simp: timers_ok_def timer_tokens_def h1_def flight_tokens_emplace le_SucI split: option.splits)
  have old: "watches ts k' tk'" if "watches (br_timers h) k' tk'" "tk' \<le> ts_next (br_timers h)" for k' tk'
    using watches_schedule [OF that, of "Rsp_Timer k" t 0] assms(3,4) by simp
  have new: "watches ts k tk"
    using watches_scheduled [of k t 0 "br_timers h"] assms(4) by simp
  have le: "if_timer_token fl' \<le> ts_next (br_timers h)" if "(k', fl') \<in> set (br_in_flight h)" for k' fl'
    using assms(1) that by (force simp: timers_ok_def timer_tokens_def flight_tokens_def)
  show "watched q h1"
    using assms(2) old le new assms(5)
    by (fastforce simp: watched_def h1_def emplace_def split: if_splits)
qed

lemma timers_ok_emit [simp]: "timers_ok (emit x h) = timers_ok h"
  by (simp add: timers_ok_def timer_tokens_def)

lemma watched_emit [simp]: "watched q (emit x h) = watched q h"
  by (simp add: watched_def)

lemma send_ok:
  assumes "timers_ok h" "flight_ok h" "watched q h" "ts_next (br_timers h) + 1 < 2 ^ 64"
  shows "timers_ok (doSendRequest X p h) \<and> watched q (doSendRequest X p h)"
proof -
  let ?k = "env_corrId (sr_envelope p)"
  obtain tk ts where sch: "schedule (Rsp_Timer ?k) (sr_deadline p) 0 (br_timers h) = (tk, ts)" by fastforce
  define fl where "fl = \<lparr>if_topic = sr_topic p, if_rsp_schema_id = sr_rsp_schema_id p, if_cb = sr_cb p, if_timer_token = tk\<rparr>"
  let ?h1 = "h\<lparr>br_timers := ts, br_in_flight := emplace ?k fl (br_in_flight h)\<rparr>"
  have h1: "timers_ok ?h1" "watched q ?h1"
    using register_ok [OF assms(1,3,4) sch, of fl] by (simp_all add: fl_def)
  have f1: "flight_ok ?h1" using assms(2) by (simp add: flight_ok_def flight_ok_emplace)
  have "timers_ok (complete b ?k r (emit x ?h1)) \<and> watched q (complete b ?k r (emit x ?h1))" for b r x
    using h1 f1 by (intro conjI timers_ok_complete watched_complete_plain) (simp_all add: flight_ok_def)
  then show ?thesis using assms h1
    by (simp add: doSendRequest_def Let_def publish_body_def sch fl_def)
qed

lemma recv_ok:
  assumes "timers_ok h" "flight_ok h" "watched q h"
  shows "timers_ok (recvMessage X t body h) \<and> watched q (recvMessage X t body h)"
  using assms
  by (auto simp: recvMessage_def timers_ok_complete watched_complete_plain
      split: option.splits sum.splits prod.splits)

lemma timers_ok_fail: "timers_ok h \<Longrightarrow> timers_ok (failAllInFlight (notifyConnectivity b h))"
  by (auto simp: timers_ok_def timer_tokens_def bridge_closed flight_tokens_def timer_inv_cancel_tokens
      split: option.splits)

lemma timers_ok_disarm: "timers_ok h \<Longrightarrow> timers_ok (exitConnecting h)"
  by (auto simp: exitConnecting_def disarm_def timers_ok_def timer_tokens_def timer_inv_cancel split: option.splits)

lemma timers_ok_arm:
  assumes "timers_ok h" "ts_next (br_timers h) + 1 < 2 ^ 64"
  shows "timers_ok (enterConnecting X h)"
proof -
  obtain te s where dis: "disarm (br_connect_timeout h) (br_timers h) = (te, s)" by fastforce
  have s: "timer_inv s" "ts_next s = ts_next (br_timers h)"
    using dis assms(1) by (auto simp: disarm_def timers_ok_def timer_inv_cancel split: option.splits)
  let ?t = "br_now h + connect_timeout (br_cfg h)" and ?n = "ts_next (br_timers h)"
  obtain tk s' where sch: "schedule (te_fn te) ?t 0 s = (tk, s')" by fastforce
  have s': "tk = ?n + 1" "ts_next s' = ?n + 1" "timer_inv s'"
    using schedule_sel [of "te_fn te" ?t 0 s] timer_inv_schedule [OF s(1), of "te_fn te" ?t 0] sch s(2) assms(2)
    by (simp_all add: next_token_fresh)
  have arm: "br_timers (enterConnecting X h) = s'" "te_tok (br_connect_timeout (enterConnecting X h)) = Some tk"
    by (simp_all add: enterConnecting_def Let_def bridge_closed arm_one_shot_def dis sch)
  have "distinct (flight_tokens (br_in_flight h))"
    "\<forall>tk \<in> set (flight_tokens (br_in_flight h)). 0 < tk \<and> tk \<le> ?n"
    using assms(1) by (auto simp: timers_ok_def timer_tokens_def)
  then show ?thesis using s' arm by (force simp: timers_ok_def timer_tokens_def)
qed

lemma no_flight_goto: "(c, l) \<in> flat_moves \<Longrightarrow> bridge_inv c h \<Longrightarrow> br_in_flight (snd (goto X c l h)) = []"
  by (cases c; cases l) (auto simp: flat_moves_def goto_def bridge_inv_def bridge_closed leaf_def Let_def)

lemma timers_ok_ex: "timers_ok h \<Longrightarrow> timers_ok (bridge_ex c h)"
  by (cases c) (simp_all add: timers_ok_fail timers_ok_disarm)

lemma bridge_ex_next [simp]: "ts_next (br_timers (bridge_ex c h)) = ts_next (br_timers h)"
  by (cases c) (auto simp: bridge_closed exitConnecting_def disarm_def split: option.splits)

lemma timers_ok_plain:
  "timers_ok h \<Longrightarrow> timers_ok (post_fifo u h)" "timers_ok h \<Longrightarrow> timers_ok (issueAllSubscribes h)"
  "timers_ok h \<Longrightarrow> timers_ok (enterOperational h)"
  by (auto simp: timers_ok_def timer_tokens_def bridge_closed split: option.splits)

lemma timers_ok_shutdown: "timers_ok h \<Longrightarrow> timers_ok (enterShuttingDown h)"
  using timers_ok_fail [of h False] by (simp add: enterShuttingDown_def Let_def)

lemma timers_ok_goto:
  assumes "timers_ok h" "ts_next (br_timers h) + 1 < 2 ^ 64"
  shows "timers_ok (snd (goto X c l h))"
  using assms timers_ok_ex [OF assms(1)]
  by (cases l) (simp_all add: goto_def timers_ok_arm timers_ok_fail timers_ok_shutdown timers_ok_plain)

lemma timers_upd [simp]:
  "timers_ok (h\<lparr>br_failures := n\<rparr>) = timers_ok h" "timers_ok (bump_failures h) = timers_ok h"
  "timers_ok (defer_ev u h) = timers_ok h" "timers_ok (addObserver tk cb h) = timers_ok h"
  "timers_ok (dropObserver tk h) = timers_ok h" "timers_ok (subscribeTopic t sid cb h) = timers_ok h"
  "timers_ok (unsubscribeTopic t h) = timers_ok h" "timers_ok (doPublishOneway X t sid env h) = timers_ok h"
  "ts_next (br_timers (bump_failures h)) = ts_next (br_timers h)"
  by (simp_all add: timers_ok_def timer_tokens_def bridge_simples)

lemma watched_upd [simp]:
  "watched q (h\<lparr>br_failures := n\<rparr>) = watched q h" "watched q (bump_failures h) = watched q h"
  "watched q (defer_ev u h) = watched q h" "watched q (addObserver tk cb h) = watched q h"
  "watched q (dropObserver tk h) = watched q h" "watched q (subscribeTopic t sid cb h) = watched q h"
  "watched q (unsubscribeTopic t h) = watched q h" "watched q (doPublishOneway X t sid env h) = watched q h"
  by (simp_all add: watched_def bridge_simples)

lemma timers_react:
  assumes "timers_ok h" "bridge_inv c h" "ts_next (br_timers h) + 1 < 2 ^ 64"
  shows "timers_ok (snd (react X c u h))"
proof -
  have "flight_ok h" using assms(2) by (simp add: bridge_inv_def)
  moreover have "watched (map (\<lambda>(k, fl). RspTimeout_Signal k) (br_in_flight h)) h"
    by (force simp: watched_def)
  ultimately have "timers_ok (doSendRequest X p h)" "timers_ok (recvMessage X t body h)" for p t body
    using assms send_ok recv_ok by blast+
  with assms show ?thesis
    by (cases c; cases u) (simp_all add: timers_ok_goto timers_ok_complete Let_def)
qed

lemma watched_no_flight: "br_in_flight h = [] \<Longrightarrow> watched q h"
  by (simp add: watched_def)

lemma react_no_flight:
  assumes "bridge_inv c h" "c \<noteq> Operational"
  shows "br_in_flight (snd (react X c u h)) = []"
proof -
  have "bridge_inv c (h\<lparr>br_failures := n\<rparr>)" "bridge_inv c (bump_failures h)" for n
    using assms(1) by simp_all
  moreover have "br_in_flight h = []" "leaf c" using assms by (auto simp: bridge_inv_def)
  ultimately show ?thesis using assms
    by (cases c; cases u) (auto simp: no_flight_goto flat_moves_def leaf_def bridge_simples Let_def)
qed

lemma watched_react:
  assumes "timers_ok h" "bridge_inv c h" "ts_next (br_timers h) + 1 < 2 ^ 64" "watched (u # q) h"
  shows "watched q (snd (react X c u h))"
proof (cases "c = Operational")
  case False
  then show ?thesis using react_no_flight assms(2) by (intro watched_no_flight) blast
next
  case True
  have ok: "flight_ok h" using assms(2) by (simp add: bridge_inv_def)
  have goto: "watched q (snd (goto X Operational l h'))" if "l = Backoff \<or> l = ShuttingDown" for l h'
    using that by (intro watched_no_flight) (auto simp: goto_def bridge_closed Let_def)
  have same: "watched q h" if "\<And>k. u \<noteq> RspTimeout_Signal k"
    using assms(4) that by (fastforce simp: watched_def)
  show ?thesis
  proof (cases "\<exists>k. u = RspTimeout_Signal k")
    case rsp: True
    then obtain k where "u = RspTimeout_Signal k" ..
    with watched_complete [OF assms(1) ok assms(4)] show ?thesis by (simp add: True)
  next
    case False
    with same have w: "watched q h" by blast
    note ops = send_ok [OF assms(1) ok w assms(3)] recv_ok [OF assms(1) ok w]
    from w False show ?thesis by (cases u) (simp_all add: True ops goto Let_def)
  qed
qed

lemma react_queue: "\<exists>es. ao_q (snd (react X c u h)) = ao_q h @ es"
proof -
  have "\<exists>es. ao_q (snd (goto X c l h)) = ao_q h @ es" for l h
  proof -
    have "ao_q (bridge_ex c h) = ao_q h"
      by (cases c) (simp_all add: bridge_closed)
    then show ?thesis
      by (cases l) (auto simp: goto_def bridge_closed enterConnecting_def Let_def split: prod.splits)
  qed
  from this [of _ h] this [of _ "bump_failures h"] this [of _ "h\<lparr>br_failures := 0\<rparr>"] show ?thesis
    by (cases c; cases u) (auto simp: bridge_simples Let_def)
qed

section \<open>Correlation ids\<close>

fun req_corrs :: "'j bridge_event list \<Rightarrow> string list" where
  "req_corrs [] = []"
| "req_corrs (SendReq_Signal p # es) = env_corrId (sr_envelope p) # req_corrs es"
| "req_corrs (_ # es) = req_corrs es"

lemma req_corrs_append [simp]: "req_corrs (xs @ ys) = req_corrs xs @ req_corrs ys"
  by (induction xs rule: req_corrs.induct) simp_all

definition outstanding :: "'j modem_bridge \<Rightarrow> string list" where
  "outstanding h = map fst (br_in_flight h) @ req_corrs (br_deferred h) @ req_corrs (ao_q h)"

lemma mset_keys_delete: "mset (map fst (AList.delete k fs)) \<subseteq># mset (map fst fs)"
  by (simp add: AList.delete_eq image_mset_subseteq_mono)

lemma mset_keys_emplace: "mset (map fst (emplace k v fs)) \<subseteq># add_mset k (mset (map fst fs))"
  by (simp add: emplace_def)

lemma out_complete: "mset (outstanding (complete b k r h)) \<subseteq># mset (outstanding h)"
  using mset_keys_delete [of k "br_in_flight h"] by (simp add: outstanding_def)

lemma out_recv: "mset (outstanding (recvMessage X t body h)) \<subseteq># mset (outstanding h)"
proof -
  have "outstanding (emit x h) = outstanding h" for x by (simp add: outstanding_def)
  then show ?thesis
    by (auto simp: recvMessage_def out_complete split: option.splits sum.splits prod.splits)
qed

lemma out_send:
  "mset (outstanding (doSendRequest X p h)) \<subseteq># add_mset (env_corrId (sr_envelope p)) (mset (outstanding h))"
proof -
  let ?k = "env_corrId (sr_envelope p)"
  have reg: "mset (outstanding (emit x (h\<lparr>br_timers := ts, br_in_flight := emplace ?k fl (br_in_flight h)\<rparr>)))
    \<subseteq># add_mset ?k (mset (outstanding h))" for x ts fl
    using mset_keys_emplace [of ?k fl "br_in_flight h"] by (simp add: outstanding_def)
  have em: "outstanding (emit x h) = outstanding h" for x by (simp add: outstanding_def)
  show ?thesis
    using reg subset_mset.order_trans [OF out_complete reg]
    by (simp add: doSendRequest_def Let_def publish_body_def em split: prod.splits)
qed

lemma out_goto: "mset (outstanding (snd (goto X c l h))) \<subseteq># mset (outstanding h)"
proof -
  have "mset (outstanding (bridge_ex c h)) \<subseteq># mset (outstanding h)"
    by (cases c) (simp_all add: outstanding_def bridge_closed)
  moreover have "mset (outstanding (bridge_en X l h)) \<subseteq># mset (outstanding h)" for h
    by (cases l) (simp_all add: outstanding_def bridge_closed enterConnecting_def Let_def split: prod.splits)
  ultimately show ?thesis unfolding goto_def using subset_mset.order_trans by simp blast
qed

lemma out_upd [simp]:
  "outstanding (h\<lparr>br_failures := n\<rparr>) = outstanding h" "outstanding (bump_failures h) = outstanding h"
  "outstanding (addObserver tk cb h) = outstanding h"
  "outstanding (dropObserver tk h) = outstanding h" "outstanding (subscribeTopic t sid cb h) = outstanding h"
  "outstanding (unsubscribeTopic t h) = outstanding h" "outstanding (doPublishOneway X t sid env h) = outstanding h"
  "outstanding (emit x h) = outstanding h"
  "mset (outstanding (defer_ev u h)) = mset (req_corrs [u]) + mset (outstanding h)"
  by (simp_all add: outstanding_def bridge_simples dq_push_def)

lemma out_react: "mset (outstanding (snd (react X c u h))) \<subseteq># mset (req_corrs [u]) + mset (outstanding h)"
  using out_goto [of X c _ h] out_goto [of X c _ "h\<lparr>br_failures := 0\<rparr>"] out_goto [of X c _ "bump_failures h"]
  by (cases c; cases u) (simp_all add: out_recv out_send out_complete Let_def)

lemma distinct_submset:
  assumes "mset ys \<subseteq># mset xs" "distinct xs"
  shows "distinct ys"
proof -
  have "count (mset ys) a = (if a \<in> set ys then 1 else 0)" for a
  proof -
    have "count (mset ys) a \<le> count (mset xs) a" using assms(1) by (rule mset_subset_eq_count)
    also have "\<dots> \<le> 1" using assms(2) by (simp add: distinct_count_atmost_1)
    finally have le: "count (mset ys) a \<le> 1" .
    show ?thesis
    proof (cases "a \<in> set ys")
      case True
      then have "0 < count (mset ys) a" by (rule count_mset_gt_0)
      with le have "count (mset ys) a = 1" by linarith
      with True show ?thesis by simp
    qed simp
  qed
  then show ?thesis by (simp add: distinct_count_atmost_1)
qed

end
