(* ===== verification/Bridge_System.thy ===== *)
theory Bridge_System
  imports Bridge_Inv
begin

text \<open>
  The modem bridge in its environment, as a transition system over all interleavings of
  clients, libmosquitto, the bridge's worker and the timer thread; the invariants of its
  reachable states.
\<close>

section \<open>The bridge with its clients, libmosquitto and the timer thread\<close>

text \<open>
  Steps: any thread posts an event; the worker takes one event; time passes; the timer thread
  wakes up, takes or drops a due item, runs its function; \<open>stop\<close> clears \<open>running_\<close>. The label
  lists the callbacks handed over with a posted request. With \<open>uniq\<close>, clients use a fresh
  correlation id for every request. The worker's guard keeps the timer tokens from wrapping.
\<close>

inductive bridge_step :: "'j bridge_ext \<Rightarrow> nat \<Rightarrow> bool \<Rightarrow> nat list \<Rightarrow> 'j modem_bridge \<Rightarrow> 'j modem_bridge \<Rightarrow> bool"
  for X n uniq where
  post: "uniq \<longrightarrow> set (req_corrs [u]) \<inter> set (outstanding h) = {} \<Longrightarrow>
    bridge_step X n uniq (req_cbs [u]) h (post_fifo u h)"
| token: "bridge_step X n uniq [] h (snd (subscribe_connectivity cb h))"
| work: "run_step n (bridge_handlers X) h = Inr (out, h') \<Longrightarrow> ts_next (br_timers h) + 1 < 2 ^ 64 \<Longrightarrow>
    bridge_step X n uniq [] h h'"
| tick: "br_now h \<le> t \<Longrightarrow> bridge_step X n uniq [] h (h\<lparr>br_now := t\<rparr>)"
| timer_wake: "ts_phase (br_timers h) = Sleeping \<Longrightarrow>
    bridge_step X n uniq [] h (h\<lparr>br_timers := wake now (br_timers h)\<rparr>)"
| timer_batch: "ts_phase (br_timers h) = Batch now \<Longrightarrow>
    bridge_step X n uniq [] h (h\<lparr>br_timers := batch_step now (br_timers h)\<rparr>)"
| timer_fire: "ts_phase (br_timers h) = Firing now it \<Longrightarrow> now \<le> clk \<Longrightarrow>
    bridge_step X n uniq [] h
      ((post_fifo (timer_event (it_fn it)) h)\<lparr>br_timers := fire_finish clk now it (br_timers h)\<rparr>)"
| halt: "bridge_step X n uniq [] h (h\<lparr>ao_running := False\<rparr>)"

inductive bridge_reach :: "'j bridge_ext \<Rightarrow> nat \<Rightarrow> bool \<Rightarrow> nat list \<Rightarrow> 'j modem_bridge \<Rightarrow> bool"
  for X n uniq where
  started: "bridge_start n X True (newBridge cfg paId) = Inr h \<Longrightarrow> bridge_reach X n uniq [] h"
| step: "bridge_reach X n uniq iss h \<Longrightarrow> bridge_step X n uniq new h h' \<Longrightarrow> bridge_reach X n uniq (iss @ new) h'"

lemma start_closed:
  assumes "kMaxNest < n" "bridge_start n X True (newBridge cfg paId) = Inr h"
  shows "hstate h = St Disconnected \<and> ao_q h = [Start_Signal] \<and> ao_running h \<and> br_in_flight h = [] \<and>
    br_deferred h = [] \<and> br_timers h = timer_init \<and> br_subs h = [] \<and> br_conn_obs h = [] \<and>
    \<not> armed (br_connect_timeout h) \<and> called_cbs (br_out h) = []"
proof -
  have "settle bridge_par bridge_ini kMaxNest Disconnected = (Disconnected, [])" by simp
  from br.init_refines [OF assms(1) _ this, of X] assms(2) show ?thesis
    by (auto simp: bridge_start_def Let_def start_at_def newBridge_def bindE_eq_Inr trace_def emit_def armed_def
       bridge_closed split: prod.splits)
qed

section \<open>Invariants of reachable states\<close>

lemma work_cases:
  assumes "kMaxNest < n" "hstate h = St c" "leaf c" "run_step n (bridge_handlers X) h = Inr (out, h')"
  obtains (idle) "ao_q h = []" "h' = h"
  | (taken) u es where "ao_q h = u # es" "hstate h' = St (fst (react X c u (h\<lparr>ao_q := es\<rparr>)))"
      "framed (snd (react X c u (h\<lparr>ao_q := es\<rparr>))) h'"
proof (cases "ao_q h")
  case Nil
  with assms(4) show ?thesis by (intro idle) (auto simp: run_step_def ao_pop_def)
next
  case (Cons u es)
  have "hstate (h\<lparr>ao_q := es\<rparr>) = St c" using assms(2) by simp
  from dispatch_react [OF assms(1) this assms(3), of X u] assms(4) Cons show ?thesis
    by (intro taken [of u es]) (auto simp: run_step_def ao_pop_def)
qed

lemma react_running: "ao_running (snd (react X c u h)) = ao_running h"
proof -
  have "ao_running (snd (goto X c l h)) = ao_running h" for l h
    by (cases l) (auto simp: goto_def bridge_closed enterConnecting_def Let_def split: prod.splits)
  then show ?thesis by (cases c; cases u) (simp_all add: bridge_simples Let_def)
qed

lemma framed_inv:
  assumes "framed h h'"
  shows "bridge_inv c h' = bridge_inv c h" "timers_ok h' = timers_ok h" "watched q h' = watched q h"
    "account h' = account h" "outstanding h' = outstanding h" "ao_running h' = ao_running h"
    "ao_q h' = ao_q h" "br_out h' = br_out h" "flight_ok h' = flight_ok h"
  using assms by (auto simp: framed_def bridge_inv_def timers_ok_def timer_tokens_def watched_def account_def
     outstanding_def flight_ok_def)

definition sys_inv :: "'j modem_bridge \<Rightarrow> bool" where
  "sys_inv h \<longleftrightarrow> (\<exists>c. hstate h = St c \<and> bridge_inv c h) \<and> timers_ok h \<and>
     (ao_running h \<longrightarrow> watched (ao_q h) h)"

lemma watched_mono: "watched q h \<Longrightarrow> set q \<subseteq> set q' \<Longrightarrow> watched q' h"
  by (fastforce simp: watched_def)

lemma sys_inv_work:
  assumes fuel: "kMaxNest < n" and inv: "sys_inv h" and run: "run_step n (bridge_handlers X) h = Inr (out, h')"
    and tok: "ts_next (br_timers h) + 1 < 2 ^ 64"
  shows "sys_inv h'"
proof -
  from inv obtain c where c: "hstate h = St c" "bridge_inv c h" by (auto simp: sys_inv_def)
  then have leaf: "leaf c" by (simp add: bridge_inv_def)
  show ?thesis using fuel c(1) leaf run
  proof (cases rule: work_cases)
    case idle
    with inv show ?thesis by simp
  next
    case (taken u es)
    let ?h = "h\<lparr>ao_q := es\<rparr>" and ?r = "react X c u (h\<lparr>ao_q := es\<rparr>)"
    have b: "bridge_inv c ?h" using c(2) by (simp add: bridge_inv_def flight_ok_def)
    have t: "timers_ok ?h" "ts_next (br_timers ?h) + 1 < 2 ^ 64"
      using inv tok by (simp_all add: sys_inv_def timers_ok_def timer_tokens_def)
    have w: "watched (u # es) ?h" if "ao_running h"
      using inv taken(1) that by (simp add: sys_inv_def watched_def)
    obtain ys where q: "ao_q (snd ?r) = es @ ys" using react_queue [of X c u ?h] by auto
    have "watched (ao_q (snd ?r)) (snd ?r)" if "ao_running h"
      using watched_react [OF t(1) b t(2) w [OF that]] by (rule watched_mono) (simp add: q)
    then show ?thesis
      using taken inv_react [OF b, of X u] timers_react [OF t(1) b t(2), of X u]
      by (simp add: sys_inv_def framed_inv [OF taken(3)] react_running)
  qed
qed

lemma sys_inv_fields:
  "bridge_inv c (h\<lparr>ao_q := q\<rparr>) = bridge_inv c h" "bridge_inv c (h\<lparr>br_now := t\<rparr>) = bridge_inv c h"
  "bridge_inv c (h\<lparr>br_timers := s\<rparr>) = bridge_inv c h" "bridge_inv c (h\<lparr>ao_running := b\<rparr>) = bridge_inv c h"
  "bridge_inv c (h\<lparr>br_next_conn_token := m\<rparr>) = bridge_inv c h"
  "timers_ok (h\<lparr>ao_q := q\<rparr>) = timers_ok h" "timers_ok (h\<lparr>br_now := t\<rparr>) = timers_ok h"
  "timers_ok (h\<lparr>ao_running := b\<rparr>) = timers_ok h" "timers_ok (h\<lparr>br_next_conn_token := m\<rparr>) = timers_ok h"
  "watched qq (h\<lparr>ao_q := q\<rparr>) = watched qq h" "watched qq (h\<lparr>br_now := t\<rparr>) = watched qq h"
  "watched qq (h\<lparr>ao_running := b\<rparr>) = watched qq h" "watched qq (h\<lparr>br_next_conn_token := m\<rparr>) = watched qq h"
  by (simp_all add: bridge_inv_def flight_ok_def timers_ok_def timer_tokens_def watched_def)

lemma sys_inv_post: "sys_inv h \<Longrightarrow> sys_inv (post_fifo u h)"
  by (auto simp: sys_inv_def post_fifo_def sys_inv_fields intro: watched_mono)

lemma sys_inv_timers:
  assumes "sys_inv h" "timer_inv s" "ts_next s = ts_next (br_timers h)"
    and "\<And>k tk. watches (br_timers h) k tk \<Longrightarrow> watches s k tk \<or> (ao_running h \<longrightarrow> RspTimeout_Signal k \<in> set (ao_q h))"
  shows "sys_inv (h\<lparr>br_timers := s\<rparr>)"
  using assms
  by (fastforce simp: sys_inv_def sys_inv_fields timers_ok_def timer_tokens_def watched_def)

lemma watches_wake: "ts_phase s = Sleeping \<Longrightarrow> watches s k tk \<Longrightarrow> watches (wake now s) k tk"
  by (simp add: watches_def watching_wake)

lemma watches_batch:
  "timer_inv s \<Longrightarrow> ts_phase s = Batch now \<Longrightarrow> watches s k tk \<Longrightarrow> watches (batch_step now s) k tk"
  by (simp add: watches_def watching_batch)

lemma watches_fire:
  "timer_inv s \<Longrightarrow> ts_phase s = Firing now it \<Longrightarrow> watches s k tk \<Longrightarrow> it_fn it \<noteq> Rsp_Timer k \<Longrightarrow>
   watches (fire_finish clk now it s) k tk"
  by (simp add: watches_def watching_fire)

lemma sys_inv_fire:
  assumes "sys_inv h" "ts_phase (br_timers h) = Firing now it"
  shows "sys_inv ((post_fifo (timer_event (it_fn it)) h)\<lparr>br_timers := fire_finish clk now it (br_timers h)\<rparr>)"
proof -
  let ?h = "post_fifo (timer_event (it_fn it)) h"
  have h: "sys_inv ?h" by (rule sys_inv_post [OF assms(1)])
  have T: "br_timers ?h = br_timers h" by (simp add: post_fifo_def)
  have ti: "timer_inv (br_timers h)" using assms(1) by (simp add: sys_inv_def timers_ok_def)
  have "sys_inv (?h\<lparr>br_timers := fire_finish clk now it (br_timers ?h)\<rparr>)"
  proof (rule sys_inv_timers [OF h])
    show "timer_inv (fire_finish clk now it (br_timers ?h))" using ti assms(2) by (simp add: T timer_inv_fire)
    show "ts_next (fire_finish clk now it (br_timers ?h)) = ts_next (br_timers ?h)"
      by (simp add: fire_finish_def Let_def)
    show "watches (fire_finish clk now it (br_timers ?h)) k tk \<or>
        (ao_running ?h \<longrightarrow> RspTimeout_Signal k \<in> set (ao_q ?h))" if "watches (br_timers ?h) k tk" for k tk
    proof (cases "it_fn it = Rsp_Timer k")
      case True
      then show ?thesis by (simp add: post_fifo_def)
    next
      case False
      with watches_fire [OF ti assms(2)] that show ?thesis by (simp add: T)
    qed
  qed
  then show ?thesis by (simp add: T)
qed

lemma sys_inv_wake:
  assumes "sys_inv h" "ts_phase (br_timers h) = Sleeping"
  shows "sys_inv (h\<lparr>br_timers := wake now (br_timers h)\<rparr>)"
  using assms(1)
proof (rule sys_inv_timers)
  show "timer_inv (wake now (br_timers h))"
    using assms by (simp add: sys_inv_def timers_ok_def timer_inv_wake)
qed (use watches_wake [OF assms(2)] in \<open>auto simp: wake_def\<close>)

lemma sys_inv_batch:
  assumes "sys_inv h" "ts_phase (br_timers h) = Batch now"
  shows "sys_inv (h\<lparr>br_timers := batch_step now (br_timers h)\<rparr>)"
  using assms(1)
proof (rule sys_inv_timers)
  have ti: "timer_inv (br_timers h)" using assms by (simp add: sys_inv_def timers_ok_def)
  then show "timer_inv (batch_step now (br_timers h))" using assms(2) by (simp add: timer_inv_batch)
  show "ts_next (batch_step now (br_timers h)) = ts_next (br_timers h)"
    by (simp add: batch_step_def split: list.splits)
  show "watches (br_timers h) k tk \<Longrightarrow> watches (batch_step now (br_timers h)) k tk \<or>
      (ao_running h \<longrightarrow> RspTimeout_Signal k \<in> set (ao_q h))" for k tk
    using watches_batch [OF ti assms(2)] by blast
qed

lemma sys_inv_step:
  assumes "kMaxNest < n" "bridge_step X n uniq new h h'" "sys_inv h"
  shows "sys_inv h'"
  using assms(2)
proof (cases rule: bridge_step.cases)
  case (token cb)
  have "sys_inv (h\<lparr>br_next_conn_token := m\<rparr>)" for m using assms(3) by (simp add: sys_inv_def sys_inv_fields)
  then show ?thesis using token by (simp add: subscribe_connectivity_def Let_def sys_inv_post)
next
  case (tick t)
  then show ?thesis using assms(3) by (simp add: sys_inv_def sys_inv_fields)
next
  case halt
  then show ?thesis using assms(3) by (simp add: sys_inv_def sys_inv_fields)
qed (use assms in \<open>auto intro: sys_inv_work sys_inv_fire sys_inv_post sys_inv_wake sys_inv_batch\<close>)

lemma sys_inv_reach: "bridge_reach X n uniq iss h \<Longrightarrow> kMaxNest < n \<Longrightarrow> sys_inv h"
proof (induction rule: bridge_reach.induct)
  case (started cfg paId h)
  from start_closed [OF started(2,1)] show ?case
    by (auto simp: sys_inv_def bridge_inv_def leaf_def flight_ok_def smap_ok_def timers_ok_def timer_tokens_def
       flight_tokens_def timer_inv_init watched_def armed_def)
next
  case (step iss h new h')
  then show ?case using sys_inv_step by blast
qed

section \<open>Every callback is accounted for\<close>

lemma account_pop: "ao_q h = u # es \<Longrightarrow> account h = account (h\<lparr>ao_q := es\<rparr>) + mset (req_cbs [u])"
  by (cases u) (simp_all add: account_def)

lemma outstanding_pop:
  "ao_q h = u # es \<Longrightarrow> mset (outstanding h) = mset (req_corrs [u]) + mset (outstanding (h\<lparr>ao_q := es\<rparr>))"
  by (cases u) (simp_all add: outstanding_def)

lemma account_fields [simp]:
  "account (h\<lparr>br_now := t\<rparr>) = account h" "account (h\<lparr>br_timers := s\<rparr>) = account h"
  "account (h\<lparr>ao_running := b\<rparr>) = account h" "account (h\<lparr>br_next_conn_token := m\<rparr>) = account h"
  by (simp_all add: account_def)

lemma outstanding_fields [simp]:
  "outstanding (h\<lparr>br_now := t\<rparr>) = outstanding h" "outstanding (h\<lparr>br_timers := s\<rparr>) = outstanding h"
  "outstanding (h\<lparr>ao_running := b\<rparr>) = outstanding h" "outstanding (h\<lparr>br_next_conn_token := m\<rparr>) = outstanding h"
  by (simp_all add: outstanding_def)

lemma account_post: "account (post_fifo u h) = (if ao_running h then account h + mset (req_cbs [u]) else account h)"
  by (simp add: account_def post_fifo_def)

lemma outstanding_post:
  "outstanding (post_fifo u h) = (if ao_running h then outstanding h @ req_corrs [u] else outstanding h)"
  by (simp add: outstanding_def post_fifo_def)

lemma timer_event_plain [simp]: "req_cbs [timer_event f] = []" "req_corrs [timer_event f] = []"
  by (cases f; simp)+

lemma work_account:
  assumes fuel: "kMaxNest < n" and inv: "sys_inv h" and run: "run_step n (bridge_handlers X) h = Inr (out, h')"
  shows "account h' \<subseteq># account h" "mset (outstanding h') \<subseteq># mset (outstanding h)"
    "ao_running h \<Longrightarrow> hstate h \<noteq> St ShuttingDown \<Longrightarrow> distinct (outstanding h) \<Longrightarrow> account h' = account h"
    "ao_running h' = ao_running h" "hstate h = St ShuttingDown \<Longrightarrow> hstate h' = St ShuttingDown"
proof -
  from inv obtain c where c: "hstate h = St c" "bridge_inv c h" by (auto simp: sys_inv_def)
  then have leaf: "leaf c" by (simp add: bridge_inv_def)
  have "account h' \<subseteq># account h \<and> mset (outstanding h') \<subseteq># mset (outstanding h) \<and>
    (ao_running h \<longrightarrow> c \<noteq> ShuttingDown \<longrightarrow> distinct (outstanding h) \<longrightarrow> account h' = account h) \<and>
    ao_running h' = ao_running h \<and> (c = ShuttingDown \<longrightarrow> hstate h' = St ShuttingDown)"
    using fuel c(1) leaf run
  proof (cases rule: work_cases)
    case idle
    then show ?thesis using c(1) by simp
  next
    case (taken u es)
    let ?h = "h\<lparr>ao_q := es\<rparr>"
    have ok: "flight_ok ?h" using c(2) by (simp add: bridge_inv_def flight_ok_def)
    have fresh: "map_of (br_in_flight ?h) (env_corrId (sr_envelope p)) = None"
      if "distinct (outstanding h)" "u = SendReq_Signal p" for p
      using that taken(1) by (auto simp: outstanding_def map_of_eq_None_iff)
    have "account (snd (react X c u ?h)) = account ?h + mset (req_cbs [u])"
      if "ao_running h" "c \<noteq> ShuttingDown" "distinct (outstanding h)"
      using account_react_eq [OF ok _ leaf, of u X] that fresh by simp
    moreover have "c = ShuttingDown \<longrightarrow> fst (react X c u ?h) = ShuttingDown" by (cases u) simp_all
    ultimately show ?thesis
      using account_react_le [OF ok, of X c u] out_react [of X c u ?h] taken(2)
      by (simp add: framed_inv [OF taken(3)] account_pop [OF taken(1)] outstanding_pop [OF taken(1)] react_running)
  qed
  then show "account h' \<subseteq># account h" "mset (outstanding h') \<subseteq># mset (outstanding h)"
    "ao_running h \<Longrightarrow> hstate h \<noteq> St ShuttingDown \<Longrightarrow> distinct (outstanding h) \<Longrightarrow> account h' = account h"
    "ao_running h' = ao_running h" "hstate h = St ShuttingDown \<Longrightarrow> hstate h' = St ShuttingDown"
    by (auto simp: c(1))
qed

lemma account_step:
  assumes "kMaxNest < n" "bridge_step X n uniq new h h'" "sys_inv h"
  shows "account h' \<subseteq># account h + mset new"
  using assms(2)
proof (cases rule: bridge_step.cases)
  case (work out)
  then show ?thesis using work_account(1) [OF assms(1,3)] by simp
qed (simp_all add: account_post subscribe_connectivity_def Let_def)

lemma account_step_eq:
  assumes "kMaxNest < n" "bridge_step X n True new h h'" "sys_inv h" "distinct (outstanding h)"
  shows "distinct (outstanding h') \<and>
    (ao_running h' \<and> hstate h' \<noteq> St ShuttingDown \<longrightarrow>
      ao_running h \<and> hstate h \<noteq> St ShuttingDown \<and> account h' = account h + mset new)"
  using assms(2)
proof (cases rule: bridge_step.cases)
  case (post u)
  then show ?thesis using assms(4)
    by (cases u) (auto simp: account_post outstanding_post)
next
  case (work out)
  note w = work_account [OF assms(1,3) work(2)]
  show ?thesis using w(3-5) distinct_submset [OF w(2) assms(4)] assms(4) work(1) by auto
qed (use assms(4) in \<open>auto simp: account_post outstanding_post subscribe_connectivity_def Let_def\<close>)

lemma account_reach: "bridge_reach X n uniq iss h \<Longrightarrow> kMaxNest < n \<Longrightarrow> account h \<subseteq># mset iss"
proof (induction rule: bridge_reach.induct)
  case (started cfg paId h)
  from start_closed [OF started(2,1)] show ?case by (simp add: account_def flight_cbs_def)
next
  case (step iss h new h')
  have "account h' \<subseteq># account h + mset new"
    using account_step [OF step(4,2)] sys_inv_reach [OF step(1,4)] by simp
  then show ?case using step by (simp add: subset_mset.order_trans)
qed

lemma account_reach_eq:
  "bridge_reach X n True iss h \<Longrightarrow> kMaxNest < n \<Longrightarrow> distinct (outstanding h) \<and>
    (ao_running h \<and> hstate h \<noteq> St ShuttingDown \<longrightarrow> account h = mset iss)"
proof (induction rule: bridge_reach.induct)
  case (started cfg paId h)
  from start_closed [OF started(2,1)] show ?case by (simp add: account_def flight_cbs_def outstanding_def)
next
  case (step iss h new h')
  then show ?case using account_step_eq [OF step(4,2)] sys_inv_reach [OF step(1,4)] by auto
qed

end
