(* ===== verification/Bridge_Live.thy ===== *)
theory Bridge_Live
  imports Bridge_System
begin

text \<open>
  Progress of the modem bridge: the worker always empties its queue, \<open>stop\<close> always returns,
  a fence is passed after everything queued before it; and the routing of messages.
\<close>

section \<open>The worker always empties its queue\<close>

text \<open>What a reaction posts: connection attempts and link-ups post one event, the end of the
  subscription phase posts the deferred events, nothing else posts.\<close>

fun link_opener :: "'j bridge_event \<Rightarrow> bool" where
  "link_opener Start_Signal = True"
| "link_opener (LinkUp_Signal rc) = True"
| "link_opener _ = False"

lemma goto_posts:
  "ao_q (snd (goto X c l h)) = ao_q h @
     (if \<not> ao_running h then []
      else if l = Connecting \<and> x_connect_rc X (br_out (bridge_ex c h)) \<noteq> MOSQ_ERR_SUCCESS then [LinkDown_Signal (-1)]
      else if l = Subscribing then [AllSubAcked_Signal]
      else if l = Operational then br_deferred (bridge_ex c h) else [])"
proof -
  have "ao_q (bridge_ex c h) = ao_q h" by (cases c) (simp_all add: bridge_closed)
  then show ?thesis
    by (cases l) (auto simp: goto_def bridge_closed enterConnecting_def Let_def split: prod.splits)
qed

definition queue_rank :: "'j bridge_event list \<Rightarrow> nat \<times> nat \<times> nat" where
  "queue_rank q = (length (filter link_opener q), length (filter (\<lambda>e. e = AllSubAcked_Signal) q), length q)"

definition rank_less :: "((nat \<times> nat \<times> nat) \<times> (nat \<times> nat \<times> nat)) set" where
  "rank_less = less_than <*lex*> less_than <*lex*> less_than"

lemma wf_rank: "wf rank_less"
  by (auto simp: rank_less_def)

lemma deferrable_filter:
  "list_all deferrable es \<Longrightarrow> filter link_opener es = [] \<and> filter (\<lambda>e. e = AllSubAcked_Signal) es = []"
  by (induction es rule: list.induct) (auto elim: deferrable.elims)

lemma react_rank:
  assumes inv: "bridge_inv c h"
  shows "(queue_rank (ao_q (snd (react X c u h))), queue_rank (u # ao_q h)) \<in> rank_less"
proof -
  have "list_all deferrable (br_deferred h)" "leaf c" using inv by (auto simp: bridge_inv_def)
  then show ?thesis using deferrable_filter [of "br_deferred h"]
    by (cases c; cases u)
      (auto simp: queue_rank_def rank_less_def goto_posts leaf_def bridge_simples Let_def)
qed


lemma run_mono: "run k n H h = Inr h' \<Longrightarrow> k \<le> k' \<Longrightarrow> run k' n H h = Inr h'"
proof (induction k arbitrary: h k')
  case 0
  then show ?case by (cases k') (auto simp: run_step_def ao_pop_def split: if_splits)
next
  case (Suc k)
  then obtain k2 where "k' = Suc k2" "k \<le> k2" by (cases k') auto
  with Suc show ?case by (auto simp: bindE_eq_Inr split: if_splits)
qed

lemma stop_reacts: "leaf c \<Longrightarrow> fst (react X c Stop_Signal h) = ShuttingDown"
  by (cases c) (simp_all add: leaf_def)

lemma shutdown_terminal: "fst (react X ShuttingDown u h) = ShuttingDown"
  by (cases u) simp_all

lemma worker_drains:
  assumes fuel: "kMaxNest < n"
  shows "hstate h = St c \<Longrightarrow> bridge_inv c h \<Longrightarrow>
    \<exists>k h' c'. run k n (bridge_handlers X) h = Inr h' \<and> ao_q h' = [] \<and> hstate h' = St c' \<and> bridge_inv c' h' \<and>
      ao_running h' = ao_running h \<and> (c = ShuttingDown \<or> Stop_Signal \<in> set (ao_q h) \<longrightarrow> c' = ShuttingDown)"
proof (induction "queue_rank (ao_q h)" arbitrary: h c rule: wf_induct_rule [OF wf_rank])
  case (1 h)
  show ?case
  proof (cases "ao_q h")
    case Nil
    then have "run 0 n (bridge_handlers X) h = Inr h" by simp
    with 1(2,3) Nil show ?thesis by fastforce
  next
    case (Cons u es)
    let ?h = "h\<lparr>ao_q := es\<rparr>"
    have leaf: "leaf c" and b: "bridge_inv c ?h" using 1(3) by (auto simp: bridge_inv_def sys_inv_fields flight_ok_def)
    have "hstate ?h = St c" using 1(2) by simp
    from dispatch_react [OF fuel this leaf, of X u] obtain h1 where
      dis: "dispatch n (bridge_handlers X) (User u) ?h = Inr h1"
      and st: "hstate h1 = St (fst (react X c u ?h))" and fr: "framed (snd (react X c u ?h)) h1" by auto
    have less: "(queue_rank (ao_q h1), queue_rank (ao_q h)) \<in> rank_less"
      using react_rank [OF b, of X u] Cons by (simp add: framed_inv [OF fr])
    have inv1: "bridge_inv (fst (react X c u ?h)) h1"
      using inv_react [OF b, of X u] by (simp add: framed_inv [OF fr])
    from 1(1) [OF less st inv1] obtain k h' c' where
      run: "run k n (bridge_handlers X) h1 = Inr h'" and fin: "ao_q h' = []" "hstate h' = St c'" "bridge_inv c' h'"
      and more: "ao_running h' = ao_running h1"
        "fst (react X c u ?h) = ShuttingDown \<or> Stop_Signal \<in> set (ao_q h1) \<longrightarrow> c' = ShuttingDown" by blast
    have "run (Suc k) n (bridge_handlers X) h = Inr h'"
      using run by (simp add: run_step_def ao_pop_def Cons dis)
    moreover have "ao_running h' = ao_running h"
      using more(1) by (simp add: framed_inv [OF fr] react_running)
    moreover have "c' = ShuttingDown" if "c = ShuttingDown \<or> Stop_Signal \<in> set (ao_q h)"
    proof -
      have "set es \<subseteq> set (ao_q h1)" using react_queue [of X c u ?h] by (auto simp: framed_inv [OF fr])
      with that more(2) Cons stop_reacts [OF leaf] show ?thesis
        by (auto simp: shutdown_terminal simp del: react.simps)
    qed
    ultimately show ?thesis using fin by blast
  qed
qed

lemma bridge_stop_ends:
  assumes fuel: "kMaxNest < n" and st: "hstate h = St c" and inv: "bridge_inv c h" and run: "ao_running h"
  shows "\<exists>K. \<forall>k \<ge> K. \<exists>h'. bridge_stop k n X False d h = Inr h' \<and> hstate h' = St ShuttingDown \<and>
    \<not> ao_running h' \<and> ao_q h' = [] \<and> br_in_flight h' = [] \<and> br_deferred h' = []"
proof -
  let ?h = "drain_post d (post_fifo Stop_Signal h)"
  have "hstate ?h = St c" "bridge_inv c ?h" "ao_running ?h" "Stop_Signal \<in> set (ao_q ?h)"
    using st inv run by (simp_all add: drain_post_def post_fifo_def sys_inv_fields)
  from worker_drains [OF fuel this(1,2), of X] this(3,4) obtain K h1 where
    k: "run K n (bridge_handlers X) ?h = Inr h1" "ao_q h1 = []" "hstate h1 = St ShuttingDown"
      "bridge_inv ShuttingDown h1" "ao_running h1" by auto
  have "run k n (bridge_handlers X) (h1\<lparr>ao_running := False\<rparr>) = Inr (h1\<lparr>ao_running := False\<rparr>)" for k
    using k(2) by (cases k) (simp_all add: run_step_def ao_pop_def)
  with k run have "bridge_stop k n X False d h = Inr (h1\<lparr>ao_running := False, ao_q := []\<rparr>)" if "K \<le> k" for k
    using run_mono [OF k(1) that]
    by (simp add: bridge_stop_def drain_def stop_def Let_def)
  with k show ?thesis by (intro exI [of _ K]) (auto simp: bridge_inv_def)
qed

section \<open>Fences\<close>

text \<open>\<open>k\<close> iterations of the worker.\<close>

fun work_n :: "nat \<Rightarrow> nat \<Rightarrow> 'j bridge_ext \<Rightarrow> 'j modem_bridge \<Rightarrow> 'j modem_bridge result" where
  "work_n 0 n X h = Inr h"
| "work_n (Suc k) n X h = bindE (run_step n (bridge_handlers X) h) (\<lambda>(_, h). work_n k n X h)"

lemma work_Cons:
  assumes "kMaxNest < n" "hstate h = St c" "bridge_inv c h" "ao_q h = u # es"
  obtains h1 where "\<forall>k. work_n (Suc k) n X h = work_n k n X h1"
    "hstate h1 = St (fst (react X c u (h\<lparr>ao_q := es\<rparr>)))"
    "framed (snd (react X c u (h\<lparr>ao_q := es\<rparr>))) h1" "bridge_inv (fst (react X c u (h\<lparr>ao_q := es\<rparr>))) h1"
    "\<exists>ys. ao_q h1 = es @ ys"
proof -
  let ?h = "h\<lparr>ao_q := es\<rparr>"
  have b: "bridge_inv c ?h" using assms(3) by (simp add: sys_inv_fields)
  then have leaf: "leaf c" by (simp add: bridge_inv_def)
  have "hstate ?h = St c" using assms(2) by simp
  from dispatch_react [OF assms(1) this leaf, of X u] obtain h1 where
    dis: "dispatch n (bridge_handlers X) (User u) ?h = Inr h1"
    and st: "hstate h1 = St (fst (react X c u ?h))" and fr: "framed (snd (react X c u ?h)) h1" by auto
  show thesis
  proof (rule that [OF _ st fr])
    show "\<forall>k. work_n (Suc k) n X h = work_n k n X h1"
      by (simp add: run_step_def ao_pop_def assms(4) dis)
    show "bridge_inv (fst (react X c u ?h)) h1"
      using inv_react [OF b, of X u] by (simp add: framed_inv [OF fr])
    show "\<exists>ys. ao_q h1 = es @ ys" using react_queue [of X c u ?h] by (simp add: framed_inv [OF fr])
  qed
qed

lemma work_prefix:
  assumes fuel: "kMaxNest < n"
  shows "hstate h = St c \<Longrightarrow> bridge_inv c h \<Longrightarrow> ao_q h = q @ r \<Longrightarrow>
    \<exists>h' c' ys. (\<forall>k. work_n (length q + k) n X h = work_n k n X h') \<and> hstate h' = St c' \<and> bridge_inv c' h' \<and>
      ao_q h' = r @ ys"
proof (induction q arbitrary: h c r)
  case Nil
  then have "\<forall>k. work_n (length [] + k) n X h = work_n k n X h" "ao_q h = r @ []" by simp_all
  with Nil show ?case by blast
next
  case (Cons u q)
  from Cons.prems have q: "ao_q h = u # (q @ r)" by simp
  let ?r = "react X c u (h\<lparr>ao_q := q @ r\<rparr>)"
  obtain h1 where h1: "\<forall>k. work_n (Suc k) n X h = work_n k n X h1" "hstate h1 = St (fst ?r)"
      "framed (snd ?r) h1" "bridge_inv (fst ?r) h1" "\<exists>ys. ao_q h1 = (q @ r) @ ys"
    by (rule work_Cons [OF fuel Cons.prems(1,2) q, of X])
  from h1(5) obtain ys where ys: "ao_q h1 = q @ (r @ ys)" by auto
  from Cons.IH [OF h1(2,4) ys] obtain h' c' zs where
    "\<forall>k. work_n (length q + k) n X h1 = work_n k n X h'" "hstate h' = St c'" "bridge_inv c' h'"
    "ao_q h' = r @ (ys @ zs)" by auto
  moreover have "work_n (length (u # q) + k) n X h = work_n (length q + k) n X h1" for k
    using h1(1) by simp
  ultimately show ?case by fastforce
qed


lemma drain_reacts:
  "leaf c \<Longrightarrow> fst (react X c (Drain_Signal d) h) = c \<and> snd (react X c (Drain_Signal d) h) = emit (Drain_Done d) h"
  by (cases c) (simp_all add: leaf_def)

lemma unsubscribe_reacts:
  assumes "leaf c"
  shows "fst (react X c (UnsubscribeConnectivity_Signal tk) h) = c"
    "c = ShuttingDown \<or> tk \<notin> fst ` set (br_conn_obs (snd (react X c (UnsubscribeConnectivity_Signal tk) h)))"
    "fst (react X c (UnsubscribeEvent_Signal t) h) = c"
    "c = ShuttingDown \<or> t \<notin> fst ` set (br_subs (snd (react X c (UnsubscribeEvent_Signal t) h)))"
  using assms by (cases c; force simp: leaf_def dropObserver_def unsubscribeTopic_def smap_del_def Let_def)+

text \<open>
  A fence behind one more event \<open>u\<close>: the worker first takes the events queued before, then \<open>u\<close>,
  then the fence, whose completion is then the last thing it did.
\<close>

lemma fence_after:
  assumes fuel: "kMaxNest < n" and st: "hstate h = St c" and inv: "bridge_inv c h" and run: "ao_running h"
    and stay: "\<And>c h. leaf c \<Longrightarrow> fst (react X c u h) = c \<and> (c = ShuttingDown \<or> P (snd (react X c u h)))"
    and frame: "\<And>a b i l h. P (reframe a b i l h) = P h" "\<And>x h. P (emit x h) = P h" "\<And>x h. P (h\<lparr>ao_q := x\<rparr>) = P h"
  shows "\<exists>h'. work_n (length (ao_q h) + 2) n X (drain_post d (post_fifo u h)) = Inr h' \<and>
    last (br_out h') = Drain_Done d \<and> (hstate h' = St ShuttingDown \<or> P h')"
proof -
  let ?h = "drain_post d (post_fifo u h)"
  have h: "hstate ?h = St c" "bridge_inv c ?h" "ao_q ?h = ao_q h @ [u, Drain_Signal d]"
    using st inv run by (simp_all add: drain_post_def post_fifo_def sys_inv_fields)
  from work_prefix [OF fuel h, of X] obtain h1 c1 ys where
    h1: "\<forall>k. work_n (length (ao_q h) + k) n X ?h = work_n k n X h1" "hstate h1 = St c1" "bridge_inv c1 h1"
      "ao_q h1 = u # Drain_Signal d # ys" by auto
  then have leaf: "leaf c1" by (simp add: bridge_inv_def)
  let ?r = "react X c1 u (h1\<lparr>ao_q := Drain_Signal d # ys\<rparr>)"
  obtain h2 where h2: "\<forall>k. work_n (Suc k) n X h1 = work_n k n X h2" "hstate h2 = St (fst ?r)"
      "framed (snd ?r) h2" "bridge_inv (fst ?r) h2" "\<exists>zs. ao_q h2 = (Drain_Signal d # ys) @ zs"
    by (rule work_Cons [OF fuel h1(2,3,4), of X])
  have r: "fst ?r = c1" "c1 = ShuttingDown \<or> P (snd ?r)" using stay [OF leaf] by auto
  from h2(5) obtain zs where q2: "ao_q h2 = Drain_Signal d # zs" by auto
  have h2': "hstate h2 = St c1" "bridge_inv c1 h2" using h2(2,4) r(1) by simp_all
  let ?s = "react X c1 (Drain_Signal d) (h2\<lparr>ao_q := zs\<rparr>)"
  obtain h3 where h3: "\<forall>k. work_n (Suc k) n X h2 = work_n k n X h3" "hstate h3 = St (fst ?s)"
      "framed (snd ?s) h3" "bridge_inv (fst ?s) h3" "\<exists>zs'. ao_q h3 = zs @ zs'"
    by (rule work_Cons [OF fuel h2' q2, of X])
  have P2: "c1 = ShuttingDown \<or> P h2" using r(2) h2(3) by (auto simp: framed_def frame)
  have "fst ?s = c1" "snd ?s = emit (Drain_Done d) (h2\<lparr>ao_q := zs\<rparr>)" using drain_reacts [OF leaf] by auto
  then have "hstate h3 = St c1" "last (br_out h3) = Drain_Done d" "c1 = ShuttingDown \<or> P h3"
    using h3(2,3) P2 by (auto simp: framed_inv framed_def frame)
  moreover have "work_n 2 n X h1 = Inr h3" using h2(1) h3(1) by (simp add: numeral_2_eq_2 del: work_n.simps(2))
  ultimately show ?thesis using h1(1) by (auto simp del: add_2_eq_Suc')
qed

section \<open>Routing of messages\<close>

lemma dispatch_operational:
  assumes "kMaxNest < n" "hstate h = St Operational"
    and "react X Operational u h = (c', h')"
  obtains h2 where "dispatch n (bridge_handlers X) (User u) h = Inr h2" "hstate h2 = St c'" "framed h' h2"
  using dispatch_react [OF assms(1,2), of X u] assms(3) by (auto simp: leaf_def)

lemma framed_fields:
  assumes "framed h h'"
  shows "br_out h' = br_out h" "br_in_flight h' = br_in_flight h" "br_timers h' = br_timers h"
    "br_pa_id h' = br_pa_id h" "br_subs h' = br_subs h" "br_deferred h' = br_deferred h"
    "br_conn_obs h' = br_conn_obs h" "ao_q h' = ao_q h" "br_now h' = br_now h"
  using assms by (auto simp: framed_def)

lemma recv_response:
  assumes "x_parse X body = Some j" "fromJson (x_json X) j = Inr env" "env_dest env = Some (br_pa_id h)"
    "map_of (br_in_flight h) (env_corrId env) = Some fl"
  shows "recvMessage X topic body h =
    complete True (env_corrId env) (if data_invalid X (if_rsp_schema_id fl) env then None else Some env) h"
  using assms by (simp add: recvMessage_def)

lemma recv_foreign:
  assumes "x_parse X body = Some j" "fromJson (x_json X) j = Inr env" "env_dest env = Some dst" "dst \<noteq> br_pa_id h"
  shows "recvMessage X topic body h = h"
  using assms by (simp add: recvMessage_def)

lemma complete_Some:
  assumes "map_of (br_in_flight h) k = Some fl"
  shows "br_out (complete b k r h) = br_out h @ [Rpc_Called (if_cb fl) r]"
    "b \<Longrightarrow> if_timer_token fl \<noteq> 0 \<Longrightarrow> \<not> alive (br_timers (complete b k r h)) (if_timer_token fl)"
  using assms by (auto simp: complete_def Let_def bridge_closed cancel_token_def alive_cancel)

lemma send_success:
  assumes "br_now h < sr_deadline p"
    "\<not> (resolveReqSchemaId (sr_topic p) \<noteq> [] \<and> data_invalid X (resolveReqSchemaId (sr_topic p)) (sr_envelope p))"
    "\<And>xs. x_publish_rc X xs = MOSQ_ERR_SUCCESS"
    "map_of (br_in_flight h) (env_corrId (sr_envelope p)) = None"
  shows "\<exists>tk ts. schedule (Rsp_Timer (env_corrId (sr_envelope p))) (sr_deadline p) 0 (br_timers h) = (tk, ts) \<and>
    doSendRequest X p h = h\<lparr>br_timers := ts,
      br_in_flight := br_in_flight h @ [(env_corrId (sr_envelope p),
        \<lparr>if_topic = sr_topic p, if_rsp_schema_id = sr_rsp_schema_id p, if_cb = sr_cb p, if_timer_token = tk\<rparr>)],
      br_out := br_out h @ [Mosq_Publish (sr_topic p) (x_dump X (toJson (x_json X) (sr_envelope p)))]\<rparr>"
proof -
  obtain tk ts where "schedule (Rsp_Timer (env_corrId (sr_envelope p))) (sr_deadline p) 0 (br_timers h) = (tk, ts)"
    by fastforce
  with assms show ?thesis
    by (auto simp: doSendRequest_def Let_def publish_body_def emplace_def emit_def)
qed

lemma delete_appended: "k \<notin> fst ` set fs \<Longrightarrow> AList.delete k (fs @ [(k, v)]) = fs"
  by (simp add: AList.delete_eq) (force simp: filter_id_conv)

lemma request_then_response:
  assumes fuel: "kMaxNest < n" and st: "hstate h = St Operational"
    and J: "json_ok (x_json X)" and wf: "env_wf (x_json X) rsp"
    and send: "br_now h < sr_deadline p"
      "\<not> (resolveReqSchemaId (sr_topic p) \<noteq> [] \<and> data_invalid X (resolveReqSchemaId (sr_topic p)) (sr_envelope p))"
      "\<And>xs. x_publish_rc X xs = MOSQ_ERR_SUCCESS"
      "map_of (br_in_flight h) (env_corrId (sr_envelope p)) = None"
    and rsp: "rsp = makeResponseEnvelope now src (env_corrId (sr_envelope p)) (br_pa_id h) dat"
      "x_parse X body = Some (toJson (x_json X) rsp)" "\<not> data_invalid X (sr_rsp_schema_id p) rsp"
  shows "\<exists>h1 h2. dispatch n (bridge_handlers X) (User (SendReq_Signal p)) h = Inr h1 \<and>
    dispatch n (bridge_handlers X) (User (EvtRecv_Signal topic body)) h1 = Inr h2 \<and>
    br_out h2 = br_out h @ [Mosq_Publish (sr_topic p) (x_dump X (toJson (x_json X) (sr_envelope p))),
      Rpc_Called (sr_cb p) (Some rsp)] \<and>
    br_in_flight h2 = br_in_flight h"
proof -
  let ?k = "env_corrId (sr_envelope p)"
  from send_success [OF send] obtain tk ts where
    h1: "doSendRequest X p h = h\<lparr>br_timers := ts, br_in_flight := br_in_flight h @ [(?k,
        \<lparr>if_topic = sr_topic p, if_rsp_schema_id = sr_rsp_schema_id p, if_cb = sr_cb p, if_timer_token = tk\<rparr>)],
      br_out := br_out h @ [Mosq_Publish (sr_topic p) (x_dump X (toJson (x_json X) (sr_envelope p)))]\<rparr>"
    by blast
  define fl where "fl = \<lparr>if_topic = sr_topic p, if_rsp_schema_id = sr_rsp_schema_id p, if_cb = sr_cb p, if_timer_token = tk\<rparr>"
  have fl: "if_rsp_schema_id fl = sr_rsp_schema_id p" "if_cb fl = sr_cb p" by (simp_all add: fl_def)
  obtain h2 where d1: "dispatch n (bridge_handlers X) (User (SendReq_Signal p)) h = Inr h2"
    and s2: "hstate h2 = St Operational" and f2: "framed (doSendRequest X p h) h2"
    by (rule dispatch_operational [OF fuel st, of X "SendReq_Signal p"]) auto
  have fields: "br_pa_id h2 = br_pa_id h" "br_in_flight h2 = br_in_flight h @ [(?k, fl)]"
    "br_out h2 = br_out h @ [Mosq_Publish (sr_topic p) (x_dump X (toJson (x_json X) (sr_envelope p)))]"
    by (simp_all add: framed_fields [OF f2] h1 fl_def)
  have ids: "env_corrId rsp = ?k" "env_dest rsp = Some (br_pa_id h2)" by (simp_all add: rsp(1) makeResponseEnvelope_def fields)
  have look: "map_of (br_in_flight h2) (env_corrId rsp) = Some fl"
    using send(4) by (simp add: fields ids map_add_def map_of_append)
  have "recvMessage X topic body h2 = complete True ?k (Some rsp) h2"
    using recv_response [OF rsp(2) fromJson_toJson [OF J wf] ids(2) look] rsp(3) by (simp add: ids fl)
  moreover obtain h3 where d2: "dispatch n (bridge_handlers X) (User (EvtRecv_Signal topic body)) h2 = Inr h3"
    and f3: "framed (recvMessage X topic body h2) h3"
    by (rule dispatch_operational [OF fuel s2, of X "EvtRecv_Signal topic body"]) auto
  ultimately have "br_out h3 = br_out h2 @ [Rpc_Called (sr_cb p) (Some rsp)]" "br_in_flight h3 = AList.delete ?k (br_in_flight h2)"
    using complete_Some(1) [OF look] by (simp_all add: framed_fields [OF f3] ids fl)
  moreover have "AList.delete ?k (br_in_flight h2) = br_in_flight h"
    using send(4) by (simp add: fields delete_appended map_of_eq_None_iff)
  ultimately show ?thesis using d1 d2 by (simp add: fields)
qed

end
