(* ===== verification/Bridge_Spec.thy ===== *)
theory Bridge_Spec
  imports Bridge_Live
begin

text \<open>
  The properties of the modem bridge, with a concrete bridge on which they are exercised.
\<close>

section \<open>A concrete bridge\<close>

definition demo_rsp :: "jtree envelope" where
  "demo_rsp = makeResponseEnvelope 17 ''mpss'' ''0000002a'' ''pa-1'' (JObj [])"

text \<open>Every message parses, as the response \<open>demo_rsp\<close>; every schema accepts.\<close>

definition demo_ext :: "jtree bridge_ext" where
  "demo_ext = \<lparr>x_json = tree_lib, x_parse = (\<lambda>_. Some (toJson tree_lib demo_rsp)), x_dump = (\<lambda>_. ''text''),
     x_schema = (\<lambda>_ _. Some True), x_connect_rc = (\<lambda>_. 0), x_publish_rc = (\<lambda>_. 0), x_uds_socket = ''sock''\<rparr>"

definition demo_req :: "jtree send_req" where
  "demo_req = \<lparr>sr_topic = ''mp/req/tel/dial'', sr_rsp_schema_id = ''tel.dial.rsp'',
     sr_envelope = fst (makeRequestEnvelope 3 ''pa-1'' (JObj []) 42), sr_cb = 7, sr_deadline = 5000\<rparr>"

definition demo_bridge :: "jtree modem_bridge" where
  "demo_bridge = (newBridge (default_config True) ''pa-1'')\<lparr>br_client := True, ao_running := True,
     hstate := St Disconnected, htemp := St Disconnected, ao_q := [Start_Signal],
     br_out := [Mosq_Reconnect_Delay 1 30]\<rparr>"

lemma demo_started: "bridge_start 9 demo_ext True (newBridge (default_config True) ''pa-1'') = Inr demo_bridge"
proof -
  have f: "kMaxNest < 9" by (simp add: kMaxNest_def)
  have "settle bridge_par bridge_ini kMaxNest Disconnected = (Disconnected, [])" by simp
  from br.init_refines [OF f _ this, of demo_ext] show ?thesis
    by (simp add: bridge_start_def Let_def start_at_def newBridge_def trace_def emit_def reconnect_delays_def
        default_config_def post_fifo_def demo_bridge_def)
qed

definition demo_operational :: "jtree modem_bridge" where
  "demo_operational = demo_bridge\<lparr>hstate := St Operational, htemp := St Operational, ao_q := [],
     br_conn_obs := [(1, 4)]\<rparr>"

lemma fuel9 [simp]: "kMaxNest < 9"
  by (simp add: kMaxNest_def)

lemma demo_inv:
  "bridge_inv Disconnected demo_bridge" "bridge_inv Operational demo_operational"
  by (simp_all add: bridge_inv_def demo_bridge_def demo_operational_def newBridge_def leaf_def flight_ok_def smap_ok_def armed_def)

lemma demo_operational_sel:
  "hstate demo_operational = St Operational" "ao_running demo_operational" "ao_q demo_operational = []"
  "br_in_flight demo_operational = []" "br_now demo_operational = 0" "br_pa_id demo_operational = ''pa-1''"
  by (simp_all add: demo_operational_def demo_bridge_def newBridge_def)

text \<open>A reachable state: the request \<open>demo_req\<close> was posted behind the start signal.\<close>

definition demo_posted :: "jtree modem_bridge" where
  "demo_posted = post_fifo (SendReq_Signal demo_req) demo_bridge"

lemma demo_reach: "bridge_reach demo_ext 9 uniq [7] demo_posted"
proof -
  have q: "outstanding demo_bridge = []" by (simp add: outstanding_def demo_bridge_def newBridge_def)
  have "bridge_step demo_ext 9 uniq (req_cbs [SendReq_Signal demo_req]) demo_bridge demo_posted"
    unfolding demo_posted_def by (rule bridge_step.post) (simp add: q)
  from bridge_reach.step [OF bridge_reach.started [OF demo_started] this] show ?thesis by (simp add: demo_req_def)
qed

lemma demo_posted_sel:
  "ao_running demo_posted" "hstate demo_posted = St Disconnected"
  by (simp_all add: demo_posted_def demo_bridge_def post_fifo_def)

section \<open>The chart\<close>

text \<open>C4: dispatching an event through \<open>Hsm::dispatch\<close> with the bridge's handlers computes the
  reference semantics of the hierarchical chart: the event is offered from the active leaf
  outwards, a transition exits to the common ancestor, enters the target and follows initial
  transitions.\<close>

theorem bridge_dispatch_is_uml:
  assumes "kMaxNest < n" "hstate h = St c"
  shows "dispatch n (bridge_handlers X) (User u) h =
    uml_dispatch bridge_par bridge_ini (bridge_en X) bridge_ex (bridge_handlers X) u c h"
  using assms by (rule br.dispatch_refines)

theorem bridge_dispatch_is_uml_witness:
  "kMaxNest < 9 \<and> hstate demo_operational = St Operational \<and>
   dispatch 9 (bridge_handlers demo_ext) (User (LinkDown_Signal (-1))) demo_operational =
     uml_dispatch bridge_par bridge_ini (bridge_en demo_ext) bridge_ex (bridge_handlers demo_ext)
       (LinkDown_Signal (-1)) Operational demo_operational"
  using bridge_dispatch_is_uml [of 9 demo_operational Operational demo_ext "LinkDown_Signal (-1)"]
  by (simp add: demo_operational_def)

text \<open>C6: dispatch never fails and follows the flat transition table \<open>react\<close>: it ends in the leaf
  the table names, with the data the table computes (only the bookkeeping fields of \<open>Hsm\<close> may
  differ).\<close>

theorem bridge_dispatch_is_table:
  assumes "kMaxNest < n" "hstate h = St c" "leaf c"
  shows "\<exists>h'. dispatch n (bridge_handlers X) (User u) h = Inr h' \<and>
    hstate h' = St (fst (react X c u h)) \<and> framed (snd (react X c u h)) h'"
  using assms by (rule dispatch_react)

theorem bridge_dispatch_is_table_witness:
  "leaf Operational \<and> (\<exists>h'. dispatch 9 (bridge_handlers demo_ext) (User (LinkDown_Signal (-1))) demo_operational = Inr h' \<and>
     hstate h' = St Backoff)"
  using bridge_dispatch_is_table [of 9 demo_operational Operational demo_ext "LinkDown_Signal (-1)"]
  by (auto simp: demo_operational_def leaf_def)

section \<open>Reachable states\<close>

text \<open>C7: in every reachable state the bridge rests in a leaf of its chart, requests are in flight
  only in \<open>Operational\<close>, correlation ids are unique in the table, only requests and one-way
  messages are deferred and only while connecting, subscribing or in backoff, and the connect
  watchdog is armed exactly in \<open>Connecting\<close>.\<close>

theorem bridge_invariant:
  assumes "bridge_reach X n uniq iss h" "kMaxNest < n"
  shows "\<exists>c. hstate h = St c \<and> bridge_inv c h"
  using sys_inv_reach [OF assms] by (simp add: sys_inv_def)

theorem bridge_invariant_witness:
  "bridge_reach demo_ext 9 True [7] demo_posted \<and> (\<exists>c. hstate demo_posted = St c \<and> bridge_inv c demo_posted)"
  using demo_reach bridge_invariant [OF demo_reach fuel9] by blast

text \<open>C2: no request callback is ever invoked twice: the callbacks invoked so far are, with
  multiplicity, among those handed to \<open>send_request\<close>.\<close>

theorem callback_at_most_once:
  assumes "bridge_reach X n uniq iss h" "kMaxNest < n"
  shows "mset (called_cbs (br_out h)) \<subseteq># mset iss"
proof -
  have "mset (called_cbs (br_out h)) \<subseteq># account h" by (simp add: account_def)
  then show ?thesis using account_reach [OF assms] by (rule subset_mset.order_trans)
qed

theorem callback_at_most_once_witness:
  "bridge_reach demo_ext 9 False [7] demo_posted \<and> mset (called_cbs (br_out demo_posted)) \<subseteq># mset [7]"
  using demo_reach callback_at_most_once [OF demo_reach fuel9] by blast

text \<open>C1: no request callback is lost: as long as the bridge runs and has not entered
  \<open>ShuttingDown\<close>, and clients use fresh correlation ids, every callback handed over was invoked
  or is still held, exactly once, by the table in flight, the deferred events or the queue.\<close>

theorem callback_never_lost:
  assumes "bridge_reach X n True iss h" "kMaxNest < n" "ao_running h" "hstate h \<noteq> St ShuttingDown"
  shows "mset iss = mset (called_cbs (br_out h)) + mset (flight_cbs (br_in_flight h)) +
    mset (req_cbs (br_deferred h)) + mset (req_cbs (ao_q h))"
  using account_reach_eq [OF assms(1,2)] assms(3,4) by (simp add: account_def)

theorem callback_never_lost_witness:
  "bridge_reach demo_ext 9 True [7] demo_posted \<and>
   mset [7] = mset (called_cbs (br_out demo_posted)) + mset (flight_cbs (br_in_flight demo_posted)) +
     mset (req_cbs (br_deferred demo_posted)) + mset (req_cbs (ao_q demo_posted))"
  using demo_reach callback_never_lost [OF demo_reach fuel9] demo_posted_sel by simp

text \<open>C3: no request in flight is stranded: while the bridge runs, each one is supervised by a live
  item of the timer service (or one whose function is running), or its timeout is queued.\<close>

theorem requests_in_flight_watched:
  assumes "bridge_reach X n uniq iss h" "kMaxNest < n" "ao_running h" "(k, fl) \<in> set (br_in_flight h)"
  shows "watches (br_timers h) k (if_timer_token fl) \<or> RspTimeout_Signal k \<in> set (ao_q h)"
  using sys_inv_reach [OF assms(1,2)] assms(3,4) by (auto simp: sys_inv_def watched_def)

text \<open>A run that brings the concrete bridge up and sends one request.\<close>

definition demo_at :: "bstate \<Rightarrow> nat list \<Rightarrow> jtree bridge_event list \<Rightarrow> nat \<Rightarrow> jtree modem_bridge \<Rightarrow> bool" where
  "demo_at c iss q m h \<longleftrightarrow> bridge_reach demo_ext 9 True iss h \<and> hstate h = St c \<and> leaf c \<and> ao_q h = q \<and>
     ao_running h \<and> br_in_flight h = [] \<and> br_deferred h = [] \<and> ts_next (br_timers h) = m \<and> br_now h = 0"

lemma demo_post:
  "demo_at c iss q m h \<Longrightarrow> set (req_corrs [u]) \<inter> set (req_corrs q) = {} \<Longrightarrow>
   demo_at c (iss @ req_cbs [u]) (q @ [u]) m (post_fifo u h)"
  using bridge_reach.step [OF _ bridge_step.post [of True u h demo_ext 9], of iss]
  by (simp add: demo_at_def outstanding_def post_fifo_def)

lemma demo_work:
  assumes "demo_at c iss (u # es) m h" "m < 1000"
  shows "\<exists>h'. bridge_reach demo_ext 9 True iss h' \<and> hstate h' = St (fst (react demo_ext c u (h\<lparr>ao_q := es\<rparr>))) \<and>
    framed (snd (react demo_ext c u (h\<lparr>ao_q := es\<rparr>))) h'"
proof -
  from assms have h: "hstate (h\<lparr>ao_q := es\<rparr>) = St c" "leaf c" "ao_q h = u # es" "bridge_reach demo_ext 9 True iss h"
    "ts_next (br_timers h) + 1 < 2 ^ 64" by (simp_all add: demo_at_def)
  from dispatch_react [OF fuel9 h(1,2), of demo_ext u] obtain h' where
    d: "dispatch 9 (bridge_handlers demo_ext) (User u) (h\<lparr>ao_q := es\<rparr>) = Inr h'"
    and h': "hstate h' = St (fst (react demo_ext c u (h\<lparr>ao_q := es\<rparr>)))"
      "framed (snd (react demo_ext c u (h\<lparr>ao_q := es\<rparr>))) h'" by auto
  have "run_step 9 (bridge_handlers demo_ext) h = Inr (Dispatched, h')"
    using d by (simp add: run_step_def ao_pop_def h(3))
  from bridge_reach.step [OF h(4) bridge_step.work [OF this h(5)]] h' show ?thesis by auto
qed

lemma demo_connecting:
  "ao_q (enterConnecting demo_ext h) = ao_q h" "ao_running (enterConnecting demo_ext h) = ao_running h"
  "br_now (enterConnecting demo_ext h) = br_now h"
  "ts_next (br_timers (enterConnecting demo_ext h)) = next_token (ts_next (br_timers h))"
  by (simp_all add: enterConnecting_def Let_def demo_ext_def MOSQ_ERR_SUCCESS_def arm_one_shot_def disarm_def
      schedule_def split: option.splits)

lemma demo_exit:
  "br_now (exitConnecting h) = br_now h" "ts_next (br_timers (exitConnecting h)) = ts_next (br_timers h)"
  by (simp_all add: exitConnecting_def disarm_def split: option.splits)

lemma demo_corrId: "env_corrId (sr_envelope demo_req) = ''0000002a''"
proof -
  have "hex_n 8 42 = ''0000002a''" by code_simp
  then show ?thesis by (simp add: demo_req_def makeRequestEnvelope_def nextCorrId_def)
qed

lemma demo_send:
  assumes "br_now h = 0" "map_of (br_in_flight h) ''0000002a'' = None"
  shows "map_of (br_in_flight (doSendRequest demo_ext demo_req h)) ''0000002a'' \<noteq> None"
proof -
  have "br_now h < sr_deadline demo_req" "\<And>xs. x_publish_rc demo_ext xs = MOSQ_ERR_SUCCESS"
    using assms by (simp_all add: demo_req_def demo_ext_def MOSQ_ERR_SUCCESS_def)
  moreover have "\<not> data_invalid demo_ext i e" for i e
    by (simp add: data_invalid_def validate_def demo_ext_def split: option.splits)
  ultimately show ?thesis using send_success [of h demo_req demo_ext] assms(2) by (auto simp: demo_corrId map_add_def)
qed

lemma demo_up: "\<exists>h. demo_at Operational [7] [SendReq_Signal demo_req] 1 h"
proof -
  have "demo_at Disconnected [] [Start_Signal] 0 demo_bridge"
    using bridge_reach.started [OF demo_started]
    by (simp add: demo_at_def demo_bridge_def newBridge_def leaf_def timer_init_def)
  from demo_work [OF this] obtain h1 where r1: "bridge_reach demo_ext 9 True [] h1" "hstate h1 = St Connecting"
    and f1: "framed (enterConnecting demo_ext (demo_bridge\<lparr>ao_q := []\<rparr>)) h1" by (auto simp: goto_def)
  have "demo_at Connecting [] [] 1 h1"
    using r1 by (simp add: demo_at_def leaf_def framed_inv [OF f1] framed_fields [OF f1] demo_connecting)
      (simp add: demo_bridge_def newBridge_def timer_init_def next_token_def)
  from demo_post [OF this, of "LinkUp_Signal 0"]
  have h2: "demo_at Connecting [] [LinkUp_Signal 0] 1 (post_fifo (LinkUp_Signal 0) h1)" by simp
  let ?h2 = "(post_fifo (LinkUp_Signal 0) h1)\<lparr>ao_q := [], br_failures := 0\<rparr>"
  from demo_work [OF h2] obtain h3 where r3: "bridge_reach demo_ext 9 True [] h3" "hstate h3 = St Subscribing"
    and f3: "framed (post_fifo AllSubAcked_Signal (issueAllSubscribes (exitConnecting ?h2))) h3"
    by (auto simp: goto_def)
  have h3: "demo_at Subscribing [] [AllSubAcked_Signal] 1 h3"
    using r3 h2 by (simp add: demo_at_def leaf_def framed_inv [OF f3] framed_fields [OF f3] bridge_closed demo_exit)
  from demo_work [OF h3] obtain h4 where r4: "bridge_reach demo_ext 9 True [] h4" "hstate h4 = St Operational"
    and f4: "framed (enterOperational (h3\<lparr>ao_q := []\<rparr>)) h4" by (auto simp: goto_def)
  have "demo_at Operational [] [] 1 h4"
    using r4 h3 by (simp add: demo_at_def leaf_def framed_inv [OF f4] framed_fields [OF f4] bridge_closed)
  from demo_post [OF this, of "SendReq_Signal demo_req"] show ?thesis by (auto simp: demo_req_def)
qed

theorem requests_in_flight_watched_witness:
  "\<exists>h fl. bridge_reach demo_ext 9 True [7] h \<and> (''0000002a'', fl) \<in> set (br_in_flight h) \<and>
    (watches (br_timers h) ''0000002a'' (if_timer_token fl) \<or> RspTimeout_Signal ''0000002a'' \<in> set (ao_q h))"
proof -
  obtain h where h: "demo_at Operational [7] [SendReq_Signal demo_req] 1 h" using demo_up by blast
  from demo_work [OF this] obtain h' where r: "bridge_reach demo_ext 9 True [7] h'"
    and f: "framed (doSendRequest demo_ext demo_req (h\<lparr>ao_q := []\<rparr>)) h'" by auto
  have "map_of (br_in_flight h') ''0000002a'' \<noteq> None" "ao_running h'"
    using h demo_send [of "h\<lparr>ao_q := []\<rparr>"] by (simp_all add: framed_inv [OF f] framed_fields [OF f] demo_at_def)
  then obtain fl where fl: "(''0000002a'', fl) \<in> set (br_in_flight h')" by (auto dest: map_of_SomeD)
  with requests_in_flight_watched [OF r fuel9 \<open>ao_running h'\<close> fl] r show ?thesis by blast
qed

section \<open>Progress\<close>

text \<open>C9: left alone, the worker empties its queue in finitely many events, whatever is queued and
  deferred, and goes back to waiting in a consistent state.\<close>

theorem worker_empties_queue:
  assumes "kMaxNest < n" "hstate h = St c" "bridge_inv c h"
  shows "\<exists>k h' c'. run k n (bridge_handlers X) h = Inr h' \<and> ao_q h' = [] \<and> hstate h' = St c' \<and> bridge_inv c' h'"
  using worker_drains [OF assms, of X] by blast

theorem worker_empties_queue_witness:
  "bridge_inv Disconnected demo_bridge \<and>
   (\<exists>k h'. run k 9 (bridge_handlers demo_ext) demo_bridge = Inr h' \<and> ao_q h' = [])"
proof -
  have "hstate demo_bridge = St Disconnected" by (simp add: demo_bridge_def)
  from worker_empties_queue [OF fuel9 this demo_inv(1), of demo_ext] demo_inv(1) show ?thesis by blast
qed

text \<open>C8: \<open>ModemBridge::stop\<close>, called from another thread, always returns; the bridge then rests in
  \<open>ShuttingDown\<close>, not running, with nothing queued, deferred or in flight.\<close>

theorem bridge_stop_returns:
  assumes "kMaxNest < n" "hstate h = St c" "bridge_inv c h" "ao_running h"
  shows "\<exists>K. \<forall>k \<ge> K. \<exists>h'. bridge_stop k n X False d h = Inr h' \<and> hstate h' = St ShuttingDown \<and>
    \<not> ao_running h' \<and> ao_q h' = [] \<and> br_in_flight h' = [] \<and> br_deferred h' = []"
  using assms by (rule bridge_stop_ends)

theorem bridge_stop_returns_witness:
  "\<exists>k h'. bridge_stop k 9 demo_ext False 1 demo_operational = Inr h' \<and> hstate h' = St ShuttingDown"
proof -
  have "hstate demo_operational = St Operational" "ao_running demo_operational"
    by (simp_all add: demo_operational_def demo_bridge_def)
  from bridge_stop_returns [OF fuel9 this(1) demo_inv(2) this(2), of demo_ext 1] show ?thesis by blast
qed

text \<open>\<open>stop\<close> of an active object does not discard pending events: the worker dispatches every
  queued event, in order, before it returns, and only then is the queue cleared.\<close>

theorem stop_dispatches_pending:
  assumes "kMaxNest < n" "hstate h = St c" "ao_running h" "length (ao_q h) \<le> k"
  shows "stop k n (bridge_handlers X) False h =
    bindE (dispatch_all n (bridge_handlers X) (ao_q h) (h\<lparr>ao_running := False\<rparr>)) (\<lambda>h. Inr (h\<lparr>ao_q := []\<rparr>))"
  using assms by (rule br.stop_drains)

theorem stop_dispatches_pending_witness:
  "ao_q demo_posted = [Start_Signal, SendReq_Signal demo_req] \<and>
   stop 2 9 (bridge_handlers demo_ext) False demo_posted =
    bindE (dispatch_all 9 (bridge_handlers demo_ext) [Start_Signal, SendReq_Signal demo_req]
      (demo_posted\<lparr>ao_running := False\<rparr>)) (\<lambda>h. Inr (h\<lparr>ao_q := []\<rparr>))"
proof -
  have q: "ao_q demo_posted = [Start_Signal, SendReq_Signal demo_req]"
    by (simp add: demo_posted_def demo_bridge_def post_fifo_def)
  with stop_dispatches_pending [OF fuel9 demo_posted_sel(2,1), of 2 demo_ext] show ?thesis by simp
qed

section \<open>Fences\<close>

text \<open>Withdrawing a connectivity observer and draining is a fence: when \<open>drain\<close> is released,
  everything queued before was handled and the observer is gone from the table (or the bridge is
  shutting down, where observers are not called any more).\<close>

theorem observer_fence:
  assumes "kMaxNest < n" "hstate h = St c" "bridge_inv c h" "ao_running h" "tk \<noteq> 0"
  shows "\<exists>h'. work_n (length (ao_q h) + 2) n X (drain_post d (unsubscribe_connectivity tk h)) = Inr h' \<and>
    last (br_out h') = Drain_Done d \<and>
    (hstate h' = St ShuttingDown \<or> tk \<notin> fst ` set (br_conn_obs h'))"
  unfolding unsubscribe_connectivity_def if_not_P [OF assms(5)]
  by (rule fence_after [OF assms(1-4)], rule conjI, erule unsubscribe_reacts(1), erule unsubscribe_reacts(2)) simp_all

theorem observer_fence_witness:
  "\<exists>h'. work_n 2 9 demo_ext (drain_post 5 (unsubscribe_connectivity 1 demo_operational)) = Inr h' \<and>
    last (br_out h') = Drain_Done 5 \<and> (hstate h' = St ShuttingDown \<or> 1 \<notin> fst ` set (br_conn_obs h'))"
  using observer_fence [OF fuel9 demo_operational_sel(1) demo_inv(2) demo_operational_sel(2), of 1 demo_ext 5]
  by (simp add: demo_operational_sel eval_nat_numeral del: work_n.simps)

text \<open>The same fence for an event subscription: after \<open>unsubscribe_event\<close> and \<open>drain\<close> the topic
  is not in the table, so its callback cannot be reached any more.\<close>

theorem subscription_fence:
  assumes "kMaxNest < n" "hstate h = St c" "bridge_inv c h" "ao_running h"
  shows "\<exists>h'. work_n (length (ao_q h) + 2) n X (drain_post d (unsubscribe_event t h)) = Inr h' \<and>
    last (br_out h') = Drain_Done d \<and>
    (hstate h' = St ShuttingDown \<or> t \<notin> fst ` set (br_subs h'))"
  unfolding unsubscribe_event_def
  by (rule fence_after [OF assms], rule conjI, erule unsubscribe_reacts(3), erule unsubscribe_reacts(4)) simp_all

theorem subscription_fence_witness:
  "\<exists>h'. work_n 2 9 demo_ext (drain_post 5 (unsubscribe_event ''mp/ind/x'' demo_operational)) = Inr h' \<and>
    last (br_out h') = Drain_Done 5 \<and> (hstate h' = St ShuttingDown \<or> ''mp/ind/x'' \<notin> fst ` set (br_subs h'))"
  using subscription_fence [OF fuel9 demo_operational_sel(1) demo_inv(2) demo_operational_sel(2), of demo_ext 5 "''mp/ind/x''"]
  by (simp add: demo_operational_sel eval_nat_numeral del: work_n.simps)

section \<open>Requests and responses\<close>

text \<open>C5: a request sent while \<open>Operational\<close> is published once, and the peer's response envelope for
  it, received as JSON text, is handed to the request's callback as the very envelope the peer
  built; the table of requests in flight is back to what it was.\<close>

theorem request_gets_its_response:
  assumes "kMaxNest < n" "hstate h = St Operational" "json_ok (x_json X)" "env_wf (x_json X) rsp"
    and "br_now h < sr_deadline p"
      "\<not> (resolveReqSchemaId (sr_topic p) \<noteq> [] \<and> data_invalid X (resolveReqSchemaId (sr_topic p)) (sr_envelope p))"
      "\<And>xs. x_publish_rc X xs = MOSQ_ERR_SUCCESS"
      "map_of (br_in_flight h) (env_corrId (sr_envelope p)) = None"
    and "rsp = makeResponseEnvelope now src (env_corrId (sr_envelope p)) (br_pa_id h) dat"
      "x_parse X body = Some (toJson (x_json X) rsp)" "\<not> data_invalid X (sr_rsp_schema_id p) rsp"
  shows "\<exists>h1 h2. dispatch n (bridge_handlers X) (User (SendReq_Signal p)) h = Inr h1 \<and>
    dispatch n (bridge_handlers X) (User (EvtRecv_Signal topic body)) h1 = Inr h2 \<and>
    br_out h2 = br_out h @ [Mosq_Publish (sr_topic p) (x_dump X (toJson (x_json X) (sr_envelope p))),
      Rpc_Called (sr_cb p) (Some rsp)] \<and>
    br_in_flight h2 = br_in_flight h"
  by (rule request_then_response [OF assms])

theorem request_gets_its_response_witness:
  "\<exists>h1 h2. dispatch 9 (bridge_handlers demo_ext) (User (SendReq_Signal demo_req)) demo_operational = Inr h1 \<and>
    dispatch 9 (bridge_handlers demo_ext) (User (EvtRecv_Signal ''mp/rsp/tel/dial'' ''text'')) h1 = Inr h2 \<and>
    br_out h2 = br_out demo_operational @ [Mosq_Publish ''mp/req/tel/dial'' ''text'', Rpc_Called 7 (Some demo_rsp)] \<and>
    br_in_flight h2 = []"
proof -
  have X: "x_json demo_ext = tree_lib" "x_parse demo_ext b = Some (toJson tree_lib demo_rsp)"
    "x_publish_rc demo_ext xs = MOSQ_ERR_SUCCESS" "\<not> data_invalid demo_ext i e" "x_dump demo_ext j = ''text''" for b xs i e j
    by (simp_all add: demo_ext_def data_invalid_def validate_def MOSQ_ERR_SUCCESS_def split: option.splits)
  have wf: "env_wf tree_lib demo_rsp"
    by (simp add: env_wf_def demo_rsp_def makeResponseEnvelope_def tree_lib_def)
  have "demo_rsp = makeResponseEnvelope 17 ''mpss'' (env_corrId (sr_envelope demo_req)) (br_pa_id demo_operational) (JObj [])"
    by (simp add: demo_rsp_def demo_corrId demo_operational_sel)
  from request_gets_its_response [of 9 demo_operational demo_ext, OF fuel9 demo_operational_sel(1) _ _ _ _ _ _ this,
      of "''text''" "''mp/rsp/tel/dial''"]
  show ?thesis by (simp add: X wf tree_lib_ok demo_operational_sel) (simp add: demo_req_def)
qed

text \<open>A response addressed to another process changes nothing, even when its correlation id is
  one of ours: the destination is compared before the table is looked up.\<close>

theorem foreign_response_ignored:
  assumes "kMaxNest < n" "hstate h = St Operational" "x_parse X body = Some j" "fromJson (x_json X) j = Inr env"
    "env_dest env = Some dst" "dst \<noteq> br_pa_id h"
  shows "\<exists>h'. dispatch n (bridge_handlers X) (User (EvtRecv_Signal topic body)) h = Inr h' \<and>
    hstate h' = St Operational \<and> framed h h'"
  using dispatch_react [OF assms(1,2), of X "EvtRecv_Signal topic body"] recv_foreign [OF assms(3-6), of topic]
  by (simp add: leaf_def)

theorem foreign_response_ignored_witness:
  "\<exists>h'. dispatch 9 (bridge_handlers demo_ext) (User (EvtRecv_Signal ''mp/rsp/x'' ''text''))
      (demo_operational\<lparr>br_pa_id := ''pa-2''\<rparr>) = Inr h' \<and>
    hstate h' = St Operational \<and> framed (demo_operational\<lparr>br_pa_id := ''pa-2''\<rparr>) h'"
proof -
  have wf: "env_wf tree_lib demo_rsp"
    by (simp add: env_wf_def demo_rsp_def makeResponseEnvelope_def tree_lib_def)
  have j: "fromJson (x_json demo_ext) (toJson tree_lib demo_rsp) = Inr demo_rsp"
    using fromJson_toJson [OF tree_lib_ok wf] by (simp add: demo_ext_def)
  have p: "x_parse demo_ext ''text'' = Some (toJson tree_lib demo_rsp)" by (simp add: demo_ext_def)
  have d: "env_dest demo_rsp = Some ''pa-1''" by (simp add: demo_rsp_def makeResponseEnvelope_def)
  show ?thesis
    by (rule foreign_response_ignored [OF fuel9 _ p j d]) (simp_all add: demo_operational_def)
qed

text \<open>When a request's timer fires before its response, its callback is invoked once without an
  envelope and the request leaves the table; a late timeout of a request that was answered
  changes nothing.\<close>

theorem timeout_completes_request:
  assumes "kMaxNest < n" "hstate h = St Operational"
  shows "\<exists>h'. dispatch n (bridge_handlers X) (User (RspTimeout_Signal k)) h = Inr h' \<and>
    br_in_flight h' = AList.delete k (br_in_flight h) \<and>
    br_out h' = br_out h @ (case map_of (br_in_flight h) k of None \<Rightarrow> [] | Some fl \<Rightarrow> [Rpc_Called (if_cb fl) None])"
proof -
  obtain h2 where "dispatch n (bridge_handlers X) (User (RspTimeout_Signal k)) h = Inr h2"
    and f: "framed (complete False k None h) h2"
    using dispatch_react [OF assms, of X "RspTimeout_Signal k"] by (auto simp: leaf_def)
  moreover have "br_out (complete False k None h) =
      br_out h @ (case map_of (br_in_flight h) k of None \<Rightarrow> [] | Some fl \<Rightarrow> [Rpc_Called (if_cb fl) None])"
    by (simp add: complete_def Let_def split: option.splits)
  ultimately show ?thesis by (auto simp: framed_fields [OF f])
qed

theorem timeout_completes_request_witness:
  "\<exists>h'. dispatch 9 (bridge_handlers demo_ext) (User (RspTimeout_Signal ''x'')) (demo_operational\<lparr>br_in_flight :=
      [(''x'', \<lparr>if_topic = ''t'', if_rsp_schema_id = ''s'', if_cb = 8, if_timer_token = 3\<rparr>)]\<rparr>) = Inr h' \<and>
    br_in_flight h' = [] \<and> br_out h' = br_out demo_operational @ [Rpc_Called 8 None]"
  using timeout_completes_request [of 9 "demo_operational\<lparr>br_in_flight :=
      [(''x'', \<lparr>if_topic = ''t'', if_rsp_schema_id = ''s'', if_cb = 8, if_timer_token = 3\<rparr>)]\<rparr>" demo_ext "''x''"]
  by (simp add: demo_operational_def)

section \<open>Loss of the link and shutdown\<close>

text \<open>When the link goes down in \<open>Operational\<close>, every request in flight fails exactly once, the
  table is emptied, and the bridge waits in \<open>Backoff\<close>; the observers are told twice that the
  bridge is not operational, once by the exit of \<open>Operational\<close> and once by the entry of
  \<open>Backoff\<close>.\<close>

theorem link_loss_fails_requests:
  assumes "kMaxNest < n" "hstate h = St Operational" "bridge_inv Operational h"
  shows "\<exists>h'. dispatch n (bridge_handlers X) (User (LinkDown_Signal rc)) h = Inr h' \<and> hstate h' = St Backoff \<and>
    br_in_flight h' = [] \<and>
    br_out h' = br_out h @ map (\<lambda>(token, cb). Conn_Called cb False) (br_conn_obs h) @
      map (\<lambda>cb. Rpc_Called cb None) (flight_cbs (br_in_flight h)) @
      map (\<lambda>(token, cb). Conn_Called cb False) (br_conn_obs h)"
proof -
  have d: "br_deferred h = []" using assms(3) by (auto simp: bridge_inv_def)
  obtain h2 where "dispatch n (bridge_handlers X) (User (LinkDown_Signal rc)) h = Inr h2" "hstate h2 = St Backoff"
    and f: "framed (snd (goto X Operational Backoff (bump_failures h))) h2"
    using dispatch_react [OF assms(1,2), of X "LinkDown_Signal rc"] by (auto simp: leaf_def)
  then show ?thesis
    by (auto simp: framed_fields [OF f] goto_def bridge_closed bump_failures_def d)
qed

theorem link_loss_fails_requests_witness:
  "\<exists>h'. dispatch 9 (bridge_handlers demo_ext) (User (LinkDown_Signal (-1))) demo_operational = Inr h' \<and>
    hstate h' = St Backoff \<and> br_out h' = br_out demo_operational @ [Conn_Called 4 False, Conn_Called 4 False]"
  using link_loss_fails_requests [OF fuel9 demo_operational_sel(1) demo_inv(2), of demo_ext "-1"]
  by (auto simp: demo_operational_def demo_bridge_def newBridge_def)

text \<open>\<open>ShuttingDown\<close> is final and silent: any event leaves the bridge there, calls no callback and
  nothing of libmosquitto, and only releases the waiter of a fence. In particular a request
  dispatched there never gets its callback.\<close>

theorem shutting_down_is_final:
  assumes "kMaxNest < n" "hstate h = St ShuttingDown"
  shows "\<exists>h'. dispatch n (bridge_handlers X) (User u) h = Inr h' \<and> hstate h' = St ShuttingDown \<and>
    br_out h' = br_out h @ (case u of Drain_Signal d \<Rightarrow> [Drain_Done d] | _ \<Rightarrow> []) \<and> ao_q h' = ao_q h"
proof -
  obtain h2 where "dispatch n (bridge_handlers X) (User u) h = Inr h2" "hstate h2 = St (fst (react_ShuttingDown u h))"
    and f: "framed (snd (react_ShuttingDown u h)) h2"
    using dispatch_react [OF assms, of X u] by (auto simp: leaf_def)
  then show ?thesis by (cases u) (simp_all add: framed_fields [OF f])
qed

theorem shutting_down_is_final_witness:
  "\<exists>h'. dispatch 9 (bridge_handlers demo_ext) (User (SendReq_Signal demo_req)) (demo_operational\<lparr>hstate := St ShuttingDown\<rparr>) = Inr h' \<and>
    hstate h' = St ShuttingDown \<and> br_out h' = br_out demo_operational"
  using shutting_down_is_final [of 9 "demo_operational\<lparr>hstate := St ShuttingDown\<rparr>" demo_ext "SendReq_Signal demo_req"]
  by (auto simp: demo_operational_def)

text \<open>A one-way message sent while the bridge is in \<open>Backoff\<close> is neither published nor deferred:
  no state handles it, and nothing but the \<open>ignored\<close> flag records it.\<close>

theorem oneway_dropped_in_backoff:
  assumes "kMaxNest < n" "hstate h = St Backoff"
  shows "\<exists>h'. dispatch n (bridge_handlers X) (User (PublishOneway_Signal t sid env)) h = Inr h' \<and>
    hstate h' = St Backoff \<and> br_out h' = br_out h \<and> br_deferred h' = br_deferred h \<and> ao_q h' = ao_q h"
proof -
  obtain h2 where "dispatch n (bridge_handlers X) (User (PublishOneway_Signal t sid env)) h = Inr h2"
    "hstate h2 = St Backoff" and f: "framed h h2"
    using dispatch_react [OF assms, of X "PublishOneway_Signal t sid env"] by (auto simp: leaf_def)
  then show ?thesis by (simp add: framed_fields [OF f])
qed

theorem oneway_dropped_in_backoff_witness:
  "\<exists>h'. dispatch 9 (bridge_handlers demo_ext) (User (PublishOneway_Signal ''t'' [] demo_rsp)) (demo_operational\<lparr>hstate := St Backoff\<rparr>) = Inr h' \<and>
    hstate h' = St Backoff \<and> br_deferred h' = []"
  using oneway_dropped_in_backoff [of 9 "demo_operational\<lparr>hstate := St Backoff\<rparr>" demo_ext "''t''" "[]" demo_rsp]
  by (auto simp: demo_operational_def demo_bridge_def newBridge_def)

end
