(* ===== verification/Listener_Dispatch.thy ===== *)
theory Listener_Dispatch
  imports Chart_Ao
begin

text \<open>
  \<open>component/common/ListenerDispatchAO.{hpp,cpp}\<close>: the active object on which listeners are called, so
  that a listener never blocks a manager. A listener is a weak reference, named by a number;
  \<open>ld_live\<close> is the set of those that can still be locked. The invoker is client code: the
  parameter \<open>I\<close> says whether the call throws and which listeners are alive after it.
\<close>

section \<open>Data\<close>

record dispatch_task =
  dt_listeners :: "nat list"
  dt_invoker :: "nat option"
  dt_tag :: string

datatype listener_event = DispatchTask_Signal "dispatch_task option" | Other_Signal

datatype lstate = Dispatching

record listener_ao = "(lstate, listener_event) active_object" +
  ld_live :: "nat list"
  ld_calls :: "(nat \<times> nat) list"

type_synonym invoker_sem = "nat \<Rightarrow> nat \<Rightarrow> nat list \<Rightarrow> bool \<times> nat list"

section \<open>Operations\<close>

text \<open>The loop over the listeners of a task; an exception of the invoker is swallowed.\<close>

fun invoke_all :: "invoker_sem \<Rightarrow> nat \<Rightarrow> nat list \<Rightarrow> nat list \<times> (nat \<times> nat) list \<Rightarrow> nat list \<times> (nat \<times> nat) list" where
  "invoke_all I f [] w = w"
| "invoke_all I f (l # ls) (live, calls) =
     (if l \<notin> set live then invoke_all I f ls (live, calls)
      else case I f l live of (threw, live') \<Rightarrow> invoke_all I f ls (live', calls @ [(f, l)]))"

definition run_task :: "invoker_sem \<Rightarrow> dispatch_task option \<Rightarrow> nat list \<times> (nat \<times> nat) list
    \<Rightarrow> nat list \<times> (nat \<times> nat) list" where
  "run_task I t w =
     (case t of
        None \<Rightarrow> w
      | Some t \<Rightarrow> (case dt_invoker t of None \<Rightarrow> w | Some f \<Rightarrow> invoke_all I f (dt_listeners t) w))"

fun Dispatching_St :: "invoker_sem \<Rightarrow> listener_event event \<Rightarrow> listener_ao \<Rightarrow> status \<times> listener_ao" where
  "Dispatching_St I Entry_Signal h = (HANDLED, h)"
| "Dispatching_St I Exit_Signal h = (HANDLED, h)"
| "Dispatching_St I (User (DispatchTask_Signal t)) h =
     (case run_task I t (ld_live h, ld_calls h) of (live, calls) \<Rightarrow>
        (HANDLED, h\<lparr>ld_live := live, ld_calls := calls\<rparr>))"
| "Dispatching_St I _ h = super_st Top_St h"

definition listener_handlers :: "invoker_sem \<Rightarrow> lstate \<Rightarrow> listener_event event \<Rightarrow> listener_ao
    \<Rightarrow> (status \<times> listener_ao) result" where
  "listener_handlers I s e h = Inr (Dispatching_St I e h)"

definition listener_start :: "nat \<Rightarrow> invoker_sem \<Rightarrow> listener_ao \<Rightarrow> listener_ao result" where
  "listener_start n I h =
     (if ao_running h then Inr h
      else start_at n (listener_handlers I) (St Dispatching) (h\<lparr>ao_inst := True\<rparr>))"

definition enqueue :: "dispatch_task option \<Rightarrow> listener_ao \<Rightarrow> listener_ao" where
  "enqueue task = post_fifo (DispatchTask_Signal task)"

section \<open>The chart\<close>

interpretation ld: ao_chart "listener_handlers I" "\<lambda>_. Top_St" "\<lambda>_. None" "\<lambda>_ h. h" "\<lambda>_ h. h" "\<lambda>_. False"
  for I :: invoker_sem
proof unfold_locales
  fix s :: lstate and h h' :: listener_ao and u r
  show "listener_handlers I s (User u) h = Inr (TO_SUPER, h') \<Longrightarrow> htemp h' = Top_St"
    by (cases u) (auto simp: listener_handlers_def super_st_def split: prod.splits)
  show "listener_handlers I s (User u) h = Inr (NEED_TO_TRANSFER, h') \<Longrightarrow> \<exists>t. htemp h' = St t"
    by (cases u) (auto simp: listener_handlers_def super_st_def split: prod.splits)
  show "listener_handlers I s (User u) h = Inr (r, h') \<Longrightarrow> posts_only h h'"
    by (cases u) (auto simp: listener_handlers_def super_st_def posts_only_def split: prod.splits)
qed (auto simp: listener_handlers_def super_st_def kMaxNest_def numeral_eq_Suc)

lemma listener_dispatch:
  assumes "kMaxNest < n" "hstate h = St Dispatching"
  shows "\<exists>h'. dispatch n (listener_handlers I) (User (DispatchTask_Signal t)) h = Inr h' \<and>
    hstate h' = St Dispatching \<and> ao_q h' = ao_q h \<and> ao_running h' = ao_running h \<and>
    (ld_live h', ld_calls h') = run_task I t (ld_live h, ld_calls h)"
  using ld.dispatch_refines [OF assms, of I "DispatchTask_Signal t"]
  by (simp add: uml_dispatch_def lin_def kMaxNest_def numeral_eq_Suc listener_handlers_def settle_unchanged_def
      probe_def user_signal_def Let_def split: prod.splits)

lemma listener_run:
  "kMaxNest < n \<Longrightarrow> hstate h = St Dispatching \<Longrightarrow> ao_q h = map DispatchTask_Signal ts \<Longrightarrow>
   \<exists>h'. run (length ts) n (listener_handlers I) h = Inr h' \<and> ao_q h' = [] \<and>
     (ld_live h', ld_calls h') = fold (run_task I) ts (ld_live h, ld_calls h)"
proof (induction ts arbitrary: h)
  case (Cons t ts)
  let ?h = "h\<lparr>ao_q := map DispatchTask_Signal ts\<rparr>"
  have "hstate ?h = St Dispatching" using Cons.prems by simp
  from listener_dispatch [OF Cons.prems(1) this, of I t] obtain h1 where
    d: "dispatch n (listener_handlers I) (User (DispatchTask_Signal t)) ?h = Inr h1" and
    h1: "hstate h1 = St Dispatching" "ao_q h1 = map DispatchTask_Signal ts"
      "(ld_live h1, ld_calls h1) = run_task I t (ld_live h, ld_calls h)" by auto
  from Cons.IH [OF Cons.prems(1) h1(1,2)] h1(3) Cons.prems d show ?case
    by (auto simp: run_step_def ao_pop_def)
qed simp

section \<open>Turns\<close>

text \<open>What the tasks ask for, one turn per listener of a task that has an invoker.\<close>

definition task_turns :: "dispatch_task option \<Rightarrow> (nat \<times> nat) list" where
  "task_turns t =
     (case t of
        None \<Rightarrow> []
      | Some t \<Rightarrow> (case dt_invoker t of None \<Rightarrow> [] | Some f \<Rightarrow> map (Pair f) (dt_listeners t)))"

text \<open>The listeners alive before turn \<open>i\<close>.\<close>

primrec live_at :: "invoker_sem \<Rightarrow> (nat \<times> nat) list \<Rightarrow> nat list \<Rightarrow> nat \<Rightarrow> nat list" where
  "live_at I us v 0 = v"
| "live_at I us v (Suc i) =
     (if snd (us ! i) \<in> set (live_at I us v i) then snd (I (fst (us ! i)) (snd (us ! i)) (live_at I us v i))
      else live_at I us v i)"

lemma live_at_append: "i \<le> length us \<Longrightarrow> live_at I (us @ us') v i = live_at I us v i"
  by (induction i) (auto simp: nth_append)

definition take_turn :: "invoker_sem \<Rightarrow> nat \<times> nat \<Rightarrow> nat list \<times> (nat \<times> nat) list \<Rightarrow> nat list \<times> (nat \<times> nat) list" where
  "take_turn I u w = (if snd u \<in> set (fst w) then (snd (I (fst u) (snd u) (fst w)), snd w @ [u]) else w)"

lemma invoke_all_turns: "invoke_all I f ls w = fold (take_turn I) (map (Pair f) ls) w"
  by (induction I f ls w rule: invoke_all.induct) (auto simp: take_turn_def split: prod.splits)

lemma run_task_turns: "run_task I t = fold (take_turn I) (task_turns t)"
  by (rule ext) (auto simp: run_task_def task_turns_def invoke_all_turns split: option.splits)

lemma run_tasks_turns: "fold (run_task I) ts w = fold (take_turn I) (concat (map task_turns ts)) w"
  by (induction ts arbitrary: w) (auto simp: run_task_turns)

lemma turns_taken:
  "fold (take_turn I) us (v, calls) =
     (live_at I us v (length us), calls @ [us ! i. i \<leftarrow> [0..<length us], snd (us ! i) \<in> set (live_at I us v i)])"
proof (induction us rule: rev_induct)
  case (snoc u us)
  have "[(us @ [u]) ! i. i \<leftarrow> [0..<length us], snd ((us @ [u]) ! i) \<in> set (live_at I (us @ [u]) v i)] =
      [us ! i. i \<leftarrow> [0..<length us], snd (us ! i) \<in> set (live_at I us v i)]"
    by (intro arg_cong [of _ _ concat] map_cong) (auto simp: nth_append live_at_append)
  with snoc show ?case by (auto simp: take_turn_def live_at_append)
qed simp

section \<open>Properties\<close>

text \<open>C39: the worker handles the enqueued tasks in order. Call a turn a listener of a task together with
  the task's invoker, task after task and listener after listener (a null task or one without an invoker has
  no turn), and let \<open>lv i\<close> be the listeners alive before turn \<open>i\<close>. The calls made are exactly those of the turns whose
  listener is then alive, each once and in order, and only what such a call does changes who is alive
  before the next turn; whether the call threw has no part in it.\<close>

theorem listeners_called_in_order:
  assumes "kMaxNest < n" "hstate h = St Dispatching" "ao_running h" "ao_q h = []"
    and us: "us = [(f, l). Some t \<leftarrow> ts, Some f \<leftarrow> [dt_invoker t], l \<leftarrow> dt_listeners t]"
  shows "\<exists>h' lv. run (length ts) n (listener_handlers I) (fold enqueue ts h) = Inr h' \<and> ao_q h' = [] \<and>
    lv 0 = ld_live h \<and> lv (length us) = ld_live h' \<and>
    (\<forall>i<length us. lv (Suc i) = (if snd (us ! i) \<in> set (lv i) then snd (I (fst (us ! i)) (snd (us ! i)) (lv i)) else lv i)) \<and>
    ld_calls h' = ld_calls h @ [us ! i. i \<leftarrow> [0..<length us], snd (us ! i) \<in> set (lv i)]"
proof -
  have "fold enqueue ts h = fold post_fifo (map DispatchTask_Signal ts) h"
    by (simp add: fold_map enqueue_def [abs_def] comp_def)
  also have "\<dots> = h\<lparr>ao_q := map DispatchTask_Signal ts\<rparr>"
    using fold_post_fifo [OF assms(3), of "map DispatchTask_Signal ts"] assms(4) by simp
  finally have q: "fold enqueue ts h = h\<lparr>ao_q := map DispatchTask_Signal ts\<rparr>" .
  have us: "us = concat (map task_turns ts)"
    unfolding us by (intro arg_cong [of _ _ concat] map_cong) (auto simp: task_turns_def map_eq_conv concat_map_singleton split: option.splits)
  from listener_run [OF assms(1), of "h\<lparr>ao_q := map DispatchTask_Signal ts\<rparr>" ts I] assms(2)
  obtain h' where "run (length ts) n (listener_handlers I) (fold enqueue ts h) = Inr h'" "ao_q h' = []"
    "(ld_live h', ld_calls h') = fold (take_turn I) us (ld_live h, ld_calls h)"
    by (auto simp: q run_tasks_turns us)
  then show ?thesis
    by (intro exI [of _ h'] exI [of _ "live_at I us (ld_live h)"]) (simp add: turns_taken)
qed

definition demo_listeners :: listener_ao where
  "demo_listeners = \<lparr>hstate = St Dispatching, htemp = St Dispatching, last_ignored = False, trace_fn = False,
     probe_fn = False, instr_log = [], ao_name = ''ListenerDispatchAO'', ao_inst = True, ao_q = [],
     ao_running = True, ld_live = [1, 3], ld_calls = []\<rparr>"

theorem listeners_called_in_order_witness:
  "\<exists>h'. run 1 9 (listener_handlers (\<lambda>_ _ live. (True, live)))
      (fold enqueue [Some \<lparr>dt_listeners = [1, 2, 3], dt_invoker = Some 8, dt_tag = ''t''\<rparr>] demo_listeners) = Inr h' \<and>
    ld_calls h' = [(8, 1), (8, 3)]"
proof -
  let ?us = "[(8, 1), (8, 2), (8, 3)] :: (nat \<times> nat) list"
  let ?ts = "[Some \<lparr>dt_listeners = [1, 2, 3], dt_invoker = Some 8, dt_tag = ''t''\<rparr>]"
  let ?I = "\<lambda>_ _ live. (True, live)"
  have "kMaxNest < 9" "hstate demo_listeners = St Dispatching" "ao_running demo_listeners" "ao_q demo_listeners = []"
    "?us = [(f, l). Some t \<leftarrow> ?ts, Some f \<leftarrow> [dt_invoker t], l \<leftarrow> dt_listeners t]"
    by (simp_all add: kMaxNest_def demo_listeners_def)
  from listeners_called_in_order [OF this, of ?I] obtain h' lv where
    r: "run (length ?ts) 9 (listener_handlers ?I) (fold enqueue ?ts demo_listeners) = Inr h'" and
    lv: "lv 0 = ld_live demo_listeners" "\<forall>i<length ?us. lv (Suc i) = (if snd (?us ! i) \<in> set (lv i) then snd (True, lv i) else lv i)" and
    c: "ld_calls h' = ld_calls demo_listeners @ [?us ! i. i \<leftarrow> [0..<length ?us], snd (?us ! i) \<in> set (lv i)]"
    by blast
  have s: "lv (Suc i) = lv i" if "i < 3" for i using lv(2) that by simp
  have "lv 0 = [1, 3]" "lv (Suc 0) = [1, 3]" "lv (Suc (Suc 0)) = [1, 3]"
    using lv(1) s [of 0] s [of 1] by (simp_all add: demo_listeners_def)
  with c have "ld_calls h' = [(8, 1), (8, 3)]" by (simp add: demo_listeners_def)
  with r show ?thesis by (simp only: list.size) auto
qed

end
