(* ===== verification/Init_Gate.thy ===== *)
theory Init_Gate
  imports Simula_Prelude "HOL-Library.Multiset"
begin

text \<open>
  \<open>component/common/InitCallbackGate.hpp\<close>: initialisation callbacks are held until the owner first
  becomes ready; later ones are called at once. Callbacks are values of a type \<open>'c\<close>; \<open>gate_calls\<close>
  records the invocations with their argument. A null \<open>std::function\<close> is \<open>None\<close>.
\<close>

datatype service_status = SERVICE_UNAVAILABLE | SERVICE_AVAILABLE | SERVICE_FAILED

record 'c init_gate =
  gate_cbs :: "'c list"
  gate_fired :: bool
  gate_status :: service_status
  gate_calls :: "('c \<times> service_status) list"

definition gate_new :: "'c option \<Rightarrow> 'c init_gate" where
  "gate_new cb = \<lparr>gate_cbs = (case cb of None \<Rightarrow> [] | Some c \<Rightarrow> [c]), gate_fired = False,
     gate_status = SERVICE_UNAVAILABLE, gate_calls = []\<rparr>"

definition gate_add :: "'c option \<Rightarrow> 'c init_gate \<Rightarrow> 'c init_gate" where
  "gate_add cb g =
     (case cb of
        None \<Rightarrow> g
      | Some c \<Rightarrow>
          if \<not> gate_fired g then g\<lparr>gate_cbs := gate_cbs g @ [c]\<rparr>
          else g\<lparr>gate_calls := gate_calls g @ [(c, gate_status g)]\<rparr>)"

definition markReadyAndFire :: "service_status \<Rightarrow> 'c init_gate \<Rightarrow> bool \<times> 'c init_gate" where
  "markReadyAndFire st g =
     (if gate_fired g then (False, g)
      else (True, g\<lparr>gate_fired := True, gate_status := st, gate_cbs := [],
                    gate_calls := gate_calls g @ map (\<lambda>c. (c, st)) (gate_cbs g)\<rparr>))"

section \<open>Runs\<close>

datatype 'c gate_op = Add "'c option" | MarkReady service_status

fun gate_step :: "'c gate_op \<Rightarrow> 'c init_gate \<Rightarrow> 'c init_gate" where
  "gate_step (Add cb) g = gate_add cb g"
| "gate_step (MarkReady st) g = snd (markReadyAndFire st g)"

definition gate_run :: "'c gate_op list \<Rightarrow> 'c init_gate \<Rightarrow> 'c init_gate" where
  "gate_run ops g = fold gate_step ops g"

fun added :: "'c gate_op list \<Rightarrow> 'c list" where
  "added [] = []"
| "added (Add (Some c) # ops) = c # added ops"
| "added (_ # ops) = added ops"

text \<open>The status of the first \<open>MarkReady\<close>, if any.\<close>

fun first_ready :: "'c gate_op list \<Rightarrow> service_status option" where
  "first_ready [] = None"
| "first_ready (MarkReady st # ops) = Some st"
| "first_ready (Add _ # ops) = first_ready ops"

lemma gate_run_fired:
  "gate_fired g \<Longrightarrow>
   gate_fired (gate_run ops g) \<and> gate_cbs (gate_run ops g) = gate_cbs g \<and>
   gate_calls (gate_run ops g) = gate_calls g @ map (\<lambda>c. (c, gate_status g)) (added ops)"
proof (induction ops arbitrary: g)
  case (Cons a ops)
  then show ?case
    by (cases a) (auto simp: gate_run_def gate_add_def markReadyAndFire_def split: option.splits)
qed (simp add: gate_run_def)

lemma gate_run_pending:
  "\<not> gate_fired g \<Longrightarrow> gate_calls g = [] \<Longrightarrow>
   (case first_ready ops of
      None \<Rightarrow> gate_calls (gate_run ops g) = [] \<and> gate_cbs (gate_run ops g) = gate_cbs g @ added ops
    | Some st \<Rightarrow> gate_cbs (gate_run ops g) = [] \<and>
        gate_calls (gate_run ops g) = map (\<lambda>c. (c, st)) (gate_cbs g @ added ops))"
proof (induction ops arbitrary: g)
  case (Cons a ops)
  show ?case
  proof (cases a)
    case (Add cb)
    with Cons show ?thesis
      by (cases cb) (auto simp: gate_run_def gate_add_def split: option.splits)
  next
    case (MarkReady st)
    with Cons.prems gate_run_fired [of "snd (markReadyAndFire st g)" ops] show ?thesis
      by (simp add: gate_run_def markReadyAndFire_def)
  qed
qed (simp add: gate_run_def)

section \<open>Properties\<close>

text \<open>An initialisation callback handed to the gate, at construction or later, is invoked
  exactly once as soon as the gate has been marked ready, with the status of the first
  \<open>markReadyAndFire\<close>, in the order of registration; before that none is.\<close>

theorem gate_calls_each_once:
  "gate_calls (gate_run ops (gate_new cb)) =
     (case first_ready ops of
        None \<Rightarrow> []
      | Some st \<Rightarrow> map (\<lambda>c. (c, st)) ((case cb of None \<Rightarrow> [] | Some c \<Rightarrow> [c]) @ added ops))"
  using gate_run_pending [of "gate_new cb" ops] by (auto simp: gate_new_def split: option.splits)

end
