(* ===== verification/Ready_Shell.thy ===== *)
theory Ready_Shell
  imports Chart_Ao Envelope Init_Gate
begin

text \<open>
  The two-state chart \<open>NotReady\<close>/\<open>Ready\<close> that the managers share, as an interface: which events
  raise and which withdraw readiness. What a manager reports as its service status is then a
  function of the events it has handled.
\<close>

datatype rstate = NotReady | Ready

definition track :: "('u \<Rightarrow> bool) \<Rightarrow> ('u \<Rightarrow> bool) \<Rightarrow> 'u \<Rightarrow> rstate \<Rightarrow> rstate" where
  "track up down u s =
     (case s of NotReady \<Rightarrow> if up u then Ready else NotReady | Ready \<Rightarrow> if down u then NotReady else Ready)"

text \<open>What \<open>f\<close> says of each event and of the state it is handled in, along a run.\<close>

fun along :: "('u \<Rightarrow> rstate \<Rightarrow> rstate) \<Rightarrow> (rstate \<Rightarrow> 'u \<Rightarrow> 'b list) \<Rightarrow> rstate \<Rightarrow> 'u list \<Rightarrow> 'b list" where
  "along tr f s [] = []"
| "along tr f s (u # us) = f s u @ along tr f (tr u s) us"

text \<open>The object without the fields that belong to \<open>Hsm\<close>.\<close>

definition erase :: "('s, 'u, 'z) active_object_scheme \<Rightarrow> ('s, 'u, 'z) active_object_scheme" where
  "erase h = h\<lparr>hstate := Top_St, htemp := Top_St, last_ignored := False, instr_log := []\<rparr>"

lemma erase_upd [simp]:
  "erase (h\<lparr>hstate := a\<rparr>) = erase h" "erase (h\<lparr>htemp := b\<rparr>) = erase h"
  "erase (h\<lparr>last_ignored := i\<rparr>) = erase h" "erase (h\<lparr>instr_log := l\<rparr>) = erase h"
  "erase (probe e s k h) = erase h" "erase (trace e x y h) = erase h"
  "erase (settle_unchanged e s r c h) = erase h"
  by (simp_all add: erase_def probe_def trace_def settle_unchanged_def Let_def)

lemma erase_erase [simp]: "erase (erase h) = erase h"
  by (simp add: erase_def)

locale readiness = ao_chart H "\<lambda>_. Top_St" "\<lambda>_. None" en ex "\<lambda>_. False"
  for H :: "(rstate, 'u, 'z) ao_handlers"
    and en ex :: "rstate \<Rightarrow> (rstate, 'u, 'z) active_object_scheme \<Rightarrow> (rstate, 'u, 'z) active_object_scheme" +
  fixes up down :: "'u \<Rightarrow> bool"
  assumes not_ready: "H NotReady (User u) h = Inr (r, h') \<Longrightarrow>
      if up u then r = NEED_TO_TRANSFER \<and> htemp h' = St Ready else r \<noteq> NEED_TO_TRANSFER"
    and is_ready: "H Ready (User u) h = Inr (r, h') \<Longrightarrow>
      if down u then r = NEED_TO_TRANSFER \<and> htemp h' = St NotReady else r \<noteq> NEED_TO_TRANSFER"
begin

lemma lin_shell [simp]: "lin (\<lambda>_. Top_St) (St s) = [s]"
  by (simp add: lin_def kMaxNest_def numeral_eq_Suc)

lemma moved:
  "H s (User u) h = Inr (r, h') \<Longrightarrow>
   if track up down u s \<noteq> s then r = NEED_TO_TRANSFER \<and> htemp h' = St (track up down u s) else r \<noteq> NEED_TO_TRANSFER"
  using not_ready [of u h r h'] is_ready [of u h r h'] by (cases s) (auto simp: track_def split: if_splits)

text \<open>A dispatch in terms of the one handler it calls.\<close>

lemma dispatch_shell:
  assumes fuel: "kMaxNest < n" and cur: "hstate h = St s"
    and dis: "dispatch n H (User u) h = Inr h'"
  obtains r h1 where "H s (User u) (probe (User u) (St s) HandlerVisit (h\<lparr>last_ignored := False, htemp := St s\<rparr>)) = Inr (r, h1)"
    "hstate h' = St (track up down u s)"
    "erase h' = erase (if track up down u s = s then h1 else en (track up down u s) (ex s h1))"
proof -
  let ?h0 = "probe (User u) (St s) HandlerVisit (h\<lparr>last_ignored := False, htemp := St s\<rparr>)"
  from dis obtain r h1 where H: "H s (User u) ?h0 = Inr (r, h1)"
    by (auto simp: dispatch_refines [OF fuel cur] uml_dispatch_def bindE_eq_Inr)
  note mv = moved [OF H]
  show thesis
  proof (cases "track up down u s = s")
    case True
    then have r: "r \<noteq> NEED_TO_TRANSFER" using mv by simp
    obtain src r' h2 where h': "h' = settle_unchanged (User u) src r' (St s) h2"
      and h2: "h2 = h1 \<or> h2 = probe (User u) Top_St HandlerVisit (h1\<lparr>htemp := Top_St\<rparr>)"
      using dis H r by (cases r) (auto simp: dispatch_refines [OF fuel cur] uml_dispatch_def bindE_eq_Inr)
    show thesis
    proof (rule that [OF H])
      show "hstate h' = St (track up down u s)" using h' True by simp
      show "erase h' = erase (if track up down u s = s then h1 else en (track up down u s) (ex s h1))"
        using h' h2 True by auto
    qed
  next
    case False
    let ?t = "track up down u s"
    from False mv have r: "r = NEED_TO_TRANSFER" "htemp h1 = St ?t" by simp_all
    have ex: "exits (\<lambda>_. Top_St) s s ?t = [s]" "entries (\<lambda>_. Top_St) s ?t = [?t]"
      using False by (auto simp: exits_def entries_def)
    have st: "settle (\<lambda>_. Top_St) (\<lambda>_. None) kMaxNest ?t = (?t, [])" by (simp add: kMaxNest_def numeral_eq_Suc)
    have h': "h' = trace (User u) (St s) (St ?t) ((en ?t (ex s h1))\<lparr>hstate := St ?t, htemp := St ?t\<rparr>)"
      using dis H r ex st by (simp add: dispatch_refines [OF fuel cur] uml_dispatch_def)
    show thesis
    proof (rule that [OF H])
      show "hstate h' = St ?t" by (simp add: h')
      show "erase h' = erase (if ?t = s then h1 else en ?t (ex s h1))"
        using False by (simp add: h')
    qed
  qed
qed

lemma dispatch_post:
  assumes fuel: "kMaxNest < n" and cur: "hstate h = St s" and dis: "dispatch n H (User u) h = Inr h'"
    and P: "P h" "\<And>h. P (erase h) = P h" and Q: "\<And>h. Q (erase h) = Q h"
    and step: "\<And>g r h1. P g \<Longrightarrow> H s (User u) g = Inr (r, h1) \<Longrightarrow>
      Q (if track up down u s = s then h1 else en (track up down u s) (ex s h1))"
  shows "Q h' \<and> hstate h' = St (track up down u s)"
proof -
  let ?t = "track up down u s"
  from dispatch_shell [OF fuel cur dis] obtain r g where
    g: "H s (User u) (probe (User u) (St s) HandlerVisit (h\<lparr>last_ignored := False, htemp := St s\<rparr>)) = Inr (r, g)"
      "hstate h' = St ?t" "erase h' = erase (if ?t = s then g else en ?t (ex s g))" by blast
  have "P (probe (User u) (St s) HandlerVisit (h\<lparr>last_ignored := False, htemp := St s\<rparr>))"
    using P erase_upd by metis
  from step [OF this g(1)] have "Q (if ?t = s then g else en ?t (ex s g))" .
  then have "Q h'" using g(3) Q by metis
  with g(2) show ?thesis by simp
qed

lemma dispatch_track:
  "kMaxNest < n \<Longrightarrow> hstate h = St s \<Longrightarrow> dispatch_all n H us h = Inr h' \<Longrightarrow>
   hstate h' = St (fold (track up down) us s)"
proof (induction us arbitrary: h s)
  case (Cons u us)
  from Cons.prems(3) obtain h1 where d: "dispatch n H (User u) (h\<lparr>ao_q := us\<rparr>) = Inr h1"
    and rest: "dispatch_all n H us h1 = Inr h'" by (auto simp: bindE_eq_Inr)
  have "hstate (h\<lparr>ao_q := us\<rparr>) = St s" using Cons.prems(2) by simp
  from dispatch_shell [OF Cons.prems(1) this d] have "hstate h1 = St (track up down u s)" by blast
  from Cons.IH [OF Cons.prems(1) this rest] show ?case by simp
qed simp

lemma shell_dispatch_all_total:
  "kMaxNest < n \<Longrightarrow> hstate h = St s \<Longrightarrow> (\<And>u s h. u \<in> set us \<Longrightarrow> \<exists>r h'. H s (User u) h = Inr (r, h')) \<Longrightarrow>
   \<exists>h'. dispatch_all n H us h = Inr h'"
proof (induction us arbitrary: h s)
  case (Cons u us)
  have "hstate (h\<lparr>ao_q := us\<rparr>) = St s" using Cons.prems(2) by simp
  with Cons.prems(1,3) obtain h1 where d: "dispatch n H (User u) (h\<lparr>ao_q := us\<rparr>) = Inr h1"
    using dispatch_total [of n "h\<lparr>ao_q := us\<rparr>" s u] by auto
  from dispatch_shell [OF Cons.prems(1) \<open>hstate (h\<lparr>ao_q := us\<rparr>) = St s\<close> d]
  have "hstate h1 = St (track up down u s)" by blast
  from Cons.IH [OF Cons.prems(1) this] Cons.prems(3) d show ?case by auto
qed simp

text \<open>
  An observation of the manager that depends neither on the fields of \<open>Hsm\<close> nor on the queue is
  computed from the events alone when every handler changes it by a function \<open>step\<close> of the event
  and the state.
\<close>

lemma dispatch_view:
  assumes "kMaxNest < n"
    and er: "\<And>h. view (erase h) = view h" and qu: "\<And>h q. view (h\<lparr>ao_q := q\<rparr>) = view h"
    and st: "\<And>s u h r h1. H s (User u) h = Inr (r, h1) \<Longrightarrow>
      view (if track up down u s = s then h1 else en (track up down u s) (ex s h1)) = step u s (view h)"
  shows "hstate h = St s \<Longrightarrow> dispatch_all n H us h = Inr h' \<Longrightarrow>
    view h' = snd (fold (\<lambda>u (s, v). (track up down u s, step u s v)) us (s, view h))"
proof (induction us arbitrary: h s)
  case (Cons u us)
  from Cons.prems(2) obtain h1 where d: "dispatch n H (User u) (h\<lparr>ao_q := us\<rparr>) = Inr h1"
    and rest: "dispatch_all n H us h1 = Inr h'" by (auto simp: bindE_eq_Inr)
  have "hstate (h\<lparr>ao_q := us\<rparr>) = St s" using Cons.prems(1) by simp
  from dispatch_post [where P = "\<lambda>g. view g = view h" and Q = "\<lambda>g. view g = step u s (view h)", OF assms(1) this d]
  have g: "view h1 = step u s (view h)" "hstate h1 = St (track up down u s)"
    using st by (auto simp: er qu)
  with Cons.IH [OF g(2) rest] show ?case by simp
qed simp

end

text \<open>
  The contract in the form in which the managers meet it: their handlers return \<open>HANDLED\<close> from entry
  and exit, pass other signals of the library on to the top, and a user event moves the chart
  exactly when it changes readiness.
\<close>

locale manager_shell =
  fixes H :: "(rstate, 'u, 'z) ao_handlers"
    and en ex :: "rstate \<Rightarrow> (rstate, 'u, 'z) active_object_scheme \<Rightarrow> (rstate, 'u, 'z) active_object_scheme"
    and up down :: "'u \<Rightarrow> bool"
  assumes pass: "H s None_Signal h = Inr (super_st Top_St h)" "H s Init_Signal h = Inr (super_st Top_St h)"
    and enter: "H s Entry_Signal h = Inr (HANDLED, en s h)" "en s (h\<lparr>htemp := x\<rparr>) = (en s h)\<lparr>htemp := x\<rparr>"
      "posts_only h (en s h)"
    and leave: "H s Exit_Signal h = Inr (HANDLED, ex s h)" "ex s (h\<lparr>htemp := x\<rparr>) = (ex s h)\<lparr>htemp := x\<rparr>"
      "posts_only h (ex s h)"
    and user: "H s (User u) h = Inr (r, h') \<Longrightarrow> posts_only h h' \<and> (r = TO_SUPER \<longrightarrow> htemp h' = Top_St) \<and>
      (if track up down u s = s then r \<noteq> NEED_TO_TRANSFER else r = NEED_TO_TRANSFER \<and> htemp h' = St (track up down u s))"

sublocale manager_shell \<subseteq> readiness H en ex up down
proof unfold_locales
  fix s h h' u r x
  show "H s None_Signal h = Inr (TO_SUPER, h\<lparr>htemp := Top_St\<rparr>)" by (simp add: pass super_st_def)
  show "\<exists>r t. H s Entry_Signal h = Inr (r, (en s h)\<lparr>htemp := t\<rparr>)"
    by (auto simp: enter intro!: exI [of _ "htemp (en s h)"])
  show "\<exists>r t. H s Exit_Signal h = Inr (r, (ex s h)\<lparr>htemp := t\<rparr>) \<and> (r = HANDLED \<or> t = Top_St)"
    by (auto simp: leave intro!: exI [of _ "htemp (ex s h)"])
  show "\<exists>r t. H s Init_Signal h = Inr (r, h\<lparr>htemp := t\<rparr>) \<and> r \<noteq> NEED_TO_TRANSFER"
    by (auto simp: pass super_st_def)
  show "H s (User u) h = Inr (TO_SUPER, h') \<Longrightarrow> htemp h' = Top_St" using user by fastforce
  show "H s (User u) h = Inr (NEED_TO_TRANSFER, h') \<Longrightarrow> \<exists>t. htemp h' = St t"
    using user [of s u h NEED_TO_TRANSFER h'] by (auto split: if_splits)
  show "H s (User u) h = Inr (r, h') \<Longrightarrow> posts_only h h'" using user by blast
  show "if up u then r = NEED_TO_TRANSFER \<and> htemp h' = St Ready else r \<noteq> NEED_TO_TRANSFER"
    if "H NotReady (User u) h = Inr (r, h')" using user [OF that] by (auto simp: track_def split: if_splits)
  show "if down u then r = NEED_TO_TRANSFER \<and> htemp h' = St NotReady else r \<noteq> NEED_TO_TRANSFER"
    if "H Ready (User u) h = Inr (r, h')" using user [OF that] by (auto simp: track_def split: if_splits)
qed (simp_all add: enter leave kMaxNest_def numeral_eq_Suc)

context readiness
begin

text \<open>Starting the manager: \<open>start_at\<close> enters \<open>NotReady\<close> and launches the worker.\<close>

lemma shell_start:
  assumes "kMaxNest < n" "\<not> ao_running h"
  shows "\<exists>h'. start_at n H (St s) h = Inr h' \<and> hstate h' = St s \<and> ao_running h' \<and>
    erase h' = erase ((en s (if ao_inst h then h\<lparr>trace_fn := True, probe_fn := True, hstate := Top_St\<rparr>
      else h\<lparr>hstate := Top_St\<rparr>))\<lparr>ao_running := True\<rparr>)"
proof -
  have "settle (\<lambda>_. Top_St) (\<lambda>_. None) kMaxNest s = (s, [])" by (simp add: kMaxNest_def numeral_eq_Suc)
  from init_refines [OF assms(1) _ this] assms(2) show ?thesis
    by (auto simp: start_at_def Let_def erase_def trace_def)
qed

end

text \<open>Readiness holds when the last event that changed it raised it.\<close>

lemma track_last:
  assumes "\<And>u. up u \<Longrightarrow> \<not> down u"
  shows "fold (track up down) us NotReady = Ready \<longleftrightarrow>
    (\<exists>xs u ys. us = xs @ u # ys \<and> up u \<and> list_all (\<lambda>v. \<not> down v) ys)"
proof (induction us rule: rev_induct)
  case (snoc v us)
  show ?case
  proof
    assume "fold (track up down) (us @ [v]) NotReady = Ready"
    then consider "up v" | "fold (track up down) us NotReady = Ready" "\<not> down v"
      by (auto simp: track_def split: rstate.splits if_splits)
    then show "\<exists>xs u ys. us @ [v] = xs @ u # ys \<and> up u \<and> list_all (\<lambda>v. \<not> down v) ys"
    proof cases
      case 1
      then show ?thesis by (intro exI [of _ us] exI [of _ v] exI [of _ "[]"]) simp
    next
      case 2
      with snoc.IH obtain xs u ys where "us = xs @ u # ys" "up u" "list_all (\<lambda>v. \<not> down v) ys" by blast
      with 2 show ?thesis by (intro exI [of _ xs] exI [of _ u] exI [of _ "ys @ [v]"]) simp
    qed
  next
    assume "\<exists>xs u ys. us @ [v] = xs @ u # ys \<and> up u \<and> list_all (\<lambda>v. \<not> down v) ys"
    then obtain xs u ys where us: "us @ [v] = xs @ u # ys" "up u" "list_all (\<lambda>v. \<not> down v) ys" by blast
    show "fold (track up down) (us @ [v]) NotReady = Ready"
    proof (cases ys rule: rev_cases)
      case Nil
      with us assms show ?thesis by (auto simp: track_def split: rstate.splits)
    next
      case outer: (snoc ys' w)
      with us have "us = xs @ u # ys'" "w = v" by auto
      with us outer snoc.IH have "fold (track up down) us NotReady = Ready" "\<not> down v" by auto
      then show ?thesis by (simp add: track_def)
    qed
  qed
qed simp


section \<open>Code the managers share\<close>

text \<open>The test of a readiness indication: its \<open>data\<close> has the member \<open>status\<close> with the wanted value.\<close>

definition readiness_status :: "'j json_lib \<Rightarrow> string \<Rightarrow> 'j envelope \<Rightarrow> bool result" where
  "readiness_status J wanted env =
     (case env_data env of
        None \<Rightarrow> Inr False
      | Some d \<Rightarrow> bindE (value_string J d ''status'') (\<lambda>s. Inr (s = wanted)))"

text \<open>
  \<open>remove_if\<close>: an entry goes when it cannot be locked or is the target (which must be alive to be
  compared).
\<close>

definition without_listener :: "nat \<Rightarrow> nat list \<Rightarrow> nat list \<Rightarrow> nat list" where
  "without_listener l live ls = filter (\<lambda>w. w \<in> set live \<and> w \<noteq> l) ls"

text \<open>The members \<open>ks\<close> of the object \<open>d\<close> are absent or strings.\<close>

definition string_fields :: "'j json_lib \<Rightarrow> string list \<Rightarrow> 'j \<Rightarrow> bool" where
  "string_fields J ks d \<longleftrightarrow>
     j_is_object J d \<and> list_all (\<lambda>k. case j_find J d k of None \<Rightarrow> True | Some v \<Rightarrow> j_string J v \<noteq> None) ks"

lemma string_field_value:
  "string_fields J ks d \<Longrightarrow> k \<in> set ks \<Longrightarrow> \<exists>s. value_string J d k = Inr s"
  by (fastforce simp: string_fields_def value_string_def value_as_def list_all_iff split: option.splits)

lemma readiness_status_total:
  "pred_option (string_fields J [''status'']) (env_data env) \<Longrightarrow> \<exists>b. readiness_status J w env = Inr b"
  using string_field_value [of J "[''status'']" _ "''status''"]
  by (fastforce simp: readiness_status_def split: option.splits)

end
