(* ===== verification/Manager_Io.thy ===== *)
theory Manager_Io
  imports Ready_Shell
begin

text \<open>
  What the managers have in common besides their chart: the status codes of the SDK, the effects
  they emit together with the process-wide counter of correlation ids, and the reading of
  response envelopes.
\<close>

section \<open>Status codes\<close>

datatype api_status =
    SUCCESS | FAILED | NOCONNECTION | NOSUBSCRIPTION | INVALIDPARAM | INVALIDSTATE | NOTREADY | NOTALLOWED
  | NOTIMPLEMENTED | CONNECTIONLOST | EXPIRED | ALREADY | NOSUCH | NOTSUPPORTED | NOMEMORY | ACCESSDENIED

section \<open>Effects\<close>

text \<open>
  \<open>io_out\<close> lists the effects in order; \<open>io_counter\<close> is the counter of \<open>nextCorrId\<close> and \<open>io_now\<close> the clock
  of the process.
\<close>

record 'e io =
  io_counter :: "32 word"
  io_now :: int
  io_out :: "'e list"

definition io_emit :: "'e \<Rightarrow> 'e io \<Rightarrow> 'e io" where
  "io_emit x s = s\<lparr>io_out := io_out s @ [x]\<rparr>"

text \<open>\<open>makeRequestEnvelope(bridge_.currentPaId(), data)\<close>.\<close>

definition io_request :: "string \<Rightarrow> 'j \<Rightarrow> 'e io \<Rightarrow> 'j envelope \<times> 'e io" where
  "io_request pa dat s =
     (case makeRequestEnvelope (io_now s) pa dat (io_counter s) of (env, c) \<Rightarrow> (env, s\<lparr>io_counter := c\<rparr>))"

lemma io_emit_sel [simp]:
  "io_out (io_emit x s) = io_out s @ [x]" "io_counter (io_emit x s) = io_counter s" "io_now (io_emit x s) = io_now s"
  by (simp_all add: io_emit_def)

lemma io_request_sel [simp]: "io_out (snd (io_request pa d s)) = io_out s" "io_now (snd (io_request pa d s)) = io_now s"
  by (simp_all add: io_request_def split: prod.splits)

lemma io_request_env:
  "env_data (fst (io_request pa d s)) = Some d" "env_src (fst (io_request pa d s)) = pa"
  "env_dest (fst (io_request pa d s)) = None" "env_error (fst (io_request pa d s)) = None"
  "env_corrId (fst (io_request pa d s)) = fst (nextCorrId (io_counter s))"
  by (simp_all add: io_request_def makeRequestEnvelope_def split: prod.splits)

section \<open>Reading JSON\<close>

fun map_result :: "('a \<Rightarrow> 'b result) \<Rightarrow> 'a list \<Rightarrow> 'b list result" where
  "map_result f [] = Inr []"
| "map_result f (x # xs) = bindE (f x) (\<lambda>y. bindE (map_result f xs) (\<lambda>ys. Inr (y # ys)))"

lemma map_result_total: "(\<And>x. x \<in> set xs \<Longrightarrow> \<exists>y. f x = Inr y) \<Longrightarrow> \<exists>ys. map_result f xs = Inr ys"
proof (induction xs)
  case (Cons x xs)
  from Cons.IH Cons.prems obtain ys where "map_result f xs = Inr ys" by auto
  moreover from Cons.prems obtain y where "f x = Inr y" by auto
  ultimately show ?case by simp
qed simp

text \<open>\<open>value(k, 0)\<close> as an \<open>int\<close>, and \<open>value(k, std::vector<int>{})\<close>.\<close>

definition value_int :: "'j json_lib \<Rightarrow> 'j \<Rightarrow> string \<Rightarrow> int result" where
  "value_int J j k = value_as (\<lambda>v. map_option to_int32 (j_number J v)) J j k 0"

definition value_ints :: "'j json_lib \<Rightarrow> 'j \<Rightarrow> string \<Rightarrow> int list result" where
  "value_ints J j k =
     value_as (\<lambda>v. Option.bind (j_array J v) (\<lambda>xs. those (map (\<lambda>x. map_option to_int32 (j_number J x)) xs))) J j k []"

text \<open>
  \<open>rsp && rsp->error ? parseErrorCode(rsp->error->value("code", "")) : OPERATION_TIMEOUT\<close>; it throws
  when \<open>code\<close> is not a string.
\<close>

definition response_error :: "'j json_lib \<Rightarrow> 'j envelope option \<Rightarrow> error_code result" where
  "response_error J rsp =
     (case rsp of
        None \<Rightarrow> Inr EC_OPERATION_TIMEOUT
      | Some env \<Rightarrow> (case env_error env of
          None \<Rightarrow> Inr EC_OPERATION_TIMEOUT
        | Some e \<Rightarrow> bindE (value_string J e ''code'') (\<lambda>c. Inr (parseErrorCode c))))"

definition has_error :: "'j envelope option \<Rightarrow> bool" where
  "has_error rsp = (case rsp of None \<Rightarrow> True | Some env \<Rightarrow> env_error env \<noteq> None)"

text \<open>\<open>rsp && !rsp->error && rsp->data\<close>.\<close>

definition good_data :: "'j envelope option \<Rightarrow> 'j option" where
  "good_data rsp =
     (case rsp of None \<Rightarrow> None | Some env \<Rightarrow> if env_error env = None then env_data env else None)"

end
