(* ===== verification/Power_Tcu.thy ===== *)
theory Power_Tcu
  imports Manager_Io
begin

text \<open>
  \<open>component/power/TcuActivityManager.{hpp,cpp}\<close>: the manager of the power state of the machines, a
  client of the modem bridge. Its calls of the bridge and of the listener dispatcher, the
  callbacks and promises it completes are the effects recorded in \<open>tcu_out\<close>. Listeners are weak
  references, named by numbers; \<open>tcu_live\<close> holds those that can be locked. The generated topic
  names are a parameter.
\<close>

section \<open>Data\<close>

datatype tcu_state = UNKNOWN | SUSPEND | RESUME | SHUTDOWN

datatype change_response = ACK | NACK

datatype machine_event = AVAILABLE | UNAVAILABLE

datatype state_ack = SUSPEND_ACK | SHUTDOWN_ACK

type_synonym client_info = "string \<times> string"

datatype tcu_note =
    On_State_Update tcu_state string
  | On_Machine_Update string machine_event
  | On_Slave_Ack api_status string "client_info list" "client_info list"

datatype tcu_request = Set_State | Get_Machine_Names nat

datatype 'j tcu_effect =
    Init_Called nat service_status
  | Response_Enqueued nat error_code
  | Notes_Enqueued "nat list" tcu_note
  | Service_Enqueued "nat list" service_status
  | Request_Sent string string "'j envelope" tcu_request int
  | Oneway_Sent string string "'j envelope"
  | Promise_Set nat api_status "string list"
  | Event_Subscribed string string
  | Event_Unsubscribed string
  | Connectivity_Subscribed nat
  | Connectivity_Unsubscribed nat
  | Bridge_Drained

text \<open>The signals of \<open>PowerSignals\<close> with their payloads; a null callback is \<open>None\<close>.\<close>

datatype 'j tcu_event =
    ReadinessEvt_Signal "'j envelope"
  | BridgeConnectivityChanged_Signal bool
  | SetActivityState_Signal tcu_state string "nat option"
  | GetAllMachineNames_Signal nat
  | SendActivityStateAck_Signal change_response tcu_state
  | StateUpdateInd_Signal "'j envelope"
  | MachineUpdateInd_Signal "'j envelope"
  | SlaveAckStatusInd_Signal "'j envelope"

record 'j tcu_manager = "(rstate, 'j tcu_event) active_object" +
  tcu_init_cb :: "nat option"
  tcu_init_cb_fired :: bool
  tcu_conn_token :: nat
  tcu_local_state :: tcu_state
  tcu_listeners :: "nat list"
  tcu_service_listeners :: "nat list"
  tcu_live :: "nat list"
  tcu_counter :: "32 word"
  tcu_now :: int
  tcu_out :: "'j tcu_effect list"

text \<open>
  Parameters: the JSON library, the topic names of \<open>generated/cpp/topics.h\<close>, the bridge's PA id
  and next connectivity token, the variable \<open>HOME\<close> and the first line of \<open>.machine_name\<close>.
\<close>

record 'j tcu_ext =
  tx_json :: "'j json_lib"
  subsys_ready_tcu_ind :: string
  state_update_ind :: string
  machine_update_ind :: string
  slave_ack_status_ind :: string
  set_state_req :: string
  get_machine_names_req :: string
  slave_ack_req :: string
  tx_pa_id :: string
  tx_token :: nat
  tx_home :: "string option"
  tx_machine_line :: "string option"

section \<open>Conversions\<close>

text \<open>The loop that pops trailing newlines, carriage returns and blanks.\<close>

definition trim_end :: "string \<Rightarrow> string" where
  "trim_end s = rev (dropWhile (\<lambda>c. c = CHR 0x0A \<or> c = CHR 0x0D \<or> c = CHR '' '') (rev s))"

definition readLocalMachineName :: "'j tcu_ext \<Rightarrow> string" where
  "readLocalMachineName T =
     (case tx_home T of
        None \<Rightarrow> ''mdm''
      | Some home \<Rightarrow> (case tx_machine_line T of
          None \<Rightarrow> ''mdm''
        | Some line \<Rightarrow> let name = trim_end line in if name = [] then ''mdm'' else name))"

fun tcuActivityStateToWire :: "tcu_state \<Rightarrow> string" where
  "tcuActivityStateToWire SUSPEND = ''SUSPEND''"
| "tcuActivityStateToWire RESUME = ''RESUME''"
| "tcuActivityStateToWire SHUTDOWN = ''SHUTDOWN''"
| "tcuActivityStateToWire UNKNOWN = ''UNKNOWN''"

definition wireToTcuActivityState :: "string \<Rightarrow> tcu_state" where
  "wireToTcuActivityState wire =
     (if wire = ''SUSPEND'' then SUSPEND
      else if wire = ''RESUME'' then RESUME
      else if wire = ''SHUTDOWN'' then SHUTDOWN
      else UNKNOWN)"

definition stateChangeResponseToWire :: "change_response \<Rightarrow> string" where
  "stateChangeResponseToWire a = (if a = ACK then ''ACK'' else ''NACK'')"

definition wireToMachineEvent :: "string \<Rightarrow> machine_event" where
  "wireToMachineEvent wire = (if wire = ''AVAILABLE'' then AVAILABLE else UNAVAILABLE)"

definition has_items :: "'j json_lib \<Rightarrow> 'j \<Rightarrow> string \<Rightarrow> bool" where
  "has_items J dat k = (case j_find J dat k of None \<Rightarrow> False | Some v \<Rightarrow> j_iter J v \<noteq> [])"

definition slaveAckStatusToCommonStatus :: "'j json_lib \<Rightarrow> 'j \<Rightarrow> api_status" where
  "slaveAckStatusToCommonStatus J dat =
     (if has_items J dat ''nack'' then NOTREADY
      else if has_items J dat ''unresponsive'' then EXPIRED
      else SUCCESS)"

definition decodeClientInfos :: "'j json_lib \<Rightarrow> 'j list \<Rightarrow> client_info list result" where
  "decodeClientInfos J items =
     map_result (\<lambda>item. bindE (value_string J item ''clientName'') (\<lambda>c.
       bindE (value_string J item ''machineName'') (\<lambda>m. Inr (c, m)))) items"

section \<open>Helpers\<close>

definition kRpcTimeout :: int where
  "kRpcTimeout = 30000"

definition tcu_emit :: "'j tcu_effect \<Rightarrow> 'j tcu_manager \<Rightarrow> 'j tcu_manager" where
  "tcu_emit x h = h\<lparr>tcu_out := tcu_out h @ [x]\<rparr>"

definition broadcastToListeners :: "tcu_note \<Rightarrow> 'j tcu_manager \<Rightarrow> 'j tcu_manager" where
  "broadcastToListeners note h =
     (let ls = filter (\<lambda>l. l \<in> set (tcu_live h)) (tcu_listeners h)
      in if ls = [] then h else tcu_emit (Notes_Enqueued ls note) h)"

definition dispatchResponse :: "nat option \<Rightarrow> error_code \<Rightarrow> 'j tcu_manager \<Rightarrow> 'j tcu_manager" where
  "dispatchResponse cb err h = (case cb of None \<Rightarrow> h | Some c \<Rightarrow> tcu_emit (Response_Enqueued c err) h)"

definition broadcastServiceState :: "service_status \<Rightarrow> 'j tcu_manager \<Rightarrow> 'j tcu_manager" where
  "broadcastServiceState st h =
     (let ls = filter (\<lambda>l. l \<in> set (tcu_live h)) (tcu_service_listeners h)
      in if ls = [] then h else tcu_emit (Service_Enqueued ls st) h)"

definition isReadyDerived :: "'j tcu_manager \<Rightarrow> bool" where
  "isReadyDerived h \<longleftrightarrow> hstate h = St Ready"

text \<open>\<open>makeRequestEnvelope\<close> with the process-wide counter of the state.\<close>

definition make_request :: "'j tcu_ext \<Rightarrow> 'j \<Rightarrow> 'j tcu_manager \<Rightarrow> 'j envelope \<times> 'j tcu_manager" where
  "make_request T dat h =
     (case makeRequestEnvelope (tcu_now h) (tx_pa_id T) dat (tcu_counter h) of
        (env, c) \<Rightarrow> (env, h\<lparr>tcu_counter := c\<rparr>))"

section \<open>State handlers\<close>

fun NotReady_St :: "'j tcu_ext \<Rightarrow> 'j tcu_event event \<Rightarrow> 'j tcu_manager \<Rightarrow> (status \<times> 'j tcu_manager) result" where
  "NotReady_St T Entry_Signal h = Inr (HANDLED, h)"
| "NotReady_St T Exit_Signal h = Inr (HANDLED, h)"
| "NotReady_St T (User (ReadinessEvt_Signal env)) h =
     bindE (readiness_status (tx_json T) ''AVAILABLE'' env) (\<lambda>up. Inr (if up then to_st (St Ready) h else (HANDLED, h)))"
| "NotReady_St T (User (BridgeConnectivityChanged_Signal b)) h = Inr (HANDLED, h)"
| "NotReady_St T (User (SetActivityState_Signal st m cb)) h =
     Inr (HANDLED, dispatchResponse cb EC_SUBSYSTEM_UNAVAILABLE h)"
| "NotReady_St T (User (GetAllMachineNames_Signal p)) h = Inr (HANDLED, tcu_emit (Promise_Set p NOTREADY []) h)"
| "NotReady_St T (User (SendActivityStateAck_Signal a st)) h = Inr (HANDLED, h)"
| "NotReady_St T _ h = Inr (super_st Top_St h)"

definition enterReady :: "'j tcu_manager \<Rightarrow> 'j tcu_manager" where
  "enterReady h =
     (if \<not> tcu_init_cb_fired h then
        let h = h\<lparr>tcu_init_cb_fired := True\<rparr> in
        (case tcu_init_cb h of None \<Rightarrow> h | Some c \<Rightarrow> tcu_emit (Init_Called c SERVICE_AVAILABLE) h)
      else broadcastServiceState SERVICE_AVAILABLE h)"

definition sendSetState :: "'j tcu_ext \<Rightarrow> tcu_state \<Rightarrow> string \<Rightarrow> nat option \<Rightarrow> 'j tcu_manager \<Rightarrow> 'j tcu_manager" where
  "sendSetState T st m cb h =
     (let J = tx_json T;
          dat = j_set J ''machineName'' (j_of_string J m)
            (j_set J ''state'' (j_of_string J (tcuActivityStateToWire st)) (j_object J))
      in case make_request T dat h of (req, h) \<Rightarrow>
        dispatchResponse cb EC_SUCCESS
          (tcu_emit (Request_Sent (set_state_req T) ''power.set_state.rsp'' req Set_State kRpcTimeout) h))"

definition sendGetNames :: "'j tcu_ext \<Rightarrow> nat \<Rightarrow> 'j tcu_manager \<Rightarrow> 'j tcu_manager" where
  "sendGetNames T p h =
     (case make_request T (j_object (tx_json T)) h of (req, h) \<Rightarrow>
        tcu_emit (Request_Sent (get_machine_names_req T) ''power.get_machine_names.rsp'' req
          (Get_Machine_Names p) kRpcTimeout) h)"

definition sendSlaveAck :: "'j tcu_ext \<Rightarrow> change_response \<Rightarrow> tcu_state \<Rightarrow> 'j tcu_manager \<Rightarrow> 'j tcu_manager" where
  "sendSlaveAck T a st h =
     (let J = tx_json T;
          dat = j_set J ''machineName'' (j_of_string J (readLocalMachineName T))
            (j_set J ''state'' (j_of_string J (tcuActivityStateToWire st))
            (j_set J ''response'' (j_of_string J (stateChangeResponseToWire a)) (j_object J)))
      in case make_request T dat h of (msg, h) \<Rightarrow>
        tcu_emit (Oneway_Sent (slave_ack_req T) ''power.slave_ack.ff'' msg) h)"

definition stateUpdate :: "'j tcu_ext \<Rightarrow> 'j \<Rightarrow> 'j tcu_manager \<Rightarrow> 'j tcu_manager result" where
  "stateUpdate T d h =
     bindE (value_string (tx_json T) d ''state'') (\<lambda>s.
     bindE (value_string (tx_json T) d ''machineName'') (\<lambda>m.
       let st = wireToTcuActivityState s in
       Inr (broadcastToListeners (On_State_Update st m) (h\<lparr>tcu_local_state := st\<rparr>))))"

definition machineUpdate :: "'j tcu_ext \<Rightarrow> 'j \<Rightarrow> 'j tcu_manager \<Rightarrow> 'j tcu_manager result" where
  "machineUpdate T d h =
     bindE (value_string (tx_json T) d ''machineName'') (\<lambda>m.
     bindE (value_string (tx_json T) d ''machineEvent'') (\<lambda>ev.
       Inr (broadcastToListeners (On_Machine_Update m (wireToMachineEvent ev)) h)))"

definition slaveAckUpdate :: "'j tcu_ext \<Rightarrow> 'j \<Rightarrow> 'j tcu_manager \<Rightarrow> 'j tcu_manager result" where
  "slaveAckUpdate T d h =
     (let J = tx_json T; st = slaveAckStatusToCommonStatus J d in
      bindE (value_string J d ''machineName'') (\<lambda>m.
      bindE (bindE (value_items J d ''unresponsive'') (decodeClientInfos J)) (\<lambda>unresponsive.
      bindE (bindE (value_items J d ''nack'') (decodeClientInfos J)) (\<lambda>nack.
        Inr (broadcastToListeners (On_Slave_Ack st m unresponsive nack) h)))))"

text \<open>The common shape of the three indications: without \<open>data\<close> nothing happens.\<close>

definition with_data :: "('j \<Rightarrow> 'j tcu_manager \<Rightarrow> 'j tcu_manager result) \<Rightarrow> 'j envelope \<Rightarrow> 'j tcu_manager
    \<Rightarrow> (status \<times> 'j tcu_manager) result" where
  "with_data f env h =
     (case env_data env of None \<Rightarrow> Inr (HANDLED, h) | Some d \<Rightarrow> bindE (f d h) (\<lambda>h. Inr (HANDLED, h)))"

fun Ready_St :: "'j tcu_ext \<Rightarrow> 'j tcu_event event \<Rightarrow> 'j tcu_manager \<Rightarrow> (status \<times> 'j tcu_manager) result" where
  "Ready_St T Entry_Signal h = Inr (HANDLED, enterReady h)"
| "Ready_St T Exit_Signal h = Inr (HANDLED, broadcastServiceState SERVICE_UNAVAILABLE h)"
| "Ready_St T (User (ReadinessEvt_Signal env)) h =
     bindE (readiness_status (tx_json T) ''UNAVAILABLE'' env) (\<lambda>dn. Inr (if dn then to_st (St NotReady) h else (HANDLED, h)))"
| "Ready_St T (User (BridgeConnectivityChanged_Signal b)) h =
     Inr (if \<not> b then to_st (St NotReady) h else (HANDLED, h))"
| "Ready_St T (User (SetActivityState_Signal st m cb)) h = Inr (HANDLED, sendSetState T st m cb h)"
| "Ready_St T (User (GetAllMachineNames_Signal p)) h = Inr (HANDLED, sendGetNames T p h)"
| "Ready_St T (User (SendActivityStateAck_Signal a st)) h = Inr (HANDLED, sendSlaveAck T a st h)"
| "Ready_St T (User (StateUpdateInd_Signal env)) h = with_data (stateUpdate T) env h"
| "Ready_St T (User (MachineUpdateInd_Signal env)) h = with_data (machineUpdate T) env h"
| "Ready_St T (User (SlaveAckStatusInd_Signal env)) h = with_data (slaveAckUpdate T) env h"
| "Ready_St T _ h = Inr (super_st Top_St h)"

fun tcu_handlers :: "'j tcu_ext \<Rightarrow> rstate \<Rightarrow> 'j tcu_event event \<Rightarrow> 'j tcu_manager \<Rightarrow> (status \<times> 'j tcu_manager) result" where
  "tcu_handlers T NotReady e h = NotReady_St T e h"
| "tcu_handlers T Ready e h = Ready_St T e h"

section \<open>Lifecycle\<close>

definition newTcu :: "nat option \<Rightarrow> 'j tcu_manager" where
  "newTcu initCb =
     \<lparr>hstate = Top_St, htemp = Top_St, last_ignored = False, trace_fn = False, probe_fn = False, instr_log = [],
      ao_name = ''TcuActivityManager'', ao_inst = False, ao_q = [], ao_running = False,
      tcu_init_cb = initCb, tcu_init_cb_fired = False, tcu_conn_token = 0, tcu_local_state = UNKNOWN,
      tcu_listeners = [], tcu_service_listeners = [], tcu_live = [], tcu_counter = 0, tcu_now = 0, tcu_out = []\<rparr>"

definition tcu_start :: "nat \<Rightarrow> 'j tcu_ext \<Rightarrow> 'j tcu_manager \<Rightarrow> 'j tcu_manager result" where
  "tcu_start n T h =
     (if ao_running h then Inr h
      else bindE (start_at n (tcu_handlers T) (St NotReady) (h\<lparr>ao_inst := True\<rparr>)) (\<lambda>h.
        Inr ((tcu_emit (Connectivity_Subscribed (tx_token T))
          (tcu_emit (Event_Subscribed (slave_ack_status_ind T) ''power.slave_ack_status.ind'')
          (tcu_emit (Event_Subscribed (machine_update_ind T) ''power.machine_update.ind'')
          (tcu_emit (Event_Subscribed (state_update_ind T) ''power.state_update.ind'')
          (tcu_emit (Event_Subscribed (subsys_ready_tcu_ind T) ''power.subsys_ready_tcu.ind'') h)))))
          \<lparr>tcu_conn_token := tx_token T\<rparr>)))"

definition tcu_unsubscribeFromBridge :: "'j tcu_ext \<Rightarrow> 'j tcu_manager \<Rightarrow> 'j tcu_manager" where
  "tcu_unsubscribeFromBridge T h =
     (let h = tcu_emit (Event_Unsubscribed (subsys_ready_tcu_ind T)) h;
          h = tcu_emit (Event_Unsubscribed (state_update_ind T)) h;
          h = tcu_emit (Event_Unsubscribed (machine_update_ind T)) h;
          h = tcu_emit (Event_Unsubscribed (slave_ack_status_ind T)) h;
          h = tcu_emit (Connectivity_Unsubscribed (tcu_conn_token h)) h;
          h = h\<lparr>tcu_conn_token := 0\<rparr>
      in tcu_emit Bridge_Drained h)"

text \<open>The destructor: withdraw from the bridge, then stop the worker.\<close>

definition tcu_destroy :: "nat \<Rightarrow> nat \<Rightarrow> 'j tcu_ext \<Rightarrow> 'j tcu_manager \<Rightarrow> 'j tcu_manager result" where
  "tcu_destroy k n T h = stop k n (tcu_handlers T) False (tcu_unsubscribeFromBridge T h)"

section \<open>Indications and the public interface\<close>

definition handleStateUpdateInd :: "'j tcu_ext \<Rightarrow> string \<Rightarrow> 'j envelope \<Rightarrow> 'j tcu_manager \<Rightarrow> 'j tcu_manager" where
  "handleStateUpdateInd T topic env =
     post_fifo (if topic = subsys_ready_tcu_ind T then ReadinessEvt_Signal env else StateUpdateInd_Signal env)"

definition handleMachineUpdateInd :: "'j envelope \<Rightarrow> 'j tcu_manager \<Rightarrow> 'j tcu_manager" where
  "handleMachineUpdateInd env = post_fifo (MachineUpdateInd_Signal env)"

definition handleSlaveAckStatusInd :: "'j envelope \<Rightarrow> 'j tcu_manager \<Rightarrow> 'j tcu_manager" where
  "handleSlaveAckStatusInd env = post_fifo (SlaveAckStatusInd_Signal env)"

definition tcu_getServiceStatus :: "'j tcu_manager \<Rightarrow> service_status" where
  "tcu_getServiceStatus h = (if isReadyDerived h then SERVICE_AVAILABLE else SERVICE_UNAVAILABLE)"

definition tcu_registerListener :: "nat \<Rightarrow> 'j tcu_manager \<Rightarrow> api_status \<times> 'j tcu_manager" where
  "tcu_registerListener l h = (SUCCESS, h\<lparr>tcu_listeners := tcu_listeners h @ [l]\<rparr>)"

definition tcu_deregisterListener :: "nat \<Rightarrow> 'j tcu_manager \<Rightarrow> api_status \<times> 'j tcu_manager" where
  "tcu_deregisterListener l h =
     (SUCCESS, h\<lparr>tcu_listeners := without_listener l (tcu_live h) (tcu_listeners h)\<rparr>)"

definition tcu_registerServiceStateListener :: "nat \<Rightarrow> 'j tcu_manager \<Rightarrow> api_status \<times> 'j tcu_manager" where
  "tcu_registerServiceStateListener l h =
     (SUCCESS, h\<lparr>tcu_service_listeners := tcu_service_listeners h @ [l]\<rparr>)"

definition tcu_deregisterServiceStateListener :: "nat \<Rightarrow> 'j tcu_manager \<Rightarrow> api_status \<times> 'j tcu_manager" where
  "tcu_deregisterServiceStateListener l h =
     (SUCCESS, h\<lparr>tcu_service_listeners := without_listener l (tcu_live h) (tcu_service_listeners h)\<rparr>)"

definition tcu_getMachineName :: "'j tcu_ext \<Rightarrow> api_status \<times> string" where
  "tcu_getMachineName T = (SUCCESS, readLocalMachineName T)"

text \<open>
  \<open>getAllMachineNames\<close> posts the request with a promise \<open>p\<close> and waits for its future, which within
  the time limit receives a value, is not ready, or is abandoned when the promise is destroyed
  without a value (then \<open>future.get()\<close> throws).
\<close>

datatype 'a waited = Not_In_Time | Abandoned | Got 'a

definition getAllMachineNames_post :: "nat \<Rightarrow> 'j tcu_manager \<Rightarrow> api_status option \<times> 'j tcu_manager" where
  "getAllMachineNames_post p h =
     (if \<not> isReadyDerived h then (Some NOTREADY, h) else (None, post_fifo (GetAllMachineNames_Signal p) h))"

definition getAllMachineNames_result :: "(api_status \<times> string list) waited
    \<Rightarrow> (api_status \<times> string list option) result" where
  "getAllMachineNames_result w =
     (case w of
        Not_In_Time \<Rightarrow> Inr (EXPIRED, None)
      | Abandoned \<Rightarrow> Inl Uncaught_Exception
      | Got (st, names) \<Rightarrow> Inr (st, Some names))"

text \<open>
  What the response callback does with the promise, which dies with the callback. An exception
  while the names are read is caught by the bridge and leaves the promise without a value.
\<close>

definition machine_names_rsp :: "'j json_lib \<Rightarrow> 'j envelope option \<Rightarrow> (api_status \<times> string list) waited" where
  "machine_names_rsp J rsp =
     (case rsp of
        None \<Rightarrow> Got (FAILED, [])
      | Some env \<Rightarrow> (case (env_error env, env_data env) of
          (None, Some d) \<Rightarrow>
            (case bindE (value_items J d ''machineNames'')
                (map_result (\<lambda>n. case j_string J n of None \<Rightarrow> Inl Uncaught_Exception | Some s \<Rightarrow> Inr s)) of
               Inl _ \<Rightarrow> Abandoned
             | Inr names \<Rightarrow> Got (SUCCESS, names))
        | _ \<Rightarrow> Got (FAILED, [])))"

definition setActivityState :: "tcu_state \<Rightarrow> string \<Rightarrow> nat option \<Rightarrow> 'j tcu_manager \<Rightarrow> api_status \<times> 'j tcu_manager" where
  "setActivityState st m cb h =
     (if \<not> isReadyDerived h then (NOTREADY, h) else (SUCCESS, post_fifo (SetActivityState_Signal st m cb) h))"

definition setActivityState_local :: "tcu_state \<Rightarrow> nat option \<Rightarrow> 'j tcu_manager \<Rightarrow> api_status \<times> 'j tcu_manager" where
  "setActivityState_local st cb h = setActivityState st ''LOCAL_MACHINE'' cb h"

definition getActivityState :: "'j tcu_manager \<Rightarrow> tcu_state" where
  "getActivityState h = tcu_local_state h"

definition sendActivityStateAck :: "change_response \<Rightarrow> tcu_state \<Rightarrow> 'j tcu_manager \<Rightarrow> api_status \<times> 'j tcu_manager" where
  "sendActivityStateAck a st h =
     (if \<not> isReadyDerived h then (NOTREADY, h) else (SUCCESS, post_fifo (SendActivityStateAck_Signal a st) h))"

definition sendActivityStateAck_old :: "state_ack \<Rightarrow> 'j tcu_manager \<Rightarrow> api_status \<times> 'j tcu_manager" where
  "sendActivityStateAck_old a h = sendActivityStateAck ACK (case a of SUSPEND_ACK \<Rightarrow> SUSPEND | _ \<Rightarrow> SHUTDOWN) h"

definition setModemActivityState :: "tcu_state \<Rightarrow> api_status" where
  "setModemActivityState st = NOTSUPPORTED"

definition isReady :: "'j tcu_manager \<Rightarrow> bool" where
  "isReady h = isReadyDerived h"

definition onReady :: "'j tcu_manager \<Rightarrow> bool" where
  "onReady h = isReadyDerived h"

section \<open>The chart\<close>

fun tcu_en :: "rstate \<Rightarrow> 'j tcu_manager \<Rightarrow> 'j tcu_manager" where
  "tcu_en NotReady h = h"
| "tcu_en Ready h = enterReady h"

fun tcu_ex :: "rstate \<Rightarrow> 'j tcu_manager \<Rightarrow> 'j tcu_manager" where
  "tcu_ex NotReady h = h"
| "tcu_ex Ready h = broadcastServiceState SERVICE_UNAVAILABLE h"

fun tcu_up :: "'j tcu_ext \<Rightarrow> 'j tcu_event \<Rightarrow> bool" where
  "tcu_up T (ReadinessEvt_Signal env) \<longleftrightarrow> readiness_status (tx_json T) ''AVAILABLE'' env = Inr True"
| "tcu_up T _ \<longleftrightarrow> False"

fun tcu_down :: "'j tcu_ext \<Rightarrow> 'j tcu_event \<Rightarrow> bool" where
  "tcu_down T (ReadinessEvt_Signal env) \<longleftrightarrow> readiness_status (tx_json T) ''UNAVAILABLE'' env = Inr True"
| "tcu_down T (BridgeConnectivityChanged_Signal b) \<longleftrightarrow> \<not> b"
| "tcu_down T _ \<longleftrightarrow> False"

lemmas tcu_helpers = tcu_emit_def broadcastToListeners_def dispatchResponse_def broadcastServiceState_def
  make_request_def sendSetState_def sendGetNames_def sendSlaveAck_def enterReady_def Let_def

lemma tcu_helper_posts [simp]:
  "posts_only g (tcu_emit x h) = posts_only g h" "posts_only g (broadcastToListeners nt h) = posts_only g h"
  "posts_only g (dispatchResponse cb er h) = posts_only g h"
  "posts_only g (broadcastServiceState st h) = posts_only g h" "posts_only g (enterReady h) = posts_only g h"
  "posts_only g (sendSetState T a m cb h) = posts_only g h" "posts_only g (sendGetNames T p h) = posts_only g h"
  "posts_only g (sendSlaveAck T b a h) = posts_only g h"
  by (auto simp: posts_only_def tcu_helpers split: option.splits prod.splits)

lemma posts_only_local [simp]: "posts_only g (h\<lparr>tcu_local_state := a\<rparr>) = posts_only g h"
  by (simp add: posts_only_def)

lemma tcu_update_posts:
  "stateUpdate T d h = Inr h' \<Longrightarrow> posts_only h h'" "machineUpdate T d h = Inr h' \<Longrightarrow> posts_only h h'"
  "slaveAckUpdate T d h = Inr h' \<Longrightarrow> posts_only h h'"
  by (auto simp: stateUpdate_def machineUpdate_def slaveAckUpdate_def bindE_eq_Inr Let_def)

lemma with_data_Inr:
  "with_data f env h = Inr (r, h') \<Longrightarrow> r = HANDLED \<and> (h' = h \<or> (\<exists>d. env_data env = Some d \<and> f d h = Inr h'))"
  by (auto simp: with_data_def bindE_eq_Inr split: option.splits)

interpretation tcu: readiness "tcu_handlers T" tcu_en tcu_ex "tcu_up T" "tcu_down T"
  for T :: "'j tcu_ext"
proof unfold_locales
  fix s :: rstate and h h' :: "'j tcu_manager" and u r x
  show "tcu_handlers T s None_Signal h = Inr (TO_SUPER, h\<lparr>htemp := Top_St\<rparr>)"
    by (cases s) (simp_all add: super_st_def)
  show "\<exists>r t. tcu_handlers T s Entry_Signal h = Inr (r, (tcu_en s h)\<lparr>htemp := t\<rparr>)"
    by (cases s) auto
  show "\<exists>r t. tcu_handlers T s Exit_Signal h = Inr (r, (tcu_ex s h)\<lparr>htemp := t\<rparr>) \<and> (r = HANDLED \<or> t = Top_St)"
    by (cases s) auto
  show "tcu_en s (h\<lparr>htemp := x\<rparr>) = (tcu_en s h)\<lparr>htemp := x\<rparr>"
    by (cases s) (simp_all add: tcu_helpers split: option.splits prod.splits)
  show "tcu_ex s (h\<lparr>htemp := x\<rparr>) = (tcu_ex s h)\<lparr>htemp := x\<rparr>"
    by (cases s) (simp_all add: tcu_helpers)
  show "\<exists>r t. tcu_handlers T s Init_Signal h = Inr (r, h\<lparr>htemp := t\<rparr>) \<and> r \<noteq> NEED_TO_TRANSFER"
    by (cases s) (auto simp: super_st_def)
  show "tcu_handlers T s (User u) h = Inr (TO_SUPER, h') \<Longrightarrow> htemp h' = Top_St"
    by (cases s; cases u) (auto simp: to_st_def super_st_def bindE_eq_Inr split: if_splits dest!: with_data_Inr)
  show "tcu_handlers T s (User u) h = Inr (NEED_TO_TRANSFER, h') \<Longrightarrow> \<exists>t. htemp h' = St t"
    by (cases s; cases u) (auto simp: to_st_def super_st_def bindE_eq_Inr split: if_splits dest!: with_data_Inr)
  show "tcu_handlers T s (User u) h = Inr (r, h') \<Longrightarrow> posts_only h h'"
    by (cases s; cases u)
      (auto simp: to_st_def super_st_def bindE_eq_Inr split: if_splits dest!: with_data_Inr dest: tcu_update_posts)
  show "posts_only h (tcu_en s h)" "posts_only h (tcu_ex s h)"
    by (cases s; simp)+
  show "if tcu_up T u then r = NEED_TO_TRANSFER \<and> htemp h' = St Ready else r \<noteq> NEED_TO_TRANSFER"
    if "tcu_handlers T NotReady (User u) h = Inr (r, h')"
    using that by (cases u) (auto simp: to_st_def super_st_def bindE_eq_Inr split: if_splits)
  show "if tcu_down T u then r = NEED_TO_TRANSFER \<and> htemp h' = St NotReady else r \<noteq> NEED_TO_TRANSFER"
    if "tcu_handlers T Ready (User u) h = Inr (r, h')"
    using that by (cases u)
      (auto simp: to_st_def super_st_def bindE_eq_Inr split: if_splits dest!: with_data_Inr)
qed (simp_all add: kMaxNest_def numeral_eq_Suc)

section \<open>Events whose payload has the promised types\<close>

text \<open>
  \<open>tcu_typed\<close>: the fields that the handlers read are absent or of the promised JSON type, as the
  schemas of the topics require. Any other payload raises an exception in the handler.
\<close>

definition client_lists :: "'j json_lib \<Rightarrow> 'j \<Rightarrow> bool" where
  "client_lists J d \<longleftrightarrow>
     list_all (\<lambda>k. case j_find J d k of None \<Rightarrow> True
       | Some v \<Rightarrow> list_all (string_fields J [''clientName'', ''machineName'']) (j_iter J v)) [''unresponsive'', ''nack'']"

fun tcu_typed :: "'j tcu_ext \<Rightarrow> 'j tcu_event \<Rightarrow> bool" where
  "tcu_typed T (ReadinessEvt_Signal env) = pred_option (string_fields (tx_json T) [''status'']) (env_data env)"
| "tcu_typed T (StateUpdateInd_Signal env) =
     pred_option (string_fields (tx_json T) [''state'', ''machineName'']) (env_data env)"
| "tcu_typed T (MachineUpdateInd_Signal env) =
     pred_option (string_fields (tx_json T) [''machineName'', ''machineEvent'']) (env_data env)"
| "tcu_typed T (SlaveAckStatusInd_Signal env) =
     pred_option (\<lambda>d. string_fields (tx_json T) [''machineName''] d \<and> client_lists (tx_json T) d) (env_data env)"
| "tcu_typed T _ = True"

lemma client_infos_total:
  assumes "list_all (string_fields J [''clientName'', ''machineName'']) items"
  shows "\<exists>cs. decodeClientInfos J items = Inr cs"
  unfolding decodeClientInfos_def
proof (rule map_result_total)
  fix x assume "x \<in> set items"
  with assms have "string_fields J [''clientName'', ''machineName''] x" by (simp add: list_all_iff)
  from string_field_value [OF this, of "''clientName''"] string_field_value [OF this, of "''machineName''"]
  show "\<exists>y. bindE (value_string J x ''clientName'') (\<lambda>c. bindE (value_string J x ''machineName'') (\<lambda>m. Inr (c, m))) = Inr y"
    by auto
qed

lemma client_list_total:
  "j_is_object J d \<Longrightarrow> client_lists J d \<Longrightarrow> k = ''unresponsive'' \<or> k = ''nack'' \<Longrightarrow>
   \<exists>cs. bindE (value_items J d k) (decodeClientInfos J) = Inr cs"
  using client_infos_total [of J "case j_find J d k of None \<Rightarrow> [] | Some v \<Rightarrow> j_iter J v"]
  by (auto simp: value_items_def client_lists_def split: option.splits)

lemma tcu_updates_total:
  "string_fields (tx_json T) [''state'', ''machineName''] d \<Longrightarrow> \<exists>h'. stateUpdate T d h = Inr h'"
  "string_fields (tx_json T) [''machineName'', ''machineEvent''] d \<Longrightarrow> \<exists>h'. machineUpdate T d h = Inr h'"
  using string_field_value [of "tx_json T" "[''state'', ''machineName'']" d "''state''"]
    string_field_value [of "tx_json T" "[''state'', ''machineName'']" d "''machineName''"]
    string_field_value [of "tx_json T" "[''machineName'', ''machineEvent'']" d "''machineName''"]
    string_field_value [of "tx_json T" "[''machineName'', ''machineEvent'']" d "''machineEvent''"]
  by (auto simp: stateUpdate_def machineUpdate_def Let_def)

lemma slaveAckUpdate_total:
  assumes "string_fields (tx_json T) [''machineName''] d" "client_lists (tx_json T) d"
  shows "\<exists>h'. slaveAckUpdate T d h = Inr h'"
proof -
  have obj: "j_is_object (tx_json T) d" using assms(1) by (simp add: string_fields_def)
  from string_field_value [OF assms(1), of "''machineName''"] client_list_total [OF obj assms(2), of "''unresponsive''"]
    client_list_total [OF obj assms(2), of "''nack''"]
  show ?thesis by (auto simp: slaveAckUpdate_def Let_def)
qed

lemma with_data_total:
  "(\<And>d. env_data env = Some d \<Longrightarrow> \<exists>h'. f d h = Inr h') \<Longrightarrow> \<exists>r h'. with_data f env h = Inr (r, h')"
  by (fastforce simp: with_data_def split: option.splits)

lemma tcu_total:
  assumes "tcu_typed T u"
  shows "\<exists>r h'. tcu_handlers T s (User u) h = Inr (r, h')"
proof (cases u)
  case (ReadinessEvt_Signal env)
  with assms readiness_status_total [of "tx_json T" env "''AVAILABLE''"] readiness_status_total [of "tx_json T" env "''UNAVAILABLE''"]
  show ?thesis by (cases s) (auto simp: to_st_def)
qed (use assms in \<open>cases s; auto simp: to_st_def super_st_def
    intro!: with_data_total tcu_updates_total slaveAckUpdate_total\<close>)+

section \<open>What the handled events say\<close>

lemma tcu_exclusive: "tcu_up T u \<Longrightarrow> \<not> tcu_down T u"
  by (cases u) (auto simp: readiness_status_def bindE_eq_Inr split: option.splits)

lemma tcu_started:
  assumes "kMaxNest < n"
  shows "\<exists>h. tcu_start n T (newTcu cb) = Inr h \<and> hstate h = St NotReady \<and> ao_running h \<and> tcu_init_cb h = cb \<and>
    \<not> tcu_init_cb_fired h \<and> tcu_local_state h = UNKNOWN \<and>
    (\<forall>x \<in> set (tcu_out h). case x of Event_Subscribed _ _ \<Rightarrow> True | Connectivity_Subscribed _ \<Rightarrow> True | _ \<Rightarrow> False)"
proof -
  have "settle (\<lambda>_. Top_St) (\<lambda>_. None) kMaxNest NotReady = (NotReady, [])"
    by (simp add: kMaxNest_def numeral_eq_Suc)
  from tcu.init_refines [OF assms _ this, of T] show ?thesis
    by (simp add: tcu_start_def start_at_def newTcu_def trace_def tcu_emit_def)
qed

text \<open>A run of the worker over a list of well-typed events, from the start of the manager.\<close>

lemma tcu_run_total:
  assumes "kMaxNest < n" "list_all (tcu_typed T) us" "hstate h = St NotReady"
  shows "\<exists>h'. dispatch_all n (tcu_handlers T) us h = Inr h'"
  using assms by (intro tcu.shell_dispatch_all_total) (auto simp: list_all_iff intro: tcu_total)

fun is_init :: "'j tcu_effect \<Rightarrow> bool" where
  "is_init (Init_Called c s) = True"
| "is_init _ = False"

fun is_response :: "'j tcu_effect \<Rightarrow> bool" where
  "is_response (Response_Enqueued c e) = True"
| "is_response _ = False"

text \<open>The topic of a message handed to the bridge.\<close>

fun sent_topic :: "'j tcu_effect \<Rightarrow> string list" where
  "sent_topic (Request_Sent topic _ _ _ _) = [topic]"
| "sent_topic (Oneway_Sent topic _ _) = [topic]"
| "sent_topic _ = []"

definition call_init :: "nat option \<Rightarrow> 'j tcu_effect list" where
  "call_init cb = (case cb of None \<Rightarrow> [] | Some c \<Rightarrow> [Init_Called c SERVICE_AVAILABLE])"

fun expected_response :: "rstate \<Rightarrow> 'j tcu_event \<Rightarrow> 'j tcu_effect list" where
  "expected_response s (SetActivityState_Signal st m (Some c)) =
     [Response_Enqueued c (if s = Ready then EC_SUCCESS else EC_SUBSYSTEM_UNAVAILABLE)]"
| "expected_response s _ = []"

fun expected_topic :: "'j tcu_ext \<Rightarrow> rstate \<Rightarrow> 'j tcu_event \<Rightarrow> string list" where
  "expected_topic T Ready (SetActivityState_Signal _ _ _) = [set_state_req T]"
| "expected_topic T Ready (GetAllMachineNames_Signal _) = [get_machine_names_req T]"
| "expected_topic T Ready (SendActivityStateAck_Signal _ _) = [slave_ack_req T]"
| "expected_topic T _ _ = []"

lemma tcu_track:
  "track (tcu_up T) (tcu_down T) u NotReady = (if tcu_up T u then Ready else NotReady)"
  "track (tcu_up T) (tcu_down T) u Ready = (if tcu_down T u then NotReady else Ready)"
  by (simp_all add: track_def)

text \<open>The effects of one handled event, by kind.\<close>

lemma tcu_update_out:
  assumes "stateUpdate T d h = Inr h' \<or> machineUpdate T d h = Inr h' \<or> slaveAckUpdate T d h = Inr h'"
  shows "\<exists>zs. tcu_out h' = tcu_out h @ zs \<and> filter is_init zs = [] \<and> filter is_response zs = [] \<and>
    concat (map sent_topic zs) = [] \<and> tcu_init_cb h' = tcu_init_cb h \<and> tcu_init_cb_fired h' = tcu_init_cb_fired h"
  using assms
  by (auto simp: stateUpdate_def machineUpdate_def slaveAckUpdate_def bindE_eq_Inr Let_def broadcastToListeners_def
      tcu_emit_def)

lemma broadcastServiceState_out:
  "\<exists>zs. tcu_out (broadcastServiceState st h) = tcu_out h @ zs \<and> filter is_init zs = [] \<and> filter is_response zs = [] \<and>
    concat (map sent_topic zs) = [] \<and> tcu_init_cb (broadcastServiceState st h) = tcu_init_cb h \<and>
    tcu_init_cb_fired (broadcastServiceState st h) = tcu_init_cb_fired h"
  by (auto simp: broadcastServiceState_def tcu_emit_def Let_def)

lemma enterReady_out:
  "\<exists>zs. tcu_out (enterReady h) = tcu_out h @ zs \<and>
    filter is_init zs = (if tcu_init_cb_fired h then [] else call_init (tcu_init_cb h)) \<and>
    filter is_response zs = [] \<and> concat (map sent_topic zs) = [] \<and> tcu_init_cb (enterReady h) = tcu_init_cb h \<and>
    tcu_init_cb_fired (enterReady h)"
  using broadcastServiceState_out [of SERVICE_AVAILABLE h]
  by (auto simp: enterReady_def call_init_def tcu_emit_def Let_def split: option.splits)

definition tcu_view :: "'j tcu_manager \<Rightarrow>
    nat option \<times> bool \<times> 'j tcu_effect list \<times> 'j tcu_effect list \<times> string list" where
  "tcu_view h = (tcu_init_cb h, tcu_init_cb_fired h, filter is_init (tcu_out h), filter is_response (tcu_out h),
     concat (map sent_topic (tcu_out h)))"

definition tcu_view_step :: "'j tcu_ext \<Rightarrow> 'j tcu_event \<Rightarrow> rstate
    \<Rightarrow> nat option \<times> bool \<times> 'j tcu_effect list \<times> 'j tcu_effect list \<times> string list
    \<Rightarrow> nat option \<times> bool \<times> 'j tcu_effect list \<times> 'j tcu_effect list \<times> string list" where
  "tcu_view_step T u s v =
     (case v of (cb, fired, ic, rs, ts) \<Rightarrow>
       (cb, fired \<or> s = NotReady \<and> tcu_up T u,
        ic @ (if s = NotReady \<and> tcu_up T u \<and> \<not> fired then call_init cb else []),
        rs @ expected_response s u, ts @ expected_topic T s u))"

lemma tcu_view_NotReady:
  assumes "NotReady_St T (User u) h = Inr (r, h1)"
  shows "tcu_view (if tcu_up T u then enterReady h1 else h1) = tcu_view_step T u NotReady (tcu_view h)"
proof (cases "tcu_up T u")
  case True
  then obtain env where "u = ReadinessEvt_Signal env" by (cases u) auto
  with assms True have "tcu_view h1 = tcu_view h" "expected_response NotReady u = []" "expected_topic T NotReady u = []"
    by (auto simp: to_st_def tcu_view_def)
  with True enterReady_out [of h1] show ?thesis by (auto simp: tcu_view_def tcu_view_step_def)
next
  case False
  with assms show ?thesis
    by (cases u) (auto simp: super_st_def bindE_eq_Inr dispatchResponse_def tcu_emit_def tcu_view_def tcu_view_step_def
        to_st_def split: option.splits if_splits)
qed

lemma tcu_view_same:
  "tcu_out h' = tcu_out h @ zs \<and> filter is_init zs = [] \<and> filter is_response zs = [] \<and>
    concat (map sent_topic zs) = [] \<and> tcu_init_cb h' = tcu_init_cb h \<and> tcu_init_cb_fired h' = tcu_init_cb_fired h
   \<Longrightarrow> tcu_view h' = tcu_view h"
  by (simp add: tcu_view_def)

lemma tcu_view_updates:
  "with_data (stateUpdate T) env h = Inr (r, h') \<Longrightarrow> tcu_view h' = tcu_view h"
  "with_data (machineUpdate T) env h = Inr (r, h') \<Longrightarrow> tcu_view h' = tcu_view h"
  "with_data (slaveAckUpdate T) env h = Inr (r, h') \<Longrightarrow> tcu_view h' = tcu_view h"
  using tcu_update_out tcu_view_same by (metis with_data_Inr)+

lemma tcu_view_sends:
  "tcu_view (sendSetState T st m cb h) = tcu_view_step T (SetActivityState_Signal st m cb) Ready (tcu_view h)"
  "tcu_view (sendGetNames T p h) = tcu_view_step T (GetAllMachineNames_Signal p) Ready (tcu_view h)"
  "tcu_view (sendSlaveAck T a st h) = tcu_view_step T (SendActivityStateAck_Signal a st) Ready (tcu_view h)"
  by (auto simp: sendSetState_def sendGetNames_def sendSlaveAck_def make_request_def dispatchResponse_def tcu_emit_def
      tcu_view_def tcu_view_step_def Let_def split: option.splits prod.splits)

lemma tcu_view_silent:
  "expected_response Ready u = [] \<Longrightarrow> expected_topic T Ready u = [] \<Longrightarrow> tcu_view_step T u Ready v = v"
  by (simp add: tcu_view_step_def split: prod.splits)

lemma tcu_view_Ready:
  assumes "Ready_St T (User u) h = Inr (r, h1)"
  shows "tcu_view (if tcu_down T u then broadcastServiceState SERVICE_UNAVAILABLE h1 else h1) =
    tcu_view_step T u Ready (tcu_view h)"
proof -
  have down: "tcu_view (broadcastServiceState SERVICE_UNAVAILABLE h1) = tcu_view h1"
    using broadcastServiceState_out tcu_view_same by metis
  show ?thesis
  proof (cases "tcu_down T u")
    case True
    then have "expected_response Ready u = []" "expected_topic T Ready u = []" "tcu_view h1 = tcu_view h"
      using assms by (cases u; auto simp: to_st_def tcu_view_def bindE_eq_Inr)+
    with down True show ?thesis by (simp add: tcu_view_silent)
  next
    case False
    with assms show ?thesis
      by (cases u) (auto simp: tcu_view_sends tcu_view_silent bindE_eq_Inr to_st_def dest: tcu_view_updates)
  qed
qed

lemma tcu_view_run:
  assumes "kMaxNest < n" "hstate h = St s" "dispatch_all n (tcu_handlers T) us h = Inr h'"
  shows "tcu_view h' =
    snd (fold (\<lambda>u (s, v). (track (tcu_up T) (tcu_down T) u s, tcu_view_step T u s v)) us (s, tcu_view h))"
proof (rule tcu.dispatch_view [OF assms(1) _ _ _ assms(2,3)])
  fix s u h r h1 assume "tcu_handlers T s (User u) h = Inr (r, h1)"
  then show "tcu_view (if track (tcu_up T) (tcu_down T) u s = s then h1
      else tcu_en (track (tcu_up T) (tcu_down T) u s) (tcu_ex s h1)) = tcu_view_step T u s (tcu_view h)"
    using tcu_view_NotReady [of T u h r h1] tcu_view_Ready [of T u h r h1] by (cases s) (auto simp: tcu_track)
qed (simp_all add: tcu_view_def erase_def)


definition tcu_outcome :: "nat \<Rightarrow> 'j tcu_ext \<Rightarrow> nat option \<Rightarrow> 'j tcu_event list \<Rightarrow> 'j tcu_manager result" where
  "tcu_outcome n T cb us =
     bindE (tcu_start n T (newTcu cb)) (\<lambda>h. dispatch_all n (tcu_handlers T) us h)"

lemma fold_responses:
  "(case snd (fold (\<lambda>u (s, v). (track (tcu_up T) (tcu_down T) u s, tcu_view_step T u s v)) us (s, v)) of
      (cb, f, ic, rs, ts) \<Rightarrow> (rs, ts)) =
   (case v of (cb, f, ic, rs, ts) \<Rightarrow> (rs @ along (track (tcu_up T) (tcu_down T)) expected_response s us, ts @ along (track (tcu_up T) (tcu_down T)) (expected_topic T) s us))"
  by (induction us arbitrary: s v) (auto simp: tcu_view_step_def)

lemma fold_inits:
  "\<not> f \<longrightarrow> s = NotReady \<Longrightarrow>
   (case snd (fold (\<lambda>u (s, v). (track (tcu_up T) (tcu_down T) u s, tcu_view_step T u s v)) us (s, (cb, f, ic, rs, ts))) of
      (cb, f, ic, rs, ts) \<Rightarrow> ic) = ic @ (if \<not> f \<and> list_ex (tcu_up T) us then call_init cb else [])"
  by (induction us arbitrary: s f ic rs ts) (auto simp: tcu_view_step_def tcu_track)

lemma tcu_outcome_total:
  assumes "kMaxNest < n" "list_all (tcu_typed T) us"
  shows "\<exists>h'. tcu_outcome n T cb us = Inr h' \<and>
    hstate h' = St (fold (track (tcu_up T) (tcu_down T)) us NotReady) \<and>
    tcu_view h' = snd (fold (\<lambda>u (s, v). (track (tcu_up T) (tcu_down T) u s, tcu_view_step T u s v)) us
      (NotReady, (cb, False, [], [], [])))"
proof -
  from tcu_started [OF assms(1), of T cb] obtain h where h: "tcu_start n T (newTcu cb) = Inr h"
    "hstate h = St NotReady" "tcu_init_cb h = cb" "\<not> tcu_init_cb_fired h"
    and out: "\<forall>x \<in> set (tcu_out h). case x of Event_Subscribed _ _ \<Rightarrow> True | Connectivity_Subscribed _ \<Rightarrow> True | _ \<Rightarrow> False"
    by blast
  have "\<not> is_init x \<and> \<not> is_response x \<and> sent_topic x = []" if "x \<in> set (tcu_out h)" for x
    using out that by (cases x) auto
  then have v: "tcu_view h = (cb, False, [], [], [])"
    using h by (auto simp: tcu_view_def filter_empty_conv)
  from tcu_run_total [OF assms h(2)] obtain h' where r: "dispatch_all n (tcu_handlers T) us h = Inr h'" by blast
  from tcu_view_run [OF assms(1) h(2) r] tcu.dispatch_track [OF assms(1) h(2) r] v h(1) r show ?thesis
    by (simp add: tcu_outcome_def)
qed

section \<open>A concrete run\<close>

definition demo_tcu :: "jtree tcu_ext" where
  "demo_tcu = \<lparr>tx_json = tree_lib, subsys_ready_tcu_ind = ''r'', state_update_ind = ''s'', machine_update_ind = ''m'',
     slave_ack_status_ind = ''a'', set_state_req = ''set'', get_machine_names_req = ''names'', slave_ack_req = ''ack'',
     tx_pa_id = ''pa-1'', tx_token = 1, tx_home = None, tx_machine_line = None\<rparr>"

definition demo_ready :: "jtree tcu_event" where
  "demo_ready = ReadinessEvt_Signal (fst (makeEventEnvelope 3 ''pa-1'' (JObj [(''status'', JStr ''AVAILABLE'')]) 42))"

lemma demo_ready_facts [simp]:
  "tcu_up demo_tcu demo_ready" "\<not> tcu_down demo_tcu demo_ready" "tcu_typed demo_tcu demo_ready"
  "expected_response s demo_ready = []" "expected_topic T s demo_ready = []"
  by (simp_all add: demo_ready_def makeEventEnvelope_def nextCorrId_def readiness_status_def value_string_def value_as_def
      demo_tcu_def tree_lib_def string_fields_def)

definition demo_tcu_events :: "jtree tcu_event list" where
  "demo_tcu_events = [SetActivityState_Signal RESUME ''mdm'' (Some 4), demo_ready,
     SetActivityState_Signal SUSPEND ''mdm'' (Some 5), BridgeConnectivityChanged_Signal False, demo_ready]"

lemma demo_tcu_typed: "list_all (tcu_typed demo_tcu) demo_tcu_events"
  by (simp add: demo_tcu_events_def)

section \<open>Properties\<close>

text \<open>The service status. From the start of the manager, whatever well-typed events its worker
  handles, it returns and \<open>getServiceStatus\<close> is \<open>SERVICE_AVAILABLE\<close> exactly when the last event
  that changed readiness was an indication with status \<open>AVAILABLE\<close>, with neither an
  \<open>UNAVAILABLE\<close> indication nor a loss of the bridge after it.\<close>

theorem tcu_status_follows_events:
  assumes "kMaxNest < n" "list_all (tcu_typed T) us"
  shows "\<exists>h'. tcu_outcome n T cb us = Inr h' \<and>
    (tcu_getServiceStatus h' = SERVICE_AVAILABLE \<longleftrightarrow>
       (\<exists>xs u ys. us = xs @ u # ys \<and> tcu_up T u \<and> list_all (\<lambda>v. \<not> tcu_down T v) ys))"
proof -
  from tcu_outcome_total [OF assms, of cb] obtain h' where "tcu_outcome n T cb us = Inr h'"
    "hstate h' = St (fold (track (tcu_up T) (tcu_down T)) us NotReady)" by blast
  with track_last [of "tcu_up T" "tcu_down T" us, OF tcu_exclusive] show ?thesis
    by (intro exI [of _ h']) (simp add: tcu_getServiceStatus_def isReadyDerived_def)
qed

theorem tcu_status_follows_events_witness:
  "\<exists>h'. tcu_outcome 9 demo_tcu None demo_tcu_events = Inr h' \<and> tcu_getServiceStatus h' = SERVICE_AVAILABLE"
proof -
  have "\<exists>xs u ys. demo_tcu_events = xs @ u # ys \<and> tcu_up demo_tcu u \<and> list_all (\<lambda>v. \<not> tcu_down demo_tcu v) ys"
    by (rule exI [of _ "butlast demo_tcu_events"], rule exI [of _ demo_ready], rule exI [of _ "[]"])
      (simp add: demo_tcu_events_def)
  then show ?thesis
    using tcu_status_follows_events [OF _ demo_tcu_typed, of 9 None] by (simp add: kMaxNest_def)
qed

text \<open>The init callback. It is called with \<open>SERVICE_AVAILABLE\<close>, exactly once if an
  indication with status \<open>AVAILABLE\<close> was handled and never otherwise, however often the manager
  enters and leaves \<open>Ready\<close>.\<close>

theorem tcu_init_called_once:
  assumes "kMaxNest < n" "list_all (tcu_typed T) us"
  shows "\<exists>h'. tcu_outcome n T (Some c) us = Inr h' \<and>
    filter is_init (tcu_out h') = (if list_ex (tcu_up T) us then [Init_Called c SERVICE_AVAILABLE] else [])"
  using tcu_outcome_total [OF assms, of "Some c"] fold_inits [of False NotReady T us "Some c" "[]" "[]" "[]"]
  by (auto simp: tcu_view_def call_init_def split: prod.splits)

theorem tcu_init_called_once_witness:
  "\<exists>h'. tcu_outcome 9 demo_tcu (Some 2) demo_tcu_events = Inr h' \<and>
    filter is_init (tcu_out h') = [Init_Called 2 SERVICE_AVAILABLE]"
  using tcu_init_called_once [OF _ demo_tcu_typed, of 9 2] by (simp add: kMaxNest_def demo_tcu_events_def)

text \<open>C38: requests. Each \<open>setActivityState\<close> with a callback is answered exactly once and in order,
  with \<open>SUCCESS\<close> when it is handled in \<open>Ready\<close> and \<open>SUBSYSTEM_UNAVAILABLE\<close> otherwise; the bridge
  receives exactly one message per request that is handled in \<open>Ready\<close>, in order and on its topic,
  and nothing else.\<close>

theorem tcu_requests_answered:
  assumes "kMaxNest < n" "list_all (tcu_typed T) us"
  shows "\<exists>h'. tcu_outcome n T cb us = Inr h' \<and>
    filter is_response (tcu_out h') = along (track (tcu_up T) (tcu_down T)) expected_response NotReady us \<and>
    concat (map sent_topic (tcu_out h')) = along (track (tcu_up T) (tcu_down T)) (expected_topic T) NotReady us"
  using tcu_outcome_total [OF assms, of cb] fold_responses [of T us NotReady "(cb, False, [], [], [])"]
  by (auto simp: tcu_view_def split: prod.splits)


theorem tcu_requests_answered_witness:
  "\<exists>h'. tcu_outcome 9 demo_tcu None demo_tcu_events = Inr h' \<and>
    filter is_response (tcu_out h') = [Response_Enqueued 4 EC_SUBSYSTEM_UNAVAILABLE, Response_Enqueued 5 EC_SUCCESS] \<and>
    concat (map sent_topic (tcu_out h')) = [''set'']"
  using tcu_requests_answered [OF _ demo_tcu_typed, of 9 None]
  by (simp add: kMaxNest_def demo_tcu_events_def tcu_track) (simp add: demo_tcu_def)

end
