(* ===== verification/Power_Wakeup.thy ===== *)
theory Power_Wakeup
  imports Ready_Shell
begin

text \<open>
  \<open>component/power/WakeupManager.{hpp,cpp}\<close>: the manager that relays wake-up indications of the
  bridge to its listeners while it is ready. Effects are recorded in \<open>wk_out\<close> as in the other
  managers; listeners are weak references, \<open>wk_live\<close> holds those that can be locked.
\<close>

section \<open>Data\<close>

datatype wakeup_type = WT_UNKNOWN | WT_QMI

record qmi_wakeup_info =
  qw_serviceId :: "32 word"
  qw_sourceNodeId :: "32 word"
  qw_destinationNodeId :: "32 word"
  qw_isMsgIdValid :: bool
  qw_msgId :: "32 word"
  qw_isPIDValid :: bool
  qw_pid :: "32 word"
  qw_isProcessNameValid :: bool
  qw_processName :: string

record wakeup_info =
  wi_qmi :: qmi_wakeup_info
  wi_type :: wakeup_type

datatype wakeup_effect =
    W_Init_Called nat service_status
  | On_Wakeup_Enqueued "nat list" wakeup_info
  | W_Subscribed string string
  | W_Unsubscribed string
  | W_Connectivity_Subscribed nat
  | W_Connectivity_Unsubscribed nat
  | W_Bridge_Drained

datatype 'j wakeup_event =
    W_ReadinessEvt_Signal "'j envelope"
  | W_BridgeConnectivityChanged_Signal bool
  | WakeupInd_Signal "'j envelope"

record 'j wakeup_manager = "(rstate, 'j wakeup_event) active_object" +
  wk_init_cb :: "nat option"
  wk_conn_token :: nat
  wk_listeners :: "nat list"
  wk_live :: "nat list"
  wk_out :: "wakeup_effect list"

text \<open>Parameters: the JSON library, the two topic names, and the bridge's next connectivity token.\<close>

record 'j wakeup_ext =
  wx_json :: "'j json_lib"
  subsys_ready_wakeup_ind :: string
  wakeup_ind :: string
  wx_token :: nat

section \<open>Operations\<close>

text \<open>A value-initialised \<open>QmiWakeupInfo\<close>.\<close>

definition qmi_zero :: qmi_wakeup_info where
  "qmi_zero = \<lparr>qw_serviceId = 0, qw_sourceNodeId = 0, qw_destinationNodeId = 0, qw_isMsgIdValid = False, qw_msgId = 0,
     qw_isPIDValid = False, qw_pid = 0, qw_isProcessNameValid = False, qw_processName = []\<rparr>"

definition decodeQmiWakeupInfo :: "'j json_lib \<Rightarrow> 'j \<Rightarrow> qmi_wakeup_info result" where
  "decodeQmiWakeupInfo J dat =
     bindE (value_word J dat ''serviceId'') (\<lambda>service.
     bindE (value_word J dat ''sourceNodeId'') (\<lambda>source.
     bindE (value_word J dat ''destinationNodeId'') (\<lambda>destination.
     bindE (value_bool J dat ''isMsgIdValid'') (\<lambda>msg_valid.
     bindE (value_word J dat ''msgId'') (\<lambda>msg.
     bindE (value_bool J dat ''isPIDValid'') (\<lambda>pid_valid.
     bindE (value_word J dat ''pid'') (\<lambda>pid.
     bindE (value_bool J dat ''isProcessNameValid'') (\<lambda>name_valid.
     bindE (value_string J dat ''processName'') (\<lambda>name.
       Inr \<lparr>qw_serviceId = service, qw_sourceNodeId = source, qw_destinationNodeId = destination,
         qw_isMsgIdValid = msg_valid, qw_msgId = msg, qw_isPIDValid = pid_valid, qw_pid = pid,
         qw_isProcessNameValid = name_valid, qw_processName = name\<rparr>)))))))))"

definition wk_emit :: "wakeup_effect \<Rightarrow> 'j wakeup_manager \<Rightarrow> 'j wakeup_manager" where
  "wk_emit x h = h\<lparr>wk_out := wk_out h @ [x]\<rparr>"

definition wk_broadcastToListeners :: "wakeup_info \<Rightarrow> 'j wakeup_manager \<Rightarrow> 'j wakeup_manager" where
  "wk_broadcastToListeners info h =
     (let ls = filter (\<lambda>l. l \<in> set (wk_live h)) (wk_listeners h)
      in if ls = [] then h else wk_emit (On_Wakeup_Enqueued ls info) h)"

definition wk_isReadyDerived :: "'j wakeup_manager \<Rightarrow> bool" where
  "wk_isReadyDerived h \<longleftrightarrow> hstate h = St Ready"

text \<open>The \<open>WakeupInfo\<close> of an indication.\<close>

definition wakeup_info_of :: "'j json_lib \<Rightarrow> 'j \<Rightarrow> wakeup_info result" where
  "wakeup_info_of J dat =
     bindE (value_string J dat ''wakeupType'') (\<lambda>ty.
       let wt = (if ty = ''QMI'' then WT_QMI else WT_UNKNOWN) in
       (case j_find J dat ''qmiWakeupInfo'' of
          None \<Rightarrow> Inr \<lparr>wi_qmi = qmi_zero, wi_type = wt\<rparr>
        | Some q \<Rightarrow> bindE (decodeQmiWakeupInfo J q) (\<lambda>qmi. Inr \<lparr>wi_qmi = qmi, wi_type = wt\<rparr>)))"

fun WakeupNotReady_St :: "'j wakeup_ext \<Rightarrow> 'j wakeup_event event \<Rightarrow> 'j wakeup_manager
    \<Rightarrow> (status \<times> 'j wakeup_manager) result" where
  "WakeupNotReady_St T Entry_Signal h = Inr (HANDLED, h)"
| "WakeupNotReady_St T Exit_Signal h = Inr (HANDLED, h)"
| "WakeupNotReady_St T (User (W_ReadinessEvt_Signal env)) h =
     bindE (readiness_status (wx_json T) ''AVAILABLE'' env) (\<lambda>up.
       Inr (if up then to_st (St Ready) h else (HANDLED, h)))"
| "WakeupNotReady_St T (User (W_BridgeConnectivityChanged_Signal b)) h = Inr (HANDLED, h)"
| "WakeupNotReady_St T _ h = Inr (super_st Top_St h)"

definition wk_enterReady :: "'j wakeup_manager \<Rightarrow> 'j wakeup_manager" where
  "wk_enterReady h =
     (case wk_init_cb h of
        None \<Rightarrow> h
      | Some c \<Rightarrow> (wk_emit (W_Init_Called c SERVICE_AVAILABLE) h)\<lparr>wk_init_cb := None\<rparr>)"

fun WakeupReady_St :: "'j wakeup_ext \<Rightarrow> 'j wakeup_event event \<Rightarrow> 'j wakeup_manager
    \<Rightarrow> (status \<times> 'j wakeup_manager) result" where
  "WakeupReady_St T Entry_Signal h = Inr (HANDLED, wk_enterReady h)"
| "WakeupReady_St T Exit_Signal h = Inr (HANDLED, h)"
| "WakeupReady_St T (User (W_ReadinessEvt_Signal env)) h =
     bindE (readiness_status (wx_json T) ''UNAVAILABLE'' env) (\<lambda>dn.
       Inr (if dn then to_st (St NotReady) h else (HANDLED, h)))"
| "WakeupReady_St T (User (W_BridgeConnectivityChanged_Signal b)) h =
     Inr (if \<not> b then to_st (St NotReady) h else (HANDLED, h))"
| "WakeupReady_St T (User (WakeupInd_Signal env)) h =
     (case env_data env of
        None \<Rightarrow> Inr (HANDLED, h)
      | Some d \<Rightarrow> bindE (wakeup_info_of (wx_json T) d) (\<lambda>info. Inr (HANDLED, wk_broadcastToListeners info h)))"
| "WakeupReady_St T _ h = Inr (super_st Top_St h)"

fun wakeup_handlers :: "'j wakeup_ext \<Rightarrow> rstate \<Rightarrow> 'j wakeup_event event \<Rightarrow> 'j wakeup_manager
    \<Rightarrow> (status \<times> 'j wakeup_manager) result" where
  "wakeup_handlers T NotReady e h = WakeupNotReady_St T e h"
| "wakeup_handlers T Ready e h = WakeupReady_St T e h"

definition newWakeup :: "nat option \<Rightarrow> 'j wakeup_manager" where
  "newWakeup initCb =
     \<lparr>hstate = Top_St, htemp = Top_St, last_ignored = False, trace_fn = False, probe_fn = False, instr_log = [],
      ao_name = ''WakeupManager'', ao_inst = False, ao_q = [], ao_running = False,
      wk_init_cb = initCb, wk_conn_token = 0, wk_listeners = [], wk_live = [], wk_out = []\<rparr>"

definition wakeup_start :: "nat \<Rightarrow> 'j wakeup_ext \<Rightarrow> 'j wakeup_manager \<Rightarrow> 'j wakeup_manager result" where
  "wakeup_start n T h =
     (if ao_running h then Inr h
      else bindE (start_at n (wakeup_handlers T) (St NotReady) (h\<lparr>ao_inst := True\<rparr>)) (\<lambda>h.
        Inr ((wk_emit (W_Connectivity_Subscribed (wx_token T))
          (wk_emit (W_Subscribed (wakeup_ind T) ''power.wakeup.ind'')
          (wk_emit (W_Subscribed (subsys_ready_wakeup_ind T) ''power.subsys_ready_wakeup.ind'') h)))
          \<lparr>wk_conn_token := wx_token T\<rparr>)))"

definition wk_unsubscribeFromBridge :: "'j wakeup_ext \<Rightarrow> 'j wakeup_manager \<Rightarrow> 'j wakeup_manager" where
  "wk_unsubscribeFromBridge T h =
     (let h = wk_emit (W_Unsubscribed (subsys_ready_wakeup_ind T)) h;
          h = wk_emit (W_Unsubscribed (wakeup_ind T)) h;
          h = wk_emit (W_Connectivity_Unsubscribed (wk_conn_token h)) h;
          h = h\<lparr>wk_conn_token := 0\<rparr>
      in wk_emit W_Bridge_Drained h)"

definition wakeup_destroy :: "nat \<Rightarrow> nat \<Rightarrow> 'j wakeup_ext \<Rightarrow> 'j wakeup_manager \<Rightarrow> 'j wakeup_manager result" where
  "wakeup_destroy k n T h = stop k n (wakeup_handlers T) False (wk_unsubscribeFromBridge T h)"

definition handleWakeupInd :: "'j wakeup_ext \<Rightarrow> string \<Rightarrow> 'j envelope \<Rightarrow> 'j wakeup_manager \<Rightarrow> 'j wakeup_manager" where
  "handleWakeupInd T topic env =
     post_fifo (if topic = subsys_ready_wakeup_ind T then W_ReadinessEvt_Signal env else WakeupInd_Signal env)"

definition wk_registerListener :: "nat \<Rightarrow> 'j wakeup_manager \<Rightarrow> error_code \<times> 'j wakeup_manager" where
  "wk_registerListener l h = (EC_SUCCESS, h\<lparr>wk_listeners := wk_listeners h @ [l]\<rparr>)"

definition wk_deRegisterListener :: "nat \<Rightarrow> 'j wakeup_manager \<Rightarrow> error_code \<times> 'j wakeup_manager" where
  "wk_deRegisterListener l h = (EC_SUCCESS, h\<lparr>wk_listeners := without_listener l (wk_live h) (wk_listeners h)\<rparr>)"

definition wk_getServiceStatus :: "'j wakeup_manager \<Rightarrow> service_status" where
  "wk_getServiceStatus h = (if wk_isReadyDerived h then SERVICE_AVAILABLE else SERVICE_UNAVAILABLE)"

section \<open>The chart\<close>

fun wk_en :: "rstate \<Rightarrow> 'j wakeup_manager \<Rightarrow> 'j wakeup_manager" where
  "wk_en NotReady h = h"
| "wk_en Ready h = wk_enterReady h"

fun wk_up :: "'j wakeup_ext \<Rightarrow> 'j wakeup_event \<Rightarrow> bool" where
  "wk_up T (W_ReadinessEvt_Signal env) \<longleftrightarrow> readiness_status (wx_json T) ''AVAILABLE'' env = Inr True"
| "wk_up T _ \<longleftrightarrow> False"

fun wk_down :: "'j wakeup_ext \<Rightarrow> 'j wakeup_event \<Rightarrow> bool" where
  "wk_down T (W_ReadinessEvt_Signal env) \<longleftrightarrow> readiness_status (wx_json T) ''UNAVAILABLE'' env = Inr True"
| "wk_down T (W_BridgeConnectivityChanged_Signal b) \<longleftrightarrow> \<not> b"
| "wk_down T _ \<longleftrightarrow> False"

lemmas wk_helpers = wk_emit_def wk_broadcastToListeners_def wk_enterReady_def Let_def

lemma wk_helper_posts [simp]:
  "posts_only g (wk_emit x h) = posts_only g h" "posts_only g (wk_broadcastToListeners i h) = posts_only g h"
  "posts_only g (wk_enterReady h) = posts_only g h"
  by (auto simp: posts_only_def wk_helpers split: option.splits)

interpretation wk: readiness "wakeup_handlers T" wk_en "\<lambda>_ h. h" "wk_up T" "wk_down T"
  for T :: "'j wakeup_ext"
proof unfold_locales
  fix s :: rstate and h h' :: "'j wakeup_manager" and u r x
  show "wakeup_handlers T s None_Signal h = Inr (TO_SUPER, h\<lparr>htemp := Top_St\<rparr>)"
    by (cases s) (simp_all add: super_st_def)
  show "\<exists>r t. wakeup_handlers T s Entry_Signal h = Inr (r, (wk_en s h)\<lparr>htemp := t\<rparr>)"
    by (cases s) auto
  show "\<exists>r t. wakeup_handlers T s Exit_Signal h = Inr (r, h\<lparr>htemp := t\<rparr>) \<and> (r = HANDLED \<or> t = Top_St)"
    by (cases s) (auto intro: exI [of _ "htemp h"])
  show "wk_en s (h\<lparr>htemp := x\<rparr>) = (wk_en s h)\<lparr>htemp := x\<rparr>"
    by (cases s) (simp_all add: wk_helpers split: option.splits)
  show "\<exists>r t. wakeup_handlers T s Init_Signal h = Inr (r, h\<lparr>htemp := t\<rparr>) \<and> r \<noteq> NEED_TO_TRANSFER"
    by (cases s) (auto simp: super_st_def)
  show "wakeup_handlers T s (User u) h = Inr (TO_SUPER, h') \<Longrightarrow> htemp h' = Top_St"
    by (cases s; cases u) (auto simp: to_st_def super_st_def bindE_eq_Inr split: if_splits option.splits)
  show "wakeup_handlers T s (User u) h = Inr (NEED_TO_TRANSFER, h') \<Longrightarrow> \<exists>t. htemp h' = St t"
    by (cases s; cases u) (auto simp: to_st_def super_st_def bindE_eq_Inr split: if_splits option.splits)
  show "wakeup_handlers T s (User u) h = Inr (r, h') \<Longrightarrow> posts_only h h'"
    by (cases s; cases u) (auto simp: to_st_def super_st_def bindE_eq_Inr split: if_splits option.splits)
  show "posts_only h (wk_en s h)" by (cases s) simp_all
  show "if wk_up T u then r = NEED_TO_TRANSFER \<and> htemp h' = St Ready else r \<noteq> NEED_TO_TRANSFER"
    if "wakeup_handlers T NotReady (User u) h = Inr (r, h')"
    using that by (cases u) (auto simp: to_st_def super_st_def bindE_eq_Inr split: if_splits)
  show "if wk_down T u then r = NEED_TO_TRANSFER \<and> htemp h' = St NotReady else r \<noteq> NEED_TO_TRANSFER"
    if "wakeup_handlers T Ready (User u) h = Inr (r, h')"
    using that by (cases u) (auto simp: to_st_def super_st_def bindE_eq_Inr split: if_splits option.splits)
qed (simp_all add: kMaxNest_def numeral_eq_Suc)

section \<open>What the handled events say\<close>

fun wk_typed :: "'j wakeup_ext \<Rightarrow> 'j wakeup_event \<Rightarrow> bool" where
  "wk_typed T (W_ReadinessEvt_Signal env) = pred_option (string_fields (wx_json T) [''status'']) (env_data env)"
| "wk_typed T (WakeupInd_Signal env) =
     pred_option (\<lambda>d. case wakeup_info_of (wx_json T) d of Inl _ \<Rightarrow> False | Inr _ \<Rightarrow> True) (env_data env)"
| "wk_typed T _ = True"

lemma wk_total:
  assumes "wk_typed T u"
  shows "\<exists>r h'. wakeup_handlers T s (User u) h = Inr (r, h')"
proof (cases u)
  case (W_ReadinessEvt_Signal env)
  with assms readiness_status_total [of "wx_json T" env "''AVAILABLE''"]
    readiness_status_total [of "wx_json T" env "''UNAVAILABLE''"]
  show ?thesis by (cases s) (auto simp: to_st_def)
qed (use assms in \<open>cases s; auto simp: to_st_def super_st_def split: option.splits sum.splits\<close>)+

fun is_wk_init :: "wakeup_effect \<Rightarrow> bool" where
  "is_wk_init (W_Init_Called c s) = True"
| "is_wk_init _ = False"

fun is_relay :: "wakeup_effect \<Rightarrow> bool" where
  "is_relay (On_Wakeup_Enqueued ls i) = True"
| "is_relay _ = False"

text \<open>The information an indication carries, when it is handled in \<open>Ready\<close>.\<close>

fun relayed :: "'j wakeup_ext \<Rightarrow> rstate \<Rightarrow> 'j wakeup_event \<Rightarrow> wakeup_info list" where
  "relayed T Ready (WakeupInd_Signal env) =
     (case env_data env of
        None \<Rightarrow> []
      | Some d \<Rightarrow> (case wakeup_info_of (wx_json T) d of Inl _ \<Rightarrow> [] | Inr i \<Rightarrow> [i]))"
| "relayed T _ _ = []"

definition wk_view :: "'j wakeup_manager \<Rightarrow> nat list \<times> nat option \<times> wakeup_effect list \<times> wakeup_effect list" where
  "wk_view h = (filter (\<lambda>l. l \<in> set (wk_live h)) (wk_listeners h), wk_init_cb h,
     filter is_wk_init (wk_out h), filter is_relay (wk_out h))"

definition wk_view_step :: "'j wakeup_ext \<Rightarrow> 'j wakeup_event \<Rightarrow> rstate
    \<Rightarrow> nat list \<times> nat option \<times> wakeup_effect list \<times> wakeup_effect list
    \<Rightarrow> nat list \<times> nat option \<times> wakeup_effect list \<times> wakeup_effect list" where
  "wk_view_step T u s v =
     (case v of (ls, cb, ic, rs) \<Rightarrow>
       (ls, if s = NotReady \<and> wk_up T u then None else cb,
        ic @ (if s = NotReady \<and> wk_up T u then (case cb of None \<Rightarrow> [] | Some c \<Rightarrow> [W_Init_Called c SERVICE_AVAILABLE]) else []),
        rs @ (if ls = [] then [] else map (On_Wakeup_Enqueued ls) (relayed T s u))))"

lemma wk_track:
  "track (wk_up T) (wk_down T) u NotReady = (if wk_up T u then Ready else NotReady)"
  "track (wk_up T) (wk_down T) u Ready = (if wk_down T u then NotReady else Ready)"
  by (simp_all add: track_def)

lemma wk_view_enter: "wk_up T u \<Longrightarrow> wk_view (wk_enterReady h) = wk_view_step T u NotReady (wk_view h)"
  by (cases u) (auto simp: wk_view_def wk_view_step_def wk_enterReady_def wk_emit_def split: option.splits)

lemma wk_view_temp [simp]: "wk_view (h\<lparr>htemp := x\<rparr>) = wk_view h"
  by (simp add: wk_view_def)

lemma wk_view_quiet: "relayed T Ready u = [] \<Longrightarrow> wk_view_step T u Ready v = v"
  by (simp add: wk_view_step_def split: prod.splits)

lemma wk_view_relay:
  "env_data env = Some d \<Longrightarrow> wakeup_info_of (wx_json T) d = Inr i \<Longrightarrow>
   wk_view (wk_broadcastToListeners i h) = wk_view_step T (WakeupInd_Signal env) Ready (wk_view h)"
  by (simp add: wk_view_step_def wk_view_def wk_broadcastToListeners_def wk_emit_def Let_def)

lemma wk_view_handler:
  assumes "wakeup_handlers T s (User u) h = Inr (r, h1)"
  shows "wk_view (if track (wk_up T) (wk_down T) u s = s then h1
      else wk_en (track (wk_up T) (wk_down T) u s) h1) = wk_view_step T u s (wk_view h)"
proof (cases s)
  case NotReady
  have quiet: "wk_view_step T u NotReady v = v" if "\<not> wk_up T u" for v
    using that by (simp add: wk_view_step_def split: prod.splits)
  have same: "wk_view h1 = wk_view h"
    using assms NotReady by (cases u) (auto simp: to_st_def super_st_def bindE_eq_Inr split: if_splits)
  show ?thesis
    using NotReady same quiet wk_view_enter [of T u h1] by (simp add: wk_track)
next
  case Ready
  show ?thesis
    using assms Ready
    by (cases u) (auto simp: to_st_def bindE_eq_Inr wk_track wk_view_quiet wk_view_relay split: if_splits option.splits)
qed

lemma wk_fold:
  "cb \<noteq> None \<longrightarrow> s = NotReady \<Longrightarrow>
   snd (fold (\<lambda>u (s, v). (track (wk_up T) (wk_down T) u s, wk_view_step T u s v)) us (s, (ls, cb, ic, rs))) =
   (ls, if list_ex (wk_up T) us then None else cb,
    ic @ (if list_ex (wk_up T) us then (case cb of None \<Rightarrow> [] | Some c \<Rightarrow> [W_Init_Called c SERVICE_AVAILABLE]) else []),
    rs @ (if ls = [] then [] else map (On_Wakeup_Enqueued ls) (along (track (wk_up T) (wk_down T)) (relayed T) s us)))"
proof (induction us arbitrary: s cb ic rs)
  case (Cons u us)
  show ?case
  proof (cases "s = NotReady \<and> wk_up T u")
    case True
    then show ?thesis using Cons.IH [of None] by (simp add: wk_view_step_def wk_track)
  next
    case False
    then have "cb = None \<or> (s = NotReady \<and> \<not> wk_up T u)" using Cons.prems by auto
    then show ?thesis using False Cons.IH [of cb] by (auto simp: wk_view_step_def wk_track)
  qed
qed simp

text \<open>
  The manager after its start, the registration of the listeners \<open>ls\<close> (alive throughout), and the
  events \<open>us\<close>.
\<close>

definition wk_outcome :: "nat \<Rightarrow> 'j wakeup_ext \<Rightarrow> nat option \<Rightarrow> nat list \<Rightarrow> 'j wakeup_event list
    \<Rightarrow> 'j wakeup_manager result" where
  "wk_outcome n T cb ls us =
     bindE (wakeup_start n T (newWakeup cb)) (\<lambda>h.
       dispatch_all n (wakeup_handlers T) us ((fold (\<lambda>l h. snd (wk_registerListener l h)) ls h)\<lparr>wk_live := ls\<rparr>))"

lemma register_all: "fold (\<lambda>l h. snd (wk_registerListener l h)) ls h = h\<lparr>wk_listeners := wk_listeners h @ ls\<rparr>"
  by (induction ls arbitrary: h) (simp_all add: wk_registerListener_def)

lemma wk_outcome_total:
  assumes "kMaxNest < n" "list_all (wk_typed T) us"
  shows "\<exists>h'. wk_outcome n T cb ls us = Inr h' \<and>
    hstate h' = St (fold (track (wk_up T) (wk_down T)) us NotReady) \<and>
    wk_view h' = snd (fold (\<lambda>u (s, v). (track (wk_up T) (wk_down T) u s, wk_view_step T u s v)) us
      (NotReady, (ls, cb, [], [])))"
proof -
  have "settle (\<lambda>_. Top_St) (\<lambda>_. None) kMaxNest NotReady = (NotReady, [])"
    by (simp add: kMaxNest_def numeral_eq_Suc)
  from wk.init_refines [OF assms(1) _ this, of T] obtain h0 where
    h0: "wakeup_start n T (newWakeup cb) = Inr h0" "hstate h0 = St NotReady" "wk_init_cb h0 = cb" "wk_listeners h0 = []"
      "filter is_wk_init (wk_out h0) = []" "filter is_relay (wk_out h0) = []"
    by (simp add: wakeup_start_def start_at_def newWakeup_def trace_def wk_emit_def)
  let ?h = "h0\<lparr>wk_listeners := wk_listeners h0 @ ls, wk_live := ls\<rparr>"
  have st: "hstate ?h = St NotReady" and v: "wk_view ?h = (ls, cb, [], [])" using h0 by (simp_all add: wk_view_def)
  obtain h' where r: "dispatch_all n (wakeup_handlers T) us ?h = Inr h'"
    using wk.shell_dispatch_all_total [OF assms(1) st, of us T] wk_total assms(2) unfolding list_all_iff by blast
  have "wk_view h' = snd (fold (\<lambda>u (s, v). (track (wk_up T) (wk_down T) u s, wk_view_step T u s v)) us
      (NotReady, wk_view ?h))"
    by (rule wk.dispatch_view [where view = wk_view and step = "wk_view_step T", OF assms(1) _ _ wk_view_handler st r])
      (simp_all add: wk_view_def erase_def)
  with v r h0(1) wk.dispatch_track [OF assms(1) st r] show ?thesis
    by (simp add: wk_outcome_def register_all)
qed

section \<open>Properties\<close>

definition demo_wk :: "jtree wakeup_ext" where
  "demo_wk = \<lparr>wx_json = tree_lib, subsys_ready_wakeup_ind = ''r'', wakeup_ind = ''w'', wx_token = 1\<rparr>"

definition demo_wk_env :: "(string \<times> jtree) list \<Rightarrow> jtree envelope" where
  "demo_wk_env m = fst (makeEventEnvelope 3 ''pa-1'' (JObj m) 42)"

definition demo_wk_events :: "jtree wakeup_event list" where
  "demo_wk_events = [WakeupInd_Signal (demo_wk_env []),
     W_ReadinessEvt_Signal (demo_wk_env [(''status'', JStr ''AVAILABLE'')]),
     WakeupInd_Signal (demo_wk_env [(''wakeupType'', JStr ''QMI'')])]"

lemmas demo_wk_simps = demo_wk_events_def demo_wk_env_def makeEventEnvelope_def nextCorrId_def demo_wk_def
  readiness_status_def value_string_def value_as_def wakeup_info_of_def tree_lib_def string_fields_def

lemma demo_wk_typed: "list_all (wk_typed demo_wk) demo_wk_events"
  by (simp add: demo_wk_simps)

lemma demo_wk_relayed:
  "along (track (wk_up demo_wk) (wk_down demo_wk)) (relayed demo_wk) NotReady demo_wk_events =
     [\<lparr>wi_qmi = qmi_zero, wi_type = WT_QMI\<rparr>]" "list_ex (wk_up demo_wk) demo_wk_events"
  by (simp_all add: demo_wk_simps track_def)

text \<open>From its start, with live listeners registered and whatever well-typed events it handles,
  the wake-up manager returns and has relayed to all of them, once and in order, the decoded
  information of exactly the indications handled while \<open>Ready\<close>; its init callback was called
  exactly once if an \<open>AVAILABLE\<close> indication was handled and never otherwise.\<close>

theorem wakeup_relays_when_ready:
  assumes "kMaxNest < n" "list_all (wk_typed T) us" "ls \<noteq> []"
  shows "\<exists>h'. wk_outcome n T (Some c) ls us = Inr h' \<and>
    filter is_relay (wk_out h') =
      map (On_Wakeup_Enqueued ls) (along (track (wk_up T) (wk_down T)) (relayed T) NotReady us) \<and>
    filter is_wk_init (wk_out h') = (if list_ex (wk_up T) us then [W_Init_Called c SERVICE_AVAILABLE] else [])"
  using wk_outcome_total [OF assms(1,2), of "Some c" ls] assms(3) by (auto simp: wk_fold wk_view_def)

theorem wakeup_relays_when_ready_witness:
  "\<exists>h'. wk_outcome 9 demo_wk (Some 5) [1, 2] demo_wk_events = Inr h' \<and>
    filter is_relay (wk_out h') = [On_Wakeup_Enqueued [1, 2] \<lparr>wi_qmi = qmi_zero, wi_type = WT_QMI\<rparr>] \<and>
    filter is_wk_init (wk_out h') = [W_Init_Called 5 SERVICE_AVAILABLE]"
  using wakeup_relays_when_ready [OF _ demo_wk_typed, of 9 "[1, 2]" 5] by (simp add: kMaxNest_def demo_wk_relayed)

text \<open>C36: \<open>getServiceStatus\<close> of the wake-up manager is \<open>SERVICE_AVAILABLE\<close> exactly when the last
  event that changed readiness was an \<open>AVAILABLE\<close> indication.\<close>

theorem wakeup_status_follows_events:
  assumes "kMaxNest < n" "list_all (wk_typed T) us"
  shows "\<exists>h'. wk_outcome n T cb ls us = Inr h' \<and>
    (wk_getServiceStatus h' = SERVICE_AVAILABLE \<longleftrightarrow>
       (\<exists>xs u ys. us = xs @ u # ys \<and> wk_up T u \<and> list_all (\<lambda>v. \<not> wk_down T v) ys))"
proof -
  have excl: "wk_up T u \<Longrightarrow> \<not> wk_down T u" for u
    by (cases u) (auto simp: readiness_status_def bindE_eq_Inr split: option.splits)
  from wk_outcome_total [OF assms, of cb ls] obtain h' where "wk_outcome n T cb ls us = Inr h'"
    "hstate h' = St (fold (track (wk_up T) (wk_down T)) us NotReady)" by blast
  with track_last [of "wk_up T" "wk_down T" us, OF excl] show ?thesis
    by (intro exI [of _ h']) (simp add: wk_getServiceStatus_def wk_isReadyDerived_def)
qed

theorem wakeup_status_follows_events_witness:
  "\<exists>h'. wk_outcome 9 demo_wk None [] (tl demo_wk_events) = Inr h' \<and> wk_getServiceStatus h' = SERVICE_AVAILABLE"
proof -
  have "\<exists>xs u ys. tl demo_wk_events = xs @ u # ys \<and> wk_up demo_wk u \<and> list_all (\<lambda>v. \<not> wk_down demo_wk v) ys"
    by (rule exI [of _ "[]"], rule exI [of _ "hd (tl demo_wk_events)"], rule exI [of _ "tl (tl demo_wk_events)"])
      (simp add: demo_wk_simps)
  moreover have "list_all (wk_typed demo_wk) (tl demo_wk_events)" using demo_wk_typed by (simp add: demo_wk_events_def)
  ultimately show ?thesis
    using wakeup_status_follows_events [of 9 demo_wk "tl demo_wk_events" None "[]"] by (simp add: kMaxNest_def)
qed

end
