(* ===== verification/Signal_Strength.thy ===== *)
theory Signal_Strength
  imports Simula_Prelude
begin

text \<open>
  \<open>component/tel/SignalStrength.cpp\<close>: the containers of per-technology signal measurements, the
  validation of their fields, the conversion to dBm and the five-step signal level.
\<close>

section \<open>Levels and ranges\<close>

datatype signal_level = LEVEL_UNKNOWN | LEVEL_1 | LEVEL_2 | LEVEL_3 | LEVEL_4 | LEVEL_5

text \<open>The values of the enumerators, by which C++ compares them.\<close>

fun level_value :: "signal_level \<Rightarrow> int" where
  "level_value LEVEL_UNKNOWN = -1"
| "level_value LEVEL_1 = 0"
| "level_value LEVEL_2 = 1"
| "level_value LEVEL_3 = 2"
| "level_value LEVEL_4 = 3"
| "level_value LEVEL_5 = 4"

lemma level_value_inj: "level_value a = level_value b \<longleftrightarrow> a = b"
  by (cases a; cases b) simp_all

instantiation signal_level :: linorder
begin

definition less_eq_signal_level :: "signal_level \<Rightarrow> signal_level \<Rightarrow> bool" where
  "less_eq_signal_level a b \<longleftrightarrow> level_value a \<le> level_value b"

definition less_signal_level :: "signal_level \<Rightarrow> signal_level \<Rightarrow> bool" where
  "less_signal_level a b \<longleftrightarrow> level_value a < level_value b"

instance
  by standard (auto simp: less_eq_signal_level_def less_signal_level_def level_value_inj)

end

definition INVALID_SIGNAL_STRENGTH_VALUE :: int where
  "INVALID_SIGNAL_STRENGTH_VALUE = 0x7FFFFFFF"

definition kGsmLevelMap :: "(signal_level \<times> int) list" where
  "kGsmLevelMap = [(LEVEL_1, 0), (LEVEL_2, 3), (LEVEL_3, 5), (LEVEL_4, 8), (LEVEL_5, 12)]"

definition kLteRsrpLevelMap :: "(signal_level \<times> int) list" where
  "kLteRsrpLevelMap = [(LEVEL_1, -140), (LEVEL_2, -100), (LEVEL_3, -90), (LEVEL_4, -80), (LEVEL_5, -70)]"

definition kLteRssnrLevelMap :: "(signal_level \<times> int) list" where
  "kLteRssnrLevelMap = [(LEVEL_1, -200), (LEVEL_2, -30), (LEVEL_3, 10), (LEVEL_4, 45), (LEVEL_5, 130)]"

definition kCdmaDbmMap :: "(signal_level \<times> int) list" where
  "kCdmaDbmMap = [(LEVEL_1, -110), (LEVEL_2, -100), (LEVEL_3, -95), (LEVEL_4, -85), (LEVEL_5, -75)]"

definition kCdmaEcioMap :: "(signal_level \<times> int) list" where
  "kCdmaEcioMap = [(LEVEL_1, -160), (LEVEL_2, -150), (LEVEL_3, -130), (LEVEL_4, -110), (LEVEL_5, -90)]"

definition kEvdoDbmMap :: "(signal_level \<times> int) list" where
  "kEvdoDbmMap = [(LEVEL_1, -115), (LEVEL_2, -105), (LEVEL_3, -90), (LEVEL_4, -75), (LEVEL_5, -65)]"

definition kEvdoSnrMap :: "(signal_level \<times> int) list" where
  "kEvdoSnrMap = [(LEVEL_1, 0), (LEVEL_2, 1), (LEVEL_3, 3), (LEVEL_4, 5), (LEVEL_5, 7)]"

definition kWcdmaLevelMap :: "(signal_level \<times> int) list" where
  "kWcdmaLevelMap = [(LEVEL_1, 0), (LEVEL_2, 3), (LEVEL_3, 5), (LEVEL_4, 8), (LEVEL_5, 12)]"

definition kNr5gRsrpLevelMap :: "(signal_level \<times> int) list" where
  "kNr5gRsrpLevelMap = [(LEVEL_1, -140), (LEVEL_2, -110), (LEVEL_3, -90), (LEVEL_4, -80), (LEVEL_5, -65)]"

definition kNr5gRssnrLevelMap :: "(signal_level \<times> int) list" where
  "kNr5gRssnrLevelMap = [(LEVEL_1, -230), (LEVEL_2, -50), (LEVEL_3, 50), (LEVEL_4, 150), (LEVEL_5, 300)]"

lemmas level_maps = kGsmLevelMap_def kLteRsrpLevelMap_def kLteRssnrLevelMap_def kCdmaDbmMap_def kCdmaEcioMap_def
  kEvdoDbmMap_def kEvdoSnrMap_def kWcdmaLevelMap_def kNr5gRsrpLevelMap_def kNr5gRssnrLevelMap_def

text \<open>The loop of \<open>calculateLevel\<close>, with the level found so far as its accumulator.\<close>

fun level_loop :: "int \<Rightarrow> signal_level \<Rightarrow> (signal_level \<times> int) list \<Rightarrow> signal_level" where
  "level_loop val level [] = level"
| "level_loop val level ((l, t) # rest) = (if t \<le> val then level_loop val l rest else level)"

definition calculateLevel :: "int \<Rightarrow> (signal_level \<times> int) list \<Rightarrow> signal_level" where
  "calculateLevel val levelMap = level_loop val LEVEL_UNKNOWN levelMap"

definition inRange :: "int \<Rightarrow> int \<Rightarrow> int \<Rightarrow> int" where
  "inRange value lo hi = (if value < lo \<or> hi < value then INVALID_SIGNAL_STRENGTH_VALUE else value)"

text \<open>\<open>calculateLevel\<close> under the range test with which every caller guards it.\<close>

definition level_in :: "int \<Rightarrow> int \<Rightarrow> (signal_level \<times> int) list \<Rightarrow> int \<Rightarrow> signal_level" where
  "level_in lo hi levelMap val = (if lo \<le> val \<and> val \<le> hi then calculateLevel val levelMap else LEVEL_UNKNOWN)"

section \<open>\<open>LteSignalStrengthInfo\<close>\<close>

record lte_info =
  lteSignalStrength :: int
  lteRssi :: int
  lteRsrp :: int
  lteAsu :: int
  lteRsrq :: int
  lteRssnr :: int
  lteCqi :: int
  lteTimingAdvance :: int

definition LteSignalStrengthInfo :: "int \<Rightarrow> int \<Rightarrow> int \<Rightarrow> int \<Rightarrow> int \<Rightarrow> int \<Rightarrow> int \<Rightarrow> lte_info" where
  "LteSignalStrengthInfo ss rsrp rsrq rssnr cqi ta rssi =
     \<lparr>lteSignalStrength = inRange ss 0 31, lteRssi = inRange rssi (-100) (-25), lteRsrp = inRange rsrp (-140) (-44), lteAsu = inRange ss 0 31, 
      lteRsrq = inRange rsrq (-20) (-3), lteRssnr = inRange rssnr (-200) 300, lteCqi = inRange cqi 0 15, 
      lteTimingAdvance = inRange ta 0 2147483646\<rparr>"

definition Lte_getLteSignalStrength :: "lte_info \<Rightarrow> int" where
  "Lte_getLteSignalStrength i = lteSignalStrength i"

definition Lte_getRssi :: "lte_info \<Rightarrow> int" where
  "Lte_getRssi i = lteRssi i"

definition Lte_getLteReferenceSignalReceiveQuality :: "lte_info \<Rightarrow> int" where
  "Lte_getLteReferenceSignalReceiveQuality i = lteRsrq i"

definition Lte_getLteReferenceSignalSnr :: "lte_info \<Rightarrow> int" where
  "Lte_getLteReferenceSignalSnr i = lteRssnr i"

definition Lte_getLteChannelQualityIndicator :: "lte_info \<Rightarrow> int" where
  "Lte_getLteChannelQualityIndicator i = lteCqi i"

definition Lte_getTimingAdvance :: "lte_info \<Rightarrow> int" where
  "Lte_getTimingAdvance i = lteTimingAdvance i"

definition Lte_getDbm :: "lte_info \<Rightarrow> int" where
  "Lte_getDbm i = lteRsrp i"

text \<open>
  The two measurements are combined by the larger level; without either, the level falls back
  on the signal strength field, whose level the code computes from \<open>lteRssnr_\<close>.
\<close>

definition Lte_getLevel :: "lte_info \<Rightarrow> signal_level" where
  "Lte_getLevel i =
     (let rsrpLevel = level_in (-140) (-44) kLteRsrpLevelMap (lteRsrp i);
          rsnrLevel = level_in (-200) 300 kLteRssnrLevelMap (lteRssnr i);
          sigStrengthLevel = (if 0 \<le> lteSignalStrength i \<and> lteSignalStrength i \<le> 31
            then calculateLevel (lteRssnr i) kLteRssnrLevelMap else LEVEL_UNKNOWN)
      in if rsrpLevel \<noteq> LEVEL_UNKNOWN \<and> rsnrLevel \<noteq> LEVEL_UNKNOWN
         then (if rsrpLevel > rsnrLevel then rsrpLevel else rsnrLevel)
         else if rsnrLevel \<noteq> LEVEL_UNKNOWN then rsnrLevel
         else if rsrpLevel \<noteq> LEVEL_UNKNOWN then rsrpLevel
         else sigStrengthLevel)"

section \<open>\<open>GsmSignalStrengthInfo\<close>\<close>

record gsm_info =
  gsmSignalStrength :: int
  gsmRssi :: int
  gsmBitErrorRate :: int
  gsmTimingAdvance :: int

definition GsmSignalStrengthInfo :: "int \<Rightarrow> int \<Rightarrow> int \<Rightarrow> int \<Rightarrow> gsm_info" where
  "GsmSignalStrengthInfo ss ber ta rssi =
     \<lparr>gsmSignalStrength = inRange ss 0 31, gsmRssi = inRange rssi (-100) (-25), gsmBitErrorRate = inRange ber 0 7, 
      gsmTimingAdvance = inRange ta 0 219\<rparr>"

definition Gsm_getGsmSignalStrength :: "gsm_info \<Rightarrow> int" where
  "Gsm_getGsmSignalStrength i = gsmSignalStrength i"

definition Gsm_getRssi :: "gsm_info \<Rightarrow> int" where
  "Gsm_getRssi i = gsmRssi i"

definition Gsm_getGsmBitErrorRate :: "gsm_info \<Rightarrow> int" where
  "Gsm_getGsmBitErrorRate i = gsmBitErrorRate i"

definition Gsm_getTimingAdvance :: "gsm_info \<Rightarrow> int" where
  "Gsm_getTimingAdvance i = gsmTimingAdvance i"

definition Gsm_getDbm :: "gsm_info \<Rightarrow> int" where
  "Gsm_getDbm i =
     (let dBm = inRange (gsmSignalStrength i) 0 31
      in if dBm \<noteq> INVALID_SIGNAL_STRENGTH_VALUE then -113 + 2 * gsmSignalStrength i else dBm)"

definition Gsm_getLevel :: "gsm_info \<Rightarrow> signal_level" where
  "Gsm_getLevel i = level_in 0 31 kGsmLevelMap (gsmSignalStrength i)"

section \<open>\<open>CdmaSignalStrengthInfo\<close>\<close>

record cdma_info =
  cdmaDbm :: int
  cdmaEcio :: int
  evdoDbm :: int
  evdoEcio :: int
  evdoSignalNoiseRatio :: int

definition CdmaSignalStrengthInfo :: "int \<Rightarrow> int \<Rightarrow> int \<Rightarrow> int \<Rightarrow> int \<Rightarrow> cdma_info" where
  "CdmaSignalStrengthInfo cdbm cecio edbm eecio snr =
     \<lparr>cdmaDbm = inRange cdbm (-120) 0, cdmaEcio = inRange cecio (-160) 0, evdoDbm = inRange edbm (-120) 0, 
      evdoEcio = inRange eecio (-160) 0, evdoSignalNoiseRatio = inRange snr 0 8\<rparr>"

definition Cdma_getCdmaEcio :: "cdma_info \<Rightarrow> int" where
  "Cdma_getCdmaEcio i = cdmaEcio i"

definition Cdma_getEvdoEcio :: "cdma_info \<Rightarrow> int" where
  "Cdma_getEvdoEcio i = evdoEcio i"

definition Cdma_getEvdoSignalNoiseRatio :: "cdma_info \<Rightarrow> int" where
  "Cdma_getEvdoSignalNoiseRatio i = evdoSignalNoiseRatio i"

definition Cdma_getCdmaDbm :: "cdma_info \<Rightarrow> int" where
  "Cdma_getCdmaDbm i = cdmaDbm i"

definition Cdma_getEvdoDbm :: "cdma_info \<Rightarrow> int" where
  "Cdma_getEvdoDbm i = evdoDbm i"

definition Cdma_getDbm :: "cdma_info \<Rightarrow> int" where
  "Cdma_getDbm i =
     (let c = (if cdmaDbm i > 0 then cdmaDbm i else -120);
          e = (if evdoDbm i > 0 then evdoDbm i else -120)
      in if c < e then c else e)"

definition Cdma_getCdmaLevel :: "cdma_info \<Rightarrow> signal_level" where
  "Cdma_getCdmaLevel i =
     (let cdmaDbmLevel = level_in (-120) 0 kCdmaDbmMap (cdmaDbm i);
          cdmaEcioLevel = level_in (-160) 0 kCdmaEcioMap (cdmaEcio i)
      in if cdmaDbmLevel < cdmaEcioLevel then cdmaDbmLevel else cdmaEcioLevel)"

text \<open>Here the lower bound of the signal to noise ratio is exclusive.\<close>

definition Cdma_getEvdoLevel :: "cdma_info \<Rightarrow> signal_level" where
  "Cdma_getEvdoLevel i =
     (let evdoDbmLevel = level_in (-120) 0 kEvdoDbmMap (evdoDbm i);
          evdoSnrLevel = (if 0 < evdoSignalNoiseRatio i \<and> evdoSignalNoiseRatio i \<le> 8
            then calculateLevel (evdoSignalNoiseRatio i) kEvdoSnrMap else LEVEL_UNKNOWN)
      in if evdoDbmLevel < evdoSnrLevel then evdoDbmLevel else evdoSnrLevel)"

definition Cdma_getLevel :: "cdma_info \<Rightarrow> signal_level" where
  "Cdma_getLevel i =
     (let cdmaLevel = Cdma_getCdmaLevel i; evdoLevel = Cdma_getEvdoLevel i
      in if evdoLevel = LEVEL_UNKNOWN then cdmaLevel
         else if cdmaLevel = LEVEL_UNKNOWN then evdoLevel
         else if cdmaLevel < evdoLevel then cdmaLevel else evdoLevel)"

section \<open>\<open>WcdmaSignalStrengthInfo\<close>\<close>

record wcdma_info =
  wcdmaSignalStrength :: int
  wcdmaBitErrorRate :: int
  wcdmaEcio :: int
  wcdmaRscp :: int
  wcdmaRssi :: int

definition WcdmaSignalStrengthInfo2 :: "int \<Rightarrow> int \<Rightarrow> wcdma_info" where
  "WcdmaSignalStrengthInfo2 ss ber =
     \<lparr>wcdmaSignalStrength = inRange ss 0 31, wcdmaBitErrorRate = inRange ber 0 7, 
      wcdmaEcio = INVALID_SIGNAL_STRENGTH_VALUE, wcdmaRscp = INVALID_SIGNAL_STRENGTH_VALUE, 
      wcdmaRssi = INVALID_SIGNAL_STRENGTH_VALUE\<rparr>"

definition WcdmaSignalStrengthInfo5 :: "int \<Rightarrow> int \<Rightarrow> int \<Rightarrow> int \<Rightarrow> int \<Rightarrow> wcdma_info" where
  "WcdmaSignalStrengthInfo5 ss ber ecio rscp rssi =
     \<lparr>wcdmaSignalStrength = inRange ss 0 31, wcdmaBitErrorRate = inRange ber 0 7, wcdmaEcio = inRange ecio (-20) 0, 
      wcdmaRscp = inRange rscp (-120) (-24), wcdmaRssi = inRange rssi (-100) (-25)\<rparr>"

definition Wcdma_getLevel :: "wcdma_info \<Rightarrow> signal_level" where
  "Wcdma_getLevel i = level_in 0 31 kWcdmaLevelMap (wcdmaSignalStrength i)"

definition Wcdma_getDbm :: "wcdma_info \<Rightarrow> int" where
  "Wcdma_getDbm i =
     (let dBm = inRange (wcdmaSignalStrength i) 0 31
      in if dBm \<noteq> INVALID_SIGNAL_STRENGTH_VALUE then -113 + 2 * wcdmaSignalStrength i else dBm)"

definition Wcdma_getRssi :: "wcdma_info \<Rightarrow> int" where
  "Wcdma_getRssi i = wcdmaRssi i"

definition Wcdma_getSignalStrength :: "wcdma_info \<Rightarrow> int" where
  "Wcdma_getSignalStrength i = wcdmaSignalStrength i"

definition Wcdma_getBitErrorRate :: "wcdma_info \<Rightarrow> int" where
  "Wcdma_getBitErrorRate i = wcdmaBitErrorRate i"

definition Wcdma_getEcio :: "wcdma_info \<Rightarrow> int" where
  "Wcdma_getEcio i = wcdmaEcio i"

definition Wcdma_getRscp :: "wcdma_info \<Rightarrow> int" where
  "Wcdma_getRscp i = wcdmaRscp i"

section \<open>\<open>TdscdmaSignalStrengthInfo\<close>\<close>

record tdscdma_info =
  tdscdmaRscp :: int

definition TdscdmaSignalStrengthInfo :: "int \<Rightarrow> tdscdma_info" where
  "TdscdmaSignalStrengthInfo rscp =
     \<lparr>tdscdmaRscp = inRange rscp (-120) (-25)\<rparr>"

definition Tdscdma_getRscp :: "tdscdma_info \<Rightarrow> int" where
  "Tdscdma_getRscp i = tdscdmaRscp i"

section \<open>\<open>Nr5gSignalStrengthInfo\<close>\<close>

record nr5g_info =
  nr5gRsrp :: int
  nr5gRsrq :: int
  nr5gRssnr :: int
  nr5gAsu :: int

definition Nr5gSignalStrengthInfo :: "int \<Rightarrow> int \<Rightarrow> int \<Rightarrow> nr5g_info" where
  "Nr5gSignalStrengthInfo rsrp rsrq rssnr =
     \<lparr>nr5gRsrp = inRange rsrp (-140) (-44), nr5gRsrq = inRange rsrq (-43) 20, 
      nr5gRssnr = inRange rssnr (-230) 400, nr5gAsu = inRange rsrp (-140) (-44)\<rparr>"

definition Nr5g_getNr5gSignalStrength :: "nr5g_info \<Rightarrow> int" where
  "Nr5g_getNr5gSignalStrength i =
     (if nr5gRsrp i = INVALID_SIGNAL_STRENGTH_VALUE then INVALID_SIGNAL_STRENGTH_VALUE
      else let ss = nr5gRsrp i - (-140);
               ss = (if ss < 0 then 0 else ss)
           in if ss > 97 then 97 else ss)"

definition Nr5g_getDbm :: "nr5g_info \<Rightarrow> int" where
  "Nr5g_getDbm i = nr5gRsrp i"

definition Nr5g_getReferenceSignalReceiveQuality :: "nr5g_info \<Rightarrow> int" where
  "Nr5g_getReferenceSignalReceiveQuality i = nr5gRsrq i"

definition Nr5g_getReferenceSignalSnr :: "nr5g_info \<Rightarrow> int" where
  "Nr5g_getReferenceSignalSnr i = nr5gRssnr i"

definition Nr5g_getLevel :: "nr5g_info \<Rightarrow> signal_level" where
  "Nr5g_getLevel i =
     (let rsrpLevel = level_in (-140) (-44) kNr5gRsrpLevelMap (nr5gRsrp i);
          rssnrLevel = level_in (-230) 400 kNr5gRssnrLevelMap (nr5gRssnr i)
      in if rsrpLevel \<noteq> LEVEL_UNKNOWN \<and> rssnrLevel \<noteq> LEVEL_UNKNOWN
         then (if rsrpLevel > rssnrLevel then rsrpLevel else rssnrLevel)
         else if rssnrLevel \<noteq> LEVEL_UNKNOWN then rssnrLevel
         else if rsrpLevel \<noteq> LEVEL_UNKNOWN then rsrpLevel
         else LEVEL_UNKNOWN)"

section \<open>\<open>Nb1NtnSignalStrengthInfo\<close>\<close>

record nb1_info =
  nb1SignalStrength :: int
  nb1Rsrp :: int
  nb1Rsrq :: int
  nb1Rssnr :: int
  nb1Rssi :: int

definition Nb1NtnSignalStrengthInfo :: "int \<Rightarrow> int \<Rightarrow> int \<Rightarrow> int \<Rightarrow> int \<Rightarrow> nb1_info" where
  "Nb1NtnSignalStrengthInfo ss rsrp rsrq rssnr rssi =
     \<lparr>nb1SignalStrength = inRange ss 0 31, nb1Rsrp = inRange rsrp (-140) (-44), nb1Rsrq = inRange rsrq (-20) (-3), 
      nb1Rssnr = inRange rssnr (-200) 300, nb1Rssi = inRange rssi (-100) (-25)\<rparr>"

definition Nb1_getLevel :: "nb1_info \<Rightarrow> signal_level" where
  "Nb1_getLevel i =
     (let rsrpLevel = level_in (-140) (-44) kLteRsrpLevelMap (nb1Rsrp i);
          rssnrLevel = level_in (-200) 300 kLteRssnrLevelMap (nb1Rssnr i)
      in if rsrpLevel \<noteq> LEVEL_UNKNOWN \<and> rssnrLevel \<noteq> LEVEL_UNKNOWN
         then (if rsrpLevel > rssnrLevel then rsrpLevel else rssnrLevel)
         else if rssnrLevel \<noteq> LEVEL_UNKNOWN then rssnrLevel
         else rsrpLevel)"

definition Nb1_getDbm :: "nb1_info \<Rightarrow> int" where
  "Nb1_getDbm i = nb1Rsrp i"

definition Nb1_getRssi :: "nb1_info \<Rightarrow> int" where
  "Nb1_getRssi i = nb1Rssi i"

definition Nb1_getSignalStrength :: "nb1_info \<Rightarrow> int" where
  "Nb1_getSignalStrength i = nb1SignalStrength i"

definition Nb1_getRsrq :: "nb1_info \<Rightarrow> int" where
  "Nb1_getRsrq i = nb1Rsrq i"

definition Nb1_getRssnr :: "nb1_info \<Rightarrow> int" where
  "Nb1_getRssnr i = nb1Rssnr i"

section \<open>\<open>SignalStrength\<close>\<close>

text \<open>The aggregate of the optional (shared) per-technology objects; a null pointer is \<open>None\<close>.\<close>

record signal_strength =
  getLteSignalStrength :: "lte_info option"
  getGsmSignalStrength :: "gsm_info option"
  getCdmaSignalStrength :: "cdma_info option"
  getWcdmaSignalStrength :: "wcdma_info option"
  getTdscdmaSignalStrength :: "tdscdma_info option"
  getNr5gSignalStrength :: "nr5g_info option"
  getNb1NtnSignalStrength :: "nb1_info option"

section \<open>Lemmas\<close>

lemmas level_order = less_eq_signal_level_def less_signal_level_def

definition rising :: "(signal_level \<times> int) list \<Rightarrow> bool" where
  "rising m \<longleftrightarrow> sorted_wrt (\<lambda>a b. fst a < fst b \<and> snd a < snd b) m \<and> (\<forall>p \<in> set m. LEVEL_UNKNOWN < fst p)"

lemma level_loop_max:
  "sorted_wrt (\<lambda>a b. fst a < fst b \<and> snd a < snd b) m \<Longrightarrow> \<forall>p \<in> set m. l0 < fst p \<Longrightarrow>
   level_loop val l0 m = Max (insert l0 {l. \<exists>t. (l, t) \<in> set m \<and> t \<le> val})"
proof (induction m arbitrary: l0)
  case (Cons p m)
  obtain l t where p: "p = (l, t)" by (cases p)
  have fin: "finite {l. \<exists>t. (l, t) \<in> set xs \<and> t \<le> val}" for xs
    by (rule finite_subset [of _ "fst ` set xs"]) force+
  show ?case
  proof (cases "t \<le> val")
    case True
    let ?S = "{x. \<exists>t. (x, t) \<in> set m \<and> t \<le> val}"
    have set: "{x. \<exists>t. (x, t) \<in> set (p # m) \<and> t \<le> val} = insert l ?S"
      using True by (auto simp: p)
    have "l0 \<le> l" using Cons.prems by (simp add: p less_imp_le)
    also have "l \<le> Max (insert l ?S)" using fin [of m] by (intro Max_ge) simp_all
    finally have "Max (insert l0 (insert l ?S)) = Max (insert l ?S)"
      using fin [of m] Max_insert [of "insert l ?S" l0] by (simp only: finite_insert max_absorb2) simp
    moreover have "level_loop val l0 (p # m) = Max (insert l ?S)"
      using Cons.IH [of l] Cons.prems True by (simp add: p)
    ultimately show ?thesis by (simp only: set)
  next
    case False
    then have none: "{x. \<exists>t. (x, t) \<in> set (p # m) \<and> t \<le> val} = {}" using Cons.prems by (force simp: p)
    show ?thesis unfolding none using False by (simp add: p)
  qed
qed simp


lemma level_maps_rising:
  "rising kGsmLevelMap" "rising kLteRsrpLevelMap" "rising kLteRssnrLevelMap" "rising kCdmaDbmMap"
  "rising kCdmaEcioMap" "rising kEvdoDbmMap" "rising kEvdoSnrMap" "rising kWcdmaLevelMap"
  "rising kNr5gRsrpLevelMap" "rising kNr5gRssnrLevelMap"
  by (simp_all add: rising_def level_maps level_order)

lemma level_ge_first: "t \<le> val \<Longrightarrow> LEVEL_UNKNOWN < l \<Longrightarrow> sorted_wrt (\<lambda>a b. fst a < fst b \<and> snd a < snd b) ((l, t) # m) \<Longrightarrow>
   calculateLevel val ((l, t) # m) \<noteq> LEVEL_UNKNOWN"
proof -
  have "l \<le> level_loop val l m" if "\<forall>p \<in> set m. l < fst p" "sorted_wrt (\<lambda>a b. fst a < fst b \<and> snd a < snd b) m" for m
  proof -
    have "finite {x. \<exists>t. (x, t) \<in> set m \<and> t \<le> val}"
      by (rule finite_subset [of _ "fst ` set m"]) force+
    then show ?thesis using level_loop_max [OF that(2,1), of val] by simp
  qed
  then show "t \<le> val \<Longrightarrow> LEVEL_UNKNOWN < l \<Longrightarrow> sorted_wrt (\<lambda>a b. fst a < fst b \<and> snd a < snd b) ((l, t) # m) \<Longrightarrow>
     calculateLevel val ((l, t) # m) \<noteq> LEVEL_UNKNOWN" by (force simp: calculateLevel_def)
qed

lemma level_in_unknown:
  "level_in (-140) (-44) kLteRsrpLevelMap v = LEVEL_UNKNOWN \<longleftrightarrow> \<not> (-140 \<le> v \<and> v \<le> -44)"
  "level_in (-200) 300 kLteRssnrLevelMap v = LEVEL_UNKNOWN \<longleftrightarrow> \<not> (-200 \<le> v \<and> v \<le> 300)"
  using level_ge_first [of "-140" v LEVEL_1] level_ge_first [of "-200" v LEVEL_1]
  by (auto simp: level_in_def kLteRsrpLevelMap_def kLteRssnrLevelMap_def level_order)

lemma inRange_level_in:
  "hi < INVALID_SIGNAL_STRENGTH_VALUE \<Longrightarrow> level_in lo hi m (inRange v lo hi) = level_in lo hi m v"
  by (auto simp: level_in_def inRange_def)

lemma unknown_least [simp]:
  "LEVEL_UNKNOWN \<le> l" "l \<le> LEVEL_UNKNOWN \<longleftrightarrow> l = LEVEL_UNKNOWN" "LEVEL_UNKNOWN < l \<longleftrightarrow> l \<noteq> LEVEL_UNKNOWN"
  by (cases l; simp add: level_order)+

section \<open>Properties\<close>

text \<open>C40: for every threshold table of the code, \<open>calculateLevel\<close> returns the highest level whose
  threshold the value reaches, and \<open>LEVEL_UNKNOWN\<close> when it reaches none.\<close>

theorem level_is_highest_reached:
  assumes "m \<in> set [kGsmLevelMap, kLteRsrpLevelMap, kLteRssnrLevelMap, kCdmaDbmMap, kCdmaEcioMap,
    kEvdoDbmMap, kEvdoSnrMap, kWcdmaLevelMap, kNr5gRsrpLevelMap, kNr5gRssnrLevelMap]"
  shows "calculateLevel val m = Max (insert LEVEL_UNKNOWN {l. \<exists>t. (l, t) \<in> set m \<and> t \<le> val})"
proof -
  have "rising m" using assms level_maps_rising by auto
  then show ?thesis unfolding calculateLevel_def rising_def by (intro level_loop_max) auto
qed

theorem level_is_highest_reached_witness:
  "calculateLevel 6 kGsmLevelMap = LEVEL_3 \<and>
   LEVEL_3 = Max (insert LEVEL_UNKNOWN {l. \<exists>t. (l, t) \<in> set kGsmLevelMap \<and> t \<le> 6})"
  using level_is_highest_reached [of kGsmLevelMap 6]
  by (simp add: calculateLevel_def kGsmLevelMap_def)

text \<open>The level of an LTE measurement is the larger of the levels of its RSRP and its RSSNR, as
  far as they are in range. When neither is but the signal strength is, the level is always the
  best one, whatever the signal strength: the fallback rates the unavailable RSSNR.\<close>

theorem lte_level:
  "Lte_getLevel (LteSignalStrengthInfo ss rsrp rsrq rssnr cqi ta rssi) =
     (let a = level_in (-140) (-44) kLteRsrpLevelMap rsrp; b = level_in (-200) 300 kLteRssnrLevelMap rssnr
      in if a = LEVEL_UNKNOWN \<and> b = LEVEL_UNKNOWN
         then (if 0 \<le> ss \<and> ss \<le> 31 then LEVEL_5 else LEVEL_UNKNOWN)
         else max a b)"
proof -
  let ?a = "level_in (-140) (-44) kLteRsrpLevelMap rsrp" and ?b = "level_in (-200) 300 kLteRssnrLevelMap rssnr"
  have inv: "INVALID_SIGNAL_STRENGTH_VALUE = 2147483647" by (simp add: INVALID_SIGNAL_STRENGTH_VALUE_def)
  have ss: "(0 \<le> inRange ss 0 31 \<and> inRange ss 0 31 \<le> 31) = (0 \<le> ss \<and> ss \<le> 31)"
    by (auto simp: inRange_def inv)
  have five: "calculateLevel (inRange rssnr (-200) 300) kLteRssnrLevelMap = LEVEL_5" if "?b = LEVEL_UNKNOWN"
  proof -
    have "inRange rssnr (-200) 300 = 2147483647" using that by (auto simp: level_in_unknown inRange_def inv)
    then show ?thesis by (simp add: calculateLevel_def kLteRssnrLevelMap_def)
  qed
  show ?thesis using five ss
    by (auto simp: Lte_getLevel_def LteSignalStrengthInfo_def Let_def inRange_level_in inv max_def)
qed

text \<open>C40: \<open>CdmaSignalStrengthInfo::getDbm\<close> ignores the measurements: as soon as one of the two is
  valid the result is the constant -120.\<close>

theorem cdma_dbm_constant:
  assumes "(-120 \<le> cdbm \<and> cdbm \<le> 0) \<or> (-120 \<le> edbm \<and> edbm \<le> 0)"
  shows "Cdma_getDbm (CdmaSignalStrengthInfo cdbm cecio edbm eecio snr) = -120"
  using assms
  by (auto simp: Cdma_getDbm_def CdmaSignalStrengthInfo_def inRange_def INVALID_SIGNAL_STRENGTH_VALUE_def)

theorem cdma_dbm_constant_witness:
  "Cdma_getDbm (CdmaSignalStrengthInfo (-60) (-10) (-50) (-10) 5) = -120"
  using cdma_dbm_constant [of "-60" "-50"] by simp

end
