(* ===== verification/Tel_Call.thy ===== *)
theory Tel_Call
  imports Manager_Io
begin

text \<open>
  \<open>component/tel/Call.{hpp,cpp}\<close>: the object of one emergency call, and the vocabulary of the call
  manager: wire names, the eCall configuration, the effects of both classes. Call objects are
  shared between the manager and its clients, so they live in a store and are named by their
  position in it.
\<close>

section \<open>Data\<close>

datatype call_state =
    CALL_IDLE | CALL_ACTIVE | CALL_ON_HOLD | CALL_DIALING | CALL_INCOMING | CALL_WAITING | CALL_ALERTING | CALL_ENDED

datatype call_dir = DIR_INCOMING | DIR_OUTGOING | DIR_NONE

datatype hlap_status = HS_UNKNOWN | HS_INACTIVE | HS_ACTIVE

datatype hlap_event = HE_UNKNOWN | HE_UNCHANGED | HE_STARTED | HE_STOPPED | HE_EXPIRED | HE_RESUMED

datatype hlap_timer = UNKNOWN_TIMER | T2_TIMER | T5_TIMER | T6_TIMER | T7_TIMER | T9_TIMER | T10_TIMER

text \<open>The values of \<open>ECallMsdTransmissionStatus\<close> that the wire names translate to.\<close>

datatype msd_status = MSD_SUCCESS | MSD_FAILURE | MSD_TRANSMISSION_STARTED | MSD_START_RECEIVED

datatype redial_reason = RR_NONE | RR_CALL_ORIG_FAILURE | RR_CALL_DROP | RR_MAX_REDIAL_ATTEMPTED | RR_CALL_CONNECTED

datatype redial_config = CALL_DROP | CALL_ORIG

datatype num_type = NUM_DEFAULT | NUM_OVERRIDDEN

datatype ecall_param =
    ECALL_CONFIG_MUTE_RX_AUDIO | ECALL_CONFIG_NUM_TYPE | ECALL_CONFIG_OVERRIDDEN_NUM | ECALL_CONFIG_USE_CANNED_MSD
  | ECALL_CONFIG_GNSS_UPDATE_INTERVAL | ECALL_CONFIG_T2_TIMER | ECALL_CONFIG_T7_TIMER | ECALL_CONFIG_T9_TIMER
  | ECALL_CONFIG_MSD_VERSION

record ecall_config =
  configValidityMask :: "ecall_param set"
  muteRxAudio :: bool
  numType :: num_type
  overriddenNum :: string
  useCannedMsd :: bool
  gnssUpdateInterval :: "32 word"
  t2Timer :: "32 word"
  t7Timer :: "32 word"
  t9Timer :: "32 word"
  msdVersion :: "8 word"

text \<open>A structure of six values, one per timer (\<open>ECallHlapTimerStatus\<close>, \<open>ECallHlapTimerEvents\<close>).\<close>

record 'a hlap_six =
  hl_t2 :: 'a
  hl_t5 :: 'a
  hl_t6 :: 'a
  hl_t7 :: 'a
  hl_t9 :: 'a
  hl_t10 :: 'a

definition six :: "'a \<Rightarrow> 'a hlap_six" where
  "six x = \<lparr>hl_t2 = x, hl_t5 = x, hl_t6 = x, hl_t7 = x, hl_t9 = x, hl_t10 = x\<rparr>"

text \<open>
  The response callbacks handed to the bridge, with what they capture. A null callback of the
  client is \<open>None\<close>; a promise is named by a number.
\<close>

datatype tel_cont =
    K_Control "nat option"
  | K_Start int "nat option"
  | K_Msd "nat option"
  | K_Hlap_Status int "nat option"
  | K_Deregister "nat option"
  | K_Update_Hlap "nat option"
  | K_Request_Hlap "nat option"
  | K_Set_Config nat
  | K_Get_Config nat
  | K_Redial "nat option"
  | K_Get_Redial nat

text \<open>Calls of the listeners; a call object is passed by reference.\<close>

datatype tel_note =
    On_Call_Info nat
  | On_Msd_Status int msd_status
  | On_Redial int bool redial_reason
  | On_Hlap_Event int "hlap_event hlap_six"

datatype 'j tel_effect =
    Make_Called nat error_code "nat option"
  | Command_Called nat error_code
  | Hlap_Status_Called nat error_code int "hlap_status hlap_six"
  | Hlap_Timer_Called nat error_code "32 word"
  | Ecbm_Called nat error_code
  | Tel_Init_Called nat service_status
  | Config_Set nat error_code
  | Config_Got nat error_code ecall_config
  | Gaps_Got nat error_code "int list" "int list"
  | Tel_Notes "nat list" tel_note
  | Tel_Request string string "'j envelope" tel_cont int
  | Tel_Subscribed string string
  | Tel_Unsubscribed string
  | Tel_Connectivity_Subscribed nat
  | Tel_Connectivity_Unsubscribed nat
  | Tel_Bridge_Drained

text \<open>
  Parameters: the JSON library, the topic names of \<open>generated/cpp/topics.h\<close>, the bridge's PA id and
  next connectivity token.
\<close>

record 'j tel_ext =
  tl_json :: "'j json_lib"
  subsys_ready_call_ind :: string
  call_state_ind :: string
  msd_transmission_status_ind :: string
  hlap_timer_event_ind :: string
  redial_ind :: string
  start_ecall_req :: string
  end_ecall_req :: string
  answer_ecall_req :: string
  send_msd_req :: string
  request_hlap_timer_status_req :: string
  request_network_deregistration_req :: string
  update_hlap_timer_req :: string
  request_hlap_timer_req :: string
  set_config_req :: string
  get_config_req :: string
  configure_ecall_redial_req :: string
  get_ecall_redial_config_req :: string
  tl_pa_id :: string
  tl_token :: nat

definition kTelRpcTimeout :: int where
  "kTelRpcTimeout = 30000"

section \<open>Wire names\<close>

fun hlapTimerTypeToWire :: "hlap_timer \<Rightarrow> string" where
  "hlapTimerTypeToWire T2_TIMER = ''T2''"
| "hlapTimerTypeToWire T5_TIMER = ''T5''"
| "hlapTimerTypeToWire T6_TIMER = ''T6''"
| "hlapTimerTypeToWire T7_TIMER = ''T7''"
| "hlapTimerTypeToWire T9_TIMER = ''T9''"
| "hlapTimerTypeToWire T10_TIMER = ''T10''"
| "hlapTimerTypeToWire UNKNOWN_TIMER = ''UNKNOWN_TIMER''"

definition wireToHlapTimerStatus :: "string \<Rightarrow> hlap_status" where
  "wireToHlapTimerStatus s =
     (if s = ''ACTIVE'' then HS_ACTIVE else if s = ''INACTIVE'' then HS_INACTIVE else HS_UNKNOWN)"

definition wireToHlapTimerEvent :: "string \<Rightarrow> hlap_event" where
  "wireToHlapTimerEvent s =
     (if s = ''STARTED'' then HE_STARTED
      else if s = ''STOPPED'' then HE_STOPPED
      else if s = ''EXPIRED'' then HE_EXPIRED
      else if s = ''RESUMED'' then HE_RESUMED
      else if s = ''UNCHANGED'' then HE_UNCHANGED
      else HE_UNKNOWN)"

definition wireToMsdTransmissionStatus :: "string \<Rightarrow> msd_status" where
  "wireToMsdTransmissionStatus s =
     (if s = ''MSD_TRANSMISSION_SUCCESS'' \<or> s = ''OUTBAND_MSD_TRANSMISSION_SUCCESS'' then MSD_SUCCESS
      else if s = ''MSD_TRANSMISSION_FAILURE'' \<or> s = ''OUTBAND_MSD_TRANSMISSION_FAILURE'' then MSD_FAILURE
      else if s = ''MSD_TRANSMISSION_STARTED'' \<or> s = ''OUTBAND_MSD_TRANSMISSION_STARTED''
        then MSD_TRANSMISSION_STARTED
      else if s = ''START_RECEIVED'' then MSD_START_RECEIVED
      else MSD_SUCCESS)"

definition wireToCallState :: "string \<Rightarrow> call_state" where
  "wireToCallState s =
     (if s = ''DIALING'' then CALL_DIALING
      else if s = ''ALERTING'' then CALL_ALERTING
      else if s = ''ACTIVE'' then CALL_ACTIVE
      else if s = ''INCOMING'' then CALL_INCOMING
      else if s = ''WAITING'' then CALL_WAITING
      else if s = ''HOLD'' then CALL_ON_HOLD
      else if s = ''ENDED'' then CALL_ENDED
      else CALL_IDLE)"

definition wireToCallDirection :: "string \<Rightarrow> call_dir" where
  "wireToCallDirection s = (if s = ''MT'' then DIR_INCOMING else DIR_OUTGOING)"

definition wireToRedialReason :: "string \<Rightarrow> redial_reason" where
  "wireToRedialReason s =
     (if s = ''CALL_ORIG_FAILURE'' then RR_CALL_ORIG_FAILURE
      else if s = ''CALL_DROP'' then RR_CALL_DROP
      else if s = ''MAX_REDIAL_ATTEMPTED'' then RR_MAX_REDIAL_ATTEMPTED
      else if s = ''CALL_CONNECTED'' then RR_CALL_CONNECTED
      else RR_NONE)"

section \<open>The eCall configuration on the wire\<close>

text \<open>One optional parameter: a validity flag \<open>flag\<close> and a value under \<open>k\<close>.\<close>

definition put_param :: "'j json_lib \<Rightarrow> bool \<Rightarrow> string \<Rightarrow> string \<Rightarrow> 'j \<Rightarrow> 'j \<Rightarrow> 'j" where
  "put_param J valid flag k v dat = (if valid then j_set J k v (j_set J flag (j_of_bool J True) dat) else dat)"

definition ecallConfigToWire :: "'j json_lib \<Rightarrow> ecall_config \<Rightarrow> 'j" where
  "ecallConfigToWire J c =
     (let ok = (\<lambda>p. p \<in> configValidityMask c);
          int_of = (\<lambda>n. j_of_int J n);
          dat = j_object J;
          dat = put_param J (ok ECALL_CONFIG_MUTE_RX_AUDIO) ''isMuteRxAudioValid'' ''muteRxAudio''
                  (j_of_bool J (muteRxAudio c)) dat;
          dat = put_param J (ok ECALL_CONFIG_NUM_TYPE) ''isNumTypeValid'' ''numType''
                  (j_of_string J (if numType c = NUM_OVERRIDDEN then ''OVERRIDDEN'' else ''DEFAULT'')) dat;
          dat = put_param J (ok ECALL_CONFIG_OVERRIDDEN_NUM) ''isOverriddenNumValid'' ''overriddenNum''
                  (j_of_string J (overriddenNum c)) dat;
          dat = put_param J (ok ECALL_CONFIG_USE_CANNED_MSD) ''isUseCannedMsdValid'' ''useCannedMsd''
                  (j_of_bool J (useCannedMsd c)) dat;
          dat = put_param J (ok ECALL_CONFIG_GNSS_UPDATE_INTERVAL) ''isGnssUpdateIntervalValid'' ''gnssUpdateInterval''
                  (int_of (uint (gnssUpdateInterval c))) dat;
          dat = put_param J (ok ECALL_CONFIG_T2_TIMER) ''isT2TimerValid'' ''t2Timer'' (int_of (uint (t2Timer c))) dat;
          dat = put_param J (ok ECALL_CONFIG_T7_TIMER) ''isT7TimerValid'' ''t7Timer'' (int_of (uint (t7Timer c))) dat;
          dat = put_param J (ok ECALL_CONFIG_T9_TIMER) ''isT9TimerValid'' ''t9Timer'' (int_of (uint (t9Timer c))) dat
      in put_param J (ok ECALL_CONFIG_MSD_VERSION) ''isMsdVersionValid'' ''msdVersion''
           (int_of (uint (msdVersion c))) dat)"

text \<open>A value-initialised \<open>EcallConfig\<close>.\<close>

definition config_zero :: ecall_config where
  "config_zero = \<lparr>configValidityMask = {}, muteRxAudio = False, numType = NUM_DEFAULT, overriddenNum = [],
     useCannedMsd = False, gnssUpdateInterval = 0, t2Timer = 0, t7Timer = 0, t9Timer = 0, msdVersion = 0\<rparr>"

text \<open>The reading of one parameter: when its flag is set, its bit and its value.\<close>

definition get_param :: "'j json_lib \<Rightarrow> 'j \<Rightarrow> string \<Rightarrow> ecall_param \<Rightarrow> 'a result \<Rightarrow> ('a \<Rightarrow> ecall_config \<Rightarrow> ecall_config)
    \<Rightarrow> ecall_config \<Rightarrow> ecall_config result" where
  "get_param J dat flag p rd upd c =
     bindE (value_bool J dat flag) (\<lambda>ok.
       if ok then bindE rd (\<lambda>v. Inr (upd v (c\<lparr>configValidityMask := insert p (configValidityMask c)\<rparr>))) else Inr c)"

definition wireToEcallConfig :: "'j json_lib \<Rightarrow> 'j \<Rightarrow> ecall_config result" where
  "wireToEcallConfig J dat =
     bindE (get_param J dat ''isMuteRxAudioValid'' ECALL_CONFIG_MUTE_RX_AUDIO
       (value_bool J dat ''muteRxAudio'') (\<lambda>v c. c\<lparr>muteRxAudio := v\<rparr>) config_zero) (\<lambda>c.
     bindE (get_param J dat ''isNumTypeValid'' ECALL_CONFIG_NUM_TYPE (value_string J dat ''numType'')
       (\<lambda>v c. c\<lparr>numType := if v = ''OVERRIDDEN'' then NUM_OVERRIDDEN else NUM_DEFAULT\<rparr>) c) (\<lambda>c.
     bindE (get_param J dat ''isOverriddenNumValid'' ECALL_CONFIG_OVERRIDDEN_NUM
       (value_string J dat ''overriddenNum'') (\<lambda>v c. c\<lparr>overriddenNum := v\<rparr>) c) (\<lambda>c.
     bindE (get_param J dat ''isUseCannedMsdValid'' ECALL_CONFIG_USE_CANNED_MSD
       (value_bool J dat ''useCannedMsd'') (\<lambda>v c. c\<lparr>useCannedMsd := v\<rparr>) c) (\<lambda>c.
     bindE (get_param J dat ''isGnssUpdateIntervalValid'' ECALL_CONFIG_GNSS_UPDATE_INTERVAL
       (value_int J dat ''gnssUpdateInterval'') (\<lambda>v c. c\<lparr>gnssUpdateInterval := word_of_int v\<rparr>) c) (\<lambda>c.
     bindE (get_param J dat ''isT2TimerValid'' ECALL_CONFIG_T2_TIMER
       (value_int J dat ''t2Timer'') (\<lambda>v c. c\<lparr>t2Timer := word_of_int v\<rparr>) c) (\<lambda>c.
     bindE (get_param J dat ''isT7TimerValid'' ECALL_CONFIG_T7_TIMER
       (value_int J dat ''t7Timer'') (\<lambda>v c. c\<lparr>t7Timer := word_of_int v\<rparr>) c) (\<lambda>c.
     bindE (get_param J dat ''isT9TimerValid'' ECALL_CONFIG_T9_TIMER
       (value_int J dat ''t9Timer'') (\<lambda>v c. c\<lparr>t9Timer := word_of_int v\<rparr>) c) (\<lambda>c.
     get_param J dat ''isMsdVersionValid'' ECALL_CONFIG_MSD_VERSION
       (value_int J dat ''msdVersion'') (\<lambda>v c. c\<lparr>msdVersion := word_of_int v\<rparr>) c))))))))"

section \<open>SimulaCall\<close>

record sim_call =
  sc_phoneId :: int
  sc_callIndex :: int
  sc_direction :: call_dir
  sc_remotePartyNumber :: string
  sc_state :: call_state
  sc_endCause :: int

definition END_CAUSE_NORMAL :: int where
  "END_CAUSE_NORMAL = 16"

definition newCall :: "int \<Rightarrow> int \<Rightarrow> call_dir \<Rightarrow> string \<Rightarrow> sim_call" where
  "newCall phoneId callIndex dir remote =
     \<lparr>sc_phoneId = phoneId, sc_callIndex = callIndex, sc_direction = dir, sc_remotePartyNumber = remote,
      sc_state = CALL_IDLE, sc_endCause = END_CAUSE_NORMAL\<rparr>"

text \<open>The mutators, on the store of call objects.\<close>

definition setCallState :: "nat \<Rightarrow> call_state \<Rightarrow> sim_call list \<Rightarrow> sim_call list" where
  "setCallState r st store = store[r := (store ! r)\<lparr>sc_state := st\<rparr>]"

definition setCallEndCause :: "nat \<Rightarrow> int \<Rightarrow> sim_call list \<Rightarrow> sim_call list" where
  "setCallEndCause r cause store = store[r := (store ! r)\<lparr>sc_endCause := cause\<rparr>]"

definition sendCallControlRequest :: "'j tel_ext \<Rightarrow> string \<Rightarrow> string \<Rightarrow> int \<Rightarrow> int \<Rightarrow> nat option
    \<Rightarrow> 'j tel_effect io \<Rightarrow> 'j tel_effect io" where
  "sendCallControlRequest T topic rspSchemaId phoneId callIndex cb s =
     (let J = tl_json T;
          dat = j_set J ''callIndex'' (j_of_int J callIndex) (j_set J ''phoneId'' (j_of_int J phoneId) (j_object J))
      in case io_request (tl_pa_id T) dat s of (req, s) \<Rightarrow>
        io_emit (Tel_Request topic rspSchemaId req (K_Control cb) kTelRpcTimeout) s)"

definition command_response :: "nat option \<Rightarrow> error_code \<Rightarrow> 'j tel_effect io \<Rightarrow> 'j tel_effect io" where
  "command_response cb er s = (case cb of None \<Rightarrow> s | Some c \<Rightarrow> io_emit (Command_Called c er) s)"

definition unsupported :: "nat option \<Rightarrow> 'j tel_effect io \<Rightarrow> api_status \<times> 'j tel_effect io" where
  "unsupported cb s = (NOTSUPPORTED, command_response cb EC_NOT_SUPPORTED s)"

definition call_answer :: "'j tel_ext \<Rightarrow> sim_call \<Rightarrow> nat option \<Rightarrow> 'j tel_effect io \<Rightarrow> api_status \<times> 'j tel_effect io" where
  "call_answer T c cb s =
     (SUCCESS, sendCallControlRequest T (answer_ecall_req T) ''ecall.answer_ecall.rsp'' (sc_phoneId c) (sc_callIndex c) cb s)"

definition call_reject :: "'j tel_ext \<Rightarrow> sim_call \<Rightarrow> nat option \<Rightarrow> 'j tel_effect io \<Rightarrow> api_status \<times> 'j tel_effect io" where
  "call_reject T c cb s =
     (SUCCESS, sendCallControlRequest T (end_ecall_req T) ''ecall.end_ecall.rsp'' (sc_phoneId c) (sc_callIndex c) cb s)"

definition call_hangup :: "'j tel_ext \<Rightarrow> sim_call \<Rightarrow> nat option \<Rightarrow> 'j tel_effect io \<Rightarrow> api_status \<times> 'j tel_effect io" where
  "call_hangup T c cb s =
     (SUCCESS, sendCallControlRequest T (end_ecall_req T) ''ecall.end_ecall.rsp'' (sc_phoneId c) (sc_callIndex c) cb s)"

definition call_hold :: "nat option \<Rightarrow> 'j tel_effect io \<Rightarrow> api_status \<times> 'j tel_effect io" where
  "call_hold cb s = unsupported cb s"

definition call_resume :: "nat option \<Rightarrow> 'j tel_effect io \<Rightarrow> api_status \<times> 'j tel_effect io" where
  "call_resume cb s = unsupported cb s"

definition call_reject_sms :: "string \<Rightarrow> nat option \<Rightarrow> 'j tel_effect io \<Rightarrow> api_status \<times> 'j tel_effect io" where
  "call_reject_sms sms cb s = unsupported cb s"

definition call_playDtmfTone :: "char \<Rightarrow> nat option \<Rightarrow> 'j tel_effect io \<Rightarrow> api_status \<times> 'j tel_effect io" where
  "call_playDtmfTone tone cb s = unsupported cb s"

definition call_startDtmfTone :: "char \<Rightarrow> nat option \<Rightarrow> 'j tel_effect io \<Rightarrow> api_status \<times> 'j tel_effect io" where
  "call_startDtmfTone tone cb s = unsupported cb s"

definition call_stopDtmfTone :: "nat option \<Rightarrow> 'j tel_effect io \<Rightarrow> api_status \<times> 'j tel_effect io" where
  "call_stopDtmfTone cb s = unsupported cb s"

definition call_modify :: "nat option \<Rightarrow> 'j tel_effect io \<Rightarrow> api_status \<times> 'j tel_effect io" where
  "call_modify cb s = unsupported cb s"

definition call_respondToModifyRequest :: "bool \<Rightarrow> nat option \<Rightarrow> 'j tel_effect io \<Rightarrow> api_status \<times> 'j tel_effect io" where
  "call_respondToModifyRequest ok cb s = unsupported cb s"

text \<open>The response of a call control request; \<open>False\<close> when the callback throws.\<close>

definition control_response :: "'j json_lib \<Rightarrow> nat option \<Rightarrow> 'j envelope option \<Rightarrow> 'j tel_effect io
    \<Rightarrow> bool \<times> 'j tel_effect io" where
  "control_response J cb rsp s =
     (case cb of
        None \<Rightarrow> (True, s)
      | Some c \<Rightarrow>
          if has_error rsp then
            (case response_error J rsp of Inl _ \<Rightarrow> (False, s) | Inr er \<Rightarrow> (True, io_emit (Command_Called c er) s))
          else (True, io_emit (Command_Called c EC_SUCCESS) s))"

section \<open>The configuration read back\<close>

lemma put_param_object: "json_ok J \<Longrightarrow> j_is_object J dat \<Longrightarrow> j_is_object J (put_param J ok flag k v dat)"
  by (auto simp: put_param_def json_ok_def)

lemma put_param_find:
  "json_ok J \<Longrightarrow> j_is_object J dat \<Longrightarrow>
   j_find J (put_param J ok flag k v dat) q =
     (if ok \<and> q = k then Some v else if ok \<and> q = flag then Some (j_of_bool J True) else j_find J dat q)"
  by (auto simp: put_param_def json_ok_def)

lemma value_as_find:
  "j_is_object J dat \<Longrightarrow> value_as get J dat k dflt =
     (case j_find J dat k of None \<Rightarrow> Inr dflt | Some v \<Rightarrow> (case get v of None \<Rightarrow> Inl Uncaught_Exception | Some x \<Rightarrow> Inr x))"
  by (simp add: value_as_def)

text \<open>What is left of a configuration: the parameters whose bit is not set are value-initialised.\<close>

definition masked_config :: "ecall_config \<Rightarrow> ecall_config" where
  "masked_config c =
     (let ok = (\<lambda>p. p \<in> configValidityMask c) in
      \<lparr>configValidityMask = configValidityMask c,
       muteRxAudio = (ok ECALL_CONFIG_MUTE_RX_AUDIO \<and> muteRxAudio c),
       numType = (if ok ECALL_CONFIG_NUM_TYPE then numType c else NUM_DEFAULT),
       overriddenNum = (if ok ECALL_CONFIG_OVERRIDDEN_NUM then overriddenNum c else []),
       useCannedMsd = (ok ECALL_CONFIG_USE_CANNED_MSD \<and> useCannedMsd c),
       gnssUpdateInterval = (if ok ECALL_CONFIG_GNSS_UPDATE_INTERVAL then gnssUpdateInterval c else 0),
       t2Timer = (if ok ECALL_CONFIG_T2_TIMER then t2Timer c else 0),
       t7Timer = (if ok ECALL_CONFIG_T7_TIMER then t7Timer c else 0),
       t9Timer = (if ok ECALL_CONFIG_T9_TIMER then t9Timer c else 0),
       msdVersion = (if ok ECALL_CONFIG_MSD_VERSION then msdVersion c else 0)\<rparr>)"

lemma word_of_int32:
  "word_of_int (to_int32 n) = (word_of_int n :: 32 word)" "word_of_int (to_int32 n) = (word_of_int n :: 8 word)"
proof -
  obtain k where "to_int32 n = n + 4294967296 * k"
    using that [of "- ((n + 2 ^ 31) div 2 ^ 32)"]
    by (simp add: to_int32_def minus_mult_div_eq_mod [symmetric] algebra_simps)
  moreover have "(4294967296 :: 32 word) = 0" "(4294967296 :: 8 word) = 0" by (simp_all add: word_uint_eq_iff)
  ultimately show "word_of_int (to_int32 n) = (word_of_int n :: 32 word)" "word_of_int (to_int32 n) = (word_of_int n :: 8 word)"
    by (simp_all only: of_int_add of_int_mult of_int_numeral mult_zero_left add_0_right)
qed

definition only_params :: "ecall_param set \<Rightarrow> ecall_config \<Rightarrow> ecall_config" where
  "only_params S c = masked_config (c\<lparr>configValidityMask := configValidityMask c \<inter> S\<rparr>)"

text \<open>The reading of one more parameter that the writer wrote, whatever else it wrote.\<close>

lemma get_param_written:
  assumes "json_ok J" "j_is_object J dat"
    "j_find J dat flag = (if p \<in> configValidityMask c then Some (j_of_bool J True) else None)"
    "p \<in> configValidityMask c \<Longrightarrow> rd = Inr v"
    "p \<in> configValidityMask c \<Longrightarrow>
       upd v ((only_params S c)\<lparr>configValidityMask := insert p (configValidityMask c \<inter> S)\<rparr>) = only_params (insert p S) c"
  shows "get_param J dat flag p rd upd (only_params S c) = Inr (only_params (insert p S) c)"
proof (cases "p \<in> configValidityMask c")
  case True
  with assms have "get_param J dat flag p rd upd (only_params S c) =
      Inr (upd v ((only_params S c)\<lparr>configValidityMask := insert p (configValidityMask c \<inter> S)\<rparr>))"
    by (simp add: get_param_def value_bool_def value_as_find json_okD only_params_def masked_config_def Let_def)
  with True assms(5) show ?thesis by simp
next
  case False
  then have "configValidityMask c \<inter> insert p S = configValidityMask c \<inter> S" by auto
  with False assms show ?thesis by (simp add: get_param_def value_bool_def value_as_find only_params_def)
qed

lemma config_written:
  fixes c :: ecall_config
  assumes "json_ok J" "dat = ecallConfigToWire J c"
  shows "wireToEcallConfig J dat = Inr (masked_config c)"
proof -
  have obj: "j_is_object J dat"
    using assms by (simp add: ecallConfigToWire_def Let_def put_param_object json_okD)
  note wire = assms ecallConfigToWire_def Let_def put_param_find put_param_object json_okD
  note rd = value_bool_def value_string_def value_int_def value_as_find obj wire
  note upd = only_params_def masked_config_def Let_def word_of_int32
  have zero: "config_zero = only_params {} c" by (simp add: config_zero_def upd)
  let ?ok = "\<lambda>p. p \<in> configValidityMask c"
  have vals: "?ok ECALL_CONFIG_MUTE_RX_AUDIO \<Longrightarrow> value_bool J dat ''muteRxAudio'' = Inr (muteRxAudio c)"
    "?ok ECALL_CONFIG_NUM_TYPE \<Longrightarrow>
       value_string J dat ''numType'' = Inr (if numType c = NUM_OVERRIDDEN then ''OVERRIDDEN'' else ''DEFAULT'')"
    "?ok ECALL_CONFIG_OVERRIDDEN_NUM \<Longrightarrow> value_string J dat ''overriddenNum'' = Inr (overriddenNum c)"
    "?ok ECALL_CONFIG_USE_CANNED_MSD \<Longrightarrow> value_bool J dat ''useCannedMsd'' = Inr (useCannedMsd c)"
    "?ok ECALL_CONFIG_GNSS_UPDATE_INTERVAL \<Longrightarrow>
       value_int J dat ''gnssUpdateInterval'' = Inr (to_int32 (uint (gnssUpdateInterval c)))"
    "?ok ECALL_CONFIG_T2_TIMER \<Longrightarrow> value_int J dat ''t2Timer'' = Inr (to_int32 (uint (t2Timer c)))"
    "?ok ECALL_CONFIG_T7_TIMER \<Longrightarrow> value_int J dat ''t7Timer'' = Inr (to_int32 (uint (t7Timer c)))"
    "?ok ECALL_CONFIG_T9_TIMER \<Longrightarrow> value_int J dat ''t9Timer'' = Inr (to_int32 (uint (t9Timer c)))"
    "?ok ECALL_CONFIG_MSD_VERSION \<Longrightarrow> value_int J dat ''msdVersion'' = Inr (to_int32 (uint (msdVersion c)))"
    by (simp_all add: rd)
  note get = get_param_written [OF assms(1) obj _ vals(1)] get_param_written [OF assms(1) obj _ vals(2)]
    get_param_written [OF assms(1) obj _ vals(3)] get_param_written [OF assms(1) obj _ vals(4)]
    get_param_written [OF assms(1) obj _ vals(5)] get_param_written [OF assms(1) obj _ vals(6)]
    get_param_written [OF assms(1) obj _ vals(7)] get_param_written [OF assms(1) obj _ vals(8)]
    get_param_written [OF assms(1) obj _ vals(9)]
  have flags: "j_find J dat ''isMuteRxAudioValid'' = (if ?ok ECALL_CONFIG_MUTE_RX_AUDIO then Some (j_of_bool J True) else None)"
    "j_find J dat ''isNumTypeValid'' = (if ?ok ECALL_CONFIG_NUM_TYPE then Some (j_of_bool J True) else None)"
    "j_find J dat ''isOverriddenNumValid'' = (if ?ok ECALL_CONFIG_OVERRIDDEN_NUM then Some (j_of_bool J True) else None)"
    "j_find J dat ''isUseCannedMsdValid'' = (if ?ok ECALL_CONFIG_USE_CANNED_MSD then Some (j_of_bool J True) else None)"
    "j_find J dat ''isGnssUpdateIntervalValid'' = (if ?ok ECALL_CONFIG_GNSS_UPDATE_INTERVAL then Some (j_of_bool J True) else None)"
    "j_find J dat ''isT2TimerValid'' = (if ?ok ECALL_CONFIG_T2_TIMER then Some (j_of_bool J True) else None)"
    "j_find J dat ''isT7TimerValid'' = (if ?ok ECALL_CONFIG_T7_TIMER then Some (j_of_bool J True) else None)"
    "j_find J dat ''isT9TimerValid'' = (if ?ok ECALL_CONFIG_T9_TIMER then Some (j_of_bool J True) else None)"
    "j_find J dat ''isMsdVersionValid'' = (if ?ok ECALL_CONFIG_MSD_VERSION then Some (j_of_bool J True) else None)"
    by (simp_all add: wire)
  have "wireToEcallConfig J dat = Inr (only_params
      {ECALL_CONFIG_MSD_VERSION, ECALL_CONFIG_T9_TIMER, ECALL_CONFIG_T7_TIMER, ECALL_CONFIG_T2_TIMER,
       ECALL_CONFIG_GNSS_UPDATE_INTERVAL, ECALL_CONFIG_USE_CANNED_MSD, ECALL_CONFIG_OVERRIDDEN_NUM,
       ECALL_CONFIG_NUM_TYPE, ECALL_CONFIG_MUTE_RX_AUDIO} c)"
    unfolding wireToEcallConfig_def zero
    by ((rule bindE_to, rule get, rule flags, assumption, (cases "numType c"; simp add: upd))+,
        rule get, rule flags, assumption, simp add: upd)
  moreover have "{ECALL_CONFIG_MSD_VERSION, ECALL_CONFIG_T9_TIMER, ECALL_CONFIG_T7_TIMER, ECALL_CONFIG_T2_TIMER,
       ECALL_CONFIG_GNSS_UPDATE_INTERVAL, ECALL_CONFIG_USE_CANNED_MSD, ECALL_CONFIG_OVERRIDDEN_NUM,
       ECALL_CONFIG_NUM_TYPE, ECALL_CONFIG_MUTE_RX_AUDIO} = UNIV"
    using ecall_param.exhaust by blast
  ultimately show ?thesis by (simp add: only_params_def)
qed

text \<open>C15: the eCall configuration on the wire. Reading what \<open>ecallConfigToWire\<close> wrote gives the same
  configuration, with the parameters whose validity bit is not set value-initialised; 32-bit and
  8-bit numbers survive the reading as a signed \<open>int\<close>.\<close>

theorem ecall_config_roundtrip:
  assumes "json_ok J"
  shows "wireToEcallConfig J (ecallConfigToWire J c) = Inr (masked_config c)"
  using config_written [OF assms refl] .

definition demo_config :: ecall_config where
  "demo_config = config_zero\<lparr>configValidityMask := {ECALL_CONFIG_T2_TIMER, ECALL_CONFIG_NUM_TYPE},
     numType := NUM_OVERRIDDEN, t2Timer := 4000000000, t9Timer := 5\<rparr>"

theorem ecall_config_roundtrip_witness:
  "json_ok tree_lib \<and> wireToEcallConfig tree_lib (ecallConfigToWire tree_lib demo_config) =
     Inr (demo_config\<lparr>t9Timer := 0\<rparr>)"
  using ecall_config_roundtrip [OF tree_lib_ok, of demo_config] tree_lib_ok
  by (simp add: masked_config_def demo_config_def config_zero_def)

end
