(* ===== verification/Tel_Call_Manager.thy ===== *)
theory Tel_Call_Manager
  imports Tel_Call
begin

text \<open>
  \<open>component/tel/CallManager.{hpp,cpp}\<close>: the manager of emergency calls. Its operations run as
  closures on its worker; here a closure is a value of \<open>ecall_op\<close>. The callbacks of its requests
  run on the bridge's worker (\<open>ecall_response\<close>).
\<close>

section \<open>Data\<close>

datatype ecall_op =
    Op_Make int string bool string string "nat option"
  | Op_Send_Msd int "nat option"
  | Op_Hlap_Status int "nat option"
  | Op_Deregister int "nat option"
  | Op_Update_Hlap int hlap_timer "32 word" "nat option"
  | Op_Request_Hlap int hlap_timer "nat option"
  | Op_Set_Config ecall_config nat
  | Op_Get_Config nat
  | Op_Redial redial_config "int list" "nat option"
  | Op_Get_Redial nat

datatype 'j ecall_event =
    E_ReadinessEvt_Signal "'j envelope"
  | E_BridgeConnectivityChanged_Signal bool
  | RunEcallOp_Signal ecall_op
  | CallStateEvt_Signal "'j envelope"
  | MsdStatusEvt_Signal "'j envelope"
  | HlapTimerEventEvt_Signal "'j envelope"
  | SetInitCb_Signal nat
  | RedialEvt_Signal "'j envelope"

record 'j call_manager = "(rstate, 'j ecall_event) active_object" +
  cm_conn_token :: nat
  cm_init_cbs :: "nat list"
  cm_calls :: "(int \<times> nat) list"
  cm_hlapEvents :: "(int \<times> hlap_event hlap_six) list"
  cm_listeners :: "nat list"
  cm_store :: "sim_call list"
  cm_io :: "'j tel_effect io"

definition cm_do :: "('j tel_effect io \<Rightarrow> 'j tel_effect io) \<Rightarrow> 'j call_manager \<Rightarrow> 'j call_manager" where
  "cm_do f h = h\<lparr>cm_io := f (cm_io h)\<rparr>"

definition cm_isReadyDerived :: "'j call_manager \<Rightarrow> bool" where
  "cm_isReadyDerived h \<longleftrightarrow> hstate h = St Ready"

definition cm_getServiceStatus :: "'j call_manager \<Rightarrow> service_status" where
  "cm_getServiceStatus h = (if cm_isReadyDerived h then SERVICE_AVAILABLE else SERVICE_UNAVAILABLE)"

definition cm_broadcastToListeners :: "tel_note \<Rightarrow> 'j call_manager \<Rightarrow> 'j call_manager" where
  "cm_broadcastToListeners note h =
     (if cm_listeners h = [] then h else cm_do (io_emit (Tel_Notes (cm_listeners h) note)) h)"

section \<open>The table of calls\<close>

text \<open>
  The section of \<open>findOrCreateCall_\<close> under \<open>calls_mutex_\<close>: the call of the phone when its index
  matches, else a new object that takes its place; the second result is the replaced call when
  it had not ended.
\<close>

definition takeCall :: "int \<Rightarrow> int \<Rightarrow> call_dir \<Rightarrow> string \<Rightarrow> 'j call_manager \<Rightarrow> nat \<times> nat option \<times> 'j call_manager" where
  "takeCall phoneId callIndex dir remote h =
     (let fresh = length (cm_store h);
          make = h\<lparr>cm_store := cm_store h @ [newCall phoneId callIndex dir remote],
                   cm_calls := smap_upd phoneId fresh (cm_calls h)\<rparr>
      in case map_of (cm_calls h) phoneId of
        None \<Rightarrow> (fresh, None, make)
      | Some r \<Rightarrow>
          if sc_callIndex (cm_store h ! r) = callIndex then (r, None, h)
          else (fresh, if sc_state (cm_store h ! r) \<noteq> CALL_ENDED then Some r else None, make))"

text \<open>
  What follows the mutex: the replaced call is ended and the listeners are told. The code holds no lock over the two
  parts, and none over the \<open>setCallState\<close> of the caller that comes after them: \<open>findOrCreateCall\<close>, and with it
  \<open>start_response\<close> and \<open>callStateEvt\<close> below, are what one thread does when no other comes in between. Theory
  \<open>Tel_Call_Race\<close> takes them apart again at the points where the code holds no lock and lets the manager's worker and the
  bridge's worker interleave there.
\<close>

definition endStale :: "nat option \<Rightarrow> 'j call_manager \<Rightarrow> 'j call_manager" where
  "endStale stale h =
     (case stale of
        None \<Rightarrow> h
      | Some r \<Rightarrow> cm_broadcastToListeners (On_Call_Info r) (h\<lparr>cm_store := setCallState r CALL_ENDED (cm_store h)\<rparr>))"

definition findOrCreateCall :: "int \<Rightarrow> int \<Rightarrow> call_dir \<Rightarrow> string \<Rightarrow> 'j call_manager \<Rightarrow> nat \<times> 'j call_manager" where
  "findOrCreateCall phoneId callIndex dir remote h =
     (case takeCall phoneId callIndex dir remote h of (r, stale, h) \<Rightarrow> (r, endStale stale h))"

definition getInProgressCalls :: "'j call_manager \<Rightarrow> nat list" where
  "getInProgressCalls h = map snd (cm_calls h)"

section \<open>Operations on the worker\<close>

definition ecall_request :: "'j tel_ext \<Rightarrow> string \<Rightarrow> string \<Rightarrow> 'j \<Rightarrow> tel_cont \<Rightarrow> 'j call_manager \<Rightarrow> 'j call_manager" where
  "ecall_request T topic schema dat k h =
     cm_do (\<lambda>s. case io_request (tl_pa_id T) dat s of (req, s) \<Rightarrow>
       io_emit (Tel_Request topic schema req k kTelRpcTimeout) s) h"

definition doMakeECall :: "'j tel_ext \<Rightarrow> int \<Rightarrow> string \<Rightarrow> bool \<Rightarrow> string \<Rightarrow> string \<Rightarrow> nat option
    \<Rightarrow> 'j call_manager \<Rightarrow> 'j call_manager" where
  "doMakeECall T phoneId type isMsd remote dial cb =
     (let J = tl_json T;
          dat = j_set J ''isMsdTransmitted'' (j_of_bool J isMsd)
            (j_set J ''type'' (j_of_string J type) (j_set J ''phoneId'' (j_of_int J phoneId) (j_object J)));
          dat = (if remote \<noteq> [] then j_set J ''remotePartyNumber'' (j_of_string J remote) dat else dat);
          dat = (if dial \<noteq> [] then j_set J ''dialNumber'' (j_of_string J dial) dat else dat)
      in ecall_request T (start_ecall_req T) ''ecall.start_ecall.rsp'' dat (K_Start phoneId cb))"

definition phone_data :: "'j json_lib \<Rightarrow> int \<Rightarrow> 'j" where
  "phone_data J phoneId = j_set J ''phoneId'' (j_of_int J phoneId) (j_object J)"

fun run_op :: "'j tel_ext \<Rightarrow> ecall_op \<Rightarrow> 'j call_manager \<Rightarrow> 'j call_manager" where
  "run_op T (Op_Make p type isMsd remote dial cb) = doMakeECall T p type isMsd remote dial cb"
| "run_op T (Op_Send_Msd p cb) =
     ecall_request T (send_msd_req T) ''ecall.send_msd.rsp'' (phone_data (tl_json T) p) (K_Msd cb)"
| "run_op T (Op_Hlap_Status p cb) =
     ecall_request T (request_hlap_timer_status_req T) ''ecall.request_hlap_timer_status.rsp''
       (phone_data (tl_json T) p) (K_Hlap_Status p cb)"
| "run_op T (Op_Deregister p cb) =
     ecall_request T (request_network_deregistration_req T) ''ecall.request_network_deregistration.rsp''
       (phone_data (tl_json T) p) (K_Deregister cb)"
| "run_op T (Op_Update_Hlap p ty d cb) =
     (let J = tl_json T in
      ecall_request T (update_hlap_timer_req T) ''ecall.update_hlap_timer.rsp''
        (j_set J ''timeDuration'' (j_of_int J (uint d))
          (j_set J ''type'' (j_of_string J (hlapTimerTypeToWire ty)) (phone_data J p))) (K_Update_Hlap cb))"
| "run_op T (Op_Request_Hlap p ty cb) =
     (let J = tl_json T in
      ecall_request T (request_hlap_timer_req T) ''ecall.request_hlap_timer.rsp''
        (j_set J ''type'' (j_of_string J (hlapTimerTypeToWire ty)) (phone_data J p)) (K_Request_Hlap cb))"
| "run_op T (Op_Set_Config c p) =
     ecall_request T (set_config_req T) ''ecall.set_config.rsp'' (ecallConfigToWire (tl_json T) c) (K_Set_Config p)"
| "run_op T (Op_Get_Config p) =
     ecall_request T (get_config_req T) ''ecall.get_config.rsp'' (j_object (tl_json T)) (K_Get_Config p)"
| "run_op T (Op_Redial cfg gaps cb) =
     (let J = tl_json T in
      ecall_request T (configure_ecall_redial_req T) ''ecall.configure_ecall_redial.rsp''
        (j_set J ''timeGap'' (j_of_list J (map (j_of_int J) gaps))
          (j_set J ''config'' (j_of_string J (if cfg = CALL_ORIG then ''CALLORIG'' else ''CALLDROP'')) (j_object J)))
        (K_Redial cb))"
| "run_op T (Op_Get_Redial p) =
     ecall_request T (get_ecall_redial_config_req T) ''ecall.get_ecall_redial_config.rsp'' (j_object (tl_json T))
       (K_Get_Redial p)"

section \<open>Responses\<close>

text \<open>
  A response callback runs on the bridge's worker, which swallows what it throws: the result is
  whether it returned, and the state at that moment.
\<close>

definition call_made :: "nat option \<Rightarrow> error_code \<Rightarrow> nat option \<Rightarrow> 'j call_manager \<Rightarrow> 'j call_manager" where
  "call_made cb er ref h = (case cb of None \<Rightarrow> h | Some c \<Rightarrow> cm_do (io_emit (Make_Called c er ref)) h)"

text \<open>The fields of a call on the wire, all but its state.\<close>

definition call_fields :: "'j json_lib \<Rightarrow> 'j \<Rightarrow> (int \<times> call_dir \<times> string) result" where
  "call_fields J cj =
     bindE (value_int J cj ''callIndex'') (\<lambda>i.
     bindE (value_string J cj ''direction'') (\<lambda>d.
     bindE (value_string J cj ''remotePartyNumber'') (\<lambda>n. Inr (i, wireToCallDirection d, n))))"

text \<open>The response to a start request, on the worker of the bridge; the state is set after the mutex has been released.\<close>

definition start_response :: "'j json_lib \<Rightarrow> int \<Rightarrow> nat option \<Rightarrow> 'j envelope option \<Rightarrow> 'j call_manager
    \<Rightarrow> bool \<times> 'j call_manager" where
  "start_response J phoneId cb rsp h =
     (case good_data rsp of
        None \<Rightarrow>
          (case response_error J rsp of Inl _ \<Rightarrow> (False, h) | Inr er \<Rightarrow> (True, call_made cb er None h))
      | Some dat \<Rightarrow>
          (case j_find J dat ''call'' of
             None \<Rightarrow> (False, h)
           | Some cj \<Rightarrow>
               (case call_fields J cj of
                  Inl _ \<Rightarrow> (False, h)
                | Inr (i, d, n) \<Rightarrow>
                    (case findOrCreateCall phoneId i d n h of (r, h) \<Rightarrow>
                       (case value_string J cj ''callState'' of
                          Inl _ \<Rightarrow> (False, h)
                        | Inr s \<Rightarrow> (True, call_made cb EC_SUCCESS (Some r)
                            (h\<lparr>cm_store := setCallState r (wireToCallState s) (cm_store h)\<rparr>)))))))"

definition hlap_statuses :: "'j json_lib \<Rightarrow> 'j \<Rightarrow> hlap_status hlap_six result" where
  "hlap_statuses J d =
     bindE (value_string J d ''t2'') (\<lambda>t2. bindE (value_string J d ''t5'') (\<lambda>t5.
     bindE (value_string J d ''t6'') (\<lambda>t6. bindE (value_string J d ''t7'') (\<lambda>t7.
     bindE (value_string J d ''t9'') (\<lambda>t9. bindE (value_string J d ''t10'') (\<lambda>t10.
       Inr \<lparr>hl_t2 = wireToHlapTimerStatus t2, hl_t5 = wireToHlapTimerStatus t5, hl_t6 = wireToHlapTimerStatus t6,
            hl_t7 = wireToHlapTimerStatus t7, hl_t9 = wireToHlapTimerStatus t9, hl_t10 = wireToHlapTimerStatus t10\<rparr>))))))"

text \<open>An effect whose argument may throw.\<close>

definition emit_result :: "('a \<Rightarrow> 'j tel_effect) \<Rightarrow> 'a result \<Rightarrow> 'j call_manager \<Rightarrow> bool \<times> 'j call_manager" where
  "emit_result f r h = (case r of Inl _ \<Rightarrow> (False, h) | Inr x \<Rightarrow> (True, cm_do (io_emit (f x)) h))"

definition plain_response :: "'j json_lib \<Rightarrow> nat option \<Rightarrow> 'j envelope option \<Rightarrow> 'j call_manager \<Rightarrow> bool \<times> 'j call_manager" where
  "plain_response J cb rsp h =
     (case cb of
        None \<Rightarrow> (True, h)
      | Some c \<Rightarrow> emit_result (Command_Called c) (if has_error rsp then response_error J rsp else Inr EC_SUCCESS) h)"

fun ecall_response :: "'j tel_ext \<Rightarrow> tel_cont \<Rightarrow> 'j envelope option \<Rightarrow> 'j call_manager \<Rightarrow> bool \<times> 'j call_manager" where
  "ecall_response T (K_Control cb) rsp h =
     (case control_response (tl_json T) cb rsp (cm_io h) of (ok, s) \<Rightarrow> (ok, h\<lparr>cm_io := s\<rparr>))"
| "ecall_response T (K_Start p cb) rsp h = start_response (tl_json T) p cb rsp h"
| "ecall_response T (K_Msd cb) rsp h =
     (case cb of
        None \<Rightarrow> (True, h)
      | Some c \<Rightarrow> emit_result (Command_Called c) (Inr (if has_error rsp then EC_OPERATION_TIMEOUT else EC_SUCCESS)) h)"
| "ecall_response T (K_Hlap_Status p cb) rsp h =
     (case cb of
        None \<Rightarrow> (True, h)
      | Some c \<Rightarrow>
          (case good_data rsp of
             None \<Rightarrow> emit_result (Hlap_Status_Called c EC_OPERATION_TIMEOUT p) (Inr (six HS_INACTIVE)) h
           | Some d \<Rightarrow> emit_result (Hlap_Status_Called c EC_SUCCESS p) (hlap_statuses (tl_json T) d) h))"
| "ecall_response T (K_Deregister cb) rsp h = plain_response (tl_json T) cb rsp h"
| "ecall_response T (K_Update_Hlap cb) rsp h = plain_response (tl_json T) cb rsp h"
| "ecall_response T (K_Request_Hlap cb) rsp h =
     (case cb of
        None \<Rightarrow> (True, h)
      | Some c \<Rightarrow>
          (case good_data rsp of
             None \<Rightarrow> emit_result (\<lambda>er. Hlap_Timer_Called c er 0) (response_error (tl_json T) rsp) h
           | Some d \<Rightarrow> emit_result (Hlap_Timer_Called c EC_SUCCESS) (value_word (tl_json T) d ''timeDuration'') h))"
| "ecall_response T (K_Set_Config p) rsp h =
     emit_result (Config_Set p) (Inr (if has_error rsp then EC_OPERATION_TIMEOUT else EC_SUCCESS)) h"
| "ecall_response T (K_Get_Config p) rsp h =
     (case good_data rsp of
        None \<Rightarrow> emit_result (Config_Got p EC_OPERATION_TIMEOUT) (Inr config_zero) h
      | Some d \<Rightarrow> emit_result (Config_Got p EC_SUCCESS) (wireToEcallConfig (tl_json T) d) h)"
| "ecall_response T (K_Redial cb) rsp h = plain_response (tl_json T) cb rsp h"
| "ecall_response T (K_Get_Redial p) rsp h =
     (case good_data rsp of
        None \<Rightarrow> emit_result (\<lambda>_. Gaps_Got p EC_OPERATION_TIMEOUT [] []) (Inr ()) h
      | Some d \<Rightarrow>
          emit_result (\<lambda>(origs, drops). Gaps_Got p EC_SUCCESS origs drops)
            (bindE (value_ints (tl_json T) d ''callOrigTimeGap'') (\<lambda>origs.
             bindE (value_ints (tl_json T) d ''callDropTimeGap'') (\<lambda>drops. Inr (origs, drops)))) h)"


section \<open>State handlers\<close>

fun CallMgrNotReady_St :: "'j tel_ext \<Rightarrow> 'j ecall_event event \<Rightarrow> 'j call_manager \<Rightarrow> (status \<times> 'j call_manager) result" where
  "CallMgrNotReady_St T Entry_Signal h = Inr (HANDLED, h)"
| "CallMgrNotReady_St T Exit_Signal h = Inr (HANDLED, h)"
| "CallMgrNotReady_St T (User (E_ReadinessEvt_Signal env)) h =
     bindE (readiness_status (tl_json T) ''AVAILABLE'' env) (\<lambda>up.
       Inr (if up then to_st (St Ready) h else (HANDLED, h)))"
| "CallMgrNotReady_St T (User (E_BridgeConnectivityChanged_Signal b)) h = Inr (HANDLED, h)"
| "CallMgrNotReady_St T (User (CallStateEvt_Signal env)) h = Inr (HANDLED, h)"
| "CallMgrNotReady_St T (User (MsdStatusEvt_Signal env)) h = Inr (HANDLED, h)"
| "CallMgrNotReady_St T (User (HlapTimerEventEvt_Signal env)) h = Inr (HANDLED, h)"
| "CallMgrNotReady_St T (User (RedialEvt_Signal env)) h = Inr (HANDLED, h)"
| "CallMgrNotReady_St T (User (SetInitCb_Signal cb)) h = Inr (HANDLED, h\<lparr>cm_init_cbs := cm_init_cbs h @ [cb]\<rparr>)"
| "CallMgrNotReady_St T (User (RunEcallOp_Signal op)) h = Inr (HANDLED, h)"
| "CallMgrNotReady_St T _ h = Inr (super_st Top_St h)"

text \<open>Entry of \<open>Ready\<close>: the pending callbacks are swapped out, then called.\<close>

definition cm_enterReady :: "'j call_manager \<Rightarrow> 'j call_manager" where
  "cm_enterReady h =
     fold (\<lambda>c. cm_do (io_emit (Tel_Init_Called c SERVICE_AVAILABLE))) (cm_init_cbs h) (h\<lparr>cm_init_cbs := []\<rparr>)"

text \<open>The indication of a call state; as for \<open>start_response\<close>, the state is set after the mutex has been released.\<close>

definition callStateEvt :: "'j tel_ext \<Rightarrow> 'j \<Rightarrow> 'j call_manager \<Rightarrow> 'j call_manager result" where
  "callStateEvt T d h =
     (let J = tl_json T in
      bindE (value_int J d ''phoneId'') (\<lambda>p.
      bindE (call_fields J d) (\<lambda>(i, dir, n).
        case findOrCreateCall p i dir n h of (r, h) \<Rightarrow>
        bindE (value_string J d ''callState'') (\<lambda>s.
          Inr (cm_broadcastToListeners (On_Call_Info r)
            (h\<lparr>cm_store := setCallState r (wireToCallState s) (cm_store h)\<rparr>))))))"

definition msdStatusEvt :: "'j tel_ext \<Rightarrow> 'j \<Rightarrow> 'j call_manager \<Rightarrow> 'j call_manager result" where
  "msdStatusEvt T d h =
     (let J = tl_json T in
      bindE (value_int J d ''phoneId'') (\<lambda>p.
      bindE (value_string J d ''status'') (\<lambda>s.
        Inr (cm_broadcastToListeners (On_Msd_Status p (wireToMsdTransmissionStatus s)) h))))"

definition redialEvt :: "'j tel_ext \<Rightarrow> 'j \<Rightarrow> 'j call_manager \<Rightarrow> 'j call_manager result" where
  "redialEvt T d h =
     (let J = tl_json T in
      bindE (value_int J d ''phoneId'') (\<lambda>p.
      bindE (value_bool J d ''willRedial'') (\<lambda>w.
      bindE (value_string J d ''reason'') (\<lambda>s.
        Inr (cm_broadcastToListeners (On_Redial p w (wireToRedialReason s)) h)))))"

text \<open>The update of the events of one phone; an unknown timer name changes nothing.\<close>

definition hlap_update :: "string \<Rightarrow> hlap_event \<Rightarrow> hlap_event hlap_six \<Rightarrow> hlap_event hlap_six" where
  "hlap_update timer action ev =
     (if timer = ''T2'' then ev\<lparr>hl_t2 := action\<rparr>
      else if timer = ''T5'' then ev\<lparr>hl_t5 := action\<rparr>
      else if timer = ''T6'' then ev\<lparr>hl_t6 := action\<rparr>
      else if timer = ''T7'' then ev\<lparr>hl_t7 := action\<rparr>
      else if timer = ''T9'' then ev\<lparr>hl_t9 := action\<rparr>
      else if timer = ''T10'' then ev\<lparr>hl_t10 := action\<rparr>
      else ev)"

definition hlapTimerEvt :: "'j tel_ext \<Rightarrow> 'j \<Rightarrow> 'j call_manager \<Rightarrow> 'j call_manager result" where
  "hlapTimerEvt T d h =
     (let J = tl_json T in
      bindE (value_int J d ''phoneId'') (\<lambda>p.
      bindE (value_string J d ''timer'') (\<lambda>timer.
      bindE (value_string J d ''action'') (\<lambda>a.
        let old = (case map_of (cm_hlapEvents h) p of None \<Rightarrow> six HE_UNCHANGED | Some ev \<Rightarrow> ev);
            ev = hlap_update timer (wireToHlapTimerEvent a) old
        in Inr (cm_broadcastToListeners (On_Hlap_Event p ev) (h\<lparr>cm_hlapEvents := smap_upd p ev (cm_hlapEvents h)\<rparr>))))))"

definition cm_with_data :: "('j \<Rightarrow> 'j call_manager \<Rightarrow> 'j call_manager result) \<Rightarrow> 'j envelope \<Rightarrow> 'j call_manager
    \<Rightarrow> (status \<times> 'j call_manager) result" where
  "cm_with_data f env h =
     (case env_data env of None \<Rightarrow> Inr (HANDLED, h) | Some d \<Rightarrow> bindE (f d h) (\<lambda>h. Inr (HANDLED, h)))"

fun CallMgrReady_St :: "'j tel_ext \<Rightarrow> 'j ecall_event event \<Rightarrow> 'j call_manager \<Rightarrow> (status \<times> 'j call_manager) result" where
  "CallMgrReady_St T Entry_Signal h = Inr (HANDLED, cm_enterReady h)"
| "CallMgrReady_St T Exit_Signal h = Inr (HANDLED, h)"
| "CallMgrReady_St T (User (SetInitCb_Signal cb)) h =
     Inr (HANDLED, cm_do (io_emit (Tel_Init_Called cb SERVICE_AVAILABLE)) h)"
| "CallMgrReady_St T (User (E_ReadinessEvt_Signal env)) h =
     bindE (readiness_status (tl_json T) ''UNAVAILABLE'' env) (\<lambda>dn.
       Inr (if dn then to_st (St NotReady) h else (HANDLED, h)))"
| "CallMgrReady_St T (User (E_BridgeConnectivityChanged_Signal b)) h =
     Inr (if \<not> b then to_st (St NotReady) h else (HANDLED, h))"
| "CallMgrReady_St T (User (RunEcallOp_Signal op)) h = Inr (HANDLED, run_op T op h)"
| "CallMgrReady_St T (User (CallStateEvt_Signal env)) h = cm_with_data (callStateEvt T) env h"
| "CallMgrReady_St T (User (MsdStatusEvt_Signal env)) h = cm_with_data (msdStatusEvt T) env h"
| "CallMgrReady_St T (User (RedialEvt_Signal env)) h = cm_with_data (redialEvt T) env h"
| "CallMgrReady_St T (User (HlapTimerEventEvt_Signal env)) h = cm_with_data (hlapTimerEvt T) env h"
| "CallMgrReady_St T _ h = Inr (super_st Top_St h)"

fun call_handlers :: "'j tel_ext \<Rightarrow> rstate \<Rightarrow> 'j ecall_event event \<Rightarrow> 'j call_manager \<Rightarrow> (status \<times> 'j call_manager) result" where
  "call_handlers T NotReady e h = CallMgrNotReady_St T e h"
| "call_handlers T Ready e h = CallMgrReady_St T e h"

section \<open>Lifecycle\<close>

definition newCallManager :: "nat option \<Rightarrow> 'j call_manager" where
  "newCallManager initCb =
     \<lparr>hstate = Top_St, htemp = Top_St, last_ignored = False, trace_fn = False, probe_fn = False, instr_log = [],
      ao_name = ''CallManager'', ao_inst = False, ao_q = [], ao_running = False,
      cm_conn_token = 0, cm_init_cbs = (case initCb of None \<Rightarrow> [] | Some c \<Rightarrow> [c]), cm_calls = [], cm_hlapEvents = [],
      cm_listeners = [], cm_store = [], cm_io = \<lparr>io_counter = 0, io_now = 0, io_out = []\<rparr>\<rparr>"

definition cm_start :: "nat \<Rightarrow> 'j tel_ext \<Rightarrow> 'j call_manager \<Rightarrow> 'j call_manager result" where
  "cm_start n T h =
     (if ao_running h then Inr h
      else bindE (start_at n (call_handlers T) (St NotReady) (h\<lparr>ao_inst := True\<rparr>)) (\<lambda>h.
        let h = cm_do (io_emit (Tel_Subscribed (subsys_ready_call_ind T) ''ecall.subsys_ready_call.ind'')) h;
            h = cm_do (io_emit (Tel_Subscribed (call_state_ind T) ''ecall.call_state.ind'')) h;
            h = cm_do (io_emit (Tel_Subscribed (msd_transmission_status_ind T) ''ecall.msd_transmission_status.ind'')) h;
            h = cm_do (io_emit (Tel_Subscribed (hlap_timer_event_ind T) ''ecall.hlap_timer_event.ind'')) h;
            h = cm_do (io_emit (Tel_Subscribed (redial_ind T) ''ecall.redial.ind'')) h;
            h = cm_do (io_emit (Tel_Connectivity_Subscribed (tl_token T))) h
        in Inr (h\<lparr>cm_conn_token := tl_token T\<rparr>)))"

definition cm_ensureStarted :: "nat \<Rightarrow> 'j tel_ext \<Rightarrow> 'j call_manager \<Rightarrow> 'j call_manager result" where
  "cm_ensureStarted n T h = (if \<not> ao_running h then cm_start n T h else Inr h)"

definition cm_unsubscribeFromBridge :: "'j tel_ext \<Rightarrow> 'j call_manager \<Rightarrow> 'j call_manager" where
  "cm_unsubscribeFromBridge T h =
     (let h = cm_do (io_emit (Tel_Unsubscribed (subsys_ready_call_ind T))) h;
          h = cm_do (io_emit (Tel_Unsubscribed (call_state_ind T))) h;
          h = cm_do (io_emit (Tel_Unsubscribed (msd_transmission_status_ind T))) h;
          h = cm_do (io_emit (Tel_Unsubscribed (hlap_timer_event_ind T))) h;
          h = cm_do (io_emit (Tel_Unsubscribed (redial_ind T))) h;
          h = cm_do (io_emit (Tel_Connectivity_Unsubscribed (cm_conn_token h))) h
      in cm_do (io_emit Tel_Bridge_Drained) (h\<lparr>cm_conn_token := 0\<rparr>))"

definition cm_destroy :: "nat \<Rightarrow> nat \<Rightarrow> 'j tel_ext \<Rightarrow> 'j call_manager \<Rightarrow> 'j call_manager result" where
  "cm_destroy k n T h = stop k n (call_handlers T) False (cm_unsubscribeFromBridge T h)"

definition setInitCallback :: "nat \<Rightarrow> 'j tel_ext \<Rightarrow> nat option \<Rightarrow> 'j call_manager \<Rightarrow> 'j call_manager result" where
  "setInitCallback n T cb h =
     (case cb of
        None \<Rightarrow> Inr h
      | Some c \<Rightarrow> bindE (cm_ensureStarted n T h) (\<lambda>h.
          Inr (if cm_isReadyDerived h then cm_do (io_emit (Tel_Init_Called c SERVICE_AVAILABLE)) h
               else post_fifo (SetInitCb_Signal c) h)))"

section \<open>Indications\<close>

definition cm_handleReadinessInd :: "'j envelope \<Rightarrow> 'j call_manager \<Rightarrow> 'j call_manager" where
  "cm_handleReadinessInd env = post_fifo (E_ReadinessEvt_Signal env)"

definition handleCallStateInd :: "'j envelope \<Rightarrow> 'j call_manager \<Rightarrow> 'j call_manager" where
  "handleCallStateInd env = post_fifo (CallStateEvt_Signal env)"

definition handleMsdStatusInd :: "'j envelope \<Rightarrow> 'j call_manager \<Rightarrow> 'j call_manager" where
  "handleMsdStatusInd env = post_fifo (MsdStatusEvt_Signal env)"

definition handleHlapTimerEventInd :: "'j envelope \<Rightarrow> 'j call_manager \<Rightarrow> 'j call_manager" where
  "handleHlapTimerEventInd env = post_fifo (HlapTimerEventEvt_Signal env)"

definition handleRedialInd :: "'j envelope \<Rightarrow> 'j call_manager \<Rightarrow> 'j call_manager" where
  "handleRedialInd env = post_fifo (RedialEvt_Signal env)"


section \<open>The public interface\<close>

type_synonym 'j cm_call = "(api_status \<times> 'j call_manager) result"

text \<open>
  The shape of the operations: start the manager if necessary; when it is not ready answer the
  client at once (\<open>refuse\<close>), else post the closure.
\<close>

definition ecall_post :: "nat \<Rightarrow> 'j tel_ext \<Rightarrow> ('j call_manager \<Rightarrow> 'j call_manager) \<Rightarrow> ecall_op \<Rightarrow> 'j call_manager \<Rightarrow> 'j cm_call" where
  "ecall_post n T refuse op h =
     bindE (cm_ensureStarted n T h) (\<lambda>h.
       Inr (if \<not> cm_isReadyDerived h then (NOTREADY, refuse h) else (SUCCESS, post_fifo (RunEcallOp_Signal op) h)))"

definition refuse_make :: "nat option \<Rightarrow> 'j call_manager \<Rightarrow> 'j call_manager" where
  "refuse_make cb = call_made cb EC_SUBSYSTEM_UNAVAILABLE None"

definition refuse_command :: "nat option \<Rightarrow> 'j call_manager \<Rightarrow> 'j call_manager" where
  "refuse_command cb = cm_do (command_response cb EC_SUBSYSTEM_UNAVAILABLE)"

text \<open>
  The eight overloads of \<open>makeECall\<close>, by their parameters: \<open>_msd\<close> takes the MSD as a structure,
  \<open>_pdu\<close> as bytes (transmitted when not empty), \<open>_dial\<close> the number to dial, \<open>_tps\<close> are the calls to a
  private number.
\<close>

definition makeECall_msd :: "nat \<Rightarrow> 'j tel_ext \<Rightarrow> int \<Rightarrow> nat option \<Rightarrow> 'j call_manager \<Rightarrow> 'j cm_call" where
  "makeECall_msd n T phoneId cb = ecall_post n T (refuse_make cb) (Op_Make phoneId ''AUTOMATIC'' True [] [] cb)"

definition makeECall_dial_msd :: "nat \<Rightarrow> 'j tel_ext \<Rightarrow> int \<Rightarrow> string \<Rightarrow> nat option \<Rightarrow> 'j call_manager \<Rightarrow> 'j cm_call" where
  "makeECall_dial_msd n T phoneId dial cb =
     ecall_post n T (refuse_make cb) (Op_Make phoneId ''AUTOMATIC'' True dial [] cb)"

definition makeECall_tps_header :: "nat \<Rightarrow> 'j tel_ext \<Rightarrow> int \<Rightarrow> string \<Rightarrow> 8 word list \<Rightarrow> nat option \<Rightarrow> 'j call_manager \<Rightarrow> 'j cm_call" where
  "makeECall_tps_header n T phoneId dial pdu cb =
     ecall_post n T (refuse_make cb) (Op_Make phoneId ''PRIVATE'' (pdu \<noteq> []) [] dial cb)"

definition makeECall_pdu :: "nat \<Rightarrow> 'j tel_ext \<Rightarrow> int \<Rightarrow> 8 word list \<Rightarrow> nat option \<Rightarrow> 'j call_manager \<Rightarrow> 'j cm_call" where
  "makeECall_pdu n T phoneId pdu cb =
     ecall_post n T (refuse_make cb) (Op_Make phoneId ''AUTOMATIC'' (pdu \<noteq> []) [] [] cb)"

definition makeECall_dial_pdu :: "nat \<Rightarrow> 'j tel_ext \<Rightarrow> int \<Rightarrow> string \<Rightarrow> 8 word list \<Rightarrow> nat option \<Rightarrow> 'j call_manager \<Rightarrow> 'j cm_call" where
  "makeECall_dial_pdu n T phoneId dial pdu cb =
     ecall_post n T (refuse_make cb) (Op_Make phoneId ''AUTOMATIC'' (pdu \<noteq> []) dial [] cb)"

definition makeECall_plain :: "nat \<Rightarrow> 'j tel_ext \<Rightarrow> int \<Rightarrow> nat option \<Rightarrow> 'j call_manager \<Rightarrow> 'j cm_call" where
  "makeECall_plain n T phoneId cb = ecall_post n T (refuse_make cb) (Op_Make phoneId ''AUTOMATIC'' False [] [] cb)"

definition makeECall_dial :: "nat \<Rightarrow> 'j tel_ext \<Rightarrow> int \<Rightarrow> string \<Rightarrow> nat option \<Rightarrow> 'j call_manager \<Rightarrow> 'j cm_call" where
  "makeECall_dial n T phoneId dial cb =
     ecall_post n T (refuse_make cb) (Op_Make phoneId ''AUTOMATIC'' False dial [] cb)"

definition makeECall_tps :: "nat \<Rightarrow> 'j tel_ext \<Rightarrow> int \<Rightarrow> string \<Rightarrow> 8 word list \<Rightarrow> nat option \<Rightarrow> 'j call_manager \<Rightarrow> 'j cm_call" where
  "makeECall_tps n T phoneId dial pdu cb =
     ecall_post n T (refuse_make cb) (Op_Make phoneId ''PRIVATE'' (pdu \<noteq> []) [] dial cb)"

definition updateECallMsd :: "nat \<Rightarrow> 'j tel_ext \<Rightarrow> int \<Rightarrow> nat option \<Rightarrow> 'j call_manager \<Rightarrow> 'j cm_call" where
  "updateECallMsd n T phoneId cb = ecall_post n T (refuse_command cb) (Op_Send_Msd phoneId cb)"

definition updateECallMsd_pdu :: "nat \<Rightarrow> 'j tel_ext \<Rightarrow> int \<Rightarrow> 8 word list \<Rightarrow> nat option \<Rightarrow> 'j call_manager \<Rightarrow> 'j cm_call" where
  "updateECallMsd_pdu n T phoneId pdu cb = ecall_post n T (refuse_command cb) (Op_Send_Msd phoneId cb)"

definition requestECallHlapTimerStatus :: "nat \<Rightarrow> 'j tel_ext \<Rightarrow> int \<Rightarrow> nat option \<Rightarrow> 'j call_manager \<Rightarrow> 'j cm_call" where
  "requestECallHlapTimerStatus n T phoneId cb =
     ecall_post n T
       (\<lambda>h. case cb of None \<Rightarrow> h
          | Some c \<Rightarrow> cm_do (io_emit (Hlap_Status_Called c EC_SUBSYSTEM_UNAVAILABLE phoneId (six HS_INACTIVE))) h)
       (Op_Hlap_Status phoneId cb)"

definition requestNetworkDeregistration :: "nat \<Rightarrow> 'j tel_ext \<Rightarrow> int \<Rightarrow> nat option \<Rightarrow> 'j call_manager \<Rightarrow> 'j cm_call" where
  "requestNetworkDeregistration n T phoneId cb = ecall_post n T (refuse_command cb) (Op_Deregister phoneId cb)"

definition updateEcallHlapTimer :: "nat \<Rightarrow> 'j tel_ext \<Rightarrow> int \<Rightarrow> hlap_timer \<Rightarrow> 32 word \<Rightarrow> nat option \<Rightarrow> 'j call_manager \<Rightarrow> 'j cm_call" where
  "updateEcallHlapTimer n T phoneId ty d cb = ecall_post n T (refuse_command cb) (Op_Update_Hlap phoneId ty d cb)"

definition requestEcallHlapTimer :: "nat \<Rightarrow> 'j tel_ext \<Rightarrow> int \<Rightarrow> hlap_timer \<Rightarrow> nat option \<Rightarrow> 'j call_manager \<Rightarrow> 'j cm_call" where
  "requestEcallHlapTimer n T phoneId ty cb =
     ecall_post n T
       (\<lambda>h. case cb of None \<Rightarrow> h | Some c \<Rightarrow> cm_do (io_emit (Hlap_Timer_Called c EC_SUBSYSTEM_UNAVAILABLE 0)) h)
       (Op_Request_Hlap phoneId ty cb)"

definition configureECallRedial :: "nat \<Rightarrow> 'j tel_ext \<Rightarrow> redial_config \<Rightarrow> int list \<Rightarrow> nat option \<Rightarrow> 'j call_manager \<Rightarrow> 'j cm_call" where
  "configureECallRedial n T cfg gaps cb h =
     (let maxAttempts = (if cfg = CALL_ORIG then 10 else 2) in
      if gaps = [] \<or> maxAttempts < length gaps
      then Inr (INVALIDPARAM, cm_do (command_response cb EC_INVALID_ARGUMENTS) h)
      else ecall_post n T (refuse_command cb) (Op_Redial cfg gaps cb) h)"

text \<open>
  The blocking operations post with a promise \<open>p\<close> and wait; \<open>got\<close> is the value that arrived in time
  (the caller keeps the promise alive, so it is never abandoned).
\<close>

definition setECallConfig_post :: "nat \<Rightarrow> 'j tel_ext \<Rightarrow> ecall_config \<Rightarrow> nat \<Rightarrow> 'j call_manager \<Rightarrow> 'j cm_call" where
  "setECallConfig_post n T cfg p = ecall_post n T (\<lambda>h. h) (Op_Set_Config cfg p)"

definition setECallConfig_result :: "error_code option \<Rightarrow> api_status" where
  "setECallConfig_result got =
     (case got of None \<Rightarrow> FAILED | Some er \<Rightarrow> if er = EC_SUCCESS then SUCCESS else FAILED)"

definition getECallConfig_post :: "nat \<Rightarrow> 'j tel_ext \<Rightarrow> nat \<Rightarrow> 'j call_manager \<Rightarrow> 'j cm_call" where
  "getECallConfig_post n T p = ecall_post n T (\<lambda>h. h) (Op_Get_Config p)"

definition getECallConfig_result :: "(error_code \<times> ecall_config) option \<Rightarrow> ecall_config \<Rightarrow> api_status \<times> ecall_config" where
  "getECallConfig_result got config =
     (case got of
        None \<Rightarrow> (FAILED, config)
      | Some (er, c) \<Rightarrow> if er \<noteq> EC_SUCCESS then (FAILED, config) else (SUCCESS, c))"

definition getECallRedialConfig_post :: "nat \<Rightarrow> 'j tel_ext \<Rightarrow> nat \<Rightarrow> 'j call_manager \<Rightarrow> (error_code option \<times> 'j call_manager) result" where
  "getECallRedialConfig_post n T p h =
     bindE (cm_ensureStarted n T h) (\<lambda>h.
       Inr (if \<not> cm_isReadyDerived h then (Some EC_SUBSYSTEM_UNAVAILABLE, h)
            else (None, post_fifo (RunEcallOp_Signal (Op_Get_Redial p)) h)))"

definition getECallRedialConfig_result :: "(error_code \<times> int list \<times> int list) option \<Rightarrow> int list \<times> int list
    \<Rightarrow> error_code \<times> int list \<times> int list" where
  "getECallRedialConfig_result got old =
     (case got of
        None \<Rightarrow> (EC_OPERATION_TIMEOUT, old)
      | Some (er, gaps) \<Rightarrow> (er, if er = EC_SUCCESS then gaps else old))"

text \<open>A null listener is \<open>None\<close>; \<open>std::remove\<close> removes every occurrence.\<close>

definition cm_registerListener :: "nat option \<Rightarrow> 'j call_manager \<Rightarrow> api_status \<times> 'j call_manager" where
  "cm_registerListener l h =
     (case l of None \<Rightarrow> (INVALIDPARAM, h) | Some x \<Rightarrow> (SUCCESS, h\<lparr>cm_listeners := cm_listeners h @ [x]\<rparr>))"

definition cm_removeListener :: "nat option \<Rightarrow> 'j call_manager \<Rightarrow> api_status \<times> 'j call_manager" where
  "cm_removeListener l h = (SUCCESS, h\<lparr>cm_listeners := filter (\<lambda>x. Some x \<noteq> l) (cm_listeners h)\<rparr>)"

text \<open>The operations that are refused as not supported.\<close>

definition makeCall :: "nat option \<Rightarrow> 'j call_manager \<Rightarrow> api_status \<times> 'j call_manager" where
  "makeCall cb h = (NOTSUPPORTED, call_made cb EC_NOT_SUPPORTED None h)"

definition makeRttCall :: "nat option \<Rightarrow> 'j call_manager \<Rightarrow> api_status \<times> 'j call_manager" where
  "makeRttCall cb h = (NOTSUPPORTED, call_made cb EC_NOT_SUPPORTED None h)"

definition cm_unsupported :: "nat option \<Rightarrow> 'j call_manager \<Rightarrow> api_status \<times> 'j call_manager" where
  "cm_unsupported cb h = (NOTSUPPORTED, cm_do (command_response cb EC_NOT_SUPPORTED) h)"

definition cm_conference :: "nat option \<Rightarrow> 'j call_manager \<Rightarrow> api_status \<times> 'j call_manager" where
  "cm_conference = cm_unsupported"

definition cm_swap :: "nat option \<Rightarrow> 'j call_manager \<Rightarrow> api_status \<times> 'j call_manager" where
  "cm_swap = cm_unsupported"

definition hangupForegroundResumeBackground :: "nat option \<Rightarrow> 'j call_manager \<Rightarrow> api_status \<times> 'j call_manager" where
  "hangupForegroundResumeBackground = cm_unsupported"

definition hangupWaitingOrBackground :: "nat option \<Rightarrow> 'j call_manager \<Rightarrow> api_status \<times> 'j call_manager" where
  "hangupWaitingOrBackground = cm_unsupported"

definition requestEcbm :: "nat option \<Rightarrow> 'j call_manager \<Rightarrow> api_status \<times> 'j call_manager" where
  "requestEcbm cb h =
     (NOTSUPPORTED, case cb of None \<Rightarrow> h | Some c \<Rightarrow> cm_do (io_emit (Ecbm_Called c EC_NOT_SUPPORTED)) h)"

definition exitEcbm :: "nat option \<Rightarrow> 'j call_manager \<Rightarrow> api_status \<times> 'j call_manager" where
  "exitEcbm = cm_unsupported"

definition sendRtt :: "nat option \<Rightarrow> 'j call_manager \<Rightarrow> api_status \<times> 'j call_manager" where
  "sendRtt = cm_unsupported"

definition restartECallHlapTimer :: "nat option \<Rightarrow> 'j call_manager \<Rightarrow> api_status \<times> 'j call_manager" where
  "restartECallHlapTimer = cm_unsupported"

definition updateECallPostTestRegistrationTimer :: "nat option \<Rightarrow> 'j call_manager \<Rightarrow> api_status \<times> 'j call_manager" where
  "updateECallPostTestRegistrationTimer = cm_unsupported"

definition setEmergencyMode :: "nat option \<Rightarrow> 'j call_manager \<Rightarrow> api_status \<times> 'j call_manager" where
  "setEmergencyMode = cm_unsupported"

end
