(* ===== verification/Tel_Call_Spec.thy ===== *)
theory Tel_Call_Spec
  imports Tel_Call_Manager
begin

text \<open>
  The call manager as an instance of the readiness chart; the invariant of its table of calls
  over all sequences of events and responses; the accounting of the clients' callbacks; the
  round trip of the eCall configuration.
\<close>

section \<open>The chart\<close>

fun cm_en :: "rstate \<Rightarrow> 'j call_manager \<Rightarrow> 'j call_manager" where
  "cm_en NotReady h = h"
| "cm_en Ready h = cm_enterReady h"

fun cm_up :: "'j tel_ext \<Rightarrow> 'j ecall_event \<Rightarrow> bool" where
  "cm_up T (E_ReadinessEvt_Signal env) \<longleftrightarrow> readiness_status (tl_json T) ''AVAILABLE'' env = Inr True"
| "cm_up T _ \<longleftrightarrow> False"

fun cm_down :: "'j tel_ext \<Rightarrow> 'j ecall_event \<Rightarrow> bool" where
  "cm_down T (E_ReadinessEvt_Signal env) \<longleftrightarrow> readiness_status (tl_json T) ''UNAVAILABLE'' env = Inr True"
| "cm_down T (E_BridgeConnectivityChanged_Signal b) \<longleftrightarrow> \<not> b"
| "cm_down T _ \<longleftrightarrow> False"

lemma posts_only_call_upd [simp]:
  "posts_only g (h\<lparr>cm_io := a\<rparr>) = posts_only g h" "posts_only g (h\<lparr>cm_store := b\<rparr>) = posts_only g h"
  "posts_only g (h\<lparr>cm_calls := c\<rparr>) = posts_only g h" "posts_only g (h\<lparr>cm_init_cbs := d\<rparr>) = posts_only g h"
  "posts_only g (h\<lparr>cm_hlapEvents := e\<rparr>) = posts_only g h"
  by (simp_all add: posts_only_def)

lemma cm_do_posts [simp]: "posts_only g (cm_do f h) = posts_only g h"
  by (simp add: cm_do_def)

lemma fold_cm_do: "fold (\<lambda>x. cm_do (f x)) xs h = cm_do (fold f xs) h"
  by (induction xs arbitrary: h) (simp_all add: cm_do_def)

lemma cm_broadcast_posts [simp]: "posts_only g (cm_broadcastToListeners nt h) = posts_only g h"
  by (simp add: cm_broadcastToListeners_def)

lemma takeCall_posts: "takeCall p i d n h = (r, st, h') \<Longrightarrow> posts_only g h' = posts_only g h"
  by (auto simp: takeCall_def Let_def split: option.splits if_splits)

lemma findOrCreateCall_posts [simp]: "posts_only g (snd (findOrCreateCall p i d n h)) = posts_only g h"
  by (auto simp: findOrCreateCall_def endStale_def takeCall_posts split: prod.splits option.splits)

lemma run_op_do: "\<exists>f. run_op T op h = cm_do f h"
  by (cases op) (auto simp: doMakeECall_def ecall_request_def Let_def)

lemma run_op_posts [simp]: "posts_only g (run_op T op h) = posts_only g h"
  using run_op_do [of T op h] by auto

lemma cm_enterReady_posts [simp]: "posts_only g (cm_enterReady h) = posts_only g h"
  by (simp add: cm_enterReady_def fold_cm_do)

lemma cm_update_posts:
  "callStateEvt T d h = Inr h' \<Longrightarrow> posts_only h h'" "msdStatusEvt T d h = Inr h' \<Longrightarrow> posts_only h h'"
  "redialEvt T d h = Inr h' \<Longrightarrow> posts_only h h'" "hlapTimerEvt T d h = Inr h' \<Longrightarrow> posts_only h h'"
  by (auto simp: callStateEvt_def msdStatusEvt_def redialEvt_def hlapTimerEvt_def Let_def bindE_eq_Inr case_prod_unfold)

lemma cm_with_data_Inr:
  "cm_with_data f env h = Inr (r, h') \<Longrightarrow> r = HANDLED \<and> (h' = h \<or> (\<exists>d. env_data env = Some d \<and> f d h = Inr h'))"
  by (auto simp: cm_with_data_def bindE_eq_Inr split: option.splits)

interpretation cm: readiness "call_handlers T" cm_en "\<lambda>_ h. h" "cm_up T" "cm_down T"
  for T :: "'j tel_ext"
proof unfold_locales
  fix s :: rstate and h h' :: "'j call_manager" and u r x
  show "call_handlers T s None_Signal h = Inr (TO_SUPER, h\<lparr>htemp := Top_St\<rparr>)"
    by (cases s) (simp_all add: super_st_def)
  show "\<exists>r t. call_handlers T s Entry_Signal h = Inr (r, (cm_en s h)\<lparr>htemp := t\<rparr>)"
    by (cases s) auto
  show "\<exists>r t. call_handlers T s Exit_Signal h = Inr (r, h\<lparr>htemp := t\<rparr>) \<and> (r = HANDLED \<or> t = Top_St)"
    by (cases s) (auto intro: exI [of _ "htemp h"])
  show "cm_en s (h\<lparr>htemp := x\<rparr>) = (cm_en s h)\<lparr>htemp := x\<rparr>"
    by (cases s) (simp_all add: cm_enterReady_def fold_cm_do cm_do_def)
  show "\<exists>r t. call_handlers T s Init_Signal h = Inr (r, h\<lparr>htemp := t\<rparr>) \<and> r \<noteq> NEED_TO_TRANSFER"
    by (cases s) (auto simp: super_st_def)
  show "call_handlers T s (User u) h = Inr (TO_SUPER, h') \<Longrightarrow> htemp h' = Top_St"
    by (cases s; cases u) (auto simp: to_st_def super_st_def bindE_eq_Inr split: if_splits dest!: cm_with_data_Inr)
  show "call_handlers T s (User u) h = Inr (NEED_TO_TRANSFER, h') \<Longrightarrow> \<exists>t. htemp h' = St t"
    by (cases s; cases u) (auto simp: to_st_def super_st_def bindE_eq_Inr split: if_splits dest!: cm_with_data_Inr)
  show "call_handlers T s (User u) h = Inr (r, h') \<Longrightarrow> posts_only h h'"
    by (cases s; cases u)
      (auto simp: to_st_def super_st_def bindE_eq_Inr split: if_splits dest!: cm_with_data_Inr dest: cm_update_posts)
  show "posts_only h (cm_en s h)" by (cases s) simp_all
  show "if cm_up T u then r = NEED_TO_TRANSFER \<and> htemp h' = St Ready else r \<noteq> NEED_TO_TRANSFER"
    if "call_handlers T NotReady (User u) h = Inr (r, h')"
    using that by (cases u) (auto simp: to_st_def super_st_def bindE_eq_Inr split: if_splits)
  show "if cm_down T u then r = NEED_TO_TRANSFER \<and> htemp h' = St NotReady else r \<noteq> NEED_TO_TRANSFER"
    if "call_handlers T Ready (User u) h = Inr (r, h')"
    using that by (cases u)
      (auto simp: to_st_def super_st_def bindE_eq_Inr split: if_splits dest!: cm_with_data_Inr)
qed (simp_all add: kMaxNest_def numeral_eq_Suc)

section \<open>The table of calls\<close>

definition call_table_ok :: "'j call_manager \<Rightarrow> bool" where
  "call_table_ok h \<longleftrightarrow> smap_ok (cm_calls h) \<and>
     (\<forall>p r. map_of (cm_calls h) p = Some r \<longrightarrow> r < length (cm_store h) \<and> sc_phoneId (cm_store h ! r) = p) \<and>
     (\<forall>r < length (cm_store h). map_of (cm_calls h) (sc_phoneId (cm_store h ! r)) \<noteq> Some r \<longrightarrow>
        sc_state (cm_store h ! r) = CALL_ENDED)"

text \<open>The call of each phone, as a function: what the table is meant to be.\<close>

definition phone_calls :: "'j call_manager \<Rightarrow> int \<rightharpoonup> sim_call" where
  "phone_calls h p = map_option ((!) (cm_store h)) (map_of (cm_calls h) p)"

definition enter_call :: "int \<Rightarrow> int \<Rightarrow> call_dir \<Rightarrow> string \<Rightarrow> call_state \<Rightarrow> (int \<rightharpoonup> sim_call) \<Rightarrow> int \<rightharpoonup> sim_call" where
  "enter_call p i d n st m =
     m(p \<mapsto> (case m p of
        None \<Rightarrow> newCall p i d n
      | Some c \<Rightarrow> if sc_callIndex c = i then c else newCall p i d n)\<lparr>sc_state := st\<rparr>)"

text \<open>\<open>findOrCreateCall_\<close> and the \<open>setCallState\<close> that follows each of its uses.\<close>

definition note_call :: "int \<Rightarrow> int \<Rightarrow> call_dir \<Rightarrow> string \<Rightarrow> call_state \<Rightarrow> 'j call_manager \<Rightarrow> nat \<times> 'j call_manager" where
  "note_call p i d n st h =
     (case findOrCreateCall p i d n h of (r, h) \<Rightarrow> (r, h\<lparr>cm_store := setCallState r st (cm_store h)\<rparr>))"

lemma cm_do_sel [simp]:
  "cm_calls (cm_do f h) = cm_calls h" "cm_store (cm_do f h) = cm_store h" "cm_hlapEvents (cm_do f h) = cm_hlapEvents h"
  "cm_init_cbs (cm_do f h) = cm_init_cbs h" "cm_listeners (cm_do f h) = cm_listeners h" "ao_q (cm_do f h) = ao_q h"
  "ao_running (cm_do f h) = ao_running h" "hstate (cm_do f h) = hstate h" "cm_io (cm_do f h) = f (cm_io h)"
  by (simp_all add: cm_do_def)

lemma broadcast_sel [simp]:
  "cm_calls (cm_broadcastToListeners x h) = cm_calls h" "cm_store (cm_broadcastToListeners x h) = cm_store h"
  "cm_init_cbs (cm_broadcastToListeners x h) = cm_init_cbs h" "ao_q (cm_broadcastToListeners x h) = ao_q h"
  "ao_running (cm_broadcastToListeners x h) = ao_running h" "hstate (cm_broadcastToListeners x h) = hstate h"
  "cm_hlapEvents (cm_broadcastToListeners x h) = cm_hlapEvents h"
  "cm_listeners (cm_broadcastToListeners x h) = cm_listeners h"
  by (simp_all add: cm_broadcastToListeners_def)

lemma setCallState_nth:
  "length (setCallState r st store) = length store"
  "q < length store \<Longrightarrow> setCallState r st store ! q = (if q = r then (store ! q)\<lparr>sc_state := st\<rparr> else store ! q)"
  by (auto simp: setCallState_def nth_list_update)

text \<open>The three ways \<open>findOrCreateCall_\<close> goes, on the table and the store.\<close>

lemma findOrCreateCall_cases:
  fixes h :: "'j call_manager"
  assumes "findOrCreateCall p i d n h = (r, h')"
  obtains
    (hit) "map_of (cm_calls h) p = Some r" "sc_callIndex (cm_store h ! r) = i" "h' = h"
  | (new) old where "r = length (cm_store h)" "map_of (cm_calls h) p = old"
      "\<forall>q. old = Some q \<longrightarrow> sc_callIndex (cm_store h ! q) \<noteq> i"
      "cm_calls h' = smap_upd p r (cm_calls h)"
      "cm_store h' = (case old of
         None \<Rightarrow> cm_store h @ [newCall p i d n]
       | Some q \<Rightarrow> if sc_state (cm_store h ! q) = CALL_ENDED then cm_store h @ [newCall p i d n]
           else setCallState q CALL_ENDED (cm_store h @ [newCall p i d n]))"
proof (cases "map_of (cm_calls h) p")
  case None
  with assms show ?thesis by (intro new) (auto simp: findOrCreateCall_def takeCall_def endStale_def Let_def)
next
  case (Some q)
  show ?thesis
  proof (cases "sc_callIndex (cm_store h ! q) = i")
    case True
    with assms Some show ?thesis
      by (intro hit) (auto simp: findOrCreateCall_def takeCall_def endStale_def Let_def)
  next
    case False
    with assms Some show ?thesis
      by (intro new [of "Some q"]) (auto simp: findOrCreateCall_def takeCall_def endStale_def Let_def split: if_splits)
  qed
qed

lemma call_table_okD:
  assumes "call_table_ok h"
  shows "smap_ok (cm_calls h)" "map_of (cm_calls h) p = Some r \<Longrightarrow> r < length (cm_store h)"
    "map_of (cm_calls h) p = Some r \<Longrightarrow> sc_phoneId (cm_store h ! r) = p"
    "r < length (cm_store h) \<Longrightarrow> map_of (cm_calls h) (sc_phoneId (cm_store h ! r)) \<noteq> Some r \<Longrightarrow>
      sc_state (cm_store h ! r) = CALL_ENDED"
  using assms by (auto simp: call_table_ok_def)

lemma call_table_ok_cong:
  "cm_calls h' = cm_calls h \<Longrightarrow> cm_store h' = cm_store h \<Longrightarrow> call_table_ok h' = call_table_ok h"
  by (simp add: call_table_ok_def)

lemma set_current_ok:
  assumes "call_table_ok h" "map_of (cm_calls h) p = Some r"
  shows "call_table_ok (h\<lparr>cm_store := setCallState r st (cm_store h)\<rparr>)"
  using assms by (auto simp: call_table_ok_def setCallState_nth)

lemma findOrCreateCall_ok:
  assumes "call_table_ok h" "findOrCreateCall p i d n h = (r, h')"
  shows "call_table_ok h' \<and> map_of (cm_calls h') p = Some r"
  using assms(2)
proof (cases rule: findOrCreateCall_cases)
  case hit
  with assms(1) show ?thesis by simp
next
  case (new old)
  note ok = call_table_okD [OF assms(1)]
  let ?new = "newCall p i d n"
  have len: "length (cm_store h') = Suc (length (cm_store h))"
    using new(5) by (auto simp: setCallState_nth split: option.splits if_splits)
  have nth: "cm_store h' ! q = (if q = r then ?new
      else if old = Some q then (cm_store h ! q)\<lparr>sc_state := CALL_ENDED\<rparr> else cm_store h ! q)"
    if "q < length (cm_store h')" for q
    using that len new(1,2,5) ok(2) [of p]
    by (auto simp: setCallState_nth nth_append split: option.splits if_splits)
  have cur: "map_of (cm_calls h') = (map_of (cm_calls h))(p \<mapsto> r)" using new(4) ok(1) by simp
  have "smap_ok (cm_calls h')" using new(4) ok(1) by auto
  moreover have "\<forall>p' r'. map_of (cm_calls h') p' = Some r' \<longrightarrow> r' < length (cm_store h') \<and> sc_phoneId (cm_store h' ! r') = p'"
    using cur len nth new(1) ok(2,3) by (auto simp: newCall_def less_Suc_eq split: if_splits)
  moreover have "\<forall>q < length (cm_store h'). map_of (cm_calls h') (sc_phoneId (cm_store h' ! q)) \<noteq> Some q \<longrightarrow>
      sc_state (cm_store h' ! q) = CALL_ENDED"
    using cur len nth new(1,2) ok(3,4) by (auto simp: newCall_def less_Suc_eq split: if_splits)
  ultimately show ?thesis using cur by (simp add: call_table_ok_def)
qed

lemma note_call_ok:
  assumes "call_table_ok h" "note_call p i d n st h = (r, h')"
  shows "call_table_ok h'"
  using assms findOrCreateCall_ok [OF assms(1)] set_current_ok
  by (fastforce simp: note_call_def split: prod.splits)

lemma newCall_sel [simp]:
  "sc_phoneId (newCall p i d n) = p" "sc_callIndex (newCall p i d n) = i" "sc_state (newCall p i d n) = CALL_IDLE"
  by (simp_all add: newCall_def)

text \<open>The table and the store of objects implement the function from phones to calls.\<close>

lemma phone_calls_cong:
  "cm_calls h' = cm_calls h \<Longrightarrow> cm_store h' = cm_store h \<Longrightarrow> phone_calls h' = phone_calls h"
  by (simp add: phone_calls_def fun_eq_iff)

lemma phone_calls_set:
  assumes ok: "call_table_ok h" and r: "map_of (cm_calls h) p = Some r"
  shows "phone_calls (h\<lparr>cm_store := setCallState r st (cm_store h)\<rparr>) =
    (phone_calls h)(p \<mapsto> (cm_store h ! r)\<lparr>sc_state := st\<rparr>)"
proof
  fix q
  show "phone_calls (h\<lparr>cm_store := setCallState r st (cm_store h)\<rparr>) q =
      ((phone_calls h)(p \<mapsto> (cm_store h ! r)\<lparr>sc_state := st\<rparr>)) q"
  proof (cases "map_of (cm_calls h) q")
    case None
    with r show ?thesis by (auto simp: phone_calls_def)
  next
    case (Some q')
    with call_table_okD [OF ok] r have "q' < length (cm_store h)" "q' = r \<longleftrightarrow> q = p" by (auto, metis)
    with Some r show ?thesis by (auto simp: phone_calls_def setCallState_nth)
  qed
qed

lemma phone_calls_find:
  assumes ok: "call_table_ok h" and f: "findOrCreateCall p i d n h = (r, h')"
  shows "phone_calls h' = (phone_calls h)(p \<mapsto> case phone_calls h p of
      None \<Rightarrow> newCall p i d n
    | Some c \<Rightarrow> if sc_callIndex c = i then c else newCall p i d n)"
  using f
proof (cases rule: findOrCreateCall_cases)
  case hit
  then show ?thesis by (auto simp: phone_calls_def fun_eq_iff)
next
  case (new old)
  note okD = call_table_okD [OF ok]
  have other: "cm_store h' ! q' = cm_store h ! q'" if "map_of (cm_calls h) q = Some q'" "q \<noteq> p" for q q'
  proof -
    have "q' < length (cm_store h)" "old \<noteq> Some q'" using that new(2) okD(2,3) by metis+
    then show ?thesis using new(5) by (auto simp: setCallState_nth nth_append split: option.splits if_splits)
  qed
  have mine: "cm_store h' ! r = newCall p i d n"
    using new(1,2,5) okD(2) by (force simp: setCallState_nth nth_append split: option.splits if_splits)
  have old: "(case phone_calls h p of None \<Rightarrow> newCall p i d n
      | Some c \<Rightarrow> if sc_callIndex c = i then c else newCall p i d n) = newCall p i d n"
    using new(2,3) by (auto simp: phone_calls_def split: option.splits)
  show ?thesis
  proof
    fix q
    show "phone_calls h' q = ((phone_calls h)(p \<mapsto> case phone_calls h p of None \<Rightarrow> newCall p i d n
        | Some c \<Rightarrow> if sc_callIndex c = i then c else newCall p i d n)) q"
      unfolding old using new(4) okD(1) mine other [of q]
      by (cases "q = p"; cases "map_of (cm_calls h) q") (auto simp: phone_calls_def)
  qed
qed

lemma phone_calls_note:
  assumes ok: "call_table_ok h" and f: "note_call p i d n st h = (r, h')"
  shows "phone_calls h' = enter_call p i d n st (phone_calls h)"
proof -
  obtain h1 where h1: "findOrCreateCall p i d n h = (r, h1)" "h' = h1\<lparr>cm_store := setCallState r st (cm_store h1)\<rparr>"
    using f by (auto simp: note_call_def split: prod.splits)
  from findOrCreateCall_ok [OF ok h1(1)] have ok1: "call_table_ok h1" "map_of (cm_calls h1) p = Some r" by simp_all
  have "phone_calls h1 p = Some (cm_store h1 ! r)" using ok1(2) by (simp add: phone_calls_def)
  with phone_calls_find [OF ok h1(1)] phone_calls_set [OF ok1] show ?thesis
    by (auto simp: h1(2) enter_call_def fun_eq_iff split: option.splits if_splits)
qed

end
