(* ===== verification/Tel_Call_Books.thy ===== *)
theory Tel_Call_Books
  imports Tel_Call_Spec "HOL-Library.Multiset"
begin

text \<open>
  The call manager among its clients and the bridge: where the callbacks and promises of its
  clients are, over all sequences of calls, indications, worker steps and responses.
\<close>

section \<open>Whose callback is where\<close>

text \<open>The client (a callback or a promise) that an effect answers, that a response callback or a
  queued operation will answer.\<close>

fun answered :: "'j tel_effect \<Rightarrow> nat list" where
  "answered (Make_Called c er ref) = [c]"
| "answered (Command_Called c er) = [c]"
| "answered (Hlap_Status_Called c er p st) = [c]"
| "answered (Hlap_Timer_Called c er d) = [c]"
| "answered (Config_Set p er) = [p]"
| "answered (Config_Got p er cfg) = [p]"
| "answered (Gaps_Got p er a b) = [p]"
| "answered _ = []"

fun cont_client :: "tel_cont \<Rightarrow> nat list" where
  "cont_client (K_Control cb) = opt_list cb"
| "cont_client (K_Start p cb) = opt_list cb"
| "cont_client (K_Msd cb) = opt_list cb"
| "cont_client (K_Hlap_Status p cb) = opt_list cb"
| "cont_client (K_Deregister cb) = opt_list cb"
| "cont_client (K_Update_Hlap cb) = opt_list cb"
| "cont_client (K_Request_Hlap cb) = opt_list cb"
| "cont_client (K_Set_Config p) = [p]"
| "cont_client (K_Get_Config p) = [p]"
| "cont_client (K_Redial cb) = opt_list cb"
| "cont_client (K_Get_Redial p) = [p]"

fun op_client :: "ecall_op \<Rightarrow> nat list" where
  "op_client (Op_Make p ty m r d cb) = opt_list cb"
| "op_client (Op_Send_Msd p cb) = opt_list cb"
| "op_client (Op_Hlap_Status p cb) = opt_list cb"
| "op_client (Op_Deregister p cb) = opt_list cb"
| "op_client (Op_Update_Hlap p ty d cb) = opt_list cb"
| "op_client (Op_Request_Hlap p ty cb) = opt_list cb"
| "op_client (Op_Set_Config c p) = [p]"
| "op_client (Op_Get_Config p) = [p]"
| "op_client (Op_Redial c g cb) = opt_list cb"
| "op_client (Op_Get_Redial p) = [p]"

fun event_client :: "'j ecall_event \<Rightarrow> nat list" where
  "event_client (RunEcallOp_Signal op) = op_client op"
| "event_client _ = []"

fun sent_cont :: "'j tel_effect \<Rightarrow> tel_cont list" where
  "sent_cont (Tel_Request topic schema env k t) = [k]"
| "sent_cont _ = []"

definition ans :: "'j call_manager \<Rightarrow> nat list" where
  "ans h = concat (map answered (io_out (cm_io h)))"

definition sent :: "'j call_manager \<Rightarrow> tel_cont list" where
  "sent h = concat (map sent_cont (io_out (cm_io h)))"

lemma ans_upd [simp]:
  "ans (h\<lparr>cm_store := a\<rparr>) = ans h" "ans (h\<lparr>cm_calls := b\<rparr>) = ans h" "ans (h\<lparr>cm_hlapEvents := c\<rparr>) = ans h"
  "ans (h\<lparr>cm_init_cbs := d\<rparr>) = ans h" "ans (h\<lparr>htemp := e\<rparr>) = ans h" "ans (h\<lparr>ao_q := q\<rparr>) = ans h"
  "ans (h\<lparr>cm_listeners := l\<rparr>) = ans h" "ans (erase h) = ans h"
  "ans (cm_do (io_emit x) h) = ans h @ answered x"
  by (simp_all add: ans_def erase_def)

lemma sent_upd [simp]:
  "sent (h\<lparr>cm_store := a\<rparr>) = sent h" "sent (h\<lparr>cm_calls := b\<rparr>) = sent h" "sent (h\<lparr>cm_hlapEvents := c\<rparr>) = sent h"
  "sent (h\<lparr>cm_init_cbs := d\<rparr>) = sent h" "sent (h\<lparr>htemp := e\<rparr>) = sent h" "sent (h\<lparr>ao_q := q\<rparr>) = sent h"
  "sent (h\<lparr>cm_listeners := l\<rparr>) = sent h" "sent (erase h) = sent h"
  "sent (cm_do (io_emit x) h) = sent h @ sent_cont x"
  by (simp_all add: sent_def erase_def)

lemma broadcast_quiet [simp]: "ans (cm_broadcastToListeners x h) = ans h" "sent (cm_broadcastToListeners x h) = sent h"
  by (simp_all add: cm_broadcastToListeners_def)

lemma findOrCreateCall_quiet [simp]:
  "ans (snd (findOrCreateCall p i d n h)) = ans h" "sent (snd (findOrCreateCall p i d n h)) = sent h"
  "ao_q (snd (findOrCreateCall p i d n h)) = ao_q h" "ao_running (snd (findOrCreateCall p i d n h)) = ao_running h"
  "hstate (snd (findOrCreateCall p i d n h)) = hstate h"
  by (auto simp: findOrCreateCall_def takeCall_def endStale_def Let_def split: option.splits)

lemma note_call_quiet [simp]:
  "ans (snd (note_call p i d n st h)) = ans h" "sent (snd (note_call p i d n st h)) = sent h"
  "ao_q (snd (note_call p i d n st h)) = ao_q h" "ao_running (snd (note_call p i d n st h)) = ao_running h"
  "hstate (snd (note_call p i d n st h)) = hstate h"
  by (simp_all add: note_call_def case_prod_unfold)

lemma ecall_request_quiet [simp]:
  "ans (ecall_request T topic schema d k h) = ans h" "sent (ecall_request T topic schema d k h) = sent h @ [k]"
  by (auto simp: ecall_request_def ans_def sent_def cm_do_def case_prod_unfold)

lemma run_op_sent: "ans (run_op T op h) = ans h" "\<exists>k. sent (run_op T op h) = sent h @ [k] \<and> cont_client k = op_client op"
  by (cases op; simp add: doMakeECall_def Let_def)+

lemma run_op_sel [simp]:
  "ao_q (run_op T op h) = ao_q h" "ao_running (run_op T op h) = ao_running h" "hstate (run_op T op h) = hstate h"
  "cm_calls (run_op T op h) = cm_calls h" "cm_store (run_op T op h) = cm_store h"
  using run_op_do [of T op h] by auto

lemma fold_init_quiet:
  "ans (fold (\<lambda>c. cm_do (io_emit (Tel_Init_Called c st))) cs h) = ans h"
  "sent (fold (\<lambda>c. cm_do (io_emit (Tel_Init_Called c st))) cs h) = sent h"
  by (induction cs arbitrary: h) simp_all

lemma enterReady_quiet [simp]: "ans (cm_enterReady h) = ans h" "sent (cm_enterReady h) = sent h"
  by (simp_all add: cm_enterReady_def fold_init_quiet)

lemma enterReady_sel [simp]:
  "ao_q (cm_enterReady h) = ao_q h" "ao_running (cm_enterReady h) = ao_running h"
  "cm_calls (cm_enterReady h) = cm_calls h" "cm_store (cm_enterReady h) = cm_store h"
  by (simp_all add: cm_enterReady_def fold_cm_do)

text \<open>The handlers of indications, through \<open>note_call\<close>.\<close>

lemma callStateEvt_note:
  assumes "callStateEvt T d h = Inr h'"
  obtains p i dir n st where "h' = cm_broadcastToListeners (On_Call_Info (fst (note_call p i dir n st h))) (snd (note_call p i dir n st h))"
  using assms by (auto simp: callStateEvt_def note_call_def Let_def bindE_eq_Inr case_prod_unfold)

lemma start_response_note:
  "(\<exists>i d n st. start_response J p cb rsp h =
      (True, call_made cb EC_SUCCESS (Some (fst (note_call p i d n st h))) (snd (note_call p i d n st h)))) \<or>
   (\<exists>er. start_response J p cb rsp h = (True, call_made cb er None h)) \<or>
   (\<exists>i d n. start_response J p cb rsp h = (False, snd (findOrCreateCall p i d n h))) \<or>
   start_response J p cb rsp h = (False, h)"
  (is "?made \<or> ?err \<or> ?half \<or> ?bad")
proof (cases "good_data rsp")
  case None
  then show ?thesis by (cases "response_error J rsp") (auto simp: start_response_def)
next
  case (Some dat)
  note good = this
  show ?thesis
  proof (cases "j_find J dat ''call''")
    case None
    with good show ?thesis by (simp add: start_response_def)
  next
    case (Some cj)
    note found = this
    show ?thesis
    proof (cases "call_fields J cj")
      case (Inl x)
      with good found show ?thesis by (simp add: start_response_def)
    next
      case (Inr f)
      obtain i d n where f: "f = (i, d, n)" by (cases f)
      have ?half if "value_string J cj ''callState'' = Inl x" for x
        using that good found Inr f
        by (intro exI [of _ i] exI [of _ d] exI [of _ n]) (simp add: start_response_def case_prod_unfold)
      moreover have ?made if "value_string J cj ''callState'' = Inr x" for x
        using that good found Inr f
        by (intro exI [of _ i] exI [of _ d] exI [of _ n] exI [of _ "wireToCallState x"])
          (simp add: start_response_def note_call_def case_prod_unfold)
      ultimately show ?thesis by (cases "value_string J cj ''callState''") blast+
    qed
  qed
qed

lemma call_made_quiet [simp]:
  "ans (call_made cb er ref h) = ans h @ opt_list cb" "sent (call_made cb er ref h) = sent h"
  "ao_q (call_made cb er ref h) = ao_q h" "ao_running (call_made cb er ref h) = ao_running h"
  "hstate (call_made cb er ref h) = hstate h" "cm_calls (call_made cb er ref h) = cm_calls h"
  "cm_store (call_made cb er ref h) = cm_store h"
  by (simp_all add: call_made_def split: option.splits)

text \<open>What the parts of the program do to the books: a handler, then a response callback.\<close>

definition booked :: "'j call_manager \<Rightarrow> nat list \<Rightarrow> nat list \<Rightarrow> 'j call_manager \<Rightarrow> bool" where
  "booked h as ks h' \<longleftrightarrow> ans h' = ans h @ as \<and> (\<exists>cs. sent h' = sent h @ cs \<and> concat (map cont_client cs) = ks) \<and>
     ao_q h' = ao_q h \<and> ao_running h' = ao_running h \<and> (call_table_ok h \<longrightarrow> call_table_ok h')"

lemma bookedI:
  "ans h' = ans h @ as \<Longrightarrow> sent h' = sent h @ cs \<Longrightarrow> concat (map cont_client cs) = ks \<Longrightarrow> ao_q h' = ao_q h \<Longrightarrow>
   ao_running h' = ao_running h \<Longrightarrow> (call_table_ok h \<Longrightarrow> call_table_ok h') \<Longrightarrow> booked h as ks h'"
  by (auto simp: booked_def)

lemma booked_refl [simp]: "booked h [] [] h"
  by (simp add: booked_def)

lemma booked_same:
  "cm_calls h' = cm_calls h \<Longrightarrow> cm_store h' = cm_store h \<Longrightarrow> ans h' = ans h @ as \<Longrightarrow> sent h' = sent h \<Longrightarrow>
   ao_q h' = ao_q h \<Longrightarrow> ao_running h' = ao_running h \<Longrightarrow> booked h as [] h'"
  by (rule bookedI [where cs = "[]"]) (simp_all add: call_table_ok_def)

lemma booked_note: "booked h [] [] (snd (note_call p i d n st h))"
  using note_call_ok [of h p i d n st "fst (note_call p i d n st h)" "snd (note_call p i d n st h)"]
  by (intro bookedI [where cs = "[]"]) simp_all

lemma booked_find: "booked h [] [] (snd (findOrCreateCall p i d n h))"
  using findOrCreateCall_ok [of h p i d n "fst (findOrCreateCall p i d n h)" "snd (findOrCreateCall p i d n h)"]
  by (intro bookedI [where cs = "[]"]) simp_all

lemma booked_trans: "booked h as [] h1 \<Longrightarrow> booked h1 bs [] h2 \<Longrightarrow> booked h (as @ bs) [] h2"
  by (fastforce simp: booked_def)

lemma booked_upd:
  "booked h [] [] (h\<lparr>htemp := x\<rparr>)" "booked h [] [] (h\<lparr>cm_init_cbs := cs\<rparr>)"
  "booked h [] [] (cm_broadcastToListeners nt h)" "booked h [] [] (h\<lparr>cm_hlapEvents := ev\<rparr>)"
  "booked h [] [] (cm_do (io_emit (Tel_Init_Called c st)) h)" "booked h [] [] (cm_enterReady h)"
  "booked h (opt_list cb) [] (call_made cb er ref h)"
  by (rule booked_same; simp)+

lemma booked_evts:
  "callStateEvt T d h = Inr h' \<Longrightarrow> booked h [] [] h'" "msdStatusEvt T d h = Inr h' \<Longrightarrow> booked h [] [] h'"
  "redialEvt T d h = Inr h' \<Longrightarrow> booked h [] [] h'" "hlapTimerEvt T d h = Inr h' \<Longrightarrow> booked h [] [] h'"
proof -
  show "callStateEvt T d h = Inr h' \<Longrightarrow> booked h [] [] h'"
    by (erule callStateEvt_note) (use booked_trans [OF booked_note booked_upd(3)] in simp)
  show "msdStatusEvt T d h = Inr h' \<Longrightarrow> booked h [] [] h'" "redialEvt T d h = Inr h' \<Longrightarrow> booked h [] [] h'"
    by (auto simp: msdStatusEvt_def redialEvt_def Let_def bindE_eq_Inr booked_upd)
  show "hlapTimerEvt T d h = Inr h' \<Longrightarrow> booked h [] [] h'"
    using booked_trans [OF booked_upd(4) booked_upd(3)] by (auto simp: hlapTimerEvt_def Let_def bindE_eq_Inr)
qed

lemma booked_run_op: "booked h [] (op_client op) (run_op T op h)"
proof -
  obtain k where "sent (run_op T op h) = sent h @ [k]" "cont_client k = op_client op" using run_op_sent(2) by blast
  then show ?thesis by (intro bookedI [where cs = "[k]"]) (simp_all add: run_op_sent(1) call_table_ok_def)
qed

lemma handler_booked:
  assumes "call_handlers T s (User u) h = Inr (r, h1)"
  shows "booked h [] (if s = Ready then event_client u else []) h1"
proof (cases s)
  case NotReady
  with assms show ?thesis
    by (cases u) (auto simp: to_st_def super_st_def bindE_eq_Inr booked_upd split: if_splits)
next
  case Ready
  with assms show ?thesis
    by (cases u) (auto simp: to_st_def super_st_def bindE_eq_Inr booked_upd booked_run_op
        split: if_splits dest!: cm_with_data_Inr dest: booked_evts)
qed

lemma booked_ready_step:
  assumes "call_handlers T s (User u) h = Inr (r, h1)"
  shows "booked h [] (if s = Ready then event_client u else [])
    (if track (cm_up T) (cm_down T) u s = s then h1 else cm_en (track (cm_up T) (cm_down T) u s) h1)"
proof -
  have en: "booked h [] ks (cm_en t h1)" if "booked h [] ks h1" for ks t
    using that booked_upd(6) [of h1] by (cases t) (fastforce simp: booked_def)+
  show ?thesis using handler_booked [OF assms] en by auto
qed

lemma booked_erase: "booked h as ks (erase h') = booked h as ks h'" "booked (erase h) as ks h' = booked h as ks h'"
  by (simp_all add: booked_def call_table_ok_def) (simp_all add: erase_def)

lemma dispatch_booked:
  assumes "kMaxNest < n" "hstate h = St s" "dispatch n (call_handlers T) (User u) h = Inr h'"
  shows "booked h [] (if s = Ready then event_client u else []) h' \<and>
    hstate h' = St (track (cm_up T) (cm_down T) u s)"
proof (rule cm.dispatch_post [where P = "\<lambda>g. erase g = erase h", OF assms])
  fix g r h1 assume "erase g = erase h" "call_handlers T s (User u) g = Inr (r, h1)"
  with booked_ready_step [of T s u g r h1] booked_erase(2)
  show "booked h [] (if s = Ready then event_client u else [])
      (if track (cm_up T) (cm_down T) u s = s then h1 else cm_en (track (cm_up T) (cm_down T) u s) h1)"
    by metis
qed (simp_all add: booked_erase)

lemma emit_result_booked:
  "emit_result f x h = (ok, h') \<Longrightarrow> (\<And>y. answered (f y) = [c]) \<Longrightarrow> (\<And>y. sent_cont (f y) = []) \<Longrightarrow>
   booked h (if ok then [c] else []) [] h' \<and> hstate h' = hstate h"
  by (cases x) (auto simp: emit_result_def intro!: booked_same)

lemma plain_response_booked:
  "plain_response J cb rsp h = (ok, h') \<Longrightarrow> booked h (if ok then opt_list cb else []) [] h' \<and> hstate h' = hstate h"
  by (cases cb) (auto simp: plain_response_def dest!: emit_result_booked)

lemma start_response_booked:
  assumes "start_response J p cb rsp h = (ok, h')"
  shows "booked h (if ok then opt_list cb else []) [] h' \<and> hstate h' = hstate h"
  using start_response_note [of J p cb rsp h] assms booked_find
    booked_trans [OF booked_note booked_upd(7)] booked_upd(7)
  by (elim disjE exE) auto

lemma response_booked:
  assumes "ecall_response T k rsp h = (ok, h')"
  shows "booked h (if ok then cont_client k else []) [] h' \<and> hstate h' = hstate h"
proof (cases k)
  case (K_Control cb)
  with assms show ?thesis
    by (auto simp: control_response_def booked_def ans_def sent_def call_table_ok_def
        split: option.splits sum.splits if_splits prod.splits)
qed (use assms in \<open>auto split: option.splits prod.splits simp: case_prod_unfold
    dest!: plain_response_booked start_response_booked emit_result_booked\<close>)+

section \<open>Runs\<close>

text \<open>
  What a refused operation does at once. The operations that block on a promise are refused by
  their return value: the promise then has no other holder.
\<close>

fun refusal :: "ecall_op \<Rightarrow> 'j call_manager \<Rightarrow> 'j call_manager" where
  "refusal (Op_Make p ty m r d cb) = refuse_make cb"
| "refusal (Op_Hlap_Status p cb) = (\<lambda>h. case cb of None \<Rightarrow> h
     | Some c \<Rightarrow> cm_do (io_emit (Hlap_Status_Called c EC_SUBSYSTEM_UNAVAILABLE p (six HS_INACTIVE))) h)"
| "refusal (Op_Request_Hlap p ty cb) = (\<lambda>h. case cb of None \<Rightarrow> h
     | Some c \<Rightarrow> cm_do (io_emit (Hlap_Timer_Called c EC_SUBSYSTEM_UNAVAILABLE 0)) h)"
| "refusal (Op_Send_Msd p cb) = refuse_command cb"
| "refusal (Op_Deregister p cb) = refuse_command cb"
| "refusal (Op_Update_Hlap p ty d cb) = refuse_command cb"
| "refusal (Op_Redial cfg gaps cb) = refuse_command cb"
| "refusal _ = (\<lambda>h. h)"

fun by_promise :: "ecall_op \<Rightarrow> bool" where
  "by_promise (Op_Set_Config c p) = True"
| "by_promise (Op_Get_Config p) = True"
| "by_promise (Op_Get_Redial p) = True"
| "by_promise _ = False"

lemma ecall_api:
  "makeECall_msd n T p cb = ecall_post n T (refusal (Op_Make p ''AUTOMATIC'' True [] [] cb)) (Op_Make p ''AUTOMATIC'' True [] [] cb)"
  "updateECallMsd n T p cb = ecall_post n T (refusal (Op_Send_Msd p cb)) (Op_Send_Msd p cb)"
  "requestECallHlapTimerStatus n T p cb = ecall_post n T (refusal (Op_Hlap_Status p cb)) (Op_Hlap_Status p cb)"
  "requestNetworkDeregistration n T p cb = ecall_post n T (refusal (Op_Deregister p cb)) (Op_Deregister p cb)"
  "updateEcallHlapTimer n T p ty d cb = ecall_post n T (refusal (Op_Update_Hlap p ty d cb)) (Op_Update_Hlap p ty d cb)"
  "requestEcallHlapTimer n T p ty cb = ecall_post n T (refusal (Op_Request_Hlap p ty cb)) (Op_Request_Hlap p ty cb)"
  "setECallConfig_post n T c pr = ecall_post n T (refusal (Op_Set_Config c pr)) (Op_Set_Config c pr)"
  "getECallConfig_post n T pr = ecall_post n T (refusal (Op_Get_Config pr)) (Op_Get_Config pr)"
  by (simp_all add: makeECall_msd_def updateECallMsd_def requestECallHlapTimerStatus_def
      requestNetworkDeregistration_def updateEcallHlapTimer_def requestEcallHlapTimer_def
      setECallConfig_post_def getECallConfig_post_def)

text \<open>
  The manager with the response callbacks the bridge still holds. \<open>cs_given\<close> and \<open>cs_lost\<close> record
  the clients' callbacks and promises that were handed over, and those that were dropped.
\<close>

record 'j call_sys =
  cs_mgr :: "'j call_manager"
  cs_pending :: "tel_cont list"
  cs_given :: "nat list"
  cs_lost :: "nat list"

definition advance :: "'j call_manager \<Rightarrow> nat list \<Rightarrow> nat list \<Rightarrow> 'j call_sys \<Rightarrow> 'j call_sys" where
  "advance h' given lost s =
     s\<lparr>cs_mgr := h', cs_pending := cs_pending s @ drop (length (sent (cs_mgr s))) (sent h'),
       cs_given := cs_given s @ given, cs_lost := cs_lost s @ lost\<rparr>"

text \<open>
  The steps: an indication, a connectivity change or an init callback is posted; a client calls an
  operation of the manager or of a call object; listeners change; the worker handles the front
  event; the bridge answers one of the requests, with a response, an error or a timeout.
\<close>

inductive call_step :: "nat \<Rightarrow> 'j tel_ext \<Rightarrow> 'j call_sys \<Rightarrow> 'j call_sys \<Rightarrow> bool" for n T where
  post: "event_client e = [] \<Longrightarrow> call_step n T s (advance (post_fifo e (cs_mgr s)) [] [] s)"
| operation: "ecall_post n T (refusal op) op (cs_mgr s) = Inr (st, h) \<Longrightarrow>
    call_step n T s (advance h (if st = NOTREADY \<and> by_promise op then [] else op_client op) [] s)"
| control: "r < length (cm_store (cs_mgr s)) \<Longrightarrow> f = call_answer T \<or> f = call_reject T \<or> f = call_hangup T \<Longrightarrow>
    call_step n T s (advance (cm_do (\<lambda>i. snd (f (cm_store (cs_mgr s) ! r) cb i)) (cs_mgr s)) (opt_list cb) [] s)"
| refused: "call_step n T s (advance (snd (cm_unsupported cb (cs_mgr s))) (opt_list cb) [] s)"
| listeners: "call_step n T s (advance ((cs_mgr s)\<lparr>cm_listeners := ls\<rparr>) [] [] s)"
| work: "run_step n (call_handlers T) (cs_mgr s) = Inr (Dispatched, h) \<Longrightarrow>
    call_step n T s
      (advance h [] (if hstate (cs_mgr s) = St NotReady then event_client (hd (ao_q (cs_mgr s))) else []) s)"
| respond: "cs_pending s = ks @ k # ls \<Longrightarrow> ecall_response T k rsp (cs_mgr s) = (ok, h) \<Longrightarrow>
    call_step n T s (advance h [] (if ok then [] else cont_client k) (s\<lparr>cs_pending := ks @ ls\<rparr>))"

inductive_cases call_step_cases: "call_step n T s s'"

inductive call_reach :: "nat \<Rightarrow> 'j tel_ext \<Rightarrow> nat option \<Rightarrow> 'j call_sys \<Rightarrow> bool" for n T cb where
  init: "call_reach n T cb \<lparr>cs_mgr = newCallManager cb, cs_pending = [], cs_given = [], cs_lost = []\<rparr>"
| step: "call_reach n T cb s \<Longrightarrow> call_step n T s s' \<Longrightarrow> call_reach n T cb s'"

definition queued_clients :: "'j call_manager \<Rightarrow> nat list" where
  "queued_clients h = concat (map event_client (ao_q h))"

definition cs_inv :: "'j call_sys \<Rightarrow> bool" where
  "cs_inv s \<longleftrightarrow> call_table_ok (cs_mgr s) \<and>
     (if ao_running (cs_mgr s) then \<exists>p. hstate (cs_mgr s) = St p else ao_q (cs_mgr s) = []) \<and>
     mset (cs_given s) = mset (ans (cs_mgr s)) + mset (queued_clients (cs_mgr s)) +
       mset (concat (map cont_client (cs_pending s))) + mset (cs_lost s)"

text \<open>What a step has to show.\<close>

lemma cs_inv_advance:
  assumes "cs_inv s" "sent h' = sent (cs_mgr s) @ cs" "ans h' = ans (cs_mgr s) @ as"
    "call_table_ok (cs_mgr s) \<Longrightarrow> call_table_ok h'"
    "if ao_running h' then \<exists>p. hstate h' = St p else ao_q h' = []"
    "mset given + mset (queued_clients (cs_mgr s)) =
       mset as + mset (queued_clients h') + mset (concat (map cont_client cs)) + mset lost"
  shows "cs_inv (advance h' given lost s)"
  using assms by (auto simp: cs_inv_def advance_def algebra_simps)


text \<open>A part of the program that keeps the books, as a step that changes the queue as well.\<close>

lemma cs_inv_booked:
  assumes "cs_inv s" "booked h as ks h'" "ao_running h" "\<exists>p. hstate h' = St p"
    "sent h = sent (cs_mgr s)" "ans h = ans (cs_mgr s)" "call_table_ok h = call_table_ok (cs_mgr s)"
    "mset given + mset (queued_clients (cs_mgr s)) = mset as + mset (queued_clients h) + mset ks + mset lost"
  shows "cs_inv (advance h' given lost s)"
proof -
  from assms(2) obtain cs where "sent h' = sent h @ cs" "concat (map cont_client cs) = ks" by (auto simp: booked_def)
  moreover have "queued_clients h' = queued_clients h" using assms(2) by (simp add: booked_def queued_clients_def)
  ultimately show ?thesis using assms
    by (intro cs_inv_advance [OF assms(1), where cs = cs and as = as]) (auto simp: booked_def)
qed

lemma cm_started:
  assumes "kMaxNest < n" "\<not> ao_running h"
  shows "\<exists>h'. cm_start n T h = Inr h' \<and> hstate h' = St NotReady \<and> ao_running h' \<and> ao_q h' = ao_q h \<and>
    ans h' = ans h \<and> sent h' = sent h \<and> call_table_ok h' = call_table_ok h"
proof -
  have "settle (\<lambda>_. Top_St) (\<lambda>_. None) kMaxNest NotReady = (NotReady, [])"
    by (simp add: kMaxNest_def numeral_eq_Suc)
  from cm.init_refines [OF assms(1) _ this, of T] assms(2) show ?thesis
    by (simp add: cm_start_def start_at_def trace_def ans_def sent_def call_table_ok_def)
qed

lemma cs_inv_post: "cs_inv s \<Longrightarrow> event_client e = [] \<Longrightarrow> cs_inv (advance (post_fifo e (cs_mgr s)) [] [] s)"
  by (rule cs_inv_advance [where cs = "[]" and as = "[]"])
    (auto simp: cs_inv_def post_fifo_def queued_clients_def sent_def ans_def call_table_ok_def)

lemma refusal_answers:
  "ans (refusal op h) = ans h @ (if by_promise op then [] else op_client op)" "sent (refusal op h) = sent h"
  "call_table_ok (refusal op h) = call_table_ok h" "ao_running (refusal op h) = ao_running h"
  "hstate (refusal op h) = hstate h" "ao_q (refusal op h) = ao_q h"
  by (cases op; auto simp: refuse_make_def refuse_command_def command_response_def cm_do_def ans_def sent_def
      call_made_def call_table_ok_def split: option.splits)+

lemma cs_inv_operation:
  assumes "kMaxNest < n" "cs_inv s" "ecall_post n T (refusal op) op (cs_mgr s) = Inr (st, h)"
  shows "cs_inv (advance h (if st = NOTREADY \<and> by_promise op then [] else op_client op) [] s)"
proof -
  let ?m = "cs_mgr s"
  from cm_started [OF assms(1), of ?m T] assms(2) obtain g where
    g: "cm_ensureStarted n T ?m = Inr g" "ao_running g" "\<exists>p. hstate g = St p" "ao_q g = ao_q ?m" "ans g = ans ?m"
      "sent g = sent ?m" "call_table_ok g = call_table_ok ?m"
    by (cases "ao_running ?m") (auto simp: cm_ensureStarted_def cs_inv_def)
  show ?thesis
  proof (cases "cm_isReadyDerived g")
    case True
    with assms(3) g have h: "st = SUCCESS" "h = g\<lparr>ao_q := ao_q g @ [RunEcallOp_Signal op]\<rparr>"
      by (auto simp: ecall_post_def post_fifo_def)
    with g show ?thesis
      by (intro cs_inv_advance [OF assms(2), where cs = "[]" and as = "[]"])
        (auto simp: queued_clients_def call_table_ok_def)
  next
    case False
    with assms(3) g have h: "st = NOTREADY" "h = refusal op g" by (auto simp: ecall_post_def)
    with g show ?thesis
      by (intro cs_inv_advance [OF assms(2), where cs = "[]" and as = "if by_promise op then [] else op_client op"])
        (auto simp: refusal_answers queued_clients_def)
  qed
qed

lemma cs_inv_quiet:
  assumes "cs_inv s" "sent h = sent (cs_mgr s) @ cs" "ans h = ans (cs_mgr s) @ as" "cm_calls h = cm_calls (cs_mgr s)"
    "cm_store h = cm_store (cs_mgr s)" "ao_running h = ao_running (cs_mgr s)" "hstate h = hstate (cs_mgr s)"
    "ao_q h = ao_q (cs_mgr s)" "given = as @ concat (map cont_client cs)"
  shows "cs_inv (advance h given [] s)"
  using assms by (intro cs_inv_advance [where cs = cs and as = as]) (auto simp: cs_inv_def queued_clients_def call_table_ok_def)

lemma control_sent:
  "sent (cm_do (sendCallControlRequest T topic schema p i cb) h) = sent h @ [K_Control cb]"
  "ans (cm_do (sendCallControlRequest T topic schema p i cb) h) = ans h"
  by (auto simp: sendCallControlRequest_def ans_def sent_def cm_do_def case_prod_unfold Let_def)

lemma cs_inv_control:
  assumes "cs_inv s" "f = call_answer T \<or> f = call_reject T \<or> f = call_hangup T"
  shows "cs_inv (advance (cm_do (\<lambda>i. snd (f c cb i)) (cs_mgr s)) (opt_list cb) [] s)"
  using assms
  by (intro cs_inv_quiet [where cs = "[K_Control cb]" and as = "[]"])
    (auto simp: call_answer_def call_reject_def call_hangup_def control_sent)

lemma cs_inv_refused: "cs_inv s \<Longrightarrow> cs_inv (advance (snd (cm_unsupported cb (cs_mgr s))) (opt_list cb) [] s)"
  by (rule cs_inv_quiet [where cs = "[]" and as = "opt_list cb"])
    (auto simp: cm_unsupported_def command_response_def ans_def sent_def split: option.splits)

lemma cs_inv_listeners: "cs_inv s \<Longrightarrow> cs_inv (advance ((cs_mgr s)\<lparr>cm_listeners := ls\<rparr>) [] [] s)"
  by (rule cs_inv_quiet [where cs = "[]" and as = "[]"]) (auto simp: ans_def sent_def)

lemma cs_inv_work:
  assumes "kMaxNest < n" "cs_inv s" "run_step n (call_handlers T) (cs_mgr s) = Inr (Dispatched, h)"
  shows "cs_inv (advance h [] (if hstate (cs_mgr s) = St NotReady then event_client (hd (ao_q (cs_mgr s))) else []) s)"
proof -
  let ?m = "cs_mgr s"
  from assms(3) obtain e es where q: "ao_q ?m = e # es" and d: "dispatch n (call_handlers T) (User e) (?m\<lparr>ao_q := es\<rparr>) = Inr h"
    by (auto simp: run_step_def ao_pop_def bindE_eq_Inr split: list.splits if_splits)
  from assms(2) q obtain p where run: "ao_running ?m" "hstate ?m = St p" by (auto simp: cs_inv_def split: if_splits)
  from dispatch_booked [OF assms(1) _ d] run(2)
  have "booked (?m\<lparr>ao_q := es\<rparr>) [] (if p = Ready then event_client e else []) h" "\<exists>p. hstate h = St p" by auto
  with assms(2) run show ?thesis
    by (intro cs_inv_booked [where h = "?m\<lparr>ao_q := es\<rparr>"])
      (use q in \<open>auto simp: queued_clients_def call_table_ok_def, (cases p, auto)+\<close>)
qed

lemma cs_inv_respond:
  assumes "cs_inv s" "cs_pending s = ks @ k # ls" "ecall_response T k rsp (cs_mgr s) = (ok, h)"
  shows "cs_inv (advance h [] (if ok then [] else cont_client k) (s\<lparr>cs_pending := ks @ ls\<rparr>))"
proof -
  from response_booked [OF assms(3)] obtain cs where
    b: "ans h = ans (cs_mgr s) @ (if ok then cont_client k else [])" "sent h = sent (cs_mgr s) @ cs"
      "concat (map cont_client cs) = []" "ao_q h = ao_q (cs_mgr s)" "ao_running h = ao_running (cs_mgr s)"
      "call_table_ok (cs_mgr s) \<Longrightarrow> call_table_ok h" "hstate h = hstate (cs_mgr s)"
    by (auto simp: booked_def)
  with assms(1,2) show ?thesis by (auto simp: cs_inv_def advance_def queued_clients_def algebra_simps)
qed

lemma cs_inv_step: "kMaxNest < n \<Longrightarrow> call_step n T s s' \<Longrightarrow> cs_inv s \<Longrightarrow> cs_inv s'"
  by (erule call_step_cases; hypsubst;
      blast intro: cs_inv_post cs_inv_operation cs_inv_control cs_inv_refused cs_inv_listeners cs_inv_work cs_inv_respond)

lemma cs_inv_reach:
  assumes "kMaxNest < n" "call_reach n T cb s"
  shows "cs_inv s"
  using assms(2)
proof induction
  case init
  show ?case
    by (simp add: cs_inv_def newCallManager_def call_table_ok_def smap_ok_def ans_def queued_clients_def)
next
  case (step s s')
  with assms(1) show ?case by (blast intro: cs_inv_step)
qed

section \<open>From the operation to its answer\<close>

lemma run_op_uniform: "\<exists>f. \<forall>h. run_op T op h = cm_do f h"
  by (cases op) (auto simp: doMakeECall_def ecall_request_def Let_def)

text \<open>An operation that reaches the worker in \<open>Ready\<close> is run.\<close>

lemma dispatch_run_op:
  assumes "kMaxNest < n" "hstate h = St Ready"
  shows "\<exists>h'. dispatch n (call_handlers T) (User (RunEcallOp_Signal op)) h = Inr h' \<and> hstate h' = St Ready \<and>
    cm_io h' = cm_io (run_op T op h) \<and> cm_calls h' = cm_calls h \<and> cm_store h' = cm_store h"
proof -
  have "\<exists>r h'. call_handlers T s (User (RunEcallOp_Signal op)) g = Inr (r, h')" for s g by (cases s) auto
  from cm.dispatch_total [OF assms this] obtain h' where d: "dispatch n (call_handlers T) (User (RunEcallOp_Signal op)) h = Inr h'"
    by blast
  obtain f where f: "\<And>g. run_op T op g = cm_do f g" using run_op_uniform by metis
  let ?P = "\<lambda>g. cm_io g = cm_io h \<and> cm_calls g = cm_calls h \<and> cm_store g = cm_store h"
  let ?Q = "\<lambda>g. cm_io g = f (cm_io h) \<and> cm_calls g = cm_calls h \<and> cm_store g = cm_store h"
  have "?Q h' \<and> hstate h' = St (track (cm_up T) (cm_down T) (RunEcallOp_Signal op) Ready)"
    by (rule cm.dispatch_post [where P = ?P, OF assms d]) (auto simp: erase_def track_def f)
  with d show ?thesis by (simp add: track_def f)
qed

text \<open>The request of \<open>doMakeECall_\<close>, and the answer to its client.\<close>

lemma make_request:
  "\<exists>req. io_out (cm_io (run_op T (Op_Make p ty m remote dial cb) h)) = io_out (cm_io h) @
     [Tel_Request (start_ecall_req T) ''ecall.start_ecall.rsp'' req (K_Start p cb) kTelRpcTimeout] \<and>
   env_corrId req = fst (nextCorrId (io_counter (cm_io h)))"
  by (auto simp: doMakeECall_def ecall_request_def Let_def io_request_env case_prod_unfold)

lemma made_answer:
  assumes "call_table_ok h" "good_data rsp = Some dat" "j_find J dat ''call'' = Some cj"
    "call_fields J cj = Inr (i, d, nm)" "value_string J cj ''callState'' = Inr st"
  shows "\<exists>r h'. start_response J p (Some c) rsp h = (True, h') \<and> last (io_out (cm_io h')) = Make_Called c EC_SUCCESS (Some r) \<and>
    map_of (cm_calls h') p = Some r \<and> phone_calls h' = enter_call p i d nm (wireToCallState st) (phone_calls h)"
proof -
  obtain r h1 where h1: "findOrCreateCall p i d nm h = (r, h1)" by fastforce
  let ?h2 = "h1\<lparr>cm_store := setCallState r (wireToCallState st) (cm_store h1)\<rparr>"
  have n: "note_call p i d nm (wireToCallState st) h = (r, ?h2)" using h1 by (simp add: note_call_def)
  have "phone_calls (call_made (Some c) EC_SUCCESS (Some r) ?h2) = phone_calls ?h2" by (rule phone_calls_cong) simp_all
  with phone_calls_note [OF assms(1) n] findOrCreateCall_ok [OF assms(1) h1] assms(2-) h1 show ?thesis
    by (simp add: start_response_def call_made_def)
qed

section \<open>A run\<close>

definition demo_tel :: "jtree tel_ext" where
  "demo_tel = \<lparr>tl_json = tree_lib, subsys_ready_call_ind = ''a'', call_state_ind = ''b'', msd_transmission_status_ind = ''c'',
     hlap_timer_event_ind = ''d'', redial_ind = ''e'', start_ecall_req = ''f'', end_ecall_req = ''g'',
     answer_ecall_req = ''h'', send_msd_req = ''i'', request_hlap_timer_status_req = ''j'',
     request_network_deregistration_req = ''k'', update_hlap_timer_req = ''l'', request_hlap_timer_req = ''m'',
     set_config_req = ''n'', get_config_req = ''o'', configure_ecall_redial_req = ''p'',
     get_ecall_redial_config_req = ''q'', tl_pa_id = ''pa-1'', tl_token = 7\<rparr>"

definition demo_op :: "nat \<Rightarrow> ecall_op" where
  "demo_op c = Op_Make 1 ''AUTOMATIC'' True [] [] (Some c)"

definition demo_up :: "jtree ecall_event" where
  "demo_up = E_ReadinessEvt_Signal (fst (makeEventEnvelope 3 ''pa-1'' (JObj [(''status'', JStr ''AVAILABLE'')]) 42))"

definition ecall_demo_rsp :: "jtree envelope" where
  "ecall_demo_rsp = makeResponseEnvelope 5 ''mpss'' ''00000000'' ''pa-1''
     (JObj [(''call'', JObj [(''callIndex'', JInt 3), (''direction'', JStr ''MO''), (''callState'', JStr ''DIALING'')])])"

text \<open>The manager after: a refused operation, readiness, an operation that is run, its response.\<close>

definition demo1 :: "jtree call_manager" where
  "demo1 = snd (projr (ecall_post 9 demo_tel (refusal (demo_op 3)) (demo_op 3) (newCallManager None)))"

definition demo2 :: "jtree call_manager" where
  "demo2 = snd (projr (run_step 9 (call_handlers demo_tel) (post_fifo demo_up demo1)))"

definition demo3 :: "jtree call_manager" where
  "demo3 = snd (projr (ecall_post 9 demo_tel (refusal (demo_op 4)) (demo_op 4) demo2))"

definition demo4 :: "jtree call_manager" where
  "demo4 = snd (projr (run_step 9 (call_handlers demo_tel) demo3))"

definition demo5 :: "jtree call_manager" where
  "demo5 = snd (ecall_response demo_tel (K_Start 1 (Some 4)) (Some ecall_demo_rsp) demo4)"

lemma ecall_demo_calls:
  "ecall_post 9 demo_tel (refusal (demo_op 3)) (demo_op 3) (newCallManager None) = Inr (NOTREADY, demo1)"
  "run_step 9 (call_handlers demo_tel) (post_fifo demo_up demo1) = Inr (Dispatched, demo2)"
  "ecall_post 9 demo_tel (refusal (demo_op 4)) (demo_op 4) demo2 = Inr (SUCCESS, demo3)"
  "run_step 9 (call_handlers demo_tel) demo3 = Inr (Dispatched, demo4)"
  "ecall_response demo_tel (K_Start 1 (Some 4)) (Some ecall_demo_rsp) demo4 = (True, demo5)"
proof -
  show "ecall_post 9 demo_tel (refusal (demo_op 3)) (demo_op 3) (newCallManager None) = Inr (NOTREADY, demo1)"
    unfolding demo1_def by (rule Inr_fst) code_simp
  show "run_step 9 (call_handlers demo_tel) (post_fifo demo_up demo1) = Inr (Dispatched, demo2)"
    unfolding demo2_def by (rule Inr_fst) code_simp
  show "ecall_post 9 demo_tel (refusal (demo_op 4)) (demo_op 4) demo2 = Inr (SUCCESS, demo3)"
    unfolding demo3_def by (rule Inr_fst) code_simp
  show "run_step 9 (call_handlers demo_tel) demo3 = Inr (Dispatched, demo4)"
    unfolding demo4_def by (rule Inr_fst) code_simp
  have "fst (ecall_response demo_tel (K_Start 1 (Some 4)) (Some ecall_demo_rsp) demo4)" by code_simp
  then show "ecall_response demo_tel (K_Start 1 (Some 4)) (Some ecall_demo_rsp) demo4 = (True, demo5)"
    by (auto simp: demo5_def prod_eq_iff)
qed

lemma ecall_demo_facts:
  "sent demo1 = []" "sent demo2 = []" "sent demo3 = []" "sent demo4 = [K_Start 1 (Some 4)]" "sent demo5 = [K_Start 1 (Some 4)]"
  "ans demo5 = [3, 4]" "phone_calls demo5 1 = Some ((newCall 1 3 DIR_OUTGOING [])\<lparr>sc_state := CALL_DIALING\<rparr>)"
  by code_simp+

lemma sent_post [simp]: "sent (post_fifo e h) = sent h"
  by (simp add: post_fifo_def)

lemma ecall_demo_reach:
  "call_reach 9 demo_tel None \<lparr>cs_mgr = demo5, cs_pending = [], cs_given = [3, 4], cs_lost = []\<rparr>"
proof -
  let ?sys = "\<lambda>h ks gs. \<lparr>cs_mgr = h, cs_pending = ks, cs_given = gs, cs_lost = []\<rparr> :: jtree call_sys"
  note f = ecall_demo_facts advance_def
  have run: "sent (newCallManager None) = []" "hstate demo3 = St Ready" "hstate demo1 = St NotReady" "event_client demo_up = []"
    "event_client (hd (ao_q (post_fifo demo_up demo1))) = []" by code_simp+
  have s1: "call_step 9 demo_tel (?sys (newCallManager None) [] []) (?sys demo1 [] [3])"
    using call_step.operation [of 9 demo_tel "demo_op 3" "?sys (newCallManager None) [] []"] ecall_demo_calls(1)
    by (simp add: f run demo_op_def)
  have s2: "call_step 9 demo_tel (?sys demo1 [] [3]) (?sys (post_fifo demo_up demo1) [] [3])"
    using call_step.post [of demo_up 9 demo_tel "?sys demo1 [] [3]"] run by (simp add: f)
  have s3: "call_step 9 demo_tel (?sys (post_fifo demo_up demo1) [] [3]) (?sys demo2 [] [3])"
    using call_step.work [of 9 demo_tel "?sys (post_fifo demo_up demo1) [] [3]" demo2] ecall_demo_calls(2) run by (simp add: f)
  have s4: "call_step 9 demo_tel (?sys demo2 [] [3]) (?sys demo3 [] [3, 4])"
    using call_step.operation [of 9 demo_tel "demo_op 4" "?sys demo2 [] [3]"] ecall_demo_calls(3) by (simp add: f demo_op_def)
  have s5: "call_step 9 demo_tel (?sys demo3 [] [3, 4]) (?sys demo4 [K_Start 1 (Some 4)] [3, 4])"
    using call_step.work [of 9 demo_tel "?sys demo3 [] [3, 4]" demo4] ecall_demo_calls(4) run by (simp add: f)
  have s6: "call_step 9 demo_tel (?sys demo4 [K_Start 1 (Some 4)] [3, 4]) (?sys demo5 [] [3, 4])"
    using call_step.respond [of "?sys demo4 [K_Start 1 (Some 4)] [3, 4]" "[]" "K_Start 1 (Some 4)" "[]" demo_tel
        "Some ecall_demo_rsp"] ecall_demo_calls(5) by (simp add: f)
  note step = call_reach.step [where cb = None]
  show ?thesis by (rule step [OF step [OF step [OF step [OF step [OF step [OF call_reach.init s1] s2] s3] s4] s5] s6])
qed

section \<open>Properties\<close>

text \<open>C12: no client of the call manager is answered twice or forgotten silently. In every run, the
  callbacks and promises handed over are, counted with multiplicity, those that were answered,
  those of operations still queued, those of requests the bridge still holds, and those dropped
  because the operation reached the worker in \<open>NotReady\<close> or the response could not be read.\<close>

theorem call_clients_accounted:
  assumes "kMaxNest < n" "call_reach n T cb s"
  shows "mset (cs_given s) = mset (ans (cs_mgr s)) + mset (queued_clients (cs_mgr s)) +
    mset (concat (map cont_client (cs_pending s))) + mset (cs_lost s)"
  using cs_inv_reach [OF assms] by (simp add: cs_inv_def)

theorem call_clients_accounted_witness:
  "call_reach 9 demo_tel None \<lparr>cs_mgr = demo5, cs_pending = [], cs_given = [3, 4], cs_lost = []\<rparr> \<and>
   mset [3, 4] = mset (ans demo5) + mset (queued_clients demo5)"
  using call_clients_accounted [OF _ ecall_demo_reach] ecall_demo_reach by (simp add: kMaxNest_def)

text \<open>The table of calls when the threads do not come in between each other's handlers: each phone has at most one call, the
  call belongs to that phone, and every call object that is no longer in the table has ended.\<close>

lemma call_table_sequential:
  assumes "kMaxNest < n" "call_reach n T cb s"
  shows "call_table_ok (cs_mgr s)"
  using cs_inv_reach [OF assms] by (simp add: cs_inv_def)

text \<open>C14: the table of calls is a function from phones to calls. A call state indication that is well
  formed enters its call there: the call the phone had when its index is the same, else a new
  one, with the reported state; the calls of other phones stay as they are.\<close>

theorem call_table_refines:
  assumes "call_table_ok h" "value_int (tl_json T) d ''phoneId'' = Inr p" "call_fields (tl_json T) d = Inr (i, dir, nm)"
    "value_string (tl_json T) d ''callState'' = Inr st"
  shows "\<exists>h'. callStateEvt T d h = Inr h' \<and>
    phone_calls h' = enter_call p i dir nm (wireToCallState st) (phone_calls h)"
proof -
  obtain r h1 where h1: "note_call p i dir nm (wireToCallState st) h = (r, h1)" by fastforce
  have "callStateEvt T d h = Inr (cm_broadcastToListeners (On_Call_Info r) h1)"
    using assms(2-) h1 by (auto simp: callStateEvt_def note_call_def Let_def case_prod_unfold)
  moreover have "phone_calls (cm_broadcastToListeners (On_Call_Info r) h1) = phone_calls h1"
    by (rule phone_calls_cong) simp_all
  ultimately show ?thesis using phone_calls_note [OF assms(1) h1] by simp
qed

definition demo_ind :: jtree where
  "demo_ind = JObj [(''phoneId'', JInt 1), (''callIndex'', JInt 4), (''direction'', JStr ''MT''),
     (''callState'', JStr ''ALERTING'')]"

theorem call_table_refines_witness:
  "\<exists>h'. callStateEvt demo_tel demo_ind demo5 = Inr h' \<and>
     phone_calls h' 1 = Some ((newCall 1 4 DIR_INCOMING [])\<lparr>sc_state := CALL_ALERTING\<rparr>)"
proof -
  have "call_table_ok demo5" using cs_inv_reach [OF _ ecall_demo_reach] by (simp add: cs_inv_def kMaxNest_def)
  moreover have "value_int (tl_json demo_tel) demo_ind ''phoneId'' = Inr 1" by code_simp
  moreover have "call_fields (tl_json demo_tel) demo_ind = Inr (4, DIR_INCOMING, [])" by code_simp
  moreover have "value_string (tl_json demo_tel) demo_ind ''callState'' = Inr ''ALERTING''" by code_simp
  ultimately show ?thesis using call_table_refines [of demo5 demo_tel demo_ind 1 4 DIR_INCOMING "[]" "''ALERTING''"] ecall_demo_facts(7)
    by (auto simp: enter_call_def wireToCallState_def)
qed

end
