(* ===== verification/Tel_Call_Race.thy ===== *)
theory Tel_Call_Race
  imports Tel_Call_Books
begin

text \<open>
  The table of calls with its two threads. An indication is handled on the worker of the call manager, the
  response to a start request on the worker of the bridge; both run \<open>findOrCreateCall_\<close> and then set the state of
  the call they got. Only the lookup is under \<open>calls_mutex_\<close>; ending a replaced call, setting the state and telling
  clients come after it is released, each with a lock of its own. Here a thread is a program counter over these
  sections, and the sections of the threads interleave in any order. \<open>findOrCreateCall\<close>, \<open>start_response\<close> and
  \<open>callStateEvt\<close> are the runs in which no other thread comes in between (\<open>call_sections_alone\<close>).
\<close>

section \<open>Sections\<close>

text \<open>What a thread has to do with the call: answer the client of a request, or tell the listeners.\<close>

datatype 'j call_job = By_Response "nat option" 'j | By_Indication 'j

fun job_json :: "'j call_job \<Rightarrow> 'j" where
  "job_json (By_Response cb cj) = cj"
| "job_json (By_Indication d) = d"

text \<open>
  Where a thread is: before the section under the mutex; before it ends the call it has replaced, and before it tells
  the listeners so; before it sets the state of its call; before it tells the outcome.
\<close>

datatype 'j call_pc =
    Resting
  | Taking int int call_dir string "'j call_job"
  | Ending nat nat "'j call_job"
  | Telling_End nat nat "'j call_job"
  | Setting nat "'j call_job"
  | Telling nat "'j call_job"

fun call_section :: "'j tel_ext \<Rightarrow> 'j call_pc \<Rightarrow> 'j call_manager \<Rightarrow> 'j call_pc \<times> 'j call_manager" where
  "call_section T Resting h = (Resting, h)"
| "call_section T (Taking p i d n k) h =
     (case takeCall p i d n h of (r, stale, h) \<Rightarrow>
        (case stale of None \<Rightarrow> Setting r k | Some q \<Rightarrow> Ending r q k, h))"
| "call_section T (Ending r q k) h = (Telling_End r q k, h\<lparr>cm_store := setCallState q CALL_ENDED (cm_store h)\<rparr>)"
| "call_section T (Telling_End r q k) h = (Setting r k, cm_broadcastToListeners (On_Call_Info q) h)"
| "call_section T (Setting r k) h =
     (case value_string (tl_json T) (job_json k) ''callState'' of
        Inl _ \<Rightarrow> (Resting, h)
      | Inr s \<Rightarrow> (Telling r k, h\<lparr>cm_store := setCallState r (wireToCallState s) (cm_store h)\<rparr>))"
| "call_section T (Telling r (By_Response cb cj)) h = (Resting, call_made cb EC_SUCCESS (Some r) h)"
| "call_section T (Telling r (By_Indication d)) h = (Resting, cm_broadcastToListeners (On_Call_Info r) h)"

text \<open>The first section of each handler, when it gets that far.\<close>

definition response_job :: "'j tel_ext \<Rightarrow> int \<Rightarrow> nat option \<Rightarrow> 'j envelope option \<Rightarrow> 'j call_pc option" where
  "response_job T p cb rsp =
     (case good_data rsp of
        None \<Rightarrow> None
      | Some dat \<Rightarrow>
          (case j_find (tl_json T) dat ''call'' of
             None \<Rightarrow> None
           | Some cj \<Rightarrow>
               (case call_fields (tl_json T) cj of
                  Inl _ \<Rightarrow> None
                | Inr (i, d, n) \<Rightarrow> Some (Taking p i d n (By_Response cb cj)))))"

definition indication_job :: "'j tel_ext \<Rightarrow> 'j \<Rightarrow> 'j call_pc option" where
  "indication_job T d =
     (case value_int (tl_json T) d ''phoneId'' of
        Inl _ \<Rightarrow> None
      | Inr p \<Rightarrow>
          (case call_fields (tl_json T) d of
             Inl _ \<Rightarrow> None
           | Inr (i, dir, n) \<Rightarrow> Some (Taking p i dir n (By_Indication d))))"

section \<open>Interleavings\<close>

datatype call_thread = Manager_Worker | Bridge_Worker

text \<open>
  \<open>ra_late\<close> records the calls whose state a thread set when they were no longer in the table: another thread had
  replaced them after this one got them.
\<close>

record 'j call_race =
  ra_mgr :: "'j call_manager"
  ra_pc :: "call_thread \<Rightarrow> 'j call_pc"
  ra_late :: "nat set"

fun sets_late :: "'j tel_ext \<Rightarrow> 'j call_pc \<Rightarrow> 'j call_manager \<Rightarrow> nat set" where
  "sets_late T (Setting r k) h =
     (case value_string (tl_json T) (job_json k) ''callState'' of
        Inl _ \<Rightarrow> {}
      | Inr _ \<Rightarrow> if r \<in> set (getInProgressCalls h) then {} else {r})"
| "sets_late T _ h = {}"

text \<open>
  The steps: the manager's worker takes a call state indication in \<open>Ready\<close>; the bridge's worker gets the response to
  a start request; either thread runs its next section; and all else that the manager and its clients do, which
  touches neither the table nor a call.
\<close>

inductive race_step :: "'j tel_ext \<Rightarrow> 'j call_race \<Rightarrow> 'j call_race \<Rightarrow> bool" for T where
  indication: "ra_pc s Manager_Worker = Resting \<Longrightarrow> hstate (ra_mgr s) = St Ready \<Longrightarrow>
    ao_q (ra_mgr s) = CallStateEvt_Signal env # us \<Longrightarrow> env_data env = Some d \<Longrightarrow> indication_job T d = Some pc \<Longrightarrow>
    race_step T s (s\<lparr>ra_mgr := (ra_mgr s)\<lparr>ao_q := us\<rparr>, ra_pc := (ra_pc s)(Manager_Worker := pc)\<rparr>)"
| response: "ra_pc s Bridge_Worker = Resting \<Longrightarrow> response_job T p cb rsp = Some pc \<Longrightarrow>
    race_step T s (s\<lparr>ra_pc := (ra_pc s)(Bridge_Worker := pc)\<rparr>)"
| sect: "call_section T (ra_pc s t) (ra_mgr s) = (pc, h) \<Longrightarrow>
    race_step T s \<lparr>ra_mgr = h, ra_pc = (ra_pc s)(t := pc), ra_late = ra_late s \<union> sets_late T (ra_pc s t) (ra_mgr s)\<rparr>"
| elsewhere: "cm_calls h = cm_calls (ra_mgr s) \<Longrightarrow> cm_store h = cm_store (ra_mgr s) \<Longrightarrow> race_step T s (s\<lparr>ra_mgr := h\<rparr>)"

definition at_rest :: "'j call_manager \<Rightarrow> 'j call_race" where
  "at_rest h = \<lparr>ra_mgr = h, ra_pc = (\<lambda>_. Resting), ra_late = {}\<rparr>"

inductive race_reach :: "'j tel_ext \<Rightarrow> nat option \<Rightarrow> 'j call_race \<Rightarrow> bool" for T cb where
  init: "race_reach T cb (at_rest (newCallManager cb))"
| step: "race_reach T cb s \<Longrightarrow> race_step T s s' \<Longrightarrow> race_reach T cb s'"

section \<open>The invariant\<close>

fun pc_refs :: "'j call_pc \<Rightarrow> nat list" where
  "pc_refs (Ending r q k) = [r, q]"
| "pc_refs (Telling_End r q k) = [r, q]"
| "pc_refs (Setting r k) = [r]"
| "pc_refs (Telling r k) = [r]"
| "pc_refs _ = []"

fun pc_ends :: "'j call_pc \<Rightarrow> nat set" where
  "pc_ends (Ending r q k) = {q}"
| "pc_ends _ = {}"

definition table_sound :: "'j call_manager \<Rightarrow> bool" where
  "table_sound h \<longleftrightarrow> smap_ok (cm_calls h) \<and>
     (\<forall>p r. map_of (cm_calls h) p = Some r \<longrightarrow> r < length (cm_store h) \<and> sc_phoneId (cm_store h ! r) = p)"

definition race_ok :: "'j call_race \<Rightarrow> bool" where
  "race_ok s \<longleftrightarrow> table_sound (ra_mgr s) \<and>
     (\<forall>t r. r \<in> set (pc_refs (ra_pc s t)) \<longrightarrow> r < length (cm_store (ra_mgr s))) \<and>
     (\<forall>r < length (cm_store (ra_mgr s)). r \<notin> set (getInProgressCalls (ra_mgr s)) \<longrightarrow>
        sc_state (cm_store (ra_mgr s) ! r) = CALL_ENDED \<or> (\<exists>t. r \<in> pc_ends (ra_pc s t)) \<or> r \<in> ra_late s) \<and>
     (\<forall>r \<in> ra_late s. r < length (cm_store (ra_mgr s)) \<and> r \<notin> set (getInProgressCalls (ra_mgr s)))"

lemma in_progress_iff: "smap_ok (cm_calls h) \<Longrightarrow> r \<in> set (getInProgressCalls h) \<longleftrightarrow> (\<exists>p. map_of (cm_calls h) p = Some r)"
proof -
  assume "smap_ok (cm_calls h)"
  then have "distinct (map fst (cm_calls h))" by (simp add: smap_ok_def strict_sorted_iff)
  then show ?thesis by (force simp: getInProgressCalls_def map_of_eq_Some_iff image_iff)
qed

text \<open>The section under the mutex: a hit changes nothing; else a new call takes the place in the table.\<close>

lemma takeCall_cases:
  fixes h :: "'j call_manager"
  assumes "takeCall p i d n h = (r, stale, h')" "smap_ok (cm_calls h)"
  obtains
    (hit) "map_of (cm_calls h) p = Some r" "stale = None" "h' = h"
  | (made) "r = length (cm_store h)" "cm_calls h' = smap_upd p r (cm_calls h)" "cm_store h' = cm_store h @ [newCall p i d n]"
      "\<And>q. map_of (cm_calls h) p = Some q \<Longrightarrow> stale = (if sc_state (cm_store h ! q) = CALL_ENDED then None else Some q)"
      "map_of (cm_calls h) p = None \<Longrightarrow> stale = None"
proof (cases "map_of (cm_calls h) p")
  case None
  with assms(1) show ?thesis by (intro made) (auto simp: takeCall_def Let_def)
next
  case (Some q)
  show ?thesis
  proof (cases "sc_callIndex (cm_store h ! q) = i")
    case True
    with assms(1) Some show ?thesis by (intro hit) (auto simp: takeCall_def Let_def)
  next
    case False
    with assms(1) Some show ?thesis by (intro made) (auto simp: takeCall_def Let_def)
  qed
qed

lemma table_soundD:
  assumes "table_sound h"
  shows "smap_ok (cm_calls h)" "map_of (cm_calls h) p = Some r \<Longrightarrow> r < length (cm_store h)"
    "map_of (cm_calls h) p = Some r \<Longrightarrow> sc_phoneId (cm_store h ! r) = p"
  using assms by (auto simp: table_sound_def)

lemma table_sound_cong:
  assumes "cm_calls h' = cm_calls h" "map sc_phoneId (cm_store h') = map sc_phoneId (cm_store h)"
  shows "table_sound h' = table_sound h"
proof -
  have len: "length (cm_store h') = length (cm_store h)" using arg_cong [OF assms(2), of length] by simp
  then have ph: "r < length (cm_store h) \<Longrightarrow> sc_phoneId (cm_store h' ! r) = sc_phoneId (cm_store h ! r)" for r
    using arg_cong [OF assms(2), of "\<lambda>xs. xs ! r"] by simp
  show ?thesis by (simp add: table_sound_def assms(1) len ph cong: conj_cong)
qed

lemma table_sound_set [simp]: "table_sound (h\<lparr>cm_store := setCallState r st (cm_store h)\<rparr>) = table_sound h"
  by (rule table_sound_cong) (auto simp: setCallState_nth intro!: nth_equalityI)

lemma table_sound_take:
  assumes "table_sound h" "takeCall p i d n h = (r, stale, h')"
  shows "table_sound h'" "map_of (cm_calls h') p = Some r"
proof -
  note ok = table_soundD [OF assms(1)]
  show "table_sound h'" using assms(2) ok(1)
  proof (cases rule: takeCall_cases)
    case made
    with ok show ?thesis by (auto simp: table_sound_def nth_append less_SucI)
  qed (simp add: assms(1))
  show "map_of (cm_calls h') p = Some r" using assms(2) ok(1) by (cases rule: takeCall_cases) (simp_all add: ok(1))
qed

lemma race_okD:
  assumes "race_ok s"
  shows "table_sound (ra_mgr s)" "r \<in> set (pc_refs (ra_pc s t)) \<Longrightarrow> r < length (cm_store (ra_mgr s))"
    "r < length (cm_store (ra_mgr s)) \<Longrightarrow> r \<notin> set (getInProgressCalls (ra_mgr s)) \<Longrightarrow>
      sc_state (cm_store (ra_mgr s) ! r) = CALL_ENDED \<or> (\<exists>t. r \<in> pc_ends (ra_pc s t)) \<or> r \<in> ra_late s"
    "r \<in> ra_late s \<Longrightarrow> r < length (cm_store (ra_mgr s)) \<and> r \<notin> set (getInProgressCalls (ra_mgr s))"
  using assms by (auto simp: race_ok_def)

text \<open>Two preservation lemmas: a thread moves on without touching the table or a call, or a state is set.\<close>

lemma race_ok_move:
  assumes "race_ok s" "cm_calls h = cm_calls (ra_mgr s)" "cm_store h = cm_store (ra_mgr s)"
    and "set (pc_refs pc) \<subseteq> set (pc_refs (ra_pc s t))" "pc_ends (ra_pc s t) \<subseteq> pc_ends pc"
  shows "race_ok \<lparr>ra_mgr = h, ra_pc = (ra_pc s)(t := pc), ra_late = ra_late s\<rparr>"
proof -
  have "table_sound h" using assms(1-3) table_sound_cong [of h "ra_mgr s"] by (simp add: race_ok_def)
  moreover have "getInProgressCalls h = getInProgressCalls (ra_mgr s)" using assms(2) by (simp add: getInProgressCalls_def)
  moreover have "r < length (cm_store h)" if "r \<in> set (pc_refs (((ra_pc s)(t := pc)) t'))" for r t'
    using that assms(3,4) race_okD(2) [OF assms(1)] by (cases "t' = t") auto
  moreover have "(\<exists>t'. r \<in> pc_ends (((ra_pc s)(t := pc)) t')) \<or> sc_state (cm_store h ! r) = CALL_ENDED \<or> r \<in> ra_late s"
    if "r < length (cm_store h)" "r \<notin> set (getInProgressCalls (ra_mgr s))" for r
    using race_okD(3) [OF assms(1), of r] that assms(3,5) by (metis fun_upd_other fun_upd_same subsetD)
  moreover have "r < length (cm_store h) \<and> r \<notin> set (getInProgressCalls (ra_mgr s))" if "r \<in> ra_late s" for r
    using race_okD(4) [OF assms(1) that] assms(3) by simp
  ultimately show ?thesis unfolding race_ok_def by (simp only: call_race.simps) blast
qed

lemma race_ok_set:
  assumes "race_ok s" "r \<in> set (pc_refs (ra_pc s t))" "set (pc_refs pc) \<subseteq> set (pc_refs (ra_pc s t))" "pc_ends (ra_pc s t) \<subseteq> {r}"
    and "st = CALL_ENDED \<or> r \<in> set (getInProgressCalls (ra_mgr s)) \<or> r \<in> L"
    and "L \<subseteq> {r}" "r \<in> set (getInProgressCalls (ra_mgr s)) \<Longrightarrow> L = {}"
  shows "race_ok \<lparr>ra_mgr = (ra_mgr s)\<lparr>cm_store := setCallState r st (cm_store (ra_mgr s))\<rparr>, ra_pc = (ra_pc s)(t := pc), ra_late = ra_late s \<union> L\<rparr>"
proof -
  let ?h = "(ra_mgr s)\<lparr>cm_store := setCallState r st (cm_store (ra_mgr s))\<rparr>"
  have len: "length (cm_store ?h) = length (cm_store (ra_mgr s))" by (simp add: setCallState_nth)
  have tab: "getInProgressCalls ?h = getInProgressCalls (ra_mgr s)" by (simp add: getInProgressCalls_def)
  have "table_sound ?h" using race_okD(1) [OF assms(1)] by simp
  moreover have "q < length (cm_store ?h)" if "q \<in> set (pc_refs (((ra_pc s)(t := pc)) t'))" for q t'
    using that assms(3) race_okD(2) [OF assms(1)] len by (cases "t' = t") auto
  moreover have "sc_state (cm_store ?h ! q) = CALL_ENDED \<or> (\<exists>t'. q \<in> pc_ends (((ra_pc s)(t := pc)) t')) \<or> q \<in> ra_late s \<union> L"
    if q: "q < length (cm_store ?h)" "q \<notin> set (getInProgressCalls ?h)" for q
  proof (cases "q = r")
    case True
    with q tab len assms(5) show ?thesis by (auto simp: setCallState_nth)
  next
    case False
    from q len tab have "q < length (cm_store (ra_mgr s))" "q \<notin> set (getInProgressCalls (ra_mgr s))" by simp_all
    from race_okD(3) [OF assms(1) this] show ?thesis
    proof (elim disjE exE)
      fix t' assume "q \<in> pc_ends (ra_pc s t')"
      with False assms(4) have "t' \<noteq> t" by auto
      with \<open>q \<in> pc_ends (ra_pc s t')\<close> show ?thesis by (metis fun_upd_other)
    qed (use q len False in \<open>auto simp: setCallState_nth\<close>)
  qed
  moreover have "q < length (cm_store ?h) \<and> q \<notin> set (getInProgressCalls ?h)" if "q \<in> ra_late s \<union> L" for q
    using that race_okD(4) [OF assms(1), of q] race_okD(2) [OF assms(1,2)] assms(6,7) len tab by auto
  ultimately show ?thesis unfolding race_ok_def by (simp only: call_race.simps) blast
qed

lemma race_ok_take:
  assumes ok: "race_ok s" and pc: "ra_pc s t = Taking p i d n k" and take: "takeCall p i d n (ra_mgr s) = (r, stale, h)"
  shows "race_ok \<lparr>ra_mgr = h, ra_pc = (ra_pc s)(t := case stale of None \<Rightarrow> Setting r k | Some q \<Rightarrow> Ending r q k), ra_late = ra_late s\<rparr>"
  using take table_soundD(1) [OF race_okD(1) [OF ok]]
proof (cases rule: takeCall_cases)
  case hit
  note r = table_soundD(2) [OF race_okD(1) [OF ok] hit(1)]
  let ?s = "s\<lparr>ra_pc := (ra_pc s)(t := Setting r k)\<rparr>"
  have "race_ok ?s" unfolding race_ok_def
  proof (intro conjI allI impI ballI)
    show "q < length (cm_store (ra_mgr ?s))" "q \<notin> set (getInProgressCalls (ra_mgr ?s))" if "q \<in> ra_late ?s" for q
      using race_okD(4) [OF ok, of q] that by simp_all
    show "table_sound (ra_mgr ?s)" using race_okD(1) [OF ok] by simp
    show "q < length (cm_store (ra_mgr ?s))" if "q \<in> set (pc_refs (ra_pc ?s t'))" for t' q
      using that r race_okD(2) [OF ok] by (cases "t' = t") auto
    show "sc_state (cm_store (ra_mgr ?s) ! q) = CALL_ENDED \<or> (\<exists>t. q \<in> pc_ends (ra_pc ?s t)) \<or> q \<in> ra_late ?s"
      if "q < length (cm_store (ra_mgr ?s))" "q \<notin> set (getInProgressCalls (ra_mgr ?s))" for q
      using race_okD(3) [OF ok, of q] that pc by simp (metis empty_iff fun_upd_other pc_ends.simps(3))
  qed
  with hit(2,3) show ?thesis by (cases s) simp
next
  case made
  note ts = race_okD(1) [OF ok] and tk = table_sound_take [OF race_okD(1) [OF ok] take]
  let ?pc = "case stale of None \<Rightarrow> Setting r k | Some q \<Rightarrow> Ending r q k"
  have sm: "smap_ok (cm_calls (ra_mgr s))" "smap_ok (cm_calls h)" using ts tk(1) by (simp_all add: table_sound_def)
  have cur: "map_of (cm_calls h) = (map_of (cm_calls (ra_mgr s)))(p \<mapsto> r)" using made(2) sm(1) by simp
  have stale: "map_of (cm_calls (ra_mgr s)) p = Some q" if "stale = Some q" for q
    using that made(4,5) by (cases "map_of (cm_calls (ra_mgr s)) p") (auto split: if_splits)
  have refs: "q < length (cm_store h)" if "q \<in> set (pc_refs ?pc)" for q
    using that stale table_soundD(2) [OF ts] made(1,3) by (fastforce split: option.splits)
  have "q < length (cm_store h)" if "q \<in> set (pc_refs (((ra_pc s)(t := ?pc)) t'))" for q t'
    using that refs race_okD(2) [OF ok, of q t'] made(3) by (cases "t' = t") auto
  moreover have "sc_state (cm_store h ! q) = CALL_ENDED \<or> (\<exists>t'. q \<in> pc_ends (((ra_pc s)(t := ?pc)) t')) \<or> q \<in> ra_late s"
    if q: "q < length (cm_store h)" "q \<notin> set (getInProgressCalls h)" for q
  proof -
    have "q \<noteq> r" using q(2) tk(2) by (auto simp: in_progress_iff [OF sm(2)])
    with q(1) made(1,3) have len: "q < length (cm_store (ra_mgr s))" "cm_store h ! q = cm_store (ra_mgr s) ! q" by (auto simp: nth_append)
    show ?thesis
    proof (cases "map_of (cm_calls (ra_mgr s)) p = Some q")
      case True
      with made(4) len(2) show ?thesis by (auto intro!: exI [of _ t])
    next
      case False
      then have "q \<notin> set (getInProgressCalls (ra_mgr s))"
        using q(2) cur by (auto simp: in_progress_iff sm split: if_splits)
      from race_okD(3) [OF ok len(1) this] len(2) pc show ?thesis by (metis empty_iff fun_upd_other pc_ends.simps(3))
    qed
  qed
  moreover have "q < length (cm_store h) \<and> q \<notin> set (getInProgressCalls h)" if "q \<in> ra_late s" for q
    using race_okD(4) [OF ok that] made(1,3) cur by (auto simp: in_progress_iff sm split: if_splits)
  ultimately show ?thesis using tk(1) unfolding race_ok_def by (simp only: call_race.simps) blast
qed

lemma race_ok_section:
  assumes ok: "race_ok s" and sec: "call_section T (ra_pc s t) (ra_mgr s) = (pc, h)"
  shows "race_ok \<lparr>ra_mgr = h, ra_pc = (ra_pc s)(t := pc), ra_late = ra_late s \<union> sets_late T (ra_pc s t) (ra_mgr s)\<rparr>"
proof (cases "ra_pc s t")
  case Resting
  with sec race_ok_move [OF ok, of h pc t] show ?thesis by simp
next
  case (Taking p i d n k)
  obtain r stale h' where take: "takeCall p i d n (ra_mgr s) = (r, stale, h')" by (cases "takeCall p i d n (ra_mgr s)")
  with race_ok_take [OF ok Taking take] sec Taking show ?thesis by simp
next
  case (Ending r q k)
  with sec race_ok_set [OF ok, of q t pc CALL_ENDED "{}"] show ?thesis by auto
next
  case (Telling_End r q k)
  with sec race_ok_move [OF ok, of h pc t] show ?thesis by auto
next
  case (Setting r k)
  show ?thesis
  proof (cases "value_string (tl_json T) (job_json k) ''callState''")
    case (Inl e)
    with sec Setting race_ok_move [OF ok, of h pc t] show ?thesis by auto
  next
    case (Inr st)
    with sec Setting race_ok_set [OF ok, of r t pc "wireToCallState st" "sets_late T (ra_pc s t) (ra_mgr s)"] show ?thesis
      by (auto split: if_splits)
  qed
next
  case (Telling r k)
  with sec race_ok_move [OF ok, of h pc t] show ?thesis by (cases k) auto
qed

lemma job_taking:
  "indication_job T d = Some pc \<Longrightarrow> pc_refs pc = []" "response_job T p cb rsp = Some pc \<Longrightarrow> pc_refs pc = []"
  by (auto simp: indication_job_def response_job_def split: option.splits sum.splits prod.splits)

lemma race_ok_step: "race_step T s s' \<Longrightarrow> race_ok s \<Longrightarrow> race_ok s'"
proof (induction rule: race_step.induct)
  case (indication s env us d pc)
  with race_ok_move [OF indication.prems, of "(ra_mgr s)\<lparr>ao_q := us\<rparr>" pc Manager_Worker] show ?case by (cases s) (simp add: job_taking)
next
  case (response s p cb rsp pc)
  with race_ok_move [OF response.prems, of "ra_mgr s" pc Bridge_Worker] show ?case by (cases s) (simp add: job_taking)
next
  case (sect s t pc h)
  then show ?case by (blast intro: race_ok_section)
next
  case (elsewhere h s)
  with race_ok_move [OF elsewhere.prems, of h "ra_pc s Bridge_Worker" Bridge_Worker] show ?case by (cases s) simp
qed

lemma race_ok_reach: "race_reach T cb s \<Longrightarrow> race_ok s"
proof (induction rule: race_reach.induct)
  case init
  show ?case by (simp add: race_ok_def at_rest_def newCallManager_def table_sound_def smap_ok_def)
next
  case (step s s')
  then show ?case by (blast intro: race_ok_step)
qed

section \<open>A thread on its own\<close>

text \<open>When no other thread comes in between, the sections of a thread make up the handler.\<close>

fun job_told :: "'j call_job \<Rightarrow> nat \<Rightarrow> 'j call_manager \<Rightarrow> 'j call_manager" where
  "job_told (By_Response cb cj) r h = call_made cb EC_SUCCESS (Some r) h"
| "job_told (By_Indication d) r h = cm_broadcastToListeners (On_Call_Info r) h"

lemma call_sections_alone:
  assumes pc: "ra_pc s t = Taking p i d n k" and st: "value_string (tl_json T) (job_json k) ''callState'' = Inr st"
    and ts: "table_sound (ra_mgr s)" and note_call: "note_call p i d n (wireToCallState st) (ra_mgr s) = (r, h)"
  shows "(race_step T)\<^sup>*\<^sup>* s \<lparr>ra_mgr = job_told k r h, ra_pc = (ra_pc s)(t := Resting), ra_late = ra_late s\<rparr>"
proof -
  let ?S = "\<lambda>pc h. \<lparr>ra_mgr = h, ra_pc = (ra_pc s)(t := pc), ra_late = ra_late s\<rparr> :: 'a call_race"
  have one: "race_step T (?S pc h) (?S pc' h')" if "call_section T pc h = (pc', h')" "sets_late T pc h = {}" for pc h pc' h'
    using race_step.sect [of T "?S pc h" t pc' h'] that by simp
  obtain r' stale h1 where take: "takeCall p i d n (ra_mgr s) = (r', stale, h1)" by (cases "takeCall p i d n (ra_mgr s)")
  let ?h2 = "endStale stale h1"
  have h: "r' = r" "h = ?h2\<lparr>cm_store := setCallState r (wireToCallState st) (cm_store ?h2)\<rparr>"
    using note_call take by (auto simp: note_call_def findOrCreateCall_def)
  have "map_of (cm_calls ?h2) p = Some r" "smap_ok (cm_calls ?h2)"
    using table_sound_take [OF ts take] table_soundD(1) [OF table_sound_take(1) [OF ts take]] h(1)
    by (simp_all add: endStale_def split: option.splits)
  then have "r \<in> set (getInProgressCalls ?h2)" by (auto simp: in_progress_iff)
  then have set: "race_step T (?S (Setting r k) ?h2) (?S (Telling r k) h)" by (intro one) (simp_all add: st h(2))
  have tell: "race_step T (?S (Telling r k) h) (?S Resting (job_told k r h))" by (intro one; cases k) simp_all
  have "(race_step T)\<^sup>*\<^sup>* (?S (Taking p i d n k) (ra_mgr s)) (?S (Setting r k) ?h2)"
  proof (cases stale)
    case None
    then have "race_step T (?S (Taking p i d n k) (ra_mgr s)) (?S (Setting r k) ?h2)" using take h(1) by (intro one) (simp_all add: endStale_def)
    then show ?thesis by (rule r_into_rtranclp)
  next
    case (Some q)
    let ?h' = "h1\<lparr>cm_store := setCallState q CALL_ENDED (cm_store h1)\<rparr>"
    have s1: "race_step T (?S (Taking p i d n k) (ra_mgr s)) (?S (Ending r q k) h1)" using take h(1) Some by (intro one) simp_all
    have s2: "race_step T (?S (Ending r q k) h1) (?S (Telling_End r q k) ?h')" by (intro one) simp_all
    have s3: "race_step T (?S (Telling_End r q k) ?h') (?S (Setting r k) ?h2)" using Some by (intro one) (simp_all add: endStale_def)
    have "(race_step T)\<^sup>*\<^sup>* (?S (Taking p i d n k) (ra_mgr s)) (?S (Ending r q k) h1)" using s1 by (rule r_into_rtranclp)
    then have "(race_step T)\<^sup>*\<^sup>* (?S (Taking p i d n k) (ra_mgr s)) (?S (Telling_End r q k) ?h')" using s2 by (rule rtranclp.rtrancl_into_rtrancl)
    then show ?thesis using s3 by (rule rtranclp.rtrancl_into_rtrancl)
  qed
  then have "(race_step T)\<^sup>*\<^sup>* (?S (Taking p i d n k) (ra_mgr s)) (?S (Telling r k) h)" using set by (rule rtranclp.rtrancl_into_rtrancl)
  then have "(race_step T)\<^sup>*\<^sup>* (?S (Taking p i d n k) (ra_mgr s)) (?S Resting (job_told k r h))" using tell by (rule rtranclp.rtrancl_into_rtrancl)
  then show ?thesis using pc by (cases s) (simp add: fun_upd_idem)
qed

lemma response_alone:
  assumes "response_job T p cb rsp = Some (Taking p i d n k)" "value_string (tl_json T) (job_json k) ''callState'' = Inr st"
    "note_call p i d n (wireToCallState st) h = (r, h')"
  shows "start_response (tl_json T) p cb rsp h = (True, job_told k r h')"
  using assms by (auto simp: response_job_def start_response_def note_call_def split: option.splits sum.splits prod.splits)

lemma indication_alone:
  assumes "indication_job T d = Some (Taking p i dir n k)" "value_string (tl_json T) (job_json k) ''callState'' = Inr st"
    "note_call p i dir n (wireToCallState st) h = (r, h')"
  shows "callStateEvt T d h = Inr (job_told k r h')"
  using assms by (auto simp: indication_job_def callStateEvt_def note_call_def Let_def split: option.splits sum.splits prod.splits)

text \<open>What else the handlers and the responses do leaves the table and the calls alone.\<close>

lemma handlers_elsewhere:
  assumes "call_handlers T s (User u) h = Inr (r, h')"
  shows "cm_calls h' = cm_calls h \<and> cm_store h' = cm_store h \<or>
    (s = Ready \<and> (\<exists>env d pc. u = CallStateEvt_Signal env \<and> env_data env = Some d \<and> indication_job T d = Some pc))"
proof (cases s)
  case NotReady
  with assms show ?thesis by (cases u) (auto simp: to_st_def super_st_def bindE_eq_Inr split: if_splits)
next
  case Ready
  with assms show ?thesis
    by (cases u) (auto simp: to_st_def super_st_def bindE_eq_Inr msdStatusEvt_def redialEvt_def hlapTimerEvt_def callStateEvt_def
        indication_job_def Let_def case_prod_unfold split: if_splits dest!: cm_with_data_Inr)
qed

lemma responses_elsewhere:
  assumes "ecall_response T k rsp h = (ok, h')"
  shows "cm_calls h' = cm_calls h \<and> cm_store h' = cm_store h \<or> (\<exists>p cb pc. k = K_Start p cb \<and> response_job T p cb rsp = Some pc)"
  using assms
  by (cases k) (auto simp: start_response_def response_job_def plain_response_def emit_result_def case_prod_unfold
      split: option.splits sum.splits prod.splits if_splits)

section \<open>A race\<close>

text \<open>
  Phone 1 starts a call: the response with call index 3 has entered its call in the table and not yet set its state when
  an indication with call index 4 is handled; then the response goes on.
\<close>

definition race_go :: "'j tel_ext \<Rightarrow> call_thread \<Rightarrow> 'j call_race \<Rightarrow> 'j call_race" where
  "race_go T t s =
     (case call_section T (ra_pc s t) (ra_mgr s) of (pc, h) \<Rightarrow>
        \<lparr>ra_mgr = h, ra_pc = (ra_pc s)(t := pc), ra_late = ra_late s \<union> sets_late T (ra_pc s t) (ra_mgr s)\<rparr>)"

lemma race_go_reach: "race_reach T cb s \<Longrightarrow> race_reach T cb (race_go T t s)"
  by (cases "call_section T (ra_pc s t) (ra_mgr s)") (auto simp: race_go_def intro: race_reach.step race_step.sect)

lemma race_go_reaches: "race_reach T cb s \<Longrightarrow> race_reach T cb ((race_go T t ^^ m) s)"
  by (induction m) (simp_all add: race_go_reach)

definition race_ind :: "jtree ecall_event" where
  "race_ind = CallStateEvt_Signal (fst (makeEventEnvelope 4 ''mpss'' demo_ind 42))"

definition race0 :: "jtree call_race" where
  "race0 = at_rest ((newCallManager None)\<lparr>hstate := St Ready, ao_q := [race_ind]\<rparr>)"

definition race1 :: "jtree call_race" where
  "race1 = race_go demo_tel Bridge_Worker
     (race0\<lparr>ra_pc := (ra_pc race0)(Bridge_Worker := the (response_job demo_tel 1 (Some 4) (Some ecall_demo_rsp)))\<rparr>)"

definition race2 :: "jtree call_race" where
  "race2 = (race_go demo_tel Manager_Worker ^^ 5)
     (race1\<lparr>ra_mgr := (ra_mgr race1)\<lparr>ao_q := []\<rparr>, ra_pc := (ra_pc race1)(Manager_Worker := the (indication_job demo_tel demo_ind))\<rparr>)"

definition race3 :: "jtree call_race" where
  "race3 = (race_go demo_tel Bridge_Worker ^^ 2) race2"

definition race_sight :: "jtree call_race \<Rightarrow> bool \<times> bool \<times> bool \<times> jtree ecall_event list \<times> nat list \<times> call_state list" where
  "race_sight s = (ra_pc s Manager_Worker = Resting, ra_pc s Bridge_Worker = Resting, hstate (ra_mgr s) = St Ready, ao_q (ra_mgr s),
     getInProgressCalls (ra_mgr s), map sc_state (cm_store (ra_mgr s)))"

lemma race_start: "cm_calls (ra_mgr race0) = cm_calls (newCallManager None :: jtree call_manager)"
  "cm_store (ra_mgr race0) = cm_store (newCallManager None :: jtree call_manager)" "ra_pc race0 Bridge_Worker = Resting"
  by (simp_all add: race0_def at_rest_def)

lemma race_jobs: "response_job demo_tel 1 (Some 4) (Some ecall_demo_rsp) \<noteq> None" "indication_job demo_tel demo_ind \<noteq> None"
  by code_simp+

lemma race_sight1: "race_sight race1 = (True, False, True, [race_ind], [0], [CALL_IDLE])"
  by code_simp

lemma race_sight3: "race_sight race3 = (True, True, True, [], [1], [CALL_DIALING, CALL_ALERTING])"
  by code_simp

lemma race_facts1: "ra_pc race1 Manager_Worker = Resting" "hstate (ra_mgr race1) = St Ready" "ao_q (ra_mgr race1) = [race_ind]"
  using race_sight1 by (simp_all add: race_sight_def)

lemma race_facts3:
  "ra_pc race3 Manager_Worker = Resting" "ra_pc race3 Bridge_Worker = Resting" "getInProgressCalls (ra_mgr race3) = [1]"
  "0 < length (cm_store (ra_mgr race3))" "sc_state (cm_store (ra_mgr race3) ! 0) = CALL_DIALING"
  using race_sight3 by (auto simp: race_sight_def map_eq_Cons_conv)

lemma race_reach3: "race_reach demo_tel None race3"
proof -
  have "race_reach demo_tel None ((at_rest (newCallManager None))\<lparr>ra_mgr := ra_mgr race0\<rparr>)"
    by (rule race_reach.step [OF race_reach.init race_step.elsewhere]) (simp_all add: race_start(1,2) at_rest_def)
  then have "race_reach demo_tel None race0" by (simp add: race0_def at_rest_def)
  from race_reach.step [OF this race_step.response [OF race_start(3)]] race_jobs(1)
  have r1: "race_reach demo_tel None race1" unfolding race1_def by (intro race_go_reach) auto
  have "env_data (fst (makeEventEnvelope 4 ''mpss'' demo_ind 42)) = Some demo_ind" by code_simp
  from race_step.indication [OF race_facts1(1,2) race_facts1(3) [unfolded race_ind_def] this] race_jobs(2)
  have "race_step demo_tel race1
      (race1\<lparr>ra_mgr := (ra_mgr race1)\<lparr>ao_q := []\<rparr>, ra_pc := (ra_pc race1)(Manager_Worker := the (indication_job demo_tel demo_ind))\<rparr>)"
    by auto
  from race_reach.step [OF r1 this] show ?thesis
    unfolding race3_def race2_def by (intro race_go_reaches)
qed

section \<open>Properties\<close>

text \<open>C13: the table of calls, for every interleaving of the manager's worker and the bridge's worker at the sections of
  \<open>findOrCreateCall_\<close> and its callers. Each phone has at most one call in the table, and the call belongs to that phone. A
  call object that is no longer in the table has ended, or the thread that replaced it is about to end it, or its
  state was set after it had been replaced: the thread that set it had got it before another thread put a new
  call in its place. This last case is a race in the code, since the state is set without the mutex; the replaced call can then be left
  as dialing for ever.\<close>

theorem call_table_invariant:
  assumes "race_reach T cb s"
  shows "smap_ok (cm_calls (ra_mgr s)) \<and>
    (\<forall>p r. map_of (cm_calls (ra_mgr s)) p = Some r \<longrightarrow>
       r < length (cm_store (ra_mgr s)) \<and> sc_phoneId (cm_store (ra_mgr s) ! r) = p) \<and>
    (\<forall>r < length (cm_store (ra_mgr s)). r \<notin> set (getInProgressCalls (ra_mgr s)) \<longrightarrow>
       sc_state (cm_store (ra_mgr s) ! r) = CALL_ENDED \<or> (\<exists>t r' k. ra_pc s t = Ending r' r k) \<or> r \<in> ra_late s) \<and>
    (\<forall>r \<in> ra_late s. r \<notin> set (getInProgressCalls (ra_mgr s)))"
proof -
  have ends: "\<exists>r' k. pc = Ending r' r k" if "r \<in> pc_ends pc" for r and pc :: "'a call_pc" using that by (cases pc) auto
  note ok = race_ok_reach [OF assms]
  have "sc_state (cm_store (ra_mgr s) ! r) = CALL_ENDED \<or> (\<exists>t r' k. ra_pc s t = Ending r' r k) \<or> r \<in> ra_late s"
    if "r < length (cm_store (ra_mgr s))" "r \<notin> set (getInProgressCalls (ra_mgr s))" for r
    using race_okD(3) [OF ok that] ends by blast
  with race_okD(4) [OF ok] race_okD(1) [OF ok] show ?thesis by (auto simp: table_sound_def)
qed

theorem call_table_invariant_witness:
  "\<exists>s. race_reach demo_tel None s \<and> ra_pc s Manager_Worker = Resting \<and> ra_pc s Bridge_Worker = Resting \<and>
     getInProgressCalls (ra_mgr s) = [1] \<and> sc_state (cm_store (ra_mgr s) ! 0) = CALL_DIALING \<and> 0 \<in> ra_late s"
proof -
  have "ra_pc race3 t \<noteq> Ending r' 0 k" for t r' k using race_facts3(1,2) by (cases t) simp_all
  moreover note call_table_invariant [OF race_reach3, THEN conjunct2, THEN conjunct2, THEN conjunct1, rule_format, of 0]
  ultimately have "0 \<in> ra_late race3" using race_facts3(3-5) by simp
  with race_reach3 race_facts3 show ?thesis by blast
qed

end
