(* ===== verification/Sim_Shell.thy ===== *)
theory Sim_Shell
  imports Manager_Io
begin

text \<open>
  What the three SIM managers of \<open>component/sim\<close> have in common: the signals of \<open>sim/Signals.hpp\<close>,
  the members they all declare, the report of readiness to init callbacks and listeners.
  Listeners are weak references, named by numbers; \<open>sm_live\<close> holds those that can be locked. A
  null callback is \<open>None\<close>.
\<close>

section \<open>Data\<close>

datatype card_state = CARDSTATE_UNKNOWN | CARDSTATE_ABSENT | CARDSTATE_PRESENT | CARDSTATE_ERROR | CARDSTATE_RESTRICTED

datatype app_state =
    APPSTATE_UNKNOWN | APPSTATE_DETECTED | APPSTATE_PIN | APPSTATE_PUK | APPSTATE_SUBSCRIPTION_PERSO
  | APPSTATE_READY | APPSTATE_ILLEGAL

datatype slot_state = SLOT_UNKNOWN | SLOT_INACTIVE | SLOT_ACTIVE

text \<open>\<open>SlotStatus\<close>; its \<open>cardError\<close> is always \<open>UNKNOWN\<close> here.\<close>

record slot_status =
  slotState :: slot_state
  slotCardState :: card_state

definition DEFAULT_SLOT_ID :: int where
  "DEFAULT_SLOT_ID = 1"

definition EC_SIM_ERR :: error_code where
  "EC_SIM_ERR = 43"

definition EC_NO_EFFECT :: error_code where
  "EC_NO_EFFECT = 101"

definition kSimRpcTimeout :: int where
  "kSimRpcTimeout = 30000"

text \<open>The payloads of the signals that some manager handles; the power request carries its direction.\<close>

datatype 'j sim_event =
    Sim_ReadinessEvt_Signal "'j envelope"
  | Sim_BridgeConnectivityChanged_Signal bool
  | CardPowerUp_Signal bool "nat option"
  | CardPowerDown_Signal bool "nat option"
  | CardStateEvt_Signal "'j envelope"
  | SubInfoChangedEvt_Signal "'j envelope"
  | RequestSlotStatus_Signal "nat option"
  | RequestHighCapability_Signal "nat option"
  | SetHighCapability_Signal int "nat option"
  | SwitchActiveSlot_Signal int "nat option"

text \<open>The callbacks of requests, with what they capture; a join of two requests is named by a number.\<close>

datatype sim_cont =
    K_Card_State
  | K_Set_Power "nat option"
  | K_Iccid nat
  | K_Imsi nat
  | K_Slot_Status int "nat option"

datatype sim_note =
    On_Service_Status service_status
  | On_Card_Info int
  | On_Subscription_Info int string string
  | On_Slot_Status int slot_status
  | On_High_Capability int

datatype 'j sim_effect =
    Sim_Init_Called nat service_status
  | Sim_Notes "nat list" sim_note
  | Sim_Request string string "'j envelope" sim_cont int
  | Presence_Called nat bool
  | Sim_Response_Called nat error_code
  | Slot_Status_Called nat int slot_status error_code
  | High_Capability_Called nat int error_code
  | Sim_Subscribed string string
  | Sim_Unsubscribed string
  | Sim_Connectivity_Subscribed nat
  | Sim_Connectivity_Unsubscribed nat
  | Sim_Bridge_Drained

record 'j sim_ext =
  sx_json :: "'j json_lib"
  subsys_ready_card_ind :: string
  card_state_ind :: string
  subsys_ready_sub_ind :: string
  sub_info_changed_ind :: string
  get_state_req :: string
  set_power_req :: string
  get_iccid_req :: string
  get_imsi_req :: string
  sx_pa_id :: string
  sx_token :: nat

record 'j sim_manager = "(rstate, 'j sim_event) active_object" +
  sm_conn_token :: nat
  sm_slotId :: int
  sm_init_cbs :: "nat list"
  sm_init_reported :: bool
  sm_ready_flag :: bool
  sm_last_status :: service_status
  sm_listeners :: "nat list"
  sm_live :: "nat list"
  sm_io :: "'j sim_effect io"

section \<open>Operations\<close>

definition sm_do :: "('j sim_effect io \<Rightarrow> 'j sim_effect io) \<Rightarrow> ('j, 'z) sim_manager_scheme \<Rightarrow> ('j, 'z) sim_manager_scheme" where
  "sm_do f h = h\<lparr>sm_io := f (sm_io h)\<rparr>"

definition sm_emit :: "'j sim_effect \<Rightarrow> ('j, 'z) sim_manager_scheme \<Rightarrow> ('j, 'z) sim_manager_scheme" where
  "sm_emit x = sm_do (io_emit x)"

definition sm_request :: "'j sim_ext \<Rightarrow> string \<Rightarrow> string \<Rightarrow> 'j \<Rightarrow> sim_cont \<Rightarrow> ('j, 'z) sim_manager_scheme
    \<Rightarrow> ('j, 'z) sim_manager_scheme" where
  "sm_request S topic schema dat k =
     sm_do (\<lambda>s. case io_request (sx_pa_id S) dat s of (req, s) \<Rightarrow> io_emit (Sim_Request topic schema req k kSimRpcTimeout) s)"

definition slot_data :: "'j json_lib \<Rightarrow> int \<Rightarrow> 'j" where
  "slot_data J slot = j_set J ''slot'' (j_of_int J slot) (j_object J)"

text \<open>\<open>addInitCallback\<close>: the status is read after the mutex is released.\<close>

definition sm_addInitCallback :: "nat option \<Rightarrow> ('j, 'z) sim_manager_scheme \<Rightarrow> ('j, 'z) sim_manager_scheme" where
  "sm_addInitCallback cb h =
     (case cb of
        None \<Rightarrow> h
      | Some c \<Rightarrow>
          if \<not> sm_init_reported h then h\<lparr>sm_init_cbs := sm_init_cbs h @ [c]\<rparr>
          else sm_emit (Sim_Init_Called c (sm_last_status h)) h)"

text \<open>\<open>fireInitCallbacks_\<close>; what a callback throws is caught, so all of them are called.\<close>

definition sm_fireInitCallbacks :: "service_status \<Rightarrow> ('j, 'z) sim_manager_scheme \<Rightarrow> ('j, 'z) sim_manager_scheme" where
  "sm_fireInitCallbacks st h =
     fold (\<lambda>c. sm_emit (Sim_Init_Called c st)) (sm_init_cbs h) (h\<lparr>sm_init_reported := True, sm_init_cbs := []\<rparr>)"

definition sm_broadcastToListeners :: "sim_note \<Rightarrow> ('j, 'z) sim_manager_scheme \<Rightarrow> ('j, 'z) sim_manager_scheme" where
  "sm_broadcastToListeners nt h =
     (let ls = filter (\<lambda>l. l \<in> set (sm_live h)) (sm_listeners h) in
      if ls = [] then h else sm_emit (Sim_Notes ls nt) h)"

definition sm_addressed :: "int \<Rightarrow> ('j, 'z) sim_manager_scheme \<Rightarrow> bool" where
  "sm_addressed slotId h \<longleftrightarrow> slotId = sm_slotId h \<or> slotId = DEFAULT_SLOT_ID"

text \<open>The entry and the exit of the ready state, before what a manager adds.\<close>

definition sm_enterReady :: "('j, 'z) sim_manager_scheme \<Rightarrow> ('j, 'z) sim_manager_scheme" where
  "sm_enterReady h =
     (let h = h\<lparr>sm_ready_flag := True, sm_last_status := SERVICE_AVAILABLE\<rparr>;
          first_report = (\<not> sm_init_reported h);
          h = sm_fireInitCallbacks SERVICE_AVAILABLE h
      in if \<not> first_report then sm_broadcastToListeners (On_Service_Status SERVICE_AVAILABLE) h else h)"

definition sm_exitReady :: "('j, 'z) sim_manager_scheme \<Rightarrow> ('j, 'z) sim_manager_scheme" where
  "sm_exitReady h =
     sm_broadcastToListeners (On_Service_Status SERVICE_UNAVAILABLE) (h\<lparr>sm_ready_flag := False\<rparr>)"

text \<open>A readiness indication in the ready state.\<close>

definition sm_readiness :: "'j json_lib \<Rightarrow> 'j envelope \<Rightarrow> ('j, 'z) sim_manager_scheme \<Rightarrow> (status \<times> ('j, 'z) sim_manager_scheme) result" where
  "sm_readiness J env h =
     (case env_data env of
        None \<Rightarrow> Inr (HANDLED, h)
      | Some d \<Rightarrow> bindE (value_string J d ''status'') (\<lambda>s.
          Inr (if s = ''UNAVAILABLE'' then to_st (St NotReady) (h\<lparr>sm_last_status := SERVICE_UNAVAILABLE\<rparr>)
               else if s = ''FAILED'' then to_st (St NotReady) (h\<lparr>sm_last_status := SERVICE_FAILED\<rparr>)
               else (HANDLED, h))))"

definition sm_connectivity :: "bool \<Rightarrow> ('j, 'z) sim_manager_scheme \<Rightarrow> status \<times> ('j, 'z) sim_manager_scheme" where
  "sm_connectivity b h =
     (if \<not> b then to_st (St NotReady) (h\<lparr>sm_last_status := SERVICE_UNAVAILABLE\<rparr>) else (HANDLED, h))"

text \<open>Which status a withdrawal of readiness leaves; \<open>None\<close> when the event withdraws nothing.\<close>

fun sm_withdrawn :: "'j json_lib \<Rightarrow> 'j sim_event \<Rightarrow> service_status option" where
  "sm_withdrawn J (Sim_ReadinessEvt_Signal env) =
     (if readiness_status J ''UNAVAILABLE'' env = Inr True then Some SERVICE_UNAVAILABLE
      else if readiness_status J ''FAILED'' env = Inr True then Some SERVICE_FAILED else None)"
| "sm_withdrawn J (Sim_BridgeConnectivityChanged_Signal b) = (if b then None else Some SERVICE_UNAVAILABLE)"
| "sm_withdrawn J _ = None"

definition sm_down :: "'j json_lib \<Rightarrow> 'j sim_event \<Rightarrow> bool" where
  "sm_down J u \<longleftrightarrow> sm_withdrawn J u \<noteq> None"

lemma sm_readiness_Inr:
  assumes "sm_readiness J env h = Inr (r, h')"
  shows "case sm_withdrawn J (Sim_ReadinessEvt_Signal env) of
      None \<Rightarrow> r = HANDLED \<and> h' = h
    | Some st \<Rightarrow> r = NEED_TO_TRANSFER \<and> h' = h\<lparr>sm_last_status := st, htemp := St NotReady\<rparr>"
  using assms
  by (auto simp: sm_readiness_def readiness_status_def bindE_eq_Inr to_st_def split: option.splits if_splits)

section \<open>What the operations leave alone\<close>

lemma posts_only_sim_upd [simp]:
  "posts_only g (h\<lparr>sm_io := a\<rparr>) = posts_only g h" "posts_only g (h\<lparr>sm_ready_flag := b\<rparr>) = posts_only g h"
  "posts_only g (h\<lparr>sm_last_status := c\<rparr>) = posts_only g h" "posts_only g (h\<lparr>sm_init_cbs := d\<rparr>) = posts_only g h"
  "posts_only g (h\<lparr>sm_init_reported := e\<rparr>) = posts_only g h"
  by (simp_all add: posts_only_def)

lemma fold_sm_emit: "fold (\<lambda>c. sm_emit (f c)) cs h = sm_do (\<lambda>s. fold (\<lambda>c. io_emit (f c)) cs s) h"
  by (induction cs arbitrary: h) (simp_all add: sm_emit_def sm_do_def)

lemma sm_do_posts [simp]:
  "posts_only g (sm_do f h) = posts_only g h" "posts_only g (sm_emit x h) = posts_only g h"
  "posts_only g (sm_request S t sc d k h) = posts_only g h" "posts_only g (sm_broadcastToListeners nt h) = posts_only g h"
  by (simp_all add: sm_emit_def sm_do_def sm_request_def sm_broadcastToListeners_def Let_def)

lemma sm_enter_posts [simp]:
  "posts_only g (sm_enterReady h) = posts_only g h" "posts_only g (sm_exitReady h) = posts_only g h"
  by (simp_all add: sm_enterReady_def sm_exitReady_def sm_fireInitCallbacks_def fold_sm_emit Let_def)

lemma sm_do_sel [simp]:
  "sm_io (sm_do f h) = f (sm_io h)" "sm_listeners (sm_do f h) = sm_listeners h" "sm_live (sm_do f h) = sm_live h"
  "sm_slotId (sm_do f h) = sm_slotId h" "sm_ready_flag (sm_do f h) = sm_ready_flag h"
  "sm_last_status (sm_do f h) = sm_last_status h" "sm_init_cbs (sm_do f h) = sm_init_cbs h"
  "sm_init_reported (sm_do f h) = sm_init_reported h" "sim_manager.more (sm_do f h) = sim_manager.more h"
  "hstate (sm_do f h) = hstate h" "ao_q (sm_do f h) = ao_q h" "ao_running (sm_do f h) = ao_running h"
  by (simp_all add: sm_do_def)

lemma sm_temp [simp]:
  "sm_do f (h\<lparr>htemp := x\<rparr>) = (sm_do f h)\<lparr>htemp := x\<rparr>" "sm_emit y (h\<lparr>htemp := x\<rparr>) = (sm_emit y h)\<lparr>htemp := x\<rparr>"
  "sm_request S t sc d k (h\<lparr>htemp := x\<rparr>) = (sm_request S t sc d k h)\<lparr>htemp := x\<rparr>"
  "sm_broadcastToListeners nt (h\<lparr>htemp := x\<rparr>) = (sm_broadcastToListeners nt h)\<lparr>htemp := x\<rparr>"
  by (simp_all add: sm_do_def sm_emit_def sm_request_def sm_broadcastToListeners_def Let_def)

lemma sm_enter_temp [simp]:
  "sm_enterReady (h\<lparr>htemp := x\<rparr>) = (sm_enterReady h)\<lparr>htemp := x\<rparr>"
  "sm_exitReady (h\<lparr>htemp := x\<rparr>) = (sm_exitReady h)\<lparr>htemp := x\<rparr>"
  by (simp_all add: sm_enterReady_def sm_exitReady_def sm_fireInitCallbacks_def fold_sm_emit Let_def)
    (simp_all add: sm_do_def sm_broadcastToListeners_def sm_emit_def Let_def)

section \<open>Service status and init callbacks\<close>

fun is_init_call :: "'j sim_effect \<Rightarrow> bool" where
  "is_init_call (Sim_Init_Called c st) = True"
| "is_init_call _ = False"

definition inits :: "('j, 'z) sim_manager_scheme \<Rightarrow> 'j sim_effect list" where
  "inits h = filter is_init_call (io_out (sm_io h))"

type_synonym 'j sim_view = "bool \<times> service_status \<times> nat list \<times> bool \<times> 'j sim_effect list"

definition sim_view :: "('j, 'z) sim_manager_scheme \<Rightarrow> 'j sim_view" where
  "sim_view h = (sm_ready_flag h, sm_last_status h, sm_init_cbs h, sm_init_reported h, inits h)"

text \<open>How an event that moves a manager from \<open>s\<close> to \<open>t\<close> changes what it reports of itself.\<close>

fun sim_move :: "'j json_lib \<Rightarrow> 'j sim_event \<Rightarrow> rstate \<Rightarrow> rstate \<Rightarrow> 'j sim_view \<Rightarrow> 'j sim_view" where
  "sim_move J u NotReady Ready (rf, st, cbs, rep, calls) =
     (True, SERVICE_AVAILABLE, [], True, calls @ map (\<lambda>c. Sim_Init_Called c SERVICE_AVAILABLE) cbs)"
| "sim_move J u Ready NotReady (rf, st, cbs, rep, calls) =
     (False, case sm_withdrawn J u of None \<Rightarrow> st | Some w \<Rightarrow> w, cbs, rep, calls)"
| "sim_move J u _ _ v = v"

lemma sim_view_quiet:
  "sim_view (h\<lparr>htemp := x\<rparr>) = sim_view h" "sim_view (erase h) = sim_view h" "sim_view (h\<lparr>ao_q := q\<rparr>) = sim_view h"
  "\<not> is_init_call y \<Longrightarrow> sim_view (sm_emit y h) = sim_view h" "sim_view (sm_broadcastToListeners nt h) = sim_view h"
  "sim_view (sm_request S t sc d k h) = sim_view h" "sim_view (post_fifo e h) = sim_view h"
  by (simp_all add: sim_view_def inits_def erase_def sm_emit_def sm_broadcastToListeners_def sm_request_def Let_def
      post_fifo_def case_prod_unfold)

lemma inits_fire: "inits (sm_fireInitCallbacks st h) = inits h @ map (\<lambda>c. Sim_Init_Called c st) (sm_init_cbs h)"
proof -
  have "filter is_init_call (io_out (fold (\<lambda>c. io_emit (Sim_Init_Called c st)) cs i)) =
      filter is_init_call (io_out i) @ map (\<lambda>c. Sim_Init_Called c st) cs" for cs i
    by (induction cs arbitrary: i) simp_all
  then show ?thesis by (simp add: sm_fireInitCallbacks_def fold_sm_emit inits_def)
qed

lemma fire_sel [simp]:
  "sm_ready_flag (sm_fireInitCallbacks st h) = sm_ready_flag h" "sm_last_status (sm_fireInitCallbacks st h) = sm_last_status h"
  "sm_init_cbs (sm_fireInitCallbacks st h) = []" "sm_init_reported (sm_fireInitCallbacks st h)"
  by (simp_all add: sm_fireInitCallbacks_def fold_sm_emit)

lemma sim_view_enter: "sim_view (sm_enterReady h) = sim_move J u NotReady Ready (sim_view h)"
  by (simp add: sm_enterReady_def Let_def sim_view_quiet) (simp add: sim_view_def inits_fire, simp add: inits_def)

lemma sim_view_exit: "sim_view (sm_exitReady h) = (False, snd (sim_view h))"
  by (simp add: sm_exitReady_def sim_view_quiet) (simp add: sim_view_def inits_def)

fun sim_en :: "(('j, 'z) sim_manager_scheme \<Rightarrow> ('j, 'z) sim_manager_scheme) \<Rightarrow> rstate \<Rightarrow> ('j, 'z) sim_manager_scheme
    \<Rightarrow> ('j, 'z) sim_manager_scheme" where
  "sim_en add NotReady h = h"
| "sim_en add Ready h = add (sm_enterReady h)"

fun sim_ex :: "rstate \<Rightarrow> ('j, 'z) sim_manager_scheme \<Rightarrow> ('j, 'z) sim_manager_scheme" where
  "sim_ex NotReady h = h"
| "sim_ex Ready h = sm_exitReady h"

text \<open>What a handler may do: stay and change nothing that is reported, raise readiness, withdraw it.\<close>

definition sim_moves :: "'j json_lib \<Rightarrow> ('j sim_event \<Rightarrow> bool) \<Rightarrow> rstate \<Rightarrow> 'j sim_event \<Rightarrow> ('j, 'z) sim_manager_scheme
    \<Rightarrow> status \<Rightarrow> ('j, 'z) sim_manager_scheme \<Rightarrow> bool" where
  "sim_moves J up s u h r h' \<longleftrightarrow>
     track up (sm_down J) u s = s \<and> r \<noteq> NEED_TO_TRANSFER \<and> posts_only h h' \<and> sim_view h' = sim_view h \<and>
       (r = TO_SUPER \<longrightarrow> htemp h' = Top_St) \<or>
     s = NotReady \<and> up u \<and> r = NEED_TO_TRANSFER \<and> h' = h\<lparr>htemp := St Ready\<rparr> \<or>
     s = Ready \<and> r = NEED_TO_TRANSFER \<and>
       (\<exists>w. sm_withdrawn J u = Some w \<and> h' = h\<lparr>sm_last_status := w, htemp := St NotReady\<rparr>)"

lemma sim_moves_quiet:
  "track up (sm_down J) u s = s \<Longrightarrow> r \<noteq> NEED_TO_TRANSFER \<Longrightarrow> posts_only h h' \<Longrightarrow> sim_view h' = sim_view h \<Longrightarrow>
   (r = TO_SUPER \<Longrightarrow> htemp h' = Top_St) \<Longrightarrow> sim_moves J up s u h r h'"
  by (simp add: sim_moves_def)

lemma sim_moves_readiness:
  assumes "sm_readiness J env h = Inr (r, h')"
  shows "sim_moves J up Ready (Sim_ReadinessEvt_Signal env) h r h'"
  using sm_readiness_Inr [OF assms]
  by (cases "sm_withdrawn J (Sim_ReadinessEvt_Signal env)") (auto simp: sim_moves_def track_def sm_down_def)

lemma sim_moves_connectivity:
  assumes "sm_connectivity b h = (r, h')"
  shows "sim_moves J up Ready (Sim_BridgeConnectivityChanged_Signal b) h r h'"
  using assms by (auto simp: sm_connectivity_def to_st_def sim_moves_def track_def sm_down_def split: if_splits)

text \<open>The locale of the SIM charts; \<open>add\<close> is what a manager does last when it becomes ready.\<close>

locale sim_chart =
  fixes H :: "rstate \<Rightarrow> 'j sim_event event \<Rightarrow> ('j, 'z) sim_manager_scheme \<Rightarrow> (status \<times> ('j, 'z) sim_manager_scheme) result"
    and add :: "('j, 'z) sim_manager_scheme \<Rightarrow> ('j, 'z) sim_manager_scheme"
    and up :: "'j sim_event \<Rightarrow> bool" and J :: "'j json_lib"
  assumes pass_on: "H s None_Signal h = Inr (super_st Top_St h)" "H s Init_Signal h = Inr (super_st Top_St h)"
    and borders: "H s Entry_Signal h = Inr (HANDLED, sim_en add s h)" "H s Exit_Signal h = Inr (HANDLED, sim_ex s h)"
    and add_quiet: "add (h\<lparr>htemp := x\<rparr>) = (add h)\<lparr>htemp := x\<rparr>" "posts_only g (add h) = posts_only g h" "sim_view (add h) = sim_view h"
    and moves: "H s (User u) h = Inr (r, h') \<Longrightarrow> sim_moves J up s u h r h'"

sublocale sim_chart \<subseteq> manager_shell H "sim_en add" sim_ex up "sm_down J"
proof unfold_locales
  fix s h x u r h'
  show "sim_en add s (h\<lparr>htemp := x\<rparr>) = (sim_en add s h)\<lparr>htemp := x\<rparr>" "posts_only h (sim_en add s h)"
    by (cases s; simp add: add_quiet)+
  show "sim_ex s (h\<lparr>htemp := x\<rparr>) = (sim_ex s h)\<lparr>htemp := x\<rparr>" "posts_only h (sim_ex s h)" by (cases s; simp)+
  show "posts_only h h' \<and> (r = TO_SUPER \<longrightarrow> htemp h' = Top_St) \<and>
      (if track up (sm_down J) u s = s then r \<noteq> NEED_TO_TRANSFER
       else r = NEED_TO_TRANSFER \<and> htemp h' = St (track up (sm_down J) u s))"
    if "H s (User u) h = Inr (r, h')"
    using moves [OF that] unfolding sim_moves_def
    by (elim disjE conjE exE) (simp, simp add: track_def, simp add: track_def sm_down_def)
qed (simp_all add: pass_on borders)

text \<open>The statuses that the handled withdrawals leave.\<close>

definition left_statuses :: "('j sim_event \<Rightarrow> bool) \<Rightarrow> 'j json_lib \<Rightarrow> rstate \<Rightarrow> 'j sim_event list \<Rightarrow> service_status list" where
  "left_statuses up J s us = along (track up (sm_down J))
     (\<lambda>s u. if s = Ready then (case sm_withdrawn J u of None \<Rightarrow> [] | Some st \<Rightarrow> [st]) else []) s us"

context sim_chart
begin

abbreviation tr :: "'j sim_event \<Rightarrow> rstate \<Rightarrow> rstate" where
  "tr \<equiv> track up (sm_down J)"

lemma sim_step:
  assumes "H s (User u) h = Inr (r, h1)"
  shows "sim_view (if tr u s = s then h1 else sim_en add (tr u s) (sim_ex s h1)) = sim_move J u s (tr u s) (sim_view h)"
proof -
  consider (stay) "tr u s = s" "sim_view h1 = sim_view h"
    | (rise) "s = NotReady" "up u" "h1 = h\<lparr>htemp := St Ready\<rparr>"
    | (fall) w where "s = Ready" "sm_withdrawn J u = Some w" "h1 = h\<lparr>sm_last_status := w, htemp := St NotReady\<rparr>"
    using moves [OF assms] by (auto simp: sim_moves_def)
  then show ?thesis
  proof cases
    case stay
    then show ?thesis by (cases s) simp_all
  next
    case rise
    then show ?thesis
      using sim_view_enter [of h1 J u] by (simp add: track_def add_quiet sim_view_quiet)
  next
    case fall
    then show ?thesis by (simp add: track_def sm_down_def sim_view_exit sim_view_quiet) (simp add: sim_view_def inits_def)
  qed
qed

lemma left_statuses_Cons:
  "left_statuses up J s (u # us) =
     (if s = Ready then (case sm_withdrawn J u of None \<Rightarrow> [] | Some st \<Rightarrow> [st]) else []) @ left_statuses up J (tr u s) us"
  by (simp add: left_statuses_def)

lemma left_statuses_nonempty: "fold tr us Ready = NotReady \<Longrightarrow> left_statuses up J Ready us \<noteq> []"
  by (induction us) (auto simp: left_statuses_Cons track_def sm_down_def split: option.splits if_splits)

lemma fold_move:
  "rf = (s = Ready) \<Longrightarrow> (s = Ready \<longrightarrow> st = SERVICE_AVAILABLE \<and> cbs = [] \<and> rep) \<Longrightarrow>
   fold (\<lambda>u (s, v). (tr u s, sim_move J u s (tr u s) v)) us (s, rf, st, cbs, rep, calls) =
     (let t = fold tr us s; ever = list_ex up us in
      (t, t = Ready, if t = Ready then SERVICE_AVAILABLE else last (st # left_statuses up J s us),
       if ever then [] else cbs, rep \<or> ever, calls @ (if ever then map (\<lambda>c. Sim_Init_Called c SERVICE_AVAILABLE) cbs else [])))"
proof (induction us arbitrary: s rf st cbs rep calls)
  case Nil
  then show ?case by (auto simp: Let_def left_statuses_def)
next
  case (Cons u us)
  show ?case
  proof (cases "tr u s = s")
    case True
    moreover have "\<not> up u" if "s = NotReady" using that True by (auto simp: track_def split: if_splits)
    moreover have "sm_withdrawn J u = None" if "s = Ready" using that True by (auto simp: track_def sm_down_def split: if_splits)
    ultimately show ?thesis using Cons.IH [OF Cons.prems] Cons.prems
      by (cases s) (auto simp: Let_def left_statuses_Cons)
  next
    case False
    show ?thesis
    proof (cases s)
      case NotReady
      with False have u: "tr u s = Ready" "up u" by (auto simp: track_def split: if_splits)
      have "last (SERVICE_AVAILABLE # left_statuses up J Ready us) = last (st # left_statuses up J Ready us)" if "fold tr us Ready \<noteq> Ready"
        using that left_statuses_nonempty [of us] by (cases "fold tr us Ready") auto
      with NotReady u Cons.IH [of True Ready SERVICE_AVAILABLE "[]" True] Cons.prems
      show ?thesis by (simp add: Let_def left_statuses_Cons)
    next
      case Ready
      with False obtain w where u: "tr u s = NotReady" "sm_withdrawn J u = Some w"
        by (auto simp: track_def sm_down_def split: if_splits)
      with Ready Cons.IH [of False NotReady w "[]" rep calls] Cons.prems show ?thesis
        by (simp add: Let_def left_statuses_Cons)
    qed
  qed
qed

theorem sim_run:
  assumes "kMaxNest < n" "hstate h = St NotReady" "dispatch_all n H us h = Inr h'"
    "sim_view h = (False, SERVICE_UNAVAILABLE, cbs, False, [])"
  shows "sim_view h' = (let t = fold tr us NotReady; ever = list_ex up us in
    (t = Ready, if t = Ready then SERVICE_AVAILABLE else last (SERVICE_UNAVAILABLE # left_statuses up J NotReady us),
     if ever then [] else cbs, ever, if ever then map (\<lambda>c. Sim_Init_Called c SERVICE_AVAILABLE) cbs else []))"
proof -
  have "sim_view h' = snd (fold (\<lambda>u (s, v). (tr u s, sim_move J u s (tr u s) v)) us (NotReady, sim_view h))"
    by (rule dispatch_view [OF assms(1) _ _ _ assms(2,3)]) (simp_all only: sim_view_quiet sim_step)
  with fold_move [of False NotReady SERVICE_UNAVAILABLE cbs False us "[]"] assms(4) show ?thesis
    by (simp add: Let_def)
qed

end

fun sim_up :: "'j json_lib \<Rightarrow> 'j sim_event \<Rightarrow> bool" where
  "sim_up J (Sim_ReadinessEvt_Signal env) \<longleftrightarrow> readiness_status J ''AVAILABLE'' env = Inr True"
| "sim_up J _ \<longleftrightarrow> False"

text \<open>Events whose payload has the promised types, and a chart that reads no others.\<close>

fun sim_typed :: "'j json_lib \<Rightarrow> 'j sim_event \<Rightarrow> bool" where
  "sim_typed J (Sim_ReadinessEvt_Signal env) \<longleftrightarrow> pred_option (string_fields J [''status'']) (env_data env)"
| "sim_typed J (CardStateEvt_Signal env) \<longleftrightarrow> pred_option (string_fields J [''cardState'', ''appState'']) (env_data env)"
| "sim_typed J (SubInfoChangedEvt_Signal env) \<longleftrightarrow> pred_option (string_fields J [''iccid'', ''imsi'']) (env_data env)"
| "sim_typed J _ \<longleftrightarrow> True"

lemma sm_readiness_total:
  "pred_option (string_fields J [''status'']) (env_data env) \<Longrightarrow> \<exists>r h'. sm_readiness J env h = Inr (r, h')"
  using string_field_value [of J "[''status'']" _ "''status''"]
  by (fastforce simp: sm_readiness_def to_st_def split: option.splits)

end
