(* ===== verification/Sim_Card.thy ===== *)
theory Sim_Card
  imports Sim_Shell
begin

text \<open>
  \<open>component/sim/CardManager.{hpp,cpp}\<close> and the state of \<open>SimCard.{hpp,cpp}\<close>: the card of one slot,
  its presence as reported to the multi-SIM manager, power requests.
\<close>

section \<open>Data\<close>

definition wireToCardState :: "string \<Rightarrow> card_state" where
  "wireToCardState s =
     (if s = ''ABSENT'' then CARDSTATE_ABSENT
      else if s = ''PRESENT'' then CARDSTATE_PRESENT
      else if s = ''ERROR'' then CARDSTATE_ERROR
      else if s = ''RESTRICTED'' then CARDSTATE_RESTRICTED
      else CARDSTATE_UNKNOWN)"

fun cardStateToWire :: "card_state \<Rightarrow> string" where
  "cardStateToWire CARDSTATE_ABSENT = ''ABSENT''"
| "cardStateToWire CARDSTATE_PRESENT = ''PRESENT''"
| "cardStateToWire CARDSTATE_ERROR = ''ERROR''"
| "cardStateToWire CARDSTATE_RESTRICTED = ''RESTRICTED''"
| "cardStateToWire CARDSTATE_UNKNOWN = ''UNKNOWN''"

definition wireToAppState :: "string \<Rightarrow> app_state" where
  "wireToAppState s =
     (if s = ''READY'' then APPSTATE_READY else if s = ''ILLEGAL'' then APPSTATE_ILLEGAL else APPSTATE_UNKNOWN)"

definition appStateToWire :: "app_state \<Rightarrow> string" where
  "appStateToWire s =
     (case s of APPSTATE_READY \<Rightarrow> ''READY'' | APPSTATE_ILLEGAL \<Rightarrow> ''ILLEGAL'' | _ \<Rightarrow> ''UNKNOWN'')"

text \<open>\<open>SimulaCard\<close> with the state of its one application.\<close>

record sim_card =
  card_slotId :: int
  card_cardState :: card_state
  card_appState :: app_state

definition newCard :: "int \<Rightarrow> card_state \<Rightarrow> app_state \<Rightarrow> sim_card" where
  "newCard slotId cs as = \<lparr>card_slotId = slotId, card_cardState = cs, card_appState = as\<rparr>"

definition card_setState :: "card_state \<Rightarrow> sim_card \<Rightarrow> sim_card" where
  "card_setState s c = c\<lparr>card_cardState := s\<rparr>"

definition app_setAppState :: "app_state \<Rightarrow> sim_card \<Rightarrow> sim_card" where
  "app_setAppState s c = c\<lparr>card_appState := s\<rparr>"

text \<open>\<open>getApplications\<close>: the states of the applications it returns.\<close>

definition card_getApplications :: "sim_card \<Rightarrow> app_state list" where
  "card_getApplications c = (if card_cardState c \<noteq> CARDSTATE_PRESENT then [] else [card_appState c])"

record 'j card_manager = "'j sim_manager" +
  cd_card :: sim_card
  cd_last_present :: bool
  cd_presence_cb :: "nat option"

section \<open>Operations\<close>

definition newCardManager :: "int \<Rightarrow> nat option \<Rightarrow> 'j card_manager" where
  "newCardManager slotId initCb =
     \<lparr>hstate = Top_St, htemp = Top_St, last_ignored = False, trace_fn = False, probe_fn = False, instr_log = [],
      ao_name = ''CardManager'', ao_inst = False, ao_q = [], ao_running = False,
      sm_conn_token = 0, sm_slotId = slotId, sm_init_cbs = (case initCb of None \<Rightarrow> [] | Some c \<Rightarrow> [c]),
      sm_init_reported = False, sm_ready_flag = False, sm_last_status = SERVICE_UNAVAILABLE,
      sm_listeners = [], sm_live = [], sm_io = \<lparr>io_counter = 0, io_now = 0, io_out = []\<rparr>,
      cd_card = newCard slotId CARDSTATE_ABSENT APPSTATE_UNKNOWN, cd_last_present = False, cd_presence_cb = None\<rparr>"

definition card_addInitCallback :: "nat option \<Rightarrow> 'j card_manager \<Rightarrow> 'j card_manager" where
  "card_addInitCallback = sm_addInitCallback"

definition card_fireInitCallbacks :: "service_status \<Rightarrow> 'j card_manager \<Rightarrow> 'j card_manager" where
  "card_fireInitCallbacks = sm_fireInitCallbacks"

definition card_broadcastToListeners :: "sim_note \<Rightarrow> 'j card_manager \<Rightarrow> 'j card_manager" where
  "card_broadcastToListeners = sm_broadcastToListeners"

definition resyncCardState :: "'j sim_ext \<Rightarrow> 'j card_manager \<Rightarrow> 'j card_manager" where
  "resyncCardState S h =
     sm_request S (get_state_req S) ''sim.get_state.rsp'' (slot_data (sx_json S) (sm_slotId h)) K_Card_State h"

text \<open>Its response; the manager is alive (the callback holds a weak reference).\<close>

definition card_state_response :: "'j envelope option \<Rightarrow> 'j card_manager \<Rightarrow> 'j card_manager" where
  "card_state_response rsp h =
     (case good_data rsp of None \<Rightarrow> h | Some d \<Rightarrow> post_fifo (CardStateEvt_Signal (the rsp)) h)"

definition present_state :: "card_state \<Rightarrow> bool" where
  "present_state cs \<longleftrightarrow> cs \<noteq> CARDSTATE_ABSENT \<and> cs \<noteq> CARDSTATE_UNKNOWN"

definition cardIsPresent :: "'j card_manager \<Rightarrow> bool" where
  "cardIsPresent h \<longleftrightarrow> present_state (card_cardState (cd_card h))"

definition setPresenceChangedCb :: "nat option \<Rightarrow> 'j card_manager \<Rightarrow> 'j card_manager" where
  "setPresenceChangedCb cb h = h\<lparr>cd_presence_cb := cb\<rparr>"

definition notifyIfPresenceChanged :: "'j card_manager \<Rightarrow> 'j card_manager" where
  "notifyIfPresenceChanged h =
     (let now = cardIsPresent h in
      if now = cd_last_present h then h
      else let h = h\<lparr>cd_last_present := now\<rparr> in
        (case cd_presence_cb h of None \<Rightarrow> h | Some cb \<Rightarrow> sm_emit (Presence_Called cb now) h))"

definition card_isSubsystemReady :: "'j card_manager \<Rightarrow> bool" where
  "card_isSubsystemReady h = sm_ready_flag h"

definition card_getServiceStatus :: "'j card_manager \<Rightarrow> service_status" where
  "card_getServiceStatus h = sm_last_status h"

text \<open>The getters return the status and what they write or return beside it.\<close>

definition card_getSlotCount :: "'j card_manager \<Rightarrow> api_status \<times> int option" where
  "card_getSlotCount h = (if \<not> sm_ready_flag h then (NOTREADY, None) else (SUCCESS, Some 1))"

definition card_getSlotIds :: "'j card_manager \<Rightarrow> api_status \<times> int list option" where
  "card_getSlotIds h = (if \<not> sm_ready_flag h then (NOTREADY, None) else (SUCCESS, Some [sm_slotId h]))"

definition getCard :: "int \<Rightarrow> 'j card_manager \<Rightarrow> api_status \<times> sim_card option" where
  "getCard slotId h =
     (if \<not> sm_ready_flag h then (NOTREADY, None)
      else if \<not> sm_addressed slotId h then (NOSUCH, None)
      else (SUCCESS, if \<not> cardIsPresent h then None else Some (cd_card h)))"

definition cardPowerUp :: "int \<Rightarrow> nat option \<Rightarrow> 'j card_manager \<Rightarrow> api_status \<times> 'j card_manager" where
  "cardPowerUp slotId cb h =
     (if \<not> sm_ready_flag h then (NOTREADY, h)
      else if \<not> sm_addressed slotId h then (NOSUCH, h)
      else (SUCCESS, post_fifo (CardPowerUp_Signal True cb) h))"

definition cardPowerDown :: "int \<Rightarrow> nat option \<Rightarrow> 'j card_manager \<Rightarrow> api_status \<times> 'j card_manager" where
  "cardPowerDown slotId cb h =
     (if \<not> sm_ready_flag h then (NOTREADY, h)
      else if \<not> sm_addressed slotId h then (NOSUCH, h)
      else (SUCCESS, post_fifo (CardPowerDown_Signal False cb) h))"

definition card_registerListener :: "nat \<Rightarrow> 'j card_manager \<Rightarrow> api_status \<times> 'j card_manager" where
  "card_registerListener l h = (SUCCESS, h\<lparr>sm_listeners := sm_listeners h @ [l]\<rparr>)"

definition card_removeListener :: "nat \<Rightarrow> 'j card_manager \<Rightarrow> api_status \<times> 'j card_manager" where
  "card_removeListener l h = (SUCCESS, h\<lparr>sm_listeners := without_listener l (sm_live h) (sm_listeners h)\<rparr>)"

section \<open>State handlers\<close>

fun CardNotReady_St :: "'j sim_ext \<Rightarrow> 'j sim_event event \<Rightarrow> 'j card_manager \<Rightarrow> (status \<times> 'j card_manager) result" where
  "CardNotReady_St S Entry_Signal h = Inr (HANDLED, h)"
| "CardNotReady_St S Exit_Signal h = Inr (HANDLED, h)"
| "CardNotReady_St S (User (Sim_ReadinessEvt_Signal env)) h =
     bindE (readiness_status (sx_json S) ''AVAILABLE'' env) (\<lambda>up.
       Inr (if up then to_st (St Ready) h else (HANDLED, h)))"
| "CardNotReady_St S (User (Sim_BridgeConnectivityChanged_Signal b)) h = Inr (HANDLED, h)"
| "CardNotReady_St S (User (CardPowerUp_Signal p cb)) h = Inr (HANDLED, h)"
| "CardNotReady_St S (User (CardPowerDown_Signal p cb)) h = Inr (HANDLED, h)"
| "CardNotReady_St S _ h = Inr (super_st Top_St h)"

definition cardStateEvt :: "'j sim_ext \<Rightarrow> 'j envelope \<Rightarrow> 'j card_manager \<Rightarrow> (status \<times> 'j card_manager) result" where
  "cardStateEvt S env h =
     (case env_data env of
        None \<Rightarrow> Inr (HANDLED, h)
      | Some d \<Rightarrow>
          bindE (value_string (sx_json S) d ''cardState'') (\<lambda>cs.
          bindE (value_string (sx_json S) d ''appState'') (\<lambda>as.
            let h = h\<lparr>cd_card := card_setState (wireToCardState cs) (cd_card h)\<rparr>;
                h = h\<lparr>cd_card := app_setAppState (wireToAppState as) (cd_card h)\<rparr>;
                h = notifyIfPresenceChanged h
            in Inr (HANDLED, card_broadcastToListeners (On_Card_Info (sm_slotId h)) h))))"

definition cardPower :: "'j sim_ext \<Rightarrow> bool \<Rightarrow> nat option \<Rightarrow> 'j card_manager \<Rightarrow> 'j card_manager" where
  "cardPower S powerOn cb h =
     (let J = sx_json S in
      sm_request S (set_power_req S) ''sim.set_power.rsp''
        (j_set J ''powerOn'' (j_of_bool J powerOn) (slot_data J (sm_slotId h))) (K_Set_Power cb) h)"

definition set_power_response :: "nat option \<Rightarrow> 'j envelope option \<Rightarrow> 'j card_manager \<Rightarrow> 'j card_manager" where
  "set_power_response cb rsp h =
     (case cb of
        None \<Rightarrow> h
      | Some c \<Rightarrow> sm_emit (Sim_Response_Called c (if has_error rsp then EC_OPERATION_TIMEOUT else EC_SUCCESS)) h)"

fun CardReady_St :: "'j sim_ext \<Rightarrow> 'j sim_event event \<Rightarrow> 'j card_manager \<Rightarrow> (status \<times> 'j card_manager) result" where
  "CardReady_St S Entry_Signal h = Inr (HANDLED, resyncCardState S (sm_enterReady h))"
| "CardReady_St S Exit_Signal h = Inr (HANDLED, sm_exitReady h)"
| "CardReady_St S (User (Sim_ReadinessEvt_Signal env)) h = sm_readiness (sx_json S) env h"
| "CardReady_St S (User (Sim_BridgeConnectivityChanged_Signal b)) h = Inr (sm_connectivity b h)"
| "CardReady_St S (User (CardStateEvt_Signal env)) h = cardStateEvt S env h"
| "CardReady_St S (User (CardPowerUp_Signal p cb)) h = Inr (HANDLED, cardPower S p cb h)"
| "CardReady_St S (User (CardPowerDown_Signal p cb)) h = Inr (HANDLED, cardPower S p cb h)"
| "CardReady_St S _ h = Inr (super_st Top_St h)"

fun card_handlers :: "'j sim_ext \<Rightarrow> rstate \<Rightarrow> 'j sim_event event \<Rightarrow> 'j card_manager \<Rightarrow> (status \<times> 'j card_manager) result" where
  "card_handlers S NotReady e h = CardNotReady_St S e h"
| "card_handlers S Ready e h = CardReady_St S e h"

section \<open>Lifecycle\<close>

definition card_start :: "nat \<Rightarrow> 'j sim_ext \<Rightarrow> 'j card_manager \<Rightarrow> 'j card_manager result" where
  "card_start n S h =
     (if ao_running h then Inr h
      else bindE (start_at n (card_handlers S) (St NotReady) (h\<lparr>ao_inst := True\<rparr>)) (\<lambda>h.
        let h = sm_emit (Sim_Subscribed (subsys_ready_card_ind S) ''sim.subsys_ready_card.ind'') h;
            h = sm_emit (Sim_Subscribed (card_state_ind S) ''sim.card_state.ind'') h;
            h = sm_emit (Sim_Connectivity_Subscribed (sx_token S)) h
        in Inr (h\<lparr>sm_conn_token := sx_token S\<rparr>)))"

definition handleCardInd :: "'j sim_ext \<Rightarrow> string \<Rightarrow> 'j envelope \<Rightarrow> 'j card_manager \<Rightarrow> 'j card_manager" where
  "handleCardInd S topic env =
     post_fifo (if topic = subsys_ready_card_ind S then Sim_ReadinessEvt_Signal env else CardStateEvt_Signal env)"

definition card_unsubscribeFromBridge :: "'j sim_ext \<Rightarrow> 'j card_manager \<Rightarrow> 'j card_manager" where
  "card_unsubscribeFromBridge S h =
     (let h = sm_emit (Sim_Unsubscribed (subsys_ready_card_ind S)) h;
          h = sm_emit (Sim_Unsubscribed (card_state_ind S)) h;
          h = sm_emit (Sim_Connectivity_Unsubscribed (sm_conn_token h)) h
      in sm_emit Sim_Bridge_Drained (h\<lparr>sm_conn_token := 0\<rparr>))"

definition card_destroy :: "nat \<Rightarrow> nat \<Rightarrow> 'j sim_ext \<Rightarrow> 'j card_manager \<Rightarrow> 'j card_manager result" where
  "card_destroy k n S h = stop k n (card_handlers S) False (card_unsubscribeFromBridge S h)"

section \<open>The chart\<close>

text \<open>The card state that an event carries; the presence it implies is compared with the last one.\<close>

definition card_update :: "card_state \<Rightarrow> app_state \<Rightarrow> 'j card_manager \<Rightarrow> 'j card_manager" where
  "card_update cs as h =
     (let h = notifyIfPresenceChanged (h\<lparr>cd_card := (cd_card h)\<lparr>card_cardState := cs, card_appState := as\<rparr>\<rparr>)
      in sm_broadcastToListeners (On_Card_Info (sm_slotId h)) h)"

lemma cardStateEvt_Inr:
  assumes "cardStateEvt S env h = Inr (r, h')"
  shows "r = HANDLED \<and> (case env_data env of None \<Rightarrow> h' = h
    | Some d \<Rightarrow> \<exists>cs as. value_string (sx_json S) d ''cardState'' = Inr cs \<and> h' = card_update (wireToCardState cs) as h)"
  using assms
  by (auto simp: cardStateEvt_def card_update_def card_setState_def app_setAppState_def card_broadcastToListeners_def
      bindE_eq_Inr Let_def split: option.splits)

lemma card_update_posts [simp]: "posts_only g (card_update cs as h) = posts_only g h"
  by (simp add: card_update_def notifyIfPresenceChanged_def Let_def split: option.splits)
    (simp add: posts_only_def)

lemma card_update_view [simp]: "sim_view (card_update cs as h) = sim_view h"
  by (simp add: card_update_def notifyIfPresenceChanged_def Let_def sim_view_quiet split: option.splits)
    (simp add: sim_view_def inits_def)

lemma card_quiet [simp]:
  "posts_only g (resyncCardState S h) = posts_only g h" "posts_only g (cardPower S p cb h) = posts_only g h"
  "sim_view (resyncCardState S h) = sim_view h" "sim_view (cardPower S p cb h) = sim_view h"
  by (simp_all add: resyncCardState_def cardPower_def Let_def sim_view_quiet)

lemma card_moves: "card_handlers S s (User u) h = Inr (r, h') \<Longrightarrow> sim_moves (sx_json S) (sim_up (sx_json S)) s u h r h'"
proof (cases s)
  case NotReady
  assume "card_handlers S s (User u) h = Inr (r, h')"
  with NotReady show ?thesis
    by (cases u) (auto simp: sim_moves_def track_def to_st_def super_st_def bindE_eq_Inr sim_view_quiet split: if_splits)
next
  case Ready
  assume a: "card_handlers S s (User u) h = Inr (r, h')"
  show ?thesis
  proof (cases u)
    case (CardStateEvt_Signal env)
    with a Ready cardStateEvt_Inr [of S env h r h'] show ?thesis
      by (intro sim_moves_quiet) (auto simp: track_def sm_down_def split: option.splits)
  next
    case (Sim_ReadinessEvt_Signal env)
    with a Ready show ?thesis by (simp add: sim_moves_readiness)
  next
    case (Sim_BridgeConnectivityChanged_Signal b)
    with a Ready show ?thesis by (simp add: sim_moves_connectivity)
  qed (use a Ready in \<open>auto simp: sim_moves_def track_def sm_down_def super_st_def sim_view_quiet\<close>)
qed

interpretation card: sim_chart "card_handlers S" "resyncCardState S" "sim_up (sx_json S)" "sx_json S"
  for S :: "'j sim_ext"
proof unfold_locales
  fix s and h g :: "'j card_manager" and u r h' x
  show "card_handlers S s None_Signal h = Inr (super_st Top_St h)" "card_handlers S s Init_Signal h = Inr (super_st Top_St h)"
    "card_handlers S s Entry_Signal h = Inr (HANDLED, sim_en (resyncCardState S) s h)"
    "card_handlers S s Exit_Signal h = Inr (HANDLED, sim_ex s h)"
    by (cases s; simp)+
  show "resyncCardState S (h\<lparr>htemp := x\<rparr>) = (resyncCardState S h)\<lparr>htemp := x\<rparr>" by (simp add: resyncCardState_def)
qed (simp_all add: card_moves)

section \<open>Presence of the card\<close>

text \<open>The card states that the handled events report.\<close>

fun event_card :: "'j json_lib \<Rightarrow> 'j sim_event \<Rightarrow> card_state list" where
  "event_card J (CardStateEvt_Signal env) =
     (case env_data env of
        None \<Rightarrow> []
      | Some d \<Rightarrow> (case value_string J d ''cardState'' of Inl _ \<Rightarrow> [] | Inr s \<Rightarrow> [wireToCardState s]))"
| "event_card J _ = []"

definition card_seen :: "'j sim_ext \<Rightarrow> rstate \<Rightarrow> 'j sim_event list \<Rightarrow> card_state list" where
  "card_seen S s us =
     along (track (sim_up (sx_json S)) (sm_down (sx_json S))) (\<lambda>s u. if s = Ready then event_card (sx_json S) u else []) s us"

text \<open>The values of a sequence that differ from the one before.\<close>

fun changes :: "'a \<Rightarrow> 'a list \<Rightarrow> 'a list" where
  "changes b [] = []"
| "changes b (x # xs) = (if x = b then [] else [x]) @ changes x xs"

fun presence_call :: "'j sim_effect \<Rightarrow> bool list" where
  "presence_call (Presence_Called c b) = [b]"
| "presence_call _ = []"

definition presence_calls :: "'j card_manager \<Rightarrow> bool list" where
  "presence_calls h = concat (map presence_call (io_out (sm_io h)))"

definition presence_view :: "'j card_manager \<Rightarrow> nat option \<times> bool \<times> card_state \<times> bool list" where
  "presence_view h = (cd_presence_cb h, cd_last_present h, card_cardState (cd_card h), presence_calls h)"

fun presence_step :: "card_state list \<Rightarrow> nat option \<times> bool \<times> card_state \<times> bool list
    \<Rightarrow> nat option \<times> bool \<times> card_state \<times> bool list" where
  "presence_step [cs] (cb, lp, _, calls) =
     (cb, present_state cs, cs, calls @ (if present_state cs = lp \<or> cb = None then [] else [present_state cs]))"
| "presence_step _ v = v"

lemma presence_view_quiet [simp]:
  "presence_view (h\<lparr>htemp := x\<rparr>) = presence_view h" "presence_view (erase h) = presence_view h"
  "presence_view (h\<lparr>ao_q := q\<rparr>) = presence_view h" "presence_view (h\<lparr>sm_last_status := st\<rparr>) = presence_view h"
  "presence_view (h\<lparr>sm_ready_flag := b\<rparr>) = presence_view h" "presence_view (h\<lparr>sm_init_cbs := cs\<rparr>) = presence_view h"
  "presence_view (h\<lparr>sm_init_reported := b\<rparr>) = presence_view h"
  "presence_call y = [] \<Longrightarrow> presence_view (sm_emit y h) = presence_view h"
  by (simp_all add: presence_view_def presence_calls_def erase_def sm_emit_def sm_do_def)

lemma presence_view_shared [simp]:
  "presence_view (sm_broadcastToListeners nt h) = presence_view h" "presence_view (sm_request S t sc d k h) = presence_view h"
  "presence_view (sm_enterReady h) = presence_view h" "presence_view (sm_exitReady h) = presence_view h"
  "presence_view (resyncCardState S h) = presence_view h" "presence_view (cardPower S p cb h) = presence_view h"
proof -
  have fire: "presence_view (fold (\<lambda>c. sm_emit (Sim_Init_Called c st)) cs h) = presence_view h" for st cs h
    by (induction cs arbitrary: h) simp_all
  show b: "presence_view (sm_broadcastToListeners nt h) = presence_view h" for nt h
    by (simp add: sm_broadcastToListeners_def Let_def)
  show r: "presence_view (sm_request S t sc d k h) = presence_view h" for t sc d k h
    by (simp add: sm_request_def presence_view_def presence_calls_def sm_do_def case_prod_unfold)
  show "presence_view (sm_enterReady h) = presence_view h" "presence_view (sm_exitReady h) = presence_view h"
    by (simp_all add: sm_enterReady_def sm_exitReady_def sm_fireInitCallbacks_def Let_def b fire)
  show "presence_view (resyncCardState S h) = presence_view h" "presence_view (cardPower S p cb h) = presence_view h"
    by (simp_all add: resyncCardState_def cardPower_def Let_def r)
qed

lemma presence_view_update: "presence_view (card_update cs as h) = presence_step [cs] (presence_view h)"
  by (auto simp: card_update_def notifyIfPresenceChanged_def cardIsPresent_def Let_def split: option.splits)
    (auto simp: presence_view_def presence_calls_def sm_emit_def sm_do_def)

lemma presence_handler:
  assumes "card_handlers S s (User u) h = Inr (r, h1)"
  shows "presence_view h1 = presence_step (if s = Ready then event_card (sx_json S) u else []) (presence_view h)"
proof (cases s)
  case NotReady
  with assms show ?thesis by (cases u) (auto simp: to_st_def super_st_def bindE_eq_Inr split: if_splits)
next
  case Ready
  show ?thesis
  proof (cases u)
    case (CardStateEvt_Signal env)
    with assms Ready cardStateEvt_Inr [of S env h r h1] show ?thesis
      by (cases "env_data env") (auto simp: presence_view_update)
  next
    case (Sim_ReadinessEvt_Signal env)
    with assms Ready sm_readiness_Inr [of "sx_json S" env h r h1] show ?thesis by (auto split: option.splits if_splits)
  qed (use assms Ready in \<open>auto simp: sm_connectivity_def to_st_def super_st_def split: if_splits\<close>)
qed

lemma event_card_short: "event_card J u = [] \<or> (\<exists>c. event_card J u = [c])"
  by (cases u) (auto split: option.splits sum.splits)

lemma presence_fold:
  "lp = present_state cs \<Longrightarrow>
   snd (fold (\<lambda>u (s, v). (track up dn u s, presence_step (if s = Ready then event_card J u else []) v)) us
      (s, Some p, lp, cs, calls)) =
     (let seen = along (track up dn) (\<lambda>s u. if s = Ready then event_card J u else []) s us; final = last (cs # seen) in
      (Some p, present_state final, final, calls @ changes lp (map present_state seen)))"
proof (induction us arbitrary: s lp cs calls)
  case (Cons u us)
  let ?e = "if s = Ready then event_card J u else []"
  consider "?e = []" | c where "?e = [c]" 
    using event_card_short [of J u] by (cases "s = Ready") (simp_all, blast)
  then show ?case
  proof cases
    case 1
    with Cons.IH [OF Cons.prems, of "track up dn u s" calls] show ?thesis by (simp add: Let_def)
  next
    case (2 c)
    with Cons.IH [OF refl, of "track up dn u s" c "calls @ (if present_state c = lp then [] else [present_state c])"]
    show ?thesis by (simp add: Let_def)
  qed
qed simp

text \<open>A manager whose presence callback was set before it was started, after the events \<open>us\<close>.\<close>

definition card_outcome :: "nat \<Rightarrow> 'j sim_ext \<Rightarrow> int \<Rightarrow> nat option \<Rightarrow> nat \<Rightarrow> 'j sim_event list \<Rightarrow> 'j card_manager result" where
  "card_outcome n S slot cb p us =
     bindE (card_start n S (setPresenceChangedCb (Some p) (newCardManager slot cb))) (\<lambda>h.
       dispatch_all n (card_handlers S) us h)"

lemma card_started:
  assumes "kMaxNest < n"
  shows "\<exists>h. card_start n S (setPresenceChangedCb (Some p) (newCardManager slot cb)) = Inr h \<and> hstate h = St NotReady \<and>
    sim_view h = (False, SERVICE_UNAVAILABLE, case cb of None \<Rightarrow> [] | Some c \<Rightarrow> [c], False, []) \<and>
    presence_view h = (Some p, False, CARDSTATE_ABSENT, []) \<and> sm_slotId h = slot"
proof -
  let ?h = "(setPresenceChangedCb (Some p) (newCardManager slot cb))\<lparr>ao_inst := True\<rparr> :: 'a card_manager"
  have "\<not> ao_running ?h" by (simp add: setPresenceChangedCb_def newCardManager_def)
  from card.shell_start [OF assms this, of S NotReady] obtain g where
    g: "start_at n (card_handlers S) (St NotReady) ?h = Inr g" "hstate g = St NotReady"
      "erase g = erase (?h\<lparr>trace_fn := True, probe_fn := True, hstate := Top_St, ao_running := True\<rparr>)" by auto
  have v: "sim_view g = sim_view (erase g)" "presence_view g = presence_view (erase g)" "sm_slotId g = sm_slotId (erase g)"
    by (simp_all add: sim_view_quiet) (simp add: erase_def)
  show ?thesis using g(1,2) v
    by (simp add: card_start_def g(3) Let_def sm_emit_def sm_do_def)
      (simp add: setPresenceChangedCb_def newCardManager_def sim_view_def inits_def presence_view_def presence_calls_def
        erase_def newCard_def present_state_def)
qed

lemma card_total:
  assumes "sim_typed (sx_json S) u"
  shows "\<exists>r h'. card_handlers S s (User u) h = Inr (r, h')"
proof (cases u)
  case (Sim_ReadinessEvt_Signal env)
  with assms readiness_status_total [of "sx_json S" env "''AVAILABLE''"] sm_readiness_total [of "sx_json S" env h]
  show ?thesis by (cases s) (auto simp: to_st_def)
next
  case (CardStateEvt_Signal env)
  have "\<exists>r h'. cardStateEvt S env h = Inr (r, h')"
  proof (cases "env_data env")
    case (Some d)
    with assms CardStateEvt_Signal have f: "string_fields (sx_json S) [''cardState'', ''appState''] d" by simp
    from string_field_value [OF f, of "''cardState''"] string_field_value [OF f, of "''appState''"] Some show ?thesis
      by (auto simp: cardStateEvt_def Let_def)
  qed (simp add: cardStateEvt_def)
  with CardStateEvt_Signal show ?thesis by (cases s) (auto simp: super_st_def)
qed (cases s; simp add: super_st_def sm_connectivity_def to_st_def)+

lemma card_outcome_total:
  assumes "kMaxNest < n" "list_all (sim_typed (sx_json S)) us"
  shows "\<exists>h h'. card_outcome n S slot cb p us = Inr h' \<and> hstate h = St NotReady \<and>
    dispatch_all n (card_handlers S) us h = Inr h' \<and>
    sim_view h = (False, SERVICE_UNAVAILABLE, case cb of None \<Rightarrow> [] | Some c \<Rightarrow> [c], False, []) \<and>
    presence_view h = (Some p, False, CARDSTATE_ABSENT, []) \<and> sm_slotId h = slot"
proof -
  from card_started [OF assms(1), of S p slot cb] obtain h where
    h: "card_start n S (setPresenceChangedCb (Some p) (newCardManager slot cb)) = Inr h" "hstate h = St NotReady"
      "sim_view h = (False, SERVICE_UNAVAILABLE, case cb of None \<Rightarrow> [] | Some c \<Rightarrow> [c], False, [])"
      "presence_view h = (Some p, False, CARDSTATE_ABSENT, [])" "sm_slotId h = slot" by blast
  from card.shell_dispatch_all_total [OF assms(1) h(2)] card_total assms(2) obtain h' where
    "dispatch_all n (card_handlers S) us h = Inr h'" by (metis list_all_iff)
  with h show ?thesis by (auto simp: card_outcome_def)
qed

section \<open>Properties\<close>

text \<open>C16: the presence of the card. Whatever well-typed events the card manager handles after its
  start, the presence callback is called with exactly the changes of presence, in order and
  starting from absent, over the card states handled while ready; and \<open>getCard\<close> returns the card
  when the manager is ready and the last of these states is a present one.\<close>

theorem card_presence_reported:
  assumes "kMaxNest < n" "list_all (sim_typed (sx_json S)) us"
  shows "\<exists>h'. card_outcome n S slot cb p us = Inr h' \<and>
    (let seen = map present_state (card_seen S NotReady us) in
     presence_calls h' = changes False seen \<and>
     getCard DEFAULT_SLOT_ID h' =
       (if \<not> sm_ready_flag h' then (NOTREADY, None)
        else (SUCCESS, if last (False # seen) then Some (cd_card h') else None)))"
proof -
  let ?J = "sx_json S"
  let ?step = "\<lambda>u s. presence_step (if s = Ready then event_card ?J u else [])"
  from card_outcome_total [OF assms, of slot cb p] obtain h h' where
    o: "card_outcome n S slot cb p us = Inr h'" and st: "hstate h = St NotReady"
    and d: "dispatch_all n (card_handlers S) us h = Inr h'" and v: "presence_view h = (Some p, False, CARDSTATE_ABSENT, [])"
    by blast
  have en: "presence_view (if t = s then g else sim_en (resyncCardState S) t (sim_ex s g)) = presence_view g"
    for t s and g :: "'a card_manager"
    by (cases t; cases s) simp_all
  have "presence_view h' = snd (fold (\<lambda>u (s, v). (track (sim_up ?J) (sm_down ?J) u s, ?step u s v)) us (NotReady, presence_view h))"
    by (rule card.dispatch_view [OF assms(1) _ _ _ st d]) (simp_all only: en presence_handler presence_view_quiet)
  with presence_fold [of False CARDSTATE_ABSENT "sim_up ?J" "sm_down ?J" ?J us NotReady p "[]"] v
  have "presence_calls h' = changes False (map present_state (card_seen S NotReady us))"
    "card_cardState (cd_card h') = last (CARDSTATE_ABSENT # card_seen S NotReady us)"
    by (simp_all add: Let_def card_seen_def presence_view_def present_state_def)
  moreover have "present_state (last (CARDSTATE_ABSENT # xs)) = last (False # map present_state xs)" for xs
    by (cases xs rule: rev_cases) (simp_all add: present_state_def)
  ultimately show ?thesis using o
    by (simp add: getCard_def sm_addressed_def cardIsPresent_def Let_def)
qed

definition demo_sim :: "jtree sim_ext" where
  "demo_sim = \<lparr>sx_json = tree_lib, subsys_ready_card_ind = ''a'', card_state_ind = ''b'', subsys_ready_sub_ind = ''c'',
     sub_info_changed_ind = ''d'', get_state_req = ''e'', set_power_req = ''f'', get_iccid_req = ''g'', get_imsi_req = ''h'',
     sx_pa_id = ''pa-1'', sx_token = 7\<rparr>"

definition demo_sim_env :: "jtree \<Rightarrow> jtree envelope" where
  "demo_sim_env d = fst (makeEventEnvelope 3 ''pa-1'' d 42)"

definition demo_sim_status :: "string \<Rightarrow> jtree sim_event" where
  "demo_sim_status s = Sim_ReadinessEvt_Signal (demo_sim_env (JObj [(''status'', JStr s)]))"

definition demo_card_state :: "string \<Rightarrow> jtree sim_event" where
  "demo_card_state s = CardStateEvt_Signal (demo_sim_env (JObj [(''cardState'', JStr s)]))"

definition demo_sim_events :: "jtree sim_event list" where
  "demo_sim_events = [demo_card_state ''ERROR'', demo_sim_status ''AVAILABLE'', demo_card_state ''PRESENT'',
     demo_card_state ''ERROR'', demo_card_state ''ABSENT'', demo_card_state ''PRESENT'']"

lemma demo_sim_typed: "list_all (sim_typed (sx_json demo_sim)) (demo_sim_events @ [demo_sim_status ''FAILED''])"
  by (simp add: demo_sim_events_def demo_card_state_def demo_sim_status_def demo_sim_env_def makeEventEnvelope_def
      nextCorrId_def string_fields_def demo_sim_def tree_lib_def)

lemma demo_card_seen:
  "card_seen demo_sim NotReady demo_sim_events = [CARDSTATE_PRESENT, CARDSTATE_ERROR, CARDSTATE_ABSENT, CARDSTATE_PRESENT]"
  by code_simp

theorem card_presence_reported_witness:
  "\<exists>h'. card_outcome 9 demo_sim 1 None 5 demo_sim_events = Inr h' \<and> presence_calls h' = [True, False, True]"
  using card_presence_reported [of 9 demo_sim demo_sim_events 1 None 5] demo_sim_typed
  by (auto simp: kMaxNest_def demo_card_seen Let_def present_state_def)

text \<open>What the card manager reports of itself. The ready flag says whether the last event that
  changed readiness raised it; the service status is then available, else it is the status left
  by the last withdrawal handled; every init callback is called exactly once, when the manager
  first becomes ready.\<close>

theorem card_status_follows_events:
  assumes "kMaxNest < n" "list_all (sim_typed (sx_json S)) us"
  shows "\<exists>h'. card_outcome n S slot cb p us = Inr h' \<and>
    (let ready = (fold (track (sim_up (sx_json S)) (sm_down (sx_json S))) us NotReady = Ready) in
     card_isSubsystemReady h' = ready \<and>
     card_getServiceStatus h' = (if ready then SERVICE_AVAILABLE
       else last (SERVICE_UNAVAILABLE # left_statuses (sim_up (sx_json S)) (sx_json S) NotReady us)) \<and>
     inits h' = (if list_ex (sim_up (sx_json S)) us then map (\<lambda>c. Sim_Init_Called c SERVICE_AVAILABLE) (case cb of None \<Rightarrow> [] | Some c \<Rightarrow> [c])
       else []))"
proof -
  from card_outcome_total [OF assms, of slot cb p] obtain h h' where
    o: "card_outcome n S slot cb p us = Inr h'" and st: "hstate h = St NotReady"
    and d: "dispatch_all n (card_handlers S) us h = Inr h'"
    and v: "sim_view h = (False, SERVICE_UNAVAILABLE, case cb of None \<Rightarrow> [] | Some c \<Rightarrow> [c], False, [])" by blast
  from card.sim_run [OF assms(1) st d v] o show ?thesis
    by (simp add: sim_view_def Let_def card_isSubsystemReady_def card_getServiceStatus_def)
qed

theorem card_status_follows_events_witness:
  "\<exists>h'. card_outcome 9 demo_sim 1 (Some 2) 5 (demo_sim_events @ [demo_sim_status ''FAILED'']) = Inr h' \<and>
     card_getServiceStatus h' = SERVICE_FAILED \<and> inits h' = [Sim_Init_Called 2 SERVICE_AVAILABLE]"
proof -
  have run: "fold (track (sim_up (sx_json demo_sim)) (sm_down (sx_json demo_sim))) (demo_sim_events @ [demo_sim_status ''FAILED'']) NotReady = NotReady"
    "left_statuses (sim_up (sx_json demo_sim)) (sx_json demo_sim) NotReady (demo_sim_events @ [demo_sim_status ''FAILED'']) = [SERVICE_FAILED]"
    "list_ex (sim_up (sx_json demo_sim)) (demo_sim_events @ [demo_sim_status ''FAILED''])"
    by code_simp+
  from card_status_follows_events [OF _ demo_sim_typed, of 9 1 "Some 2" 5] run show ?thesis
    by (auto simp: kMaxNest_def Let_def)
qed

end
