(* ===== verification/Sim_Subscription.thy ===== *)
theory Sim_Subscription
  imports Sim_Shell
begin

text \<open>
  \<open>component/sim/SubscriptionManager.{hpp,cpp}\<close> and \<open>Subscription.{hpp,cpp}\<close>: the identifiers of the
  subscription, which two requests fetch when the manager becomes ready. Each fetch has a shared
  accumulator; \<open>sb_accs\<close> is the store of accumulators.
\<close>

section \<open>Data\<close>

record sim_subscription =
  sub_slotId :: int
  sub_iccid :: string
  sub_imsi :: string

definition newSubscription :: "int \<Rightarrow> string \<Rightarrow> string \<Rightarrow> sim_subscription" where
  "newSubscription slotId iccid imsi = \<lparr>sub_slotId = slotId, sub_iccid = iccid, sub_imsi = imsi\<rparr>"

definition setIds :: "string \<Rightarrow> string \<Rightarrow> sim_subscription \<Rightarrow> sim_subscription" where
  "setIds iccid imsi s = s\<lparr>sub_iccid := iccid, sub_imsi := imsi\<rparr>"

text \<open>\<open>Accum\<close> of \<open>resyncSubInfo_\<close>.\<close>

record accum =
  acc_iccid :: "string option"
  acc_imsi :: "string option"

record 'j sub_manager = "'j sim_manager" +
  sb_subscription :: sim_subscription
  sb_accs :: "accum list"

section \<open>Operations\<close>

definition newSubscriptionManager :: "int \<Rightarrow> nat option \<Rightarrow> 'j sub_manager" where
  "newSubscriptionManager slotId initCb =
     \<lparr>hstate = Top_St, htemp = Top_St, last_ignored = False, trace_fn = False, probe_fn = False, instr_log = [],
      ao_name = ''SubscriptionManager'', ao_inst = False, ao_q = [], ao_running = False,
      sm_conn_token = 0, sm_slotId = slotId, sm_init_cbs = (case initCb of None \<Rightarrow> [] | Some c \<Rightarrow> [c]),
      sm_init_reported = False, sm_ready_flag = False, sm_last_status = SERVICE_UNAVAILABLE,
      sm_listeners = [], sm_live = [], sm_io = \<lparr>io_counter = 0, io_now = 0, io_out = []\<rparr>,
      sb_subscription = newSubscription slotId [] [], sb_accs = []\<rparr>"

definition sub_addInitCallback :: "nat option \<Rightarrow> 'j sub_manager \<Rightarrow> 'j sub_manager" where
  "sub_addInitCallback = sm_addInitCallback"

definition sub_fireInitCallbacks :: "service_status \<Rightarrow> 'j sub_manager \<Rightarrow> 'j sub_manager" where
  "sub_fireInitCallbacks = sm_fireInitCallbacks"

definition sub_broadcastToListeners :: "sim_note \<Rightarrow> 'j sub_manager \<Rightarrow> 'j sub_manager" where
  "sub_broadcastToListeners = sm_broadcastToListeners"

definition resyncSubInfo :: "'j sim_ext \<Rightarrow> 'j sub_manager \<Rightarrow> 'j sub_manager" where
  "resyncSubInfo S h =
     (let acc = length (sb_accs h);
          h = h\<lparr>sb_accs := sb_accs h @ [\<lparr>acc_iccid = None, acc_imsi = None\<rparr>]\<rparr>;
          dat = slot_data (sx_json S) (sm_slotId h);
          h = sm_request S (get_iccid_req S) ''sim.get_iccid.rsp'' dat (K_Iccid acc) h
      in sm_request S (get_imsi_req S) ''sim.get_imsi.rsp'' dat (K_Imsi acc) h)"

text \<open>The lambda \<open>complete\<close>: the second of the two responses posts the update.\<close>

definition sub_info_env :: "'j json_lib \<Rightarrow> string \<Rightarrow> string \<Rightarrow> 'j envelope" where
  "sub_info_env J iccid imsi =
     \<lparr>env_v = 1, env_corrId = [], env_ts = 0, env_src = [], env_dest = None,
      env_data = Some (j_set J ''imsi'' (j_of_string J imsi) (j_set J ''iccid'' (j_of_string J iccid) (j_object J))),
      env_error = None\<rparr>"

definition sub_complete :: "'j sim_ext \<Rightarrow> nat \<Rightarrow> 'j sub_manager \<Rightarrow> 'j sub_manager" where
  "sub_complete S acc h =
     (case (acc_iccid (sb_accs h ! acc), acc_imsi (sb_accs h ! acc)) of
        (Some iccid, Some imsi) \<Rightarrow> post_fifo (SubInfoChangedEvt_Signal (sub_info_env (sx_json S) iccid imsi)) h
      | _ \<Rightarrow> h)"

definition response_id :: "'j json_lib \<Rightarrow> string \<Rightarrow> 'j envelope option \<Rightarrow> string result" where
  "response_id J k rsp = (case good_data rsp of None \<Rightarrow> Inr [] | Some d \<Rightarrow> value_string J d k)"

text \<open>The response callbacks; \<open>False\<close> when one throws.\<close>

definition iccid_response :: "'j sim_ext \<Rightarrow> nat \<Rightarrow> 'j envelope option \<Rightarrow> 'j sub_manager \<Rightarrow> bool \<times> 'j sub_manager" where
  "iccid_response S acc rsp h =
     (case response_id (sx_json S) ''iccid'' rsp of
        Inl _ \<Rightarrow> (False, h)
      | Inr s \<Rightarrow> (True, sub_complete S acc (h\<lparr>sb_accs := (sb_accs h)[acc := (sb_accs h ! acc)\<lparr>acc_iccid := Some s\<rparr>]\<rparr>)))"

definition imsi_response :: "'j sim_ext \<Rightarrow> nat \<Rightarrow> 'j envelope option \<Rightarrow> 'j sub_manager \<Rightarrow> bool \<times> 'j sub_manager" where
  "imsi_response S acc rsp h =
     (case response_id (sx_json S) ''imsi'' rsp of
        Inl _ \<Rightarrow> (False, h)
      | Inr s \<Rightarrow> (True, sub_complete S acc (h\<lparr>sb_accs := (sb_accs h)[acc := (sb_accs h ! acc)\<lparr>acc_imsi := Some s\<rparr>]\<rparr>)))"

definition sub_isSubsystemReady :: "'j sub_manager \<Rightarrow> bool" where
  "sub_isSubsystemReady h = sm_ready_flag h"

definition sub_getServiceStatus :: "'j sub_manager \<Rightarrow> service_status" where
  "sub_getServiceStatus h = sm_last_status h"

definition getSubscription :: "int \<Rightarrow> 'j sub_manager \<Rightarrow> api_status \<times> sim_subscription option" where
  "getSubscription slotId h =
     (if \<not> sm_ready_flag h then (NOTREADY, None)
      else if \<not> sm_addressed slotId h then (NOSUCH, None)
      else (SUCCESS, Some (sb_subscription h)))"

definition getAllSubscriptions :: "'j sub_manager \<Rightarrow> api_status \<times> sim_subscription list" where
  "getAllSubscriptions h = (if \<not> sm_ready_flag h then (NOTREADY, []) else (SUCCESS, [sb_subscription h]))"

definition sub_registerListener :: "nat \<Rightarrow> 'j sub_manager \<Rightarrow> api_status \<times> 'j sub_manager" where
  "sub_registerListener l h = (SUCCESS, h\<lparr>sm_listeners := sm_listeners h @ [l]\<rparr>)"

definition sub_removeListener :: "nat \<Rightarrow> 'j sub_manager \<Rightarrow> api_status \<times> 'j sub_manager" where
  "sub_removeListener l h = (SUCCESS, h\<lparr>sm_listeners := without_listener l (sm_live h) (sm_listeners h)\<rparr>)"

section \<open>State handlers\<close>

fun SubNotReady_St :: "'j sim_ext \<Rightarrow> 'j sim_event event \<Rightarrow> 'j sub_manager \<Rightarrow> (status \<times> 'j sub_manager) result" where
  "SubNotReady_St S Entry_Signal h = Inr (HANDLED, h)"
| "SubNotReady_St S Exit_Signal h = Inr (HANDLED, h)"
| "SubNotReady_St S (User (Sim_ReadinessEvt_Signal env)) h =
     bindE (readiness_status (sx_json S) ''AVAILABLE'' env) (\<lambda>up.
       Inr (if up then to_st (St Ready) h else (HANDLED, h)))"
| "SubNotReady_St S (User (Sim_BridgeConnectivityChanged_Signal b)) h = Inr (HANDLED, h)"
| "SubNotReady_St S _ h = Inr (super_st Top_St h)"

definition subInfoChangedEvt :: "'j sim_ext \<Rightarrow> 'j envelope \<Rightarrow> 'j sub_manager \<Rightarrow> (status \<times> 'j sub_manager) result" where
  "subInfoChangedEvt S env h =
     (case env_data env of
        None \<Rightarrow> Inr (HANDLED, h)
      | Some d \<Rightarrow>
          bindE (value_string (sx_json S) d ''iccid'') (\<lambda>iccid.
          bindE (value_string (sx_json S) d ''imsi'') (\<lambda>imsi.
            let h = h\<lparr>sb_subscription := setIds iccid imsi (sb_subscription h)\<rparr>; sub = sb_subscription h
            in Inr (HANDLED, sub_broadcastToListeners
                 (On_Subscription_Info (sub_slotId sub) (sub_iccid sub) (sub_imsi sub)) h))))"

fun SubReady_St :: "'j sim_ext \<Rightarrow> 'j sim_event event \<Rightarrow> 'j sub_manager \<Rightarrow> (status \<times> 'j sub_manager) result" where
  "SubReady_St S Entry_Signal h = Inr (HANDLED, resyncSubInfo S (sm_enterReady h))"
| "SubReady_St S Exit_Signal h = Inr (HANDLED, sm_exitReady h)"
| "SubReady_St S (User (Sim_ReadinessEvt_Signal env)) h = sm_readiness (sx_json S) env h"
| "SubReady_St S (User (Sim_BridgeConnectivityChanged_Signal b)) h = Inr (sm_connectivity b h)"
| "SubReady_St S (User (SubInfoChangedEvt_Signal env)) h = subInfoChangedEvt S env h"
| "SubReady_St S _ h = Inr (super_st Top_St h)"

fun sub_handlers :: "'j sim_ext \<Rightarrow> rstate \<Rightarrow> 'j sim_event event \<Rightarrow> 'j sub_manager \<Rightarrow> (status \<times> 'j sub_manager) result" where
  "sub_handlers S NotReady e h = SubNotReady_St S e h"
| "sub_handlers S Ready e h = SubReady_St S e h"

section \<open>Lifecycle\<close>

definition sub_start :: "nat \<Rightarrow> 'j sim_ext \<Rightarrow> 'j sub_manager \<Rightarrow> 'j sub_manager result" where
  "sub_start n S h =
     (if ao_running h then Inr h
      else bindE (start_at n (sub_handlers S) (St NotReady) (h\<lparr>ao_inst := True\<rparr>)) (\<lambda>h.
        let h = sm_emit (Sim_Subscribed (subsys_ready_sub_ind S) ''sim.subsys_ready_sub.ind'') h;
            h = sm_emit (Sim_Subscribed (sub_info_changed_ind S) ''sim.sub_info_changed.ind'') h;
            h = sm_emit (Sim_Connectivity_Subscribed (sx_token S)) h
        in Inr (h\<lparr>sm_conn_token := sx_token S\<rparr>)))"

definition handleSubInd :: "'j sim_ext \<Rightarrow> string \<Rightarrow> 'j envelope \<Rightarrow> 'j sub_manager \<Rightarrow> 'j sub_manager" where
  "handleSubInd S topic env =
     post_fifo (if topic = subsys_ready_sub_ind S then Sim_ReadinessEvt_Signal env else SubInfoChangedEvt_Signal env)"

definition sub_unsubscribeFromBridge :: "'j sim_ext \<Rightarrow> 'j sub_manager \<Rightarrow> 'j sub_manager" where
  "sub_unsubscribeFromBridge S h =
     (let h = sm_emit (Sim_Unsubscribed (subsys_ready_sub_ind S)) h;
          h = sm_emit (Sim_Unsubscribed (sub_info_changed_ind S)) h;
          h = sm_emit (Sim_Connectivity_Unsubscribed (sm_conn_token h)) h
      in sm_emit Sim_Bridge_Drained (h\<lparr>sm_conn_token := 0\<rparr>))"

definition sub_destroy :: "nat \<Rightarrow> nat \<Rightarrow> 'j sim_ext \<Rightarrow> 'j sub_manager \<Rightarrow> 'j sub_manager result" where
  "sub_destroy k n S h = stop k n (sub_handlers S) False (sub_unsubscribeFromBridge S h)"

section \<open>The chart\<close>

lemma subInfoChangedEvt_Inr:
  assumes "subInfoChangedEvt S env h = Inr (r, h')"
  shows "r = HANDLED \<and> posts_only h h' \<and> sim_view h' = sim_view h"
  using assms
  by (auto simp: subInfoChangedEvt_def sub_broadcastToListeners_def bindE_eq_Inr Let_def sim_view_quiet split: option.splits)
    (auto simp: sim_view_def inits_def posts_only_def)

lemma resyncSubInfo_quiet:
  "posts_only g (resyncSubInfo S h) = posts_only g h" "sim_view (resyncSubInfo S h) = sim_view h"
  "resyncSubInfo S (h\<lparr>htemp := x\<rparr>) = (resyncSubInfo S h)\<lparr>htemp := x\<rparr>"
  by (simp_all add: resyncSubInfo_def Let_def sim_view_quiet)
    (simp_all add: posts_only_def sim_view_def inits_def sm_request_def sm_do_def)

lemma sub_moves:
  assumes "sub_handlers S s (User u) h = Inr (r, h')"
  shows "sim_moves (sx_json S) (sim_up (sx_json S)) s u h r h'"
proof (cases s)
  case NotReady
  with assms show ?thesis
    by (cases u) (auto simp: sim_moves_def track_def to_st_def super_st_def bindE_eq_Inr sim_view_quiet split: if_splits)
next
  case Ready
  show ?thesis
  proof (cases u)
    case (SubInfoChangedEvt_Signal env)
    with assms Ready subInfoChangedEvt_Inr [of S env h r h'] show ?thesis
      by (intro sim_moves_quiet) (auto simp: track_def sm_down_def)
  next
    case (Sim_ReadinessEvt_Signal env)
    with assms Ready show ?thesis by (simp add: sim_moves_readiness)
  next
    case (Sim_BridgeConnectivityChanged_Signal b)
    with assms Ready show ?thesis by (simp add: sim_moves_connectivity)
  qed (use assms Ready in \<open>auto simp: sim_moves_def track_def sm_down_def super_st_def sim_view_quiet\<close>)
qed

interpretation sub: sim_chart "sub_handlers S" "resyncSubInfo S" "sim_up (sx_json S)" "sx_json S"
  for S :: "'j sim_ext"
proof unfold_locales
  fix s and h g :: "'j sub_manager"
  show "sub_handlers S s None_Signal h = Inr (super_st Top_St h)" "sub_handlers S s Init_Signal h = Inr (super_st Top_St h)"
    "sub_handlers S s Entry_Signal h = Inr (HANDLED, sim_en (resyncSubInfo S) s h)"
    "sub_handlers S s Exit_Signal h = Inr (HANDLED, sim_ex s h)"
    by (cases s; simp)+
qed (simp_all add: sub_moves resyncSubInfo_quiet)

section \<open>Properties\<close>

lemma sub_info_ids:
  assumes "json_ok (sx_json S)"
  shows "\<exists>h'. SubReady_St S (User (SubInfoChangedEvt_Signal (sub_info_env (sx_json S) i m))) h = Inr (HANDLED, h') \<and>
    sub_iccid (sb_subscription h') = i \<and> sub_imsi (sb_subscription h') = m"
  using assms
  by (simp add: subInfoChangedEvt_def sub_info_env_def value_string_def value_as_def json_okD Let_def
      sub_broadcastToListeners_def sm_broadcastToListeners_def sm_emit_def sm_do_def setIds_def)

text \<open>The join of the two requests for the identifiers. The two responses may arrive in either
  order: the first posts nothing, the second posts one update, and this update, handled while
  ready, sets both identifiers to the ones of the responses (empty for a request that failed).\<close>

theorem subscription_resync_joins:
  fixes h :: "'j sub_manager"
  assumes "json_ok (sx_json S)" "ao_running h" "acc < length (sb_accs h)"
    "sb_accs h ! acc = \<lparr>acc_iccid = None, acc_imsi = None\<rparr>"
    "response_id (sx_json S) ''iccid'' r1 = Inr i" "response_id (sx_json S) ''imsi'' r2 = Inr m"
  shows "\<exists>u. ao_q (snd (iccid_response S acc r1 h)) = ao_q h \<and>
    ao_q (snd (imsi_response S acc r2 (snd (iccid_response S acc r1 h)))) = ao_q h @ [u] \<and>
    ao_q (snd (imsi_response S acc r2 h)) = ao_q h \<and>
    ao_q (snd (iccid_response S acc r1 (snd (imsi_response S acc r2 h)))) = ao_q h @ [u] \<and>
    (\<forall>g :: 'j sub_manager. \<exists>g'. SubReady_St S (User u) g = Inr (HANDLED, g') \<and>
       sub_iccid (sb_subscription g') = i \<and> sub_imsi (sb_subscription g') = m)"
  using assms(2-) sub_info_ids [OF assms(1)]
  by (intro exI [of _ "SubInfoChangedEvt_Signal (sub_info_env (sx_json S) i m)"])
    (simp add: iccid_response_def imsi_response_def sub_complete_def post_fifo_def)

definition demo_sub :: "jtree sub_manager" where
  "demo_sub = (newSubscriptionManager 1 None)\<lparr>ao_running := True, sb_accs := [\<lparr>acc_iccid = None, acc_imsi = None\<rparr>]\<rparr>"

definition demo_sub_ext :: "jtree sim_ext" where
  "demo_sub_ext = \<lparr>sx_json = tree_lib, subsys_ready_card_ind = ''a'', card_state_ind = ''b'', subsys_ready_sub_ind = ''c'',
     sub_info_changed_ind = ''d'', get_state_req = ''e'', set_power_req = ''f'', get_iccid_req = ''g'', get_imsi_req = ''h'',
     sx_pa_id = ''pa-1'', sx_token = 7\<rparr>"

definition demo_iccid :: "jtree envelope" where
  "demo_iccid = makeResponseEnvelope 5 ''mpss'' ''00000000'' ''pa-1'' (JObj [(''iccid'', JStr ''8986'')])"

theorem subscription_resync_joins_witness:
  "\<exists>u g'. ao_q (snd (iccid_response demo_sub_ext 0 (Some demo_iccid) (snd (imsi_response demo_sub_ext 0 None demo_sub)))) = [u] \<and>
     SubReady_St demo_sub_ext (User u) demo_sub = Inr (HANDLED, g') \<and>
     sub_iccid (sb_subscription g') = ''8986'' \<and> sub_imsi (sb_subscription g') = []"
proof -
  have id: "response_id tree_lib ''iccid'' (Some demo_iccid) = Inr ''8986''" "response_id tree_lib ''imsi'' None = Inr []"
    by code_simp+
  have d: "ao_running demo_sub" "sb_accs demo_sub = [\<lparr>acc_iccid = None, acc_imsi = None\<rparr>]" "ao_q demo_sub = []"
    "sx_json demo_sub_ext = tree_lib"
    by (simp_all add: demo_sub_def newSubscriptionManager_def demo_sub_ext_def)
  have "json_ok (sx_json demo_sub_ext)" "0 < length (sb_accs demo_sub)"
    "sb_accs demo_sub ! 0 = \<lparr>acc_iccid = None, acc_imsi = None\<rparr>"
    "response_id (sx_json demo_sub_ext) ''iccid'' (Some demo_iccid) = Inr ''8986''"
    "response_id (sx_json demo_sub_ext) ''imsi'' None = Inr []"
    using id d tree_lib_ok by simp_all
  from subscription_resync_joins [OF this(1) d(1) this(2-5)] show ?thesis unfolding d(3) append_Nil by blast
qed

end
