(* ===== verification/Sim_Multi.thy ===== *)
theory Sim_Multi
  imports Sim_Card Sim_Subscription
begin

text \<open>
  \<open>component/sim/MultiSimManager.{hpp,cpp}\<close>: the slots; readiness follows the bridge alone. And
  \<open>SimFactory.{hpp,cpp}\<close>: one manager of each kind, with the presence of the card wired to the
  multi-SIM manager.
\<close>

section \<open>The multi-SIM manager\<close>

record 'j multi_manager = "'j sim_manager" +
  ms_active_slot :: int



definition multi_fireInitCallbacks :: "service_status \<Rightarrow> 'j multi_manager \<Rightarrow> 'j multi_manager" where
  "multi_fireInitCallbacks = sm_fireInitCallbacks"

definition multi_broadcastToListeners :: "sim_note \<Rightarrow> 'j multi_manager \<Rightarrow> 'j multi_manager" where
  "multi_broadcastToListeners = sm_broadcastToListeners"


definition fetchSlotStatus :: "'j sim_ext \<Rightarrow> nat option \<Rightarrow> 'j multi_manager \<Rightarrow> 'j multi_manager" where
  "fetchSlotStatus S cb h =
     sm_request S (get_state_req S) ''sim.get_state.rsp'' (slot_data (sx_json S) (sm_slotId h))
       (K_Slot_Status (ms_active_slot h) cb) h"

definition multi_wireToCardState :: "string \<Rightarrow> card_state" where
  "multi_wireToCardState = wireToCardState"

text \<open>The response of \<open>fetchSlotStatus_\<close>; \<open>False\<close> when it throws.\<close>

definition slot_status_response :: "'j json_lib \<Rightarrow> int \<Rightarrow> nat option \<Rightarrow> 'j envelope option \<Rightarrow> 'j multi_manager \<Rightarrow> bool \<times> 'j multi_manager" where
  "slot_status_response J slot cb rsp h =
     (case cb of
        None \<Rightarrow> (True, h)
      | Some c \<Rightarrow>
          (let answer = (\<lambda>cs. (True, sm_emit (Slot_Status_Called c slot \<lparr>slotState = SLOT_ACTIVE, slotCardState = cs\<rparr> EC_SUCCESS) h))
           in case good_data rsp of
                None \<Rightarrow> answer CARDSTATE_UNKNOWN
              | Some d \<Rightarrow> (case value_string J d ''cardState'' of
                  Inl _ \<Rightarrow> (False, h)
                | Inr s \<Rightarrow> answer (multi_wireToCardState s))))"

definition multi_isSubsystemReady :: "'j multi_manager \<Rightarrow> bool" where
  "multi_isSubsystemReady h = sm_ready_flag h"

definition multi_getServiceStatus :: "'j multi_manager \<Rightarrow> service_status" where
  "multi_getServiceStatus h = sm_last_status h"

definition multi_getSlotCount :: "'j multi_manager \<Rightarrow> api_status \<times> int option" where
  "multi_getSlotCount h = (if \<not> sm_ready_flag h then (NOTREADY, None) else (SUCCESS, Some 1))"

definition requestHighCapability :: "nat option \<Rightarrow> 'j multi_manager \<Rightarrow> api_status \<times> 'j multi_manager" where
  "requestHighCapability cb h =
     (if \<not> sm_ready_flag h then (NOTREADY, h) else (SUCCESS, post_fifo (RequestHighCapability_Signal cb) h))"

definition setHighCapability :: "int \<Rightarrow> nat option \<Rightarrow> 'j multi_manager \<Rightarrow> api_status \<times> 'j multi_manager" where
  "setHighCapability slotId cb h =
     (if \<not> sm_ready_flag h then (NOTREADY, h)
      else if \<not> sm_addressed slotId h then (NOSUCH, h)
      else (SUCCESS, post_fifo (SetHighCapability_Signal slotId cb) h))"

definition switchActiveSlot :: "int \<Rightarrow> nat option \<Rightarrow> 'j multi_manager \<Rightarrow> api_status \<times> 'j multi_manager" where
  "switchActiveSlot slotId cb h =
     (if \<not> sm_ready_flag h then (NOTREADY, h) else (SUCCESS, post_fifo (SwitchActiveSlot_Signal slotId cb) h))"

definition requestSlotStatus :: "nat option \<Rightarrow> 'j multi_manager \<Rightarrow> api_status \<times> 'j multi_manager" where
  "requestSlotStatus cb h =
     (if \<not> sm_ready_flag h then (NOTREADY, h) else (SUCCESS, post_fifo (RequestSlotStatus_Signal cb) h))"

definition multi_registerListener :: "nat \<Rightarrow> 'j multi_manager \<Rightarrow> api_status \<times> 'j multi_manager" where
  "multi_registerListener l h = (SUCCESS, h\<lparr>sm_listeners := sm_listeners h @ [l]\<rparr>)"

definition multi_deregisterListener :: "nat \<Rightarrow> 'j multi_manager \<Rightarrow> api_status \<times> 'j multi_manager" where
  "multi_deregisterListener l h = (SUCCESS, h\<lparr>sm_listeners := without_listener l (sm_live h) (sm_listeners h)\<rparr>)"

fun MultiSimNotReady_St :: "'j sim_ext \<Rightarrow> 'j sim_event event \<Rightarrow> 'j multi_manager \<Rightarrow> (status \<times> 'j multi_manager) result" where
  "MultiSimNotReady_St S Entry_Signal h = Inr (HANDLED, h)"
| "MultiSimNotReady_St S Exit_Signal h = Inr (HANDLED, h)"
| "MultiSimNotReady_St S (User (Sim_BridgeConnectivityChanged_Signal b)) h =
     Inr (if b then to_st (St Ready) h else (HANDLED, h))"
| "MultiSimNotReady_St S (User (RequestSlotStatus_Signal cb)) h = Inr (HANDLED, h)"
| "MultiSimNotReady_St S (User (RequestHighCapability_Signal cb)) h = Inr (HANDLED, h)"
| "MultiSimNotReady_St S (User (SetHighCapability_Signal i cb)) h = Inr (HANDLED, h)"
| "MultiSimNotReady_St S (User (SwitchActiveSlot_Signal i cb)) h = Inr (HANDLED, h)"
| "MultiSimNotReady_St S _ h = Inr (super_st Top_St h)"

definition answer_code :: "nat option \<Rightarrow> error_code \<Rightarrow> 'j multi_manager \<Rightarrow> 'j multi_manager" where
  "answer_code cb code h = (case cb of None \<Rightarrow> h | Some c \<Rightarrow> sm_emit (Sim_Response_Called c code) h)"

definition switchSlot :: "int \<Rightarrow> nat option \<Rightarrow> 'j multi_manager \<Rightarrow> 'j multi_manager" where
  "switchSlot slotId cb h =
     (let cur = ms_active_slot h;
          code = (if slotId = cur then EC_NO_EFFECT else EC_SIM_ERR);
          h = answer_code cb code h
      in if code = EC_NO_EFFECT then multi_broadcastToListeners (On_High_Capability cur) h else h)"

fun MultiSimReady_St :: "'j sim_ext \<Rightarrow> 'j sim_event event \<Rightarrow> 'j multi_manager \<Rightarrow> (status \<times> 'j multi_manager) result" where
  "MultiSimReady_St S Entry_Signal h = Inr (HANDLED, sm_enterReady h)"
| "MultiSimReady_St S Exit_Signal h = Inr (HANDLED, sm_exitReady h)"
| "MultiSimReady_St S (User (Sim_BridgeConnectivityChanged_Signal b)) h = Inr (sm_connectivity b h)"
| "MultiSimReady_St S (User (RequestSlotStatus_Signal cb)) h = Inr (HANDLED, fetchSlotStatus S cb h)"
| "MultiSimReady_St S (User (RequestHighCapability_Signal cb)) h =
     Inr (HANDLED, case cb of None \<Rightarrow> h | Some c \<Rightarrow> sm_emit (High_Capability_Called c (ms_active_slot h) EC_SUCCESS) h)"
| "MultiSimReady_St S (User (SetHighCapability_Signal i cb)) h = Inr (HANDLED, answer_code cb EC_SUCCESS h)"
| "MultiSimReady_St S (User (SwitchActiveSlot_Signal i cb)) h = Inr (HANDLED, switchSlot i cb h)"
| "MultiSimReady_St S _ h = Inr (super_st Top_St h)"

fun multi_handlers :: "'j sim_ext \<Rightarrow> rstate \<Rightarrow> 'j sim_event event \<Rightarrow> 'j multi_manager \<Rightarrow> (status \<times> 'j multi_manager) result" where
  "multi_handlers S NotReady e h = MultiSimNotReady_St S e h"
| "multi_handlers S Ready e h = MultiSimReady_St S e h"


definition multi_unsubscribeFromBridge :: "'j multi_manager \<Rightarrow> 'j multi_manager" where
  "multi_unsubscribeFromBridge h =
     (let h = sm_emit (Sim_Connectivity_Unsubscribed (sm_conn_token h)) h
      in sm_emit Sim_Bridge_Drained (h\<lparr>sm_conn_token := 0\<rparr>))"

definition multi_destroy :: "nat \<Rightarrow> nat \<Rightarrow> 'j sim_ext \<Rightarrow> 'j multi_manager \<Rightarrow> 'j multi_manager result" where
  "multi_destroy k n S h = stop k n (multi_handlers S) False (multi_unsubscribeFromBridge h)"

section \<open>The chart\<close>

text \<open>
  The chart knows no readiness indications: readiness is raised and withdrawn by the bridge.
\<close>

fun multi_up :: "'j sim_event \<Rightarrow> bool" where
  "multi_up (Sim_BridgeConnectivityChanged_Signal b) \<longleftrightarrow> b"
| "multi_up _ \<longleftrightarrow> False"

fun multi_down :: "'j sim_event \<Rightarrow> bool" where
  "multi_down (Sim_BridgeConnectivityChanged_Signal b) \<longleftrightarrow> \<not> b"
| "multi_down _ \<longleftrightarrow> False"

lemma multi_quiet [simp]:
  "posts_only g (fetchSlotStatus S cb h) = posts_only g h" "posts_only g (answer_code cb code h) = posts_only g h"
  "posts_only g (switchSlot i cb h) = posts_only g h"
  by (simp_all add: fetchSlotStatus_def answer_code_def switchSlot_def multi_broadcastToListeners_def Let_def split: option.splits)

interpretation multi: manager_shell "multi_handlers S" "sim_en (\<lambda>h. h)" sim_ex multi_up multi_down
  for S :: "'j sim_ext"
proof unfold_locales
  fix s and h h' :: "'j multi_manager" and u r x
  show "multi_handlers S s None_Signal h = Inr (super_st Top_St h)" "multi_handlers S s Init_Signal h = Inr (super_st Top_St h)"
    "multi_handlers S s Entry_Signal h = Inr (HANDLED, sim_en (\<lambda>h. h) s h)"
    "multi_handlers S s Exit_Signal h = Inr (HANDLED, sim_ex s h)"
    "sim_en (\<lambda>h. h) s (h\<lparr>htemp := x\<rparr>) = (sim_en (\<lambda>h. h) s h)\<lparr>htemp := x\<rparr>" "posts_only h (sim_en (\<lambda>h. h) s h)"
    "sim_ex s (h\<lparr>htemp := x\<rparr>) = (sim_ex s h)\<lparr>htemp := x\<rparr>" "posts_only h (sim_ex s h)"
    by (cases s; simp)+
  show "posts_only h h' \<and> (r = TO_SUPER \<longrightarrow> htemp h' = Top_St) \<and>
      (if track multi_up multi_down u s = s then r \<noteq> NEED_TO_TRANSFER
       else r = NEED_TO_TRANSFER \<and> htemp h' = St (track multi_up multi_down u s))"
    if "multi_handlers S s (User u) h = Inr (r, h')"
    using that
    by (cases s; cases u) (auto simp: track_def to_st_def super_st_def sm_connectivity_def split: if_splits option.splits)
qed

section \<open>The factory\<close>


definition To_MultiSim :: nat where
  "To_MultiSim = 0"




section \<open>The managers together\<close>




text \<open>
  Once both managers exist the callback is wired; \<open>last_present_\<close> is the presence of the card, whether or not
  it was reported (it is updated with no callback wired, too); the worker runs a proper state.
\<close>

definition card_wired :: "'j card_manager \<Rightarrow> bool \<Rightarrow> bool" where
  "card_wired c multi \<longleftrightarrow> (\<exists>s. hstate c = St s) \<and> cd_last_present c = cardIsPresent c \<and>
     cd_presence_cb c = (if multi then Some To_MultiSim else None)"





lemma card_wired_add [simp]: "card_wired (card_addInitCallback cb c) b = card_wired c b"
  by (cases cb) (auto simp: card_addInitCallback_def sm_addInitCallback_def card_wired_def cardIsPresent_def sm_emit_def
      sm_do_def)




section \<open>Calls of the presence callback\<close>

fun is_presence :: "'j sim_effect \<Rightarrow> bool" where
  "is_presence (Presence_Called c b) \<longleftrightarrow> True"
| "is_presence _ \<longleftrightarrow> False"

text \<open>The log of \<open>h\<close> is that of \<open>g\<close> with more at its end, of which \<open>ps\<close> are the calls of presence callbacks.\<close>

definition logged :: "'j card_manager \<Rightarrow> 'j sim_effect list \<Rightarrow> 'j card_manager \<Rightarrow> bool" where
  "logged g ps h \<longleftrightarrow> (\<exists>xs. io_out (sm_io h) = io_out (sm_io g) @ xs \<and> filter is_presence xs = ps)"

lemma logged_quiet [simp]:
  "logged g ps (h\<lparr>htemp := x\<rparr>) = logged g ps h" "logged g ps (h\<lparr>ao_q := q\<rparr>) = logged g ps h"
  "logged g ps (h\<lparr>sm_last_status := st\<rparr>) = logged g ps h" "logged g ps (h\<lparr>sm_ready_flag := b\<rparr>) = logged g ps h"
  "logged g ps (h\<lparr>sm_init_cbs := cs\<rparr>) = logged g ps h" "logged g ps (h\<lparr>sm_init_reported := b\<rparr>) = logged g ps h"
  "logged g ps (h\<lparr>cd_card := k\<rparr>) = logged g ps h" "logged g ps (h\<lparr>cd_last_present := b\<rparr>) = logged g ps h"
  "logged g ps (erase h) = logged g ps h" "logged g [] g"
  by (simp_all add: logged_def erase_def)




text \<open>A change of presence, and the one call it makes.\<close>

definition told_change :: "nat option \<Rightarrow> bool \<Rightarrow> bool \<Rightarrow> 'j sim_effect list" where
  "told_change cb was now = (if now = was then [] else case cb of None \<Rightarrow> [] | Some p \<Rightarrow> [Presence_Called p now])"

lemma told_change_same [simp]: "told_change cb b b = []"
  by (simp add: told_change_def)





section \<open>Properties\<close>










end
