(* ===== verification/Data_Call.thy ===== *)
theory Data_Call
  imports Manager_Io
begin

text \<open>
  The values of \<open>component/data/DataConnectionManager.cpp\<close>: the enumerations and structures of
  \<open>telux/data\<close> it uses, the functions that read and write their wire form, and the object
  \<open>SimulaDataCall\<close>.
\<close>

section \<open>Enumerations and structures\<close>

datatype ip_family = IPF_UNKNOWN | IPF_IPV4 | IPF_IPV6 | IPF_IPV4V6

datatype operation_type = DATA_LOCAL | DATA_REMOTE

datatype call_status =
    NET_INVALID | NET_CONNECTED | NET_NO_NET | NET_IDLE | NET_CONNECTING | NET_DISCONNECTING
  | NET_RECONFIGURED | NET_NEWADDR | NET_DELADDR

text \<open>Of the bearer technologies those a wire name stands for.\<close>

datatype bearer_tech = BT_UNKNOWN | BT_CDMA_1X | BT_EVDO_REV0 | BT_WCDMA | BT_LTE | BT_GSM | BT_5G

datatype tech_preference = TP_UNKNOWN | TP_3GPP | TP_3GPP2 | TP_ANY

text \<open>
  \<open>DataCallEndReason\<close>: the type is a number that was cast to the enumeration; of the members of the
  union at most one of two is set.
\<close>

datatype end_code = No_Code | Spec_Code int | Internal_Code int

record end_reason =
  er_type :: int
  er_code :: end_code

definition CE_UNKNOWN :: int where "CE_UNKNOWN = 255"
definition CE_INTERNAL :: int where "CE_INTERNAL = 2"
definition CE_3GPP_SPEC_DEFINED :: int where "CE_3GPP_SPEC_DEFINED = 6"

definition no_reason :: end_reason where
  "no_reason = \<lparr>er_type = CE_UNKNOWN, er_code = No_Code\<rparr>"

text \<open>\<open>IpAddrInfo\<close> and \<open>IpFamilyInfo\<close>. Only clients set \<open>gwMask\<close>: whatever the code fills in keeps its default.\<close>

record ip_addr =
  ifAddress :: string
  ifMask :: "32 word"
  gwAddress :: string
  gwMask :: "32 word"
  primaryDnsAddress :: string
  secondaryDnsAddress :: string

record ip_info =
  ip_status :: call_status
  ip_addr_of :: ip_addr

definition no_addr :: ip_addr where
  "no_addr = \<lparr>ifAddress = [], ifMask = 0, gwAddress = [], gwMask = 0, primaryDnsAddress = [], secondaryDnsAddress = []\<rparr>"

definition no_info :: ip_info where
  "no_info = \<lparr>ip_status = NET_INVALID, ip_addr_of = no_addr\<rparr>"

record call_params =
  par_profileId :: int
  par_interfaceName :: string
  par_ipFamilyType :: ip_family
  par_operationType :: operation_type

record throughput_info =
  tp_slot :: int
  tp_profileId :: int
  tp_ul_throughput :: "32 word"
  tp_ul_maxThroughput :: "32 word"
  tp_ul_queueSize :: "32 word"
  tp_dl_throughput :: "32 word"

record throttle_info =
  th_apn :: string
  th_profileIds :: "int list"
  th_ipv4Time :: "32 word"
  th_ipv6Time :: "32 word"
  th_isBlocked :: bool
  th_mcc :: string
  th_mnc :: string

datatype qos_change = QOS_UNKNOWN | QOS_ACTIVATED | QOS_MODIFIED | QOS_DELETED

text \<open>\<open>TrafficFlowTemplate\<close>, of a granted flow the two rates; the filter lists are always empty.\<close>

record flow_template =
  tft_qosId :: "32 word"
  tft_stateChange :: qos_change
  tft_mask :: "16 word"
  tft_tx :: "64 word \<times> 64 word"
  tft_rx :: "64 word \<times> 64 word"

section \<open>Wire names\<close>

fun ipFamilyToWire :: "ip_family \<Rightarrow> string" where
  "ipFamilyToWire IPF_IPV4 = ''IPV4''"
| "ipFamilyToWire IPF_IPV6 = ''IPV6''"
| "ipFamilyToWire _ = ''IPV4V6''"

definition opTypeToWire :: "operation_type \<Rightarrow> string" where
  "opTypeToWire t = (if t = DATA_REMOTE then ''DATA_REMOTE'' else ''DATA_LOCAL'')"

definition wireToCallStatus :: "string \<Rightarrow> call_status" where
  "wireToCallStatus s =
     (if s = ''CONNECTED'' then NET_CONNECTED
      else if s = ''NO_NET'' then NET_NO_NET
      else if s = ''CONNECTING'' then NET_CONNECTING
      else if s = ''DISCONNECTING'' then NET_DISCONNECTING
      else if s = ''RECONFIGURED'' then NET_RECONFIGURED
      else if s = ''NEWADDR'' then NET_NEWADDR
      else if s = ''DELADDR'' then NET_DELADDR
      else NET_IDLE)"

definition wireToBearerTech :: "string \<Rightarrow> bearer_tech" where
  "wireToBearerTech s =
     (if s = ''GSM'' then BT_GSM
      else if s = ''WCDMA'' then BT_WCDMA
      else if s = ''LTE'' then BT_LTE
      else if s = ''BEARER_TECH_5G'' then BT_5G
      else if s = ''CDMA_1X'' then BT_CDMA_1X
      else if s = ''EVDO_REV0'' then BT_EVDO_REV0
      else BT_UNKNOWN)"

definition wireToQosStateChange :: "string \<Rightarrow> qos_change" where
  "wireToQosStateChange s =
     (if s = ''ACTIVATED'' then QOS_ACTIVATED
      else if s = ''MODIFIED'' then QOS_MODIFIED
      else if s = ''DEACTIVATED'' then QOS_DELETED
      else QOS_UNKNOWN)"

section \<open>Reading JSON\<close>

text \<open>\<open>value(k, dflt)\<close> as an \<open>int\<close> with a default other than 0.\<close>

definition value_int_or :: "int \<Rightarrow> 'j json_lib \<Rightarrow> 'j \<Rightarrow> string \<Rightarrow> int result" where
  "value_int_or dflt J j k = value_as (\<lambda>v. map_option to_int32 (j_number J v)) J j k dflt"

text \<open>\<open>value(k, 0)\<close> stored in a 64-bit unsigned member: the \<open>int\<close> is sign-extended.\<close>

definition value_word64 :: "'j json_lib \<Rightarrow> 'j \<Rightarrow> string \<Rightarrow> 64 word result" where
  "value_word64 J j k = bindE (value_int J j k) (\<lambda>n. Inr (word_of_int n))"

definition decodeEndReason :: "'j json_lib \<Rightarrow> 'j \<Rightarrow> end_reason result" where
  "decodeEndReason J obj =
     bindE (value_int_or 255 J obj ''type'') (\<lambda>ty.
     bindE (value_int J obj ''code'') (\<lambda>code.
       Inr \<lparr>er_type = ty,
            er_code = (if ty = CE_3GPP_SPEC_DEFINED then Spec_Code code
                       else if ty = CE_INTERNAL then Internal_Code code else No_Code)\<rparr>))"

text \<open>
  \<open>inet_pton(AF_INET, ...)\<close> of the C library: four decimal numbers up to 255, without leading zeros,
  separated by dots. \<open>octets\<close>, \<open>saw\<close> and \<open>tp\<close> are the number of octets begun, whether the current
  one has a digit, and its value; \<open>bytes\<close> are the octets before it.
\<close>

fun pton4 :: "nat \<Rightarrow> bool \<Rightarrow> nat \<Rightarrow> nat list \<Rightarrow> string \<Rightarrow> nat list option" where
  "pton4 octets saw tp bytes [] = (if octets < 4 then None else Some (bytes @ [tp]))"
| "pton4 octets saw tp bytes (c # cs) =
     (if 48 \<le> (of_char c :: nat) \<and> (of_char c :: nat) \<le> 57 then
        let new = tp * 10 + (of_char c - 48) in
        if saw \<and> tp = 0 then None
        else if new > 255 then None
        else if \<not> saw then (if octets + 1 > 4 then None else pton4 (octets + 1) True new bytes cs)
        else pton4 octets saw new bytes cs
      else if c = CHR ''.'' \<and> saw then
        (if octets = 4 then None else pton4 octets False 0 (bytes @ [tp]) cs)
      else None)"

definition inet_pton4 :: "string \<Rightarrow> nat list option" where
  "inet_pton4 s = pton4 0 False 0 [] s"

text \<open>
  The four octets in the order of the address, read as an \<open>unsigned int\<close> of a little-endian
  machine; \<open>c_str()\<close> ends at the first null character.
\<close>

definition subnetMaskToIfMask :: "string \<Rightarrow> 32 word" where
  "subnetMaskToIfMask s =
     (case inet_pton4 (takeWhile (\<lambda>c. c \<noteq> CHR 0x00) s) of
        None \<Rightarrow> 0
      | Some bytes \<Rightarrow> foldr (\<lambda>b w. of_nat b + 256 * w) bytes 0)"

definition decodeThroughputInfo :: "'j json_lib \<Rightarrow> 'j \<Rightarrow> throughput_info result" where
  "decodeThroughputInfo J item =
     bindE (value_int J item ''slot'') (\<lambda>slot.
     bindE (value_int J item ''profileId'') (\<lambda>p.
     bindE (case j_find J item ''ul'' of
          None \<Rightarrow> Inr (0, 0, 0)
        | Some ul \<Rightarrow> bindE (value_word J ul ''throughput'') (\<lambda>t. bindE (value_word J ul ''maxThroughput'') (\<lambda>m.
            bindE (value_word J ul ''queueSize'') (\<lambda>q. Inr (t, m, q))))) (\<lambda>(t, m, q).
     bindE (case j_find J item ''dl'' of None \<Rightarrow> Inr 0 | Some dl \<Rightarrow> value_word J dl ''throughput'') (\<lambda>d.
       Inr \<lparr>tp_slot = slot, tp_profileId = p, tp_ul_throughput = t, tp_ul_maxThroughput = m,
            tp_ul_queueSize = q, tp_dl_throughput = d\<rparr>))))"

definition decodeThroughputInfos :: "'j json_lib \<Rightarrow> 'j \<Rightarrow> throughput_info list result" where
  "decodeThroughputInfos J infos = map_result (decodeThroughputInfo J) (j_iter J infos)"

text \<open>\<open>decodeThroughputInfos(data.value("infos", json::array()))\<close>; an empty array has no elements.\<close>

definition throughput_infos :: "'j json_lib \<Rightarrow> 'j \<Rightarrow> throughput_info list result" where
  "throughput_infos J dat =
     bindE (value_as (\<lambda>v. Some (Some v)) J dat ''infos'' None)
       (\<lambda>r. case r of None \<Rightarrow> Inr [] | Some infos \<Rightarrow> decodeThroughputInfos J infos)"

definition get_int :: "'j json_lib \<Rightarrow> 'j \<Rightarrow> int result" where
  "get_int J v = (case j_number J v of None \<Rightarrow> Inl Uncaught_Exception | Some n \<Rightarrow> Inr (to_int32 n))"

definition decodeThrottleInfo :: "'j json_lib \<Rightarrow> 'j \<Rightarrow> throttle_info result" where
  "decodeThrottleInfo J dat =
     bindE (value_string J dat ''apn'') (\<lambda>apn.
     bindE (case j_find J dat ''profileIds'' of None \<Rightarrow> Inr [] | Some v \<Rightarrow> map_result (get_int J) (j_iter J v)) (\<lambda>ps.
     bindE (value_word J dat ''ipv4Time'') (\<lambda>t4.
     bindE (value_word J dat ''ipv6Time'') (\<lambda>t6.
     bindE (value_bool J dat ''isBlocked'') (\<lambda>b.
     bindE (value_string J dat ''mcc'') (\<lambda>mcc.
     bindE (value_string J dat ''mnc'') (\<lambda>mnc.
       Inr \<lparr>th_apn = apn, th_profileIds = ps, th_ipv4Time = t4, th_ipv6Time = t6, th_isBlocked = b,
            th_mcc = mcc, th_mnc = mnc\<rparr>)))))))"

definition granted_rates :: "'j json_lib \<Rightarrow> 'j \<Rightarrow> string \<Rightarrow> (64 word \<times> 64 word) result" where
  "granted_rates J dat k =
     (case j_find J dat k of
        None \<Rightarrow> Inr (0, 0)
      | Some g \<Rightarrow> bindE (value_word64 J g ''maxRate'') (\<lambda>a. bindE (value_word64 J g ''minRate'') (\<lambda>b. Inr (a, b))))"

definition decodeTrafficFlowTemplate :: "'j json_lib \<Rightarrow> 'j \<Rightarrow> flow_template result" where
  "decodeTrafficFlowTemplate J dat =
     bindE (value_word J dat ''qosId'') (\<lambda>q.
     bindE (value_string J dat ''stateChange'') (\<lambda>s.
     bindE (value_int J dat ''mask'') (\<lambda>m.
     bindE (granted_rates J dat ''txGranted'') (\<lambda>tx.
     bindE (granted_rates J dat ''rxGranted'') (\<lambda>rx.
       Inr \<lparr>tft_qosId = q, tft_stateChange = wireToQosStateChange s, tft_mask = word_of_int m,
            tft_tx = tx, tft_rx = rx\<rparr>)))))"

section \<open>SimulaDataCall\<close>

record data_call =
  dc_profileId :: int
  dc_slotId :: int
  dc_ipFamilyType :: ip_family
  dc_operationType :: operation_type
  dc_interfaceName :: string
  dc_techPreference :: tech_preference
  dc_bearerTech :: bearer_tech
  dc_status :: call_status
  dc_endReason :: end_reason
  dc_ipv4 :: ip_info
  dc_ipv6 :: ip_info

definition newDataCall :: "int \<Rightarrow> int \<Rightarrow> ip_family \<Rightarrow> operation_type \<Rightarrow> string \<Rightarrow> data_call" where
  "newDataCall p slot fam ty name =
     \<lparr>dc_profileId = p, dc_slotId = slot, dc_ipFamilyType = fam, dc_operationType = ty, dc_interfaceName = name,
      dc_techPreference = TP_UNKNOWN, dc_bearerTech = BT_UNKNOWN, dc_status = NET_IDLE, dc_endReason = no_reason,
      dc_ipv4 = no_info, dc_ipv6 = no_info\<rparr>"

definition getIpAddressInfo :: "data_call \<Rightarrow> ip_addr list" where
  "getIpAddressInfo c =
     (if dc_ipFamilyType c = IPF_IPV4 \<or> dc_ipFamilyType c = IPF_IPV4V6 then [ip_addr_of (dc_ipv4 c)] else []) @
     (if dc_ipFamilyType c = IPF_IPV6 \<or> dc_ipFamilyType c = IPF_IPV4V6 then [ip_addr_of (dc_ipv6 c)] else [])"

text \<open>\<open>setStatus\<close>: going down shows in both address families and clears the bearer at the end.\<close>

definition setStatus :: "call_status \<Rightarrow> data_call \<Rightarrow> data_call" where
  "setStatus st c =
     (let c = c\<lparr>dc_status := st\<rparr>;
          c = (if st = NET_DISCONNECTING \<or> st = NET_NO_NET
               then c\<lparr>dc_ipv4 := (dc_ipv4 c)\<lparr>ip_status := st\<rparr>, dc_ipv6 := (dc_ipv6 c)\<lparr>ip_status := st\<rparr>\<rparr> else c)
      in if st = NET_NO_NET then c\<lparr>dc_bearerTech := BT_UNKNOWN\<rparr> else c)"

definition setEndReason :: "end_reason \<Rightarrow> data_call \<Rightarrow> data_call" where
  "setEndReason r c = c\<lparr>dc_endReason := r\<rparr>"

definition setIpv4 :: "ip_info \<Rightarrow> data_call \<Rightarrow> data_call" where
  "setIpv4 i c = c\<lparr>dc_ipv4 := i\<rparr>"

definition setIpv6 :: "ip_info \<Rightarrow> data_call \<Rightarrow> data_call" where
  "setIpv6 i c = c\<lparr>dc_ipv6 := i\<rparr>"

definition setInterfaceName :: "string \<Rightarrow> data_call \<Rightarrow> data_call" where
  "setInterfaceName n c = c\<lparr>dc_interfaceName := n\<rparr>"

definition setBearerTech :: "bearer_tech \<Rightarrow> data_call \<Rightarrow> data_call" where
  "setBearerTech b c = c\<lparr>dc_bearerTech := b\<rparr>"

definition setTechPreference :: "tech_preference \<Rightarrow> data_call \<Rightarrow> data_call" where
  "setTechPreference t c = c\<lparr>dc_techPreference := t\<rparr>"

text \<open>The operations that are not supported; their callbacks are never called.\<close>

definition requestTrafficFlowTemplate :: "data_call \<Rightarrow> api_status" where
  "requestTrafficFlowTemplate c = NOTSUPPORTED"

definition requestDataCallStatistics :: "data_call \<Rightarrow> api_status" where
  "requestDataCallStatistics c = NOTSUPPORTED"

definition resetDataCallStatistics :: "data_call \<Rightarrow> api_status" where
  "resetDataCallStatistics c = NOTSUPPORTED"

text \<open>
  \<open>requestDataCallBitRate\<close>, on the thread of the client, and the callback of its request. The rates are
  64-bit members that are read as an \<open>int\<close>.
\<close>

record bit_rates =
  maxTxRate :: "64 word"
  maxRxRate :: "64 word"

datatype 'j bitrate_effect =
    Bitrate_Request string string "'j envelope" "nat option" int
  | Bitrate_Called nat bit_rates error_code

definition no_rates :: bit_rates where
  "no_rates = \<lparr>maxTxRate = 0, maxRxRate = 0\<rparr>"

definition requestDataCallBitRate :: "'j json_lib \<Rightarrow> string \<Rightarrow> string \<Rightarrow> data_call \<Rightarrow> nat option \<Rightarrow> 'j bitrate_effect io
    \<Rightarrow> api_status \<times> 'j bitrate_effect io" where
  "requestDataCallBitRate J pa topic c cb s =
     (SUCCESS,
      if dc_status c \<noteq> NET_CONNECTED then
        (case cb of None \<Rightarrow> s | Some b \<Rightarrow> io_emit (Bitrate_Called b no_rates EC_INVALID_STATE) s)
      else (case io_request pa (j_set J ''profileId'' (j_of_int J (dc_profileId c)) (j_object J)) s of (req, s) \<Rightarrow>
        io_emit (Bitrate_Request topic ''data.request_data_call_bitrate.rsp'' req cb 30000) s))"

definition bitrate_response :: "'j json_lib \<Rightarrow> nat option \<Rightarrow> 'j envelope option \<Rightarrow> 'j bitrate_effect io \<Rightarrow> 'j bitrate_effect io result" where
  "bitrate_response J cb rsp s =
     (case cb of
        None \<Rightarrow> Inr s
      | Some b \<Rightarrow>
          (case good_data rsp of
             None \<Rightarrow> Inr (io_emit (Bitrate_Called b no_rates EC_OPERATION_TIMEOUT) s)
           | Some d \<Rightarrow> bindE (value_word64 J d ''maxTxRate'') (\<lambda>t. bindE (value_word64 J d ''maxRxRate'') (\<lambda>r.
               Inr (io_emit (Bitrate_Called b \<lparr>maxTxRate = t, maxRxRate = r\<rparr> EC_SUCCESS) s)))))"

text \<open>The address members of a block; the mask is read from blocks of the first family only.\<close>

definition read_addr :: "'j json_lib \<Rightarrow> 'j \<Rightarrow> bool \<Rightarrow> ip_addr result" where
  "read_addr J a with_mask =
     bindE (value_string J a ''if_address'') (\<lambda>i.
     bindE (value_string J a ''gw_address'') (\<lambda>g.
     bindE (value_string J a ''primary_dns_address'') (\<lambda>p.
     bindE (value_string J a ''secondary_dns_address'') (\<lambda>s.
     bindE (if with_mask \<and> j_find J a ''subnet_mask'' \<noteq> None
            then bindE (value_string J a ''subnet_mask'') (\<lambda>m. Inr (subnetMaskToIfMask m)) else Inr 0) (\<lambda>m.
       Inr \<lparr>ifAddress = i, ifMask = m, gwAddress = g, gwMask = 0, primaryDnsAddress = p, secondaryDnsAddress = s\<rparr>)))))"

definition applyAddrInfo :: "'j json_lib \<Rightarrow> 'j \<Rightarrow> call_status \<Rightarrow> data_call \<Rightarrow> data_call result" where
  "applyAddrInfo J dat st c =
     bindE (case j_find J dat ''ipv4'' of
          None \<Rightarrow> Inr c
        | Some a \<Rightarrow> bindE (read_addr J a True) (\<lambda>x. Inr (setIpv4 \<lparr>ip_status = st, ip_addr_of = x\<rparr> c))) (\<lambda>c.
     case j_find J dat ''ipv6'' of
       None \<Rightarrow> Inr c
     | Some a \<Rightarrow> bindE (read_addr J a False) (\<lambda>x. Inr (setIpv6 \<lparr>ip_status = st, ip_addr_of = x\<rparr> c)))"

text \<open>The members are compared in turn, up to the first that differs.\<close>

fun member_differs :: "'j json_lib \<Rightarrow> 'j \<Rightarrow> (string \<times> string) list \<Rightarrow> bool result" where
  "member_differs J a [] = Inr False"
| "member_differs J a ((k, cur) # ks) =
     bindE (value_string J a k) (\<lambda>s. if s \<noteq> cur then Inr True else member_differs J a ks)"

definition addr_differs :: "'j json_lib \<Rightarrow> 'j option \<Rightarrow> ip_addr \<Rightarrow> bool result" where
  "addr_differs J blk cur =
     (case blk of
        None \<Rightarrow> Inr False
      | Some a \<Rightarrow> member_differs J a
          [(''if_address'', ifAddress cur), (''gw_address'', gwAddress cur),
           (''primary_dns_address'', primaryDnsAddress cur), (''secondary_dns_address'', secondaryDnsAddress cur)])"

definition addrInfoDiffers :: "'j json_lib \<Rightarrow> data_call \<Rightarrow> 'j \<Rightarrow> bool result" where
  "addrInfoDiffers J c dat =
     bindE (addr_differs J (j_find J dat ''ipv4'') (ip_addr_of (dc_ipv4 c))) (\<lambda>b.
       if b then Inr True else addr_differs J (j_find J dat ''ipv6'') (ip_addr_of (dc_ipv6 c)))"

lemma setStatus_sel [simp]:
  "dc_status (setStatus st c) = st" "dc_profileId (setStatus st c) = dc_profileId c"
  "dc_operationType (setStatus st c) = dc_operationType c"
  by (simp_all add: setStatus_def Let_def)

lemma setters_sel [simp]:
  "dc_status (setEndReason r c) = dc_status c" "dc_status (setIpv4 i c) = dc_status c"
  "dc_status (setIpv6 i c) = dc_status c" "dc_status (setInterfaceName n c) = dc_status c"
  "dc_status (setBearerTech b c) = dc_status c"
  by (simp_all add: setEndReason_def setIpv4_def setIpv6_def setInterfaceName_def setBearerTech_def)

lemma applyAddrInfo_status: "applyAddrInfo J dat st c = Inr c' \<Longrightarrow> dc_status c' = dc_status c"
  by (auto simp: applyAddrInfo_def bindE_eq_Inr split: option.splits)

section \<open>Well-typed values\<close>

text \<open>The members \<open>ks\<close> of the object \<open>d\<close> are absent or numbers.\<close>

definition int_fields :: "'j json_lib \<Rightarrow> string list \<Rightarrow> 'j \<Rightarrow> bool" where
  "int_fields J ks d \<longleftrightarrow>
     j_is_object J d \<and> list_all (\<lambda>k. case j_find J d k of None \<Rightarrow> True | Some v \<Rightarrow> j_number J v \<noteq> None) ks"

definition addr_typed :: "'j json_lib \<Rightarrow> 'j \<Rightarrow> bool" where
  "addr_typed J a \<longleftrightarrow> string_fields J [''if_address'', ''gw_address'', ''primary_dns_address'',
     ''secondary_dns_address'', ''subnet_mask''] a"

text \<open>The member \<open>k\<close> of \<open>d\<close> is absent or satisfies \<open>P\<close>.\<close>

definition member_typed :: "('j \<Rightarrow> bool) \<Rightarrow> 'j json_lib \<Rightarrow> string \<Rightarrow> 'j \<Rightarrow> bool" where
  "member_typed P J k d \<longleftrightarrow> pred_option P (j_find J d k)"

definition addrs_typed :: "'j json_lib \<Rightarrow> 'j \<Rightarrow> bool" where
  "addrs_typed J d \<longleftrightarrow> member_typed (addr_typed J) J ''ipv4'' d \<and> member_typed (addr_typed J) J ''ipv6'' d"

lemma string_field_returns: "string_fields J ks d \<Longrightarrow> k \<in> set ks \<Longrightarrow> returns (value_string J d k)"
  using string_field_value unfolding returns_def by fastforce

lemma int_field_returns:
  "int_fields J ks d \<Longrightarrow> k \<in> set ks \<Longrightarrow> returns (value_int_or n J d k)"
  "int_fields J ks d \<Longrightarrow> k \<in> set ks \<Longrightarrow> returns (value_int J d k)"
  by (fastforce simp: int_fields_def value_int_or_def value_int_def value_as_def list_all_iff split: option.splits)+

lemma string_fields_return: "string_fields J ks d \<Longrightarrow> list_all (\<lambda>k. returns (value_string J d k)) ks"
  by (simp add: list_all_iff string_field_returns)

lemma read_addr_returns: "addr_typed J a \<Longrightarrow> returns (read_addr J a m)"
  unfolding read_addr_def addr_typed_def
  by (intro returns_bind) (auto intro!: returns_bind elim: string_field_returns)

lemma applyAddrInfo_returns: "addrs_typed J d \<Longrightarrow> returns (applyAddrInfo J d st c)"
  unfolding applyAddrInfo_def addrs_typed_def member_typed_def
  by (intro returns_bind) (auto intro!: returns_bind read_addr_returns split: option.splits)

lemma member_differs_returns: "\<forall>k \<in> fst ` set ks. returns (value_string J a k) \<Longrightarrow> returns (member_differs J a ks)"
  by (induction J a ks rule: member_differs.induct) auto

lemma addr_differs_returns: "pred_option (addr_typed J) blk \<Longrightarrow> returns (addr_differs J blk cur)"
  by (cases blk) (auto simp: addr_differs_def addr_typed_def simp del: member_differs.simps
      intro!: member_differs_returns elim: string_field_returns)

lemma addrInfoDiffers_returns: "addrs_typed J d \<Longrightarrow> returns (addrInfoDiffers J c d)"
  unfolding addrInfoDiffers_def addrs_typed_def member_typed_def
  by (intro returns_bind) (auto intro: addr_differs_returns)

lemma decodeEndReason_returns: "int_fields J [''type'', ''code''] r \<Longrightarrow> returns (decodeEndReason J r)"
  unfolding decodeEndReason_def by (intro returns_bind) (auto intro: int_field_returns)

section \<open>Bit rates\<close>

text \<open>What becomes of a number that is read as a signed 32-bit integer and stored as an unsigned 64-bit one:
  its remainder modulo 2^32, with the sign bit copied to the upper half.\<close>

definition narrowed :: "int \<Rightarrow> int" where
  "narrowed n = (if n mod 2 ^ 32 < 2 ^ 31 then n mod 2 ^ 32 else n mod 2 ^ 32 + (2 ^ 64 - 2 ^ 32))"

lemma to_int32_eq: "to_int32 n = (if n mod 2 ^ 32 < 2 ^ 31 then n mod 2 ^ 32 else n mod 2 ^ 32 - 2 ^ 32)"
proof -
  let ?k = "n mod (2 ^ 32 :: int)"
  have k: "0 \<le> ?k" "?k < 2 ^ 32" by simp_all
  have "(n + 2 ^ 31) mod 2 ^ 32 = (?k + 2 ^ 31) mod 2 ^ 32" by (rule mod_add_left_eq [symmetric])
  also have "\<dots> = (if ?k < 2 ^ 31 then ?k + 2 ^ 31 else ?k + 2 ^ 31 - 2 ^ 32)"
  proof (cases "?k < 2 ^ 31")
    case True
    with k(1) show ?thesis by (simp only: if_True) (intro mod_pos_pos_trivial, simp_all)
  next
    case False
    have "(?k + 2 ^ 31) mod 2 ^ 32 = (?k + 2 ^ 31 - 2 ^ 32) mod 2 ^ 32" by (rule minus_mod_self2 [symmetric])
    with False k(2) show ?thesis by (simp only: if_False) (intro mod_pos_pos_trivial, simp_all)
  qed
  finally show ?thesis unfolding to_int32_def by simp
qed

lemma narrowed_word: "uint (word_of_int (to_int32 n) :: 64 word) = narrowed n"
proof (cases "n mod 2 ^ 32 < 2 ^ 31")
  case True
  have "0 \<le> n mod (2 ^ 32 :: int)" by simp
  with True show ?thesis by (simp add: to_int32_eq narrowed_def uint_word_of_int)
next
  case False
  let ?k = "n mod (2 ^ 32 :: int)"
  have "?k < 2 ^ 32" by simp
  have "(?k - 2 ^ 32) mod 2 ^ 64 = (?k - 2 ^ 32 + 2 ^ 64) mod (2 ^ 64 :: int)" by (rule mod_add_self2 [symmetric])
  also have "\<dots> = ?k - 2 ^ 32 + 2 ^ 64" using False \<open>?k < 2 ^ 32\<close> by (intro mod_pos_pos_trivial) simp_all
  finally show ?thesis using False by (simp only: to_int32_eq narrowed_def if_False uint_word_of_int) simp
qed

lemma value_word64_wraps:
  assumes "j_is_object J d" "j_find J d k = Some v" "j_number J v = Some n"
  shows "\<exists>w. value_word64 J d k = Inr w \<and> uint w = narrowed n"
  using assms narrowed_word [of n] by (auto simp: value_word64_def value_int_def value_as_def)

text \<open>C26: the bit rates of a call, which are reported in bits per second as 64-bit numbers. The code reads
  the rates through a 32-bit signed integer, so that of any integer rate of the response, of whatever size or sign,
  only the remainder modulo 2^32 is left, and a remainder of 2^31 or more is reported as a rate of more than
  2^63 (the remainder less 2^32, as an unsigned 64-bit number). So a rate from 0 to 2^31 - 1 is passed on unchanged, and one
  of 5 Gbit/s is reported as 705032704 bit/s.\<close>

theorem bit_rates_wrap:
  assumes "good_data rsp = Some d" "j_is_object J d"
    and "j_find J d ''maxTxRate'' = Some v" "j_number J v = Some n"
    and "j_find J d ''maxRxRate'' = Some w" "j_number J w = Some m"
  shows "\<exists>r. bitrate_response J (Some b) rsp s = Inr (io_emit (Bitrate_Called b r EC_SUCCESS) s) \<and>
    uint (maxTxRate r) = (if n mod 2 ^ 32 < 2 ^ 31 then n mod 2 ^ 32 else n mod 2 ^ 32 + (2 ^ 64 - 2 ^ 32)) \<and>
    uint (maxRxRate r) = (if m mod 2 ^ 32 < 2 ^ 31 then m mod 2 ^ 32 else m mod 2 ^ 32 + (2 ^ 64 - 2 ^ 32))"
proof -
  from value_word64_wraps [OF assms(2,3,4)] obtain t where t: "value_word64 J d ''maxTxRate'' = Inr t" "uint t = narrowed n" by blast
  from value_word64_wraps [OF assms(2,5,6)] obtain r where r: "value_word64 J d ''maxRxRate'' = Inr r" "uint r = narrowed m" by blast
  show ?thesis
    by (rule exI [of _ "\<lparr>maxTxRate = t, maxRxRate = r\<rparr>"])
      (simp only: bitrate_response_def assms(1) option.case t(1) r(1) bindE.simps bit_rates.simps t(2) r(2) narrowed_def simp_thms)
qed

theorem bit_rates_wrap_witness:
  "\<exists>r. bitrate_response tree_lib (Some 1)
      (Some (makeResponseEnvelope 5 ''mpss'' ''00000000'' ''pa-1'' (JObj [(''maxTxRate'', JInt 4000000000), (''maxRxRate'', JInt 5000000000)])))
      \<lparr>io_counter = 0, io_now = 0, io_out = []\<rparr> =
      Inr (io_emit (Bitrate_Called 1 r EC_SUCCESS) \<lparr>io_counter = 0, io_now = 0, io_out = []\<rparr>) \<and>
    uint (maxTxRate r) = 4000000000 + 2 ^ 64 - 2 ^ 32 \<and> uint (maxRxRate r) = 705032704"
proof -
  have "good_data (Some (makeResponseEnvelope 5 ''mpss'' ''00000000'' ''pa-1''
      (JObj [(''maxTxRate'', JInt 4000000000), (''maxRxRate'', JInt 5000000000)]))) =
    Some (JObj [(''maxTxRate'', JInt 4000000000), (''maxRxRate'', JInt 5000000000)])"
    by (simp add: good_data_def makeResponseEnvelope_def)
  from bit_rates_wrap [OF this, of tree_lib "JInt 4000000000" 4000000000 "JInt 5000000000" 5000000000 1] show ?thesis
    by (simp add: tree_lib_def)
qed

end
