(* ===== verification/Data_Session.thy ===== *)
theory Data_Session
  imports Data_Call Chart_Timer
begin

text \<open>
  \<open>SimulaDataCallSession\<close> of \<open>component/data/DataConnectionManager.cpp\<close>: the active object that takes one
  data call through its life. Its nine states are those of the code; six of them lie below
  \<open>Active\<close>. A null callback is \<open>None\<close>.
\<close>

section \<open>Data\<close>

datatype dstate =
    Idle | Active | SendingStartReq | WaitingForUp | CallConnected | SendingStopReq | WaitingForDown
  | Reconciling | Terminal

text \<open>The signals the session handles; a response carries the envelope, or nothing after a timeout.\<close>

datatype 'j session_event =
    Ses_Start_Signal
  | Ses_Stop_Signal "nat option"
  | StartRsp_Signal "'j envelope option"
  | StopRsp_Signal "'j envelope option"
  | StateInd_Signal "'j envelope"
  | BringupTimeout_Signal
  | TeardownTimeout_Signal
  | ListRsp_Signal "'j envelope option"

datatype session_timer = Bringup_Timer | Teardown_Timer

fun session_timer_event :: "session_timer \<Rightarrow> 'j session_event" where
  "session_timer_event Bringup_Timer = BringupTimeout_Signal"
| "session_timer_event Teardown_Timer = TeardownTimeout_Signal"

text \<open>
  The effects of a session. The call object is passed by reference; an effect shows it as it
  stands when it is handed over, \<open>None\<close> is the null pointer.
\<close>

datatype session_cont = K_Start_Call | K_Stop_Call | K_List_Call

datatype 'j session_effect =
    Ses_Request string string "'j envelope" session_cont int
  | Start_Called nat "data_call option" error_code
  | Stop_Called nat "data_call option" error_code
  | Notified data_call
  | Finished int

record 'j session_ext =
  ss_json :: "'j json_lib"
  start_data_call_req :: string
  stop_data_call_req :: string
  list_data_call_req :: string
  ss_pa_id :: string

record 'j data_session = "(dstate, 'j session_event) active_object" +
  ds_slotId :: int
  ds_profileId :: int
  ds_operationType :: operation_type
  ds_call :: data_call
  ds_startCb :: "nat option"
  ds_stopCb :: "nat option"
  ds_bringup :: "session_timer time_event"
  ds_teardown :: "session_timer time_event"
  ds_timers :: "session_timer timer_service"
  ds_deferred :: "'j session_event defer_queue"
  ds_io :: "'j session_effect io"

definition kDataRpcTimeout :: int where "kDataRpcTimeout = 30000"
definition kBringupTimeout :: int where "kBringupTimeout = 30000"
definition kTeardownTimeout :: int where "kTeardownTimeout = 30000"

section \<open>Operations\<close>

definition ds_emit :: "'j session_effect \<Rightarrow> 'j data_session \<Rightarrow> 'j data_session" where
  "ds_emit x h = h\<lparr>ds_io := io_emit x (ds_io h)\<rparr>"

definition on_call :: "(data_call \<Rightarrow> data_call) \<Rightarrow> 'j data_session \<Rightarrow> 'j data_session" where
  "on_call f h = h\<lparr>ds_call := f (ds_call h)\<rparr>"

definition start_called :: "data_call option \<Rightarrow> error_code \<Rightarrow> 'j data_session \<Rightarrow> 'j data_session" where
  "start_called c er h = (case ds_startCb h of None \<Rightarrow> h | Some cb \<Rightarrow> ds_emit (Start_Called cb c er) h)"

definition stop_called :: "data_call option \<Rightarrow> error_code \<Rightarrow> 'j data_session \<Rightarrow> 'j data_session" where
  "stop_called c er h = (case ds_stopCb h of None \<Rightarrow> h | Some cb \<Rightarrow> ds_emit (Stop_Called cb c er) h)"

definition notifyListeners :: "'j data_session \<Rightarrow> 'j data_session" where
  "notifyListeners h = ds_emit (Notified (ds_call h)) h"

definition onFinished :: "'j data_session \<Rightarrow> 'j data_session" where
  "onFinished h = ds_emit (Finished (ds_profileId h)) h"

definition session_request :: "'j session_ext \<Rightarrow> string \<Rightarrow> string \<Rightarrow> 'j \<Rightarrow> session_cont \<Rightarrow> 'j data_session \<Rightarrow> 'j data_session" where
  "session_request X topic schema dat k h =
     (case io_request (ss_pa_id X) dat (ds_io h) of (req, s) \<Rightarrow>
        h\<lparr>ds_io := io_emit (Ses_Request topic schema req k kDataRpcTimeout) s\<rparr>)"

text \<open>The callback of a request posts the response back to the session.\<close>

fun session_response :: "session_cont \<Rightarrow> 'j envelope option \<Rightarrow> 'j session_event" where
  "session_response K_Start_Call rsp = StartRsp_Signal rsp"
| "session_response K_Stop_Call rsp = StopRsp_Signal rsp"
| "session_response K_List_Call rsp = ListRsp_Signal rsp"

definition newSession :: "int \<Rightarrow> int \<Rightarrow> ip_family \<Rightarrow> operation_type \<Rightarrow> string \<Rightarrow> 'j data_session" where
  "newSession slot p fam ty name =
     \<lparr>hstate = Null_St, htemp = Null_St, last_ignored = False, trace_fn = False, probe_fn = False, instr_log = [],
      ao_name = ''DataCallSession'', ao_inst = False, ao_q = [], ao_running = False,
      ds_slotId = slot, ds_profileId = p, ds_operationType = ty, ds_call = newDataCall p slot fam ty name,
      ds_startCb = None, ds_stopCb = None,
      ds_bringup = \<lparr>te_fn = Bringup_Timer, te_tok = None\<rparr>, ds_teardown = \<lparr>te_fn = Teardown_Timer, te_tok = None\<rparr>,
      ds_timers = timer_init, ds_deferred = [], ds_io = \<lparr>io_counter = 0, io_now = 0, io_out = []\<rparr>\<rparr>"

definition requestStop :: "nat option \<Rightarrow> 'j data_session \<Rightarrow> 'j data_session" where
  "requestStop cb h = post_fifo (Ses_Stop_Signal cb) h"

definition deliverStateInd :: "'j envelope \<Rightarrow> 'j data_session \<Rightarrow> 'j data_session" where
  "deliverStateInd env h = post_fifo (StateInd_Signal env) h"

section \<open>Entry and exit actions\<close>

text \<open>The data of the start and the stop request.\<close>

definition call_data :: "'j json_lib \<Rightarrow> 'j data_session \<Rightarrow> 'j" where
  "call_data J h =
     j_set J ''slot'' (j_of_int J (ds_slotId h))
      (j_set J ''opType'' (j_of_string J (opTypeToWire (ds_operationType h)))
       (j_set J ''ifname'' (j_of_string J (dc_interfaceName (ds_call h)))
        (j_set J ''ipFamily'' (j_of_string J (ipFamilyToWire (dc_ipFamilyType (ds_call h))))
         (j_set J ''profileId'' (j_of_int J (ds_profileId h)) (j_object J)))))"

definition enterSendingStartReq :: "'j session_ext \<Rightarrow> 'j data_session \<Rightarrow> 'j data_session" where
  "enterSendingStartReq X h =
     session_request X (start_data_call_req X) ''data.start_data_call.rsp'' (call_data (ss_json X) h) K_Start_Call h"

definition enterSendingStopReq :: "'j session_ext \<Rightarrow> 'j data_session \<Rightarrow> 'j data_session" where
  "enterSendingStopReq X h =
     session_request X (stop_data_call_req X) ''data.stop_data_call.rsp'' (call_data (ss_json X) h) K_Stop_Call h"

definition enterReconciling :: "'j session_ext \<Rightarrow> 'j data_session \<Rightarrow> 'j data_session" where
  "enterReconciling X h =
     (let J = ss_json X in
      session_request X (list_data_call_req X) ''data.list_data_call.rsp''
        (j_set J ''slot'' (j_of_int J (ds_slotId h))
          (j_set J ''opType'' (j_of_string J (opTypeToWire (ds_operationType h))) (j_object J))) K_List_Call h)"

definition enterWaitingForUp :: "'j data_session \<Rightarrow> 'j data_session" where
  "enterWaitingForUp h =
     (case arm_one_shot (io_now (ds_io h)) kBringupTimeout (ds_bringup h) (ds_timers h) of (te, ts) \<Rightarrow>
      let h = h\<lparr>ds_bringup := te, ds_timers := ts\<rparr> in
      case recall_all (ds_deferred h) h of (_, q, h) \<Rightarrow> h\<lparr>ds_deferred := q\<rparr>)"

definition exitWaitingForUp :: "'j data_session \<Rightarrow> 'j data_session" where
  "exitWaitingForUp h =
     (case disarm (ds_bringup h) (ds_timers h) of (te, ts) \<Rightarrow> h\<lparr>ds_bringup := te, ds_timers := ts\<rparr>)"

definition enterWaitingForDown :: "'j data_session \<Rightarrow> 'j data_session" where
  "enterWaitingForDown h =
     (case arm_one_shot (io_now (ds_io h)) kTeardownTimeout (ds_teardown h) (ds_timers h) of (te, ts) \<Rightarrow>
        h\<lparr>ds_teardown := te, ds_timers := ts\<rparr>)"

definition exitWaitingForDown :: "'j data_session \<Rightarrow> 'j data_session" where
  "exitWaitingForDown h =
     (case disarm (ds_teardown h) (ds_timers h) of (te, ts) \<Rightarrow> h\<lparr>ds_teardown := te, ds_timers := ts\<rparr>)"

section \<open>Responses and indications\<close>

definition ind_status :: "'j json_lib \<Rightarrow> 'j \<Rightarrow> call_status result" where
  "ind_status J d = bindE (value_string J d ''status'') (\<lambda>s. Inr (wireToCallStatus s))"

text \<open>The interface name of a message is adopted when it is not empty.\<close>

definition adopt_ifname :: "'j json_lib \<Rightarrow> 'j \<Rightarrow> 'j data_session \<Rightarrow> 'j data_session result" where
  "adopt_ifname J d h =
     bindE (value_string J d ''ifname'') (\<lambda>n. Inr (if n \<noteq> [] then on_call (setInterfaceName n) h else h))"

definition adopt_bearer :: "'j json_lib \<Rightarrow> 'j \<Rightarrow> 'j data_session \<Rightarrow> 'j data_session result" where
  "adopt_bearer J d h =
     (case j_find J d ''bearer_tech'' of
        None \<Rightarrow> Inr h
      | Some _ \<Rightarrow> bindE (value_string J d ''bearer_tech'') (\<lambda>s. Inr (on_call (setBearerTech (wireToBearerTech s)) h)))"

definition adopt_addr :: "'j json_lib \<Rightarrow> 'j \<Rightarrow> call_status \<Rightarrow> 'j data_session \<Rightarrow> 'j data_session result" where
  "adopt_addr J d st h = bindE (applyAddrInfo J d st (ds_call h)) (\<lambda>c. Inr (h\<lparr>ds_call := c\<rparr>))"

text \<open>The indication that the call is gone, in the three states that wait for one.\<close>

definition call_gone :: "'j json_lib \<Rightarrow> 'j \<Rightarrow> 'j data_session \<Rightarrow> (status \<times> 'j data_session) result" where
  "call_gone J d h =
     (let h = on_call (setStatus NET_NO_NET) h in
      bindE (case j_find J d ''end_reason'' of
           None \<Rightarrow> Inr h
         | Some r \<Rightarrow> bindE (decodeEndReason J r) (\<lambda>r. Inr (on_call (setEndReason r) h)))
        (\<lambda>h. Inr (to_st (St Terminal) (notifyListeners h))))"

definition startFailed :: "error_code \<Rightarrow> 'j data_session \<Rightarrow> status \<times> 'j data_session" where
  "startFailed er h = to_st (St Terminal) (onFinished (start_called None er h))"

definition startRsp :: "'j json_lib \<Rightarrow> 'j envelope option \<Rightarrow> 'j data_session \<Rightarrow> (status \<times> 'j data_session) result" where
  "startRsp J rsp h =
     (case rsp of
        None \<Rightarrow> Inr (startFailed EC_OPERATION_TIMEOUT h)
      | Some env \<Rightarrow>
          (case env_error env of
             Some e \<Rightarrow> bindE (value_string J e ''code'') (\<lambda>c. Inr (startFailed (parseErrorCode c) h))
           | None \<Rightarrow>
               (let h = on_call (setStatus NET_CONNECTING) h in
                bindE (case env_data env of None \<Rightarrow> Inr h | Some d \<Rightarrow> adopt_ifname J d h) (\<lambda>h.
                  Inr (to_st (St WaitingForUp) (start_called (Some (ds_call h)) EC_SUCCESS h))))))"

definition upInd :: "'j json_lib \<Rightarrow> 'j envelope \<Rightarrow> 'j data_session \<Rightarrow> (status \<times> 'j data_session) result" where
  "upInd J env h =
     (case env_data env of
        None \<Rightarrow> Inr (HANDLED, h)
      | Some d \<Rightarrow> bindE (ind_status J d) (\<lambda>st.
          if st = NET_CONNECTED then
            bindE (adopt_ifname J d (on_call (setStatus st) h)) (\<lambda>h.
            bindE (adopt_addr J d st h) (\<lambda>h.
            bindE (adopt_bearer J d h) (\<lambda>h. Inr (to_st (St CallConnected) h))))
          else if st = NET_NO_NET then call_gone J d h
          else Inr (HANDLED, h)))"

definition bringupTimeout :: "'j data_session \<Rightarrow> status \<times> 'j data_session" where
  "bringupTimeout h =
     to_st (St Terminal) (notifyListeners (on_call (\<lambda>c. setStatus NET_NO_NET (setEndReason no_reason c)) h))"

text \<open>An indication while the call is up; a repeated \<open>CONNECTED\<close> leaves the status alone.\<close>

definition connectedInd :: "'j json_lib \<Rightarrow> 'j envelope \<Rightarrow> 'j data_session \<Rightarrow> (status \<times> 'j data_session) result" where
  "connectedInd J env h =
     (case env_data env of
        None \<Rightarrow> Inr (HANDLED, h)
      | Some d \<Rightarrow> bindE (ind_status J d) (\<lambda>st.
          if st = NET_RECONFIGURED \<or> st = NET_NEWADDR \<or> st = NET_DELADDR then
            bindE (adopt_addr J d st (on_call (setStatus st) h)) (\<lambda>h. Inr (HANDLED, notifyListeners h))
          else if st = NET_CONNECTED then
            bindE (adopt_bearer J d h) (\<lambda>h.
            bindE (addrInfoDiffers J (ds_call h) d) (\<lambda>differs.
              if differs then bindE (adopt_addr J d st h) (\<lambda>h. Inr (HANDLED, notifyListeners h))
              else Inr (HANDLED, h)))
          else if st = NET_NO_NET then call_gone J d h
          else Inr (HANDLED, h)))"

definition stopRsp :: "'j envelope option \<Rightarrow> 'j data_session \<Rightarrow> status \<times> 'j data_session" where
  "stopRsp rsp h =
     (if has_error rsp then to_st (St Reconciling) h
      else let h = on_call (setStatus NET_DISCONNECTING) h in
        to_st (St WaitingForDown) (stop_called (Some (ds_call h)) EC_SUCCESS h))"

definition downInd :: "'j json_lib \<Rightarrow> 'j envelope \<Rightarrow> 'j data_session \<Rightarrow> (status \<times> 'j data_session) result" where
  "downInd J env h =
     (case env_data env of
        None \<Rightarrow> Inr (HANDLED, h)
      | Some d \<Rightarrow> bindE (ind_status J d) (\<lambda>st. if st = NET_NO_NET then call_gone J d h else Inr (HANDLED, h)))"

definition teardownTimeout :: "'j data_session \<Rightarrow> status \<times> 'j data_session" where
  "teardownTimeout h = to_st (St Terminal) (notifyListeners (on_call (setStatus NET_NO_NET) h))"

text \<open>The loop over the calls of the list; it ends at the first that is this one and connected.\<close>

fun still_up :: "'j json_lib \<Rightarrow> int \<Rightarrow> 'j list \<Rightarrow> bool result" where
  "still_up J p [] = Inr False"
| "still_up J p (c # cs) =
     bindE (value_int_or (-1) J c ''profileId'') (\<lambda>q.
       if q \<noteq> p then still_up J p cs
       else bindE (value_string J c ''status'') (\<lambda>s.
         if wireToCallStatus s = NET_CONNECTED then Inr True else still_up J p cs))"

definition listed_up :: "'j json_lib \<Rightarrow> int \<Rightarrow> 'j option \<Rightarrow> bool result" where
  "listed_up J p dat =
     (case dat of
        None \<Rightarrow> Inr False
      | Some d \<Rightarrow> (case j_find J d ''calls'' of None \<Rightarrow> Inr False | Some cs \<Rightarrow> still_up J p (j_iter J cs)))"

definition listRsp :: "'j json_lib \<Rightarrow> 'j envelope option \<Rightarrow> 'j data_session \<Rightarrow> (status \<times> 'j data_session) result" where
  "listRsp J rsp h =
     (if has_error rsp then
        Inr (to_st (St Terminal) (notifyListeners (stop_called None EC_GENERIC_FAILURE (on_call (setStatus NET_NO_NET) h))))
      else bindE (listed_up J (ds_profileId h) (Option.bind rsp env_data)) (\<lambda>up.
        Inr (if up then to_st (St CallConnected) (stop_called None EC_GENERIC_FAILURE (on_call (setStatus NET_CONNECTED) h))
             else let h = on_call (setStatus NET_NO_NET) h in
               to_st (St Terminal) (notifyListeners (stop_called (Some (ds_call h)) EC_SUCCESS h)))))"

section \<open>State handlers\<close>

fun Idle_St :: "'j session_event event \<Rightarrow> 'j data_session \<Rightarrow> (status \<times> 'j data_session) result" where
  "Idle_St Entry_Signal h = Inr (HANDLED, h)"
| "Idle_St Exit_Signal h = Inr (HANDLED, h)"
| "Idle_St (User Ses_Start_Signal) h = Inr (to_st (St SendingStartReq) h)"
| "Idle_St _ h = Inr (super_st Top_St h)"

fun Active_St :: "'j session_event event \<Rightarrow> 'j data_session \<Rightarrow> (status \<times> 'j data_session) result" where
  "Active_St Entry_Signal h = Inr (HANDLED, h)"
| "Active_St Exit_Signal h = Inr (HANDLED, h)"
| "Active_St (User (Ses_Stop_Signal cb)) h =
     Inr (HANDLED, case cb of None \<Rightarrow> h | Some c \<Rightarrow> ds_emit (Stop_Called c (Some (ds_call h)) EC_OP_IN_PROGRESS) h)"
| "Active_St _ h = Inr (super_st Top_St h)"

fun SendingStartReq_St :: "'j session_ext \<Rightarrow> 'j session_event event \<Rightarrow> 'j data_session \<Rightarrow> (status \<times> 'j data_session) result" where
  "SendingStartReq_St X Entry_Signal h = Inr (HANDLED, enterSendingStartReq X h)"
| "SendingStartReq_St X (User (Ses_Stop_Signal cb)) h =
     Inr (HANDLED, h\<lparr>ds_deferred := dq_push (Ses_Stop_Signal cb) (ds_deferred h)\<rparr>)"
| "SendingStartReq_St X (User (StartRsp_Signal rsp)) h = startRsp (ss_json X) rsp h"
| "SendingStartReq_St X _ h = Inr (super_st (St Active) h)"

fun WaitingForUp_St :: "'j session_ext \<Rightarrow> 'j session_event event \<Rightarrow> 'j data_session \<Rightarrow> (status \<times> 'j data_session) result" where
  "WaitingForUp_St X Entry_Signal h = Inr (HANDLED, enterWaitingForUp h)"
| "WaitingForUp_St X Exit_Signal h = Inr (HANDLED, exitWaitingForUp h)"
| "WaitingForUp_St X (User (StateInd_Signal env)) h = upInd (ss_json X) env h"
| "WaitingForUp_St X (User BringupTimeout_Signal) h = Inr (bringupTimeout h)"
| "WaitingForUp_St X (User (Ses_Stop_Signal cb)) h = Inr (to_st (St SendingStopReq) (h\<lparr>ds_stopCb := cb\<rparr>))"
| "WaitingForUp_St X _ h = Inr (super_st (St Active) h)"

fun CallConnected_St :: "'j session_ext \<Rightarrow> 'j session_event event \<Rightarrow> 'j data_session \<Rightarrow> (status \<times> 'j data_session) result" where
  "CallConnected_St X Entry_Signal h = Inr (HANDLED, notifyListeners h)"
| "CallConnected_St X (User (StateInd_Signal env)) h = connectedInd (ss_json X) env h"
| "CallConnected_St X (User (Ses_Stop_Signal cb)) h = Inr (to_st (St SendingStopReq) (h\<lparr>ds_stopCb := cb\<rparr>))"
| "CallConnected_St X _ h = Inr (super_st (St Active) h)"

fun SendingStopReq_St :: "'j session_ext \<Rightarrow> 'j session_event event \<Rightarrow> 'j data_session \<Rightarrow> (status \<times> 'j data_session) result" where
  "SendingStopReq_St X Entry_Signal h = Inr (HANDLED, enterSendingStopReq X h)"
| "SendingStopReq_St X (User (StopRsp_Signal rsp)) h = Inr (stopRsp rsp h)"
| "SendingStopReq_St X _ h = Inr (super_st (St Active) h)"

fun WaitingForDown_St :: "'j session_ext \<Rightarrow> 'j session_event event \<Rightarrow> 'j data_session \<Rightarrow> (status \<times> 'j data_session) result" where
  "WaitingForDown_St X Entry_Signal h = Inr (HANDLED, enterWaitingForDown h)"
| "WaitingForDown_St X Exit_Signal h = Inr (HANDLED, exitWaitingForDown h)"
| "WaitingForDown_St X (User (StateInd_Signal env)) h = downInd (ss_json X) env h"
| "WaitingForDown_St X (User TeardownTimeout_Signal) h = Inr (teardownTimeout h)"
| "WaitingForDown_St X _ h = Inr (super_st (St Active) h)"

fun Reconciling_St :: "'j session_ext \<Rightarrow> 'j session_event event \<Rightarrow> 'j data_session \<Rightarrow> (status \<times> 'j data_session) result" where
  "Reconciling_St X Entry_Signal h = Inr (HANDLED, enterReconciling X h)"
| "Reconciling_St X (User (ListRsp_Signal rsp)) h = listRsp (ss_json X) rsp h"
| "Reconciling_St X _ h = Inr (super_st (St Active) h)"

fun Terminal_St :: "'j session_event event \<Rightarrow> 'j data_session \<Rightarrow> (status \<times> 'j data_session) result" where
  "Terminal_St Entry_Signal h = Inr (HANDLED, onFinished h)"
| "Terminal_St _ h = Inr (HANDLED, h)"

fun session_handlers :: "'j session_ext \<Rightarrow> dstate \<Rightarrow> 'j session_event event \<Rightarrow> 'j data_session
    \<Rightarrow> (status \<times> 'j data_session) result" where
  "session_handlers X Idle = Idle_St"
| "session_handlers X Active = Active_St"
| "session_handlers X SendingStartReq = SendingStartReq_St X"
| "session_handlers X WaitingForUp = WaitingForUp_St X"
| "session_handlers X CallConnected = CallConnected_St X"
| "session_handlers X SendingStopReq = SendingStopReq_St X"
| "session_handlers X WaitingForDown = WaitingForDown_St X"
| "session_handlers X Reconciling = Reconciling_St X"
| "session_handlers X Terminal = Terminal_St"

text \<open>\<open>start\<close>: called once, right after construction; and the destructor with those of its two timers.\<close>

definition session_start :: "nat \<Rightarrow> 'j session_ext \<Rightarrow> nat option \<Rightarrow> 'j data_session \<Rightarrow> 'j data_session result" where
  "session_start n X cb h =
     bindE (start_at n (session_handlers X) (St Idle) (h\<lparr>ds_startCb := cb, ao_inst := True\<rparr>))
       (\<lambda>h. Inr (post_fifo Ses_Start_Signal h))"

definition session_destroy :: "nat \<Rightarrow> nat \<Rightarrow> 'j session_ext \<Rightarrow> 'j data_session \<Rightarrow> 'j data_session result" where
  "session_destroy k n X h =
     bindE (stop k n (session_handlers X) False h) (\<lambda>h. Inr (exitWaitingForUp (exitWaitingForDown h)))"

end
