(* ===== verification/Data_Session_Chart.thy ===== *)
theory Data_Session_Chart
  imports Data_Session
begin

text \<open>
  The data call session as an instance of the state chart contract, and its reaction to one event
  without the machinery of \<open>Hsm\<close>: which state it is in afterwards and what it has done.
\<close>

section \<open>What the actions leave alone\<close>

named_theorems session_ops \<open>the operations of a session as updates of its record\<close>

lemmas session_plain [session_ops] = ds_emit_def on_call_def start_called_def stop_called_def
  notifyListeners_def onFinished_def to_st_def super_st_def

lemma session_request_closed:
  "session_request X t sc d k h =
     h\<lparr>ds_io := io_emit (Ses_Request t sc (fst (io_request (ss_pa_id X) d (ds_io h))) k kDataRpcTimeout)
       (snd (io_request (ss_pa_id X) d (ds_io h)))\<rparr>"
  by (simp add: session_request_def case_prod_unfold)

lemma enterWaitingForUp_closed:
  "enterWaitingForUp h =
     (let a = arm_one_shot (io_now (ds_io h)) kBringupTimeout (ds_bringup h) (ds_timers h) in
      h\<lparr>ds_bringup := fst a, ds_timers := snd a, ds_deferred := [],
        ao_q := (if ao_running h then ao_q h @ ds_deferred h else ao_q h)\<rparr>)"
  using fold_post_fifo [of "h\<lparr>ds_bringup := a, ds_timers := b\<rparr>" "ds_deferred h" for a b]
    fold_post_fifo_stopped [of "h\<lparr>ds_bringup := a, ds_timers := b\<rparr>" "ds_deferred h" for a b]
  by (cases "ao_running h") (simp_all add: enterWaitingForUp_def Let_def case_prod_unfold recall_all_fold)

lemmas session_closed [session_ops] = session_request_closed enterSendingStartReq_def enterSendingStopReq_def
  enterReconciling_def enterWaitingForUp_closed exitWaitingForUp_def enterWaitingForDown_def exitWaitingForDown_def
  case_prod_unfold Let_def

section \<open>The chart\<close>

fun session_par :: "dstate \<Rightarrow> dstate sref" where
  "session_par Idle = Top_St"
| "session_par Active = Top_St"
| "session_par Terminal = Top_St"
| "session_par _ = St Active"

fun session_en :: "'j session_ext \<Rightarrow> dstate \<Rightarrow> 'j data_session \<Rightarrow> 'j data_session" where
  "session_en X SendingStartReq h = enterSendingStartReq X h"
| "session_en X WaitingForUp h = enterWaitingForUp h"
| "session_en X CallConnected h = notifyListeners h"
| "session_en X SendingStopReq h = enterSendingStopReq X h"
| "session_en X WaitingForDown h = enterWaitingForDown h"
| "session_en X Reconciling h = enterReconciling X h"
| "session_en X Terminal h = onFinished h"
| "session_en X _ h = h"

fun session_ex :: "dstate \<Rightarrow> 'j data_session \<Rightarrow> 'j data_session" where
  "session_ex WaitingForUp h = exitWaitingForUp h"
| "session_ex WaitingForDown h = exitWaitingForDown h"
| "session_ex _ h = h"

lemma session_en_temp: "session_en X s (h\<lparr>htemp := x\<rparr>) = (session_en X s h)\<lparr>htemp := x\<rparr>"
  by (cases s) (simp_all add: session_ops call_data_def)

lemma session_ex_temp: "session_ex s (h\<lparr>htemp := x\<rparr>) = (session_ex s h)\<lparr>htemp := x\<rparr>"
  by (cases s) (simp_all add: session_ops)

lemma session_border_posts: "posts_only h (session_en X s h)" "posts_only h (session_ex s h)"
  by (cases s; simp add: session_ops posts_only_def)+

text \<open>A handler of a leaf passes an event on, takes it, or moves to a state other than \<open>Active\<close>.\<close>

definition leaf_state :: "dstate \<Rightarrow> bool" where
  "leaf_state s \<longleftrightarrow> s \<noteq> Active"

text \<open>The object differs in the call at most, whose status is \<open>st\<close>.\<close>

definition with_call :: "call_status \<Rightarrow> 'j data_session \<Rightarrow> 'j data_session \<Rightarrow> bool" where
  "with_call st h h' \<longleftrightarrow> h' = h\<lparr>ds_call := ds_call h'\<rparr> \<and> dc_status (ds_call h') = st"

lemma with_call_refl [simp]: "with_call (dc_status (ds_call h)) h h"
  by (simp add: with_call_def)

lemma with_call_on: "dc_status (f (ds_call h)) = st \<Longrightarrow> with_call st h (on_call f h)"
  by (simp add: with_call_def on_call_def)

lemma with_call_trans: "with_call s h g \<Longrightarrow> with_call t g k \<Longrightarrow> with_call t h k"
  unfolding with_call_def by (metis data_session.update_convs(4) data_session.surjective)

lemma with_call_status: "with_call st h h' \<Longrightarrow> dc_status (ds_call h') = st"
  by (simp add: with_call_def)

lemma adopts_call:
  "adopt_ifname J d h = Inr h' \<Longrightarrow> with_call (dc_status (ds_call h)) h h'"
  "adopt_bearer J d h = Inr h' \<Longrightarrow> with_call (dc_status (ds_call h)) h h'"
  "adopt_addr J d st h = Inr h' \<Longrightarrow> with_call (dc_status (ds_call h)) h h'"
  by (auto simp: adopt_ifname_def adopt_bearer_def adopt_addr_def bindE_eq_Inr split: option.splits if_splits
      intro!: with_call_on) (auto simp: with_call_def dest: applyAddrInfo_status)

text \<open>The end of a session that had a call, and of one that had none.\<close>

definition gone :: "'j data_session \<Rightarrow> 'j data_session \<Rightarrow> bool" where
  "gone h h' \<longleftrightarrow> (\<exists>g. with_call NET_NO_NET h g \<and> h' = (notifyListeners g)\<lparr>htemp := St Terminal\<rparr>)"

lemma goneI: "with_call NET_NO_NET h g \<Longrightarrow> gone h ((notifyListeners g)\<lparr>htemp := St Terminal\<rparr>)"
  by (auto simp: gone_def)

lemma call_gone_Inr:
  assumes "call_gone J d h = Inr (r, h')"
  shows "r = NEED_TO_TRANSFER \<and> gone h h'"
proof -
  let ?h = "on_call (setStatus NET_NO_NET) h"
  from assms obtain g where "g = ?h \<or> (\<exists>e. g = on_call (setEndReason e) ?h)"
    and g: "r = NEED_TO_TRANSFER" "h' = (notifyListeners g)\<lparr>htemp := St Terminal\<rparr>"
    by (auto simp: call_gone_def Let_def bindE_eq_Inr to_st_def split: option.splits)
  then have "with_call NET_NO_NET h g" by (auto simp: with_call_def on_call_def)
  with g show ?thesis using goneI by blast
qed

lemma startRsp_Inr:
  assumes "startRsp J rsp h = Inr (r, h')"
  shows "r = NEED_TO_TRANSFER \<and>
    ((\<exists>er. has_error rsp \<and> h' = (onFinished (start_called None er h))\<lparr>htemp := St Terminal\<rparr>) \<or>
     (\<exists>g. \<not> has_error rsp \<and> with_call NET_CONNECTING h g \<and>
        h' = (start_called (Some (ds_call g)) EC_SUCCESS g)\<lparr>htemp := St WaitingForUp\<rparr>))"
proof (cases "has_error rsp")
  case True
  with assms show ?thesis
    by (auto simp: startRsp_def startFailed_def to_st_def has_error_def bindE_eq_Inr split: option.splits)
next
  case False
  then obtain env where env: "rsp = Some env" "env_error env = None" by (auto simp: has_error_def split: option.splits)
  let ?h = "on_call (setStatus NET_CONNECTING) h"
  from assms env obtain g where g: "(case env_data env of None \<Rightarrow> Inr ?h | Some d \<Rightarrow> adopt_ifname J d ?h) = Inr g"
    "(r, h') = to_st (St WaitingForUp) (start_called (Some (ds_call g)) EC_SUCCESS g)"
    by (auto simp: startRsp_def Let_def bindE_eq_Inr)
  have "with_call NET_CONNECTING h ?h" by (simp add: with_call_on)
  moreover have "with_call NET_CONNECTING ?h g"
    using g(1) adopts_call(1) [of J _ ?h g] by (auto simp: with_call_def on_call_def split: option.splits)
  ultimately have "with_call NET_CONNECTING h g" by (rule with_call_trans)
  then show ?thesis using g(2) False by (auto simp: to_st_def)
qed

lemma upInd_Inr:
  assumes ind: "upInd J env h = Inr (r, h')"
  shows "(r = HANDLED \<and> h' = h) \<or>
    (r = NEED_TO_TRANSFER \<and> (\<exists>g. with_call NET_CONNECTED h g \<and> h' = g\<lparr>htemp := St CallConnected\<rparr>)) \<or>
    (r = NEED_TO_TRANSFER \<and> gone h h')"
proof (cases "env_data env")
  case (Some d)
  let ?h = "on_call (setStatus NET_CONNECTED) h"
  from ind Some obtain st where st: "ind_status J d = Inr st" by (auto simp: upInd_def bindE_eq_Inr)
  consider "st = NET_CONNECTED" | "st = NET_NO_NET" | "st \<noteq> NET_CONNECTED" "st \<noteq> NET_NO_NET" by blast
  then show ?thesis
  proof cases
    case 1
    with ind Some st obtain g1 g2 g3 where g: "adopt_ifname J d ?h = Inr g1"
        "adopt_addr J d NET_CONNECTED g1 = Inr g2" "adopt_bearer J d g2 = Inr g3" "to_st (St CallConnected) g3 = (r, h')"
      by (simp add: upInd_def bindE_eq_Inr) blast
    have "with_call NET_CONNECTED h ?h" by (simp add: with_call_on)
    from with_call_trans [OF with_call_trans [OF with_call_trans [OF this adopts_call(1) [OF g(1)]]
        adopts_call(3) [OF g(2)]] adopts_call(2) [OF g(3)]]
    have "with_call (dc_status (ds_call g2)) h g3" .
    moreover have "dc_status (ds_call g2) = NET_CONNECTED"
      using adopts_call(1) [OF g(1)] adopts_call(3) [OF g(2)] by (simp add: with_call_def on_call_def)
    ultimately show ?thesis using g(4) by (auto simp: to_st_def)
  next
    case 2
    with ind Some st call_gone_Inr [of J d h r h'] show ?thesis by (simp add: upInd_def)
  next
    case 3
    with ind Some st show ?thesis by (simp add: upInd_def)
  qed
qed (use ind in \<open>simp add: upInd_def\<close>)

lemma connectedInd_Inr:
  assumes ind: "connectedInd J env h = Inr (r, h')"
  shows "(r = HANDLED \<and> with_call (dc_status (ds_call h)) h h') \<or>
    (r = HANDLED \<and> (\<exists>st g. st \<in> {dc_status (ds_call h), NET_RECONFIGURED, NET_NEWADDR, NET_DELADDR} \<and>
       with_call st h g \<and> h' = notifyListeners g)) \<or>
    (r = NEED_TO_TRANSFER \<and> gone h h')"
proof (cases "env_data env")
  case (Some d)
  from ind Some obtain st where st: "ind_status J d = Inr st" by (auto simp: connectedInd_def bindE_eq_Inr)
  consider "st \<in> {NET_RECONFIGURED, NET_NEWADDR, NET_DELADDR}" | "st = NET_CONNECTED" | "st = NET_NO_NET"
    | "st \<notin> {NET_RECONFIGURED, NET_NEWADDR, NET_DELADDR, NET_CONNECTED, NET_NO_NET}" by blast
  then show ?thesis
  proof cases
    case 1
    with ind Some st obtain g where g: "adopt_addr J d st (on_call (setStatus st) h) = Inr g" "r = HANDLED"
        "h' = notifyListeners g"
      by (auto simp: connectedInd_def bindE_eq_Inr)
    have "with_call st h (on_call (setStatus st) h)" by (simp add: with_call_on)
    from with_call_trans [OF this adopts_call(3) [OF g(1)]] have "with_call st h g" by (simp add: on_call_def)
    with 1 g show ?thesis by blast
  next
    case 2
    with ind Some st obtain g b where g: "adopt_bearer J d h = Inr g" "addrInfoDiffers J (ds_call g) d = Inr b"
        "(if b then bindE (adopt_addr J d NET_CONNECTED g) (\<lambda>h. Inr (HANDLED, notifyListeners h)) else Inr (HANDLED, g)) =
          Inr (r, h')"
      by (simp add: connectedInd_def bindE_eq_Inr) blast
    note w = adopts_call(2) [OF g(1)]
    show ?thesis
    proof (cases b)
      case True
      with g(3) obtain g' where g': "adopt_addr J d NET_CONNECTED g = Inr g'" "r = HANDLED" "h' = notifyListeners g'"
        by (auto simp: bindE_eq_Inr)
      from with_call_trans [OF w adopts_call(3) [OF g'(1)]] have "with_call (dc_status (ds_call h)) h g'"
        using with_call_status [OF w] by simp
      with g' show ?thesis by blast
    qed (use w g(3) in simp)
  next
    case 3
    with ind Some st call_gone_Inr [of J d h r h'] show ?thesis by (simp add: connectedInd_def)
  next
    case 4
    with ind Some st show ?thesis by (auto simp: connectedInd_def)
  qed
qed (use ind in \<open>auto simp: connectedInd_def\<close>)

lemma downInd_Inr:
  assumes ind: "downInd J env h = Inr (r, h')"
  shows "(r = HANDLED \<and> h' = h) \<or> (r = NEED_TO_TRANSFER \<and> gone h h')"
proof (cases "env_data env")
  case (Some d)
  from ind Some obtain st where st: "ind_status J d = Inr st" by (auto simp: downInd_def bindE_eq_Inr)
  then show ?thesis using ind Some call_gone_Inr [of J d h r h'] by (cases "st = NET_NO_NET") (simp_all add: downInd_def)
qed (use ind in \<open>simp add: downInd_def\<close>)

lemma timeout_gone:
  "bringupTimeout h = (r, h') \<Longrightarrow> r = NEED_TO_TRANSFER \<and> gone h h'"
  "teardownTimeout h = (r, h') \<Longrightarrow> r = NEED_TO_TRANSFER \<and> gone h h'"
  by (auto simp: bringupTimeout_def teardownTimeout_def to_st_def intro!: goneI with_call_on)

lemma stopRsp_Inr:
  assumes "stopRsp rsp h = (r, h')"
  shows "r = NEED_TO_TRANSFER \<and>
    (has_error rsp \<and> h' = h\<lparr>htemp := St Reconciling\<rparr> \<or>
     (\<exists>g. \<not> has_error rsp \<and> with_call NET_DISCONNECTING h g \<and>
        h' = (stop_called (Some (ds_call g)) EC_SUCCESS g)\<lparr>htemp := St WaitingForDown\<rparr>))"
  using assms with_call_on [of "setStatus NET_DISCONNECTING" h NET_DISCONNECTING]
  by (auto simp: stopRsp_def to_st_def Let_def split: if_splits)

lemma listRsp_Inr:
  assumes "listRsp J rsp h = Inr (r, h')"
  shows "r = NEED_TO_TRANSFER \<and>
    ((\<exists>g. with_call NET_CONNECTED h g \<and>
        h' = (stop_called None EC_GENERIC_FAILURE g)\<lparr>htemp := St CallConnected\<rparr>) \<or>
     (\<exists>g c er. with_call NET_NO_NET h g \<and>
        h' = (notifyListeners (stop_called c er g))\<lparr>htemp := St Terminal\<rparr>))"
  using assms with_call_on [of "setStatus NET_NO_NET" h NET_NO_NET] with_call_on [of "setStatus NET_CONNECTED" h NET_CONNECTED]
  by (auto simp: listRsp_def to_st_def Let_def bindE_eq_Inr split: if_splits)

section \<open>The handlers keep the contract\<close>

lemmas session_outcomes = startRsp_Inr upInd_Inr connectedInd_Inr downInd_Inr timeout_gone stopRsp_Inr listRsp_Inr

lemma with_callE:
  assumes "with_call st h g"
  obtains c where "g = h\<lparr>ds_call := c\<rparr>" "dc_status c = st"
  using assms unfolding with_call_def by blast

lemma with_call_posts: "with_call st h g \<Longrightarrow> posts_only h g"
  by (erule with_callE) (simp add: posts_only_def)

lemma session_emit_posts [simp]:
  "posts_only k (ds_emit x h) = posts_only k h" "posts_only k (notifyListeners h) = posts_only k h"
  "posts_only k (onFinished h) = posts_only k h" "posts_only k (start_called c er h) = posts_only k h"
  "posts_only k (stop_called c er h) = posts_only k h"
  by (simp_all add: session_plain posts_only_def split: option.splits)

lemma gone_posts: "gone h h' \<Longrightarrow> posts_only h h' \<and> htemp h' = St Terminal"
  by (auto simp: gone_def with_call_posts)

text \<open>What a handler returns on an event.\<close>

lemma session_user:
  assumes "session_handlers X s (User u) h = Inr (r, h')"
  shows "posts_only h h' \<and> (r = TO_SUPER \<and> s \<noteq> Terminal \<and> h' = h\<lparr>htemp := session_par s\<rparr> \<or> r = HANDLED \<or>
    r = NEED_TO_TRANSFER \<and> s \<noteq> Terminal \<and> s \<noteq> Active \<and> (\<exists>t. htemp h' = St t \<and> t \<noteq> Active \<and> t \<noteq> s \<and> t \<noteq> Idle))"
proof (cases s)
  case Idle
  with assms show ?thesis by (cases u) (auto simp: to_st_def super_st_def)
next
  case Active
  with assms show ?thesis by (cases u) (auto simp: to_st_def super_st_def split: option.splits)
next
  case SendingStartReq
  with assms startRsp_Inr [of "ss_json X" _ h r h'] show ?thesis
    by (cases u) (fastforce simp: super_st_def posts_only_def [of h "h\<lparr>ds_deferred := d\<rparr>" for d] with_call_posts)+
next
  case WaitingForUp
  with assms upInd_Inr [of "ss_json X" _ h r h'] timeout_gone(1) [of h r h'] show ?thesis
    by (cases u) (fastforce simp: super_st_def to_st_def posts_only_def [of h "h\<lparr>ds_stopCb := d\<rparr>" for d]
        with_call_posts gone_posts)+
next
  case CallConnected
  with assms connectedInd_Inr [of "ss_json X" _ h r h'] show ?thesis
    by (cases u) (fastforce simp: super_st_def to_st_def posts_only_def [of h "h\<lparr>ds_stopCb := d\<rparr>" for d]
        with_call_posts gone_posts)+
next
  case SendingStopReq
  with assms stopRsp_Inr [of _ h r h'] show ?thesis
    by (cases u) (fastforce simp: super_st_def with_call_posts)+
next
  case WaitingForDown
  with assms downInd_Inr [of "ss_json X" _ h r h'] timeout_gone(2) [of h r h'] show ?thesis
    by (cases u) (fastforce simp: super_st_def gone_posts)+
next
  case Reconciling
  with assms listRsp_Inr [of "ss_json X" _ h r h'] show ?thesis
    by (cases u) (fastforce simp: super_st_def with_call_posts)+
next
  case Terminal
  with assms show ?thesis by simp
qed

interpretation ses: ao_chart "session_handlers X" session_par "\<lambda>_. None" "session_en X" session_ex "\<lambda>s. s = Terminal"
  for X :: "'j session_ext"
proof unfold_locales
  fix s :: dstate and h h' :: "'j data_session" and u r t p x
  show "s \<noteq> Terminal \<Longrightarrow> session_handlers X s None_Signal h = Inr (TO_SUPER, h\<lparr>htemp := session_par s\<rparr>)"
    by (cases s) (simp_all add: super_st_def)
  show "s = Terminal \<Longrightarrow> session_handlers X s None_Signal h = Inr (HANDLED, h)" by simp
  show "s = Terminal \<Longrightarrow> session_par s = Top_St" by simp
  show "session_par s = St p \<Longrightarrow> p \<noteq> Terminal" by (cases s) auto
  show "s = Terminal \<Longrightarrow> session_handlers X s (User u) h = Inr (r, h') \<Longrightarrow> r = HANDLED \<or> r = IGNORED" by auto
  show "reaches_top session_par kMaxNest (St s)" by (cases s) (simp_all add: kMaxNest_def numeral_eq_Suc)
  show "\<exists>r t. session_handlers X s Entry_Signal h = Inr (r, (session_en X s h)\<lparr>htemp := t\<rparr>)"
    by (cases s) simp_all
  show "s \<noteq> Terminal \<Longrightarrow> \<exists>r t. session_handlers X s Exit_Signal h = Inr (r, (session_ex s h)\<lparr>htemp := t\<rparr>) \<and>
      (r = HANDLED \<or> t = session_par s)"
    by (cases s) (auto simp: super_st_def)
  show "\<exists>r t. session_handlers X s Init_Signal h = Inr (r, h\<lparr>htemp := t\<rparr>) \<and> r \<noteq> NEED_TO_TRANSFER"
    by (cases s) (auto simp: super_st_def)
  show "session_handlers X s (User u) h = Inr (TO_SUPER, h') \<Longrightarrow> htemp h' = session_par s" using session_user by fastforce
  show "session_handlers X s (User u) h = Inr (NEED_TO_TRANSFER, h') \<Longrightarrow> \<exists>t. htemp h' = St t" using session_user by blast
  show "session_handlers X s (User u) h = Inr (r, h') \<Longrightarrow> posts_only h h'" using session_user by blast
qed (simp_all add: session_en_temp session_ex_temp session_border_posts)

section \<open>The reaction to one event\<close>

text \<open>
  What a session in the leaf \<open>c\<close> does with an event: the handler of the leaf takes it, moves to another
  leaf, or leaves it to \<open>Active\<close>.
\<close>

definition ses_next :: "'j session_ext \<Rightarrow> dstate \<Rightarrow> 'j session_event \<Rightarrow> 'j data_session \<Rightarrow> (dstate \<times> 'j data_session) result" where
  "ses_next X c u h =
     bindE (session_handlers X c (User u) h) (\<lambda>(r, g).
       if r = NEED_TO_TRANSFER then
         Inr (case htemp g of St t \<Rightarrow> (t, session_en X t (session_ex c g)) | _ \<Rightarrow> (c, g))
       else if r = TO_SUPER \<and> session_par c = St Active then
         bindE (Active_St (User u) g) (\<lambda>(_, g). Inr (c, g))
       else Inr (c, g))"

lemma lin_session:
  "lin session_par (St s) = (if session_par s = St Active then [s, Active] else [s])"
  by (cases s) (simp_all add: lin_def kMaxNest_def numeral_eq_Suc)

lemma session_border:
  assumes "leaf_state c" "leaf_state t" "c \<noteq> Terminal" "t \<noteq> c" "t \<noteq> Idle"
  shows "fold (session_en X) (entries session_par c t) (fold session_ex (exits session_par c c t) h) =
    session_en X t (session_ex c h)"
  using assms by (cases c; cases t) (simp_all add: lin_session exits_def entries_def leaf_state_def)

lemma settle_session [simp]: "settle session_par (\<lambda>_. None) kMaxNest t = (t, [])"
  by (simp add: kMaxNest_def numeral_eq_Suc)

lemma session_dispatch:
  assumes fuel: "kMaxNest < n" and cur: "hstate h = St c" "leaf_state c"
    and dis: "dispatch n (session_handlers X) (User u) h = Inr h'"
  obtains g l g' where "ses_next X c u g = Inr (l, g')" "erase g = erase h" "leaf_state l"
    "hstate h' = St l" "erase h' = erase g'"
proof -
  let ?h0 = "probe (User u) (St c) HandlerVisit (h\<lparr>last_ignored := False, htemp := St c\<rparr>)"
  define rest where "rest = (if session_par c = St Active then [Active] else [])"
  then have lin: "lin session_par (St c) = c # rest" by (simp add: lin_session)
  note uml = ses.dispatch_refines [OF fuel cur(1), of X u] uml_dispatch_def lin
  from dis obtain r h1 where H: "session_handlers X c (User u) ?h0 = Inr (r, h1)"
    by (auto simp: uml bindE_eq_Inr)
  have h0: "erase ?h0 = erase h" by simp
  from session_user [OF H] consider
      (up) "r = TO_SUPER" "c \<noteq> Terminal" "h1 = ?h0\<lparr>htemp := session_par c\<rparr>" | (took) "r = HANDLED"
    | (move) t where "r = NEED_TO_TRANSFER" "c \<noteq> Terminal" "htemp h1 = St t" "leaf_state t" "t \<noteq> c" "t \<noteq> Idle"
    by (auto simp: leaf_state_def)
  then show thesis
  proof cases
    case took
    with dis H have h': "h' = settle_unchanged (User u) (St c) HANDLED (St c) h1" by (simp add: uml)
    from took H have "ses_next X c u ?h0 = Inr (c, h1)" by (simp add: ses_next_def)
    from that [OF this h0 cur(2)] show thesis by (simp add: h')
  next
    case move
    with dis H have h': "h' = trace (User u) (St c) (St t) ((session_en X t (session_ex c h1))\<lparr>hstate := St t, htemp := St t\<rparr>)"
      by (simp add: uml session_border [OF cur(2) move(4,2,5,6)])
    from move H have "ses_next X c u ?h0 = Inr (t, session_en X t (session_ex c h1))" by (simp add: ses_next_def)
    from that [OF this h0 move(4)] show thesis by (simp add: h')
  next
    case up
    show thesis
    proof (cases "session_par c = St Active")
      case False
      then have "rest = []" by (simp add: rest_def)
      with dis H up have h': "erase h' = erase h1" "hstate h' = St c" by (auto simp: uml)
      from up False H have "ses_next X c u ?h0 = Inr (c, h1)" by (simp add: ses_next_def)
      from that [OF this h0 cur(2) h'(2,1)] show thesis .
    next
      case True
      then have rest: "rest = [Active]" by (simp add: rest_def)
      let ?h1 = "probe (User u) (St Active) HandlerVisit (h1\<lparr>htemp := St Active\<rparr>)"
      obtain r2 h2 where A: "Active_St (User u) ?h1 = Inr (r2, h2)"
        and r2: "r2 = HANDLED \<or> r2 = TO_SUPER \<and> h2 = ?h1\<lparr>htemp := Top_St\<rparr>"
        using session_user [of X Active u ?h1] by (cases "Active_St (User u) ?h1"; cases u) (auto simp: super_st_def)
      have h': "hstate h' = St c" "erase h' = erase h2"
        using dis H up A r2 by (auto simp: uml rest)
      obtain h3 where A': "Active_St (User u) h1 = Inr (r2, h3)" "erase h3 = erase h2"
        using A by (cases u) (auto simp: super_st_def ds_emit_def probe_def erase_def split: option.splits)
      from up True H A' have "ses_next X c u ?h0 = Inr (c, h3)" by (simp add: ses_next_def)
      from that [OF this h0 cur(2) h'(1)] show thesis using h'(2) A'(2) by simp
    qed
  qed
qed

end
