(* ===== verification/Data_Session_Spec.thy ===== *)
theory Data_Session_Spec
  imports Data_Session_Chart "HOL-Library.Multiset"
begin

text \<open>
  The protocol of a data call session, what a client can rely on in every run of it, and the
  proof that the code of \<open>Data_Session\<close> follows the protocol.
\<close>

section \<open>The protocol\<close>

text \<open>The events that a state always acts upon; any other may leave the session as it is.\<close>

fun heeds :: "dstate \<Rightarrow> 'j session_event \<Rightarrow> bool" where
  "heeds Idle Ses_Start_Signal = True"
| "heeds Idle u = False"
| "heeds Terminal u = False"
| "heeds s (Ses_Stop_Signal cb) = True"
| "heeds SendingStartReq (StartRsp_Signal rsp) = True"
| "heeds WaitingForUp BringupTimeout_Signal = True"
| "heeds SendingStopReq (StopRsp_Signal rsp) = True"
| "heeds WaitingForDown TeardownTimeout_Signal = True"
| "heeds Reconciling (ListRsp_Signal rsp) = True"
| "heeds s u = False"

text \<open>
  One step of the session from state to state, whatever the messages contain. A step that changes
  the call says which status it leaves (\<open>with_call\<close>).
\<close>

inductive ses_does :: "'j session_ext \<Rightarrow> dstate \<Rightarrow> 'j session_event \<Rightarrow> 'j data_session \<Rightarrow> dstate \<Rightarrow> 'j data_session \<Rightarrow> bool"
  for X where
  begins: "ses_does X Idle Ses_Start_Signal h SendingStartReq (enterSendingStartReq X h)"
| defers: "ses_does X SendingStartReq (Ses_Stop_Signal cb) h SendingStartReq
    (h\<lparr>ds_deferred := ds_deferred h @ [Ses_Stop_Signal cb]\<rparr>)"
| fails: "has_error rsp \<Longrightarrow> ses_does X SendingStartReq (StartRsp_Signal rsp) h Terminal (onFinished (onFinished (start_called None er h)))"
| admits: "\<not> has_error rsp \<Longrightarrow> with_call NET_CONNECTING h g \<Longrightarrow> ses_does X SendingStartReq (StartRsp_Signal rsp) h WaitingForUp
    (enterWaitingForUp (start_called (Some (ds_call g)) EC_SUCCESS g))"
| connects: "with_call NET_CONNECTED h g \<Longrightarrow> ses_does X WaitingForUp (StateInd_Signal env) h CallConnected
    (notifyListeners (exitWaitingForUp g))"
| ends: "s \<in> {WaitingForUp, CallConnected, WaitingForDown} \<Longrightarrow> u \<in> {StateInd_Signal env, BringupTimeout_Signal, TeardownTimeout_Signal} \<Longrightarrow>
    with_call NET_NO_NET h g \<Longrightarrow> ses_does X s u h Terminal (onFinished (session_ex s (notifyListeners g)))"
| stops: "s \<in> {WaitingForUp, CallConnected} \<Longrightarrow>
    ses_does X s (Ses_Stop_Signal cb) h SendingStopReq (enterSendingStopReq X (session_ex s (h\<lparr>ds_stopCb := cb\<rparr>)))"
| adjusts: "with_call (dc_status (ds_call h)) h g \<Longrightarrow> ses_does X CallConnected (StateInd_Signal env) h CallConnected g"
| changes: "st \<in> {dc_status (ds_call h), NET_RECONFIGURED, NET_NEWADDR, NET_DELADDR} \<Longrightarrow> with_call st h g \<Longrightarrow>
    ses_does X CallConnected (StateInd_Signal env) h CallConnected (notifyListeners g)"
| accepted: "\<not> has_error rsp \<Longrightarrow> with_call NET_DISCONNECTING h g \<Longrightarrow> ses_does X SendingStopReq (StopRsp_Signal rsp) h WaitingForDown
    (enterWaitingForDown (stop_called (Some (ds_call g)) EC_SUCCESS g))"
| refused: "has_error rsp \<Longrightarrow> ses_does X SendingStopReq (StopRsp_Signal rsp) h Reconciling (enterReconciling X h)"
| persists: "with_call NET_CONNECTED h g \<Longrightarrow> ses_does X Reconciling (ListRsp_Signal rsp) h CallConnected
    (notifyListeners (stop_called None EC_GENERIC_FAILURE g))"
| lapses: "with_call NET_NO_NET h g \<Longrightarrow> ses_does X Reconciling (ListRsp_Signal rsp) h Terminal
    (onFinished (notifyListeners (stop_called c er g)))"
| busy: "s \<in> {SendingStopReq, WaitingForDown, Reconciling} \<Longrightarrow> ses_does X s (Ses_Stop_Signal cb) h s
    (case cb of None \<Rightarrow> h | Some c \<Rightarrow> ds_emit (Stop_Called c (Some (ds_call h)) EC_OP_IN_PROGRESS) h)"
| ignores: "\<not> heeds s u \<Longrightarrow> ses_does X s u h s h"

text \<open>Equality up to the fields of \<open>Hsm\<close>.\<close>

definition like :: "'j data_session \<Rightarrow> 'j data_session \<Rightarrow> bool" where
  "like h h' \<longleftrightarrow> erase h = erase h'"

lemma like_temp [simp]: "like (h\<lparr>htemp := x\<rparr>) h" "like h (h\<lparr>htemp := x\<rparr>)" "like h h"
  by (simp_all add: like_def)

lemma ses_next_does:
  assumes "leaf_state c" "ses_next X c u h = Inr (l, g)"
  shows "\<exists>g'. ses_does X c u h l g' \<and> like g g'"
proof -
  from assms(2) obtain r h1 where H: "session_handlers X c (User u) h = Inr (r, h1)"
    and next': "(if r = NEED_TO_TRANSFER then
         Inr (case htemp h1 of St t \<Rightarrow> (t, session_en X t (session_ex c h1)) | _ \<Rightarrow> (c, h1))
       else if r = TO_SUPER \<and> session_par c = St Active then
         bindE (Active_St (User u) h1) (\<lambda>(_, g). Inr (c, g))
       else Inr (c, h1)) = Inr (l, g)"
    by (auto simp: ses_next_def bindE_eq_Inr)
  have move: ?thesis if "r = NEED_TO_TRANSFER" "h1 = k\<lparr>htemp := St t\<rparr>" "ses_does X c u h t (session_en X t (session_ex c k))" for t k
    using next' that by (auto simp: session_en_temp session_ex_temp)
  have stay: ?thesis if "r = HANDLED" "ses_does X c u h c h1"
    using next' that by auto
  have pass: ?thesis if "r = TO_SUPER" "h1 = h\<lparr>htemp := x\<rparr>" "ses_does X c u h c h" "\<forall>cb. c \<noteq> Idle \<longrightarrow> u \<noteq> Ses_Stop_Signal cb" for x
    using next' that by (cases u; cases c) (auto simp: super_st_def bindE_eq_Inr)
  have ignored: "ses_does X c u h c h" if "\<not> heeds c u"
    using that by (rule ignores)
  have rest: ?thesis if "r = TO_SUPER" "h1 = h\<lparr>htemp := St Active\<rparr>" "\<not> heeds c u" "\<forall>cb. u \<noteq> Ses_Stop_Signal cb"
    using pass [OF that(1,2) ignored] that by blast
  have over: ?thesis if "r = NEED_TO_TRANSFER" "gone h h1" "c \<in> {WaitingForUp, CallConnected, WaitingForDown}"
      "u \<in> {StateInd_Signal env, BringupTimeout_Signal, TeardownTimeout_Signal}" for env
  proof -
    from that(2) obtain k where "with_call NET_NO_NET h k" "h1 = (notifyListeners k)\<lparr>htemp := St Terminal\<rparr>"
      by (auto simp: gone_def)
    with that ends [OF that(3,4)] show ?thesis by (intro move [of Terminal "notifyListeners k"]) simp_all
  qed
  have answered: ?thesis if "r = TO_SUPER" "h1 = h\<lparr>htemp := x\<rparr>" "u = Ses_Stop_Signal cb" "c \<in> {SendingStopReq, WaitingForDown, Reconciling}" for x cb
  proof -
    let ?g = "case cb of None \<Rightarrow> h | Some c \<Rightarrow> ds_emit (Stop_Called c (Some (ds_call h)) EC_OP_IN_PROGRESS) h"
    have "l = c \<and> g = ?g\<lparr>htemp := x\<rparr>" using next' that by (cases cb) (auto simp: ds_emit_def)
    with busy [OF that(4), of X cb h] that(3) show ?thesis by (intro exI [of _ ?g]) simp
  qed
  show ?thesis
  proof (cases c)
    case Idle
    show ?thesis
    proof (cases "u = Ses_Start_Signal")
      case True
      with Idle H show ?thesis by (intro move [of SendingStartReq h]) (auto simp: to_st_def intro: begins)
    next
      case False
      with Idle have "ses_does X c u h c h" by (intro ignores) (cases u; simp)
      with False Idle H show ?thesis by (intro pass) (cases u; auto simp: super_st_def)+
    qed
  next
    case Active
    with assms(1) show ?thesis by (simp add: leaf_state_def)
  next
    case Terminal
    with H next' show ?thesis by (auto intro!: exI [of _ h] ignores)
  next
    case SendingStartReq
    show ?thesis
    proof (cases u)
      case (StartRsp_Signal rsp)
      with H SendingStartReq have "startRsp (ss_json X) rsp h = Inr (r, h1)" by simp
      from startRsp_Inr [OF this] show ?thesis
      proof (elim conjE disjE exE)
        fix er assume "r = NEED_TO_TRANSFER" "has_error rsp" "h1 = (onFinished (start_called None er h))\<lparr>htemp := St Terminal\<rparr>"
        then show ?thesis using SendingStartReq StartRsp_Signal by (intro move) (auto intro: fails)
      next
        fix k assume "r = NEED_TO_TRANSFER" "\<not> has_error rsp" "with_call NET_CONNECTING h k"
          "h1 = (start_called (Some (ds_call k)) EC_SUCCESS k)\<lparr>htemp := St WaitingForUp\<rparr>"
        then show ?thesis using SendingStartReq StartRsp_Signal by (intro move) (auto intro: admits)
      qed
    next
      case (Ses_Stop_Signal cb)
      with H SendingStartReq defers [of X cb h] show ?thesis by (intro stay) (auto simp: dq_push_def)
    qed (rule rest; use H SendingStartReq in \<open>simp add: super_st_def\<close>)+
  next
    case WaitingForUp
    show ?thesis
    proof (cases u)
      case (StateInd_Signal env)
      with H WaitingForUp have "upInd (ss_json X) env h = Inr (r, h1)" by simp
      from upInd_Inr [OF this] show ?thesis
      proof (elim conjE disjE exE)
        assume "r = HANDLED" "h1 = h"
        then show ?thesis using WaitingForUp StateInd_Signal ignored by (intro stay) auto
      next
        fix k assume "r = NEED_TO_TRANSFER" "with_call NET_CONNECTED h k" "h1 = k\<lparr>htemp := St CallConnected\<rparr>"
        then show ?thesis using WaitingForUp StateInd_Signal by (intro move) (auto intro: connects)
      next
        assume "r = NEED_TO_TRANSFER" "gone h h1"
        then show ?thesis using WaitingForUp StateInd_Signal over [of env] by simp
      qed
    next
      case (Ses_Stop_Signal cb)
      with H WaitingForUp stops [of WaitingForUp X cb h] show ?thesis
        by (intro move [of SendingStopReq "h\<lparr>ds_stopCb := cb\<rparr>"]) (auto simp: to_st_def)
    next
      case BringupTimeout_Signal
      with H WaitingForUp timeout_gone(1) [of h r h1] over show ?thesis by simp
    qed (rule rest; use H WaitingForUp in \<open>simp add: super_st_def\<close>)+
  next
    case CallConnected
    show ?thesis
    proof (cases u)
      case (StateInd_Signal env)
      with H CallConnected have "connectedInd (ss_json X) env h = Inr (r, h1)" by simp
      from connectedInd_Inr [OF this] show ?thesis
      proof (elim conjE disjE exE)
        assume "r = HANDLED" "with_call (dc_status (ds_call h)) h h1"
        then show ?thesis using CallConnected StateInd_Signal by (intro stay) (auto intro: adjusts)
      next
        fix st k assume "r = HANDLED" "st \<in> {dc_status (ds_call h), NET_RECONFIGURED, NET_NEWADDR, NET_DELADDR}"
          "with_call st h k" "h1 = notifyListeners k"
        then show ?thesis using CallConnected StateInd_Signal changes [of st h k X env] by (intro stay) auto
      next
        assume "r = NEED_TO_TRANSFER" "gone h h1"
        then show ?thesis using CallConnected StateInd_Signal over [of env] by simp
      qed
    next
      case (Ses_Stop_Signal cb)
      with H CallConnected stops [of CallConnected X cb h] show ?thesis
        by (intro move [of SendingStopReq "h\<lparr>ds_stopCb := cb\<rparr>"]) (auto simp: to_st_def)
    qed (rule rest; use H CallConnected in \<open>simp add: super_st_def\<close>)+
  next
    case SendingStopReq
    show ?thesis
    proof (cases u)
      case (StopRsp_Signal rsp)
      with H SendingStopReq have "stopRsp rsp h = (r, h1)" by simp
      from stopRsp_Inr [OF this] show ?thesis
      proof (elim conjE disjE exE)
        assume "r = NEED_TO_TRANSFER" "has_error rsp" "h1 = h\<lparr>htemp := St Reconciling\<rparr>"
        then show ?thesis using SendingStopReq StopRsp_Signal by (intro move) (auto intro: refused)
      next
        fix k assume "r = NEED_TO_TRANSFER" "\<not> has_error rsp" "with_call NET_DISCONNECTING h k"
          "h1 = (stop_called (Some (ds_call k)) EC_SUCCESS k)\<lparr>htemp := St WaitingForDown\<rparr>"
        then show ?thesis using SendingStopReq StopRsp_Signal by (intro move) (auto intro: accepted)
      qed
    next
      case (Ses_Stop_Signal cb)
      with H SendingStopReq show ?thesis by (intro answered) (auto simp: super_st_def)
    qed (rule rest; use H SendingStopReq in \<open>simp add: super_st_def\<close>)+
  next
    case WaitingForDown
    show ?thesis
    proof (cases u)
      case (StateInd_Signal env)
      with H WaitingForDown have "downInd (ss_json X) env h = Inr (r, h1)" by simp
      from downInd_Inr [OF this] show ?thesis
      proof (elim conjE disjE exE)
        assume "r = HANDLED" "h1 = h"
        then show ?thesis using WaitingForDown StateInd_Signal ignored by (intro stay) auto
      next
        assume "r = NEED_TO_TRANSFER" "gone h h1"
        then show ?thesis using WaitingForDown StateInd_Signal over [of env] by simp
      qed
    next
      case TeardownTimeout_Signal
      with H WaitingForDown timeout_gone(2) [of h r h1] over show ?thesis by simp
    next
      case (Ses_Stop_Signal cb)
      with H WaitingForDown show ?thesis by (intro answered) (auto simp: super_st_def)
    qed (rule rest; use H WaitingForDown in \<open>simp add: super_st_def\<close>)+
  next
    case Reconciling
    show ?thesis
    proof (cases u)
      case (ListRsp_Signal rsp)
      with H Reconciling have "listRsp (ss_json X) rsp h = Inr (r, h1)" by simp
      from listRsp_Inr [OF this] show ?thesis
      proof (elim conjE disjE exE)
        fix k assume "r = NEED_TO_TRANSFER" "with_call NET_CONNECTED h k"
          "h1 = (stop_called None EC_GENERIC_FAILURE k)\<lparr>htemp := St CallConnected\<rparr>"
        then show ?thesis using Reconciling ListRsp_Signal by (intro move) (auto intro: persists)
      next
        fix k c' er assume "r = NEED_TO_TRANSFER" "with_call NET_NO_NET h k"
          "h1 = (notifyListeners (stop_called c' er k))\<lparr>htemp := St Terminal\<rparr>"
        then show ?thesis using Reconciling ListRsp_Signal by (intro move) (auto intro: lapses)
      qed
    next
      case (Ses_Stop_Signal cb)
      with H Reconciling show ?thesis by (intro answered) (auto simp: super_st_def)
    qed (rule rest; use H Reconciling in \<open>simp add: super_st_def\<close>)+
  qed
qed

end
