(* ===== verification/Data_Session_Books.thy ===== *)
theory Data_Session_Books
  imports Data_Session_Spec
begin

text \<open>
  The data call session in its environment: every interleaving of clients, the peer's answers and
  indications, the timer thread and the session's worker; and what holds in every run.
\<close>

section \<open>What a session has done\<close>

fun start_calls :: "'j session_effect list \<Rightarrow> (nat \<times> data_call option \<times> error_code) list" where
  "start_calls [] = []"
| "start_calls (Start_Called cb c er # xs) = (cb, c, er) # start_calls xs"
| "start_calls (_ # xs) = start_calls xs"

fun stop_calls :: "'j session_effect list \<Rightarrow> nat list" where
  "stop_calls [] = []"
| "stop_calls (Stop_Called cb c er # xs) = cb # stop_calls xs"
| "stop_calls (_ # xs) = stop_calls xs"

fun told :: "'j session_effect list \<Rightarrow> data_call list" where
  "told [] = []"
| "told (Notified c # xs) = c # told xs"
| "told (_ # xs) = told xs"

fun finishes :: "'j session_effect list \<Rightarrow> int list" where
  "finishes [] = []"
| "finishes (Finished p # xs) = p # finishes xs"
| "finishes (_ # xs) = finishes xs"

lemma session_logs_append [simp]:
  "start_calls (xs @ ys) = start_calls xs @ start_calls ys" "stop_calls (xs @ ys) = stop_calls xs @ stop_calls ys"
  "told (xs @ ys) = told xs @ told ys" "finishes (xs @ ys) = finishes xs @ finishes ys"
  by (induction xs rule: start_calls.induct; simp)+

definition ds_out :: "'j data_session \<Rightarrow> 'j session_effect list" where
  "ds_out h = io_out (ds_io h)"

fun stop_cbs :: "'j session_event list \<Rightarrow> nat list" where
  "stop_cbs [] = []"
| "stop_cbs (Ses_Stop_Signal (Some cb) # us) = cb # stop_cbs us"
| "stop_cbs (_ # us) = stop_cbs us"

lemma stop_cbs_append [simp]: "stop_cbs (xs @ ys) = stop_cbs xs @ stop_cbs ys"
  by (induction xs rule: stop_cbs.induct) simp_all

section \<open>The invariant\<close>

text \<open>The status of the call in each state; a session that failed to start ends with an idle call.\<close>

definition up_statuses :: "call_status set" where
  "up_statuses = {NET_CONNECTED, NET_RECONFIGURED, NET_NEWADDR, NET_DELADDR}"

fun status_fits :: "dstate \<Rightarrow> call_status \<Rightarrow> bool" where
  "status_fits Idle st \<longleftrightarrow> st = NET_IDLE"
| "status_fits SendingStartReq st \<longleftrightarrow> st = NET_IDLE"
| "status_fits WaitingForUp st \<longleftrightarrow> st = NET_CONNECTING"
| "status_fits CallConnected st \<longleftrightarrow> st \<in> up_statuses"
| "status_fits SendingStopReq st \<longleftrightarrow> st \<in> insert NET_CONNECTING up_statuses"
| "status_fits Reconciling st \<longleftrightarrow> st \<in> insert NET_CONNECTING up_statuses"
| "status_fits WaitingForDown st \<longleftrightarrow> st = NET_DISCONNECTING"
| "status_fits Terminal st \<longleftrightarrow> st = NET_NO_NET \<or> st = NET_IDLE"
| "status_fits Active st \<longleftrightarrow> False"

text \<open>
  The answer to the client of the start: none while the request is on its way; an error and no call
  when it failed; else success and a call that is being set up.
\<close>

definition start_fits :: "nat option \<Rightarrow> dstate \<Rightarrow> call_status \<Rightarrow> (nat \<times> data_call option \<times> error_code) list \<Rightarrow> bool" where
  "start_fits cb l st rs \<longleftrightarrow>
     (if l \<in> {Idle, SendingStartReq} then rs = []
      else if st = NET_IDLE then \<exists>er. rs = map (\<lambda>c. (c, None, er)) (opt_list cb)
      else \<exists>k. dc_status k = NET_CONNECTING \<and> rs = map (\<lambda>c. (c, Some k, EC_SUCCESS)) (opt_list cb))"

text \<open>
  What the listeners have been told: only up states while the session lasts, first of all that the
  call is connected; at the end of a call that was admitted, once, that it is gone.
\<close>

definition told_up :: "data_call list \<Rightarrow> bool" where
  "told_up ns \<longleftrightarrow> list_all (\<lambda>c. dc_status c \<in> up_statuses) ns \<and> (ns \<noteq> [] \<longrightarrow> dc_status (hd ns) = NET_CONNECTED)"

definition notes_fit :: "dstate \<Rightarrow> data_call \<Rightarrow> data_call list \<Rightarrow> bool" where
  "notes_fit l c ns \<longleftrightarrow>
     (if l \<in> {Idle, SendingStartReq, WaitingForUp} then ns = []
      else if l = CallConnected then ns \<noteq> [] \<and> told_up ns
      else if l \<noteq> Terminal then told_up ns
      else if dc_status c = NET_IDLE then ns = []
      else \<exists>ms. ns = ms @ [c] \<and> told_up ms)"

definition finishes_fit :: "dstate \<Rightarrow> call_status \<Rightarrow> int \<Rightarrow> int list \<Rightarrow> bool" where
  "finishes_fit l st p fs \<longleftrightarrow> fs = (if l \<noteq> Terminal then [] else if st = NET_IDLE then [p, p] else [p])"

definition session_inv :: "nat option \<Rightarrow> int \<Rightarrow> dstate \<Rightarrow> 'j data_session \<Rightarrow> bool" where
  "session_inv cb p l h \<longleftrightarrow>
     ds_startCb h = cb \<and> ds_profileId h = p \<and> status_fits l (dc_status (ds_call h)) \<and>
     start_fits cb l (dc_status (ds_call h)) (start_calls (ds_out h)) \<and>
     notes_fit l (ds_call h) (told (ds_out h)) \<and>
     finishes_fit l (dc_status (ds_call h)) p (finishes (ds_out h)) \<and>
     (armed (ds_bringup h) \<longleftrightarrow> l = WaitingForUp) \<and> (armed (ds_teardown h) \<longleftrightarrow> l = WaitingForDown) \<and>
     (ds_deferred h \<noteq> [] \<longrightarrow> l \<in> {SendingStartReq, Terminal})"

lemma arm_armed [simp]: "armed (fst (arm_one_shot clk d te s))"
  by (simp add: arm_one_shot_def armed_def disarm_def schedule_def Let_def split: option.splits)

lemma disarm_armed [simp]: "\<not> armed (fst (disarm te s))"
  by (simp add: disarm_def armed_def split: option.splits)

lemma io_request_out [simp]: "ds_out (h\<lparr>ds_io := snd (io_request pa d s)\<rparr>) = io_out s"
  by (simp add: ds_out_def)

lemma fold_io_emit [simp]:
  "io_out (fold io_emit xs s) = io_out s @ xs" "io_now (fold io_emit xs s) = io_now s"
  by (induction xs arbitrary: s) simp_all

lemma called_closed:
  "start_called c er h = h\<lparr>ds_io := fold io_emit (map (\<lambda>cb. Start_Called cb c er) (opt_list (ds_startCb h))) (ds_io h)\<rparr>"
  "stop_called c er h = h\<lparr>ds_io := fold io_emit (map (\<lambda>cb. Stop_Called cb c er) (opt_list (ds_stopCb h))) (ds_io h)\<rparr>"
  by (simp_all add: start_called_def stop_called_def ds_emit_def split: option.splits)

lemma logs_called [simp]:
  "start_calls (map (\<lambda>cb. Start_Called cb c er) cbs) = map (\<lambda>cb. (cb, c, er)) cbs"
  "stop_calls (map (\<lambda>cb. Start_Called cb c er) cbs) = []"
  "told (map (\<lambda>cb. Start_Called cb c er) cbs) = []" "finishes (map (\<lambda>cb. Start_Called cb c er) cbs) = []"
  "start_calls (map (\<lambda>cb. Stop_Called cb c er) cbs) = []" "stop_calls (map (\<lambda>cb. Stop_Called cb c er) cbs) = cbs"
  "told (map (\<lambda>cb. Stop_Called cb c er) cbs) = []" "finishes (map (\<lambda>cb. Stop_Called cb c er) cbs) = []"
  by (induction cbs; simp)+

lemmas session_shape = ds_emit_def on_call_def notifyListeners_def onFinished_def called_closed session_closed ds_out_def

lemmas session_inv_defs = session_inv_def start_fits_def notes_fit_def finishes_fit_def told_up_def up_statuses_def

lemma session_inv_does:
  assumes does: "ses_does X c u h l g'" and inv: "session_inv cb p c h"
  shows "session_inv cb p l g'"
  using does
proof cases
  case begins
  with inv show ?thesis by (simp add: session_inv_defs session_shape)
next
  case (defers cb)
  with inv show ?thesis by (simp add: session_inv_defs session_shape)
next
  case (fails rsp er)
  with inv show ?thesis by (auto simp: session_inv_defs session_shape)
next
  case (admits rsp g)
  then obtain k where "g = h\<lparr>ds_call := k\<rparr>" "dc_status k = NET_CONNECTING" by (elim with_callE)
  with inv admits show ?thesis by (auto simp: session_inv_defs session_shape)
next
  case (connects g env)
  then obtain k where "g = h\<lparr>ds_call := k\<rparr>" "dc_status k = NET_CONNECTED" by (elim with_callE)
  with inv connects show ?thesis by (auto simp: session_inv_defs session_shape)
next
  case (ends env g)
  then obtain k where "g = h\<lparr>ds_call := k\<rparr>" "dc_status k = NET_NO_NET" by (elim with_callE)
  with inv ends show ?thesis by (auto simp: session_inv_defs session_shape)
next
  case (stops cb)
  with inv show ?thesis by (auto simp: session_inv_defs session_shape)
next
  case (adjusts env)
  then obtain k where "g' = h\<lparr>ds_call := k\<rparr>" "dc_status k = dc_status (ds_call h)" by (elim with_callE)
  with inv adjusts show ?thesis by (auto simp: session_inv_defs session_shape)
next
  case (changes st g env)
  then obtain k where "g = h\<lparr>ds_call := k\<rparr>" "dc_status k = st" by (elim with_callE)
  with inv changes show ?thesis by (auto simp: session_inv_defs session_shape)
next
  case (accepted rsp g)
  then obtain k where "g = h\<lparr>ds_call := k\<rparr>" "dc_status k = NET_DISCONNECTING" by (elim with_callE)
  with inv accepted show ?thesis by (auto simp: session_inv_defs session_shape)
next
  case (refused rsp)
  with inv show ?thesis by (auto simp: session_inv_defs session_shape)
next
  case (persists g rsp)
  then obtain k where "g = h\<lparr>ds_call := k\<rparr>" "dc_status k = NET_CONNECTED" by (elim with_callE)
  with inv persists show ?thesis by (auto simp: session_inv_defs session_shape hd_append)
next
  case (lapses g rsp c er)
  then obtain k where "g = h\<lparr>ds_call := k\<rparr>" "dc_status k = NET_NO_NET" by (elim with_callE)
  with inv lapses show ?thesis by (auto simp: session_inv_defs session_shape)
next
  case (busy cb)
  with inv show ?thesis by (cases cb) (auto simp: session_inv_defs session_shape)
next
  case ignores
  with inv show ?thesis by simp
qed

section \<open>Runs\<close>

text \<open>
  Steps: any thread posts an event; the worker takes one event; the clock and the counter of
  correlation ids move on; the timer thread wakes up, takes or drops a due item, runs its
  function; \<open>stop\<close> clears \<open>running_\<close>. The label lists the callbacks handed over with a posted
  stop request. The worker's guard keeps the timer tokens from wrapping around.
\<close>

inductive session_step :: "'j session_ext \<Rightarrow> nat \<Rightarrow> nat list \<Rightarrow> 'j data_session \<Rightarrow> 'j data_session \<Rightarrow> bool"
  for X n where
  post: "ao_running h \<Longrightarrow> session_step X n (stop_cbs [u]) h (post_fifo u h)"
| work: "run_step n (session_handlers X) h = Inr (res, h') \<Longrightarrow> ts_next (ds_timers h) + 1 < 2 ^ 64 \<Longrightarrow> session_step X n [] h h'"
| tick: "io_now (ds_io h) \<le> t \<Longrightarrow> session_step X n [] h (h\<lparr>ds_io := (ds_io h)\<lparr>io_now := t, io_counter := c\<rparr>\<rparr>)"
| timer_wake: "ts_phase (ds_timers h) = Sleeping \<Longrightarrow> session_step X n [] h (h\<lparr>ds_timers := wake now (ds_timers h)\<rparr>)"
| timer_batch: "ts_phase (ds_timers h) = Batch now \<Longrightarrow> session_step X n [] h (h\<lparr>ds_timers := batch_step now (ds_timers h)\<rparr>)"
| timer_fire: "ts_phase (ds_timers h) = Firing now it \<Longrightarrow> now \<le> clk \<Longrightarrow> session_step X n [] h
    ((post_fifo (session_timer_event (it_fn it)) h)\<lparr>ds_timers := fire_finish clk now it (ds_timers h)\<rparr>)"
| halt: "session_step X n [] h (h\<lparr>ao_running := False\<rparr>)"

inductive session_reach :: "'j session_ext \<Rightarrow> nat \<Rightarrow> nat option \<Rightarrow> int \<Rightarrow> nat list \<Rightarrow> 'j data_session \<Rightarrow> bool"
  for X n cb p where
  started: "session_start n X cb (newSession slot p fam ty name) = Inr h \<Longrightarrow> session_reach X n cb p [] h"
| step: "session_reach X n cb p iss h \<Longrightarrow> session_step X n new h h' \<Longrightarrow> session_reach X n cb p (iss @ new) h'"

text \<open>A step of the worker is a step of the protocol.\<close>

lemma session_work:
  assumes fuel: "kMaxNest < n" and cur: "hstate h = St c" "leaf_state c"
    and run: "run_step n (session_handlers X) h = Inr (res, h')"
  obtains (idle) "ao_q h = []" "h' = h"
  | (took) u us g l g' where "ao_q h = u # us" "ses_does X c u g l g'" "like g (h\<lparr>ao_q := us\<rparr>)"
      "hstate h' = St l" "leaf_state l" "like h' g'"
proof (cases "ao_q h")
  case Nil
  with run show ?thesis by (intro idle) (auto simp: run_step_def ao_pop_def)
next
  case (Cons u us)
  let ?h = "h\<lparr>ao_q := us\<rparr>"
  from Cons run have dis: "dispatch n (session_handlers X) (User u) ?h = Inr h'"
    by (auto simp: run_step_def ao_pop_def bindE_eq_Inr)
  have cur': "hstate ?h = St c" using cur(1) by simp
  from session_dispatch [OF fuel cur' cur(2) dis] obtain g l k where
    "ses_next X c u g = Inr (l, k)" "erase g = erase ?h" "leaf_state l" "hstate h' = St l" "erase h' = erase k" .
  with ses_next_does [OF cur(2), of X u g l k] Cons show ?thesis
    by (auto simp: like_def intro: took [of u us g l])
qed

lemma like_session:
  assumes "like g h"
  shows "session_inv cb p l g = session_inv cb p l h" "ds_out g = ds_out h" "ds_deferred g = ds_deferred h"
    "ds_stopCb g = ds_stopCb h" "ao_q g = ao_q h" "ao_running g = ao_running h" "ds_timers g = ds_timers h"
    "ds_bringup g = ds_bringup h" "ds_teardown g = ds_teardown h" "ds_io g = ds_io h" "ds_call g = ds_call h"
proof -
  have sel: "f g = f h" if "\<And>k. f (erase k) = f k" for f :: "'a data_session \<Rightarrow> 'b"
    using that assms unfolding like_def by metis
  show "session_inv cb p l g = session_inv cb p l h" by (rule sel) (simp add: session_inv_def erase_def ds_out_def)
  show "ds_out g = ds_out h" "ds_deferred g = ds_deferred h" "ds_stopCb g = ds_stopCb h" "ao_q g = ao_q h"
    "ao_running g = ao_running h" "ds_timers g = ds_timers h" "ds_bringup g = ds_bringup h"
    "ds_teardown g = ds_teardown h" "ds_io g = ds_io h" "ds_call g = ds_call h"
    by (rule sel; simp add: erase_def ds_out_def)+
qed

section \<open>Every stop request is accounted for\<close>

text \<open>The callback of the stop request that is being carried out.\<close>

definition pending :: "dstate \<Rightarrow> 'j data_session \<Rightarrow> nat list" where
  "pending l h = (if l = SendingStopReq \<or> l = Reconciling then opt_list (ds_stopCb h) else [])"

definition stop_account :: "dstate \<Rightarrow> 'j data_session \<Rightarrow> nat multiset" where
  "stop_account l h = mset (stop_calls (ds_out h)) + mset (pending l h) + mset (stop_cbs (ds_deferred h)) + mset (stop_cbs (ao_q h))"

lemmas account_shape = stop_account_def pending_def session_shape

lemma stop_cbs_cons: "stop_cbs (Ses_Stop_Signal cb # us) = opt_list cb @ stop_cbs us"
  by (cases cb) simp_all

lemma account_does:
  assumes does: "ses_does X c u h l g'" and inv: "session_inv cb p c h"
  shows "stop_account l g' \<subseteq># stop_account c h + mset (stop_cbs [u])"
    and "ao_running h \<Longrightarrow> c \<noteq> Terminal \<Longrightarrow> c = Idle \<longrightarrow> u = Ses_Start_Signal \<Longrightarrow>
      stop_account l g' = stop_account c h + mset (stop_cbs [u])"
proof -
  have "stop_account l g' \<subseteq># stop_account c h + mset (stop_cbs [u]) \<and>
    (ao_running h \<and> c \<noteq> Terminal \<and> (c = Idle \<longrightarrow> u = Ses_Start_Signal) \<longrightarrow>
      stop_account l g' = stop_account c h + mset (stop_cbs [u]))"
    using does
  proof cases
    case (admits rsp g)
    then obtain k where "g = h\<lparr>ds_call := k\<rparr>" by (elim with_callE)
    with admits show ?thesis by (auto simp: account_shape)
  next
    case (connects g env)
    then obtain k where "g = h\<lparr>ds_call := k\<rparr>" by (elim with_callE)
    with connects show ?thesis by (auto simp: account_shape)
  next
    case (ends env g)
    then obtain k where "g = h\<lparr>ds_call := k\<rparr>" by (elim with_callE)
    with ends show ?thesis by (auto simp: account_shape)
  next
    case (adjusts env)
    then obtain k where "g' = h\<lparr>ds_call := k\<rparr>" by (elim with_callE)
    with adjusts show ?thesis by (auto simp: account_shape)
  next
    case (changes st g env)
    then obtain k where "g = h\<lparr>ds_call := k\<rparr>" by (elim with_callE)
    with changes show ?thesis by (auto simp: account_shape)
  next
    case (accepted rsp g)
    then obtain k where "g = h\<lparr>ds_call := k\<rparr>" by (elim with_callE)
    with accepted show ?thesis by (auto simp: account_shape)
  next
    case (persists g rsp)
    then obtain k where "g = h\<lparr>ds_call := k\<rparr>" by (elim with_callE)
    with persists show ?thesis by (auto simp: account_shape)
  next
    case (lapses g rsp c er)
    then obtain k where "g = h\<lparr>ds_call := k\<rparr>" by (elim with_callE)
    with lapses show ?thesis by (auto simp: account_shape)
  next
    case (stops cb')
    with inv show ?thesis by (auto simp: account_shape stop_cbs_cons)
  next
    case (busy cb')
    with inv show ?thesis by (cases cb') (auto simp: account_shape)
  next
    case ignores
    then show ?thesis by (cases c; cases u) (auto simp: account_shape)
  qed (auto simp: account_shape stop_cbs_cons)
  then show "stop_account l g' \<subseteq># stop_account c h + mset (stop_cbs [u])"
    and "ao_running h \<Longrightarrow> c \<noteq> Terminal \<Longrightarrow> c = Idle \<longrightarrow> u = Ses_Start_Signal \<Longrightarrow>
      stop_account l g' = stop_account c h + mset (stop_cbs [u])" by blast+
qed

section \<open>No wait without a timer\<close>

definition timers_fit :: "'j data_session \<Rightarrow> bool" where
  "timers_fit h \<longleftrightarrow> timer_inv (ds_timers h) \<and> te_fn (ds_bringup h) = Bringup_Timer \<and> te_fn (ds_teardown h) = Teardown_Timer \<and>
     (\<forall>tk \<in> set (opt_list (te_tok (ds_bringup h)) @ opt_list (te_tok (ds_teardown h))). tk \<le> ts_next (ds_timers h))"

text \<open>
  A session that waits for the call to come up or to go down has a live timer, or the signal of
  the timer is among the events \<open>q\<close>.
\<close>

definition session_watched :: "'j session_event list \<Rightarrow> dstate \<Rightarrow> 'j data_session \<Rightarrow> bool" where
  "session_watched q l h \<longleftrightarrow>
     (l = WaitingForUp \<longrightarrow> BringupTimeout_Signal \<in> set q \<or>
        (\<exists>tk. te_tok (ds_bringup h) = Some tk \<and> watching (ds_timers h) Bringup_Timer tk)) \<and>
     (l = WaitingForDown \<longrightarrow> TeardownTimeout_Signal \<in> set q \<or>
        (\<exists>tk. te_tok (ds_teardown h) = Some tk \<and> watching (ds_timers h) Teardown_Timer tk))"

lemma arm_fresh:
  "\<not> armed te \<Longrightarrow> arm_one_shot clk d te s =
     (te\<lparr>te_tok := Some (fst (schedule (te_fn te) (clk + d) 0 s))\<rparr>, snd (schedule (te_fn te) (clk + d) 0 s))"
  by (simp add: arm_one_shot_def disarm_def armed_def case_prod_unfold)

lemma schedule_next: "ts_next s + 1 < 2 ^ 64 \<Longrightarrow> fst (schedule f t p s) = ts_next s + 1 \<and> ts_next (snd (schedule f t p s)) = ts_next s + 1"
  by (simp add: schedule_def Let_def next_token_fresh)

lemma disarm_closed:
  "disarm te s = (te\<lparr>te_tok := None\<rparr>, case te_tok te of None \<Rightarrow> s | Some tk \<Rightarrow> cancel tk s)"
  by (cases te) (simp add: disarm_def split: option.splits)

lemma timers_fit_upd [simp]:
  "timers_fit (h\<lparr>ds_io := i\<rparr>) = timers_fit h" "timers_fit (h\<lparr>ds_call := c\<rparr>) = timers_fit h"
  "timers_fit (h\<lparr>ds_deferred := d\<rparr>) = timers_fit h" "timers_fit (h\<lparr>ds_stopCb := b\<rparr>) = timers_fit h"
  "timers_fit (h\<lparr>ao_q := q\<rparr>) = timers_fit h" "timers_fit (h\<lparr>ao_running := r\<rparr>) = timers_fit h"
  by (simp_all add: timers_fit_def)

lemma timers_fit_arm:
  assumes "timers_fit h" "ts_next (ds_timers h) + 1 < 2 ^ 64"
  shows "\<not> armed (ds_bringup h) \<Longrightarrow> timers_fit (enterWaitingForUp h)"
    and "\<not> armed (ds_teardown h) \<Longrightarrow> timers_fit (enterWaitingForDown h)"
proof -
  have sch: "timer_inv (snd (schedule f t q (ds_timers h)))" "fst (schedule f t q (ds_timers h)) = Suc (ts_next (ds_timers h))"
    "ts_next (snd (schedule f t q (ds_timers h))) = Suc (ts_next (ds_timers h))" for f t q
    using assms(1) timer_inv_schedule [OF _ assms(2)] schedule_next [OF assms(2)] by (simp_all add: timers_fit_def)
  have old: "te_fn (ds_bringup h) = Bringup_Timer" "te_fn (ds_teardown h) = Teardown_Timer"
    "tk \<in> set (opt_list (te_tok (ds_bringup h)) @ opt_list (te_tok (ds_teardown h))) \<Longrightarrow> tk \<le> Suc (ts_next (ds_timers h))" for tk
    using assms(1) by (auto simp: timers_fit_def le_SucI)
  show "\<not> armed (ds_bringup h) \<Longrightarrow> timers_fit (enterWaitingForUp h)"
    using old by (simp add: enterWaitingForUp_closed Let_def arm_fresh timers_fit_def sch)
  show "\<not> armed (ds_teardown h) \<Longrightarrow> timers_fit (enterWaitingForDown h)"
    using old by (simp add: enterWaitingForDown_def case_prod_unfold arm_fresh timers_fit_def sch)
qed

lemma timers_fit_disarm: "timers_fit h \<Longrightarrow> timers_fit (session_ex s h)"
  by (cases s) (auto simp: timers_fit_def exitWaitingForUp_def exitWaitingForDown_def disarm_closed timer_inv_cancel
      split: option.splits)

lemma timers_does:
  assumes does: "ses_does X c u h l g'" and inv: "session_inv cb p c h" and fit: "timers_fit h"
    and tok: "ts_next (ds_timers h) + 1 < 2 ^ 64"
  shows "timers_fit g'"
proof -
  note ex = timers_fit_disarm [where s = WaitingForUp, simplified]
  note shape = ds_emit_def on_call_def notifyListeners_def onFinished_def called_closed session_request_closed enterSendingStartReq_def enterSendingStopReq_def enterReconciling_def Let_def
  show ?thesis using does
  proof cases
    case (admits rsp g)
    then obtain k where "g = h\<lparr>ds_call := k\<rparr>" by (elim with_callE)
    with admits inv fit tok show ?thesis
      by (auto simp: called_closed session_inv_def intro!: timers_fit_arm(1))
  next
    case (connects g env)
    then obtain k where "g = h\<lparr>ds_call := k\<rparr>" by (elim with_callE)
    with connects fit show ?thesis by (simp add: shape ex)
  next
    case (ends env g)
    then obtain k where "g = h\<lparr>ds_call := k\<rparr>" by (elim with_callE)
    with ends fit show ?thesis by (simp add: shape timers_fit_disarm)
  next
    case (adjusts env)
    then obtain k where "g' = h\<lparr>ds_call := k\<rparr>" by (elim with_callE)
    with fit show ?thesis by simp
  next
    case (changes st g env)
    then obtain k where "g = h\<lparr>ds_call := k\<rparr>" by (elim with_callE)
    with changes fit show ?thesis by (simp add: shape)
  next
    case (accepted rsp g)
    then obtain k where "g = h\<lparr>ds_call := k\<rparr>" by (elim with_callE)
    with accepted inv fit tok show ?thesis
      by (auto simp: called_closed session_inv_def intro!: timers_fit_arm(2))
  next
    case (persists g rsp)
    then obtain k where "g = h\<lparr>ds_call := k\<rparr>" by (elim with_callE)
    with persists fit show ?thesis by (simp add: shape)
  next
    case (lapses g rsp c er)
    then obtain k where "g = h\<lparr>ds_call := k\<rparr>" by (elim with_callE)
    with lapses fit show ?thesis by (simp add: shape)
  next
    case (stops cb')
    with fit show ?thesis by (simp add: shape timers_fit_disarm)
  next
    case (busy cb')
    with fit show ?thesis by (simp add: shape split: option.splits)
  next
    case (fails rsp er)
    with fit show ?thesis by (simp add: shape)
  qed (use fit in \<open>simp_all add: shape\<close>)
qed

lemma watched_does:
  assumes does: "ses_does X c u h l g'" and inv: "session_inv cb p c h" and fit: "timers_fit h"
    and watch: "session_watched (u # ao_q h) c h"
  shows "session_watched (ao_q g') l g'"
  using does
proof cases
  case (admits rsp g)
  then obtain k where "g = h\<lparr>ds_call := k\<rparr>" by (elim with_callE)
  moreover have "\<not> armed (ds_bringup h)" "te_fn (ds_bringup h) = Bringup_Timer"
    using inv fit admits(1) by (simp_all add: session_inv_def timers_fit_def)
  ultimately show ?thesis using admits
    by (simp add: watching_scheduled session_watched_def called_closed enterWaitingForUp_closed Let_def arm_fresh)
next
  case (accepted rsp g)
  then obtain k where "g = h\<lparr>ds_call := k\<rparr>" by (elim with_callE)
  moreover have "\<not> armed (ds_teardown h)" "te_fn (ds_teardown h) = Teardown_Timer"
    using inv fit accepted(1) by (simp_all add: session_inv_def timers_fit_def)
  ultimately show ?thesis using accepted
    by (simp add: watching_scheduled session_watched_def called_closed enterWaitingForDown_def case_prod_unfold arm_fresh)
next
  case (busy cb')
  with watch show ?thesis by (auto simp: session_watched_def ds_emit_def split: option.splits)
next
  case ignores
  with watch show ?thesis by (cases c; cases u) (auto simp: session_watched_def)
qed (simp_all add: session_watched_def)

section \<open>Reachable states\<close>

definition session_sys :: "nat option \<Rightarrow> int \<Rightarrow> 'j data_session \<Rightarrow> bool" where
  "session_sys cb p h \<longleftrightarrow>
     (\<exists>l. hstate h = St l \<and> leaf_state l \<and> session_inv cb p l h \<and> (l = Idle \<longrightarrow> (\<exists>q. ao_q h = Ses_Start_Signal # q)) \<and>
        (ao_running h \<longrightarrow> session_watched (ao_q h) l h)) \<and> timers_fit h"

lemma session_inv_upd [simp]:
  "session_inv cb p l (h\<lparr>ao_q := q\<rparr>) = session_inv cb p l h"
  "session_inv cb p l (h\<lparr>ao_running := r\<rparr>) = session_inv cb p l h"
  "session_inv cb p l (h\<lparr>ds_timers := s\<rparr>) = session_inv cb p l h"
  "io_out i = io_out (ds_io h) \<Longrightarrow> session_inv cb p l (h\<lparr>ds_io := i\<rparr>) = session_inv cb p l h"
  by (simp_all add: session_inv_def ds_out_def)

lemma session_watched_upd [simp]:
  "session_watched qs l (h\<lparr>ao_q := q\<rparr>) = session_watched qs l h"
  "session_watched qs l (h\<lparr>ao_running := r\<rparr>) = session_watched qs l h"
  "session_watched qs l (h\<lparr>ds_io := i\<rparr>) = session_watched qs l h"
  by (simp_all add: session_watched_def)

lemma like_timers: "like g h \<Longrightarrow> timers_fit g = timers_fit h \<and> session_watched q l g = session_watched q l h"
  by (simp add: timers_fit_def session_watched_def like_session)

lemma session_sys_work:
  assumes fuel: "kMaxNest < n" and sys: "session_sys cb p h" and run: "run_step n (session_handlers X) h = Inr (res, h')"
    and tok: "ts_next (ds_timers h) + 1 < 2 ^ 64"
  shows "session_sys cb p h'"
proof -
  from sys obtain c where c: "hstate h = St c" "leaf_state c" "session_inv cb p c h"
    "c = Idle \<longrightarrow> (\<exists>q. ao_q h = Ses_Start_Signal # q)" "ao_running h \<longrightarrow> session_watched (ao_q h) c h" "timers_fit h"
    by (auto simp: session_sys_def)
  show ?thesis using fuel c(1,2) run
  proof (cases rule: session_work)
    case idle
    with sys show ?thesis by simp
  next
    case (took u us g l g')
    note g = like_session [OF took(3)] like_timers [OF took(3)] and g' = like_session [OF took(6)] like_timers [OF took(6)]
    have inv: "session_inv cb p c g" "timers_fit g" "ts_next (ds_timers g) + 1 < 2 ^ 64" using c tok by (simp_all add: g)
    have ig: "session_inv cb p l h'" using session_inv_does [OF took(2) inv(1)] by (simp add: g')
    have tg: "timers_fit h'" using timers_does [OF took(2) inv] by (simp add: g')
    have "l \<noteq> Idle" using took(2,1) c(4) by (cases rule: ses_does.cases) auto
    moreover have "ao_running h' = ao_running h"
      using run took(1) ses.dispatch_posts [OF fuel, of "h\<lparr>ao_q := us\<rparr>" c X u h'] c(1)
      by (auto simp: run_step_def ao_pop_def bindE_eq_Inr posts_only_def)
    moreover have "session_watched (ao_q h') l h'" if "ao_running h"
    proof -
      have "session_watched (u # ao_q g) c g" using c(5) that took(1) by (simp add: g)
      from watched_does [OF took(2) inv(1,2) this] show ?thesis by (simp add: g')
    qed
    ultimately show ?thesis using took(4,5) ig tg by (auto simp: session_sys_def)
  qed
qed

lemma session_sys_timers:
  assumes sys: "session_sys cb p h" and inv: "timer_inv s" "ts_next s = ts_next (ds_timers h)"
    and keep: "\<And>f tk. watching (ds_timers h) f tk \<Longrightarrow> watching s f tk \<or>
      (ao_running h \<longrightarrow> session_timer_event f \<in> set (ao_q h))"
  shows "session_sys cb p (h\<lparr>ds_timers := s\<rparr>)"
  using sys inv keep [of Bringup_Timer] keep [of Teardown_Timer]
  by (fastforce simp: session_sys_def timers_fit_def session_watched_def)

lemma session_sys_post: "session_sys cb p h \<Longrightarrow> session_sys cb p (post_fifo u h)"
  by (auto simp: session_sys_def post_fifo_def session_watched_def)

lemma session_sys_step:
  assumes fuel: "kMaxNest < n" and step: "session_step X n new h h'" and sys: "session_sys cb p h"
  shows "session_sys cb p h'"
proof -
  have ti: "timer_inv (ds_timers h)" using sys by (simp add: session_sys_def timers_fit_def)
  show ?thesis using step
  proof cases
  case (timer_wake now)
  have "session_sys cb p (h\<lparr>ds_timers := wake now (ds_timers h)\<rparr>)"
    using sys by (rule session_sys_timers) (simp_all add: timer_wake ti timer_inv_wake watching_wake, simp add: wake_def)
  with timer_wake show ?thesis by simp
next
  case (timer_batch now)
  have "session_sys cb p (h\<lparr>ds_timers := batch_step now (ds_timers h)\<rparr>)"
    using sys by (rule session_sys_timers)
      (simp_all add: timer_batch ti timer_inv_batch watching_batch, simp add: batch_step_def split: list.splits)
  with timer_batch show ?thesis by simp
next
  case (timer_fire now it clk)
  let ?h = "post_fifo (session_timer_event (it_fn it)) h"
  have T: "ds_timers ?h = ds_timers h" by (simp add: post_fifo_def)
  have "session_sys cb p (?h\<lparr>ds_timers := fire_finish clk now it (ds_timers h)\<rparr>)"
  proof (rule session_sys_timers [OF session_sys_post [OF sys]])
    show "timer_inv (fire_finish clk now it (ds_timers h))" using ti timer_fire(3) by (rule timer_inv_fire)
    show "ts_next (fire_finish clk now it (ds_timers h)) = ts_next (ds_timers ?h)"
      by (simp add: fire_finish_def Let_def T)
    show "watching (fire_finish clk now it (ds_timers h)) f tk \<or> (ao_running ?h \<longrightarrow> session_timer_event f \<in> set (ao_q ?h))"
      if "watching (ds_timers ?h) f tk" for f tk
      using that [unfolded T] watching_fire [OF ti timer_fire(3), of f tk clk]
      by (cases "it_fn it = f") (simp_all add: post_fifo_def)
  qed
  with timer_fire show ?thesis by simp
next
  case (tick t c)
  with sys show ?thesis by (auto simp: session_sys_def)
next
  case halt
  with sys show ?thesis by (auto simp: session_sys_def)
qed (use fuel sys in \<open>auto intro: session_sys_work session_sys_post\<close>)
qed

lemma session_started:
  assumes "kMaxNest < n" "session_start n X cb (newSession slot p fam ty name) = Inr h"
  shows "session_sys cb p h \<and> hstate h = St Idle \<and> stop_account Idle h = {#} \<and> ao_running h \<and> stop_cbs (ao_q h) = []"
proof -
  have "Idle \<noteq> Terminal" by simp
  note ini = ses.init_refines [OF assms(1) this settle_session]
  let ?h = "newSession slot p fam ty name\<lparr>ds_startCb := cb, ao_inst := True\<rparr>"
  from assms(2) obtain g where g: "start_at n (session_handlers X) (St Idle) ?h = Inr g" "h = post_fifo Ses_Start_Signal g"
    by (auto simp: session_start_def bindE_eq_Inr)
  have "like g (?h\<lparr>ao_running := True, trace_fn := True, probe_fn := True\<rparr>)" "hstate g = St Idle"
    using g(1) by (auto simp: start_at_def newSession_def ini lin_session like_def erase_def trace_def)
  note l = like_session [OF this(1)] like_timers [OF this(1)] this(2)
  have "session_inv cb p Idle g"
    by (simp only: l(1)) (simp add: session_inv_defs newSession_def newDataCall_def ds_out_def armed_def)
  moreover have "timers_fit g" by (simp add: l timers_fit_def newSession_def timer_inv_init)
  moreover have "session_watched q Idle g" for q by (simp add: session_watched_def)
  moreover have "ao_running g" "ao_q g = []" "ds_deferred g = []" "ds_out g = []" by (simp_all add: l newSession_def ds_out_def)
  ultimately show ?thesis
    by (simp add: g(2) post_fifo_def session_sys_def leaf_state_def l(13) stop_account_def pending_def) (simp add: ds_out_def)
qed

lemma session_sys_reach: "session_reach X n cb p iss h \<Longrightarrow> kMaxNest < n \<Longrightarrow> session_sys cb p h"
proof (induction rule: session_reach.induct)
  case (started slot fam ty name h)
  then show ?case using session_started by blast
next
  case (step iss h new h')
  then show ?case using session_sys_step by blast
qed

end
