(* ===== verification/Data_Session_Props.thy ===== *)
theory Data_Session_Props
  imports Data_Session_Books
begin

text \<open>
  What holds in every run of a data call session: the properties, with a run that shows them.
\<close>

section \<open>Accounts along a run\<close>

lemma session_account_work:
  assumes fuel: "kMaxNest < n" and sys: "session_sys cb p h" and cur: "hstate h = St c"
    and run: "run_step n (session_handlers X) h = Inr (res, h')"
  obtains l where "hstate h' = St l" "stop_account l h' \<subseteq># stop_account c h"
    "ao_running h \<Longrightarrow> c \<noteq> Terminal \<Longrightarrow> stop_account l h' = stop_account c h"
    "c = Terminal \<Longrightarrow> l = Terminal \<and> ds_out h' = ds_out h \<and> ds_deferred h' = ds_deferred h"
proof -
  from sys cur have c: "leaf_state c" "session_inv cb p c h" "c = Idle \<longrightarrow> (\<exists>q. ao_q h = Ses_Start_Signal # q)"
    by (auto simp: session_sys_def)
  show thesis using fuel cur c(1) run
  proof (cases rule: session_work)
    case idle
    with cur show thesis by (intro that [of c]) auto
  next
    case (took u us g l g')
    note g = like_session [OF took(3)] and g' = like_session [OF took(6)]
    have inv: "session_inv cb p c g" using c(2) by (simp add: g)
    have pop: "stop_account c h = stop_account c g + mset (stop_cbs [u])"
      using took(1) by (cases u rule: session_event.exhaust)
        (auto simp: stop_account_def pending_def g ds_out_def stop_cbs_cons)
    have acc: "stop_account l h' = stop_account l g'" by (simp add: stop_account_def pending_def g')
    have "c = Idle \<longrightarrow> u = Ses_Start_Signal" using c(3) took(1) by auto
    with account_does [OF took(2) inv] have "stop_account l h' \<subseteq># stop_account c h"
      "ao_running h \<Longrightarrow> c \<noteq> Terminal \<Longrightarrow> stop_account l h' = stop_account c h"
      unfolding acc pop by (simp_all add: g)
    moreover have "c = Terminal \<Longrightarrow> l = Terminal \<and> ds_out h' = ds_out h \<and> ds_deferred h' = ds_deferred h"
      using took(2) by (cases rule: ses_does.cases) (auto simp: g g' ds_out_def)
    ultimately show thesis using that took(4) by blast
  qed
qed

lemma stop_account_upd [simp]:
  "stop_account c (h\<lparr>ds_timers := s\<rparr>) = stop_account c h" "stop_account c (h\<lparr>ao_running := b\<rparr>) = stop_account c h"
  "io_out i = io_out (ds_io h) \<Longrightarrow> stop_account c (h\<lparr>ds_io := i\<rparr>) = stop_account c h"
  by (simp_all add: stop_account_def pending_def ds_out_def)

lemma stop_account_post:
  "stop_account c (post_fifo u h) = stop_account c h + (if ao_running h then mset (stop_cbs [u]) else {#})"
  by (simp add: stop_account_def pending_def ds_out_def post_fifo_def)

lemma session_timer_event_stops [simp]: "stop_cbs [session_timer_event f] = []"
  by (cases f) simp_all

lemma ds_post [simp]: "ds_out (post_fifo u h) = ds_out h" "ds_deferred (post_fifo u h) = ds_deferred h"
  by (simp_all add: post_fifo_def ds_out_def)

lemma ds_out_upd [simp]:
  "ds_out (h\<lparr>ds_timers := s\<rparr>) = ds_out h" "ds_out (h\<lparr>ao_running := b\<rparr>) = ds_out h"
  "io_out i = io_out (ds_io h) \<Longrightarrow> ds_out (h\<lparr>ds_io := i\<rparr>) = ds_out h"
  by (simp_all add: ds_out_def)

lemma session_account_step:
  assumes fuel: "kMaxNest < n" and sys: "session_sys cb p h" and cur: "hstate h = St c"
    and step: "session_step X n new h h'"
  obtains l where "hstate h' = St l" "stop_account l h' \<subseteq># stop_account c h + mset new"
    "ao_running h' \<Longrightarrow> l \<noteq> Terminal \<Longrightarrow> ao_running h \<and> c \<noteq> Terminal \<and> stop_account l h' = stop_account c h + mset new"
    "c = Terminal \<Longrightarrow> l = Terminal \<and> ds_out h' = ds_out h \<and> ds_deferred h' = ds_deferred h"
  using step
proof cases
  case (work res)
  from session_account_work [OF fuel sys cur work(2)] obtain l where l: "hstate h' = St l"
    "stop_account l h' \<subseteq># stop_account c h" "ao_running h \<Longrightarrow> c \<noteq> Terminal \<Longrightarrow> stop_account l h' = stop_account c h"
    "c = Terminal \<Longrightarrow> l = Terminal \<and> ds_out h' = ds_out h \<and> ds_deferred h' = ds_deferred h" by blast
  have "ao_running h' = ao_running h"
  proof (cases "ao_q h")
    case Nil
    with work show ?thesis by (simp add: run_step_def ao_pop_def)
  next
    case (Cons u us)
    with work ses.dispatch_posts [OF fuel, of "h\<lparr>ao_q := us\<rparr>" c X u h'] cur show ?thesis
      by (auto simp: run_step_def ao_pop_def bindE_eq_Inr posts_only_def)
  qed
  with l work(1) show thesis by (intro that [of l]) auto
qed (rule that [of c]; use cur in \<open>simp add: stop_account_post\<close>)+

lemma session_account_reach:
  assumes "session_reach X n cb p iss h" "kMaxNest < n"
  shows "\<exists>l. hstate h = St l \<and> leaf_state l \<and> stop_account l h \<subseteq># mset iss \<and>
    (ao_running h \<and> l \<noteq> Terminal \<longrightarrow> stop_account l h = mset iss)"
  using assms
proof (induction rule: session_reach.induct)
  case (started slot fam ty name h)
  with session_started [of n X cb slot p fam ty name h] show ?case by (auto simp: leaf_state_def)
next
  case (step iss h new h')
  from step obtain c where c: "hstate h = St c" "stop_account c h \<subseteq># mset iss"
    "ao_running h \<and> c \<noteq> Terminal \<longrightarrow> stop_account c h = mset iss" by blast
  note sys = session_sys_reach [OF step.hyps(1) step.prems]
  from session_account_step [OF step.prems sys c(1) step.hyps(2)] obtain l where l: "hstate h' = St l"
    "stop_account l h' \<subseteq># stop_account c h + mset new"
    "ao_running h' \<Longrightarrow> l \<noteq> Terminal \<Longrightarrow> ao_running h \<and> c \<noteq> Terminal \<and> stop_account l h' = stop_account c h + mset new"
    by blast
  have "leaf_state l" using session_sys_step [OF step.prems step.hyps(2) sys] l(1) by (auto simp: session_sys_def)
  moreover have "stop_account l h' \<subseteq># mset (iss @ new)"
    using l(2) c(2) by (auto intro: subset_mset.trans)
  ultimately show ?case using l c(3) by auto
qed

section \<open>Requests outstanding\<close>

text \<open>The requests that a session has handed to the bridge: the topic, and what its callback posts.\<close>

fun ses_requests :: "'j session_effect list \<Rightarrow> (string \<times> session_cont) list" where
  "ses_requests [] = []"
| "ses_requests (Ses_Request t sch env k tm # xs) = (t, k) # ses_requests xs"
| "ses_requests (_ # xs) = ses_requests xs"

lemma ses_requests_append [simp]: "ses_requests (xs @ ys) = ses_requests xs @ ses_requests ys"
  by (induction xs rule: ses_requests.induct) simp_all

lemma ses_requests_called [simp]:
  "ses_requests (map (\<lambda>cb. Start_Called cb c er) cbs) = []" "ses_requests (map (\<lambda>cb. Stop_Called cb c er) cbs) = []"
  by (induction cbs; simp)+

text \<open>
  The runs of a session together with the bridge, which answers each request at most once: \<open>A\<close> are the
  requests answered so far, by a response or, after \<open>kDataRpcTimeout\<close>, by none.
\<close>

inductive session_served :: "'j session_ext \<Rightarrow> nat \<Rightarrow> nat option \<Rightarrow> int \<Rightarrow> nat list \<Rightarrow> (string \<times> session_cont) multiset
    \<Rightarrow> 'j data_session \<Rightarrow> bool"
  for X n cb p where
  started: "session_start n X cb (newSession slot p fam ty name) = Inr h \<Longrightarrow> session_served X n cb p [] {#} h"
| step: "session_served X n cb p iss A h \<Longrightarrow> session_step X n new h h' \<Longrightarrow> session_served X n cb p (iss @ new) A h'"
| answer: "session_served X n cb p iss A h \<Longrightarrow> add_mset (t, k) A \<subseteq># mset (ses_requests (ds_out h)) \<Longrightarrow>
    session_served X n cb p iss (add_mset (t, k) A) (post_fifo (session_response k rsp) h)"

lemma session_response_stops [simp]: "stop_cbs [session_response k rsp] = []"
  by (cases k) simp_all

lemma session_served_reach: "session_served X n cb p iss A h \<Longrightarrow> session_reach X n cb p iss h"
proof (induction rule: session_served.induct)
  case (started slot fam ty name h)
  then show ?case by (rule session_reach.started)
next
  case (step iss A h new h')
  then show ?case by (blast intro: session_reach.step)
next
  case (answer iss A h t k rsp)
  show ?case
  proof (cases "ao_running h")
    case True
    from session_reach.step [OF answer.IH session_step.post [OF True, of X n "session_response k rsp"]] show ?thesis by simp
  next
    case False
    with answer.IH show ?thesis by (simp add: post_fifo_def)
  qed
qed

text \<open>Every run of the session on its own is one with the bridge, which may leave every request unanswered.\<close>

lemma session_reach_served: "session_reach X n cb p iss h \<Longrightarrow> session_served X n cb p iss {#} h"
  by (induction rule: session_reach.induct) (blast intro: session_served.intros)+

text \<open>
  A session that waits for an answer has a request of the right topic with the bridge, not answered yet, or
  the answer is among the events \<open>q\<close>.
\<close>

definition outstanding :: "(string \<times> session_cont) multiset \<Rightarrow> 'j data_session \<Rightarrow> (string \<times> session_cont) multiset" where
  "outstanding A h = mset (ses_requests (ds_out h)) - A"

definition session_asked :: "'j session_ext \<Rightarrow> (string \<times> session_cont) multiset \<Rightarrow> 'j session_event list \<Rightarrow> dstate \<Rightarrow> 'j data_session \<Rightarrow> bool" where
  "session_asked X A q l h \<longleftrightarrow>
     (l = SendingStartReq \<longrightarrow> (start_data_call_req X, K_Start_Call) \<in># outstanding A h \<or> (\<exists>rsp. StartRsp_Signal rsp \<in> set q)) \<and>
     (l = SendingStopReq \<longrightarrow> (stop_data_call_req X, K_Stop_Call) \<in># outstanding A h \<or> (\<exists>rsp. StopRsp_Signal rsp \<in> set q)) \<and>
     (l = Reconciling \<longrightarrow> (list_data_call_req X, K_List_Call) \<in># outstanding A h \<or> (\<exists>rsp. ListRsp_Signal rsp \<in> set q))"

lemma in_outstanding: "A \<subseteq># B \<Longrightarrow> x \<in># add_mset x B - A"
  by (simp add: in_diff_count) (metis le_imp_less_Suc mset_subset_eq_count)

lemma asked_does:
  assumes does: "ses_does X c u h l g'" and A: "A \<subseteq># mset (ses_requests (ds_out h))"
  shows "(session_asked X A (u # ao_q h) c h \<longrightarrow> session_asked X A (ao_q g') l g') \<and> A \<subseteq># mset (ses_requests (ds_out g'))"
  using does
proof cases
  case (admits rsp g)
  then obtain k where "g = h\<lparr>ds_call := k\<rparr>" by (elim with_callE)
  with admits A show ?thesis by (auto simp: session_asked_def session_shape)
next
  case (connects g env)
  then obtain k where "g = h\<lparr>ds_call := k\<rparr>" by (elim with_callE)
  with connects A show ?thesis by (auto simp: session_asked_def session_shape)
next
  case (ends env g)
  then obtain k where "g = h\<lparr>ds_call := k\<rparr>" by (elim with_callE)
  with ends A show ?thesis by (auto simp: session_asked_def session_shape)
next
  case (adjusts env)
  then obtain k where "g' = h\<lparr>ds_call := k\<rparr>" by (elim with_callE)
  with adjusts A show ?thesis by (auto simp: session_asked_def session_shape)
next
  case (changes st g env)
  then obtain k where "g = h\<lparr>ds_call := k\<rparr>" by (elim with_callE)
  with changes A show ?thesis by (auto simp: session_asked_def session_shape)
next
  case (accepted rsp g)
  then obtain k where "g = h\<lparr>ds_call := k\<rparr>" by (elim with_callE)
  with accepted A show ?thesis by (auto simp: session_asked_def session_shape)
next
  case (persists g rsp)
  then obtain k where "g = h\<lparr>ds_call := k\<rparr>" by (elim with_callE)
  with persists A show ?thesis by (auto simp: session_asked_def session_shape)
next
  case (lapses g rsp c er)
  then obtain k where "g = h\<lparr>ds_call := k\<rparr>" by (elim with_callE)
  with lapses A show ?thesis by (auto simp: session_asked_def session_shape)
next
  case (busy cb')
  with A show ?thesis by (cases cb') (auto simp: session_asked_def outstanding_def session_shape)
next
  case ignores
  with A show ?thesis by (cases c; cases u) (auto simp: session_asked_def)
next
  case begins
  with A show ?thesis
    by (auto simp: session_asked_def outstanding_def session_shape in_outstanding intro: subset_mset.trans)
next
  case (stops cb')
  with A show ?thesis
    by (auto simp: session_asked_def outstanding_def session_shape in_outstanding intro: subset_mset.trans)
next
  case (refused rsp)
  with A show ?thesis
    by (auto simp: session_asked_def outstanding_def session_shape in_outstanding intro: subset_mset.trans)
next
  case (defers cb')
  with A show ?thesis by (auto simp: session_asked_def outstanding_def session_shape)
next
  case (fails rsp er)
  with A show ?thesis by (auto simp: session_asked_def session_shape)
qed

definition session_bound :: "'j session_ext \<Rightarrow> (string \<times> session_cont) multiset \<Rightarrow> 'j data_session \<Rightarrow> bool" where
  "session_bound X A h \<longleftrightarrow> A \<subseteq># mset (ses_requests (ds_out h)) \<and>
     (\<exists>l. hstate h = St l \<and> (ao_running h \<longrightarrow> session_asked X A (ao_q h) l h))"

lemma session_asked_upd [simp]:
  "session_asked X A q l (h\<lparr>ds_timers := s\<rparr>) = session_asked X A q l h"
  "session_asked X A q l (h\<lparr>ao_running := b\<rparr>) = session_asked X A q l h"
  "io_out i = io_out (ds_io h) \<Longrightarrow> session_asked X A q l (h\<lparr>ds_io := i\<rparr>) = session_asked X A q l h"
  "session_asked X A q l (post_fifo u h) = session_asked X A q l h"
  by (simp_all add: session_asked_def outstanding_def)

lemma session_asked_more: "session_asked X A q l h \<Longrightarrow> set q \<subseteq> set q' \<Longrightarrow> session_asked X A q' l h"
  unfolding session_asked_def by blast

lemma session_bound_post: "session_bound X A h \<Longrightarrow> session_bound X A (post_fifo u h)"
  by (auto simp: session_bound_def post_fifo_def elim: session_asked_more)
    (auto simp: session_asked_def outstanding_def ds_out_def)

lemma session_bound_work:
  assumes fuel: "kMaxNest < n" and sys: "session_sys cb p h" and run: "run_step n (session_handlers X) h = Inr (res, h')"
    and bound: "session_bound X A h"
  shows "session_bound X A h'"
proof -
  from sys obtain c where c: "hstate h = St c" "leaf_state c" by (auto simp: session_sys_def)
  show ?thesis using fuel c run
  proof (cases rule: session_work)
    case idle
    with bound show ?thesis by simp
  next
    case (took u us g l g')
    note g = like_session [OF took(3)] and g' = like_session [OF took(6)]
    have run': "ao_running h' = ao_running h"
      using run took(1) ses.dispatch_posts [OF fuel, of "h\<lparr>ao_q := us\<rparr>" c X u h'] c(1)
      by (auto simp: run_step_def ao_pop_def bindE_eq_Inr posts_only_def)
    have A: "A \<subseteq># mset (ses_requests (ds_out g))" using bound by (simp add: session_bound_def g ds_out_def)
    have "session_asked X A (u # ao_q g) c g" if "ao_running h"
      using bound c(1) took(1) that by (auto simp: session_bound_def session_asked_def outstanding_def g ds_out_def)
    with asked_does [OF took(2) A] run' took(4) show ?thesis
      by (auto simp: session_bound_def session_asked_def outstanding_def g')
  qed
qed

lemma session_bound_step:
  assumes fuel: "kMaxNest < n" and sys: "session_sys cb p h" and step: "session_step X n new h h'" and bound: "session_bound X A h"
  shows "session_bound X A h'"
  using step
proof cases
  case (timer_fire now it clk)
  from session_bound_post [OF bound, of "session_timer_event (it_fn it)"] timer_fire(2) show ?thesis
    by (simp add: session_bound_def)
next
  case (post u)
  with session_bound_post [OF bound] show ?thesis by simp
next
  case (work res)
  with session_bound_work [OF fuel sys _ bound] show ?thesis by blast
qed (use bound in \<open>auto simp: session_bound_def\<close>)

lemma session_bound_answer:
  assumes bound: "session_bound X A h" and A: "add_mset (t, k) A \<subseteq># mset (ses_requests (ds_out h))"
  shows "session_bound X (add_mset (t, k) A) (post_fifo (session_response k rsp) h)"
proof -
  have keep: "x \<in># outstanding (add_mset (t, k) A) h \<or> snd x = k" if "x \<in># outstanding A h" for x
    using that by (auto simp: outstanding_def in_diff_count)
  show ?thesis using bound A keep [of "(start_data_call_req X, K_Start_Call)"] keep [of "(stop_data_call_req X, K_Stop_Call)"]
      keep [of "(list_data_call_req X, K_List_Call)"]
    by (cases k) (auto simp: session_bound_def session_asked_def outstanding_def post_fifo_def ds_out_def)
qed

lemma session_bound_served: "session_served X n cb p iss A h \<Longrightarrow> kMaxNest < n \<Longrightarrow> session_bound X A h"
proof (induction rule: session_served.induct)
  case (started slot fam ty name h)
  with session_started [of n X cb slot p fam ty name h] show ?case by (auto simp: session_bound_def session_asked_def)
next
  case (step iss A h new h')
  with session_bound_step session_sys_reach [OF session_served_reach] show ?case by blast
next
  case (answer iss A h t k rsp)
  then show ?case by (blast intro: session_bound_answer)
qed

section \<open>A run\<close>

text \<open>A call that is started; a stop request comes before the answer and waits for it.\<close>

definition demo_ses_ext :: "jtree session_ext" where
  "demo_ses_ext = \<lparr>ss_json = tree_lib, start_data_call_req = ''start'', stop_data_call_req = ''stop'',
     list_data_call_req = ''list'', ss_pa_id = ''pa-1''\<rparr>"

definition demo_ses_rsp :: "jtree envelope option" where
  "demo_ses_rsp = Some (makeResponseEnvelope 5 ''mpss'' ''00000000'' ''pa-1'' (JObj [(''ifname'', JStr ''rmnet0'')]))"

definition demo_ses0 :: "jtree data_session" where
  "demo_ses0 = projr (session_start 9 demo_ses_ext (Some 1) (newSession 1 5 IPF_IPV4V6 DATA_LOCAL []))"

text \<open>One event: post it and let the worker take the front event.\<close>

definition demo_take :: "jtree session_event \<Rightarrow> jtree data_session \<Rightarrow> jtree data_session" where
  "demo_take u h = snd (projr (run_step 9 (session_handlers demo_ses_ext) (post_fifo u h)))"

lemma demo_take_reach:
  assumes "session_reach demo_ses_ext 9 cb p iss h" "ao_running h"
    and "map_sum id fst (run_step 9 (session_handlers demo_ses_ext) (post_fifo u h)) = Inr res"
    and "ts_next (ds_timers h) < 10"
  shows "session_reach demo_ses_ext 9 cb p (iss @ stop_cbs [u]) (demo_take u h)"
proof -
  have "session_reach demo_ses_ext 9 cb p (iss @ stop_cbs [u]) (post_fifo u h)"
    using assms(1) session_step.post [OF assms(2)] by (rule session_reach.step)
  moreover have "session_step demo_ses_ext 9 [] (post_fifo u h) (demo_take u h)"
  proof (rule session_step.work)
    show "run_step 9 (session_handlers demo_ses_ext) (post_fifo u h) = Inr (res, demo_take u h)"
      unfolding demo_take_def by (rule Inr_fst [OF assms(3)])
    show "ts_next (ds_timers (post_fifo u h)) + 1 < 2 ^ 64" using assms(4) by (simp add: post_fifo_def)
  qed
  ultimately have "session_reach demo_ses_ext 9 cb p ((iss @ stop_cbs [u]) @ []) (demo_take u h)" by (rule session_reach.step)
  then show ?thesis by simp
qed

definition demo_ses1 :: "jtree data_session" where
  "demo_ses1 = demo_take (Ses_Stop_Signal (Some 2)) demo_ses0"

definition demo_ses2 :: "jtree data_session" where
  "demo_ses2 = demo_take (StartRsp_Signal demo_ses_rsp) demo_ses1"

lemma demo_ses_runs:
  "ao_running demo_ses0" "ts_next (ds_timers demo_ses0) < 10"
  "map_sum id fst (run_step 9 (session_handlers demo_ses_ext) (post_fifo (Ses_Stop_Signal (Some 2)) demo_ses0)) = Inr Dispatched"
  "ao_running demo_ses1" "ts_next (ds_timers demo_ses1) < 10"
  "map_sum id fst (run_step 9 (session_handlers demo_ses_ext) (post_fifo (StartRsp_Signal demo_ses_rsp) demo_ses1)) = Inr Dispatched"
  by code_simp+

lemma demo_ses0_reach: "session_reach demo_ses_ext 9 (Some 1) 5 [] demo_ses0"
proof -
  have "map_sum id (\<lambda>_. ()) (session_start 9 demo_ses_ext (Some 1) (newSession 1 5 IPF_IPV4V6 DATA_LOCAL [])) = Inr ()"
    by code_simp
  then have "session_start 9 demo_ses_ext (Some 1) (newSession 1 5 IPF_IPV4V6 DATA_LOCAL []) = Inr demo_ses0"
    unfolding demo_ses0_def by (cases "session_start 9 demo_ses_ext (Some 1) (newSession 1 5 IPF_IPV4V6 DATA_LOCAL [])") auto
  then show ?thesis by (rule session_reach.started)
qed

lemma demo_ses_reach:
  "session_reach demo_ses_ext 9 (Some 1) 5 [2] demo_ses1"
  "session_reach demo_ses_ext 9 (Some 1) 5 [2] demo_ses2"
proof -
  show r1: "session_reach demo_ses_ext 9 (Some 1) 5 [2] demo_ses1"
    using demo_take_reach [OF demo_ses0_reach demo_ses_runs(1,3,2)] by (simp add: demo_ses1_def)
  show "session_reach demo_ses_ext 9 (Some 1) 5 [2] demo_ses2"
    using demo_take_reach [OF r1 demo_ses_runs(4,6,5)] by (simp add: demo_ses2_def)
qed

text \<open>The same request to stop, when the start is answered with no response.\<close>

definition demo_fail2 :: "jtree data_session" where
  "demo_fail2 = demo_take (StartRsp_Signal None) demo_ses1"

definition demo_fail3 :: "jtree data_session" where
  "demo_fail3 = demo_take (Ses_Stop_Signal (Some 3)) demo_fail2"

lemma demo_fail_runs:
  "ao_running demo_fail2" "ts_next (ds_timers demo_fail2) < 10"
  "map_sum id fst (run_step 9 (session_handlers demo_ses_ext) (post_fifo (StartRsp_Signal None) demo_ses1)) = Inr Dispatched"
  "map_sum id fst (run_step 9 (session_handlers demo_ses_ext) (post_fifo (Ses_Stop_Signal (Some 3)) demo_fail2)) = Inr Dispatched"
  "hstate demo_fail3 = St Terminal" "dc_status (ds_call demo_fail3) = NET_IDLE"
  "stop_cbs (ds_deferred demo_fail3) = [2]"
  by code_simp+

lemma demo_fail_reach: "session_reach demo_ses_ext 9 (Some 1) 5 [2, 3] demo_fail3"
proof -
  have "session_reach demo_ses_ext 9 (Some 1) 5 [2] demo_fail2"
    using demo_take_reach [OF demo_ses_reach(1) demo_ses_runs(4) demo_fail_runs(3) demo_ses_runs(5)] by (simp add: demo_fail2_def)
  from demo_take_reach [OF this demo_fail_runs(1,4,2)] show ?thesis by (simp add: demo_fail3_def)
qed

lemma fuel_nine: "kMaxNest < 9"
  by (simp add: kMaxNest_def)

section \<open>Properties\<close>

text \<open>C19: in every run of a data call session with the bridge, the status of the call, the two timers and the
  deferred requests fit the state: the call is \<open>CONNECTING\<close> exactly while it is awaited, \<open>DISCONNECTING\<close> while
  its end is awaited, one of the four connected statuses while it is up; the bring-up timer is armed in
  \<open>WaitingForUp\<close> only and the teardown timer in \<open>WaitingForDown\<close> only; requests are deferred only until the
  start is answered. And while the session runs, no state waits for nothing. \<open>Idle\<close> has its start signal at the
  front of the queue. \<open>WaitingForUp\<close> and \<open>WaitingForDown\<close> have their timer alive in the timer service or its signal
  queued. \<open>SendingStartReq\<close>, \<open>SendingStopReq\<close> and \<open>Reconciling\<close> have their request, on its own topic, handed to the
  bridge and not answered yet, or the answer queued.\<close>

theorem session_lifecycle:
  assumes "session_served X n cb p iss A h" "kMaxNest < n"
  shows "\<exists>l. hstate h = St l \<and> l \<noteq> Active \<and> status_fits l (dc_status (ds_call h)) \<and>
    (armed (ds_bringup h) \<longleftrightarrow> l = WaitingForUp) \<and> (armed (ds_teardown h) \<longleftrightarrow> l = WaitingForDown) \<and>
    (ds_deferred h \<noteq> [] \<longrightarrow> l \<in> {SendingStartReq, Terminal}) \<and> (l = Idle \<longrightarrow> (\<exists>q. ao_q h = Ses_Start_Signal # q)) \<and>
    (ao_running h \<longrightarrow> session_watched (ao_q h) l h \<and> session_asked X A (ao_q h) l h)"
  using session_sys_reach [OF session_served_reach [OF assms(1)] assms(2)] session_bound_served [OF assms]
  by (auto simp: session_sys_def session_inv_def leaf_state_def session_bound_def)

theorem session_lifecycle_witness:
  "hstate demo_ses1 = St SendingStartReq \<and> status_fits SendingStartReq (dc_status (ds_call demo_ses1)) \<and>
    \<not> armed (ds_bringup demo_ses1) \<and> \<not> armed (ds_teardown demo_ses1) \<and>
    (''start'', K_Start_Call) \<in># outstanding {#} demo_ses1"
proof -
  have "hstate demo_ses1 = St SendingStartReq" "ao_running demo_ses1" "ao_q demo_ses1 = [Ses_Stop_Signal (Some 2)]" by code_simp+
  with session_lifecycle [OF session_reach_served [OF demo_ses_reach(1)] fuel_nine] show ?thesis
    by (auto simp: session_asked_def demo_ses_ext_def)
qed

text \<open>C20: what the clients of a session hear, in every run. The callback of the start is called once, when
  the request is answered: with an error and no call, or with success and a call that is being set up.
  The listeners hear nothing before the call is up, then first that it is connected, then only connected
  statuses; at the end of an admitted call they hear once, as the last thing, how it ended; of a call
  that could not be started they hear nothing.\<close>

theorem session_clients_told:
  assumes "session_reach X n cb p iss h" "kMaxNest < n" "hstate h = St l"
  shows "start_fits cb l (dc_status (ds_call h)) (start_calls (ds_out h)) \<and> notes_fit l (ds_call h) (told (ds_out h))"
  using session_sys_reach [OF assms(1,2)] assms(3) by (auto simp: session_sys_def session_inv_def)

theorem session_clients_told_witness:
  "start_fits (Some 1) Terminal (dc_status (ds_call demo_fail3)) (start_calls (ds_out demo_fail3)) \<and>
    notes_fit Terminal (ds_call demo_fail3) (told (ds_out demo_fail3))"
  by (rule session_clients_told [OF demo_fail_reach fuel_nine demo_fail_runs(5)])

text \<open>C21: no request to stop a session is answered twice or by another's callback, in every run; and while
  the session runs and has not ended, every request was answered or is held exactly once, by the stop in
  progress, the deferred events or the queue.\<close>

theorem stop_requests_accounted:
  assumes "session_reach X n cb p iss h" "kMaxNest < n" "hstate h = St l"
  shows "mset (stop_calls (ds_out h)) \<subseteq># mset iss \<and>
    (ao_running h \<and> l \<noteq> Terminal \<longrightarrow>
      mset iss = mset (stop_calls (ds_out h)) + mset (pending l h) + mset (stop_cbs (ds_deferred h)) + mset (stop_cbs (ao_q h)))"
proof -
  from session_account_reach [OF assms(1,2)] assms(3) have acc: "stop_account l h \<subseteq># mset iss"
    "ao_running h \<and> l \<noteq> Terminal \<longrightarrow> stop_account l h = mset iss" by auto
  have "mset (stop_calls (ds_out h)) \<subseteq># stop_account l h" by (simp add: stop_account_def)
  from subset_mset.trans [OF this acc(1)] acc(2) show ?thesis by (simp add: stop_account_def)
qed

theorem stop_requests_accounted_witness:
  "mset (stop_calls (ds_out demo_ses2)) \<subseteq># mset [2] \<and>
    mset [2] = mset (stop_calls (ds_out demo_ses2)) + mset (pending SendingStartReq demo_ses2) +
      mset (stop_cbs (ds_deferred demo_ses2)) + mset (stop_cbs (ao_q demo_ses2))"
proof -
  have "hstate demo_ses2 = St SendingStartReq" "ao_running demo_ses2" by code_simp+
  with stop_requests_accounted [OF demo_ses_reach(2) fuel_nine this(1)] show ?thesis by simp
qed

text \<open>C22: \<open>Terminal\<close> is final: whatever happens to an ended session, it stays there, calls nobody any more
  and keeps what it had deferred, so a stop request that was deferred when the start failed is never
  answered. Up to then its owner was told the end once, but twice when the start failed.\<close>

theorem session_end_is_final:
  assumes "session_reach X n cb p iss h" "kMaxNest < n" "hstate h = St Terminal" "session_step X n new h h'"
  shows "hstate h' = St Terminal \<and> ds_out h' = ds_out h \<and> ds_deferred h' = ds_deferred h \<and>
    finishes (ds_out h) = (if dc_status (ds_call h) = NET_IDLE then [p, p] else [p])"
proof -
  note sys = session_sys_reach [OF assms(1,2)]
  from session_account_step [OF assms(2) sys assms(3,4)] have
    "hstate h' = St Terminal \<and> ds_out h' = ds_out h \<and> ds_deferred h' = ds_deferred h" by auto
  moreover have "finishes_fit Terminal (dc_status (ds_call h)) p (finishes (ds_out h))"
    using sys assms(3) by (auto simp: session_sys_def session_inv_def)
  ultimately show ?thesis by (simp add: finishes_fit_def)
qed

theorem session_end_is_final_witness:
  "stop_cbs (ds_deferred demo_fail3) = [2] \<and>
   (let h' = post_fifo (Ses_Stop_Signal (Some 4)) demo_fail3 in
    hstate h' = St Terminal \<and> ds_out h' = ds_out demo_fail3 \<and> ds_deferred h' = ds_deferred demo_fail3 \<and>
    finishes (ds_out demo_fail3) = [5, 5])"
proof -
  have "ao_running demo_fail3" by code_simp
  from session_end_is_final [OF demo_fail_reach fuel_nine demo_fail_runs(5) session_step.post [OF this, of _ _ "Ses_Stop_Signal (Some 4)"]]
  show ?thesis using demo_fail_runs(6,7) by (simp add: Let_def)
qed

text \<open>The worker's handling of an event follows the protocol of a data call session: whatever the event
  contains, if the worker gets through it then the new state and what was done are those of one step of
  the protocol.\<close>

theorem session_follows_protocol:
  assumes "kMaxNest < n" "hstate h = St c" "c \<noteq> Active" "ao_q h = u # us"
    and "run_step n (session_handlers X) h = Inr (res, h')"
  shows "\<exists>g l g'. like g (h\<lparr>ao_q := us\<rparr>) \<and> ses_does X c u g l g' \<and> hstate h' = St l \<and> l \<noteq> Active \<and> like h' g'"
proof -
  have "leaf_state c" using assms(3) by (simp add: leaf_state_def)
  with assms(1,2) show ?thesis using assms(5)
  proof (cases rule: session_work)
    case (took u us g l g')
    with assms(4) show ?thesis by (auto simp: leaf_state_def)
  qed (use assms(4) in simp)
qed

theorem session_follows_protocol_witness:
  "\<exists>g l g'. like g (demo_ses1\<lparr>ao_q := []\<rparr>) \<and> ses_does demo_ses_ext SendingStartReq (Ses_Stop_Signal (Some 2)) g l g' \<and>
     hstate (snd (projr (run_step 9 (session_handlers demo_ses_ext) demo_ses1))) = St l \<and> l \<noteq> Active \<and>
     like (snd (projr (run_step 9 (session_handlers demo_ses_ext) demo_ses1))) g'"
proof -
  have "map_sum id fst (run_step 9 (session_handlers demo_ses_ext) demo_ses1) = Inr Dispatched" by code_simp
  note run = Inr_fst [OF this]
  have "hstate demo_ses1 = St SendingStartReq" "ao_q demo_ses1 = [Ses_Stop_Signal (Some 2)]" by code_simp+
  from session_follows_protocol [OF fuel_nine this(1) _ this(2) run] show ?thesis by simp
qed

end
