(* ===== verification/Data_Session_Types.thy ===== *)
theory Data_Session_Types
  imports Data_Session_Props
begin

text \<open>
  Well-typed messages: which members of the peer's messages a data call session reads, and the proof
  that its worker gets through every queue of messages whose members have the types it expects.
\<close>

section \<open>Messages\<close>

definition ind_typed :: "'j json_lib \<Rightarrow> 'j \<Rightarrow> bool" where
  "ind_typed J d \<longleftrightarrow> string_fields J [''status'', ''ifname'', ''bearer_tech''] d \<and> addrs_typed J d \<and>
     member_typed (int_fields J [''type'', ''code'']) J ''end_reason'' d"

definition calls_typed :: "'j json_lib \<Rightarrow> 'j \<Rightarrow> bool" where
  "calls_typed J cs \<longleftrightarrow> list_all (\<lambda>c. int_fields J [''profileId''] c \<and> string_fields J [''status''] c) (j_iter J cs)"

fun session_typed :: "'j json_lib \<Rightarrow> 'j session_event \<Rightarrow> bool" where
  "session_typed J (StateInd_Signal env) \<longleftrightarrow> pred_option (ind_typed J) (env_data env)"
| "session_typed J (StartRsp_Signal (Some env)) \<longleftrightarrow>
     pred_option (string_fields J [''code'']) (env_error env) \<and> pred_option (string_fields J [''ifname'']) (env_data env)"
| "session_typed J (ListRsp_Signal (Some env)) \<longleftrightarrow> pred_option (member_typed (calls_typed J) J ''calls'') (env_data env)"
| "session_typed J _ \<longleftrightarrow> True"

section \<open>Every handler returns\<close>

lemma ind_parts_return:
  assumes "ind_typed J d"
  shows "returns (ind_status J d)" "returns (adopt_ifname J d h)" "returns (adopt_bearer J d h)"
    "returns (adopt_addr J d st h)" "returns (call_gone J d h)"
proof -
  have f: "string_fields J [''status'', ''ifname'', ''bearer_tech''] d" "addrs_typed J d"
    "member_typed (int_fields J [''type'', ''code'']) J ''end_reason'' d" using assms by (simp_all add: ind_typed_def)
  show "returns (ind_status J d)" "returns (adopt_ifname J d h)" "returns (adopt_bearer J d h)"
    using string_fields_return [OF f(1)]
    by (auto simp: ind_status_def adopt_ifname_def adopt_bearer_def intro!: returns_bind split: option.splits)
  show "returns (adopt_addr J d st h)" using applyAddrInfo_returns [OF f(2)] by (auto simp: adopt_addr_def)
  show "returns (call_gone J d h)" using f(3)
    by (auto simp: call_gone_def Let_def member_typed_def intro!: returns_bind decodeEndReason_returns split: option.splits)
qed

lemma ind_returns:
  assumes "pred_option (ind_typed J) (env_data env)"
  shows "returns (upInd J env h)" "returns (connectedInd J env h)" "returns (downInd J env h)"
proof -
  note parts = ind_parts_return addrInfoDiffers_returns
  have d: "ind_typed J d \<and> addrs_typed J d" if "env_data env = Some d" for d
    using assms that by (simp add: ind_typed_def)
  show "returns (upInd J env h)" "returns (connectedInd J env h)" "returns (downInd J env h)" using d
    by (auto simp: upInd_def connectedInd_def downInd_def intro!: returns_bind parts split: option.splits)
qed

lemma startRsp_returns: "session_typed J (StartRsp_Signal rsp) \<Longrightarrow> returns (startRsp J rsp h)"
  by (cases rsp) (auto simp: startRsp_def Let_def adopt_ifname_def intro!: returns_bind dest!: string_fields_return split: option.splits)

lemma still_up_returns:
  "list_all (\<lambda>c. int_fields J [''profileId''] c \<and> string_fields J [''status''] c) cs \<Longrightarrow> returns (still_up J p cs)"
  by (induction J p cs rule: still_up.induct) (auto intro!: returns_bind intro: int_field_returns dest!: string_fields_return)

lemma listRsp_returns: "session_typed J (ListRsp_Signal rsp) \<Longrightarrow> returns (listRsp J rsp h)"
  by (cases rsp) (auto simp: listRsp_def listed_up_def member_typed_def calls_typed_def intro!: returns_bind still_up_returns
      split: option.splits)

lemma session_returns:
  assumes "session_typed (ss_json X) u"
  shows "returns (session_handlers X s (User u) h)"
  using assms by (cases s; cases u) (simp_all add: ind_returns startRsp_returns listRsp_returns)

section \<open>Types are preserved\<close>

text \<open>Only \<open>enterWaitingForUp\<close> touches the queue, and only it and the deferral touch the deferred events.\<close>

definition same_events :: "'j data_session \<Rightarrow> 'j data_session \<Rightarrow> bool" where
  "same_events g h \<longleftrightarrow> ao_q g = ao_q h \<and> ds_deferred g = ds_deferred h"

lemma with_call_events: "with_call st h g \<Longrightarrow> same_events g h"
  by (erule with_callE) (simp add: same_events_def)

lemma ops_events [simp]:
  "same_events (ds_emit x g) h = same_events g h" "same_events (notifyListeners g) h = same_events g h"
  "same_events (onFinished g) h = same_events g h" "same_events (start_called c er g) h = same_events g h"
  "same_events (stop_called c er g) h = same_events g h" "same_events (enterSendingStartReq X g) h = same_events g h"
  "same_events (enterSendingStopReq X g) h = same_events g h" "same_events (enterReconciling X g) h = same_events g h"
  "same_events (enterWaitingForDown g) h = same_events g h" "same_events (exitWaitingForUp g) h = same_events g h"
  "same_events (session_ex s g) h = same_events g h"
  by (cases s; simp add: same_events_def session_shape)+

lemma recall_events:
  assumes "same_events g h"
  shows "ds_deferred (enterWaitingForUp g) = []"
    "ao_q (enterWaitingForUp g) = (if ao_running g then ao_q h @ ds_deferred h else ao_q h)"
  using assms by (simp_all add: same_events_def enterWaitingForUp_closed Let_def)

text \<open>The number of events the worker can still handle: a stop request is deferred at most once.\<close>

definition work_left :: "dstate \<Rightarrow> 'j data_session \<Rightarrow> nat" where
  "work_left l h = (if l \<in> {Idle, SendingStartReq} then 2 * length (ao_q h) + length (ds_deferred h) else length (ao_q h))"

lemma ses_does_cases:
  assumes "ses_does X c u h l g"
  obtains (same) "same_events g h" "l \<in> {Idle, SendingStartReq} \<longrightarrow> c \<in> {Idle, SendingStartReq}"
  | (kept) "c = SendingStartReq" "l = SendingStartReq" "ao_q g = ao_q h" "ds_deferred g = ds_deferred h @ [u]"
  | (recalled) "c = SendingStartReq" "l = WaitingForUp" "ds_deferred g = []" "ao_q g \<in> {ao_q h, ao_q h @ ds_deferred h}"
proof -
  have refl: "same_events h h" by (simp add: same_events_def)
  show thesis using assms
  proof cases
    case (defers cb)
    then show thesis by (intro kept) simp_all
  next
    case (admits rsp k)
    then have "same_events (start_called (Some (ds_call k)) EC_SUCCESS k) h" by (simp add: with_call_events)
    with admits show thesis by (intro recalled) (simp_all add: recall_events)
  next
    case (stops cb)
    then show thesis by (intro same) (auto simp: same_events_def [of "h\<lparr>ds_stopCb := d\<rparr>" for d])
  next
    case (busy cb)
    with refl show thesis by (intro same) (auto split: option.splits)
  qed (rule same; use refl in \<open>auto dest: with_call_events\<close>)+
qed

lemma ses_does_events:
  assumes "ses_does X c u h l g"
  shows "set (ao_q g) \<union> set (ds_deferred g) \<subseteq> insert u (set (ao_q h) \<union> set (ds_deferred h))"
    and "work_left l g < work_left c (h\<lparr>ao_q := u # ao_q h\<rparr>)"
  using assms by (cases rule: ses_does_cases; auto simp: same_events_def work_left_def)+

lemma session_progress:
  assumes fuel: "kMaxNest < n" and cur: "hstate h = St c" "leaf_state c" and q: "ao_q h = u # us"
    and typed: "\<forall>e \<in> set (ao_q h) \<union> set (ds_deferred h). session_typed (ss_json X) e"
  obtains l h' where "run_step n (session_handlers X) h = Inr (Dispatched, h')" "hstate h' = St l" "leaf_state l"
    "work_left l h' < work_left c h" "\<forall>e \<in> set (ao_q h') \<union> set (ds_deferred h'). session_typed (ss_json X) e"
proof -
  have u: "session_typed (ss_json X) u" using typed q by simp
  have "\<exists>r g. session_handlers X s (User u) k = Inr (r, g)" for s k
    by (rule returns_pair) (rule session_returns [OF u])
  from ses.dispatch_total [OF fuel _ this, of "h\<lparr>ao_q := us\<rparr>" c] cur(1) obtain h' where
    run: "run_step n (session_handlers X) h = Inr (Dispatched, h')" by (auto simp: run_step_def ao_pop_def q)
  show thesis using fuel cur run
  proof (cases rule: session_work)
    case idle
    with q show thesis by simp
  next
    case (took u' us' g l g')
    note g = like_session [OF took(3)] and g' = like_session [OF took(6)]
    have "work_left l h' < work_left c h"
    proof -
      have "work_left c (g\<lparr>ao_q := u' # ao_q g\<rparr>) = work_left c h" "work_left l h' = work_left l g'"
        by (simp_all add: work_left_def g g' took(1) split: if_splits)
      then show ?thesis using ses_does_events(2) [OF took(2)] by simp
    qed
    moreover have "\<forall>e \<in> set (ao_q h') \<union> set (ds_deferred h'). session_typed (ss_json X) e"
      using ses_does_events(1) [OF took(2)] typed by (auto simp: g g' took(1))
    ultimately show thesis using that run took(4,5) by blast
  qed
qed

section \<open>Property\<close>

text \<open>C23: well-typed messages cannot hurt a session: when the members that a session reads of the queued and
  deferred messages are absent or of the expected type, its worker gets through all of them without an
  exception, in at most twice as many events as are queued plus those deferred, and what is still deferred
  at the end is well-typed.\<close>

theorem session_type_safe:
  assumes "kMaxNest < n" "hstate h = St c" "c \<noteq> Active"
    and "\<forall>e \<in> set (ao_q h) \<union> set (ds_deferred h). session_typed (ss_json X) e"
    and "2 * length (ao_q h) + length (ds_deferred h) \<le> k"
  shows "\<exists>h' l. run k n (session_handlers X) h = Inr h' \<and> ao_q h' = [] \<and> hstate h' = St l \<and> l \<noteq> Active \<and>
    (\<forall>e \<in> set (ds_deferred h'). session_typed (ss_json X) e)"
proof -
  have "work_left c h \<le> k" using assms(5) by (simp add: work_left_def)
  then show ?thesis using assms(2-4)
  proof (induction k arbitrary: c h)
    case 0
    then show ?case by (simp add: work_left_def split: if_splits)
  next
    case (Suc k)
    have c: "leaf_state c" using Suc.prems(3) by (simp add: leaf_state_def)
    show ?case
    proof (cases "ao_q h")
      case Nil
      with Suc.prems show ?thesis by (simp add: run_step_def ao_pop_def)
    next
      case (Cons u us)
      from session_progress [OF assms(1) Suc.prems(2) c Cons Suc.prems(4)] obtain l h' where
        st: "run_step n (session_handlers X) h = Inr (Dispatched, h')" "hstate h' = St l" "leaf_state l"
          "work_left l h' < work_left c h" "\<forall>e \<in> set (ao_q h') \<union> set (ds_deferred h'). session_typed (ss_json X) e" .
      with Suc.prems(1) Suc.IH [of l h'] show ?thesis by (simp add: leaf_state_def)
    qed
  qed
qed

lemma demo_ses2_typed:
  "hstate demo_ses2 = St SendingStartReq" "ao_q demo_ses2 = [StartRsp_Signal demo_ses_rsp]"
  "ds_deferred demo_ses2 = [Ses_Stop_Signal (Some 2)]"
  "\<forall>e \<in> set (ao_q demo_ses2) \<union> set (ds_deferred demo_ses2). session_typed (ss_json demo_ses_ext) e"
proof -
  show st: "hstate demo_ses2 = St SendingStartReq" "ao_q demo_ses2 = [StartRsp_Signal demo_ses_rsp]"
    "ds_deferred demo_ses2 = [Ses_Stop_Signal (Some 2)]"
    by code_simp+
  show "\<forall>e \<in> set (ao_q demo_ses2) \<union> set (ds_deferred demo_ses2). session_typed (ss_json demo_ses_ext) e"
    by (simp add: st demo_ses_ext_def demo_ses_rsp_def makeResponseEnvelope_def string_fields_def tree_lib_def)
qed

theorem session_type_safe_witness:
  "\<exists>h' l. run 3 9 (session_handlers demo_ses_ext) demo_ses2 = Inr h' \<and> ao_q h' = [] \<and> hstate h' = St l \<and> l \<noteq> Active \<and>
    (\<forall>e \<in> set (ds_deferred h'). session_typed (ss_json demo_ses_ext) e)"
  by (rule session_type_safe [OF fuel_nine demo_ses2_typed(1) _ demo_ses2_typed(4)]) (simp_all add: demo_ses2_typed)

end
