(* ===== verification/Operating_Shell.thy ===== *)
theory Operating_Shell
  imports Manager_Io
begin

text \<open>
  The chart that the data connection manager and the network managers share: \<open>NotReady\<close> and \<open>Ready\<close>
  below a composite \<open>Operating\<close> that takes the events whose handling does not depend on readiness;
  and the members and operations these managers have in common.
\<close>

section \<open>The chart\<close>

datatype ostate = Operating | Leaf rstate

lemma ostate_cases [case_names operating not_ready ready]:
  "(c = Operating \<Longrightarrow> P) \<Longrightarrow> (c = Leaf NotReady \<Longrightarrow> P) \<Longrightarrow> (c = Leaf Ready \<Longrightarrow> P) \<Longrightarrow> P"
  by (cases c; simp) (metis rstate.exhaust)

fun op_par :: "ostate \<Rightarrow> ostate sref" where
  "op_par Operating = Top_St"
| "op_par (Leaf s) = St Operating"

text \<open>The border action of the leaves; the composite has none.\<close>

fun on_leaf :: "(rstate \<Rightarrow> 'h \<Rightarrow> 'h) \<Rightarrow> ostate \<Rightarrow> 'h \<Rightarrow> 'h" where
  "on_leaf f Operating h = h"
| "on_leaf f (Leaf s) h = f s h"

lemma lin_op: "lin op_par (St s) = (case s of Operating \<Rightarrow> [Operating] | Leaf _ \<Rightarrow> [s, Operating])"
  by (cases s) (simp_all add: lin_def kMaxNest_def numeral_eq_Suc)

lemma settle_op: "settle op_par (\<lambda>_. None) kMaxNest t = (t, [])"
  by (simp add: kMaxNest_def numeral_eq_Suc)

locale operating_shell =
  fixes H :: "(ostate, 'u, 'z) ao_handlers"
    and en ex :: "rstate \<Rightarrow> (ostate, 'u, 'z) active_object_scheme \<Rightarrow> (ostate, 'u, 'z) active_object_scheme"
    and up down :: "'u \<Rightarrow> bool"
  assumes pass: "H c None_Signal h = Inr (super_st (op_par c) h)" "H c Init_Signal h = Inr (super_st (op_par c) h)"
    and composite: "H Operating Entry_Signal h = Inr (HANDLED, h)" "H Operating Exit_Signal h = Inr (HANDLED, h)"
    and enter: "H (Leaf s) Entry_Signal h = Inr (HANDLED, en s h)" "en s (h\<lparr>htemp := x\<rparr>) = (en s h)\<lparr>htemp := x\<rparr>"
      "posts_only h (en s h)"
    and leave: "H (Leaf s) Exit_Signal h = Inr (HANDLED, ex s h)" "ex s (h\<lparr>htemp := x\<rparr>) = (ex s h)\<lparr>htemp := x\<rparr>"
      "posts_only h (ex s h)"
    and agnostic: "H Operating (User u) h = Inr (r, h') \<Longrightarrow> posts_only h h' \<and> (r = TO_SUPER \<longrightarrow> htemp h' = Top_St) \<and>
      r \<noteq> NEED_TO_TRANSFER"
    and user: "H (Leaf s) (User u) h = Inr (r, h') \<Longrightarrow> posts_only h h' \<and> (r = TO_SUPER \<longrightarrow> htemp h' = St Operating) \<and>
      (if track up down u s = s then r \<noteq> NEED_TO_TRANSFER else r = NEED_TO_TRANSFER \<and> htemp h' = St (Leaf (track up down u s)))"

sublocale operating_shell \<subseteq> ao_chart H op_par "\<lambda>_. None" "on_leaf en" "on_leaf ex" "\<lambda>_. False"
proof unfold_locales
  fix s h h' u r x
  show "H s None_Signal h = Inr (TO_SUPER, h\<lparr>htemp := op_par s\<rparr>)" by (simp add: pass super_st_def)
  show "reaches_top op_par kMaxNest (St s)" by (cases s) (simp_all add: kMaxNest_def numeral_eq_Suc)
  show "\<exists>r t. H s Entry_Signal h = Inr (r, (on_leaf en s h)\<lparr>htemp := t\<rparr>)"
    by (cases s) (simp_all add: enter composite)
  show "\<exists>r t. H s Exit_Signal h = Inr (r, (on_leaf ex s h)\<lparr>htemp := t\<rparr>) \<and> (r = HANDLED \<or> t = op_par s)"
    by (cases s) (simp_all add: leave composite)
  show "\<exists>r t. H s Init_Signal h = Inr (r, h\<lparr>htemp := t\<rparr>) \<and> r \<noteq> NEED_TO_TRANSFER"
    by (auto simp: pass super_st_def)
  show "on_leaf en s (h\<lparr>htemp := x\<rparr>) = (on_leaf en s h)\<lparr>htemp := x\<rparr>"
    "on_leaf ex s (h\<lparr>htemp := x\<rparr>) = (on_leaf ex s h)\<lparr>htemp := x\<rparr>" by (cases s; simp add: enter leave)+
  show "H s (User u) h = Inr (TO_SUPER, h') \<Longrightarrow> htemp h' = op_par s" using user agnostic by (cases s) fastforce+
  show "H s (User u) h = Inr (NEED_TO_TRANSFER, h') \<Longrightarrow> \<exists>t. htemp h' = St t"
    using user agnostic by (cases s) (fastforce split: if_splits)+
  show "H s (User u) h = Inr (r, h') \<Longrightarrow> posts_only h h'" using user agnostic by (cases s) blast+
  show "posts_only h (on_leaf en s h)" "posts_only h (on_leaf ex s h)" by (cases s; simp add: enter leave)+
qed simp_all

context operating_shell
begin

text \<open>
  The outcome of a dispatch by the handlers it calls: that of the leaf; if this one does not take the
  event, that of \<open>Operating\<close>; and the border actions when readiness changes. \<open>P\<close> is what holds before,
  \<open>R\<close> between the two handlers, \<open>Q\<close> in the end.
\<close>

lemma dispatch_outcome:
  assumes fuel: "kMaxNest < n" and cur: "hstate h = St (Leaf s)" and dis: "dispatch n H (User u) h = Inr h'"
    and P: "P h" "\<And>h. P (erase h) = P h" and R: "\<And>h. R (erase h) = R h" and Q: "\<And>h. Q (erase h) = Q h"
    and leaf: "\<And>g r h1. P g \<Longrightarrow> H (Leaf s) (User u) g = Inr (r, h1) \<Longrightarrow>
      if track up down u s \<noteq> s then Q (en (track up down u s) (ex s h1))
      else if r = TO_SUPER \<or> r = UNHANDLED then R h1 else Q h1"
    and comp: "\<And>g r h2. R g \<Longrightarrow> H Operating (User u) g = Inr (r, h2) \<Longrightarrow> Q h2"
  shows "Q h' \<and> hstate h' = St (Leaf (track up down u s))"
proof -
  let ?t = "track up down u s"
  let ?h0 = "probe (User u) (St (Leaf s)) HandlerVisit (h\<lparr>last_ignored := False, htemp := St (Leaf s)\<rparr>)"
  note uml = dispatch_refines [OF fuel cur] uml_dispatch_def lin_op
  have same: "P h0 = P h1" "R h0 = R h1" "Q h0 = Q h1" if "erase h0 = erase h1" for h0 h1
    using P(2) R Q that by metis+
  from dis obtain r h1 where H: "H (Leaf s) (User u) ?h0 = Inr (r, h1)" by (auto simp: uml bindE_eq_Inr)
  have P0: "P ?h0" using P(1) same(1) [of ?h0 h] by simp
  note out = leaf [OF P0 H] and mv = user [OF H]
  show ?thesis
  proof (cases "?t = s")
    case False
    with mv have r: "r = NEED_TO_TRANSFER" "htemp h1 = St (Leaf ?t)" by simp_all
    have brd: "exits op_par (Leaf s) (Leaf s) (Leaf ?t) = [Leaf s]" "entries op_par (Leaf s) (Leaf ?t) = [Leaf ?t]"
      using False by (auto simp: exits_def entries_def lin_op)
    have "h' = trace (User u) (St (Leaf s)) (St (Leaf ?t)) ((en ?t (ex s h1))\<lparr>hstate := St (Leaf ?t), htemp := St (Leaf ?t)\<rparr>)"
      using dis H r brd settle_op by (simp add: uml)
    with False out same(3) [of h' "en ?t (ex s h1)"] show ?thesis by simp
  next
    case True
    with mv have r: "r \<noteq> NEED_TO_TRANSFER" by simp
    show ?thesis
    proof (cases "r = TO_SUPER \<or> r = UNHANDLED")
      case False
      with dis H r have "h' = settle_unchanged (User u) (St (Leaf s)) r (St (Leaf s)) h1" by (cases r) (auto simp: uml)
      with out True False same(3) [of h' h1] show ?thesis by simp
    next
      case over: True
      let ?h1 = "probe (User u) (St Operating) HandlerVisit (h1\<lparr>htemp := St Operating\<rparr>)"
      from dis H over obtain r2 h2 where H2: "H Operating (User u) ?h1 = Inr (r2, h2)"
        by (auto simp: uml bindE_eq_Inr)
      have "R ?h1" using out True over same(2) [of ?h1 h1] by simp
      then have Q2: "Q h2" using comp H2 by blast
      obtain src r' h3 where "h' = settle_unchanged (User u) src r' (St (Leaf s)) h3" "erase h3 = erase h2"
        using dis H over H2 agnostic [OF H2] by (cases r2) (auto simp: uml bindE_eq_Inr)
      with Q2 same(3) [of h' h2] True show ?thesis by simp
    qed
  qed
qed

lemma dispatch_returns:
  assumes fuel: "kMaxNest < n" and cur: "hstate h = St (Leaf s)" and P: "P h" "\<And>h. P (erase h) = P h"
    and R: "\<And>h. R (erase h) = R h"
    and leaf: "\<And>g. P g \<Longrightarrow> \<exists>r h1. H (Leaf s) (User u) g = Inr (r, h1) \<and> (r = TO_SUPER \<or> r = UNHANDLED \<longrightarrow> R h1)"
    and comp: "\<And>g. R g \<Longrightarrow> \<exists>r h2. H Operating (User u) g = Inr (r, h2)"
  shows "\<exists>h'. dispatch n H (User u) h = Inr h'"
proof -
  let ?h0 = "probe (User u) (St (Leaf s)) HandlerVisit (h\<lparr>last_ignored := False, htemp := St (Leaf s)\<rparr>)"
  have "P ?h0" using P(1) P(2) [of ?h0] P(2) [of h] by simp
  from leaf [OF this] obtain r h1 where H: "H (Leaf s) (User u) ?h0 = Inr (r, h1)" "r = TO_SUPER \<or> r = UNHANDLED \<longrightarrow> R h1" by blast
  have "\<exists>r' src h2. resolve H (User u) (lin op_par (St (Leaf s))) (h\<lparr>last_ignored := False\<rparr>) = Inr (r', src, h2)"
  proof (cases "r = TO_SUPER \<or> r = UNHANDLED")
    case True
    let ?h1 = "probe (User u) (St Operating) HandlerVisit (h1\<lparr>htemp := St Operating\<rparr>)"
    have "R ?h1" using True H(2) R [of ?h1] R [of h1] by simp
    from comp [OF this] obtain r2 h2 where "H Operating (User u) ?h1 = Inr (r2, h2)" by blast
    with H(1) True show ?thesis by (auto simp: lin_op)
  qed (use H in \<open>simp add: lin_op\<close>)
  then show ?thesis by (auto simp: dispatch_refines [OF fuel cur] uml_dispatch_def split: status.splits sref.splits prod.splits)
qed

lemma op_dispatch_all_total:
  "kMaxNest < n \<Longrightarrow> hstate h = St (Leaf s) \<Longrightarrow> (\<And>u s h. u \<in> set us \<Longrightarrow> \<exists>r h'. H s (User u) h = Inr (r, h')) \<Longrightarrow>
   \<exists>h'. dispatch_all n H us h = Inr h'"
proof (induction us arbitrary: h s)
  case (Cons u us)
  have cur: "hstate (h\<lparr>ao_q := us\<rparr>) = St (Leaf s)" using Cons.prems(2) by simp
  with Cons.prems(1,3) obtain h1 where d: "dispatch n H (User u) (h\<lparr>ao_q := us\<rparr>) = Inr h1"
    using dispatch_total [of n "h\<lparr>ao_q := us\<rparr>" "Leaf s" u] by auto
  from dispatch_outcome [where P = "\<lambda>_. True" and Q = "\<lambda>_. True" and R = "\<lambda>_. True", OF Cons.prems(1) cur d]
  have "hstate h1 = St (Leaf (track up down u s))" by simp
  from Cons.IH [OF Cons.prems(1) this] Cons.prems(3) d show ?case by auto
qed simp

text \<open>
  An observation that depends neither on the fields of \<open>Hsm\<close> nor on the queue is computed from the
  events alone when the handlers change it by a function \<open>step\<close> of the event and the state.
\<close>

lemma op_dispatch_view:
  assumes "kMaxNest < n"
    and er: "\<And>h. view (erase h) = view h" and qu: "\<And>h q. view (h\<lparr>ao_q := q\<rparr>) = view h"
    and leaf: "\<And>s u h r h1. H (Leaf s) (User u) h = Inr (r, h1) \<Longrightarrow>
      if track up down u s \<noteq> s then view (en (track up down u s) (ex s h1)) = step u s (view h)
      else if r = TO_SUPER \<or> r = UNHANDLED then view h1 = view h \<and> step u s (view h) = keep u (view h)
      else view h1 = step u s (view h)"
    and comp: "\<And>u h r h2. H Operating (User u) h = Inr (r, h2) \<Longrightarrow> view h2 = keep u (view h)"
  shows "hstate h = St (Leaf s) \<Longrightarrow> dispatch_all n H us h = Inr h' \<Longrightarrow>
    hstate h' = St (Leaf (fold (track up down) us s)) \<and>
    view h' = snd (fold (\<lambda>u (s, v). (track up down u s, step u s v)) us (s, view h))"
proof (induction us arbitrary: h s)
  case (Cons u us)
  from Cons.prems(2) obtain h1 where d: "dispatch n H (User u) (h\<lparr>ao_q := us\<rparr>) = Inr h1"
    and rest: "dispatch_all n H us h1 = Inr h'" by (auto simp: bindE_eq_Inr)
  have cur: "hstate (h\<lparr>ao_q := us\<rparr>) = St (Leaf s)" using Cons.prems(1) by simp
  have g: "view h1 = step u s (view h) \<and> hstate h1 = St (Leaf (track up down u s))"
  proof (rule dispatch_outcome [where P = "\<lambda>g. view g = view h" and Q = "\<lambda>g. view g = step u s (view h)"
      and R = "\<lambda>g. view g = view h \<and> step u s (view h) = keep u (view h)", OF assms(1) cur d])
    show "view (h\<lparr>ao_q := us\<rparr>) = view h" by (rule qu)
    fix g r k
    show "view g = view h \<Longrightarrow> H (Leaf s) (User u) g = Inr (r, k) \<Longrightarrow>
      if track up down u s \<noteq> s then view (en (track up down u s) (ex s k)) = step u s (view h)
      else if r = TO_SUPER \<or> r = UNHANDLED then view k = view h \<and> step u s (view h) = keep u (view h)
      else view k = step u s (view h)" using leaf [of s u g r k] by (auto split: if_splits)
    show "view g = view h \<and> step u s (view h) = keep u (view h) \<Longrightarrow> H Operating (User u) g = Inr (r, k) \<Longrightarrow>
      view k = step u s (view h)" using comp [of u g r k] by simp
  qed (simp_all add: er)
  with Cons.IH [OF _ rest] show ?case by simp
qed simp

text \<open>Starting a manager: \<open>start_at\<close> enters \<open>Operating\<close> and \<open>NotReady\<close> and launches the worker.\<close>

lemma op_start:
  assumes "kMaxNest < n" "\<not> ao_running h"
  shows "\<exists>h'. start_at n H (St (Leaf s)) h = Inr h' \<and> hstate h' = St (Leaf s) \<and> ao_running h' \<and>
    erase h' = erase ((en s (if ao_inst h then h\<lparr>trace_fn := True, probe_fn := True, hstate := Top_St\<rparr>
      else h\<lparr>hstate := Top_St\<rparr>))\<lparr>ao_running := True\<rparr>)"
  using init_refines [OF assms(1) _ settle_op] assms(2)
  by (auto simp: start_at_def Let_def erase_def trace_def lin_op)

end

section \<open>Members and operations the managers share\<close>

text \<open>
  The effects of a manager: \<open>'n\<close> are the calls its listeners get, \<open>'k\<close> the callbacks of its requests,
  \<open>'a\<close> the answers its clients get.
\<close>

datatype ('j, 'n, 'k, 'a) om_effect =
    Om_Notes "nat list" 'n
  | Om_Request string string "'j envelope" 'k int
  | Om_Answered 'a
  | Om_Subscribed string string
  | Om_Unsubscribed string
  | Om_Connectivity_Subscribed nat
  | Om_Connectivity_Unsubscribed nat
  | Om_Bridge_Drained

text \<open>
  \<open>om_live\<close> are the listeners that can be locked; the calls of init callbacks are recorded in the gate.
\<close>

record ('u, 'x) op_manager = "(ostate, 'u) active_object" +
  om_status :: service_status
  om_gate :: "nat init_gate"
  om_conn_token :: nat
  om_live :: "nat list"
  om_io :: "'x io"

definition om_do :: "('x io \<Rightarrow> 'x io) \<Rightarrow> ('u, 'x, 'z) op_manager_scheme \<Rightarrow> ('u, 'x, 'z) op_manager_scheme" where
  "om_do f h = h\<lparr>om_io := f (om_io h)\<rparr>"

definition om_emit :: "'x \<Rightarrow> ('u, 'x, 'z) op_manager_scheme \<Rightarrow> ('u, 'x, 'z) op_manager_scheme" where
  "om_emit x = om_do (io_emit x)"

definition kNetRpcTimeout :: int where
  "kNetRpcTimeout = 30000"

definition om_request :: "string \<Rightarrow> string \<Rightarrow> string \<Rightarrow> 'j \<Rightarrow> 'k \<Rightarrow> ('u, ('j, 'n, 'k, 'a) om_effect, 'z) op_manager_scheme
    \<Rightarrow> ('u, ('j, 'n, 'k, 'a) om_effect, 'z) op_manager_scheme" where
  "om_request pa topic schema dat k =
     om_do (\<lambda>s. case io_request pa dat s of (req, s) \<Rightarrow> io_emit (Om_Request topic schema req k kNetRpcTimeout) s)"

text \<open>A call of a client's callback, which may be null.\<close>

definition om_answer :: "(nat \<Rightarrow> 'a) \<Rightarrow> nat option \<Rightarrow> ('u, ('j, 'n, 'k, 'a) om_effect, 'z) op_manager_scheme
    \<Rightarrow> ('u, ('j, 'n, 'k, 'a) om_effect, 'z) op_manager_scheme" where
  "om_answer f cb h = (case cb of None \<Rightarrow> h | Some c \<Rightarrow> om_emit (Om_Answered (f c)) h)"

text \<open>\<open>enqueue\<close> of a dispatch task, unless it has no listeners.\<close>

definition om_notify :: "nat list \<Rightarrow> 'n \<Rightarrow> ('u, ('j, 'n, 'k, 'a) om_effect, 'z) op_manager_scheme
    \<Rightarrow> ('u, ('j, 'n, 'k, 'a) om_effect, 'z) op_manager_scheme" where
  "om_notify ls nt h = (if ls = [] then h else om_emit (Om_Notes ls nt) h)"

definition om_publishStatus :: "service_status \<Rightarrow> ('u, 'x, 'z) op_manager_scheme \<Rightarrow> ('u, 'x, 'z) op_manager_scheme" where
  "om_publishStatus st h = h\<lparr>om_status := st\<rparr>"

definition om_getServiceStatus :: "('u, 'x, 'z) op_manager_scheme \<Rightarrow> service_status" where
  "om_getServiceStatus h = om_status h"

definition om_isReadyDerived :: "('u, 'x, 'z) op_manager_scheme \<Rightarrow> bool" where
  "om_isReadyDerived h \<longleftrightarrow> hstate h = St (Leaf Ready)"

definition om_addInitCallback :: "nat option \<Rightarrow> ('u, 'x, 'z) op_manager_scheme \<Rightarrow> ('u, 'x, 'z) op_manager_scheme" where
  "om_addInitCallback cb h = h\<lparr>om_gate := gate_add cb (om_gate h)\<rparr>"

text \<open>Entry and exit of the ready state; \<open>tell\<close> broadcasts a service status.\<close>

definition om_enterReady :: "(service_status \<Rightarrow> ('u, 'x, 'z) op_manager_scheme \<Rightarrow> ('u, 'x, 'z) op_manager_scheme)
    \<Rightarrow> ('u, 'x, 'z) op_manager_scheme \<Rightarrow> ('u, 'x, 'z) op_manager_scheme" where
  "om_enterReady tell h =
     (let h = om_publishStatus SERVICE_AVAILABLE h in
      case markReadyAndFire SERVICE_AVAILABLE (om_gate h) of
        (fired, g) \<Rightarrow> let h = h\<lparr>om_gate := g\<rparr> in if fired then h else tell SERVICE_AVAILABLE h)"

definition om_readiness :: "'j json_lib \<Rightarrow> 'j envelope \<Rightarrow> ('u, 'x, 'z) op_manager_scheme
    \<Rightarrow> (status \<times> ('u, 'x, 'z) op_manager_scheme) result" where
  "om_readiness J env h =
     (case env_data env of
        None \<Rightarrow> Inr (HANDLED, h)
      | Some d \<Rightarrow> bindE (value_string J d ''status'') (\<lambda>s.
          Inr (if s = ''UNAVAILABLE'' then to_st (St (Leaf NotReady)) (om_publishStatus SERVICE_UNAVAILABLE h)
               else if s = ''FAILED'' then to_st (St (Leaf NotReady)) (om_publishStatus SERVICE_FAILED h)
               else (HANDLED, h))))"

definition om_connectivity :: "bool \<Rightarrow> ('u, 'x, 'z) op_manager_scheme \<Rightarrow> status \<times> ('u, 'x, 'z) op_manager_scheme" where
  "om_connectivity b h =
     (if \<not> b then to_st (St (Leaf NotReady)) (om_publishStatus SERVICE_UNAVAILABLE h) else (HANDLED, h))"

text \<open>A readiness indication while not ready.\<close>

definition om_available :: "'j json_lib \<Rightarrow> 'j envelope \<Rightarrow> ('u, 'x, 'z) op_manager_scheme
    \<Rightarrow> (status \<times> ('u, 'x, 'z) op_manager_scheme) result" where
  "om_available J env h =
     bindE (readiness_status J ''AVAILABLE'' env) (\<lambda>up. Inr (if up then to_st (St (Leaf Ready)) h else (HANDLED, h)))"

text \<open>An operation of a client is posted when the manager is ready.\<close>

definition om_post :: "'u \<Rightarrow> ('u, 'x, 'z) op_manager_scheme \<Rightarrow> api_status \<times> ('u, 'x, 'z) op_manager_scheme" where
  "om_post e h = (if \<not> om_isReadyDerived h then (NOTREADY, h) else (SUCCESS, post_fifo e h))"

text \<open>Subscriptions in the order of \<open>start\<close>, and the withdrawal with its fence.\<close>

definition om_subscribe :: "(string \<times> string) list \<Rightarrow> nat \<Rightarrow> ('u, ('j, 'n, 'k, 'a) om_effect, 'z) op_manager_scheme
    \<Rightarrow> ('u, ('j, 'n, 'k, 'a) om_effect, 'z) op_manager_scheme" where
  "om_subscribe ts tok h =
     (om_emit (Om_Connectivity_Subscribed tok) (fold (\<lambda>(t, sc). om_emit (Om_Subscribed t sc)) ts h))\<lparr>om_conn_token := tok\<rparr>"

definition om_unsubscribe :: "string list \<Rightarrow> ('u, ('j, 'n, 'k, 'a) om_effect, 'z) op_manager_scheme
    \<Rightarrow> ('u, ('j, 'n, 'k, 'a) om_effect, 'z) op_manager_scheme" where
  "om_unsubscribe ts h =
     (let h = fold (\<lambda>t. om_emit (Om_Unsubscribed t)) ts h;
          h = om_emit (Om_Connectivity_Unsubscribed (om_conn_token h)) h
      in om_emit Om_Bridge_Drained (h\<lparr>om_conn_token := 0\<rparr>))"

section \<open>What the operations leave alone\<close>

lemma posts_only_op_upd [simp]:
  "posts_only g (h\<lparr>om_io := a\<rparr>) = posts_only g h" "posts_only g (h\<lparr>om_status := b\<rparr>) = posts_only g h"
  "posts_only g (h\<lparr>om_gate := c\<rparr>) = posts_only g h"
  by (simp_all add: posts_only_def)

lemma om_do_posts [simp]:
  "posts_only g (om_do f h) = posts_only g h" "posts_only g (om_emit x h) = posts_only g h"
  "posts_only g (om_request pa t sc d k h') = posts_only g h'" "posts_only g (om_answer fn cb h') = posts_only g h'"
  "posts_only g (om_notify ls nt h') = posts_only g h'" "posts_only g (om_publishStatus st h) = posts_only g h"
  by (simp_all add: om_do_def om_emit_def om_request_def om_answer_def om_notify_def om_publishStatus_def split: option.splits)

lemma om_temp [simp]:
  "om_do f (h\<lparr>htemp := x\<rparr>) = (om_do f h)\<lparr>htemp := x\<rparr>" "om_emit y (h\<lparr>htemp := x\<rparr>) = (om_emit y h)\<lparr>htemp := x\<rparr>"
  "om_notify ls nt (h'\<lparr>htemp := x\<rparr>) = (om_notify ls nt h')\<lparr>htemp := x\<rparr>"
  "om_publishStatus st (h\<lparr>htemp := x\<rparr>) = (om_publishStatus st h)\<lparr>htemp := x\<rparr>"
  by (simp_all add: om_do_def om_emit_def om_notify_def om_publishStatus_def)

lemma om_sel [simp]:
  "hstate (om_do f h) = hstate h" "ao_q (om_do f h) = ao_q h" "ao_running (om_do f h) = ao_running h"
  "om_io (om_do f h) = f (om_io h)" "om_status (om_do f h) = om_status h" "om_gate (om_do f h) = om_gate h"
  "om_live (om_do f h) = om_live h" "op_manager.more (om_do f h) = op_manager.more h" "htemp (om_do f h) = htemp h"
  by (simp_all add: om_do_def)

section \<open>Service status and init callbacks\<close>

text \<open>What a manager reports of itself: its status and the state of the gate.\<close>

type_synonym op_view = "service_status \<times> nat init_gate"

definition op_view :: "('u, 'x, 'z) op_manager_scheme \<Rightarrow> op_view" where
  "op_view h = (om_status h, om_gate h)"

lemma op_view_quiet [simp]:
  "op_view (h\<lparr>htemp := x\<rparr>) = op_view h" "op_view (erase h) = op_view h" "op_view (h\<lparr>ao_q := q\<rparr>) = op_view h"
  "op_view (om_do f h) = op_view h" "op_view (om_emit y h) = op_view h" "op_view (post_fifo e h) = op_view h"
  "op_view (om_request pa t sc d k h') = op_view h'" "op_view (om_answer fn cb h') = op_view h'"
  "op_view (om_notify ls nt h') = op_view h'"
  by (simp_all add: op_view_def erase_def om_emit_def om_request_def om_answer_def om_notify_def post_fifo_def split: option.splits)

text \<open>How an event that moves a manager from \<open>s\<close> to \<open>t\<close> changes this; \<open>w\<close> is the status it leaves.\<close>

fun op_move :: "service_status option \<Rightarrow> rstate \<Rightarrow> rstate \<Rightarrow> op_view \<Rightarrow> op_view" where
  "op_move w NotReady Ready (st, g) = (SERVICE_AVAILABLE, snd (markReadyAndFire SERVICE_AVAILABLE g))"
| "op_move w Ready NotReady (st, g) = (case w of None \<Rightarrow> st | Some x \<Rightarrow> x, g)"
| "op_move w _ _ v = v"

fun op_en :: "(service_status \<Rightarrow> ('u, 'x, 'z) op_manager_scheme \<Rightarrow> ('u, 'x, 'z) op_manager_scheme) \<Rightarrow> rstate
    \<Rightarrow> ('u, 'x, 'z) op_manager_scheme \<Rightarrow> ('u, 'x, 'z) op_manager_scheme" where
  "op_en tell NotReady h = h"
| "op_en tell Ready h = om_enterReady tell h"

fun op_ex :: "(service_status \<Rightarrow> ('u, 'x, 'z) op_manager_scheme \<Rightarrow> ('u, 'x, 'z) op_manager_scheme) \<Rightarrow> rstate
    \<Rightarrow> ('u, 'x, 'z) op_manager_scheme \<Rightarrow> ('u, 'x, 'z) op_manager_scheme" where
  "op_ex tell NotReady h = h"
| "op_ex tell Ready h = tell SERVICE_UNAVAILABLE h"

text \<open>The status that a readiness indication leaves when it withdraws readiness.\<close>

definition env_withdrawn :: "'j json_lib \<Rightarrow> 'j envelope \<Rightarrow> service_status option" where
  "env_withdrawn J env =
     (if readiness_status J ''UNAVAILABLE'' env = Inr True then Some SERVICE_UNAVAILABLE
      else if readiness_status J ''FAILED'' env = Inr True then Some SERVICE_FAILED else None)"

definition link_withdrawn :: "bool \<Rightarrow> service_status option" where
  "link_withdrawn b = (if b then None else Some SERVICE_UNAVAILABLE)"

text \<open>What a handler of a leaf may do: stay and change nothing that is reported, raise readiness, withdraw it.\<close>

definition op_moves :: "bool \<Rightarrow> service_status option \<Rightarrow> rstate \<Rightarrow> ('u, 'x, 'z) op_manager_scheme
    \<Rightarrow> status \<Rightarrow> ('u, 'x, 'z) op_manager_scheme \<Rightarrow> bool" where
  "op_moves up w s h r h' \<longleftrightarrow>
     (if s = NotReady \<and> up then r = NEED_TO_TRANSFER \<and> h' = h\<lparr>htemp := St (Leaf Ready)\<rparr>
      else if s = Ready \<and> w \<noteq> None then r = NEED_TO_TRANSFER \<and> h' = h\<lparr>om_status := the w, htemp := St (Leaf NotReady)\<rparr>
      else r \<noteq> NEED_TO_TRANSFER \<and> posts_only h h' \<and> op_view h' = op_view h \<and> (r = TO_SUPER \<longrightarrow> htemp h' = St Operating))"

lemma op_moves_available:
  "om_available J env h = Inr (r, h') \<Longrightarrow> op_moves (readiness_status J ''AVAILABLE'' env = Inr True) w NotReady h r h'"
  by (auto simp: om_available_def op_moves_def bindE_eq_Inr to_st_def split: if_splits)

lemma op_moves_readiness: "om_readiness J env h = Inr (r, h') \<Longrightarrow> op_moves up (env_withdrawn J env) Ready h r h'"
  by (auto simp: om_readiness_def op_moves_def env_withdrawn_def readiness_status_def bindE_eq_Inr to_st_def
      om_publishStatus_def split: option.splits if_splits)

lemma op_moves_connectivity: "om_connectivity b h = (r, h') \<Longrightarrow> op_moves up (link_withdrawn b) Ready h r h'"
  by (auto simp: om_connectivity_def op_moves_def link_withdrawn_def to_st_def om_publishStatus_def split: if_splits)

lemma op_moves_quiet [simp]:
  "op_moves False None s h HANDLED h" "op_moves False None s h UNHANDLED h"
  "op_moves False None s h TO_SUPER (h\<lparr>htemp := St Operating\<rparr>)"
  "op_moves False None s h HANDLED h' \<longleftrightarrow> posts_only h h' \<and> op_view h' = op_view h"
  by (auto simp: op_moves_def)

lemma om_enterReady_sel:
  assumes "\<And>st h. op_view (tell st h) = op_view h"
  shows "op_view (om_enterReady tell h) = (SERVICE_AVAILABLE, snd (markReadyAndFire SERVICE_AVAILABLE (om_gate h)))"
  using assms by (simp add: om_enterReady_def om_publishStatus_def Let_def case_prod_unfold) (simp add: op_view_def)

text \<open>
  The contract of these charts. \<open>tell\<close> broadcasts a service status, \<open>up\<close> says which events raise
  readiness, \<open>withdrawn\<close> which status an event leaves that withdraws it.
\<close>

locale op_chart =
  fixes H :: "ostate \<Rightarrow> 'u event \<Rightarrow> ('u, 'x, 'z) op_manager_scheme \<Rightarrow> (status \<times> ('u, 'x, 'z) op_manager_scheme) result"
    and tell :: "service_status \<Rightarrow> ('u, 'x, 'z) op_manager_scheme \<Rightarrow> ('u, 'x, 'z) op_manager_scheme"
    and up :: "'u \<Rightarrow> bool" and withdrawn :: "'u \<Rightarrow> service_status option"
  assumes pass_on: "H c None_Signal h = Inr (super_st (op_par c) h)" "H c Init_Signal h = Inr (super_st (op_par c) h)"
    and borders: "H Operating Entry_Signal h = Inr (HANDLED, h)" "H Operating Exit_Signal h = Inr (HANDLED, h)"
      "H (Leaf s) Entry_Signal h = Inr (HANDLED, op_en tell s h)" "H (Leaf s) Exit_Signal h = Inr (HANDLED, op_ex tell s h)"
    and tell_quiet: "tell st (h\<lparr>htemp := x\<rparr>) = (tell st h)\<lparr>htemp := x\<rparr>" "posts_only g (tell st h) = posts_only g h"
      "op_view (tell st h) = op_view h"
    and above: "H Operating (User u) h = Inr (r, h') \<Longrightarrow> posts_only h h' \<and> (r = TO_SUPER \<longrightarrow> htemp h' = Top_St) \<and>
      r \<noteq> NEED_TO_TRANSFER \<and> op_view h' = op_view h"
    and moves: "H (Leaf s) (User u) h = Inr (r, h') \<Longrightarrow> op_moves (up u) (withdrawn u) s h r h'"

sublocale op_chart \<subseteq> operating_shell H "op_en tell" "op_ex tell" up "\<lambda>u. withdrawn u \<noteq> None"
proof unfold_locales
  fix s c h h' u r x
  show "H c None_Signal h = Inr (super_st (op_par c) h)" "H c Init_Signal h = Inr (super_st (op_par c) h)"
    "H Operating Entry_Signal h = Inr (HANDLED, h)" "H Operating Exit_Signal h = Inr (HANDLED, h)"
    "H (Leaf s) Entry_Signal h = Inr (HANDLED, op_en tell s h)" "H (Leaf s) Exit_Signal h = Inr (HANDLED, op_ex tell s h)"
    by (rule pass_on borders)+
  have swap: "tell st (h\<lparr>htemp := x, om_status := a, om_gate := g\<rparr>) = (tell st (h\<lparr>om_status := a, om_gate := g\<rparr>))\<lparr>htemp := x\<rparr>"
    for st a g
  proof -
    have "h\<lparr>htemp := x, om_status := a, om_gate := g\<rparr> = h\<lparr>om_status := a, om_gate := g, htemp := x\<rparr>" by simp
    then show ?thesis using tell_quiet(1) [of st x "h\<lparr>om_status := a, om_gate := g\<rparr>"] by (simp only:)
  qed
  show "op_en tell s (h\<lparr>htemp := x\<rparr>) = (op_en tell s h)\<lparr>htemp := x\<rparr>"
    by (cases s) (simp_all add: om_enterReady_def om_publishStatus_def case_prod_unfold Let_def swap)
  show "op_ex tell s (h\<lparr>htemp := x\<rparr>) = (op_ex tell s h)\<lparr>htemp := x\<rparr>" by (cases s) (simp_all add: tell_quiet(1))
  have "posts_only h (om_enterReady tell h)"
    by (cases "markReadyAndFire SERVICE_AVAILABLE (om_gate h)") (simp add: om_enterReady_def om_publishStatus_def Let_def tell_quiet(2))
  then show "posts_only h (op_en tell s h)" by (cases s) simp_all
  show "posts_only h (op_ex tell s h)" by (cases s) (simp_all add: tell_quiet(2))
  show "H Operating (User u) h = Inr (r, h') \<Longrightarrow>
    posts_only h h' \<and> (r = TO_SUPER \<longrightarrow> htemp h' = Top_St) \<and> r \<noteq> NEED_TO_TRANSFER" using above by blast
  show "posts_only h h' \<and> (r = TO_SUPER \<longrightarrow> htemp h' = St Operating) \<and>
    (if track up (\<lambda>u. withdrawn u \<noteq> None) u s = s then r \<noteq> NEED_TO_TRANSFER
     else r = NEED_TO_TRANSFER \<and> htemp h' = St (Leaf (track up (\<lambda>u. withdrawn u \<noteq> None) u s)))"
    if "H (Leaf s) (User u) h = Inr (r, h')"
    using moves [OF that] by (cases s) (auto simp: op_moves_def track_def split: if_splits)
qed

context op_chart
begin

lemma op_view_step:
  assumes H: "H (Leaf s) (User u) h = Inr (r, h1)"
  defines "t \<equiv> track up (\<lambda>u. withdrawn u \<noteq> None) u s"
  shows "if t \<noteq> s then op_view (op_en tell t (op_ex tell s h1)) = op_move (withdrawn u) s t (op_view h)
    else if r = TO_SUPER \<or> r = UNHANDLED then op_view h1 = op_view h \<and> op_move (withdrawn u) s t (op_view h) = op_view h
    else op_view h1 = op_move (withdrawn u) s t (op_view h)"
proof -
  have quiet: "op_move w s s v = v" for w v by (cases s; cases v) simp_all
  show ?thesis
  proof (cases "t = s")
    case True
    with moves [OF H] show ?thesis unfolding t_def
      by (cases s) (auto simp: op_moves_def track_def quiet split: if_splits)
  next
    case False
    consider "s = NotReady" "t = Ready" "up u" | "s = Ready" "t = NotReady" "withdrawn u \<noteq> None"
      using False unfolding t_def by (cases s) (auto simp: track_def split: if_splits)
    then show ?thesis
    proof cases
      case 1
      with moves [OF H] show ?thesis
        by (simp add: op_moves_def om_enterReady_sel tell_quiet) (simp add: op_view_def)
    next
      case 2
      with moves [OF H] show ?thesis by (auto simp: op_moves_def tell_quiet) (auto simp: op_view_def)
    qed
  qed
qed

text \<open>The status and the gate after a run, from the events alone.\<close>

lemma op_reports:
  assumes "kMaxNest < n" "hstate h = St (Leaf s)" "dispatch_all n H us h = Inr h'"
  shows "hstate h' = St (Leaf (fold (track up (\<lambda>u. withdrawn u \<noteq> None)) us s)) \<and>
    op_view h' = snd (fold (\<lambda>u (s, v). (track up (\<lambda>u. withdrawn u \<noteq> None) u s,
      op_move (withdrawn u) s (track up (\<lambda>u. withdrawn u \<noteq> None) u s) v)) us (s, op_view h))"
proof (rule op_dispatch_view [where keep = "\<lambda>_ v. v" and view = op_view, OF assms(1) _ _ _ _ assms(2,3)])
  show "op_view h2 = op_view h" if "H Operating (User u) h = Inr (r, h2)" for u h r h2 using above [OF that] by simp
qed (rule op_view_quiet op_view_step, (assumption)?)+

end

end
