(* ===== verification/Data_Connection.thy ===== *)
theory Data_Connection
  imports Data_Session_Types Operating_Shell
begin

unbundle bit_operations_syntax

text \<open>
  \<open>SimulaDataConnectionManager\<close> of \<open>component/data/DataConnectionManager.cpp\<close>: the active object that owns
  the data call sessions of a slot. The map \<open>active_sessions_\<close> holds the only reference to a session,
  so the session is kept in it by value, and erasing it runs the session's destructor. Callbacks,
  promises and listeners are named by numbers.
\<close>

section \<open>Data\<close>

datatype indication = DEFAULT_IND | THROUGHPUT_IND

fun ind_bit :: "indication \<Rightarrow> nat" where
  "ind_bit DEFAULT_IND = 0"
| "ind_bit THROUGHPUT_IND = 1"

definition PROFILE_ID_INVALID :: int where
  "PROFILE_ID_INVALID = -1"

datatype 'j data_event =
    D_ReadinessEvt_Signal "'j envelope"
  | D_BridgeConnectivityChanged_Signal bool
  | StartDataCall_Signal call_params "nat option"
  | StopDataCall_Signal call_params "nat option"
  | SessionFinished_Signal int
  | RequestDataCallList_Signal operation_type "nat option"
  | GetDefaultProfile_Signal operation_type "nat option"
  | SetDefaultProfile_Signal operation_type "8 word" "nat option"
  | RequestThrottledApnInfo_Signal "nat option"
  | SetThroughputInterval_Signal "32 word" nat
  | GetLastThroughputInfo_Signal nat
  | D_StateInd_Signal "'j envelope"
  | ThroughputInfoEvt_Signal "'j envelope"
  | QosStatusEvt_Signal "'j envelope"
  | HwAccelEvt_Signal "'j envelope"
  | ThrottleStatusEvt_Signal "'j envelope"

text \<open>The calls that listeners get; an active service is \<open>True\<close>.\<close>

datatype data_note =
    On_Data_Service service_status
  | On_Data_Call_Info data_call
  | On_Throughput "throughput_info list"
  | On_Hw_Acceleration bool
  | On_Throttled_Apn "throttle_info list"
  | On_Flow_Template data_call flow_template

text \<open>The callbacks of requests with what they capture; a throttle query is named by its number.\<close>

datatype data_cont =
    K_Get_Default "nat option" int
  | K_Set_Default "nat option"
  | K_Throttle nat
  | K_Interval nat
  | K_Last_Info nat

text \<open>The answers to clients; \<open>Session_Gone\<close> is a session after its destructor has run.\<close>

datatype 'j data_answer =
    Call_Answered nat "data_call option" error_code
  | List_Answered nat "data_call list" error_code
  | Default_Answered nat int int error_code
  | Data_Response nat error_code
  | Throttle_Answered nat "throttle_info list" error_code
  | Interval_Promised nat error_code
  | Infos_Promised nat error_code "throughput_info list"
  | Session_Gone "'j data_session"

text \<open>What the callbacks of one throttle query share.\<close>

record throttle_query =
  tq_results :: "throttle_info list"
  tq_remaining :: int
  tq_cb :: "nat option"

type_synonym 'j data_effect = "('j, data_note, data_cont, 'j data_answer) om_effect"

record 'j data_manager = "('j data_event, 'j data_effect) op_manager" +
  dm_slotId :: int
  dm_sessions :: "(int \<times> 'j data_session) list"
  dm_listeners :: "(nat \<times> 32 word) list"
  dm_queries :: "throttle_query list"

text \<open>Parameters: that of the sessions, the topics, the bridge's next token, and the bound of the chart's loops.\<close>

record 'j data_ext =
  dx_ses :: "'j session_ext"
  subsys_ready_data_ind :: string
  data_call_state_ind :: string
  throughput_info_ind :: string
  qos_status_ind :: string
  hw_accel_state_ind :: string
  throttle_status_ind :: string
  get_default_profile_req :: string
  set_default_profile_req :: string
  request_throttle_status_req :: string
  set_throughput_interval_req :: string
  request_throughput_info_req :: string
  dx_token :: nat
  dx_loops :: nat

abbreviation dx_json :: "'j data_ext \<Rightarrow> 'j json_lib" where
  "dx_json T \<equiv> ss_json (dx_ses T)"

section \<open>Listeners\<close>

definition dm_broadcastToListeners :: "indication \<Rightarrow> data_note \<Rightarrow> 'j data_manager \<Rightarrow> 'j data_manager" where
  "dm_broadcastToListeners i nt h =
     om_notify (map fst (filter (\<lambda>(l, m). bit m (ind_bit i) \<and> l \<in> set (om_live h)) (dm_listeners h))) nt h"

definition broadcastDataCallInfoChanged :: "data_call \<Rightarrow> 'j data_manager \<Rightarrow> 'j data_manager" where
  "broadcastDataCallInfoChanged c = dm_broadcastToListeners DEFAULT_IND (On_Data_Call_Info c)"

definition dm_tell :: "service_status \<Rightarrow> 'j data_manager \<Rightarrow> 'j data_manager" where
  "dm_tell st = dm_broadcastToListeners DEFAULT_IND (On_Data_Service st)"

definition dm_registerListener :: "nat \<Rightarrow> 32 word \<Rightarrow> 'j data_manager \<Rightarrow> api_status \<times> 'j data_manager" where
  "dm_registerListener l m h = (SUCCESS, h\<lparr>dm_listeners := dm_listeners h @ [(l, m)]\<rparr>)"

text \<open>The loop of \<open>deregisterListener\<close>; an entry that cannot be locked is erased in passing.\<close>

fun dm_without :: "nat \<Rightarrow> 32 word \<Rightarrow> nat list \<Rightarrow> (nat \<times> 32 word) list \<Rightarrow> (nat \<times> 32 word) list" where
  "dm_without l m live [] = []"
| "dm_without l m live ((x, k) # ls) =
     (if x \<notin> set live then dm_without l m live ls
      else if x = l then
        (let k' = k AND NOT m in if k' = 0 then dm_without l m live ls else (x, k') # dm_without l m live ls)
      else (x, k) # dm_without l m live ls)"

definition dm_deregisterListener :: "nat \<Rightarrow> 32 word \<Rightarrow> 'j data_manager \<Rightarrow> api_status \<times> 'j data_manager" where
  "dm_deregisterListener l m h = (SUCCESS, h\<lparr>dm_listeners := dm_without l m (om_live h) (dm_listeners h)\<rparr>)"

section \<open>Sessions\<close>

text \<open>
  The two functions a session is constructed with: it has the manager broadcast the call, and it
  posts its end to the manager. Its other effects reach the bridge and its clients directly.
\<close>

fun session_relay :: "'j session_effect \<Rightarrow> 'j data_manager \<Rightarrow> 'j data_manager" where
  "session_relay (Notified c) h = broadcastDataCallInfoChanged c h"
| "session_relay (Finished p) h = post_fifo (SessionFinished_Signal p) h"
| "session_relay _ h = h"

text \<open>What a session has done on its way from \<open>s\<close> to \<open>s'\<close>.\<close>

definition relay_new :: "'j data_session \<Rightarrow> 'j data_session \<Rightarrow> 'j data_manager \<Rightarrow> 'j data_manager" where
  "relay_new s s' h = fold session_relay (drop (length (ds_out s)) (ds_out s')) h"

text \<open>
  \<open>active_sessions_.erase\<close>: the entry is unlinked, then the session's destructor joins the session's
  worker, which first handles what is queued; a queued event is handled at most once.
\<close>

definition dm_erase :: "'j data_ext \<Rightarrow> int \<Rightarrow> 'j data_manager \<Rightarrow> 'j data_manager result" where
  "dm_erase T p h =
     (case map_of (dm_sessions h) p of
        None \<Rightarrow> Inr h
      | Some s \<Rightarrow>
          bindE (session_destroy (2 * length (ao_q s) + length (ds_deferred s)) (dx_loops T) (dx_ses T) s) (\<lambda>s'.
            Inr (om_emit (Om_Answered (Session_Gone s')) (relay_new s s' (h\<lparr>dm_sessions := AList.delete p (dm_sessions h)\<rparr>)))))"

section \<open>Handlers of single signals\<close>

definition dm_startCall :: "'j data_ext \<Rightarrow> call_params \<Rightarrow> nat option \<Rightarrow> 'j data_manager \<Rightarrow> 'j data_manager result" where
  "dm_startCall T ps cb h =
     (case map_of (dm_sessions h) (par_profileId ps) of
        Some s \<Rightarrow>
          Inr (if dc_status (ds_call s) = NET_CONNECTED
               then om_answer (\<lambda>c. Call_Answered c (Some (ds_call s)) EC_SUCCESS) cb h
               else om_answer (\<lambda>c. Call_Answered c None EC_OP_IN_PROGRESS) cb h)
      | None \<Rightarrow>
          bindE (session_start (dx_loops T) (dx_ses T) cb
              (newSession (dm_slotId h) (par_profileId ps) (par_ipFamilyType ps) (par_operationType ps) (par_interfaceName ps)))
            (\<lambda>s. Inr (h\<lparr>dm_sessions := AList.update (par_profileId ps) s (dm_sessions h)\<rparr>)))"

definition dm_stopCall :: "call_params \<Rightarrow> nat option \<Rightarrow> 'j data_manager \<Rightarrow> 'j data_manager" where
  "dm_stopCall ps cb h =
     (case map_of (dm_sessions h) (par_profileId ps) of
        None \<Rightarrow> om_answer (\<lambda>c. Call_Answered c None EC_INVALID_STATE) cb h
      | Some s \<Rightarrow> h\<lparr>dm_sessions := AList.update (par_profileId ps) (requestStop cb s) (dm_sessions h)\<rparr>)"

definition dm_stateInd :: "'j data_ext \<Rightarrow> 'j envelope \<Rightarrow> 'j \<Rightarrow> 'j data_manager \<Rightarrow> 'j data_manager result" where
  "dm_stateInd T env d h =
     bindE (value_int_or (-1) (dx_json T) d ''profileId'') (\<lambda>p.
       Inr (case map_of (dm_sessions h) p of
              None \<Rightarrow> h
            | Some s \<Rightarrow> h\<lparr>dm_sessions := AList.update p (deliverStateInd env s) (dm_sessions h)\<rparr>))"

text \<open>The map is iterated in the order of the list.\<close>

definition dm_callList :: "operation_type \<Rightarrow> nat option \<Rightarrow> 'j data_manager \<Rightarrow> 'j data_manager" where
  "dm_callList ty cb h =
     om_answer (\<lambda>c. List_Answered c (filter (\<lambda>k. dc_operationType k = ty) (map (\<lambda>(p, s). ds_call s) (dm_sessions h))) EC_SUCCESS) cb h"

definition dm_request :: "'j data_ext \<Rightarrow> string \<Rightarrow> string \<Rightarrow> 'j \<Rightarrow> data_cont \<Rightarrow> 'j data_manager \<Rightarrow> 'j data_manager" where
  "dm_request T topic schema dat k = om_request (ss_pa_id (dx_ses T)) topic schema dat k"

definition dm_getDefault :: "'j data_ext \<Rightarrow> operation_type \<Rightarrow> nat option \<Rightarrow> 'j data_manager \<Rightarrow> 'j data_manager" where
  "dm_getDefault T ty cb h =
     (let J = dx_json T in
      dm_request T (get_default_profile_req T) ''data.get_default_profile.rsp''
        (j_set J ''opType'' (j_of_string J (opTypeToWire ty)) (j_set J ''slot'' (j_of_int J (dm_slotId h)) (j_object J)))
        (K_Get_Default cb (dm_slotId h)) h)"

definition dm_setDefault :: "'j data_ext \<Rightarrow> operation_type \<Rightarrow> 8 word \<Rightarrow> nat option \<Rightarrow> 'j data_manager \<Rightarrow> 'j data_manager" where
  "dm_setDefault T ty p cb h =
     (let J = dx_json T in
      dm_request T (set_default_profile_req T) ''data.set_default_profile.rsp''
        (j_set J ''profileId'' (j_of_int J (uint p)) (j_set J ''opType'' (j_of_string J (opTypeToWire ty))
          (j_set J ''slot'' (j_of_int J (dm_slotId h)) (j_object J))))
        (K_Set_Default cb) h)"

text \<open>One request for each session; the callbacks share the record \<open>q\<close>.\<close>

definition dm_askThrottle :: "'j data_ext \<Rightarrow> nat \<Rightarrow> int \<Rightarrow> 'j data_manager \<Rightarrow> 'j data_manager" where
  "dm_askThrottle T q p =
     dm_request T (request_throttle_status_req T) ''data.request_throttle_status.rsp''
       (j_set (dx_json T) ''profileId'' (j_of_int (dx_json T) p) (j_object (dx_json T))) (K_Throttle q)"

definition dm_throttled :: "'j data_ext \<Rightarrow> nat option \<Rightarrow> 'j data_manager \<Rightarrow> 'j data_manager" where
  "dm_throttled T cb h =
     (let ps = map fst (dm_sessions h) in
      if ps = [] then om_answer (\<lambda>c. Throttle_Answered c [] EC_SUCCESS) cb h
      else let q = length (dm_queries h);
               h = h\<lparr>dm_queries := dm_queries h @ [\<lparr>tq_results = [], tq_remaining = int (length ps), tq_cb = cb\<rparr>]\<rparr>
        in fold (dm_askThrottle T q) ps h)"

definition dm_setInterval :: "'j data_ext \<Rightarrow> 32 word \<Rightarrow> nat \<Rightarrow> 'j data_manager \<Rightarrow> 'j data_manager" where
  "dm_setInterval T ms pr =
     dm_request T (set_throughput_interval_req T) ''data.set_throughput_interval.rsp''
       (j_set (dx_json T) ''intervalMs'' (j_of_int (dx_json T) (sint ms)) (j_object (dx_json T))) (K_Interval pr)"

definition dm_lastInfo :: "'j data_ext \<Rightarrow> nat \<Rightarrow> 'j data_manager \<Rightarrow> 'j data_manager" where
  "dm_lastInfo T pr =
     dm_request T (request_throughput_info_req T) ''data.request_throughput_info.rsp'' (j_object (dx_json T)) (K_Last_Info pr)"

definition dm_throughputEvt :: "'j data_ext \<Rightarrow> 'j \<Rightarrow> 'j data_manager \<Rightarrow> 'j data_manager result" where
  "dm_throughputEvt T d h =
     bindE (throughput_infos (dx_json T) d) (\<lambda>xs. Inr (dm_broadcastToListeners THROUGHPUT_IND (On_Throughput xs) h))"

definition dm_hwAccelEvt :: "'j data_ext \<Rightarrow> 'j \<Rightarrow> 'j data_manager \<Rightarrow> 'j data_manager result" where
  "dm_hwAccelEvt T d h =
     bindE (value_string (dx_json T) d ''state'') (\<lambda>s.
       Inr (dm_broadcastToListeners DEFAULT_IND (On_Hw_Acceleration (s = ''ACTIVE'')) h))"

definition dm_throttleEvt :: "'j data_ext \<Rightarrow> 'j \<Rightarrow> 'j data_manager \<Rightarrow> 'j data_manager result" where
  "dm_throttleEvt T d h =
     bindE (decodeThrottleInfo (dx_json T) d) (\<lambda>i. Inr (dm_broadcastToListeners DEFAULT_IND (On_Throttled_Apn [i]) h))"

definition dm_qosEvt :: "'j data_ext \<Rightarrow> 'j \<Rightarrow> 'j data_manager \<Rightarrow> 'j data_manager result" where
  "dm_qosEvt T d h =
     bindE (value_int_or (-1) (dx_json T) d ''profileId'') (\<lambda>p.
       case map_of (dm_sessions h) p of
         None \<Rightarrow> Inr h
       | Some s \<Rightarrow> bindE (decodeTrafficFlowTemplate (dx_json T) d) (\<lambda>tft.
           Inr (dm_broadcastToListeners DEFAULT_IND (On_Flow_Template (ds_call s) tft) h)))"

definition dm_with_data :: "('j \<Rightarrow> 'j data_manager \<Rightarrow> 'j data_manager result) \<Rightarrow> 'j envelope \<Rightarrow> 'j data_manager
    \<Rightarrow> (status \<times> 'j data_manager) result" where
  "dm_with_data f env h =
     (case env_data env of None \<Rightarrow> Inr (HANDLED, h) | Some d \<Rightarrow> bindE (f d h) (\<lambda>h. Inr (HANDLED, h)))"

section \<open>State handlers\<close>

fun Operating_St :: "'j data_ext \<Rightarrow> 'j data_event event \<Rightarrow> 'j data_manager \<Rightarrow> (status \<times> 'j data_manager) result" where
  "Operating_St T Entry_Signal h = Inr (HANDLED, h)"
| "Operating_St T Exit_Signal h = Inr (HANDLED, h)"
| "Operating_St T (User (SessionFinished_Signal p)) h = bindE (dm_erase T p h) (\<lambda>h. Inr (HANDLED, h))"
| "Operating_St T _ h = Inr (super_st Top_St h)"

fun DataNotReady_St :: "'j data_ext \<Rightarrow> 'j data_event event \<Rightarrow> 'j data_manager \<Rightarrow> (status \<times> 'j data_manager) result" where
  "DataNotReady_St T Entry_Signal h = Inr (HANDLED, h)"
| "DataNotReady_St T Exit_Signal h = Inr (HANDLED, h)"
| "DataNotReady_St T (User (D_ReadinessEvt_Signal env)) h = om_available (dx_json T) env h"
| "DataNotReady_St T (User (D_BridgeConnectivityChanged_Signal b)) h = Inr (HANDLED, h)"
| "DataNotReady_St T (User (StartDataCall_Signal ps cb)) h = Inr (HANDLED, h)"
| "DataNotReady_St T (User (StopDataCall_Signal ps cb)) h = Inr (HANDLED, h)"
| "DataNotReady_St T (User (RequestDataCallList_Signal ty cb)) h = Inr (HANDLED, h)"
| "DataNotReady_St T (User (GetDefaultProfile_Signal ty cb)) h = Inr (HANDLED, h)"
| "DataNotReady_St T (User (SetDefaultProfile_Signal ty p cb)) h = Inr (HANDLED, h)"
| "DataNotReady_St T (User (RequestThrottledApnInfo_Signal cb)) h = Inr (HANDLED, h)"
| "DataNotReady_St T (User (SetThroughputInterval_Signal ms pr)) h =
     Inr (HANDLED, om_emit (Om_Answered (Interval_Promised pr EC_SUBSYSTEM_UNAVAILABLE)) h)"
| "DataNotReady_St T (User (GetLastThroughputInfo_Signal pr)) h =
     Inr (HANDLED, om_emit (Om_Answered (Infos_Promised pr EC_SUBSYSTEM_UNAVAILABLE [])) h)"
| "DataNotReady_St T (User (SessionFinished_Signal p)) h = Inr (UNHANDLED, h)"
| "DataNotReady_St T _ h = Inr (super_st (St Operating) h)"

fun DataReady_St :: "'j data_ext \<Rightarrow> 'j data_event event \<Rightarrow> 'j data_manager \<Rightarrow> (status \<times> 'j data_manager) result" where
  "DataReady_St T Entry_Signal h = Inr (HANDLED, om_enterReady dm_tell h)"
| "DataReady_St T Exit_Signal h = Inr (HANDLED, dm_tell SERVICE_UNAVAILABLE h)"
| "DataReady_St T (User (D_ReadinessEvt_Signal env)) h = om_readiness (dx_json T) env h"
| "DataReady_St T (User (D_BridgeConnectivityChanged_Signal b)) h = Inr (om_connectivity b h)"
| "DataReady_St T (User (StartDataCall_Signal ps cb)) h = bindE (dm_startCall T ps cb h) (\<lambda>h. Inr (HANDLED, h))"
| "DataReady_St T (User (StopDataCall_Signal ps cb)) h = Inr (HANDLED, dm_stopCall ps cb h)"
| "DataReady_St T (User (D_StateInd_Signal env)) h = dm_with_data (dm_stateInd T env) env h"
| "DataReady_St T (User (SessionFinished_Signal p)) h = Inr (UNHANDLED, h)"
| "DataReady_St T (User (RequestDataCallList_Signal ty cb)) h = Inr (HANDLED, dm_callList ty cb h)"
| "DataReady_St T (User (GetDefaultProfile_Signal ty cb)) h = Inr (HANDLED, dm_getDefault T ty cb h)"
| "DataReady_St T (User (SetDefaultProfile_Signal ty p cb)) h = Inr (HANDLED, dm_setDefault T ty p cb h)"
| "DataReady_St T (User (RequestThrottledApnInfo_Signal cb)) h = Inr (HANDLED, dm_throttled T cb h)"
| "DataReady_St T (User (SetThroughputInterval_Signal ms pr)) h = Inr (HANDLED, dm_setInterval T ms pr h)"
| "DataReady_St T (User (GetLastThroughputInfo_Signal pr)) h = Inr (HANDLED, dm_lastInfo T pr h)"
| "DataReady_St T (User (ThroughputInfoEvt_Signal env)) h = dm_with_data (dm_throughputEvt T) env h"
| "DataReady_St T (User (HwAccelEvt_Signal env)) h = dm_with_data (dm_hwAccelEvt T) env h"
| "DataReady_St T (User (ThrottleStatusEvt_Signal env)) h = dm_with_data (dm_throttleEvt T) env h"
| "DataReady_St T (User (QosStatusEvt_Signal env)) h = dm_with_data (dm_qosEvt T) env h"
| "DataReady_St T _ h = Inr (super_st (St Operating) h)"

fun data_handlers :: "'j data_ext \<Rightarrow> ostate \<Rightarrow> 'j data_event event \<Rightarrow> 'j data_manager \<Rightarrow> (status \<times> 'j data_manager) result" where
  "data_handlers T Operating = Operating_St T"
| "data_handlers T (Leaf NotReady) = DataNotReady_St T"
| "data_handlers T (Leaf Ready) = DataReady_St T"

section \<open>Responses\<close>

text \<open>The callbacks of the requests, which run on the bridge's worker.\<close>

definition throttle_response :: "'j json_lib \<Rightarrow> nat \<Rightarrow> 'j envelope option \<Rightarrow> 'j data_manager \<Rightarrow> 'j data_manager result" where
  "throttle_response J q rsp h =
     (let tq = dm_queries h ! q in
      bindE (case good_data rsp of
           None \<Rightarrow> Inr tq
         | Some d \<Rightarrow> bindE (decodeThrottleInfo J d) (\<lambda>i. Inr (tq\<lparr>tq_results := tq_results tq @ [i]\<rparr>))) (\<lambda>tq.
        let h = h\<lparr>dm_queries := (dm_queries h)[q := tq\<lparr>tq_remaining := tq_remaining tq - 1\<rparr>]\<rparr> in
        Inr (if tq_remaining tq = 1 then om_answer (\<lambda>c. Throttle_Answered c (tq_results tq) EC_SUCCESS) (tq_cb tq) h else h)))"

fun data_response :: "'j json_lib \<Rightarrow> data_cont \<Rightarrow> 'j envelope option \<Rightarrow> 'j data_manager \<Rightarrow> 'j data_manager result" where
  "data_response J (K_Get_Default cb slot) rsp h =
     (case cb of
        None \<Rightarrow> Inr h
      | Some c \<Rightarrow>
          (case good_data rsp of
             None \<Rightarrow> Inr (om_emit (Om_Answered (Default_Answered c PROFILE_ID_INVALID slot EC_OPERATION_TIMEOUT)) h)
           | Some d \<Rightarrow> bindE (value_int_or PROFILE_ID_INVALID J d ''profileId'') (\<lambda>p.
               Inr (om_emit (Om_Answered (Default_Answered c p slot EC_SUCCESS)) h))))"
| "data_response J (K_Set_Default cb) rsp h =
     (case cb of
        None \<Rightarrow> Inr h
      | Some c \<Rightarrow>
          (if has_error rsp then bindE (response_error J rsp) (\<lambda>er. Inr (om_emit (Om_Answered (Data_Response c er)) h))
           else Inr (om_emit (Om_Answered (Data_Response c EC_SUCCESS)) h)))"
| "data_response J (K_Throttle q) rsp h = throttle_response J q rsp h"
| "data_response J (K_Interval pr) rsp h =
     Inr (om_emit (Om_Answered (Interval_Promised pr (if has_error rsp then EC_OPERATION_TIMEOUT else EC_SUCCESS))) h)"
| "data_response J (K_Last_Info pr) rsp h =
     (case good_data rsp of
        None \<Rightarrow> Inr (om_emit (Om_Answered (Infos_Promised pr EC_OPERATION_TIMEOUT [])) h)
      | Some d \<Rightarrow> bindE (throughput_infos J d) (\<lambda>xs. Inr (om_emit (Om_Answered (Infos_Promised pr EC_SUCCESS xs)) h)))"

section \<open>Lifecycle and public interface\<close>

definition newDataManager :: "int \<Rightarrow> nat option \<Rightarrow> 'j data_manager" where
  "newDataManager slot initCb =
     \<lparr>hstate = Top_St, htemp = Top_St, last_ignored = False, trace_fn = False, probe_fn = False, instr_log = [],
      ao_name = ''DataConnectionManager'', ao_inst = False, ao_q = [], ao_running = False,
      om_status = SERVICE_UNAVAILABLE, om_gate = gate_new initCb, om_conn_token = 0, om_live = [],
      om_io = \<lparr>io_counter = 0, io_now = 0, io_out = []\<rparr>,
      dm_slotId = slot, dm_sessions = [], dm_listeners = [], dm_queries = []\<rparr>"

definition dm_topics :: "'j data_ext \<Rightarrow> (string \<times> string) list" where
  "dm_topics T =
     [(subsys_ready_data_ind T, ''data.subsys_ready_data.ind''), (data_call_state_ind T, ''data.call_state.ind''),
      (throughput_info_ind T, ''data.throughput_info.ind''), (qos_status_ind T, ''data.qos_status.ind''),
      (hw_accel_state_ind T, ''data.hw_accel_state.ind''), (throttle_status_ind T, ''data.throttle_status.ind'')]"

definition dm_start :: "'j data_ext \<Rightarrow> 'j data_manager \<Rightarrow> 'j data_manager result" where
  "dm_start T h =
     (if ao_running h then Inr h
      else bindE (start_at (dx_loops T) (data_handlers T) (St (Leaf NotReady)) (h\<lparr>ao_inst := True\<rparr>)) (\<lambda>h.
        Inr (om_subscribe (dm_topics T) (dx_token T) h)))"

definition dm_unsubscribeFromBridge :: "'j data_ext \<Rightarrow> 'j data_manager \<Rightarrow> 'j data_manager" where
  "dm_unsubscribeFromBridge T = om_unsubscribe (map fst (dm_topics T))"

text \<open>The destructor: withdraw from the bridge, destroy the sessions, then stop; \<open>k\<close> bounds the last loop.\<close>

fun erase_sessions :: "'j data_ext \<Rightarrow> int list \<Rightarrow> 'j data_manager \<Rightarrow> 'j data_manager result" where
  "erase_sessions T [] h = Inr h"
| "erase_sessions T (p # ps) h = bindE (dm_erase T p h) (erase_sessions T ps)"

definition dm_destroy :: "nat \<Rightarrow> 'j data_ext \<Rightarrow> 'j data_manager \<Rightarrow> 'j data_manager result" where
  "dm_destroy k T h =
     (let h = dm_unsubscribeFromBridge T h in
      bindE (erase_sessions T (map fst (dm_sessions h)) h) (stop k (dx_loops T) (data_handlers T) False))"

definition dm_handleCallStateInd :: "'j data_ext \<Rightarrow> string \<Rightarrow> 'j envelope \<Rightarrow> 'j data_manager \<Rightarrow> 'j data_manager" where
  "dm_handleCallStateInd T topic env =
     post_fifo
       (if topic = subsys_ready_data_ind T then D_ReadinessEvt_Signal env
        else if topic = throughput_info_ind T then ThroughputInfoEvt_Signal env
        else if topic = qos_status_ind T then QosStatusEvt_Signal env
        else if topic = hw_accel_state_ind T then HwAccelEvt_Signal env
        else if topic = throttle_status_ind T then ThrottleStatusEvt_Signal env
        else D_StateInd_Signal env)"

definition setDefaultProfile :: "operation_type \<Rightarrow> 8 word \<Rightarrow> nat option \<Rightarrow> 'j data_manager \<Rightarrow> api_status \<times> 'j data_manager" where
  "setDefaultProfile ty p cb = om_post (SetDefaultProfile_Signal ty p cb)"

definition getDefaultProfile :: "operation_type \<Rightarrow> nat option \<Rightarrow> 'j data_manager \<Rightarrow> api_status \<times> 'j data_manager" where
  "getDefaultProfile ty cb = om_post (GetDefaultProfile_Signal ty cb)"

definition setRoamingMode :: "'j data_manager \<Rightarrow> api_status \<times> 'j data_manager" where
  "setRoamingMode h = (NOTSUPPORTED, h)"

definition requestRoamingMode :: "'j data_manager \<Rightarrow> api_status \<times> 'j data_manager" where
  "requestRoamingMode h = (NOTSUPPORTED, h)"

definition startDataCall :: "call_params \<Rightarrow> nat option \<Rightarrow> 'j data_manager \<Rightarrow> api_status \<times> 'j data_manager" where
  "startDataCall ps cb = om_post (StartDataCall_Signal ps cb)"

definition stopDataCall :: "call_params \<Rightarrow> nat option \<Rightarrow> 'j data_manager \<Rightarrow> api_status \<times> 'j data_manager" where
  "stopDataCall ps cb = om_post (StopDataCall_Signal ps cb)"

text \<open>The older overloads, which name no interface.\<close>

definition startDataCall_profile :: "int \<Rightarrow> ip_family \<Rightarrow> nat option \<Rightarrow> operation_type \<Rightarrow> 'j data_manager \<Rightarrow> api_status \<times> 'j data_manager" where
  "startDataCall_profile p fam cb ty =
     startDataCall \<lparr>par_profileId = p, par_interfaceName = [], par_ipFamilyType = fam, par_operationType = ty\<rparr> cb"

definition stopDataCall_profile :: "int \<Rightarrow> ip_family \<Rightarrow> nat option \<Rightarrow> operation_type \<Rightarrow> 'j data_manager \<Rightarrow> api_status \<times> 'j data_manager" where
  "stopDataCall_profile p fam cb ty =
     stopDataCall \<lparr>par_profileId = p, par_interfaceName = [], par_ipFamilyType = fam, par_operationType = ty\<rparr> cb"

definition requestDataCallList :: "operation_type \<Rightarrow> nat option \<Rightarrow> 'j data_manager \<Rightarrow> api_status \<times> 'j data_manager" where
  "requestDataCallList ty cb = om_post (RequestDataCallList_Signal ty cb)"

definition requestThrottledApnInfo :: "nat option \<Rightarrow> 'j data_manager \<Rightarrow> api_status \<times> 'j data_manager" where
  "requestThrottledApnInfo cb = om_post (RequestThrottledApnInfo_Signal cb)"

text \<open>
  The two blocking operations post with a promise \<open>pr\<close> and wait: \<open>None\<close> when they go on to wait, and
  then \<open>got\<close> is the value that arrived in time.
\<close>

definition blocking_post :: "'j data_event \<Rightarrow> 'j data_manager \<Rightarrow> error_code option \<times> 'j data_manager" where
  "blocking_post e h = (if \<not> om_isReadyDerived h then (Some EC_SUBSYSTEM_UNAVAILABLE, h) else (None, post_fifo e h))"

definition setThroughputInterval_post :: "32 word \<Rightarrow> nat \<Rightarrow> 'j data_manager \<Rightarrow> error_code option \<times> 'j data_manager" where
  "setThroughputInterval_post ms pr = blocking_post (SetThroughputInterval_Signal ms pr)"

definition setThroughputInterval_result :: "error_code option \<Rightarrow> error_code" where
  "setThroughputInterval_result got = (case got of None \<Rightarrow> EC_OPERATION_TIMEOUT | Some er \<Rightarrow> er)"

definition getLastThroughputInfo_post :: "nat \<Rightarrow> 'j data_manager \<Rightarrow> error_code option \<times> 'j data_manager" where
  "getLastThroughputInfo_post pr = blocking_post (GetLastThroughputInfo_Signal pr)"

definition getLastThroughputInfo_result :: "(error_code \<times> throughput_info list) option \<Rightarrow> throughput_info list
    \<Rightarrow> error_code \<times> throughput_info list" where
  "getLastThroughputInfo_result got info =
     (case got of
        None \<Rightarrow> (EC_OPERATION_TIMEOUT, info)
      | Some (er, xs) \<Rightarrow> (er, if er = EC_SUCCESS then xs else info))"

end
