(* ===== verification/Data_Connection_Chart.thy ===== *)
theory Data_Connection_Chart
  imports Data_Connection
begin

text \<open>
  The data connection manager as an instance of the contract of \<open>Operating_Shell\<close>, and the manager
  together with its sessions: every interleaving of clients, the peer, the sessions' workers and
  timers, and the manager's worker.
\<close>

section \<open>The chart\<close>

fun data_up :: "'j data_ext \<Rightarrow> 'j data_event \<Rightarrow> bool" where
  "data_up T (D_ReadinessEvt_Signal env) \<longleftrightarrow> readiness_status (dx_json T) ''AVAILABLE'' env = Inr True"
| "data_up T _ \<longleftrightarrow> False"

fun data_withdrawn :: "'j data_ext \<Rightarrow> 'j data_event \<Rightarrow> service_status option" where
  "data_withdrawn T (D_ReadinessEvt_Signal env) = env_withdrawn (dx_json T) env"
| "data_withdrawn T (D_BridgeConnectivityChanged_Signal b) = link_withdrawn b"
| "data_withdrawn T _ = None"

lemma data_view_upd [simp]:
  "op_view (h\<lparr>dm_sessions := x\<rparr>) = op_view h" "op_view (h\<lparr>dm_queries := y\<rparr>) = op_view h"
  "posts_only g (h\<lparr>dm_sessions := x\<rparr>) = posts_only g h" "posts_only g (h\<lparr>dm_queries := y\<rparr>) = posts_only g h"
  by (simp_all add: op_view_def posts_only_def)

lemma dm_broadcast_quiet [simp]:
  "op_view (dm_broadcastToListeners i nt h) = op_view h" "posts_only g (dm_broadcastToListeners i nt h) = posts_only g h"
  "op_view (dm_tell st h) = op_view h" "posts_only g (dm_tell st h) = posts_only g h"
  "op_view (broadcastDataCallInfoChanged c h) = op_view h" "posts_only g (broadcastDataCallInfoChanged c h) = posts_only g h"
  by (simp_all add: dm_broadcastToListeners_def dm_tell_def broadcastDataCallInfoChanged_def)

lemma session_relay_quiet: "op_view (session_relay x h) = op_view h" "posts_only h (session_relay x h)"
  by (cases x; simp)+

lemma relay_new_quiet: "op_view (relay_new s s' h) = op_view h" "posts_only h (relay_new s s' h)"
proof -
  have "op_view (fold session_relay xs h) = op_view h \<and> posts_only h (fold session_relay xs h)" for xs
    by (induction xs arbitrary: h) (use session_relay_quiet posts_only_trans in \<open>fastforce+\<close>)
  then show "op_view (relay_new s s' h) = op_view h" "posts_only h (relay_new s s' h)" by (simp_all add: relay_new_def)
qed

lemma dm_erase_quiet:
  assumes "dm_erase T p h = Inr h'"
  shows "op_view h' = op_view h \<and> posts_only h h'"
proof -
  let ?h = "h\<lparr>dm_sessions := AList.delete p (dm_sessions h)\<rparr>"
  from assms consider "h' = h" | s s' where "h' = om_emit (Om_Answered (Session_Gone s')) (relay_new s s' ?h)"
    by (auto simp: dm_erase_def bindE_eq_Inr split: option.splits)
  then show ?thesis
  proof cases
    case 2
    have "posts_only h ?h" by simp
    from posts_only_trans [OF this relay_new_quiet(2) [of ?h s s']] 2 show ?thesis by (simp add: relay_new_quiet(1))
  qed simp
qed

lemma dm_request_quiet [simp]:
  "op_view (dm_request T t sc d k h) = op_view h" "posts_only g (dm_request T t sc d k h) = posts_only g h"
  by (simp_all add: dm_request_def)

lemma fold_ask_quiet [simp]:
  "op_view (fold (dm_askThrottle T q) ps h) = op_view h" "posts_only g (fold (dm_askThrottle T q) ps h) = posts_only g h"
  by (induction ps arbitrary: h) (simp_all add: dm_askThrottle_def)

lemma dm_ops_quiet:
  "dm_startCall T ps cb h = Inr h' \<Longrightarrow> op_view h' = op_view h \<and> posts_only h h'"
  "op_view (dm_stopCall ps cb h) = op_view h \<and> posts_only h (dm_stopCall ps cb h)"
  "dm_stateInd T env d h = Inr h' \<Longrightarrow> op_view h' = op_view h \<and> posts_only h h'"
  "op_view (dm_callList ty cb h) = op_view h \<and> posts_only h (dm_callList ty cb h)"
  "op_view (dm_getDefault T ty cb h) = op_view h \<and> posts_only h (dm_getDefault T ty cb h)"
  "op_view (dm_setDefault T ty pr8 cb h) = op_view h \<and> posts_only h (dm_setDefault T ty pr8 cb h)"
  "op_view (dm_throttled T cb h) = op_view h \<and> posts_only h (dm_throttled T cb h)"
  "op_view (dm_setInterval T ms pr h) = op_view h \<and> posts_only h (dm_setInterval T ms pr h)"
  "op_view (dm_lastInfo T pr h) = op_view h \<and> posts_only h (dm_lastInfo T pr h)"
  "dm_throughputEvt T d h = Inr h' \<Longrightarrow> op_view h' = op_view h \<and> posts_only h h'"
  "dm_hwAccelEvt T d h = Inr h' \<Longrightarrow> op_view h' = op_view h \<and> posts_only h h'"
  "dm_throttleEvt T d h = Inr h' \<Longrightarrow> op_view h' = op_view h \<and> posts_only h h'"
  "dm_qosEvt T d h = Inr h' \<Longrightarrow> op_view h' = op_view h \<and> posts_only h h'"
  by (auto simp: dm_startCall_def dm_stopCall_def dm_stateInd_def dm_callList_def dm_getDefault_def dm_setDefault_def
      dm_throttled_def dm_setInterval_def dm_lastInfo_def dm_throughputEvt_def dm_hwAccelEvt_def dm_throttleEvt_def
      dm_qosEvt_def bindE_eq_Inr Let_def split: option.splits if_splits)

lemma dm_with_data_quiet:
  assumes "dm_with_data f env h = Inr (r, h')"
    and "\<And>d h'. f d h = Inr h' \<Longrightarrow> op_view h' = op_view h \<and> posts_only h h'"
  shows "r = HANDLED \<and> op_view h' = op_view h \<and> posts_only h h'"
  using assms by (auto simp: dm_with_data_def bindE_eq_Inr split: option.splits)

lemma data_moves:
  assumes "data_handlers T (Leaf s) (User u) h = Inr (r, h')"
  shows "op_moves (data_up T u) (data_withdrawn T u) s h r h'"
proof (cases s)
  case NotReady
  show ?thesis
  proof (cases u)
    case (D_ReadinessEvt_Signal env)
    with assms NotReady op_moves_available show ?thesis by simp
  qed (use assms NotReady in \<open>auto simp: op_moves_def super_st_def\<close>)
next
  case Ready
  have data: "op_moves False None Ready h r h'" if "dm_with_data f env h = Inr (r, h')"
    "\<And>d h'. f d h = Inr h' \<Longrightarrow> op_view h' = op_view h \<and> posts_only h h'" for f env
    using dm_with_data_quiet [OF that] by simp
  show ?thesis
  proof (cases u)
    case (D_ReadinessEvt_Signal env)
    with assms Ready op_moves_readiness [of "dx_json T" env h r h'] show ?thesis by simp
  next
    case (D_BridgeConnectivityChanged_Signal b)
    with assms Ready op_moves_connectivity [of b h r h'] show ?thesis by simp
  qed (use assms Ready in \<open>auto simp: bindE_eq_Inr dm_ops_quiet super_st_def intro: data dm_ops_quiet dest: dm_ops_quiet(1)\<close>)
qed

interpretation dmgr: op_chart "data_handlers T" dm_tell "data_up T" "data_withdrawn T" for T :: "'j data_ext"
proof unfold_locales
  fix s :: rstate and c :: ostate and h h' g :: "'j data_manager" and u r st x
  show "data_handlers T c None_Signal h = Inr (super_st (op_par c) h)"
    "data_handlers T c Init_Signal h = Inr (super_st (op_par c) h)"
    by (cases c rule: ostate_cases; simp)+
  show "data_handlers T Operating Entry_Signal h = Inr (HANDLED, h)" "data_handlers T Operating Exit_Signal h = Inr (HANDLED, h)"
    by simp_all
  show "data_handlers T (Leaf s) Entry_Signal h = Inr (HANDLED, op_en dm_tell s h)"
    "data_handlers T (Leaf s) Exit_Signal h = Inr (HANDLED, op_ex dm_tell s h)"
    by (cases s; simp)+
  show "dm_tell st (h\<lparr>htemp := x\<rparr>) = (dm_tell st h)\<lparr>htemp := x\<rparr>"
    by (simp add: dm_tell_def dm_broadcastToListeners_def)
  show "data_handlers T Operating (User u) h = Inr (r, h') \<Longrightarrow> posts_only h h' \<and> (r = TO_SUPER \<longrightarrow> htemp h' = Top_St) \<and>
      r \<noteq> NEED_TO_TRANSFER \<and> op_view h' = op_view h"
    by (cases u) (auto simp: super_st_def bindE_eq_Inr dest: dm_erase_quiet)
  show "data_handlers T (Leaf s) (User u) h = Inr (r, h') \<Longrightarrow> op_moves (data_up T u) (data_withdrawn T u) s h r h'"
    by (rule data_moves)
qed simp_all

end
