(* ===== verification/Data_Connection_Books.thy ===== *)
theory Data_Connection_Books
  imports Data_Connection_Chart
begin

text \<open>
  The data connection manager together with its sessions: every interleaving of clients, the peer,
  the sessions' workers and timers, and the manager's own worker; and what holds in every run.
\<close>

section \<open>Runs\<close>

text \<open>
  Steps: any thread posts an event; the manager's worker takes one; a session takes a step of its own
  and what it has to tell reaches the manager; the callback of a request runs; listeners come, go and
  die; an init callback is added; the clock and the counter of correlation ids move on; \<open>stop\<close> clears
  \<open>running_\<close>.
\<close>

inductive data_step :: "'j data_ext \<Rightarrow> 'j data_manager \<Rightarrow> 'j data_manager \<Rightarrow> bool" for T where
  post: "data_step T h (post_fifo u h)"
| work: "run_step (dx_loops T) (data_handlers T) h = Inr (res, h') \<Longrightarrow> data_step T h h'"
| session: "map_of (dm_sessions h) p = Some s \<Longrightarrow> session_step (dx_ses T) (dx_loops T) new s s' \<Longrightarrow>
    data_step T h (relay_new s s' (h\<lparr>dm_sessions := AList.update p s' (dm_sessions h)\<rparr>))"
| response: "data_response (dx_json T) k rsp h = Inr h' \<Longrightarrow> data_step T h h'"
| clients: "data_step T h (h\<lparr>dm_listeners := ls, om_live := lv\<rparr>)"
| added: "data_step T h (om_addInitCallback cb h)"
| tick: "data_step T h (h\<lparr>om_io := (om_io h)\<lparr>io_now := t, io_counter := c\<rparr>\<rparr>)"
| halt: "data_step T h (h\<lparr>ao_running := False\<rparr>)"

inductive data_reach :: "'j data_ext \<Rightarrow> 'j data_manager \<Rightarrow> bool" for T where
  started: "dm_start T (newDataManager slot cb) = Inr h \<Longrightarrow> data_reach T h"
| step: "data_reach T h \<Longrightarrow> data_step T h h' \<Longrightarrow> data_reach T h'"

section \<open>The log of a session\<close>

lemma ses_does_extends:
  assumes "ses_does X c u h l g"
  shows "\<exists>xs. ds_out g = ds_out h @ xs"
  using assms by cases (auto simp: session_shape elim!: with_callE split: option.splits)

lemma session_step_extends:
  assumes "kMaxNest < n" "session_sys cb p s" "session_step X n new s s'"
  shows "\<exists>xs. ds_out s' = ds_out s @ xs"
  using assms(3)
proof cases
  case (work res)
  from assms(2) obtain c where "hstate s = St c" "leaf_state c" by (auto simp: session_sys_def)
  with assms(1) show ?thesis using work(2)
  proof (cases rule: session_work)
    case (took u us g l g')
    from ses_does_extends [OF took(2)] show ?thesis using like_session(2) [OF took(3)] like_session(2) [OF took(6)]
      by (simp add: ds_out_def)
  qed simp
qed (simp_all add: ds_out_def post_fifo_def)

lemma finishes_member: "p \<in> set (finishes xs) \<Longrightarrow> Finished p \<in> set xs"
  by (induction xs rule: finishes.induct) auto

text \<open>A session that ends tells its owner.\<close>

lemma session_ends_told:
  assumes fuel: "kMaxNest < n" and sys: "session_sys cb p s" and st: "session_step X n new s s'"
    and ends: "hstate s \<noteq> St Terminal" "hstate s' = St Terminal"
  shows "Finished p \<in> set (drop (length (ds_out s)) (ds_out s'))"
proof -
  from session_step_extends [OF fuel sys st] obtain xs where xs: "ds_out s' = ds_out s @ xs" by blast
  from session_sys_step [OF fuel st sys] ends(2) have "p \<in> set (finishes (ds_out s'))"
    by (auto simp: session_sys_def session_inv_def finishes_fit_def)
  moreover from sys ends(1) have "finishes (ds_out s) = []"
    by (auto simp: session_sys_def session_inv_def finishes_fit_def)
  ultimately show ?thesis using finishes_member by (auto simp: xs)
qed

section \<open>The table of sessions\<close>

declare map_of_eq_Some_iff [simp del]

text \<open>
  Every session of the table is a session in some run of its own, for the profile it is filed under;
  and the end of every ended session is on its way to the manager: in the queue or among the events \<open>us\<close>.
\<close>

definition data_ok :: "'j data_ext \<Rightarrow> 'j data_event list \<Rightarrow> 'j data_manager \<Rightarrow> bool" where
  "data_ok T us h \<longleftrightarrow> distinct (map fst (dm_sessions h)) \<and>
     (\<forall>p s. map_of (dm_sessions h) p = Some s \<longrightarrow> (\<exists>cb iss. session_reach (dx_ses T) (dx_loops T) cb p iss s) \<and>
        (hstate s = St Terminal \<and> ao_running h \<longrightarrow> SessionFinished_Signal p \<in> set us \<union> set (ao_q h)))"

lemma data_okD:
  assumes "data_ok T us h" "map_of (dm_sessions h) p = Some s"
  shows "\<exists>cb iss. session_reach (dx_ses T) (dx_loops T) cb p iss s"
    and "hstate s = St Terminal \<longrightarrow> ao_running h \<longrightarrow> SessionFinished_Signal p \<in> set us \<union> set (ao_q h)"
  using assms unfolding data_ok_def by blast+

definition same_table :: "'j data_manager \<Rightarrow> 'j data_manager \<Rightarrow> bool" where
  "same_table h h' \<longleftrightarrow> dm_sessions h' = dm_sessions h \<and> ao_running h' = ao_running h \<and> set (ao_q h) \<subseteq> set (ao_q h')"

lemma data_ok_same: "data_ok T us h \<Longrightarrow> same_table h h' \<Longrightarrow> data_ok T us h'"
  by (fastforce simp: data_ok_def same_table_def)

lemma data_ok_erase: "data_ok T us (erase h) = data_ok T us h"
  by (simp add: data_ok_def erase_def)

lemma same_table_simps [simp]:
  "same_table h h" "same_table g (om_do f h) = same_table g h" "same_table g (om_emit x h) = same_table g h"
  "same_table g (om_answer fn cb h) = same_table g h" "same_table g (om_notify ls nt h) = same_table g h"
  "same_table g (om_request pa t sc d k h) = same_table g h" "same_table g (h\<lparr>htemp := y\<rparr>) = same_table g h"
  "same_table g (h\<lparr>dm_queries := q\<rparr>) = same_table g h" "same_table g (h\<lparr>om_gate := ga\<rparr>) = same_table g h"
  "same_table g (om_publishStatus st h) = same_table g h" "same_table g (dm_broadcastToListeners i nt h) = same_table g h"
  "same_table g (broadcastDataCallInfoChanged ca h) = same_table g h" "same_table g (dm_tell st h) = same_table g h"
  "same_table g (dm_request T t sc d kk h) = same_table g h"
  by (simp_all add: same_table_def om_do_def om_emit_def om_answer_def om_notify_def om_request_def om_publishStatus_def
      dm_broadcastToListeners_def broadcastDataCallInfoChanged_def dm_tell_def dm_request_def split: option.splits)

lemma same_table_post: "same_table h (post_fifo u h)"
  by (auto simp: same_table_def post_fifo_def)

lemma same_table_trans: "same_table a b \<Longrightarrow> same_table b c \<Longrightarrow> same_table a c"
  by (auto simp: same_table_def)

lemma same_table_fold: "same_table h (fold session_relay xs h)"
proof (induction xs arbitrary: h)
  case (Cons x xs)
  have "same_table h (session_relay x h)" by (cases x) (simp_all add: same_table_post)
  with Cons.IH [of "session_relay x h"] show ?case using same_table_trans by fastforce
qed simp

lemma same_table_relay: "same_table h (relay_new s s' h)"
  by (simp add: relay_new_def same_table_fold)

lemma relay_posts_end:
  assumes "Finished p \<in> set (drop (length (ds_out s)) (ds_out s'))" "ao_running h"
  shows "SessionFinished_Signal p \<in> set (ao_q (relay_new s s' h))"
proof -
  obtain xs ys where sp: "drop (length (ds_out s)) (ds_out s') = xs @ Finished p # ys"
    using assms(1) by (meson split_list)
  let ?h = "session_relay (Finished p) (fold session_relay xs h)"
  have "ao_running (fold session_relay xs h)" using same_table_fold [of h xs] assms(2) by (simp add: same_table_def)
  then have "SessionFinished_Signal p \<in> set (ao_q ?h)" by (simp add: post_fifo_def)
  with same_table_fold [of ?h ys] show ?thesis by (auto simp: relay_new_def sp same_table_def)
qed

section \<open>Every step keeps the table\<close>

lemma data_ok_put:
  assumes "data_ok T us h" "session_reach (dx_ses T) (dx_loops T) cb p iss s"
    and "hstate s = St Terminal \<longrightarrow> ao_running h \<longrightarrow> SessionFinished_Signal p \<in> set us \<union> set (ao_q h)"
  shows "data_ok T us (h\<lparr>dm_sessions := AList.update p s (dm_sessions h)\<rparr>)"
  using assms by (auto simp: data_ok_def update_conv' distinct_update)

lemma post_reach:
  assumes "session_reach X n cb p iss s"
  shows "\<exists>iss'. session_reach X n cb p iss' (post_fifo u s)"
proof (cases "ao_running s")
  case True
  from session_reach.step [OF assms session_step.post [OF this]] show ?thesis by blast
next
  case False
  then have "post_fifo u s = s" by (simp add: post_fifo_def)
  with assms show ?thesis by auto
qed

lemma data_ok_post:
  assumes "data_ok T us h" "map_of (dm_sessions h) p = Some s"
  shows "data_ok T us (h\<lparr>dm_sessions := AList.update p (post_fifo u s) (dm_sessions h)\<rparr>)"
proof -
  from data_okD(1) [OF assms] obtain cb iss where r: "session_reach (dx_ses T) (dx_loops T) cb p iss s" by blast
  note e = data_okD(2) [OF assms]
  from post_reach [OF r] obtain iss' where "session_reach (dx_ses T) (dx_loops T) cb p iss' (post_fifo u s)" by blast
  from data_ok_put [OF assms(1) this] e show ?thesis by (simp add: post_fifo_def split: if_splits)
qed

lemma fold_ask_same [simp]: "same_table g (fold (dm_askThrottle T q) ps h) = same_table g h"
  by (induction ps arbitrary: h) (simp_all add: dm_askThrottle_def)

lemma data_ok_leaf:
  assumes fuel: "kMaxNest < dx_loops T" and ok: "data_ok T us h"
    and H: "data_handlers T (Leaf s) (User u) h = Inr (r, h')"
  shows "data_ok T us h'"
proof -
  note same = data_ok_same [OF ok]
  have data: "data_ok T us h'" if "dm_with_data f env h = Inr (r, h')" "\<And>d g. f d h = Inr g \<Longrightarrow> data_ok T us g" for f env
    using that ok by (auto simp: dm_with_data_def bindE_eq_Inr split: option.splits)
  have quiet: "data_ok T us h'" if "dm_with_data f env h = Inr (r, h')" "\<And>d g. f d h = Inr g \<Longrightarrow> same_table h g" for f env
    using that(1) by (rule data) (rule same, rule that(2))
  show ?thesis
  proof (cases s)
    case NotReady
    with H same show ?thesis by (cases u) (auto simp: super_st_def om_available_def to_st_def bindE_eq_Inr split: if_splits)
  next
    case Ready
    show ?thesis
    proof (cases u)
      case (StartDataCall_Signal ps cb)
      show ?thesis
      proof (cases "map_of (dm_sessions h) (par_profileId ps)")
        case None
        with H Ready StartDataCall_Signal obtain x where x: "session_start (dx_loops T) (dx_ses T) cb
            (newSession (dm_slotId h) (par_profileId ps) (par_ipFamilyType ps) (par_operationType ps) (par_interfaceName ps)) = Inr x"
            "h' = h\<lparr>dm_sessions := AList.update (par_profileId ps) x (dm_sessions h)\<rparr>"
          by (auto simp: dm_startCall_def bindE_eq_Inr)
        have "hstate x = St Idle" using session_started [OF fuel x(1)] by blast
        with data_ok_put [OF ok session_reach.started [OF x(1)]] x(2) show ?thesis by simp
      next
        case (Some x)
        with H Ready StartDataCall_Signal show ?thesis by (auto simp: dm_startCall_def intro!: same)
      qed
    next
      case (StopDataCall_Signal ps cb)
      with H Ready same show ?thesis
        by (cases "map_of (dm_sessions h) (par_profileId ps)") (auto simp: dm_stopCall_def requestStop_def intro: data_ok_post [OF ok])
    next
      case (D_StateInd_Signal env)
      with H Ready ok show ?thesis
        by (auto simp: dm_stateInd_def deliverStateInd_def bindE_eq_Inr split: option.splits intro!: data data_ok_post)
    next
      case (D_ReadinessEvt_Signal env)
      with H Ready show ?thesis
        by (auto simp: om_readiness_def to_st_def bindE_eq_Inr split: option.splits if_splits intro!: same)
    next
      case (D_BridgeConnectivityChanged_Signal b)
      with H Ready show ?thesis by (auto simp: om_connectivity_def to_st_def split: if_splits intro!: same)
    next
      case (ThroughputInfoEvt_Signal env)
      with H Ready show ?thesis by (auto simp: dm_throughputEvt_def bindE_eq_Inr intro!: quiet)
    next
      case (HwAccelEvt_Signal env)
      with H Ready show ?thesis by (auto simp: dm_hwAccelEvt_def bindE_eq_Inr intro!: quiet)
    next
      case (ThrottleStatusEvt_Signal env)
      with H Ready show ?thesis by (auto simp: dm_throttleEvt_def bindE_eq_Inr intro!: quiet)
    next
      case (QosStatusEvt_Signal env)
      with H Ready show ?thesis by (auto simp: dm_qosEvt_def bindE_eq_Inr split: option.splits intro!: quiet)
    qed (use H Ready in \<open>auto simp: super_st_def dm_callList_def dm_getDefault_def dm_setDefault_def dm_throttled_def Let_def
        dm_setInterval_def dm_lastInfo_def split: if_splits intro!: same\<close>)
  qed
qed

lemma data_ok_border:
  assumes "data_ok T us h"
  shows "data_ok T us (op_en dm_tell t (op_ex dm_tell s h))"
proof -
  have en: "same_table g (op_en dm_tell t h) = same_table g h" for g h :: "'a data_manager"
    by (cases t) (auto simp: om_enterReady_def Let_def split: prod.splits)
  have ex: "same_table g (op_ex dm_tell s h) = same_table g h" for g h :: "'a data_manager" by (cases s) simp_all
  show ?thesis by (rule data_ok_same [OF assms]) (simp add: en ex)
qed

lemma data_ok_operating:
  assumes ok: "data_ok T [u] h" and H: "Operating_St T (User u) h = Inr (r, h')"
  shows "data_ok T [] h'"
proof (cases u)
  case (SessionFinished_Signal p)
  with H have er: "dm_erase T p h = Inr h'" by (auto simp: bindE_eq_Inr)
  show ?thesis
  proof (cases "map_of (dm_sessions h) p")
    case None
    with er have "h' = h" by (simp add: dm_erase_def)
    with ok None SessionFinished_Signal show ?thesis unfolding data_ok_def by fastforce
  next
    case (Some s)
    let ?h = "h\<lparr>dm_sessions := AList.delete p (dm_sessions h)\<rparr>"
    from er Some obtain s' where h': "h' = om_emit (Om_Answered (Session_Gone s')) (relay_new s s' ?h)"
      by (auto simp: dm_erase_def bindE_eq_Inr)
    have "data_ok T [] ?h" using ok SessionFinished_Signal by (auto simp: data_ok_def delete_conv' distinct_delete split: if_splits)
    from data_ok_same [OF this, of h'] show ?thesis by (simp add: h' same_table_relay)
  qed
qed (use H ok in \<open>auto simp: super_st_def data_ok_def\<close>)

section \<open>Reachable states\<close>

definition data_sys :: "'j data_ext \<Rightarrow> 'j data_manager \<Rightarrow> bool" where
  "data_sys T h \<longleftrightarrow> data_ok T [] h \<and> (\<exists>s. hstate h = St (Leaf s))"

lemma data_ok_more: "data_ok T [] h \<Longrightarrow> data_ok T us h"
  unfolding data_ok_def by auto

lemma data_ok_used: "\<forall>p. u \<noteq> SessionFinished_Signal p \<Longrightarrow> data_ok T [u] h \<Longrightarrow> data_ok T [] h"
  unfolding data_ok_def by auto

lemma data_sys_work:
  assumes fuel: "kMaxNest < dx_loops T" and sys: "data_sys T h"
    and run: "run_step (dx_loops T) (data_handlers T) h = Inr (res, h')"
  shows "data_sys T h'"
proof (cases "ao_q h")
  case Nil
  with run sys show ?thesis by (simp add: run_step_def ao_pop_def)
next
  case (Cons u us)
  from sys obtain s where s: "hstate h = St (Leaf s)" and ok: "data_ok T [] h" by (auto simp: data_sys_def)
  let ?h = "h\<lparr>ao_q := us\<rparr>"
  from Cons run have dis: "dispatch (dx_loops T) (data_handlers T) (User u) ?h = Inr h'"
    by (auto simp: run_step_def ao_pop_def bindE_eq_Inr)
  have P: "data_ok T [u] ?h" using ok Cons unfolding data_ok_def by auto
  have cur: "hstate ?h = St (Leaf s)" using s by simp
  have "data_ok T [] h' \<and> hstate h' = St (Leaf (track (data_up T) (\<lambda>u. data_withdrawn T u \<noteq> None) u s))"
  proof (rule dmgr.dispatch_outcome [where P = "data_ok T [u]" and Q = "data_ok T []" and R = "data_ok T [u]",
        OF fuel cur dis P data_ok_erase data_ok_erase data_ok_erase])
    fix g r h1
    assume g: "data_ok T [u] g" and H: "data_handlers T (Leaf s) (User u) g = Inr (r, h1)"
    have ok1: "data_ok T [u] h1" by (rule data_ok_leaf [OF fuel g H])
    have fin: "(\<forall>p. u \<noteq> SessionFinished_Signal p) \<or> r = UNHANDLED \<and> track (data_up T) (\<lambda>u. data_withdrawn T u \<noteq> None) u s = s"
      using H by (cases s; cases u) (auto simp: track_def)
    then show "if track (data_up T) (\<lambda>u. data_withdrawn T u \<noteq> None) u s \<noteq> s
      then data_ok T [] (op_en dm_tell (track (data_up T) (\<lambda>u. data_withdrawn T u \<noteq> None) u s) (op_ex dm_tell s h1))
      else if r = TO_SUPER \<or> r = UNHANDLED then data_ok T [u] h1 else data_ok T [] h1"
    proof
      assume "\<forall>p. u \<noteq> SessionFinished_Signal p"
      then have "data_ok T [] h1" using ok1 data_ok_used by blast
      then show ?thesis using ok1 data_ok_border [of T "[]" h1] by simp
    qed (use ok1 in simp)
  next
    fix g r h2
    assume "data_ok T [u] g" "data_handlers T Operating (User u) g = Inr (r, h2)"
    then show "data_ok T [] h2" using data_ok_operating by simp
  qed
  then show ?thesis by (auto simp: data_sys_def)
qed

lemma om_emit_state [simp]: "hstate (om_emit x h) = hstate h" "hstate (om_answer f cb g) = hstate g"
  by (simp_all add: om_emit_def om_answer_def split: option.splits)

lemma response_same:
  assumes "data_response J k rsp h = Inr h'"
  shows "same_table h h' \<and> hstate h' = hstate h"
proof (cases k)
  case (K_Throttle q)
  with assms show ?thesis by (auto simp: throttle_response_def Let_def bindE_eq_Inr split: if_splits)
qed (use assms in \<open>auto simp: bindE_eq_Inr split: option.splits if_splits\<close>)

lemma data_sys_session:
  assumes fuel: "kMaxNest < dx_loops T" and sys: "data_sys T h" and s: "map_of (dm_sessions h) p = Some s"
    and st: "session_step (dx_ses T) (dx_loops T) new s s'"
  shows "data_sys T (relay_new s s' (h\<lparr>dm_sessions := AList.update p s' (dm_sessions h)\<rparr>))"
proof -
  let ?h = "h\<lparr>dm_sessions := AList.update p s' (dm_sessions h)\<rparr>"
  let ?g = "relay_new s s' ?h"
  have ok: "data_ok T [] h" using sys by (simp add: data_sys_def)
  from data_okD(1) [OF ok s] obtain cb iss where r: "session_reach (dx_ses T) (dx_loops T) cb p iss s" by blast
  note ses = session_sys_reach [OF r fuel]
  have rel: "same_table ?h ?g" by (rule same_table_relay)
  have ended: "SessionFinished_Signal p \<in> set (ao_q ?g)" if e: "hstate s' = St Terminal" "ao_running h"
  proof (cases "hstate s = St Terminal")
    case True
    with data_okD(2) [OF ok s] e have "SessionFinished_Signal p \<in> set (ao_q h)" by simp
    with rel show ?thesis by (auto simp: same_table_def)
  next
    case False
    from relay_posts_end [OF session_ends_told [OF fuel ses st False e(1)], of ?h] e(2) show ?thesis by simp
  qed
  have "data_ok T [] ?g" unfolding data_ok_def
  proof (intro conjI allI impI)
    show "distinct (map fst (dm_sessions ?g))"
      using ok rel by (simp add: data_ok_def same_table_def distinct_update)
    fix q x assume x: "map_of (dm_sessions ?g) q = Some x"
    then have q: "if q = p then x = s' else map_of (dm_sessions h) q = Some x"
      using rel by (auto simp: same_table_def update_conv' split: if_splits)
    show "\<exists>cb iss. session_reach (dx_ses T) (dx_loops T) cb q iss x"
      using q session_reach.step [OF r st] data_okD(1) [OF ok, of q x] by (auto split: if_splits)
    assume "hstate x = St Terminal \<and> ao_running ?g"
    then show "SessionFinished_Signal q \<in> set [] \<union> set (ao_q ?g)"
      using q ended data_okD(2) [OF ok, of q x] rel by (auto simp: same_table_def split: if_splits)
  qed
  moreover have "hstate ?g = hstate h"
  proof -
    have "hstate (fold session_relay xs k) = hstate k" for xs and k :: "'a data_manager"
    proof (induction xs arbitrary: k)
      case (Cons x xs)
      then show ?case by (cases x) (simp_all add: broadcastDataCallInfoChanged_def dm_broadcastToListeners_def om_notify_def
          om_emit_def post_fifo_def)
    qed simp
    then show ?thesis by (simp add: relay_new_def)
  qed
  ultimately show ?thesis using sys by (auto simp: data_sys_def)
qed

lemma data_sys_step:
  assumes fuel: "kMaxNest < dx_loops T" and sys: "data_sys T h" and st: "data_step T h h'"
  shows "data_sys T h'"
  using st
proof cases
  case (post u)
  moreover have "hstate (post_fifo u h) = hstate h" by (simp add: post_fifo_def)
  ultimately show ?thesis using sys data_ok_same [OF _ same_table_post [of h u]] by (auto simp: data_sys_def)
next
  case (work res)
  with fuel sys show ?thesis by (rule data_sys_work)
next
  case (session p s new s')
  with fuel sys show ?thesis using data_sys_session by simp
next
  case (response k rsp)
  with sys response_same [of "dx_json T" k rsp h h'] data_ok_same show ?thesis by (auto simp: data_sys_def)
qed (use sys in \<open>auto simp: data_sys_def data_ok_def om_addInitCallback_def\<close>)

lemma data_sys_start:
  assumes "kMaxNest < dx_loops T" "dm_start T (newDataManager slot cb) = Inr h"
  shows "data_sys T h"
proof -
  let ?h = "newDataManager slot cb\<lparr>ao_inst := True\<rparr> :: 'a data_manager"
  have "\<not> ao_running ?h" by (simp add: newDataManager_def)
  from dmgr.op_start [OF assms(1) this, of T NotReady] obtain g where
    g: "start_at (dx_loops T) (data_handlers T) (St (Leaf NotReady)) ?h = Inr g" "hstate g = St (Leaf NotReady)"
      "erase g = erase (?h\<lparr>trace_fn := True, probe_fn := True, hstate := Top_St, ao_running := True\<rparr>)"
    by (auto simp: newDataManager_def)
  from arg_cong [OF g(3), of dm_sessions] have none: "dm_sessions g = []" by (simp add: erase_def newDataManager_def)
  from assms(2) g(1) have h: "h = om_subscribe (dm_topics T) (dx_token T) g" by (simp add: dm_start_def newDataManager_def)
  have "dm_sessions h = [] \<and> hstate h = hstate g"
  proof -
    have "dm_sessions (fold (\<lambda>(t, sc). om_emit (Om_Subscribed t sc)) ts k) = dm_sessions k \<and>
        hstate (fold (\<lambda>(t, sc). om_emit (Om_Subscribed t sc)) ts k) = hstate k" for ts and k :: "'a data_manager"
      by (induction ts arbitrary: k) (auto simp: om_emit_def om_do_def)
    from this [of "dm_topics T" g] none show ?thesis
      by (simp add: h om_subscribe_def) (simp add: om_emit_def om_do_def)
  qed
  with g(2) show ?thesis by (simp add: data_sys_def data_ok_def)
qed

lemma data_sys_reach: "data_reach T h \<Longrightarrow> kMaxNest < dx_loops T \<Longrightarrow> data_sys T h"
proof (induction rule: data_reach.induct)
  case (started slot cb h)
  then show ?case using data_sys_start by blast
next
  case (step h h')
  then show ?case using data_sys_step by blast
qed

end
