(* ===== verification/Data_Connection_Props.thy ===== *)
theory Data_Connection_Props
  imports Data_Connection_Books
begin

text \<open>
  What a client of the data connection manager can rely on: the table of sessions, the answers to start
  and stop requests, the masks of listeners, the joined throttle query; and how a late end of a session
  can take a new session of the same profile with it.
\<close>

section \<open>New sessions\<close>

text \<open>A session that has just been started.\<close>

definition fresh_session :: "nat option \<Rightarrow> int \<Rightarrow> 'j data_session \<Rightarrow> bool" where
  "fresh_session cb p s \<longleftrightarrow> hstate s = St Idle \<and> ao_q s = [Ses_Start_Signal] \<and> ao_running s \<and> ds_deferred s = [] \<and>
     ds_startCb s = cb \<and> ds_profileId s = p \<and> ds_out s = []"

lemma session_start_fresh:
  assumes "kMaxNest < n"
  obtains s where "session_start n X cb (newSession slot p fam ty name) = Inr s" "fresh_session cb p s"
proof -
  have "Idle \<noteq> Terminal" by simp
  note ini = ses.init_refines [OF assms this settle_session]
  let ?h = "newSession slot p fam ty name\<lparr>ds_startCb := cb, ao_inst := True\<rparr> :: 'a data_session"
  obtain g where g: "start_at n (session_handlers X) (St Idle) ?h = Inr g" "hstate g = St Idle"
      "like g (?h\<lparr>ao_running := True, trace_fn := True, probe_fn := True\<rparr>)"
    by (auto simp: start_at_def newSession_def ini lin_session like_def erase_def trace_def)
  have sel: "f g = f (?h\<lparr>ao_running := True, trace_fn := True, probe_fn := True\<rparr>)" if "\<And>k. f (erase k) = f k"
    for f :: "'a data_session \<Rightarrow> 'b" using that g(3) unfolding like_def by metis
  have "ds_startCb g = cb" "ds_profileId g = p" by (subst sel; simp add: erase_def newSession_def)+
  with like_session [OF g(3)] g(2) have "fresh_session cb p (post_fifo Ses_Start_Signal g)"
    by (simp add: fresh_session_def post_fifo_def newSession_def ds_out_def)
  then show thesis using that [of "post_fifo Ses_Start_Signal g"] g(1) by (simp add: session_start_def)
qed

section \<open>Answers to clients\<close>

fun call_answers :: "'j data_effect list \<Rightarrow> (nat \<times> data_call option \<times> error_code) list" where
  "call_answers [] = []"
| "call_answers (Om_Answered (Call_Answered cb c er) # xs) = (cb, c, er) # call_answers xs"
| "call_answers (_ # xs) = call_answers xs"

lemma call_answers_append [simp]: "call_answers (xs @ ys) = call_answers xs @ call_answers ys"
  by (induction xs rule: call_answers.induct) simp_all

definition dm_out :: "'j data_manager \<Rightarrow> 'j data_effect list" where
  "dm_out h = io_out (om_io h)"

lemma dm_out_simps [simp]:
  "dm_out (om_emit x h) = dm_out h @ [x]" "dm_out (om_answer f cb h) = dm_out h @ map (\<lambda>c. Om_Answered (f c)) (opt_list cb)"
  "dm_out (h\<lparr>dm_sessions := a\<rparr>) = dm_out h" "dm_out (h\<lparr>dm_queries := b\<rparr>) = dm_out h" "dm_out (erase h) = dm_out h"
  "dm_out (h\<lparr>htemp := x'\<rparr>) = dm_out h"
  by (simp_all add: dm_out_def om_emit_def om_answer_def om_do_def erase_def split: option.splits)

text \<open>What a start request does to the table and to the answers.\<close>

definition start_outcome :: "call_params \<Rightarrow> nat option \<Rightarrow> 'j data_manager \<Rightarrow> 'j data_manager \<Rightarrow> bool" where
  "start_outcome ps cb h h' \<longleftrightarrow>
     (case map_of (dm_sessions h) (par_profileId ps) of
        Some s \<Rightarrow> dm_sessions h' = dm_sessions h \<and>
          call_answers (dm_out h') = call_answers (dm_out h) @
            map (\<lambda>c. if dc_status (ds_call s) = NET_CONNECTED then (c, Some (ds_call s), EC_SUCCESS)
                     else (c, None, EC_OP_IN_PROGRESS)) (opt_list cb)
      | None \<Rightarrow> call_answers (dm_out h') = call_answers (dm_out h) \<and>
          (\<exists>s. fresh_session cb (par_profileId ps) s \<and> dm_sessions h' = AList.update (par_profileId ps) s (dm_sessions h)))"

lemma dm_startCall_outcome:
  assumes "kMaxNest < dx_loops T"
  shows "\<exists>h'. dm_startCall T ps cb h = Inr h' \<and> start_outcome ps cb h h'"
proof (cases "map_of (dm_sessions h) (par_profileId ps)")
  case None
  obtain s where "session_start (dx_loops T) (dx_ses T) cb (newSession (dm_slotId h) (par_profileId ps) (par_ipFamilyType ps)
      (par_operationType ps) (par_interfaceName ps)) = Inr s" "fresh_session cb (par_profileId ps) s"
    using session_start_fresh [OF assms] by blast
  with None show ?thesis by (auto simp: dm_startCall_def start_outcome_def)
next
  case (Some s)
  have ans: "call_answers (map (\<lambda>c. Om_Answered (Call_Answered c k er)) cs) = map (\<lambda>c. (c, k, er)) cs" for k er cs
    by (induction cs) simp_all
  from Some show ?thesis
    by (auto simp: dm_startCall_def start_outcome_def ans) (simp_all add: om_answer_def om_emit_def om_do_def split: option.splits)
qed

lemma start_outcome_erase: "start_outcome ps cb (erase h) h' = start_outcome ps cb h h'"
  "start_outcome ps cb h (erase h') = start_outcome ps cb h h'"
proof -
  have [simp]: "dm_sessions (erase k) = dm_sessions k" for k :: "'a data_manager" by (simp add: erase_def)
  show "start_outcome ps cb (erase h) h' = start_outcome ps cb h h'" "start_outcome ps cb h (erase h') = start_outcome ps cb h h'"
    by (simp_all add: start_outcome_def split: option.splits)
qed

lemma ready_start:
  assumes "kMaxNest < dx_loops T" "hstate h = St (Leaf Ready)"
  shows "\<exists>h'. dispatch (dx_loops T) (data_handlers T) (User (StartDataCall_Signal ps cb)) h = Inr h' \<and>
    hstate h' = St (Leaf Ready) \<and> start_outcome ps cb h h'"
proof -
  have total: "\<exists>r h'. data_handlers T s (User (StartDataCall_Signal ps cb)) h = Inr (r, h')" for s h
    using dm_startCall_outcome [OF assms(1), of ps cb h] by (cases s rule: ostate_cases) (auto simp: super_st_def)
  from dmgr.dispatch_total [OF assms total] obtain h' where
    dis: "dispatch (dx_loops T) (data_handlers T) (User (StartDataCall_Signal ps cb)) h = Inr h'" by blast
  have tr: "track (data_up T) (\<lambda>u. data_withdrawn T u \<noteq> None) (StartDataCall_Signal ps cb) Ready = Ready" by (simp add: track_def)
  have "start_outcome ps cb h h' \<and> hstate h' = St (Leaf (track (data_up T) (\<lambda>u. data_withdrawn T u \<noteq> None) (StartDataCall_Signal ps cb) Ready))"
  proof (rule dmgr.dispatch_outcome [where P = "\<lambda>g. \<forall>k. start_outcome ps cb g k = start_outcome ps cb h k"
        and Q = "start_outcome ps cb h" and R = "\<lambda>_. False", OF assms dis])
    fix g r k
    assume "\<forall>k. start_outcome ps cb g k = start_outcome ps cb h k" "data_handlers T (Leaf Ready) (User (StartDataCall_Signal ps cb)) g = Inr (r, k)"
    then show "if track (data_up T) (\<lambda>u. data_withdrawn T u \<noteq> None) (StartDataCall_Signal ps cb) Ready \<noteq> Ready
      then start_outcome ps cb h (op_en dm_tell (track (data_up T) (\<lambda>u. data_withdrawn T u \<noteq> None) (StartDataCall_Signal ps cb) Ready) (op_ex dm_tell Ready k))
      else if r = TO_SUPER \<or> r = UNHANDLED then False else start_outcome ps cb h k"
      using dm_startCall_outcome [OF assms(1), of ps cb g] unfolding tr by auto
  qed (simp_all add: start_outcome_erase)
  with dis tr show ?thesis by auto
qed

text \<open>A request to start a data call, handled while the manager is ready. If a session of the profile
  exists, its table is untouched and the client is answered at once: with success and the call when it
  is connected, else that an operation is in progress. If there is none, a new session is filed under the
  profile, which owns the client's callback and has the start before it; nobody is answered yet. The
  manager always returns and stays ready.\<close>

theorem start_call_by_table:
  assumes "kMaxNest < dx_loops T" "hstate h = St (Leaf Ready)"
  shows "\<exists>h'. dispatch (dx_loops T) (data_handlers T) (User (StartDataCall_Signal ps cb)) h = Inr h' \<and>
    hstate h' = St (Leaf Ready) \<and> start_outcome ps cb h h'"
  using assms by (rule ready_start)

section \<open>Listeners\<close>

definition receivers :: "indication \<Rightarrow> 'j data_manager \<Rightarrow> nat list" where
  "receivers i h = map fst (filter (\<lambda>(l, m). bit m (ind_bit i) \<and> l \<in> set (om_live h)) (dm_listeners h))"

lemma without_receivers:
  "set (map fst (filter (\<lambda>(x, k). bit k (ind_bit i) \<and> x \<in> set live) (dm_without l m live ls))) =
   set (map fst (filter (\<lambda>(x, k). bit k (ind_bit i) \<and> x \<in> set live) ls)) - (if bit m (ind_bit i) then {l} else {})"
proof (induction ls)
  case (Cons e ls)
  obtain x k where e: "e = (x, k)" by (cases e)
  have b: "bit (k AND NOT m) (ind_bit i) \<longleftrightarrow> bit k (ind_bit i) \<and> \<not> bit m (ind_bit i)"
    by (cases i) (auto simp: bit_and_iff bit_not_iff)
  have z: "\<not> (bit k (ind_bit i) \<and> \<not> bit m (ind_bit i))" if "k AND NOT m = 0" using b that by simp
  consider "x \<notin> set live" | "x \<in> set live" "x \<noteq> l" | "x \<in> set live" "x = l" "k AND NOT m = 0"
    | "x \<in> set live" "x = l" "k AND NOT m \<noteq> 0" by blast
  then show ?case
  proof cases
    case 3
    from Cons.IH z [OF 3(3)] 3 e show ?thesis by (cases "bit m (ind_bit i)") (auto simp: Let_def)
  next
    case 4
    from Cons.IH b 4 e show ?thesis by (cases "bit m (ind_bit i)") (auto simp: Let_def)
  qed (use Cons.IH e in auto)
qed simp

text \<open>Deregistering a listener for some indications affects only these: afterwards each kind of
  indication reaches exactly the live listeners that it reached before, except the deregistered listener
  when the kind is among those given up.\<close>

theorem deregister_masks:
  "set (receivers i (snd (dm_deregisterListener l m h))) = set (receivers i h) - (if bit m (ind_bit i) then {l} else {})"
  using without_receivers [of i "om_live h" l m "dm_listeners h"] by (simp add: receivers_def dm_deregisterListener_def)

section \<open>The throttle query\<close>

text \<open>What one response contributes, and the responses in the order in which they arrive.\<close>

definition throttle_part :: "'j json_lib \<Rightarrow> 'j envelope option \<Rightarrow> throttle_info list result" where
  "throttle_part J rsp = (case good_data rsp of None \<Rightarrow> Inr [] | Some d \<Rightarrow> bindE (decodeThrottleInfo J d) (\<lambda>i. Inr [i]))"

fun throttle_all :: "'j json_lib \<Rightarrow> nat \<Rightarrow> 'j envelope option list \<Rightarrow> 'j data_manager \<Rightarrow> 'j data_manager result" where
  "throttle_all J q [] h = Inr h"
| "throttle_all J q (r # rs) h = bindE (throttle_response J q r h) (throttle_all J q rs)"

lemma throttle_response_step:
  assumes "throttle_part J r = Inr xs" "q < length (dm_queries h)" "dm_queries h ! q = \<lparr>tq_results = res, tq_remaining = n, tq_cb = cb\<rparr>"
  obtains h' where "throttle_response J q r h = Inr h'" "q < length (dm_queries h')"
    "dm_queries h' ! q = \<lparr>tq_results = res @ xs, tq_remaining = n - 1, tq_cb = cb\<rparr>"
    "dm_out h' = dm_out h @ (if n = 1 then map (\<lambda>c. Om_Answered (Throttle_Answered c (res @ xs) EC_SUCCESS)) (opt_list cb) else [])"
proof -
  have q: "dm_queries (om_answer f b k) = dm_queries k" for f b and k :: "'a data_manager"
    by (simp add: om_answer_def om_emit_def om_do_def split: option.splits)
  have "(case good_data r of None \<Rightarrow> Inr (dm_queries h ! q)
       | Some d \<Rightarrow> bindE (decodeThrottleInfo J d) (\<lambda>i. Inr ((dm_queries h ! q)\<lparr>tq_results := tq_results (dm_queries h ! q) @ [i]\<rparr>))) =
      Inr \<lparr>tq_results = res @ xs, tq_remaining = n, tq_cb = cb\<rparr>"
    using assms(1,3) by (auto simp: throttle_part_def bindE_eq_Inr split: option.splits)
  then have "throttle_response J q r h =
      (let k = h\<lparr>dm_queries := (dm_queries h)[q := \<lparr>tq_results = res @ xs, tq_remaining = n - 1, tq_cb = cb\<rparr>]\<rparr> in
       Inr (if n = 1 then om_answer (\<lambda>c. Throttle_Answered c (res @ xs) EC_SUCCESS) cb k else k))"
    by (simp add: throttle_response_def Let_def)
  with assms(2) show thesis by (intro that [of "projr (throttle_response J q r h)"]) (simp_all add: Let_def q)
qed

lemma throttle_all_answers:
  assumes "map_result (throttle_part J) rs = Inr parts" "q < length (dm_queries h)"
    and "dm_queries h ! q = \<lparr>tq_results = res, tq_remaining = int (length rs), tq_cb = cb\<rparr>" "rs \<noteq> []"
  shows "\<exists>h'. throttle_all J q rs h = Inr h' \<and>
    dm_out h' = dm_out h @ map (\<lambda>c. Om_Answered (Throttle_Answered c (res @ concat parts) EC_SUCCESS)) (opt_list cb)"
  using assms
proof (induction rs arbitrary: h res parts)
  case (Cons r rs)
  from Cons.prems(1) obtain xs parts' where parts: "throttle_part J r = Inr xs" "map_result (throttle_part J) rs = Inr parts'"
    "parts = xs # parts'" by (auto simp: bindE_eq_Inr)
  from throttle_response_step [OF parts(1) Cons.prems(2,3)] obtain h1 where h1: "throttle_response J q r h = Inr h1"
    "q < length (dm_queries h1)" "dm_queries h1 ! q = \<lparr>tq_results = res @ xs, tq_remaining = int (length rs), tq_cb = cb\<rparr>"
    "dm_out h1 = dm_out h @ (if rs = [] then map (\<lambda>c. Om_Answered (Throttle_Answered c (res @ xs) EC_SUCCESS)) (opt_list cb) else [])"
    by auto
  show ?case
  proof (cases "rs = []")
    case True
    with h1 parts show ?thesis by simp
  next
    case False
    from Cons.IH [OF parts(2) h1(2,3) False] h1 False parts(3) show ?thesis by auto
  qed
qed simp

lemma fold_ask_out:
  "\<exists>xs. dm_out (fold (dm_askThrottle T q) ps h) = dm_out h @ xs \<and> length xs = length ps \<and>
     list_all (\<lambda>x. \<exists>env. x = Om_Request (request_throttle_status_req T) ''data.request_throttle_status.rsp'' env (K_Throttle q) kNetRpcTimeout) xs \<and>
     dm_queries (fold (dm_askThrottle T q) ps h) = dm_queries h"
proof (induction ps arbitrary: h)
  case (Cons p ps)
  let ?h = "dm_askThrottle T q p h"
  obtain env where "dm_out ?h = dm_out h @ [Om_Request (request_throttle_status_req T) ''data.request_throttle_status.rsp'' env (K_Throttle q) kNetRpcTimeout]"
      "dm_queries ?h = dm_queries h"
    by (simp add: dm_askThrottle_def dm_request_def om_request_def dm_out_def case_prod_unfold) (simp add: om_do_def)
  with Cons.IH [of ?h] show ?case by auto
qed simp

text \<open>C24: a query for throttled access points sends one request for each session of the table and answers
  nothing yet; however the answers to these come out (each a report, an error or nothing) and in whatever
  order they arrive, the client is called exactly once, when the last one is in, with the reports that
  were received, in their order of arrival.\<close>

theorem throttle_query_joined:
  fixes h :: "'j data_manager" and c :: nat
  assumes "dm_sessions h \<noteq> []" "length rs = length (dm_sessions h)" "map_result (throttle_part (dx_json T)) rs = Inr parts"
  defines "q \<equiv> length (dm_queries h)" and "h1 \<equiv> dm_throttled T (Some c) h"
  shows "\<exists>xs h'. dm_out h1 = dm_out h @ xs \<and> length xs = length (dm_sessions h) \<and>
    list_all (\<lambda>x. \<exists>env. x = Om_Request (request_throttle_status_req T) ''data.request_throttle_status.rsp'' env (K_Throttle q) kNetRpcTimeout) xs \<and>
    throttle_all (dx_json T) q rs h1 = Inr h' \<and> dm_out h' = dm_out h1 @ [Om_Answered (Throttle_Answered c (concat parts) EC_SUCCESS)]"
proof -
  let ?tq = "\<lparr>tq_results = [], tq_remaining = int (length (dm_sessions h)), tq_cb = Some c\<rparr>"
  have h1: "h1 = fold (dm_askThrottle T q) (map fst (dm_sessions h)) (h\<lparr>dm_queries := dm_queries h @ [?tq]\<rparr>)"
    using assms(1) by (simp add: h1_def dm_throttled_def q_def Let_def)
  from fold_ask_out [of T q "map fst (dm_sessions h)" "h\<lparr>dm_queries := dm_queries h @ [?tq]\<rparr>"] obtain xs where
    xs: "dm_out h1 = dm_out h @ xs" "length xs = length (dm_sessions h)" "dm_queries h1 = dm_queries h @ [?tq]"
      "list_all (\<lambda>x. \<exists>env. x = Om_Request (request_throttle_status_req T) ''data.request_throttle_status.rsp'' env (K_Throttle q) kNetRpcTimeout) xs"
    unfolding h1 [symmetric] by auto
  have "q < length (dm_queries h1)" "dm_queries h1 ! q = \<lparr>tq_results = [], tq_remaining = int (length rs), tq_cb = Some c\<rparr>"
    "rs \<noteq> []" using xs(3) assms(1,2) by (auto simp: q_def)
  from throttle_all_answers [OF assms(3) this] xs show ?thesis by auto
qed

section \<open>A late end\<close>

lemma fresh_destroyed:
  assumes fuel: "kMaxNest < n" and fresh: "fresh_session cb p s"
  obtains s' env where "session_destroy (2 * length (ao_q s) + length (ds_deferred s)) n X s = Inr s'"
    "hstate s' = St SendingStartReq" "ds_startCb s' = cb"
    "ds_out s' = [Ses_Request (start_data_call_req X) ''data.start_data_call.rsp'' env K_Start_Call kDataRpcTimeout]"
proof -
  let ?s = "s\<lparr>ao_running := False\<rparr>"
  note f = fresh [unfolded fresh_session_def]
  have st: "hstate ?s = St Idle" "leaf_state Idle" "ao_q ?s = [Ses_Start_Signal]"
    and typed: "\<forall>e \<in> set (ao_q ?s) \<union> set (ds_deferred ?s). session_typed (ss_json X) e"
    using f by (simp_all add: leaf_state_def)
  from session_progress [OF fuel st typed] obtain s1 where run: "run_step n (session_handlers X) ?s = Inr (Dispatched, s1)" by blast
  from fuel st(1,2) run obtain g l g' where t: "like g (?s\<lparr>ao_q := []\<rparr>)" "ses_does X Idle Ses_Start_Signal g l g'" "hstate s1 = St l" "like s1 g'"
    by (cases rule: session_work) (use st(3) in auto)
  from t(2) have g': "l = SendingStartReq" "g' = enterSendingStartReq X g" by (cases rule: ses_does.cases; simp)+
  have sel: "fld a = fld b" if "like a b" "\<And>k. fld (erase k) = fld k" for a b and fld :: "'a data_session \<Rightarrow> 'b"
    using that unfolding like_def by metis
  have cb: "ds_startCb s1 = cb"
    using sel [OF t(4), of ds_startCb] sel [OF t(1), of ds_startCb] f by (simp add: erase_def g' session_closed)
  have q: "ao_q s1 = []" using like_session(5) [OF t(4)] like_session(5) [OF t(1)] by (simp add: g' session_closed)
  obtain env where out: "ds_out s1 = [Ses_Request (start_data_call_req X) ''data.start_data_call.rsp'' env K_Start_Call kDataRpcTimeout]"
    using like_session(2) [OF t(4)] like_session(2) [OF t(1)] f by (simp add: g' session_closed ds_out_def)
  have run2: "run 2 n (session_handlers X) ?s = Inr s1"
  proof -
    have "run_step n (session_handlers X) s1 = Inr (if ao_running s1 then Waiting else Exited, s1)" by (simp add: run_step_def ao_pop_def q)
    then show ?thesis using run by (simp add: numeral_2_eq_2)
  qed
  let ?s' = "exitWaitingForUp (exitWaitingForDown (s1\<lparr>ao_q := []\<rparr>))"
  have "session_destroy (2 * length (ao_q s) + length (ds_deferred s)) n X s = Inr ?s'"
    using run2 f by (simp add: session_destroy_def stop_def Let_def)
  moreover have "hstate ?s' = St SendingStartReq" "ds_startCb ?s' = cb" "ds_out ?s' = ds_out s1"
    using t(3) g'(1) cb by (simp_all add: exitWaitingForUp_def exitWaitingForDown_def case_prod_unfold ds_out_def)
  ultimately show thesis using that out by simp
qed

lemma erase_fresh:
  assumes fuel: "kMaxNest < dx_loops T" and s: "map_of (dm_sessions h) p = Some s" "fresh_session cb p s"
  obtains h' s' where "dm_erase T p h = Inr h'" "dm_sessions h' = AList.delete p (dm_sessions h)"
    "dm_out h' = dm_out h @ [Om_Answered (Session_Gone s')]" "ds_startCb s' = cb" "start_calls (ds_out s') = []"
proof -
  from fresh_destroyed [OF fuel s(2)] obtain s' env where
    d: "session_destroy (2 * length (ao_q s) + length (ds_deferred s)) (dx_loops T) (dx_ses T) s = Inr s'" "ds_startCb s' = cb"
      "ds_out s' = [Ses_Request (start_data_call_req (dx_ses T)) ''data.start_data_call.rsp'' env K_Start_Call kDataRpcTimeout]" .
  have "ds_out s = []" using s(2) by (simp add: fresh_session_def)
  then have "relay_new s s' k = k" for k using d(3) by (simp add: relay_new_def)
  with s(1) d show thesis
    by (intro that [of "om_emit (Om_Answered (Session_Gone s')) (h\<lparr>dm_sessions := AList.delete p (dm_sessions h)\<rparr>)" s'])
      (simp_all add: dm_erase_def, simp add: om_emit_def om_do_def)
qed

definition dropped :: "int \<Rightarrow> nat option \<Rightarrow> 'j data_effect list \<Rightarrow> 'j data_manager \<Rightarrow> bool" where
  "dropped p cb xs h \<longleftrightarrow> map_of (dm_sessions h) p = None \<and>
     (\<exists>s'. dm_out h = xs @ [Om_Answered (Session_Gone s')] \<and> ds_startCb s' = cb \<and> start_calls (ds_out s') = [])"

lemma finish_drops_fresh:
  assumes fuel: "kMaxNest < dx_loops T" and cur: "hstate h = St (Leaf Ready)"
    and s: "map_of (dm_sessions h) p = Some s" "fresh_session cb p s"
  shows "\<exists>h'. dispatch (dx_loops T) (data_handlers T) (User (SessionFinished_Signal p)) h = Inr h' \<and> dropped p cb (dm_out h) h'"
proof -
  let ?P = "\<lambda>g. dm_sessions g = dm_sessions h \<and> dm_out g = dm_out h"
  have er: "?P (erase g) = ?P g" for g :: "'a data_manager" by (simp add: erase_def dm_out_def)
  have go: "\<exists>r k. data_handlers T Operating (User (SessionFinished_Signal p)) g = Inr (r, k) \<and> dropped p cb (dm_out h) k" if "?P g" for g
  proof -
    from that s(1) have "map_of (dm_sessions g) p = Some s" by simp
    from erase_fresh [OF fuel this s(2)] obtain k s' where k: "dm_erase T p g = Inr k" "dm_sessions k = AList.delete p (dm_sessions g)"
      "dm_out k = dm_out g @ [Om_Answered (Session_Gone s')]" "ds_startCb s' = cb" "start_calls (ds_out s') = []" .
    then have "dropped p cb (dm_out h) k" using that by (auto simp: dropped_def delete_conv')
    with k(1) show ?thesis by simp
  qed
  have leaf: "\<exists>r h1. data_handlers T (Leaf Ready) (User (SessionFinished_Signal p)) g = Inr (r, h1) \<and> (r = TO_SUPER \<or> r = UNHANDLED \<longrightarrow> ?P h1)"
    if "?P g" for g using that by simp
  have "\<exists>h'. dispatch (dx_loops T) (data_handlers T) (User (SessionFinished_Signal p)) h = Inr h'"
    by (rule dmgr.dispatch_returns [where P = ?P and R = ?P, OF fuel cur]) (use er leaf go in blast)+
  then obtain h' where dis: "dispatch (dx_loops T) (data_handlers T) (User (SessionFinished_Signal p)) h = Inr h'" by blast
  have Q: "dropped p cb xs (erase g) = dropped p cb xs g" for xs and g :: "'a data_manager"
    by (simp add: dropped_def erase_def dm_out_def)
  have "dropped p cb (dm_out h) h' \<and> hstate h' = St (Leaf (track (data_up T) (\<lambda>u. data_withdrawn T u \<noteq> None) (SessionFinished_Signal p) Ready))"
  proof (rule dmgr.dispatch_outcome [where P = ?P and R = ?P and Q = "dropped p cb (dm_out h)", OF fuel cur dis _ er er Q])
    fix g r k
    assume "?P g" "data_handlers T Operating (User (SessionFinished_Signal p)) g = Inr (r, k)"
    with go [of g] show "dropped p cb (dm_out h) k" by auto
  qed (simp_all add: track_def)
  with dis show ?thesis by blast
qed

text \<open>C25: the end of a session that is reported late takes a new session with it. When the manager, while
  ready and without a session of the profile, handles a request to start a call and then an end of that
  profile that was still queued (a session whose start fails posts its end twice), the new session is
  destroyed at once: the table has no session of the profile, the session is gone without having called
  the client's callback, and the manager has answered nobody.\<close>

theorem late_end_drops_session:
  assumes "kMaxNest < dx_loops T" "hstate h = St (Leaf Ready)" "map_of (dm_sessions h) (par_profileId ps) = None"
  shows "\<exists>h'. dispatch_all (dx_loops T) (data_handlers T) [StartDataCall_Signal ps cb, SessionFinished_Signal (par_profileId ps)] h = Inr h' \<and>
    map_of (dm_sessions h') (par_profileId ps) = None \<and> call_answers (dm_out h') = call_answers (dm_out h) \<and>
    (\<exists>xs s'. dm_out h' = xs @ [Om_Answered (Session_Gone s')] \<and> ds_startCb s' = cb \<and> start_calls (ds_out s') = [])"
proof -
  let ?p = "par_profileId ps"
  let ?h = "h\<lparr>ao_q := [SessionFinished_Signal ?p]\<rparr>"
  have "hstate ?h = St (Leaf Ready)" using assms(2) by simp
  from ready_start [OF assms(1) this, of ps cb] obtain h1 where
    h1: "dispatch (dx_loops T) (data_handlers T) (User (StartDataCall_Signal ps cb)) ?h = Inr h1" "hstate h1 = St (Leaf Ready)"
      "start_outcome ps cb ?h h1" by blast
  from h1(3) assms(3) obtain s where s: "fresh_session cb ?p s" "map_of (dm_sessions h1) ?p = Some s"
    "call_answers (dm_out h1) = call_answers (dm_out h)"
    by (auto simp: start_outcome_def update_conv' dm_out_def)
  have "hstate (h1\<lparr>ao_q := []\<rparr>) = St (Leaf Ready)" "map_of (dm_sessions (h1\<lparr>ao_q := []\<rparr>)) ?p = Some s" using h1(2) s(2) by simp_all
  from finish_drops_fresh [OF assms(1) this s(1)] obtain h' where
    h': "dispatch (dx_loops T) (data_handlers T) (User (SessionFinished_Signal ?p)) (h1\<lparr>ao_q := []\<rparr>) = Inr h'"
      "dropped ?p cb (dm_out h1) h'" by (auto simp: dm_out_def)
  with h1(1) s(3) show ?thesis by (auto simp: dropped_def)
qed

section \<open>The table of sessions\<close>

text \<open>C18: the manager and its sessions together, in every interleaving of clients, the peer, timers and all
  workers: every session in the table is in a state that a session for that profile reaches on its own
  (so all that holds of single sessions holds of those the manager runs), no profile has two of them, and
  while the manager runs, the end of every ended session that is still in the table is on its way in the
  manager's queue, so that no ended session is kept for good.\<close>

theorem data_sessions_sound:
  assumes "data_reach T h" "kMaxNest < dx_loops T"
  shows "distinct (map fst (dm_sessions h)) \<and>
    (\<forall>p s. map_of (dm_sessions h) p = Some s \<longrightarrow>
       (\<exists>cb iss. session_reach (dx_ses T) (dx_loops T) cb p iss s) \<and>
       (hstate s = St Terminal \<and> ao_running h \<longrightarrow> SessionFinished_Signal p \<in> set (ao_q h)))"
  using data_sys_reach [OF assms] unfolding data_sys_def data_ok_def by simp

section \<open>A run\<close>

text \<open>A manager that becomes ready and starts a call.\<close>

definition demo_dx :: "jtree data_ext" where
  "demo_dx = \<lparr>dx_ses = demo_ses_ext, subsys_ready_data_ind = ''r'', data_call_state_ind = ''c'', throughput_info_ind = ''i'',
     qos_status_ind = ''q'', hw_accel_state_ind = ''w'', throttle_status_ind = ''t'', get_default_profile_req = ''gd'',
     set_default_profile_req = ''sd'', request_throttle_status_req = ''rt'', set_throughput_interval_req = ''si'',
     request_throughput_info_req = ''ri'', dx_token = 1, dx_loops = 9\<rparr>"

definition demo_params :: call_params where
  "demo_params = \<lparr>par_profileId = 5, par_interfaceName = [], par_ipFamilyType = IPF_IPV4, par_operationType = DATA_LOCAL\<rparr>"

definition demo_up :: "jtree envelope" where
  "demo_up = fst (makeEventEnvelope 7 ''mpss'' (JObj [(''status'', JStr ''AVAILABLE'')]) 42)"

definition demo_dm0 :: "jtree data_manager" where
  "demo_dm0 = projr (dm_start demo_dx (newDataManager 1 None))"

definition demo_dm1 :: "jtree data_manager" where
  "demo_dm1 = snd (projr (run_step 9 (data_handlers demo_dx) (post_fifo (D_ReadinessEvt_Signal demo_up) demo_dm0)))"

definition demo_dm2 :: "jtree data_manager" where
  "demo_dm2 = snd (projr (run_step 9 (data_handlers demo_dx) (post_fifo (StartDataCall_Signal demo_params (Some 3)) demo_dm1)))"

lemma demo_dm_runs:
  "map_sum id (\<lambda>_. ()) (dm_start demo_dx (newDataManager 1 None)) = Inr ()"
  "map_sum id fst (run_step 9 (data_handlers demo_dx) (post_fifo (D_ReadinessEvt_Signal demo_up) demo_dm0)) = Inr Dispatched"
  "map_sum id fst (run_step 9 (data_handlers demo_dx) (post_fifo (StartDataCall_Signal demo_params (Some 3)) demo_dm1)) = Inr Dispatched"
  "hstate demo_dm1 = St (Leaf Ready)" "dm_sessions demo_dm1 = []" "map fst (dm_sessions demo_dm2) = [5]"
  by code_simp+

lemma demo_loops: "kMaxNest < dx_loops demo_dx" "dx_loops demo_dx = 9"
  by (simp_all add: demo_dx_def kMaxNest_def)

lemma demo_dm_reach: "data_reach demo_dx demo_dm2"
proof -
  have "dm_start demo_dx (newDataManager 1 None) = Inr demo_dm0"
    using demo_dm_runs(1) unfolding demo_dm0_def by (cases "dm_start demo_dx (newDataManager 1 None)") auto
  then have r0: "data_reach demo_dx demo_dm0" by (rule data_reach.started)
  have go: "data_reach demo_dx (snd (projr (run_step 9 (data_handlers demo_dx) (post_fifo u h))))"
    if "data_reach demo_dx h" "map_sum id fst (run_step 9 (data_handlers demo_dx) (post_fifo u h)) = Inr res" for u h res
  proof -
    have "data_reach demo_dx (post_fifo u h)" using that(1) data_step.post by (rule data_reach.step)
    moreover have "data_step demo_dx (post_fifo u h) (snd (projr (run_step 9 (data_handlers demo_dx) (post_fifo u h))))"
      by (rule data_step.work) (unfold demo_loops(2), rule Inr_fst [OF that(2)])
    ultimately show ?thesis by (rule data_reach.step)
  qed
  have "data_reach demo_dx demo_dm1" unfolding demo_dm1_def by (rule go [OF r0 demo_dm_runs(2)])
  then show ?thesis unfolding demo_dm2_def by (rule go [OF _ demo_dm_runs(3)])
qed

theorem data_sessions_sound_witness:
  "map fst (dm_sessions demo_dm2) = [5] \<and> distinct (map fst (dm_sessions demo_dm2)) \<and>
    (\<exists>cb iss. session_reach (dx_ses demo_dx) (dx_loops demo_dx) cb 5 iss (snd (hd (dm_sessions demo_dm2))))"
proof -
  from demo_dm_runs(6) have "map_of (dm_sessions demo_dm2) 5 = Some (snd (hd (dm_sessions demo_dm2)))"
    by (cases "dm_sessions demo_dm2") auto
  with data_sessions_sound [OF demo_dm_reach demo_loops(1)] demo_dm_runs(6) show ?thesis by blast
qed

theorem start_call_by_table_witness:
  "\<exists>h'. dispatch 9 (data_handlers demo_dx) (User (StartDataCall_Signal demo_params (Some 3))) demo_dm1 = Inr h' \<and>
    hstate h' = St (Leaf Ready) \<and> start_outcome demo_params (Some 3) demo_dm1 h'"
  using start_call_by_table [OF demo_loops(1) demo_dm_runs(4), of demo_params "Some 3"] by (simp only: demo_loops(2))

theorem throttle_query_joined_witness:
  "\<exists>xs h'. dm_out (dm_throttled demo_dx (Some 8) demo_dm2) = dm_out demo_dm2 @ xs \<and> length xs = 1 \<and>
    throttle_all (dx_json demo_dx) (length (dm_queries demo_dm2)) [None] (dm_throttled demo_dx (Some 8) demo_dm2) = Inr h' \<and>
    dm_out h' = dm_out (dm_throttled demo_dx (Some 8) demo_dm2) @ [Om_Answered (Throttle_Answered 8 [] EC_SUCCESS)]"
proof -
  have ne: "dm_sessions demo_dm2 \<noteq> []" "length [None :: jtree envelope option] = length (dm_sessions demo_dm2)"
    using arg_cong [OF demo_dm_runs(6), of length] by auto
  have "map_result (throttle_part (dx_json demo_dx)) [None] = Inr [[]]" by (simp add: throttle_part_def good_data_def)
  from throttle_query_joined [OF ne this, of 8] ne show ?thesis by auto
qed

theorem late_end_drops_session_witness:
  "\<exists>h'. dispatch_all 9 (data_handlers demo_dx) [StartDataCall_Signal demo_params (Some 3), SessionFinished_Signal 5] demo_dm1 = Inr h' \<and>
    map_of (dm_sessions h') 5 = None \<and> call_answers (dm_out h') = call_answers (dm_out demo_dm1) \<and>
    (\<exists>xs s'. dm_out h' = xs @ [Om_Answered (Session_Gone s')] \<and> ds_startCb s' = Some 3 \<and> start_calls (ds_out s') = [])"
proof -
  have p: "par_profileId demo_params = 5" by (simp add: demo_params_def)
  have "map_of (dm_sessions demo_dm1) (par_profileId demo_params) = None" by (simp add: demo_dm_runs(5))
  from late_end_drops_session [OF demo_loops(1) demo_dm_runs(4) this, of "Some 3"] show ?thesis by (simp only: demo_loops(2) p)
qed

end
