(* ===== verification/Net_Wire.thy ===== *)
theory Net_Wire
  imports Data_Call
begin

text \<open>
  The spelling of values in the messages of the network managers: \<open>component/net/WireEnums.hpp\<close>, and
  the members of JSON objects that the managers write and read.
\<close>

section \<open>Objects\<close>

text \<open>An object built member by member; a later value of a key replaces an earlier one.\<close>

definition j_members :: "'j json_lib \<Rightarrow> (string \<times> 'j) list \<Rightarrow> 'j" where
  "j_members J ms = fold (\<lambda>(k, v). j_set J k v) ms (j_object J)"

lemma j_members_object: "json_ok J \<Longrightarrow> j_is_object J (j_members J ms)"
proof -
  assume J: "json_ok J"
  have "j_is_object J o1 \<Longrightarrow> j_is_object J (fold (\<lambda>(k, v). j_set J k v) ms o1)" for o1
    using J by (induction ms arbitrary: o1) (auto simp: json_okD)
  with J show ?thesis by (simp add: j_members_def json_okD)
qed

lemma j_members_find: "json_ok J \<Longrightarrow> j_find J (j_members J ms) k = map_of (rev ms) k"
proof -
  assume J: "json_ok J"
  have "j_is_object J o1 \<Longrightarrow> j_find J (fold (\<lambda>(k, v). j_set J k v) ms o1) = (\<lambda>k. case map_of (rev ms) k of None \<Rightarrow> j_find J o1 k | Some v \<Rightarrow> Some v)" for o1
    using J by (induction ms arbitrary: o1) (auto simp: json_okD map_add_def fun_eq_iff split: option.splits)
  with J show ?thesis by (simp add: j_members_def json_okD split: option.splits)
qed

text \<open>A member that is set only under a condition.\<close>

definition only_if :: "bool \<Rightarrow> string \<Rightarrow> 'j \<Rightarrow> (string \<times> 'j) list" where
  "only_if b k v = (if b then [(k, v)] else [])"

text \<open>\<open>value(k, true)\<close>.\<close>

definition value_bool_or :: "bool \<Rightarrow> 'j json_lib \<Rightarrow> 'j \<Rightarrow> string \<Rightarrow> bool result" where
  "value_bool_or dflt J j k = value_as (j_bool J) J j k dflt"

text \<open>\<open>value(k, "...")\<close> with a default that is not empty.\<close>

definition value_string_or :: "string \<Rightarrow> 'j json_lib \<Rightarrow> 'j \<Rightarrow> string \<Rightarrow> string result" where
  "value_string_or dflt J j k = value_as (j_string J) J j k dflt"

text \<open>\<open>value(k, nu)\<close> as an \<open>unsigned int\<close>.\<close>

definition value_word_or :: "32 word \<Rightarrow> 'j json_lib \<Rightarrow> 'j \<Rightarrow> string \<Rightarrow> 32 word result" where
  "value_word_or dflt J j k = value_as (\<lambda>v. map_option word_of_int (j_number J v)) J j k dflt"

definition contains :: "'j json_lib \<Rightarrow> 'j \<Rightarrow> string \<Rightarrow> bool" where
  "contains J j k \<longleftrightarrow> j_find J j k \<noteq> None"

section \<open>Enumerations\<close>

datatype interface_type =
    IT_UNKNOWN | IT_WLAN | IT_ETH | IT_ECM | IT_RNDIS | IT_MHI | IT_VMTAP0 | IT_VMTAP1 | IT_ETH2
  | IT_AP_PRIMARY | IT_AP_SECONDARY | IT_AP_TERTIARY | IT_AP_QUATERNARY

datatype backhaul_type = BH_ETH | BH_USB | BH_WLAN | BH_WWAN | BH_BLE | BH_MAX_SUPPORTED

fun fromIfaceType :: "interface_type \<Rightarrow> string" where
  "fromIfaceType IT_WLAN = ''WLAN''"
| "fromIfaceType IT_ETH = ''ETH''"
| "fromIfaceType IT_ECM = ''ECM''"
| "fromIfaceType IT_RNDIS = ''RNDIS''"
| "fromIfaceType IT_MHI = ''MHI''"
| "fromIfaceType IT_VMTAP0 = ''VMTAP0''"
| "fromIfaceType IT_VMTAP1 = ''VMTAP1''"
| "fromIfaceType IT_ETH2 = ''ETH2''"
| "fromIfaceType IT_AP_PRIMARY = ''AP_PRIMARY''"
| "fromIfaceType IT_AP_SECONDARY = ''AP_SECONDARY''"
| "fromIfaceType IT_AP_TERTIARY = ''AP_TERTIARY''"
| "fromIfaceType IT_AP_QUATERNARY = ''AP_QUATERNARY''"
| "fromIfaceType _ = ''UNKNOWN''"

definition toIfaceType :: "string \<Rightarrow> interface_type" where
  "toIfaceType s =
     (if s = ''WLAN'' then IT_WLAN
      else if s = ''ETH'' then IT_ETH
      else if s = ''ECM'' then IT_ECM
      else if s = ''RNDIS'' then IT_RNDIS
      else if s = ''MHI'' then IT_MHI
      else if s = ''VMTAP0'' then IT_VMTAP0
      else if s = ''VMTAP1'' then IT_VMTAP1
      else if s = ''ETH2'' then IT_ETH2
      else if s = ''AP_PRIMARY'' then IT_AP_PRIMARY
      else if s = ''AP_SECONDARY'' then IT_AP_SECONDARY
      else if s = ''AP_TERTIARY'' then IT_AP_TERTIARY
      else if s = ''AP_QUATERNARY'' then IT_AP_QUATERNARY
      else IT_UNKNOWN)"

fun fromBackhaul :: "backhaul_type \<Rightarrow> string" where
  "fromBackhaul BH_ETH = ''ETH''"
| "fromBackhaul BH_USB = ''USB''"
| "fromBackhaul BH_WLAN = ''WLAN''"
| "fromBackhaul BH_WWAN = ''WWAN''"
| "fromBackhaul BH_BLE = ''BLE''"
| "fromBackhaul _ = ''''"

definition toBackhaul :: "string \<Rightarrow> backhaul_type" where
  "toBackhaul s =
     (if s = ''USB'' then BH_USB
      else if s = ''WLAN'' then BH_WLAN
      else if s = ''WWAN'' then BH_WWAN
      else if s = ''BLE'' then BH_BLE
      else BH_ETH)"

fun fromIpFamily :: "ip_family \<Rightarrow> string" where
  "fromIpFamily IPF_IPV4 = ''IPV4''"
| "fromIpFamily IPF_IPV6 = ''IPV6''"
| "fromIpFamily IPF_IPV4V6 = ''IPV4V6''"
| "fromIpFamily _ = ''UNKNOWN''"

definition toIpFamily :: "string \<Rightarrow> ip_family" where
  "toIpFamily s =
     (if s = ''IPV4'' then IPF_IPV4
      else if s = ''IPV6'' then IPF_IPV6
      else if s = ''IPV4V6'' then IPF_IPV4V6
      else IPF_UNKNOWN)"

lemma wire_names [simp]:
  shows "toIfaceType (fromIfaceType t) = t" and "b \<noteq> BH_MAX_SUPPORTED \<Longrightarrow> toBackhaul (fromBackhaul b) = b"
    and "toIpFamily (fromIpFamily f) = f" and "(fromBackhaul b = []) = (b = BH_MAX_SUPPORTED)"
proof -
  show "toIfaceType (fromIfaceType t) = t" by (cases t) (simp_all add: toIfaceType_def)
  show "b \<noteq> BH_MAX_SUPPORTED \<Longrightarrow> toBackhaul (fromBackhaul b) = b" by (cases b) (simp_all add: toBackhaul_def)
  show "toIpFamily (fromIpFamily f) = f" by (cases f) (simp_all add: toIpFamily_def)
  show "(fromBackhaul b = []) = (b = BH_MAX_SUPPORTED)" by (cases b) simp_all
qed

section \<open>Backhauls\<close>

record backhaul_info =
  bh_backhaul :: backhaul_type
  bh_slotId :: int
  bh_profileId :: int
  bh_vlanId :: int

definition DEFAULT_SLOT :: int where
  "DEFAULT_SLOT = 1"

text \<open>\<open>BackhaulInfo{}\<close>.\<close>

definition no_backhaul :: backhaul_info where
  "no_backhaul = \<lparr>bh_backhaul = BH_ETH, bh_slotId = DEFAULT_SLOT, bh_profileId = -1, bh_vlanId = -1\<rparr>"

definition backhaul_members :: "'j json_lib \<Rightarrow> backhaul_info \<Rightarrow> (string \<times> 'j) list" where
  "backhaul_members J bh =
     (let name = fromBackhaul (bh_backhaul bh) in
      only_if (name \<noteq> []) ''backhaul'' (j_of_string J name) @
      only_if (bh_backhaul bh = BH_WWAN) ''slot'' (j_of_int J (bh_slotId bh)) @
      only_if (bh_backhaul bh = BH_WWAN) ''profileId'' (j_of_int J (bh_profileId bh)) @
      only_if (bh_vlanId bh \<ge> 0) ''bhVlanId'' (j_of_int J (bh_vlanId bh)))"

definition fromBackhaulInfo :: "'j json_lib \<Rightarrow> backhaul_info \<Rightarrow> 'j" where
  "fromBackhaulInfo J bh = j_members J (backhaul_members J bh)"

definition toBackhaulInfo :: "'j json_lib \<Rightarrow> 'j \<Rightarrow> backhaul_info result" where
  "toBackhaulInfo J j =
     bindE (value_string J j ''backhaul'') (\<lambda>b.
     bindE (if contains J j ''slot'' then value_int_or DEFAULT_SLOT J j ''slot'' else Inr (bh_slotId no_backhaul)) (\<lambda>slot.
     bindE (if contains J j ''profileId'' then value_int_or (-1) J j ''profileId'' else Inr (bh_profileId no_backhaul)) (\<lambda>p.
     bindE (if contains J j ''bhVlanId'' then value_int_or (-1) J j ''bhVlanId'' else Inr (bh_vlanId no_backhaul)) (\<lambda>v.
       Inr \<lparr>bh_backhaul = toBackhaul b, bh_slotId = slot, bh_profileId = p, bh_vlanId = v\<rparr>))))"

section \<open>Round trips\<close>

definition in_int :: "int \<Rightarrow> bool" where
  "in_int n \<longleftrightarrow> - (2 ^ 31) \<le> n \<and> n < 2 ^ 31"

lemma to_int32_id [simp]: "in_int n \<Longrightarrow> to_int32 n = n"
  by (simp add: in_int_def to_int32_def)

lemma word_of_to_int32: "LENGTH('a::len) \<le> 32 \<Longrightarrow> word_of_int (to_int32 n) = (word_of_int n :: 'a word)"
proof -
  assume le: "LENGTH('a) \<le> 32"
  obtain k where "to_int32 n = n + 2 ^ 32 * k"
    using that [of "- ((n + 2 ^ 31) div 2 ^ 32)"]
    by (simp add: to_int32_def minus_mult_div_eq_mod [symmetric] algebra_simps)
  moreover have "(2 :: 'a word) ^ 32 = 0" using le by (simp only: exp_eq_zero_iff)
  ultimately show ?thesis by (simp only: of_int_add of_int_mult of_int_power of_int_numeral mult_zero_left add_0_right)
qed

lemma word_of_read [simp]:
  "word_of_int (to_int32 (sint (w :: 16 word))) = w" "word_of_int (to_int32 (uint (w16 :: 16 word))) = w16"
  "word_of_int (to_int32 (uint (v :: 8 word))) = v" "word_of_int (to_int32 (uint (u :: 32 word))) = u"
  by (simp_all add: word_of_to_int32)

text \<open>Reading a member of an object that was written as such.\<close>

lemmas written = value_string_def value_string_or_def value_int_def value_int_or_def value_bool_def value_bool_or_def
  value_word_def value_word_or_def value_as_def contains_def j_members_object j_members_find json_okD only_if_def

text \<open>What is left of a backhaul: slot and profile belong to the cellular one, no VLAN is -1.\<close>

definition sent_backhaul :: "backhaul_info \<Rightarrow> backhaul_info" where
  "sent_backhaul bh =
     \<lparr>bh_backhaul = bh_backhaul bh,
      bh_slotId = (if bh_backhaul bh = BH_WWAN then bh_slotId bh else DEFAULT_SLOT),
      bh_profileId = (if bh_backhaul bh = BH_WWAN then bh_profileId bh else -1),
      bh_vlanId = (if bh_vlanId bh \<ge> 0 then bh_vlanId bh else -1)\<rparr>"

definition backhaul_ok :: "backhaul_info \<Rightarrow> bool" where
  "backhaul_ok bh \<longleftrightarrow> bh_backhaul bh \<noteq> BH_MAX_SUPPORTED \<and> in_int (bh_slotId bh) \<and> in_int (bh_profileId bh) \<and> in_int (bh_vlanId bh)"

lemma wwan_name: "toBackhaul ''WWAN'' = BH_WWAN"
  by (simp add: toBackhaul_def)

text \<open>The other members of the message do not matter.\<close>

lemma backhaul_written:
  assumes "json_ok J" "backhaul_ok bh" "j_is_object J j"
    and "\<And>k. k \<in> {''backhaul'', ''slot'', ''profileId'', ''bhVlanId''} \<Longrightarrow> j_find J j k = map_of (rev (backhaul_members J bh)) k"
  shows "toBackhaulInfo J j = Inr (sent_backhaul bh)"
  using assms by (cases "bh_backhaul bh = BH_WWAN"; cases "bh_vlanId bh \<ge> 0")
    (simp_all add: toBackhaulInfo_def backhaul_members_def Let_def sent_backhaul_def backhaul_ok_def no_backhaul_def wwan_name written)

text \<open>A backhaul that the network managers write is read back, by every manager that reads one, as it
  was, except that slot and profile are sent for the cellular backhaul only and an unset VLAN is -1.\<close>

theorem backhaul_roundtrip:
  assumes "json_ok J" "backhaul_ok bh"
  shows "toBackhaulInfo J (fromBackhaulInfo J bh) = Inr (sent_backhaul bh)"
  using assms by (intro backhaul_written) (simp_all add: fromBackhaulInfo_def j_members_object j_members_find)

theorem backhaul_roundtrip_witness:
  "toBackhaulInfo tree_lib (fromBackhaulInfo tree_lib
      \<lparr>bh_backhaul = BH_WWAN, bh_slotId = 2, bh_profileId = 5, bh_vlanId = -7\<rparr>) =
   Inr \<lparr>bh_backhaul = BH_WWAN, bh_slotId = 2, bh_profileId = 5, bh_vlanId = -1\<rparr>"
  using backhaul_roundtrip [OF tree_lib_ok, of "\<lparr>bh_backhaul = BH_WWAN, bh_slotId = 2, bh_profileId = 5, bh_vlanId = -7\<rparr>"]
  by (simp add: backhaul_ok_def in_int_def sent_backhaul_def)

end
