(* ===== verification/Net_Shell.thy ===== *)
theory Net_Shell
  imports Net_Wire Operating_Shell "HOL-Library.Multiset"
begin

text \<open>
  What the managers of \<open>component/net\<close> repeat: the readiness chart around their own signals, the list
  of listeners, and the way from a client's operation to its answer. \<open>net_chart\<close> is the contract of
  their charts, \<open>net_service\<close> that of managers whose operations are queued and answered once.
\<close>

section \<open>State and signals\<close>

text \<open>The two signals all these managers share, and \<open>'o\<close>, those of one manager.\<close>

datatype ('j, 'o) net_event =
    N_ReadinessEvt_Signal "'j envelope"
  | N_BridgeConnectivityChanged_Signal bool
  | N_Signal 'o

datatype net_note = On_Net_Service service_status | On_Net_Hw_Acceleration bool

record ('u, 'x) net_manager = "('u, 'x) op_manager" +
  nm_listeners :: "nat list"

type_synonym ('j, 'o, 'k, 'a) net_mgr = "(('j, 'o) net_event, ('j, net_note, 'k, 'a) om_effect) net_manager"

text \<open>
  Parameters: the JSON library, the id of the process, the generated topic names (by their name in
  \<open>topics.h\<close>), the bridge's next token, and the bound of the chart's loops.
\<close>

record 'j net_ext =
  nx_json :: "'j json_lib"
  nx_pa_id :: string
  nx_topic :: "string \<Rightarrow> string"
  nx_token :: nat
  nx_loops :: nat

definition EC_DEVICE_NOT_READY :: error_code where "EC_DEVICE_NOT_READY = 102"

definition nm_broadcastToListeners :: "net_note \<Rightarrow> ('j, 'o, 'k, 'a) net_mgr \<Rightarrow> ('j, 'o, 'k, 'a) net_mgr" where
  "nm_broadcastToListeners nt h = om_notify (filter (\<lambda>l. l \<in> set (om_live h)) (nm_listeners h)) nt h"

definition nm_tell :: "service_status \<Rightarrow> ('j, 'o, 'k, 'a) net_mgr \<Rightarrow> ('j, 'o, 'k, 'a) net_mgr" where
  "nm_tell st = nm_broadcastToListeners (On_Net_Service st)"

definition nm_registerListener :: "nat \<Rightarrow> ('u, 'x, 'z) net_manager_scheme \<Rightarrow> api_status \<times> ('u, 'x, 'z) net_manager_scheme" where
  "nm_registerListener l h = (SUCCESS, h\<lparr>nm_listeners := nm_listeners h @ [l]\<rparr>)"

definition nm_deregisterListener :: "nat \<Rightarrow> ('u, 'x, 'z) net_manager_scheme \<Rightarrow> api_status \<times> ('u, 'x, 'z) net_manager_scheme" where
  "nm_deregisterListener l h = (SUCCESS, h\<lparr>nm_listeners := without_listener l (om_live h) (nm_listeners h)\<rparr>)"

definition net_new :: "string \<Rightarrow> nat option \<Rightarrow> ('j, 'o, 'k, 'a) net_mgr" where
  "net_new nm initCb =
     \<lparr>hstate = Top_St, htemp = Top_St, last_ignored = False, trace_fn = False, probe_fn = False, instr_log = [],
      ao_name = nm, ao_inst = False, ao_q = [], ao_running = False,
      om_status = SERVICE_UNAVAILABLE, om_gate = gate_new initCb, om_conn_token = 0, om_live = [],
      om_io = \<lparr>io_counter = 0, io_now = 0, io_out = []\<rparr>, nm_listeners = []\<rparr>"

section \<open>State handlers\<close>

text \<open>\<open>idle\<close> and \<open>serve\<close> handle the manager's own signals in \<open>NotReady\<close> and \<open>Ready\<close>.\<close>

fun net_Operating_St :: "('j, 'o) net_event event \<Rightarrow> (('j, 'o) net_event, 'x, 'z) net_manager_scheme
    \<Rightarrow> (status \<times> (('j, 'o) net_event, 'x, 'z) net_manager_scheme) result" where
  "net_Operating_St Entry_Signal h = Inr (HANDLED, h)"
| "net_Operating_St Exit_Signal h = Inr (HANDLED, h)"
| "net_Operating_St _ h = Inr (super_st Top_St h)"

fun net_NotReady_St :: "'j json_lib \<Rightarrow>
    ('o \<Rightarrow> (('j, 'o) net_event, 'x, 'z) net_manager_scheme \<Rightarrow> (('j, 'o) net_event, 'x, 'z) net_manager_scheme result) \<Rightarrow>
    ('j, 'o) net_event event \<Rightarrow> (('j, 'o) net_event, 'x, 'z) net_manager_scheme
    \<Rightarrow> (status \<times> (('j, 'o) net_event, 'x, 'z) net_manager_scheme) result" where
  "net_NotReady_St J idle Entry_Signal h = Inr (HANDLED, h)"
| "net_NotReady_St J idle Exit_Signal h = Inr (HANDLED, h)"
| "net_NotReady_St J idle (User (N_ReadinessEvt_Signal env)) h = om_available J env h"
| "net_NotReady_St J idle (User (N_BridgeConnectivityChanged_Signal b)) h = Inr (HANDLED, h)"
| "net_NotReady_St J idle (User (N_Signal e)) h = bindE (idle e h) (\<lambda>h. Inr (HANDLED, h))"
| "net_NotReady_St J idle _ h = Inr (super_st (St Operating) h)"

fun net_Ready_St :: "'j json_lib \<Rightarrow> (service_status \<Rightarrow> (('j, 'o) net_event, 'x, 'z) net_manager_scheme \<Rightarrow> (('j, 'o) net_event, 'x, 'z) net_manager_scheme) \<Rightarrow>
    ('o \<Rightarrow> (('j, 'o) net_event, 'x, 'z) net_manager_scheme \<Rightarrow> (('j, 'o) net_event, 'x, 'z) net_manager_scheme result) \<Rightarrow>
    ('j, 'o) net_event event \<Rightarrow> (('j, 'o) net_event, 'x, 'z) net_manager_scheme
    \<Rightarrow> (status \<times> (('j, 'o) net_event, 'x, 'z) net_manager_scheme) result" where
  "net_Ready_St J tell serve Entry_Signal h = Inr (HANDLED, om_enterReady tell h)"
| "net_Ready_St J tell serve Exit_Signal h = Inr (HANDLED, tell SERVICE_UNAVAILABLE h)"
| "net_Ready_St J tell serve (User (N_ReadinessEvt_Signal env)) h = om_readiness J env h"
| "net_Ready_St J tell serve (User (N_BridgeConnectivityChanged_Signal b)) h = Inr (om_connectivity b h)"
| "net_Ready_St J tell serve (User (N_Signal e)) h = bindE (serve e h) (\<lambda>h. Inr (HANDLED, h))"
| "net_Ready_St J tell serve _ h = Inr (super_st (St Operating) h)"

fun net_handlers :: "'j json_lib \<Rightarrow> (service_status \<Rightarrow> (('j, 'o) net_event, 'x, 'z) net_manager_scheme \<Rightarrow> (('j, 'o) net_event, 'x, 'z) net_manager_scheme) \<Rightarrow>
    ('o \<Rightarrow> (('j, 'o) net_event, 'x, 'z) net_manager_scheme \<Rightarrow> (('j, 'o) net_event, 'x, 'z) net_manager_scheme result) \<Rightarrow>
    ('o \<Rightarrow> (('j, 'o) net_event, 'x, 'z) net_manager_scheme \<Rightarrow> (('j, 'o) net_event, 'x, 'z) net_manager_scheme result) \<Rightarrow>
    ostate \<Rightarrow> ('j, 'o) net_event event \<Rightarrow> (('j, 'o) net_event, 'x, 'z) net_manager_scheme
    \<Rightarrow> (status \<times> (('j, 'o) net_event, 'x, 'z) net_manager_scheme) result" where
  "net_handlers J tell idle serve Operating = net_Operating_St"
| "net_handlers J tell idle serve (Leaf NotReady) = net_NotReady_St J idle"
| "net_handlers J tell idle serve (Leaf Ready) = net_Ready_St J tell serve"

definition net_start :: "'j net_ext \<Rightarrow> (string \<times> string) list \<Rightarrow>
    (ostate \<Rightarrow> ('j, 'o) net_event event \<Rightarrow> (('j, 'o) net_event, ('j, 'n, 'k, 'a) om_effect, 'z) net_manager_scheme
      \<Rightarrow> (status \<times> (('j, 'o) net_event, ('j, 'n, 'k, 'a) om_effect, 'z) net_manager_scheme) result) \<Rightarrow>
    (('j, 'o) net_event, ('j, 'n, 'k, 'a) om_effect, 'z) net_manager_scheme
    \<Rightarrow> (('j, 'o) net_event, ('j, 'n, 'k, 'a) om_effect, 'z) net_manager_scheme result" where
  "net_start X ts H h =
     (if ao_running h then Inr h
      else bindE (start_at (nx_loops X) H (St (Leaf NotReady)) (h\<lparr>ao_inst := True\<rparr>)) (\<lambda>h.
        Inr (om_subscribe ts (nx_token X) h)))"

text \<open>The destructor: withdraw from the bridge, then stop; \<open>k\<close> bounds the loop.\<close>

definition net_destroy :: "nat \<Rightarrow> 'j net_ext \<Rightarrow> (string \<times> string) list \<Rightarrow>
    (ostate \<Rightarrow> ('j, 'o) net_event event \<Rightarrow> (('j, 'o) net_event, ('j, 'n, 'k, 'a) om_effect, 'z) net_manager_scheme
      \<Rightarrow> (status \<times> (('j, 'o) net_event, ('j, 'n, 'k, 'a) om_effect, 'z) net_manager_scheme) result) \<Rightarrow>
    (('j, 'o) net_event, ('j, 'n, 'k, 'a) om_effect, 'z) net_manager_scheme
    \<Rightarrow> (('j, 'o) net_event, ('j, 'n, 'k, 'a) om_effect, 'z) net_manager_scheme result" where
  "net_destroy k X ts H h = stop k (nx_loops X) H False (om_unsubscribe (map fst ts) h)"

section \<open>Requests and answers\<close>

definition net_request :: "'j net_ext \<Rightarrow> string \<Rightarrow> string \<Rightarrow> (string \<times> 'j) list \<Rightarrow> 'k
    \<Rightarrow> ('j, 'o, 'k, 'a) net_mgr \<Rightarrow> ('j, 'o, 'k, 'a) net_mgr" where
  "net_request X topic schema ms k = om_request (nx_pa_id X) (nx_topic X topic) schema (j_members (nx_json X) ms) k"

definition completeResponseCb :: "'j json_lib \<Rightarrow> (nat \<Rightarrow> error_code \<Rightarrow> 'a) \<Rightarrow> nat option \<Rightarrow> 'j envelope option
    \<Rightarrow> ('u, ('j, 'n, 'k, 'a) om_effect, 'z) op_manager_scheme \<Rightarrow> ('u, ('j, 'n, 'k, 'a) om_effect, 'z) op_manager_scheme result" where
  "completeResponseCb J f cb rsp h =
     (case cb of
        None \<Rightarrow> Inr h
      | Some c \<Rightarrow>
          (case rsp of
             None \<Rightarrow> Inr (om_emit (Om_Answered (f c EC_OPERATION_TIMEOUT)) h)
           | Some env \<Rightarrow>
               (case env_error env of
                  Some e \<Rightarrow> bindE (value_string J e ''code'') (\<lambda>s. Inr (om_emit (Om_Answered (f c (parseErrorCode s))) h))
                | None \<Rightarrow> Inr (om_emit (Om_Answered (f c EC_SUCCESS)) h))))"

text \<open>The error that a query without a usable response reports.\<close>

definition query_error :: "'j envelope option \<Rightarrow> error_code" where
  "query_error rsp = (if rsp = None then EC_OPERATION_TIMEOUT else EC_GENERIC_FAILURE)"

text \<open>A query: the error, or what \<open>rd\<close> reads from the data of the response.\<close>

definition completeQueryCb :: "('j \<Rightarrow> 'v result) \<Rightarrow> (nat \<Rightarrow> 'v \<Rightarrow> error_code \<Rightarrow> 'a) \<Rightarrow> 'v \<Rightarrow> nat option \<Rightarrow> 'j envelope option
    \<Rightarrow> ('u, ('j, 'n, 'k, 'a) om_effect, 'z) op_manager_scheme \<Rightarrow> ('u, ('j, 'n, 'k, 'a) om_effect, 'z) op_manager_scheme result" where
  "completeQueryCb rd f none cb rsp h =
     (case cb of
        None \<Rightarrow> Inr h
      | Some c \<Rightarrow>
          (case good_data rsp of
             None \<Rightarrow> Inr (om_emit (Om_Answered (f c none (query_error rsp))) h)
           | Some d \<Rightarrow> bindE (rd d) (\<lambda>v. Inr (om_emit (Om_Answered (f c v EC_SUCCESS)) h))))"

section \<open>The chart\<close>

fun net_up :: "'j json_lib \<Rightarrow> ('j, 'o) net_event \<Rightarrow> bool" where
  "net_up J (N_ReadinessEvt_Signal env) \<longleftrightarrow> readiness_status J ''AVAILABLE'' env = Inr True"
| "net_up J _ \<longleftrightarrow> False"

fun net_withdrawn :: "'j json_lib \<Rightarrow> ('j, 'o) net_event \<Rightarrow> service_status option" where
  "net_withdrawn J (N_ReadinessEvt_Signal env) = env_withdrawn J env"
| "net_withdrawn J (N_BridgeConnectivityChanged_Signal b) = link_withdrawn b"
| "net_withdrawn J _ = None"

locale net_chart =
  fixes J :: "'j json_lib"
    and tell :: "service_status \<Rightarrow> (('j, 'o) net_event, 'x, 'z) net_manager_scheme \<Rightarrow> (('j, 'o) net_event, 'x, 'z) net_manager_scheme"
    and idle serve :: "'o \<Rightarrow> (('j, 'o) net_event, 'x, 'z) net_manager_scheme \<Rightarrow> (('j, 'o) net_event, 'x, 'z) net_manager_scheme result"
  assumes tell_temp: "tell st (h\<lparr>htemp := x\<rparr>) = (tell st h)\<lparr>htemp := x\<rparr>"
    and tell_calm: "posts_only g (tell st h) = posts_only g h" "op_view (tell st h) = op_view h"
    and idle_calm: "idle e h = Inr h' \<Longrightarrow> posts_only h h' \<and> op_view h' = op_view h"
    and serve_calm: "serve e h = Inr h' \<Longrightarrow> posts_only h h' \<and> op_view h' = op_view h"

sublocale net_chart \<subseteq> op_chart "net_handlers J tell idle serve" tell "net_up J" "net_withdrawn J"
proof unfold_locales
  fix s c h h' g u r x st
  show "net_handlers J tell idle serve c None_Signal h = Inr (super_st (op_par c) h)"
    "net_handlers J tell idle serve c Init_Signal h = Inr (super_st (op_par c) h)"
    by (cases c rule: ostate_cases; simp)+
  show "net_handlers J tell idle serve Operating Entry_Signal h = Inr (HANDLED, h)"
    "net_handlers J tell idle serve Operating Exit_Signal h = Inr (HANDLED, h)" by simp_all
  show "net_handlers J tell idle serve (Leaf s) Entry_Signal h = Inr (HANDLED, op_en tell s h)"
    "net_handlers J tell idle serve (Leaf s) Exit_Signal h = Inr (HANDLED, op_ex tell s h)"
    by (cases s; simp)+
  show "tell st (h\<lparr>htemp := x\<rparr>) = (tell st h)\<lparr>htemp := x\<rparr>" by (rule tell_temp)
  show "posts_only g (tell st h) = posts_only g h" "op_view (tell st h) = op_view h" by (rule tell_calm)+
  show "net_handlers J tell idle serve Operating (User u) h = Inr (r, h') \<Longrightarrow>
      posts_only h h' \<and> (r = TO_SUPER \<longrightarrow> htemp h' = Top_St) \<and> r \<noteq> NEED_TO_TRANSFER \<and> op_view h' = op_view h"
    by (auto simp: super_st_def)
  assume H: "net_handlers J tell idle serve (Leaf s) (User u) h = Inr (r, h')"
  show "op_moves (net_up J u) (net_withdrawn J u) s h r h'"
  proof (cases u)
    case (N_ReadinessEvt_Signal env)
    with H op_moves_available [of J env h r h'] op_moves_readiness [of J env h r h'] show ?thesis by (cases s) simp_all
  next
    case (N_BridgeConnectivityChanged_Signal b)
    with H op_moves_connectivity [of b h r h'] show ?thesis by (cases s) (auto simp: op_moves_def)
  next
    case (N_Signal e)
    with H show ?thesis by (cases s) (auto simp: bindE_eq_Inr dest: idle_calm serve_calm)
  qed
qed

context net_chart
begin

text \<open>
  A part of the state that neither the shell nor the broadcast touches changes only by the manager's
  own signals: after a run it is \<open>step\<close> folded over the events.
\<close>

lemma net_dispatch_view:
  assumes "kMaxNest < n" "hstate h = St (Leaf s)" "dispatch_all n (net_handlers J tell idle serve) us h = Inr h'"
    and er: "\<And>h. view (erase h) = view h" and qu: "\<And>h q. view (h\<lparr>ao_q := q\<rparr>) = view h"
    and st: "\<And>h st. view (h\<lparr>om_status := st\<rparr>) = view h" "\<And>h g. view (h\<lparr>om_gate := g\<rparr>) = view h"
    and tl: "\<And>h st. view (tell st h) = view h"
    and own: "\<And>e h h'. idle e h = Inr h' \<Longrightarrow> view h' = step (N_Signal e) (view h)"
      "\<And>e h h'. serve e h = Inr h' \<Longrightarrow> view h' = step (N_Signal e) (view h)"
    and rest: "\<And>env v. step (N_ReadinessEvt_Signal env) v = v" "\<And>b v. step (N_BridgeConnectivityChanged_Signal b) v = v"
  shows "hstate h' = St (Leaf (fold (track (net_up J) (\<lambda>u. net_withdrawn J u \<noteq> None)) us s)) \<and> view h' = fold step us (view h)"
proof -
  let ?H = "net_handlers J tell idle serve" and ?tr = "track (net_up J) (\<lambda>u. net_withdrawn J u \<noteq> None)"
  have temp: "view (h\<lparr>htemp := x\<rparr>) = view h" for h x using er [of "h\<lparr>htemp := x\<rparr>"] er [of h] by (simp add: erase_def)
  have brd: "view (op_en tell t (op_ex tell s h)) = view h" for t s h
  proof -
    have "view (om_enterReady tell h) = view h" for h
      by (simp add: om_enterReady_def om_publishStatus_def Let_def st tl split: prod.split)
    then show ?thesis by (cases s; cases t) (simp_all add: tl)
  qed
  have leaf: "view h1 = step u (view h)" if "?H (Leaf s) (User u) h = Inr (r, h1)" for s u h r h1
    using that by (cases u; cases s)
      (auto simp: om_available_def om_readiness_def om_connectivity_def om_publishStatus_def to_st_def bindE_eq_Inr rest temp st
        dest: own split: option.splits if_splits)
  have sup: "r \<noteq> TO_SUPER \<and> r \<noteq> UNHANDLED" if "?H (Leaf s) (User u) h = Inr (r, h1)" for s u h r h1
    using that by (cases u; cases s)
      (auto simp: om_available_def om_readiness_def om_connectivity_def to_st_def bindE_eq_Inr split: option.splits if_splits)
  have "hstate h' = St (Leaf (fold ?tr us s)) \<and> view h' = snd (fold (\<lambda>u (s, v). (?tr u s, step u v)) us (s, view h))"
  proof (rule op_dispatch_view [where keep = "\<lambda>_ v. v" and view = view and step = "\<lambda>u s v. step u v", OF assms(1) er qu _ _ assms(2,3)])
    fix u s and h h1 :: "(('j, 'o) net_event, 'x, 'z) net_manager_scheme" and r
    assume H: "?H (Leaf s) (User u) h = Inr (r, h1)"
    show "if ?tr u s \<noteq> s then view (op_en tell (?tr u s) (op_ex tell s h1)) = step u (view h)
      else if r = TO_SUPER \<or> r = UNHANDLED then view h1 = view h \<and> step u (view h) = view h
      else view h1 = step u (view h)" using leaf [OF H] sup [OF H] brd by auto
  qed (auto simp: super_st_def temp)
  moreover have "snd (fold (\<lambda>u (s, v). (?tr u s, step u v)) us (s, v)) = fold step us v" for s v
    by (induction us arbitrary: s v) simp_all
  ultimately show ?thesis by simp
qed

end

section \<open>Whose callback is where\<close>

text \<open>
  \<open>answers\<close> are the clients an answer goes to, \<open>holds\<close> those that the callback of a request will
  answer, \<open>carries\<close> those that wait for a queued signal.
\<close>

fun effect_answers :: "('a \<Rightarrow> nat list) \<Rightarrow> ('j, 'n, 'k, 'a) om_effect \<Rightarrow> nat list" where
  "effect_answers answers (Om_Answered a) = answers a"
| "effect_answers answers _ = []"

fun effect_conts :: "('j, 'n, 'k, 'a) om_effect \<Rightarrow> 'k list" where
  "effect_conts (Om_Request topic schema env k t) = [k]"
| "effect_conts _ = []"

fun event_clients :: "('o \<Rightarrow> nat list) \<Rightarrow> ('j, 'o) net_event \<Rightarrow> nat list" where
  "event_clients carries (N_Signal e) = carries e"
| "event_clients carries _ = []"

definition nm_out :: "('u, 'x, 'z) op_manager_scheme \<Rightarrow> 'x list" where
  "nm_out h = io_out (om_io h)"

definition nm_answered :: "('a \<Rightarrow> nat list) \<Rightarrow> ('j, 'n, 'k, 'a) om_effect list \<Rightarrow> nat list" where
  "nm_answered answers xs = concat (map (effect_answers answers) xs)"

definition nm_sent :: "('j, 'n, 'k, 'a) om_effect list \<Rightarrow> 'k list" where
  "nm_sent xs = concat (map effect_conts xs)"

definition nm_waiting :: "('o \<Rightarrow> nat list) \<Rightarrow> ('j, 'o) net_event list \<Rightarrow> nat list" where
  "nm_waiting carries q = concat (map (event_clients carries) q)"

text \<open>What \<open>h'\<close> did after \<open>h\<close>: nothing but the effects \<open>xs\<close>.\<close>

definition net_does :: "('j, 'n, 'k, 'a) om_effect list \<Rightarrow> ('u, ('j, 'n, 'k, 'a) om_effect, 'z) op_manager_scheme
    \<Rightarrow> ('u, ('j, 'n, 'k, 'a) om_effect, 'z) op_manager_scheme \<Rightarrow> bool" where
  "net_does xs h h' \<longleftrightarrow> (\<exists>i. h' = h\<lparr>om_io := i\<rparr> \<and> io_out i = io_out (om_io h) @ xs)"

lemma net_does_do: "io_out (f (om_io h)) = io_out (om_io h) @ xs \<Longrightarrow> net_does xs h (om_do f h)"
  by (auto simp: net_does_def om_do_def)

lemma net_does_none: "net_does [] h h"
  unfolding net_does_def by (rule exI [of _ "om_io h"]) simp

lemma net_does_emit: "net_does [x] h (om_emit x h)"
  unfolding om_emit_def by (rule net_does_do) simp

lemma net_does_answer: "net_does (map (\<lambda>c. Om_Answered (f c)) (opt_list cb)) h (om_answer f cb h)"
  by (cases cb) (simp_all add: om_answer_def net_does_none net_does_emit)

lemma net_does_request:
  fixes h :: "('j, 'o, 'k, 'a) net_mgr"
  shows "\<exists>env. net_does [Om_Request (nx_topic X topic) schema env k kNetRpcTimeout] h (net_request X topic schema ms k h)"
  unfolding net_request_def om_request_def by (rule exI, rule net_does_do) (simp add: case_prod_unfold)

lemma net_does_broadcast:
  "\<exists>xs. net_does xs h (nm_broadcastToListeners nt h) \<and> nm_answered answers xs = [] \<and> nm_sent xs = []"
  using net_does_none [of h] net_does_emit [of "Om_Notes (filter (\<lambda>l. l \<in> set (om_live h)) (nm_listeners h)) nt" h]
  by (auto simp: nm_broadcastToListeners_def om_notify_def nm_answered_def nm_sent_def)

lemma net_does_trans: "net_does xs h h1 \<Longrightarrow> net_does ys h1 h2 \<Longrightarrow> net_does (xs @ ys) h h2"
  by (auto simp: net_does_def)

lemma net_doesD:
  assumes "net_does xs h h'"
  shows "nm_out h' = nm_out h @ xs" "posts_only h h'" "op_view h' = op_view h" "ao_q h' = ao_q h" "ao_running h' = ao_running h"
    "hstate h' = hstate h"
  using assms by (auto simp: net_does_def nm_out_def posts_only_def op_view_def)

text \<open>The clients of an effect: those it answers and those whose request it is.\<close>

definition net_clients :: "('a \<Rightarrow> nat list) \<Rightarrow> ('k \<Rightarrow> nat list) \<Rightarrow> ('j, 'n, 'k, 'a) om_effect list \<Rightarrow> nat multiset" where
  "net_clients answers holds xs = mset (nm_answered answers xs) + mset (concat (map holds (nm_sent xs)))"

lemma net_clients_append [simp]:
  "net_clients answers holds (xs @ ys) = net_clients answers holds xs + net_clients answers holds ys"
  "net_clients answers holds [] = {#}"
  by (simp_all add: net_clients_def nm_answered_def nm_sent_def)

text \<open>A step that answers the clients \<open>cs\<close> and sends no request.\<close>

definition net_gives :: "('a \<Rightarrow> nat list) \<Rightarrow> nat list \<Rightarrow> ('u, ('j, 'n, 'k, 'a) om_effect, 'z) op_manager_scheme
    \<Rightarrow> ('u, ('j, 'n, 'k, 'a) om_effect, 'z) op_manager_scheme \<Rightarrow> bool" where
  "net_gives answers cs h h' \<longleftrightarrow> (\<exists>xs. net_does xs h h' \<and> nm_answered answers xs = cs \<and> nm_sent xs = [])"

lemma net_gives_none: "net_gives answers [] h h"
  using net_does_none [of h] by (auto simp: net_gives_def nm_answered_def nm_sent_def)

lemma net_gives_emit: "answers a = cs \<Longrightarrow> net_gives answers cs h (om_emit (Om_Answered a) h)"
  using net_does_emit [of "Om_Answered a" h] by (auto simp: net_gives_def nm_answered_def nm_sent_def)

lemma net_gives_answer: "(\<And>c. answers (f c) = [c]) \<Longrightarrow> net_gives answers (opt_list cb) h (om_answer f cb h)"
  by (cases cb) (simp_all add: om_answer_def net_gives_none net_gives_emit)

lemma net_gives_trans: "net_gives answers cs h h1 \<Longrightarrow> net_gives answers ds h1 h2 \<Longrightarrow> net_gives answers (cs @ ds) h h2"
  unfolding net_gives_def nm_answered_def nm_sent_def by (fastforce intro: net_does_trans)

lemma net_gives_broadcast: "net_gives answers [] h (nm_broadcastToListeners nt h)"
  using net_does_broadcast unfolding net_gives_def by blast

lemma net_gives_response:
  assumes "completeResponseCb J f cb rsp h = Inr h'" "\<And>c er. answers (f c er) = [c]"
  shows "net_gives answers (opt_list cb) h h'"
  using assms by (auto simp: completeResponseCb_def bindE_eq_Inr intro: net_gives_none net_gives_emit split: option.splits)

lemma net_gives_query:
  assumes "completeQueryCb rd f v cb rsp h = Inr h'" "\<And>c v er. answers (f c v er) = [c]"
  shows "net_gives answers (opt_list cb) h h'"
  using assms by (auto simp: completeQueryCb_def bindE_eq_Inr intro: net_gives_none net_gives_emit split: option.splits)

text \<open>What the handler of a signal does with its clients: they are answered, or their request is sent.\<close>

definition net_serves :: "('a \<Rightarrow> nat list) \<Rightarrow> ('k \<Rightarrow> nat list) \<Rightarrow> nat list \<Rightarrow> ('u, ('j, 'n, 'k, 'a) om_effect, 'z) op_manager_scheme
    \<Rightarrow> ('u, ('j, 'n, 'k, 'a) om_effect, 'z) op_manager_scheme \<Rightarrow> bool" where
  "net_serves answers holds cs h h' \<longleftrightarrow> (\<exists>xs. net_does xs h h' \<and> net_clients answers holds xs = mset cs)"

lemma net_serves_gives: "net_gives answers cs h h' \<Longrightarrow> net_serves answers holds cs h h'"
  by (auto simp: net_gives_def net_serves_def net_clients_def)

lemma net_serves_request: "cs = holds k \<Longrightarrow> net_serves answers holds cs h (net_request X topic schema ms k h)"
  using net_does_request [of X topic schema k h ms] by (auto simp: net_serves_def net_clients_def nm_answered_def nm_sent_def)

section \<open>Runs\<close>

text \<open>
  A manager among clients, its worker and the bridge. \<open>G\<close> are the clients whose callbacks were handed
  over, \<open>P\<close> the requests that the bridge holds, \<open>L\<close> the clients of callbacks that threw. The bridge
  calls back each request once, with a response or with nothing; listeners come and go, time passes.
\<close>

inductive net_run :: "(ostate \<Rightarrow> ('j, 'o) net_event event \<Rightarrow> ('j, 'o, 'k, 'a) net_mgr \<Rightarrow> (status \<times> ('j, 'o, 'k, 'a) net_mgr) result) \<Rightarrow>
    ('k \<Rightarrow> 'j envelope option \<Rightarrow> ('j, 'o, 'k, 'a) net_mgr \<Rightarrow> ('j, 'o, 'k, 'a) net_mgr result) \<Rightarrow> ('o \<Rightarrow> nat list) \<Rightarrow> ('k \<Rightarrow> nat list) \<Rightarrow>
    'j net_ext \<Rightarrow> nat multiset \<Rightarrow> 'k multiset \<Rightarrow> nat multiset \<Rightarrow> ('j, 'o, 'k, 'a) net_mgr \<Rightarrow> bool"
  for H respond carries holds X where
  started: "net_start X ts H (net_new nm cb) = Inr h \<Longrightarrow> net_run H respond carries holds X {#} {#} {#} h"
| post: "net_run H respond carries holds X G P L h \<Longrightarrow> ao_running h \<Longrightarrow>
    net_run H respond carries holds X (G + mset (event_clients carries u)) P L (post_fifo u h)"
| work: "net_run H respond carries holds X G P L h \<Longrightarrow> run_step (nx_loops X) H h = Inr (res, h') \<Longrightarrow>
    net_run H respond carries holds X G (P + mset (nm_sent (drop (length (nm_out h)) (nm_out h')))) L h'"
| reply: "net_run H respond carries holds X G (add_mset k P) L h \<Longrightarrow> respond k rsp h = Inr h' \<Longrightarrow>
    net_run H respond carries holds X G P L h'"
| threw: "net_run H respond carries holds X G (add_mset k P) L h \<Longrightarrow> respond k rsp h = Inl f \<Longrightarrow>
    net_run H respond carries holds X G P (L + mset (holds k)) h"
| listeners: "net_run H respond carries holds X G P L h \<Longrightarrow>
    net_run H respond carries holds X G P L (h\<lparr>nm_listeners := ls, om_live := lv\<rparr>)"
| time: "net_run H respond carries holds X G P L h \<Longrightarrow> io_out i = io_out (om_io h) \<Longrightarrow>
    net_run H respond carries holds X G P L (h\<lparr>om_io := i\<rparr>)"

locale net_service =
  fixes X :: "'j net_ext"
    and idle serve :: "'o \<Rightarrow> ('j, 'o, 'k, 'a) net_mgr \<Rightarrow> ('j, 'o, 'k, 'a) net_mgr result"
    and respond :: "'k \<Rightarrow> 'j envelope option \<Rightarrow> ('j, 'o, 'k, 'a) net_mgr \<Rightarrow> ('j, 'o, 'k, 'a) net_mgr result"
    and carries :: "'o \<Rightarrow> nat list" and holds :: "'k \<Rightarrow> nat list" and answers :: "'a \<Rightarrow> nat list"
  assumes idle_serves: "idle e h = Inr h' \<Longrightarrow> net_serves answers holds (carries e) h h'"
    and serve_serves: "serve e h = Inr h' \<Longrightarrow> net_serves answers holds (carries e) h h'"
    and respond_gives: "respond k rsp h = Inr h' \<Longrightarrow> net_gives answers (holds k) h h'"

sublocale net_service \<subseteq> net_chart "nx_json X" nm_tell idle serve
proof unfold_locales
  fix st x and h h' g :: "('j, 'o, 'k, 'a) net_mgr" and e
  show "nm_tell st (h\<lparr>htemp := x\<rparr>) = (nm_tell st h)\<lparr>htemp := x\<rparr>"
    "posts_only g (nm_tell st h) = posts_only g h" "op_view (nm_tell st h) = op_view h"
    by (simp_all add: nm_tell_def nm_broadcastToListeners_def)
  show "idle e h = Inr h' \<Longrightarrow> posts_only h h' \<and> op_view h' = op_view h"
    "serve e h = Inr h' \<Longrightarrow> posts_only h h' \<and> op_view h' = op_view h"
    using idle_serves serve_serves net_doesD(2,3) unfolding net_serves_def by blast+
qed

context net_service
begin

lemma enter_does:
  fixes h :: "('j, 'o, 'k, 'a) net_mgr"
  assumes "h1 = om_enterReady nm_tell h \<or> h1 = nm_tell st h"
  shows "\<exists>xs. nm_out h1 = nm_out h @ xs \<and> net_clients answers holds xs = {#} \<and> ao_q h1 = ao_q h \<and> ao_running h1 = ao_running h"
proof -
  have tell: "\<exists>xs. nm_out (nm_tell st h) = nm_out h @ xs \<and> net_clients answers holds xs = {#} \<and> ao_q (nm_tell st h) = ao_q h \<and>
      ao_running (nm_tell st h) = ao_running h" for st and h :: "('j, 'o, 'k, 'a) net_mgr"
    using net_does_broadcast [of h "On_Net_Service st" answers] net_doesD
    by (fastforce simp: nm_tell_def net_clients_def)
  have en: "\<exists>xs. nm_out (om_enterReady nm_tell h) = nm_out h @ xs \<and> net_clients answers holds xs = {#} \<and>
      ao_q (om_enterReady nm_tell h) = ao_q h \<and> ao_running (om_enterReady nm_tell h) = ao_running h" for h :: "('j, 'o, 'k, 'a) net_mgr"
  proof -
    obtain b g where mg: "markReadyAndFire SERVICE_AVAILABLE (om_gate h) = (b, g)" by fastforce
    from tell [of SERVICE_AVAILABLE "h\<lparr>om_status := SERVICE_AVAILABLE, om_gate := g\<rparr>"] show ?thesis
      by (cases b) (auto simp: om_enterReady_def om_publishStatus_def mg nm_out_def Let_def)
  qed
  from assms show ?thesis using tell [of st h] en [of h] by blast
qed

lemma dispatch_clients:
  assumes "kMaxNest < n" "hstate h = St (Leaf s)"
    and "dispatch n (net_handlers (nx_json X) nm_tell idle serve) (User u) h = Inr h'"
  shows "\<exists>s' xs. hstate h' = St (Leaf s') \<and> nm_out h' = nm_out h @ xs \<and> ao_q h' = ao_q h \<and> ao_running h' = ao_running h \<and>
    net_clients answers holds xs = mset (event_clients carries u)"
proof -
  let ?H = "net_handlers (nx_json X) nm_tell idle serve"
  define ok :: "nat multiset \<Rightarrow> ('j, 'o, 'k, 'a) net_mgr \<Rightarrow> bool"
    where "ok = (\<lambda>C g. \<exists>xs. nm_out g = nm_out h @ xs \<and> ao_q g = ao_q h \<and> ao_running g = ao_running h \<and>
    net_clients answers holds xs = C)"
  have er: "ok C (erase g) = ok C g" for C g by (simp add: ok_def nm_out_def erase_def)
  have cong: "ok C g'" if "ok C g" "nm_out g' = nm_out g" "ao_q g' = ao_q g" "ao_running g' = ao_running g" for C g g'
    using that unfolding ok_def by simp
  have does: "ok (C + net_clients answers holds ys) g'" if "ok C g" "nm_out g' = nm_out g @ ys" "ao_q g' = ao_q g"
      "ao_running g' = ao_running g" for C g g' ys
    using that unfolding ok_def by (metis append.assoc net_clients_append(1))
  have brd: "ok C (op_en nm_tell t (op_ex nm_tell s g))" if "ok C g" "t \<noteq> s" for C t g
  proof -
    from that(2) have "(s = NotReady \<and> t = Ready) \<or> (s = Ready \<and> t = NotReady)" by (cases s; cases t) simp_all
    with enter_does [of "op_en nm_tell t (op_ex nm_tell s g)" g SERVICE_UNAVAILABLE] obtain ys where
      "nm_out (op_en nm_tell t (op_ex nm_tell s g)) = nm_out g @ ys" "net_clients answers holds ys = {#}"
      "ao_q (op_en nm_tell t (op_ex nm_tell s g)) = ao_q g" "ao_running (op_en nm_tell t (op_ex nm_tell s g)) = ao_running g" by auto
    with does [OF that(1), of "op_en nm_tell t (op_ex nm_tell s g)" ys] show ?thesis by simp
  qed
  have "ok (mset (event_clients carries u)) h' \<and> hstate h' = St (Leaf (track (net_up (nx_json X)) (\<lambda>u. net_withdrawn (nx_json X) u \<noteq> None) u s))"
  proof (rule dispatch_outcome [where P = "ok {#}" and Q = "ok (mset (event_clients carries u))"
        and R = "\<lambda>g. ok {#} g \<and> event_clients carries u = []", OF assms])
    show "ok {#} h" by (simp add: ok_def)
    fix g r k
    assume g: "ok {#} g"
    { assume H: "?H (Leaf s) (User u) g = Inr (r, k)"
      have k: "ok (mset (event_clients carries u)) k \<and> r \<noteq> TO_SUPER \<and> r \<noteq> UNHANDLED"
      proof (cases u)
        case (N_Signal e)
        with H obtain f where f: "f = idle \<or> f = serve" "f e g = Inr k" "r = HANDLED"
          by (cases s) (auto simp: bindE_eq_Inr)
        then obtain ys where "net_does ys g k" "net_clients answers holds ys = mset (carries e)" using idle_serves serve_serves unfolding net_serves_def by metis
        with does [OF g net_doesD(1,4,5)] N_Signal f(3) show ?thesis by fastforce
      next
        case (N_ReadinessEvt_Signal env)
        with H g show ?thesis
          by (cases s) (auto simp: om_available_def om_readiness_def bindE_eq_Inr to_st_def om_publishStatus_def nm_out_def
              intro!: cong [OF g] split: option.splits if_splits)
      next
        case (N_BridgeConnectivityChanged_Signal b)
        with H g show ?thesis
          by (cases s) (auto simp: om_connectivity_def to_st_def om_publishStatus_def nm_out_def intro!: cong [OF g] split: if_splits)
      qed
      then show "if track (net_up (nx_json X)) (\<lambda>u. net_withdrawn (nx_json X) u \<noteq> None) u s \<noteq> s
        then ok (mset (event_clients carries u)) (op_en nm_tell (track (net_up (nx_json X)) (\<lambda>u. net_withdrawn (nx_json X) u \<noteq> None) u s) (op_ex nm_tell s k))
        else if r = TO_SUPER \<or> r = UNHANDLED then ok {#} k \<and> event_clients carries u = []
        else ok (mset (event_clients carries u)) k" using brd by auto }
  next
    fix g r k
    assume "ok {#} g \<and> event_clients carries u = []" "?H Operating (User u) g = Inr (r, k)"
    then show "ok (mset (event_clients carries u)) k" by (auto simp: super_st_def nm_out_def intro: cong)
  qed (simp_all add: er)
  then show ?thesis by (auto simp: ok_def)
qed

lemma net_started:
  assumes "kMaxNest < nx_loops X" "net_start X ts (net_handlers (nx_json X) nm_tell idle serve) (net_new nm cb) = Inr h"
  shows "hstate h = St (Leaf NotReady) \<and> ao_q h = [] \<and> ao_running h \<and> nm_answered answers (nm_out h) = [] \<and> nm_sent (nm_out h) = []"
proof -
  let ?H = "net_handlers (nx_json X) nm_tell idle serve" and ?h = "net_new nm cb\<lparr>ao_inst := True\<rparr> :: ('j, 'o, 'k, 'a) net_mgr"
  have "\<not> ao_running ?h" by (simp add: net_new_def)
  from op_start [OF assms(1) this, of NotReady] obtain g where g: "start_at (nx_loops X) ?H (St (Leaf NotReady)) ?h = Inr g"
    "hstate g = St (Leaf NotReady)" "ao_running g" "erase g = erase (?h\<lparr>trace_fn := True, probe_fn := True, hstate := Top_St, ao_running := True\<rparr>)"
    by (auto simp: net_new_def)
  have sel: "f g = f ?h" if "\<And>k. f (erase k) = f k" "f (?h\<lparr>trace_fn := True, probe_fn := True, hstate := Top_St, ao_running := True\<rparr>) = f ?h"
    for f :: "('j, 'o, 'k, 'a) net_mgr \<Rightarrow> 'b" using that g(4) by metis
  have q: "ao_q g = []" "om_io g = om_io ?h" by (subst sel; simp add: erase_def net_new_def)+
  have sub: "nm_answered answers (nm_out (om_subscribe ts tok k)) = nm_answered answers (nm_out k) \<and>
      nm_sent (nm_out (om_subscribe ts tok k)) = nm_sent (nm_out k) \<and> ao_q (om_subscribe ts tok k) = ao_q k \<and>
      hstate (om_subscribe ts tok k) = hstate k \<and> ao_running (om_subscribe ts tok k) = ao_running k" for tok and k :: "('j, 'o, 'k, 'a) net_mgr"
  proof (induction ts arbitrary: k)
    case (Cons t ts)
    from Cons [of "om_emit (Om_Subscribed (fst t) (snd t)) k"] show ?case
      by (simp add: om_subscribe_def case_prod_unfold) (simp add: om_emit_def nm_out_def nm_answered_def nm_sent_def)
  qed (simp add: om_subscribe_def om_emit_def nm_out_def nm_answered_def nm_sent_def)
  have "h = om_subscribe ts (nx_token X) g" using assms(2) g(1) by (simp add: net_start_def net_new_def)
  with sub [of "nx_token X" g] g(2,3) q show ?thesis by (simp add: nm_out_def net_new_def nm_answered_def nm_sent_def)
qed

text \<open>
  Every callback handed over was called, or waits exactly once: in the queue, with the bridge, or
  for good when the callback of its request threw.
\<close>

lemma net_accounts:
  assumes "net_run (net_handlers (nx_json X) nm_tell idle serve) respond carries holds X G P L h" "kMaxNest < nx_loops X"
  shows "(\<exists>s. hstate h = St (Leaf s)) \<and>
    G = mset (nm_answered answers (nm_out h)) + (\<Sum>k\<in>#P. mset (holds k)) + L + mset (nm_waiting carries (ao_q h))"
  using assms
proof (induction rule: net_run.induct)
  case (started ts nm cb h)
  with net_started [of ts nm cb h] show ?case by (auto simp: nm_waiting_def)
next
  case (post G P L h u)
  then show ?case by (auto simp: post_fifo_def nm_out_def nm_waiting_def)
next
  case (work G P L h res h')
  from work obtain s where s: "hstate h = St (Leaf s)" by blast
  show ?case
  proof (cases "ao_q h")
    case Nil
    with work show ?thesis by (auto simp: run_step_def ao_pop_def nm_sent_def)
  next
    case (Cons u us)
    with work(2) have d: "dispatch (nx_loops X) (net_handlers (nx_json X) nm_tell idle serve) (User u) (h\<lparr>ao_q := us\<rparr>) = Inr h'"
      by (auto simp: run_step_def ao_pop_def bindE_eq_Inr)
    have "hstate (h\<lparr>ao_q := us\<rparr>) = St (Leaf s)" using s by simp
    from dispatch_clients [OF work.prems this d] obtain s' xs where h': "hstate h' = St (Leaf s')" "nm_out h' = nm_out h @ xs"
      "ao_q h' = us" "net_clients answers holds xs = mset (event_clients carries u)" by (auto simp: nm_out_def)
    have "(\<Sum>k\<in>#mset (nm_sent xs). mset (holds k)) = mset (concat (map holds (nm_sent xs)))"
      by (induction "nm_sent xs") (auto simp: mset_concat sum_mset_sum_list [symmetric] comp_def)
    with work(3) [OF work.prems] Cons h' show ?thesis
      by (auto simp: nm_waiting_def net_clients_def nm_answered_def)
  qed
next
  case (reply G k P L h rsp h')
  from respond_gives [OF reply(2)] obtain xs where xs: "net_does xs h h'" "nm_answered answers xs = holds k"
    by (auto simp: net_gives_def)
  note d = net_doesD [OF xs(1)]
  from reply(3) [OF reply.prems] show ?case unfolding d(1,4,6) using xs(2) by (auto simp: nm_answered_def)
next
  case (threw G k P L h rsp f)
  from threw(3) [OF threw.prems] show ?case by auto
next
  case (listeners G P L h ls lv)
  then show ?case by (auto simp: nm_out_def)
next
  case (time G P L h i)
  then show ?case by (auto simp: nm_out_def)
qed

end

section \<open>A concrete environment\<close>

definition demo_nx :: "jtree net_ext" where
  "demo_nx = \<lparr>nx_json = tree_lib, nx_pa_id = ''pa-1'', nx_topic = (\<lambda>n. n), nx_token = 1, nx_loops = 9\<rparr>"

definition demo_net_up :: "jtree envelope" where
  "demo_net_up = fst (makeEventEnvelope 7 ''mpss'' (JObj [(''status'', JStr ''AVAILABLE'')]) 42)"

lemma demo_nx_loops: "kMaxNest < nx_loops demo_nx" "nx_loops demo_nx = 9"
  by (simp_all add: demo_nx_def kMaxNest_def)

text \<open>A signal that is posted and handled, in a run.\<close>

definition net_take :: "(ostate \<Rightarrow> (jtree, 'o) net_event event \<Rightarrow> (jtree, 'o, 'k, 'a) net_mgr \<Rightarrow> (status \<times> (jtree, 'o, 'k, 'a) net_mgr) result)
    \<Rightarrow> (jtree, 'o) net_event \<Rightarrow> (jtree, 'o, 'k, 'a) net_mgr \<Rightarrow> (jtree, 'o, 'k, 'a) net_mgr" where
  "net_take H u h = snd (projr (run_step 9 H (post_fifo u h)))"

lemma net_take_run:
  assumes "net_run H respond carries holds demo_nx G P L h" "ao_running h"
    and "map_sum id fst (run_step 9 H (post_fifo u h)) = Inr res"
  shows "net_run H respond carries holds demo_nx (G + mset (event_clients carries u))
    (P + mset (nm_sent (drop (length (nm_out h)) (nm_out (net_take H u h))))) L (net_take H u h)"
proof -
  have "run_step (nx_loops demo_nx) H (post_fifo u h) = Inr (res, net_take H u h)"
    using Inr_fst [OF assms(3)] unfolding net_take_def demo_nx_loops(2) .
  moreover have "nm_out (post_fifo u h) = nm_out h" by (simp add: post_fifo_def nm_out_def)
  ultimately show ?thesis using net_run.work [OF net_run.post [OF assms(1,2), of u]] by metis
qed

end
