(* ===== verification/Net_Vlan.thy ===== *)
theory Net_Vlan
  imports Net_Shell
begin

text \<open>
  \<open>SimulaVlanManager\<close> of \<open>component/net/VlanManager.cpp\<close>. Clients are named by numbers, a null callback
  is \<open>None\<close>.
\<close>

section \<open>Data\<close>

datatype network_type = NW_UNKNOWN | NW_LAN | NW_WAN

record vlan_config =
  vc_iface :: interface_type
  vc_vlanId :: "16 word"
  vc_isAccelerated :: bool
  vc_priority :: "8 word"
  vc_nwType :: network_type
  vc_createBridge :: bool

record vlan_bind =
  vb_vlanId :: int
  vb_bhInfo :: backhaul_info

text \<open>The manager's own signals; a query of bindings has one of two callbacks.\<close>

datatype 'j vlan_signal =
    CreateVlan_Signal vlan_config "nat option"
  | RemoveVlan_Signal "16 word" interface_type "nat option"
  | QueryVlanInfo_Signal "nat option"
  | BindVlan_Signal vlan_bind "nat option"
  | UnbindVlan_Signal vlan_bind "nat option"
  | QueryVlanBindings_Signal "backhaul_type option" int "nat option" "nat option"
  | VlanHwAccelEvt_Signal "'j envelope"

datatype vlan_cont =
    K_Create_Vlan "nat option"
  | K_Vlan_Response "nat option"
  | K_Query_Vlans "nat option"
  | K_Query_Bindings "nat option" "nat option"

datatype vlan_answer =
    Created nat bool error_code
  | Vlan_Response nat error_code
  | Vlans nat "vlan_config list" error_code
  | Bindings nat "vlan_bind list" error_code
  | Mapping nat "(int \<times> int) list" error_code

type_synonym 'j vlan_manager = "('j, 'j vlan_signal, vlan_cont, vlan_answer) net_mgr"

section \<open>Wire names\<close>

fun ifaceTypeToWire :: "interface_type \<Rightarrow> string" where
  "ifaceTypeToWire IT_WLAN = ''WLAN''"
| "ifaceTypeToWire IT_ETH = ''ETH''"
| "ifaceTypeToWire IT_ECM = ''ECM''"
| "ifaceTypeToWire IT_RNDIS = ''RNDIS''"
| "ifaceTypeToWire IT_MHI = ''MHI''"
| "ifaceTypeToWire IT_VMTAP0 = ''VMTAP0''"
| "ifaceTypeToWire IT_VMTAP1 = ''VMTAP1''"
| "ifaceTypeToWire IT_ETH2 = ''ETH2''"
| "ifaceTypeToWire IT_AP_PRIMARY = ''AP_PRIMARY''"
| "ifaceTypeToWire IT_AP_SECONDARY = ''AP_SECONDARY''"
| "ifaceTypeToWire IT_AP_TERTIARY = ''AP_TERTIARY''"
| "ifaceTypeToWire IT_AP_QUATERNARY = ''AP_QUATERNARY''"
| "ifaceTypeToWire _ = ''UNKNOWN''"

definition wireToIfaceType :: "string \<Rightarrow> interface_type" where
  "wireToIfaceType s =
     (if s = ''WLAN'' then IT_WLAN
      else if s = ''ETH'' then IT_ETH
      else if s = ''ECM'' then IT_ECM
      else if s = ''RNDIS'' then IT_RNDIS
      else if s = ''MHI'' then IT_MHI
      else if s = ''VMTAP0'' then IT_VMTAP0
      else if s = ''VMTAP1'' then IT_VMTAP1
      else if s = ''ETH2'' then IT_ETH2
      else if s = ''AP_PRIMARY'' then IT_AP_PRIMARY
      else if s = ''AP_SECONDARY'' then IT_AP_SECONDARY
      else if s = ''AP_TERTIARY'' then IT_AP_TERTIARY
      else if s = ''AP_QUATERNARY'' then IT_AP_QUATERNARY
      else IT_UNKNOWN)"

fun backhaulToWire :: "backhaul_type \<Rightarrow> string" where
  "backhaulToWire BH_ETH = ''ETH''"
| "backhaulToWire BH_USB = ''USB''"
| "backhaulToWire BH_WLAN = ''WLAN''"
| "backhaulToWire BH_WWAN = ''WWAN''"
| "backhaulToWire BH_BLE = ''BLE''"
| "backhaulToWire _ = ''''"

definition wireToBackhaul :: "string \<Rightarrow> backhaul_type" where
  "wireToBackhaul s =
     (if s = ''USB'' then BH_USB
      else if s = ''WLAN'' then BH_WLAN
      else if s = ''WWAN'' then BH_WWAN
      else if s = ''BLE'' then BH_BLE
      else BH_ETH)"

fun nwTypeToWire :: "network_type \<Rightarrow> string" where
  "nwTypeToWire NW_LAN = ''LAN''"
| "nwTypeToWire NW_WAN = ''WAN''"
| "nwTypeToWire _ = ''UNKNOWN''"

definition wireToNwType :: "string \<Rightarrow> network_type" where
  "wireToNwType s = (if s = ''WAN'' then NW_WAN else if s = ''LAN'' then NW_LAN else NW_UNKNOWN)"

definition bindConfigToJson :: "'j json_lib \<Rightarrow> vlan_bind \<Rightarrow> (string \<times> 'j) list" where
  "bindConfigToJson J cfg =
     (let bh = vb_bhInfo cfg in
      [(''vlanId'', j_of_int J (vb_vlanId cfg)), (''backhaul'', j_of_string J (backhaulToWire (bh_backhaul bh)))] @
      only_if (bh_backhaul bh = BH_WWAN) ''slot'' (j_of_int J (bh_slotId bh)) @
      only_if (bh_backhaul bh = BH_WWAN) ''profileId'' (j_of_int J (bh_profileId bh)) @
      only_if (bh_vlanId bh \<ge> 0) ''bhVlanId'' (j_of_int J (bh_vlanId bh)))"

definition jsonToVlanConfig :: "'j json_lib \<Rightarrow> 'j \<Rightarrow> vlan_config result" where
  "jsonToVlanConfig J j =
     bindE (value_int J j ''vlanId'') (\<lambda>v.
     bindE (value_string J j ''ifaceType'') (\<lambda>i.
     bindE (value_bool J j ''isAccelerated'') (\<lambda>a.
     bindE (value_int J j ''priority'') (\<lambda>p.
     bindE (value_string_or ''LAN'' J j ''nwType'') (\<lambda>nw.
     bindE (value_bool_or True J j ''createBridge'') (\<lambda>b.
       Inr \<lparr>vc_iface = wireToIfaceType i, vc_vlanId = word_of_int v, vc_isAccelerated = a, vc_priority = word_of_int p,
            vc_nwType = wireToNwType nw, vc_createBridge = b\<rparr>))))))"

definition jsonToBindConfig :: "'j json_lib \<Rightarrow> 'j \<Rightarrow> vlan_bind result" where
  "jsonToBindConfig J j =
     bindE (value_int J j ''vlanId'') (\<lambda>v.
     bindE (value_string J j ''backhaul'') (\<lambda>b.
     bindE (if contains J j ''slot'' then value_int_or 1 J j ''slot'' else Inr (bh_slotId no_backhaul)) (\<lambda>slot.
     bindE (if contains J j ''profileId'' then value_int_or (-1) J j ''profileId'' else Inr (bh_profileId no_backhaul)) (\<lambda>p.
     bindE (if contains J j ''bhVlanId'' then value_int_or (-1) J j ''bhVlanId'' else Inr (bh_vlanId no_backhaul)) (\<lambda>bv.
       Inr \<lparr>vb_vlanId = v,
            vb_bhInfo = \<lparr>bh_backhaul = wireToBackhaul b, bh_slotId = slot, bh_profileId = p, bh_vlanId = bv\<rparr>\<rparr>)))))"

section \<open>Handlers of single signals\<close>

text \<open>The data of the create request.\<close>

definition vlanConfigToJson :: "'j json_lib \<Rightarrow> vlan_config \<Rightarrow> (string \<times> 'j) list" where
  "vlanConfigToJson J c =
     [(''vlanId'', j_of_int J (sint (vc_vlanId c))), (''ifaceType'', j_of_string J (ifaceTypeToWire (vc_iface c))),
      (''isAccelerated'', j_of_bool J (vc_isAccelerated c)), (''priority'', j_of_int J (uint (vc_priority c))),
      (''nwType'', j_of_string J (nwTypeToWire (vc_nwType c))), (''createBridge'', j_of_bool J (vc_createBridge c))]"

text \<open>In \<open>NotReady\<close> a client is answered that the device is not ready.\<close>

fun vlan_idle :: "'j vlan_signal \<Rightarrow> 'j vlan_manager \<Rightarrow> 'j vlan_manager result" where
  "vlan_idle (CreateVlan_Signal c cb) h = Inr (om_answer (\<lambda>b. Created b False EC_DEVICE_NOT_READY) cb h)"
| "vlan_idle (RemoveVlan_Signal v i cb) h = Inr (om_answer (\<lambda>b. Vlan_Response b EC_DEVICE_NOT_READY) cb h)"
| "vlan_idle (BindVlan_Signal c cb) h = Inr (om_answer (\<lambda>b. Vlan_Response b EC_DEVICE_NOT_READY) cb h)"
| "vlan_idle (UnbindVlan_Signal c cb) h = Inr (om_answer (\<lambda>b. Vlan_Response b EC_DEVICE_NOT_READY) cb h)"
| "vlan_idle (QueryVlanInfo_Signal cb) h = Inr (om_answer (\<lambda>b. Vlans b [] EC_DEVICE_NOT_READY) cb h)"
| "vlan_idle (QueryVlanBindings_Signal bh slot bcb mcb) h =
     Inr (om_answer (\<lambda>b. Mapping b [] EC_DEVICE_NOT_READY) mcb (om_answer (\<lambda>b. Bindings b [] EC_DEVICE_NOT_READY) bcb h))"
| "vlan_idle (VlanHwAccelEvt_Signal env) h = Inr h"

definition vlan_hwAccelEvt :: "'j json_lib \<Rightarrow> 'j envelope \<Rightarrow> 'j vlan_manager \<Rightarrow> 'j vlan_manager result" where
  "vlan_hwAccelEvt J env h =
     (case env_data env of
        None \<Rightarrow> Inr h
      | Some d \<Rightarrow> bindE (value_string J d ''state'') (\<lambda>s.
          Inr (nm_broadcastToListeners (On_Net_Hw_Acceleration (s = ''ACTIVE'')) h)))"

definition bindings_data :: "'j json_lib \<Rightarrow> backhaul_type option \<Rightarrow> int \<Rightarrow> (string \<times> 'j) list" where
  "bindings_data J bh slot =
     (case bh of
        None \<Rightarrow> []
      | Some b \<Rightarrow> (let wire = backhaulToWire b in only_if (wire \<noteq> []) ''backhaul'' (j_of_string J wire))) @
     [(''slot'', j_of_int J slot)]"

fun vlan_serve :: "'j net_ext \<Rightarrow> 'j vlan_signal \<Rightarrow> 'j vlan_manager \<Rightarrow> 'j vlan_manager result" where
  "vlan_serve X (CreateVlan_Signal c cb) h =
     Inr (net_request X ''net_vlan.create_vlan.req'' ''net_vlan.create_vlan.rsp'' (vlanConfigToJson (nx_json X) c) (K_Create_Vlan cb) h)"
| "vlan_serve X (RemoveVlan_Signal v i cb) h =
     Inr (net_request X ''net_vlan.remove_vlan.req'' ''net_vlan.remove_vlan.rsp''
       [(''vlanId'', j_of_int (nx_json X) (sint v)), (''ifaceType'', j_of_string (nx_json X) (ifaceTypeToWire i))] (K_Vlan_Response cb) h)"
| "vlan_serve X (QueryVlanInfo_Signal cb) h =
     Inr (net_request X ''net_vlan.query_vlan_info.req'' ''net_vlan.query_vlan_info.rsp'' [] (K_Query_Vlans cb) h)"
| "vlan_serve X (BindVlan_Signal c cb) h =
     Inr (net_request X ''net_vlan.bind_vlan.req'' ''net_vlan.bind_vlan.rsp'' (bindConfigToJson (nx_json X) c) (K_Vlan_Response cb) h)"
| "vlan_serve X (UnbindVlan_Signal c cb) h =
     Inr (net_request X ''net_vlan.unbind_vlan.req'' ''net_vlan.unbind_vlan.rsp'' (bindConfigToJson (nx_json X) c) (K_Vlan_Response cb) h)"
| "vlan_serve X (QueryVlanBindings_Signal bh slot bcb mcb) h =
     Inr (net_request X ''net_vlan.query_vlan_bindings.req'' ''net_vlan.query_vlan_bindings.rsp''
       (bindings_data (nx_json X) bh slot) (K_Query_Bindings bcb mcb) h)"
| "vlan_serve X (VlanHwAccelEvt_Signal env) h = vlan_hwAccelEvt (nx_json X) env h"

section \<open>State handlers\<close>

definition VlanNotReady_St :: "'j net_ext \<Rightarrow> ('j, 'j vlan_signal) net_event event \<Rightarrow> 'j vlan_manager \<Rightarrow> (status \<times> 'j vlan_manager) result" where
  "VlanNotReady_St X = net_NotReady_St (nx_json X) vlan_idle"

definition VlanReady_St :: "'j net_ext \<Rightarrow> ('j, 'j vlan_signal) net_event event \<Rightarrow> 'j vlan_manager \<Rightarrow> (status \<times> 'j vlan_manager) result" where
  "VlanReady_St X = net_Ready_St (nx_json X) nm_tell (vlan_serve X)"

fun vlan_handlers :: "'j net_ext \<Rightarrow> ostate \<Rightarrow> ('j, 'j vlan_signal) net_event event \<Rightarrow> 'j vlan_manager \<Rightarrow> (status \<times> 'j vlan_manager) result" where
  "vlan_handlers X Operating = net_Operating_St"
| "vlan_handlers X (Leaf NotReady) = VlanNotReady_St X"
| "vlan_handlers X (Leaf Ready) = VlanReady_St X"

section \<open>Responses\<close>

definition create_response :: "'j json_lib \<Rightarrow> nat option \<Rightarrow> 'j envelope option \<Rightarrow> 'j vlan_manager \<Rightarrow> 'j vlan_manager result" where
  "create_response J cb rsp h =
     (case cb of
        None \<Rightarrow> Inr h
      | Some c \<Rightarrow>
          (case rsp of
             None \<Rightarrow> Inr (om_emit (Om_Answered (Created c False EC_OPERATION_TIMEOUT)) h)
           | Some env \<Rightarrow>
               (case env_error env of
                  Some e \<Rightarrow> bindE (value_string J e ''code'') (\<lambda>s. Inr (om_emit (Om_Answered (Created c False (parseErrorCode s))) h))
                | None \<Rightarrow>
                    bindE (case env_data env of None \<Rightarrow> Inr False | Some d \<Rightarrow> value_bool J d ''isAccelerated'') (\<lambda>accel.
                      Inr (om_emit (Om_Answered (Created c accel EC_SUCCESS)) h)))))"

text \<open>
  Both callbacks of a query of bindings read the same array; what the first one reads without
  throwing, the second one does too.
\<close>

definition bindings_response :: "'j json_lib \<Rightarrow> nat option \<Rightarrow> nat option \<Rightarrow> 'j envelope option \<Rightarrow> 'j vlan_manager \<Rightarrow> 'j vlan_manager result" where
  "bindings_response J bcb mcb rsp h =
     (case good_data rsp of
        None \<Rightarrow> Inr (om_answer (\<lambda>b. Mapping b [] (query_error rsp)) mcb (om_answer (\<lambda>b. Bindings b [] (query_error rsp)) bcb h))
      | Some d \<Rightarrow> bindE (value_items J d ''bindings'') (\<lambda>arr.
          bindE (case bcb of
               None \<Rightarrow> Inr h
             | Some c \<Rightarrow> bindE (map_result (jsonToBindConfig J) arr) (\<lambda>bs. Inr (om_emit (Om_Answered (Bindings c bs EC_SUCCESS)) h))) (\<lambda>h.
          case mcb of
            None \<Rightarrow> Inr h
          | Some c \<Rightarrow>
              bindE (map_result (\<lambda>b. bindE (value_int_or (-1) J b ''profileId'') (\<lambda>p. bindE (value_int J b ''vlanId'') (\<lambda>v. Inr (p, v))))
                  (filter (\<lambda>b. contains J b ''profileId'') arr)) (\<lambda>m.
                Inr (om_emit (Om_Answered (Mapping c m EC_SUCCESS)) h)))))"

fun vlan_response :: "'j net_ext \<Rightarrow> vlan_cont \<Rightarrow> 'j envelope option \<Rightarrow> 'j vlan_manager \<Rightarrow> 'j vlan_manager result" where
  "vlan_response X (K_Create_Vlan cb) rsp h = create_response (nx_json X) cb rsp h"
| "vlan_response X (K_Vlan_Response cb) rsp h = completeResponseCb (nx_json X) Vlan_Response cb rsp h"
| "vlan_response X (K_Query_Vlans cb) rsp h =
     completeQueryCb (\<lambda>d. bindE (value_items (nx_json X) d ''vlans'') (map_result (jsonToVlanConfig (nx_json X)))) Vlans [] cb rsp h"
| "vlan_response X (K_Query_Bindings bcb mcb) rsp h = bindings_response (nx_json X) bcb mcb rsp h"

section \<open>Lifecycle and public interface\<close>

definition vlan_new :: "nat option \<Rightarrow> 'j vlan_manager" where
  "vlan_new initCb = net_new ''VlanManager'' initCb"

definition vlan_topics :: "'j net_ext \<Rightarrow> (string \<times> string) list" where
  "vlan_topics X =
     [(nx_topic X ''net_vlan.subsys_ready_net_vlan.ind'', ''net_vlan.subsys_ready_net_vlan.ind''),
      (nx_topic X ''net_vlan.hw_accel_state.ind'', ''net_vlan.hw_accel_state.ind'')]"

definition vlan_start :: "'j net_ext \<Rightarrow> 'j vlan_manager \<Rightarrow> 'j vlan_manager result" where
  "vlan_start X = net_start X (vlan_topics X) (vlan_handlers X)"

definition vlan_unsubscribeFromBridge :: "'j net_ext \<Rightarrow> 'j vlan_manager \<Rightarrow> 'j vlan_manager" where
  "vlan_unsubscribeFromBridge X = om_unsubscribe (map fst (vlan_topics X))"

definition vlan_destroy :: "nat \<Rightarrow> 'j net_ext \<Rightarrow> 'j vlan_manager \<Rightarrow> 'j vlan_manager result" where
  "vlan_destroy k X h = stop k (nx_loops X) (vlan_handlers X) False (vlan_unsubscribeFromBridge X h)"

definition vlan_handleInd :: "'j net_ext \<Rightarrow> string \<Rightarrow> 'j envelope \<Rightarrow> 'j vlan_manager \<Rightarrow> 'j vlan_manager" where
  "vlan_handleInd X topic env =
     post_fifo (if topic = nx_topic X ''net_vlan.subsys_ready_net_vlan.ind'' then N_ReadinessEvt_Signal env
                else N_Signal (VlanHwAccelEvt_Signal env))"

definition createVlan :: "vlan_config \<Rightarrow> nat option \<Rightarrow> 'j vlan_manager \<Rightarrow> api_status \<times> 'j vlan_manager" where
  "createVlan c cb h =
     (if \<not> om_isReadyDerived h then (NOTREADY, h)
      else if vc_priority c > 7 then (INVALIDPARAM, h)
      else (SUCCESS, post_fifo (N_Signal (CreateVlan_Signal c cb)) h))"

definition removeVlan :: "16 word \<Rightarrow> interface_type \<Rightarrow> nat option \<Rightarrow> 'j vlan_manager \<Rightarrow> api_status \<times> 'j vlan_manager" where
  "removeVlan v i cb = om_post (N_Signal (RemoveVlan_Signal v i cb))"

definition queryVlanInfo :: "nat option \<Rightarrow> 'j vlan_manager \<Rightarrow> api_status \<times> 'j vlan_manager" where
  "queryVlanInfo cb = om_post (N_Signal (QueryVlanInfo_Signal cb))"

definition bindToBackhaul :: "vlan_bind \<Rightarrow> nat option \<Rightarrow> 'j vlan_manager \<Rightarrow> api_status \<times> 'j vlan_manager" where
  "bindToBackhaul c cb = om_post (N_Signal (BindVlan_Signal c cb))"

definition unbindFromBackhaul :: "vlan_bind \<Rightarrow> nat option \<Rightarrow> 'j vlan_manager \<Rightarrow> api_status \<times> 'j vlan_manager" where
  "unbindFromBackhaul c cb = om_post (N_Signal (UnbindVlan_Signal c cb))"

definition queryVlanToBackhaulBindings :: "backhaul_type \<Rightarrow> nat option \<Rightarrow> int \<Rightarrow> 'j vlan_manager \<Rightarrow> api_status \<times> 'j vlan_manager" where
  "queryVlanToBackhaulBindings bh cb slot = om_post (N_Signal (QueryVlanBindings_Signal (Some bh) slot cb None))"

text \<open>The deprecated operations on profiles: the backhaul is the cellular one.\<close>

definition profile_bind :: "int \<Rightarrow> int \<Rightarrow> int \<Rightarrow> vlan_bind" where
  "profile_bind p v slot =
     \<lparr>vb_vlanId = v, vb_bhInfo = no_backhaul\<lparr>bh_backhaul := BH_WWAN, bh_slotId := slot, bh_profileId := p\<rparr>\<rparr>"

definition bindWithProfile :: "int \<Rightarrow> int \<Rightarrow> nat option \<Rightarrow> int \<Rightarrow> 'j vlan_manager \<Rightarrow> api_status \<times> 'j vlan_manager" where
  "bindWithProfile p v cb slot = bindToBackhaul (profile_bind p v slot) cb"

definition unbindFromProfile :: "int \<Rightarrow> int \<Rightarrow> nat option \<Rightarrow> int \<Rightarrow> 'j vlan_manager \<Rightarrow> api_status \<times> 'j vlan_manager" where
  "unbindFromProfile p v cb slot = unbindFromBackhaul (profile_bind p v slot) cb"

definition queryVlanMappingList :: "nat option \<Rightarrow> int \<Rightarrow> 'j vlan_manager \<Rightarrow> api_status \<times> 'j vlan_manager" where
  "queryVlanMappingList cb slot = om_post (N_Signal (QueryVlanBindings_Signal (Some BH_WWAN) slot None cb))"

section \<open>Clients\<close>

fun vlan_carries :: "'j vlan_signal \<Rightarrow> nat list" where
  "vlan_carries (CreateVlan_Signal c cb) = opt_list cb"
| "vlan_carries (RemoveVlan_Signal v i cb) = opt_list cb"
| "vlan_carries (QueryVlanInfo_Signal cb) = opt_list cb"
| "vlan_carries (BindVlan_Signal c cb) = opt_list cb"
| "vlan_carries (UnbindVlan_Signal c cb) = opt_list cb"
| "vlan_carries (QueryVlanBindings_Signal bh slot bcb mcb) = opt_list bcb @ opt_list mcb"
| "vlan_carries (VlanHwAccelEvt_Signal env) = []"

fun vlan_holds :: "vlan_cont \<Rightarrow> nat list" where
  "vlan_holds (K_Create_Vlan cb) = opt_list cb"
| "vlan_holds (K_Vlan_Response cb) = opt_list cb"
| "vlan_holds (K_Query_Vlans cb) = opt_list cb"
| "vlan_holds (K_Query_Bindings bcb mcb) = opt_list bcb @ opt_list mcb"

fun vlan_answers :: "vlan_answer \<Rightarrow> nat list" where
  "vlan_answers (Created c a er) = [c]"
| "vlan_answers (Vlan_Response c er) = [c]"
| "vlan_answers (Vlans c xs er) = [c]"
| "vlan_answers (Bindings c xs er) = [c]"
| "vlan_answers (Mapping c xs er) = [c]"

lemma vlan_handlers_net: "vlan_handlers X = net_handlers (nx_json X) nm_tell vlan_idle (vlan_serve X)"
proof
  fix c :: ostate
  show "vlan_handlers X c = net_handlers (nx_json X) nm_tell vlan_idle (vlan_serve X) c"
    by (cases c rule: ostate_cases) (simp_all add: VlanNotReady_St_def VlanReady_St_def)
qed

lemma bindings_gives:
  assumes "bindings_response J bcb mcb rsp h = Inr h'"
  shows "net_gives vlan_answers (opt_list bcb @ opt_list mcb) h h'"
proof (cases "good_data rsp")
  case None
  with assms have "h' = om_answer (\<lambda>b. Mapping b [] (query_error rsp)) mcb (om_answer (\<lambda>b. Bindings b [] (query_error rsp)) bcb h)"
    by (simp add: bindings_response_def)
  then show ?thesis by (auto intro!: net_gives_trans net_gives_answer)
next
  case (Some d)
  with assms obtain arr h1 where
    1: "(case bcb of None \<Rightarrow> Inr h
         | Some c \<Rightarrow> bindE (map_result (jsonToBindConfig J) arr) (\<lambda>bs. Inr (om_emit (Om_Answered (Bindings c bs EC_SUCCESS)) h))) = Inr h1"
    and 2: "mcb = None \<and> h' = h1 \<or> (\<exists>c m. mcb = Some c \<and> h' = om_emit (Om_Answered (Mapping c m EC_SUCCESS)) h1)"
    by (cases mcb) (fastforce simp: bindings_response_def bindE_eq_Inr)+
  have "net_gives vlan_answers (opt_list bcb) h h1" using 1
    by (auto simp: bindE_eq_Inr net_gives_none net_gives_emit split: option.splits)
  moreover have "net_gives vlan_answers (opt_list mcb) h1 h'" using 2 by (auto simp: net_gives_none net_gives_emit)
  ultimately show ?thesis by (rule net_gives_trans)
qed

interpretation vlan: net_service X vlan_idle "vlan_serve X" "vlan_response X" vlan_carries vlan_holds vlan_answers
  for X :: "'j net_ext"
proof unfold_locales
  fix e k rsp and h h' :: "'j vlan_manager"
  show "vlan_idle e h = Inr h' \<Longrightarrow> net_serves vlan_answers vlan_holds (vlan_carries e) h h'"
    by (cases e) (auto intro!: net_serves_gives net_gives_trans net_gives_answer net_gives_none)
  show "vlan_serve X e h = Inr h' \<Longrightarrow> net_serves vlan_answers vlan_holds (vlan_carries e) h h'"
    by (cases e) (auto simp: net_serves_request vlan_hwAccelEvt_def bindE_eq_Inr net_gives_none net_gives_broadcast
        intro: net_serves_gives split: option.splits)
  show "vlan_response X k rsp h = Inr h' \<Longrightarrow> net_gives vlan_answers (vlan_holds k) h h'"
    by (cases k) (auto simp: create_response_def bindE_eq_Inr intro: net_gives_none net_gives_emit net_gives_response net_gives_query
        bindings_gives split: option.splits)
qed

section \<open>Properties\<close>

text \<open>C29: no client of the VLAN manager is forgotten or answered twice. In every run, the callbacks that
  were handed over are those that were called, those of operations still queued, those of requests
  that the bridge holds, and those whose response made the callback throw, with multiplicity; also an
  operation that finds the manager no longer ready is answered.\<close>

theorem vlan_clients_answered:
  assumes "net_run (vlan_handlers X) (vlan_response X) vlan_carries vlan_holds X G P L h" "kMaxNest < nx_loops X"
  shows "G = mset (nm_answered vlan_answers (nm_out h)) + (\<Sum>k\<in>#P. mset (vlan_holds k)) + L +
    mset (nm_waiting vlan_carries (ao_q h))"
  using vlan.net_accounts [OF assms(1) [unfolded vlan_handlers_net] assms(2)] by blast

definition demo_vlan :: vlan_config where
  "demo_vlan = \<lparr>vc_iface = IT_ETH, vc_vlanId = 4, vc_isAccelerated = True, vc_priority = 3, vc_nwType = NW_LAN, vc_createBridge = True\<rparr>"

text \<open>The manager starts, gets ready, and handles a request to create a VLAN.\<close>

definition demo_vm0 :: "jtree vlan_manager" where
  "demo_vm0 = projr (vlan_start demo_nx (vlan_new None))"

definition demo_vm1 :: "jtree vlan_manager" where
  "demo_vm1 = net_take (vlan_handlers demo_nx) (N_ReadinessEvt_Signal demo_net_up) demo_vm0"

definition demo_vm2 :: "jtree vlan_manager" where
  "demo_vm2 = net_take (vlan_handlers demo_nx) (N_Signal (CreateVlan_Signal demo_vlan (Some 3))) demo_vm1"

lemma demo_vm_runs:
  "map_sum id (\<lambda>_. ()) (vlan_start demo_nx (vlan_new None)) = Inr ()" "ao_running demo_vm0" "ao_running demo_vm1"
  "map_sum id fst (run_step 9 (vlan_handlers demo_nx) (post_fifo (N_ReadinessEvt_Signal demo_net_up) demo_vm0)) = Inr Dispatched"
  "map_sum id fst (run_step 9 (vlan_handlers demo_nx) (post_fifo (N_Signal (CreateVlan_Signal demo_vlan (Some 3))) demo_vm1)) = Inr Dispatched"
  "nm_sent (drop (length (nm_out demo_vm0)) (nm_out demo_vm1)) = []"
  "nm_sent (drop (length (nm_out demo_vm1)) (nm_out demo_vm2)) = [K_Create_Vlan (Some 3)]"
  by code_simp+

lemma demo_vm_run:
  "net_run (vlan_handlers demo_nx) (vlan_response demo_nx) vlan_carries vlan_holds demo_nx {#3#} {#K_Create_Vlan (Some 3)#} {#} demo_vm2"
proof -
  have "vlan_start demo_nx (vlan_new None) = Inr demo_vm0"
    using demo_vm_runs(1) unfolding demo_vm0_def by (cases "vlan_start demo_nx (vlan_new None)") auto
  then have r0: "net_run (vlan_handlers demo_nx) (vlan_response demo_nx) vlan_carries vlan_holds demo_nx {#} {#} {#} demo_vm0"
    unfolding vlan_start_def vlan_new_def by (rule net_run.started)
  note r1 = net_take_run [OF r0 demo_vm_runs(2,4), folded demo_vm1_def, unfolded demo_vm_runs(6)]
  from net_take_run [OF r1 demo_vm_runs(3,5), folded demo_vm2_def, unfolded demo_vm_runs(7)] show ?thesis by simp
qed

theorem vlan_clients_answered_witness:
  "{#3#} = mset (nm_answered vlan_answers (nm_out demo_vm2)) + (\<Sum>k\<in>#{#K_Create_Vlan (Some 3)#}. mset (vlan_holds k)) + {#} +
    mset (nm_waiting vlan_carries (ao_q demo_vm2))"
  by (rule vlan_clients_answered [OF demo_vm_run demo_nx_loops(1)])

lemma vlan_names:
  shows "ifaceTypeToWire t = fromIfaceType t" and "wireToIfaceType s = toIfaceType s"
    and "backhaulToWire b = fromBackhaul b" and "wireToBackhaul s = toBackhaul s"
proof -
  show "ifaceTypeToWire t = fromIfaceType t" by (cases t) simp_all
  show "backhaulToWire b = fromBackhaul b" by (cases b) simp_all
qed (simp_all add: wireToIfaceType_def toIfaceType_def wireToBackhaul_def toBackhaul_def)

lemma bind_members:
  "bh_backhaul (vb_bhInfo c) \<noteq> BH_MAX_SUPPORTED \<Longrightarrow> map_of (rev (bindConfigToJson J c)) =
     (map_of (rev (backhaul_members J (vb_bhInfo c))))(''vlanId'' \<mapsto> j_of_int J (vb_vlanId c))"
  by (auto simp: bindConfigToJson_def backhaul_members_def Let_def only_if_def vlan_names fun_eq_iff)

lemma bind_read:
  "jsonToBindConfig J j = bindE (value_int J j ''vlanId'') (\<lambda>v. bindE (toBackhaulInfo J j) (\<lambda>bh. Inr \<lparr>vb_vlanId = v, vb_bhInfo = bh\<rparr>))"
  by (simp add: jsonToBindConfig_def toBackhaulInfo_def DEFAULT_SLOT_def vlan_names bindE_assoc)

text \<open>The VLAN manager spells and reads everything as the other network managers do, although it has
  its own copies of the conversions: interfaces and backhauls have the same names in both directions,
  the message that binds a VLAN has the members of the shared backhaul message and the VLAN beside
  them (a backhaul without a name apart), and it is read by the shared reader.\<close>

theorem vlan_wire_agrees:
  shows "ifaceTypeToWire = fromIfaceType \<and> wireToIfaceType = toIfaceType \<and> backhaulToWire = fromBackhaul \<and>
    wireToBackhaul = toBackhaul \<and>
    (bh_backhaul (vb_bhInfo c) = BH_MAX_SUPPORTED \<or>
      map_of (rev (bindConfigToJson J c)) = (map_of (rev (backhaul_members J (vb_bhInfo c))))(''vlanId'' \<mapsto> j_of_int J (vb_vlanId c))) \<and>
    jsonToBindConfig J j = bindE (value_int J j ''vlanId'') (\<lambda>v. bindE (toBackhaulInfo J j) (\<lambda>bh. Inr \<lparr>vb_vlanId = v, vb_bhInfo = bh\<rparr>))"
  using bind_members [of c J] bind_read [of J j] by (auto simp: fun_eq_iff vlan_names)

text \<open>The configuration of a VLAN survives the wire: what the create request says of it, and what a
  query reports of it in the same form, is read back unchanged, every member at its width; and so is
  a binding, up to the members that are not sent.\<close>

theorem vlan_config_roundtrip:
  assumes "json_ok J" "backhaul_ok (vb_bhInfo b)" "in_int (vb_vlanId b)"
  shows "jsonToVlanConfig J (j_members J (vlanConfigToJson J c)) = Inr c \<and>
    jsonToBindConfig J (j_members J (bindConfigToJson J b)) = Inr (b\<lparr>vb_bhInfo := sent_backhaul (vb_bhInfo b)\<rparr>)"
proof
  have nw: "wireToNwType (nwTypeToWire t) = t" for t by (cases t) (simp_all add: wireToNwType_def)
  show "jsonToVlanConfig J (j_members J (vlanConfigToJson J c)) = Inr c"
    using assms(1) by (simp add: jsonToVlanConfig_def vlanConfigToJson_def written vlan_names nw)
  let ?j = "j_members J (bindConfigToJson J b)"
  have m: "map_of (rev (bindConfigToJson J b)) = (map_of (rev (backhaul_members J (vb_bhInfo b))))(''vlanId'' \<mapsto> j_of_int J (vb_vlanId b))"
    using assms(2) by (intro bind_members) (simp add: backhaul_ok_def)
  have "toBackhaulInfo J ?j = Inr (sent_backhaul (vb_bhInfo b))"
    using assms(1,2) by (intro backhaul_written) (auto simp: j_members_object j_members_find m)
  moreover have "value_int J ?j ''vlanId'' = Inr (vb_vlanId b)"
    using assms(1,3) by (simp add: written m)
  ultimately show "jsonToBindConfig J ?j = Inr (b\<lparr>vb_bhInfo := sent_backhaul (vb_bhInfo b)\<rparr>)"
    by (simp add: bind_read)
qed

theorem vlan_config_roundtrip_witness:
  "jsonToVlanConfig tree_lib (j_members tree_lib (vlanConfigToJson tree_lib demo_vlan)) = Inr demo_vlan \<and>
   jsonToBindConfig tree_lib (j_members tree_lib (bindConfigToJson tree_lib (profile_bind 5 4 2))) = Inr (profile_bind 5 4 2)"
  using vlan_config_roundtrip [OF tree_lib_ok, of "profile_bind 5 4 2" demo_vlan]
  by (simp add: profile_bind_def no_backhaul_def backhaul_ok_def in_int_def sent_backhaul_def)

end
