(* ===== verification/Net_Nat.thy ===== *)
theory Net_Nat
  imports Net_Shell
begin

text \<open>
  \<open>SimulaNatManager\<close> of \<open>component/net/NatManager.cpp\<close> and \<open>SimulaSocksManager\<close> of
  \<open>component/net/SocksManager.cpp\<close>.
\<close>

section \<open>Static address translation: data\<close>

record nat_config =
  nc_addr :: string
  nc_port :: "16 word"
  nc_globalPort :: "16 word"
  nc_proto :: "8 word"

datatype nat_signal =
    AddNatEntry_Signal backhaul_info nat_config "nat option"
  | RemoveNatEntry_Signal backhaul_info nat_config "nat option"
  | RequestNatEntries_Signal backhaul_info "nat option"

datatype nat_cont = K_Nat_Response "nat option" | K_Nat_Entries "nat option"

datatype nat_answer = Nat_Response nat error_code | Nat_Entries nat "nat_config list" error_code

type_synonym 'j nat_manager = "('j, nat_signal, nat_cont, nat_answer) net_mgr"

section \<open>Static address translation: operations\<close>

definition fromNatConfig :: "'j json_lib \<Rightarrow> backhaul_info \<Rightarrow> nat_config \<Rightarrow> (string \<times> 'j) list" where
  "fromNatConfig J bh c =
     backhaul_members J bh @
     [(''addr'', j_of_string J (nc_addr c)), (''port'', j_of_int J (uint (nc_port c))),
      (''globalPort'', j_of_int J (uint (nc_globalPort c))), (''proto'', j_of_int J (uint (nc_proto c)))]"

definition toNatConfig :: "'j json_lib \<Rightarrow> 'j \<Rightarrow> nat_config result" where
  "toNatConfig J j =
     bindE (value_string J j ''addr'') (\<lambda>a.
     bindE (value_int J j ''port'') (\<lambda>p.
     bindE (value_int J j ''globalPort'') (\<lambda>g.
     bindE (value_int_or 255 J j ''proto'') (\<lambda>pr.
       Inr \<lparr>nc_addr = a, nc_port = word_of_int p, nc_globalPort = word_of_int g, nc_proto = word_of_int pr\<rparr>))))"

definition backhaulFromProfileId :: "int \<Rightarrow> int \<Rightarrow> backhaul_info" where
  "backhaulFromProfileId p slot = no_backhaul\<lparr>bh_backhaul := BH_WWAN, bh_slotId := slot, bh_profileId := p\<rparr>"

fun nat_idle :: "nat_signal \<Rightarrow> 'j nat_manager \<Rightarrow> 'j nat_manager result" where
  "nat_idle (AddNatEntry_Signal bh c cb) h = Inr (om_answer (\<lambda>b. Nat_Response b EC_DEVICE_NOT_READY) cb h)"
| "nat_idle (RemoveNatEntry_Signal bh c cb) h = Inr (om_answer (\<lambda>b. Nat_Response b EC_DEVICE_NOT_READY) cb h)"
| "nat_idle (RequestNatEntries_Signal bh cb) h = Inr (om_answer (\<lambda>b. Nat_Entries b [] EC_DEVICE_NOT_READY) cb h)"

fun nat_serve :: "'j net_ext \<Rightarrow> nat_signal \<Rightarrow> 'j nat_manager \<Rightarrow> 'j nat_manager result" where
  "nat_serve X (AddNatEntry_Signal bh c cb) h =
     Inr (net_request X ''net_nat.add_nat_entry.req'' ''net_nat.add_nat_entry.rsp'' (fromNatConfig (nx_json X) bh c) (K_Nat_Response cb) h)"
| "nat_serve X (RemoveNatEntry_Signal bh c cb) h =
     Inr (net_request X ''net_nat.remove_nat_entry.req'' ''net_nat.remove_nat_entry.rsp'' (fromNatConfig (nx_json X) bh c) (K_Nat_Response cb) h)"
| "nat_serve X (RequestNatEntries_Signal bh cb) h =
     Inr (net_request X ''net_nat.request_nat_entries.req'' ''net_nat.request_nat_entries.rsp''
       (backhaul_members (nx_json X) bh) (K_Nat_Entries cb) h)"

definition NatNotReady_St :: "'j net_ext \<Rightarrow> ('j, nat_signal) net_event event \<Rightarrow> 'j nat_manager \<Rightarrow> (status \<times> 'j nat_manager) result" where
  "NatNotReady_St X = net_NotReady_St (nx_json X) nat_idle"

definition NatReady_St :: "'j net_ext \<Rightarrow> ('j, nat_signal) net_event event \<Rightarrow> 'j nat_manager \<Rightarrow> (status \<times> 'j nat_manager) result" where
  "NatReady_St X = net_Ready_St (nx_json X) nm_tell (nat_serve X)"

fun nat_handlers :: "'j net_ext \<Rightarrow> ostate \<Rightarrow> ('j, nat_signal) net_event event \<Rightarrow> 'j nat_manager \<Rightarrow> (status \<times> 'j nat_manager) result" where
  "nat_handlers X Operating = net_Operating_St"
| "nat_handlers X (Leaf NotReady) = NatNotReady_St X"
| "nat_handlers X (Leaf Ready) = NatReady_St X"

fun nat_response :: "'j net_ext \<Rightarrow> nat_cont \<Rightarrow> 'j envelope option \<Rightarrow> 'j nat_manager \<Rightarrow> 'j nat_manager result" where
  "nat_response X (K_Nat_Response cb) rsp h = completeResponseCb (nx_json X) Nat_Response cb rsp h"
| "nat_response X (K_Nat_Entries cb) rsp h =
     completeQueryCb (\<lambda>d. bindE (value_items (nx_json X) d ''entries'') (map_result (toNatConfig (nx_json X)))) Nat_Entries [] cb rsp h"

definition nat_new :: "nat option \<Rightarrow> 'j nat_manager" where
  "nat_new initCb = net_new ''NatManager'' initCb"

definition nat_topics :: "'j net_ext \<Rightarrow> (string \<times> string) list" where
  "nat_topics X = [(nx_topic X ''net_nat.subsys_ready_net_nat.ind'', ''net_nat.subsys_ready_net_nat.ind'')]"

definition nat_start :: "'j net_ext \<Rightarrow> 'j nat_manager \<Rightarrow> 'j nat_manager result" where
  "nat_start X = net_start X (nat_topics X) (nat_handlers X)"

definition nat_unsubscribeFromBridge :: "'j net_ext \<Rightarrow> 'j nat_manager \<Rightarrow> 'j nat_manager" where
  "nat_unsubscribeFromBridge X = om_unsubscribe (map fst (nat_topics X))"

definition nat_destroy :: "nat \<Rightarrow> 'j net_ext \<Rightarrow> 'j nat_manager \<Rightarrow> 'j nat_manager result" where
  "nat_destroy k X h = stop k (nx_loops X) (nat_handlers X) False (nat_unsubscribeFromBridge X h)"

definition nat_handleInd :: "'j envelope \<Rightarrow> 'j nat_manager \<Rightarrow> 'j nat_manager" where
  "nat_handleInd env = post_fifo (N_ReadinessEvt_Signal env)"

definition postEntryOp :: "bool \<Rightarrow> backhaul_info \<Rightarrow> nat_config \<Rightarrow> nat option \<Rightarrow> 'j nat_manager \<Rightarrow> api_status \<times> 'j nat_manager" where
  "postEntryOp add bh c cb = om_post (N_Signal (if add then AddNatEntry_Signal bh c cb else RemoveNatEntry_Signal bh c cb))"

definition addStaticNatEntry :: "backhaul_info \<Rightarrow> nat_config \<Rightarrow> nat option \<Rightarrow> 'j nat_manager \<Rightarrow> api_status \<times> 'j nat_manager" where
  "addStaticNatEntry bh c cb = postEntryOp True bh c cb"

definition removeStaticNatEntry :: "backhaul_info \<Rightarrow> nat_config \<Rightarrow> nat option \<Rightarrow> 'j nat_manager \<Rightarrow> api_status \<times> 'j nat_manager" where
  "removeStaticNatEntry bh c cb = postEntryOp False bh c cb"

definition addStaticNatEntry_profile :: "int \<Rightarrow> nat_config \<Rightarrow> nat option \<Rightarrow> int \<Rightarrow> 'j nat_manager \<Rightarrow> api_status \<times> 'j nat_manager" where
  "addStaticNatEntry_profile p c cb slot = postEntryOp True (backhaulFromProfileId p slot) c cb"

definition removeStaticNatEntry_profile :: "int \<Rightarrow> nat_config \<Rightarrow> nat option \<Rightarrow> int \<Rightarrow> 'j nat_manager \<Rightarrow> api_status \<times> 'j nat_manager" where
  "removeStaticNatEntry_profile p c cb slot = postEntryOp False (backhaulFromProfileId p slot) c cb"

definition requestStaticNatEntries :: "backhaul_info \<Rightarrow> nat option \<Rightarrow> 'j nat_manager \<Rightarrow> api_status \<times> 'j nat_manager" where
  "requestStaticNatEntries bh cb = om_post (N_Signal (RequestNatEntries_Signal bh cb))"

definition requestStaticNatEntries_profile :: "int \<Rightarrow> nat option \<Rightarrow> int \<Rightarrow> 'j nat_manager \<Rightarrow> api_status \<times> 'j nat_manager" where
  "requestStaticNatEntries_profile p cb slot = requestStaticNatEntries (backhaulFromProfileId p slot) cb"

section \<open>Static address translation: what holds\<close>

fun nat_carries :: "nat_signal \<Rightarrow> nat list" where
  "nat_carries (AddNatEntry_Signal bh c cb) = opt_list cb"
| "nat_carries (RemoveNatEntry_Signal bh c cb) = opt_list cb"
| "nat_carries (RequestNatEntries_Signal bh cb) = opt_list cb"

fun nat_holds :: "nat_cont \<Rightarrow> nat list" where
  "nat_holds (K_Nat_Response cb) = opt_list cb"
| "nat_holds (K_Nat_Entries cb) = opt_list cb"

fun nat_answers :: "nat_answer \<Rightarrow> nat list" where
  "nat_answers (Nat_Response c er) = [c]"
| "nat_answers (Nat_Entries c xs er) = [c]"

lemma nat_handlers_net: "nat_handlers X = net_handlers (nx_json X) nm_tell nat_idle (nat_serve X)"
proof
  fix c :: ostate
  show "nat_handlers X c = net_handlers (nx_json X) nm_tell nat_idle (nat_serve X) c"
    by (cases c rule: ostate_cases) (simp_all add: NatNotReady_St_def NatReady_St_def)
qed

interpretation natm: net_service X nat_idle "nat_serve X" "nat_response X" nat_carries nat_holds nat_answers
  for X :: "'j net_ext"
proof unfold_locales
  fix e k rsp and h h' :: "'j nat_manager"
  show "nat_idle e h = Inr h' \<Longrightarrow> net_serves nat_answers nat_holds (nat_carries e) h h'"
    by (cases e) (auto intro!: net_serves_gives net_gives_answer)
  show "nat_serve X e h = Inr h' \<Longrightarrow> net_serves nat_answers nat_holds (nat_carries e) h h'"
    by (cases e) (auto simp: net_serves_request)
  show "nat_response X k rsp h = Inr h' \<Longrightarrow> net_gives nat_answers (nat_holds k) h h'"
    by (cases k) (auto intro: net_gives_response net_gives_query)
qed

lemma nat_clients_answered:
  assumes "net_run (nat_handlers X) (nat_response X) nat_carries nat_holds X G P L h" "kMaxNest < nx_loops X"
  shows "G = mset (nm_answered nat_answers (nm_out h)) + (\<Sum>k\<in>#P. mset (nat_holds k)) + L + mset (nm_waiting nat_carries (ao_q h))"
  using natm.net_accounts [OF assms(1) [unfolded nat_handlers_net] assms(2)] by blast

text \<open>A translation entry and its backhaul survive the wire, both read from the same message: ports
  and protocol at their widths, the backhaul up to the members that are not sent.\<close>

theorem nat_entry_roundtrip:
  assumes "json_ok J" "backhaul_ok bh"
  shows "toNatConfig J (j_members J (fromNatConfig J bh c)) = Inr c \<and>
    toBackhaulInfo J (j_members J (fromNatConfig J bh c)) = Inr (sent_backhaul bh)"
proof
  show "toNatConfig J (j_members J (fromNatConfig J bh c)) = Inr c"
    using assms(1) by (simp add: toNatConfig_def fromNatConfig_def backhaul_members_def Let_def written)
  show "toBackhaulInfo J (j_members J (fromNatConfig J bh c)) = Inr (sent_backhaul bh)"
    using assms by (intro backhaul_written) (auto simp: j_members_object j_members_find fromNatConfig_def)
qed

theorem nat_entry_roundtrip_witness:
  "toNatConfig tree_lib (j_members tree_lib (fromNatConfig tree_lib (backhaulFromProfileId 5 2)
      \<lparr>nc_addr = ''10.0.0.2'', nc_port = 65535, nc_globalPort = 80, nc_proto = 6\<rparr>)) =
    Inr \<lparr>nc_addr = ''10.0.0.2'', nc_port = 65535, nc_globalPort = 80, nc_proto = 6\<rparr> \<and>
   toBackhaulInfo tree_lib (j_members tree_lib (fromNatConfig tree_lib (backhaulFromProfileId 5 2)
      \<lparr>nc_addr = ''10.0.0.2'', nc_port = 65535, nc_globalPort = 80, nc_proto = 6\<rparr>)) = Inr (sent_backhaul (backhaulFromProfileId 5 2))"
  by (rule nat_entry_roundtrip [OF tree_lib_ok]) (simp add: backhaulFromProfileId_def no_backhaul_def backhaul_ok_def in_int_def DEFAULT_SLOT_def)

section \<open>SOCKS proxy\<close>

datatype socks_signal = EnableSocks_Signal bool "nat option"

datatype socks_cont = K_Socks_Response "nat option"

datatype socks_answer = Socks_Response nat error_code

type_synonym 'j socks_manager = "('j, socks_signal, socks_cont, socks_answer) net_mgr"

fun socks_idle :: "socks_signal \<Rightarrow> 'j socks_manager \<Rightarrow> 'j socks_manager result" where
  "socks_idle (EnableSocks_Signal en cb) h = Inr (om_answer (\<lambda>b. Socks_Response b EC_DEVICE_NOT_READY) cb h)"

fun socks_serve :: "'j net_ext \<Rightarrow> socks_signal \<Rightarrow> 'j socks_manager \<Rightarrow> 'j socks_manager result" where
  "socks_serve X (EnableSocks_Signal en cb) h =
     Inr (net_request X ''net_socks.enable_socks.req'' ''net_socks.enable_socks.rsp'' [(''enable'', j_of_bool (nx_json X) en)] (K_Socks_Response cb) h)"

definition SocksNotReady_St :: "'j net_ext \<Rightarrow> ('j, socks_signal) net_event event \<Rightarrow> 'j socks_manager \<Rightarrow> (status \<times> 'j socks_manager) result" where
  "SocksNotReady_St X = net_NotReady_St (nx_json X) socks_idle"

definition SocksReady_St :: "'j net_ext \<Rightarrow> ('j, socks_signal) net_event event \<Rightarrow> 'j socks_manager \<Rightarrow> (status \<times> 'j socks_manager) result" where
  "SocksReady_St X = net_Ready_St (nx_json X) nm_tell (socks_serve X)"

fun socks_handlers :: "'j net_ext \<Rightarrow> ostate \<Rightarrow> ('j, socks_signal) net_event event \<Rightarrow> 'j socks_manager \<Rightarrow> (status \<times> 'j socks_manager) result" where
  "socks_handlers X Operating = net_Operating_St"
| "socks_handlers X (Leaf NotReady) = SocksNotReady_St X"
| "socks_handlers X (Leaf Ready) = SocksReady_St X"

fun socks_response :: "'j net_ext \<Rightarrow> socks_cont \<Rightarrow> 'j envelope option \<Rightarrow> 'j socks_manager \<Rightarrow> 'j socks_manager result" where
  "socks_response X (K_Socks_Response cb) rsp h = completeResponseCb (nx_json X) Socks_Response cb rsp h"

definition socks_new :: "nat option \<Rightarrow> 'j socks_manager" where
  "socks_new initCb = net_new ''SocksManager'' initCb"

definition socks_topics :: "'j net_ext \<Rightarrow> (string \<times> string) list" where
  "socks_topics X = [(nx_topic X ''net_socks.subsys_ready_net_socks.ind'', ''net_socks.subsys_ready_net_socks.ind'')]"

definition socks_start :: "'j net_ext \<Rightarrow> 'j socks_manager \<Rightarrow> 'j socks_manager result" where
  "socks_start X = net_start X (socks_topics X) (socks_handlers X)"

definition socks_unsubscribeFromBridge :: "'j net_ext \<Rightarrow> 'j socks_manager \<Rightarrow> 'j socks_manager" where
  "socks_unsubscribeFromBridge X = om_unsubscribe (map fst (socks_topics X))"

definition socks_destroy :: "nat \<Rightarrow> 'j net_ext \<Rightarrow> 'j socks_manager \<Rightarrow> 'j socks_manager result" where
  "socks_destroy k X h = stop k (nx_loops X) (socks_handlers X) False (socks_unsubscribeFromBridge X h)"

definition socks_handleInd :: "'j envelope \<Rightarrow> 'j socks_manager \<Rightarrow> 'j socks_manager" where
  "socks_handleInd env = post_fifo (N_ReadinessEvt_Signal env)"

definition enableSocks :: "bool \<Rightarrow> nat option \<Rightarrow> 'j socks_manager \<Rightarrow> api_status \<times> 'j socks_manager" where
  "enableSocks en cb = om_post (N_Signal (EnableSocks_Signal en cb))"

fun socks_carries :: "socks_signal \<Rightarrow> nat list" where "socks_carries (EnableSocks_Signal en cb) = opt_list cb"
fun socks_holds :: "socks_cont \<Rightarrow> nat list" where "socks_holds (K_Socks_Response cb) = opt_list cb"
fun socks_answers :: "socks_answer \<Rightarrow> nat list" where "socks_answers (Socks_Response c er) = [c]"

lemma socks_handlers_net: "socks_handlers X = net_handlers (nx_json X) nm_tell socks_idle (socks_serve X)"
proof
  fix c :: ostate
  show "socks_handlers X c = net_handlers (nx_json X) nm_tell socks_idle (socks_serve X) c"
    by (cases c rule: ostate_cases) (simp_all add: SocksNotReady_St_def SocksReady_St_def)
qed

interpretation socks: net_service X socks_idle "socks_serve X" "socks_response X" socks_carries socks_holds socks_answers
  for X :: "'j net_ext"
proof unfold_locales
  fix e k rsp and h h' :: "'j socks_manager"
  show "socks_idle e h = Inr h' \<Longrightarrow> net_serves socks_answers socks_holds (socks_carries e) h h'"
    by (cases e) (auto intro!: net_serves_gives net_gives_answer)
  show "socks_serve X e h = Inr h' \<Longrightarrow> net_serves socks_answers socks_holds (socks_carries e) h h'"
    by (cases e) (auto simp: net_serves_request)
  show "socks_response X k rsp h = Inr h' \<Longrightarrow> net_gives socks_answers (socks_holds k) h h'"
    by (cases k) (auto intro: net_gives_response)
qed

lemma socks_clients_answered:
  assumes "net_run (socks_handlers X) (socks_response X) socks_carries socks_holds X G P L h" "kMaxNest < nx_loops X"
  shows "G = mset (nm_answered socks_answers (nm_out h)) + (\<Sum>k\<in>#P. mset (socks_holds k)) + L +
    mset (nm_waiting socks_carries (ao_q h))"
  using socks.net_accounts [OF assms(1) [unfolded socks_handlers_net] assms(2)] by blast

end
