(* ===== verification/Net_L2tp.thy ===== *)
theory Net_L2tp
  imports Net_Shell
begin

text \<open>\<open>SimulaL2tpManager\<close> of \<open>component/net/L2tpManager.cpp\<close>.\<close>

section \<open>Data\<close>

datatype l2tp_protocol = L2TP_NONE | L2TP_IP | L2TP_UDP

record l2tp_session =
  ls_locId :: "32 word"
  ls_peerId :: "32 word"

record l2tp_tunnel =
  lt_prot :: l2tp_protocol
  lt_locId :: "32 word"
  lt_peerId :: "32 word"
  lt_localUdpPort :: "32 word"
  lt_peerUdpPort :: "32 word"
  lt_peerIpv6Addr :: string
  lt_peerIpv6GwAddr :: string
  lt_peerIpv4Addr :: string
  lt_peerIpv4GwAddr :: string
  lt_locIface :: string
  lt_ipType :: ip_family
  lt_sessions :: "l2tp_session list"

record l2tp_bind =
  lb_locId :: "32 word"
  lb_bhInfo :: backhaul_info

record l2tp_sys =
  ly_configList :: "l2tp_tunnel list"
  ly_enableMtu :: bool
  ly_enableTcpMss :: bool
  ly_mtuSize :: "32 word"

text \<open>\<open>L2tpSysConfig{}\<close>.\<close>

definition no_l2tp :: l2tp_sys where
  "no_l2tp = \<lparr>ly_configList = [], ly_enableMtu = False, ly_enableTcpMss = False, ly_mtuSize = 0\<rparr>"

datatype l2tp_signal =
    SetL2tpConfig_Signal bool bool bool "32 word" "nat option"
  | RequestL2tpConfig_Signal "nat option"
  | AddTunnel_Signal l2tp_tunnel "nat option"
  | RemoveTunnel_Signal "32 word" "nat option"
  | AddSession_Signal "32 word" "32 word" "32 word" "nat option"
  | RemoveSession_Signal "32 word" "32 word" "32 word" "nat option"
  | BindSession_Signal l2tp_bind "nat option"
  | UnbindSession_Signal l2tp_bind "nat option"
  | QuerySessionBindings_Signal backhaul_type "nat option"

datatype l2tp_cont = K_L2tp_Response "nat option" | K_L2tp_Config "nat option" | K_L2tp_Bindings "nat option"

datatype l2tp_answer =
    L2tp_Response nat error_code
  | L2tp_Config nat l2tp_sys error_code
  | L2tp_Bindings nat "l2tp_bind list" error_code

type_synonym 'j l2tp_manager = "('j, l2tp_signal, l2tp_cont, l2tp_answer) net_mgr"

section \<open>Messages\<close>

fun fromProtocol :: "l2tp_protocol \<Rightarrow> string" where
  "fromProtocol L2TP_IP = ''IP''"
| "fromProtocol L2TP_UDP = ''UDP''"
| "fromProtocol _ = ''NONE''"

definition toProtocol :: "string \<Rightarrow> l2tp_protocol" where
  "toProtocol s = (if s = ''IP'' then L2TP_IP else if s = ''UDP'' then L2TP_UDP else L2TP_NONE)"

definition session_members :: "'j json_lib \<Rightarrow> l2tp_session \<Rightarrow> (string \<times> 'j) list" where
  "session_members J s = [(''locId'', j_of_int J (uint (ls_locId s))), (''peerId'', j_of_int J (uint (ls_peerId s)))]"

definition fromTunnelConfig :: "'j json_lib \<Rightarrow> l2tp_tunnel \<Rightarrow> (string \<times> 'j) list" where
  "fromTunnelConfig J c =
     [(''locId'', j_of_int J (uint (lt_locId c))), (''peerId'', j_of_int J (uint (lt_peerId c))),
      (''prot'', j_of_string J (fromProtocol (lt_prot c))),
      (''localUdpPort'', j_of_int J (uint (lt_localUdpPort c))), (''peerUdpPort'', j_of_int J (uint (lt_peerUdpPort c))),
      (''peerIpv6Addr'', j_of_string J (lt_peerIpv6Addr c)), (''peerIpv6GwAddr'', j_of_string J (lt_peerIpv6GwAddr c)),
      (''peerIpv4Addr'', j_of_string J (lt_peerIpv4Addr c)), (''peerIpv4GwAddr'', j_of_string J (lt_peerIpv4GwAddr c)),
      (''locIface'', j_of_string J (lt_locIface c)), (''ipType'', j_of_string J (fromIpFamily (lt_ipType c))),
      (''sessions'', j_of_list J (map (\<lambda>s. j_members J (session_members J s)) (lt_sessions c)))]"

definition toSessionConfig :: "'j json_lib \<Rightarrow> 'j \<Rightarrow> l2tp_session result" where
  "toSessionConfig J s =
     bindE (value_word J s ''locId'') (\<lambda>l. bindE (value_word J s ''peerId'') (\<lambda>p. Inr \<lparr>ls_locId = l, ls_peerId = p\<rparr>))"

definition toTunnelConfig :: "'j json_lib \<Rightarrow> 'j \<Rightarrow> l2tp_tunnel result" where
  "toTunnelConfig J j =
     bindE (value_word J j ''locId'') (\<lambda>l.
     bindE (value_word J j ''peerId'') (\<lambda>p.
     bindE (value_string J j ''prot'') (\<lambda>pr.
     bindE (value_word J j ''localUdpPort'') (\<lambda>lu.
     bindE (value_word J j ''peerUdpPort'') (\<lambda>pu.
     bindE (value_string J j ''peerIpv6Addr'') (\<lambda>a6.
     bindE (value_string J j ''peerIpv6GwAddr'') (\<lambda>g6.
     bindE (value_string J j ''peerIpv4Addr'') (\<lambda>a4.
     bindE (value_string J j ''peerIpv4GwAddr'') (\<lambda>g4.
     bindE (value_string J j ''locIface'') (\<lambda>i.
     bindE (value_string J j ''ipType'') (\<lambda>ip.
     bindE (value_items J j ''sessions'') (\<lambda>ss.
     bindE (map_result (toSessionConfig J) ss) (\<lambda>ss.
       Inr \<lparr>lt_prot = toProtocol pr, lt_locId = l, lt_peerId = p, lt_localUdpPort = lu, lt_peerUdpPort = pu,
            lt_peerIpv6Addr = a6, lt_peerIpv6GwAddr = g6, lt_peerIpv4Addr = a4, lt_peerIpv4GwAddr = g4,
            lt_locIface = i, lt_ipType = toIpFamily ip, lt_sessions = ss\<rparr>)))))))))))))"

definition fromBindConfig :: "'j json_lib \<Rightarrow> l2tp_bind \<Rightarrow> (string \<times> 'j) list" where
  "fromBindConfig J c = backhaul_members J (lb_bhInfo c) @ [(''locId'', j_of_int J (uint (lb_locId c)))]"

definition toBindConfig :: "'j json_lib \<Rightarrow> 'j \<Rightarrow> l2tp_bind result" where
  "toBindConfig J j =
     bindE (value_word J j ''locId'') (\<lambda>l. bindE (toBackhaulInfo J j) (\<lambda>bh. Inr \<lparr>lb_locId = l, lb_bhInfo = bh\<rparr>))"

definition l2tp_config :: "'j json_lib \<Rightarrow> 'j \<Rightarrow> l2tp_sys result" where
  "l2tp_config J d =
     bindE (value_bool J d ''enableMtu'') (\<lambda>m.
     bindE (value_bool J d ''enableTcpMss'') (\<lambda>s.
     bindE (value_word J d ''mtuSize'') (\<lambda>n.
     bindE (value_items J d ''tunnels'') (\<lambda>ts.
     bindE (map_result (toTunnelConfig J) ts) (\<lambda>ts.
       Inr \<lparr>ly_configList = ts, ly_enableMtu = m, ly_enableTcpMss = s, ly_mtuSize = n\<rparr>)))))"

section \<open>Handlers\<close>

fun l2tp_idle :: "l2tp_signal \<Rightarrow> 'j l2tp_manager \<Rightarrow> 'j l2tp_manager result" where
  "l2tp_idle (SetL2tpConfig_Signal e s m n cb) h = Inr (om_answer (\<lambda>b. L2tp_Response b EC_DEVICE_NOT_READY) cb h)"
| "l2tp_idle (AddTunnel_Signal c cb) h = Inr (om_answer (\<lambda>b. L2tp_Response b EC_DEVICE_NOT_READY) cb h)"
| "l2tp_idle (RemoveTunnel_Signal t cb) h = Inr (om_answer (\<lambda>b. L2tp_Response b EC_DEVICE_NOT_READY) cb h)"
| "l2tp_idle (AddSession_Signal t s p cb) h = Inr (om_answer (\<lambda>b. L2tp_Response b EC_DEVICE_NOT_READY) cb h)"
| "l2tp_idle (RemoveSession_Signal t s p cb) h = Inr (om_answer (\<lambda>b. L2tp_Response b EC_DEVICE_NOT_READY) cb h)"
| "l2tp_idle (BindSession_Signal c cb) h = Inr (om_answer (\<lambda>b. L2tp_Response b EC_DEVICE_NOT_READY) cb h)"
| "l2tp_idle (UnbindSession_Signal c cb) h = Inr (om_answer (\<lambda>b. L2tp_Response b EC_DEVICE_NOT_READY) cb h)"
| "l2tp_idle (RequestL2tpConfig_Signal cb) h = Inr (om_answer (\<lambda>b. L2tp_Config b no_l2tp EC_DEVICE_NOT_READY) cb h)"
| "l2tp_idle (QuerySessionBindings_Signal bh cb) h = Inr (om_answer (\<lambda>b. L2tp_Bindings b [] EC_DEVICE_NOT_READY) cb h)"

fun l2tp_serve :: "'j net_ext \<Rightarrow> l2tp_signal \<Rightarrow> 'j l2tp_manager \<Rightarrow> 'j l2tp_manager result" where
  "l2tp_serve X (SetL2tpConfig_Signal e s m n cb) h =
     Inr (net_request X ''net_l2tp.set_l2tp_config.req'' ''net_l2tp.set_l2tp_config.rsp''
       [(''enable'', j_of_bool (nx_json X) e), (''enableMss'', j_of_bool (nx_json X) s),
        (''enableMtu'', j_of_bool (nx_json X) m), (''mtuSize'', j_of_int (nx_json X) (uint n))] (K_L2tp_Response cb) h)"
| "l2tp_serve X (RequestL2tpConfig_Signal cb) h =
     Inr (net_request X ''net_l2tp.request_l2tp_config.req'' ''net_l2tp.request_l2tp_config.rsp'' [] (K_L2tp_Config cb) h)"
| "l2tp_serve X (AddTunnel_Signal c cb) h =
     Inr (net_request X ''net_l2tp.add_tunnel.req'' ''net_l2tp.add_tunnel.rsp'' (fromTunnelConfig (nx_json X) c) (K_L2tp_Response cb) h)"
| "l2tp_serve X (RemoveTunnel_Signal t cb) h =
     Inr (net_request X ''net_l2tp.remove_tunnel.req'' ''net_l2tp.remove_tunnel.rsp''
       [(''tunnelId'', j_of_int (nx_json X) (uint t))] (K_L2tp_Response cb) h)"
| "l2tp_serve X (AddSession_Signal t s p cb) h =
     Inr (net_request X ''net_l2tp.add_session.req'' ''net_l2tp.add_session.rsp''
       [(''tunnelId'', j_of_int (nx_json X) (uint t)), (''locId'', j_of_int (nx_json X) (uint s)),
        (''peerId'', j_of_int (nx_json X) (uint p))] (K_L2tp_Response cb) h)"
| "l2tp_serve X (RemoveSession_Signal t s p cb) h =
     Inr (net_request X ''net_l2tp.remove_session.req'' ''net_l2tp.remove_session.rsp''
       [(''tunnelId'', j_of_int (nx_json X) (uint t)), (''sessionId'', j_of_int (nx_json X) (uint s))] (K_L2tp_Response cb) h)"
| "l2tp_serve X (BindSession_Signal c cb) h =
     Inr (net_request X ''net_l2tp.bind_session.req'' ''net_l2tp.bind_session.rsp'' (fromBindConfig (nx_json X) c) (K_L2tp_Response cb) h)"
| "l2tp_serve X (UnbindSession_Signal c cb) h =
     Inr (net_request X ''net_l2tp.unbind_session.req'' ''net_l2tp.unbind_session.rsp'' (fromBindConfig (nx_json X) c) (K_L2tp_Response cb) h)"
| "l2tp_serve X (QuerySessionBindings_Signal bh cb) h =
     Inr (net_request X ''net_l2tp.query_session_bindings.req'' ''net_l2tp.query_session_bindings.rsp''
       (only_if (fromBackhaul bh \<noteq> []) ''backhaul'' (j_of_string (nx_json X) (fromBackhaul bh))) (K_L2tp_Bindings cb) h)"

definition L2tpNotReady_St :: "'j net_ext \<Rightarrow> ('j, l2tp_signal) net_event event \<Rightarrow> 'j l2tp_manager \<Rightarrow> (status \<times> 'j l2tp_manager) result" where
  "L2tpNotReady_St X = net_NotReady_St (nx_json X) l2tp_idle"

definition L2tpReady_St :: "'j net_ext \<Rightarrow> ('j, l2tp_signal) net_event event \<Rightarrow> 'j l2tp_manager \<Rightarrow> (status \<times> 'j l2tp_manager) result" where
  "L2tpReady_St X = net_Ready_St (nx_json X) nm_tell (l2tp_serve X)"

fun l2tp_handlers :: "'j net_ext \<Rightarrow> ostate \<Rightarrow> ('j, l2tp_signal) net_event event \<Rightarrow> 'j l2tp_manager \<Rightarrow> (status \<times> 'j l2tp_manager) result" where
  "l2tp_handlers X Operating = net_Operating_St"
| "l2tp_handlers X (Leaf NotReady) = L2tpNotReady_St X"
| "l2tp_handlers X (Leaf Ready) = L2tpReady_St X"

fun l2tp_response :: "'j net_ext \<Rightarrow> l2tp_cont \<Rightarrow> 'j envelope option \<Rightarrow> 'j l2tp_manager \<Rightarrow> 'j l2tp_manager result" where
  "l2tp_response X (K_L2tp_Response cb) rsp h = completeResponseCb (nx_json X) L2tp_Response cb rsp h"
| "l2tp_response X (K_L2tp_Config cb) rsp h = completeQueryCb (l2tp_config (nx_json X)) L2tp_Config no_l2tp cb rsp h"
| "l2tp_response X (K_L2tp_Bindings cb) rsp h =
     completeQueryCb (\<lambda>d. bindE (value_items (nx_json X) d ''bindings'') (map_result (toBindConfig (nx_json X)))) L2tp_Bindings [] cb rsp h"

section \<open>Lifecycle and public interface\<close>

definition l2tp_new :: "nat option \<Rightarrow> 'j l2tp_manager" where
  "l2tp_new initCb = net_new ''L2tpManager'' initCb"

definition l2tp_topics :: "'j net_ext \<Rightarrow> (string \<times> string) list" where
  "l2tp_topics X = [(nx_topic X ''net_l2tp.subsys_ready_net_l2tp.ind'', ''net_l2tp.subsys_ready_net_l2tp.ind'')]"

definition l2tp_start :: "'j net_ext \<Rightarrow> 'j l2tp_manager \<Rightarrow> 'j l2tp_manager result" where
  "l2tp_start X = net_start X (l2tp_topics X) (l2tp_handlers X)"

definition l2tp_unsubscribeFromBridge :: "'j net_ext \<Rightarrow> 'j l2tp_manager \<Rightarrow> 'j l2tp_manager" where
  "l2tp_unsubscribeFromBridge X = om_unsubscribe (map fst (l2tp_topics X))"

definition l2tp_destroy :: "nat \<Rightarrow> 'j net_ext \<Rightarrow> 'j l2tp_manager \<Rightarrow> 'j l2tp_manager result" where
  "l2tp_destroy k X h = stop k (nx_loops X) (l2tp_handlers X) False (l2tp_unsubscribeFromBridge X h)"

definition l2tp_handleInd :: "'j envelope \<Rightarrow> 'j l2tp_manager \<Rightarrow> 'j l2tp_manager" where
  "l2tp_handleInd env = post_fifo (N_ReadinessEvt_Signal env)"

definition l2tp_setConfig :: "bool \<Rightarrow> bool \<Rightarrow> bool \<Rightarrow> nat option \<Rightarrow> 32 word \<Rightarrow> 'j l2tp_manager \<Rightarrow> api_status \<times> 'j l2tp_manager" where
  "l2tp_setConfig e s m cb n = om_post (N_Signal (SetL2tpConfig_Signal e s m n cb))"

definition addTunnel :: "l2tp_tunnel \<Rightarrow> nat option \<Rightarrow> 'j l2tp_manager \<Rightarrow> api_status \<times> 'j l2tp_manager" where
  "addTunnel c cb = om_post (N_Signal (AddTunnel_Signal c cb))"

definition requestConfig :: "nat option \<Rightarrow> 'j l2tp_manager \<Rightarrow> api_status \<times> 'j l2tp_manager" where
  "requestConfig cb = om_post (N_Signal (RequestL2tpConfig_Signal cb))"

definition removeTunnel :: "32 word \<Rightarrow> nat option \<Rightarrow> 'j l2tp_manager \<Rightarrow> api_status \<times> 'j l2tp_manager" where
  "removeTunnel t cb = om_post (N_Signal (RemoveTunnel_Signal t cb))"

definition addSession :: "32 word \<Rightarrow> l2tp_session \<Rightarrow> nat option \<Rightarrow> 'j l2tp_manager \<Rightarrow> api_status \<times> 'j l2tp_manager" where
  "addSession t s cb = om_post (N_Signal (AddSession_Signal t (ls_locId s) (ls_peerId s) cb))"

definition removeSession :: "32 word \<Rightarrow> 32 word \<Rightarrow> nat option \<Rightarrow> 'j l2tp_manager \<Rightarrow> api_status \<times> 'j l2tp_manager" where
  "removeSession t s cb = om_post (N_Signal (RemoveSession_Signal t s 0 cb))"

definition bindSessionToBackhaul :: "l2tp_bind \<Rightarrow> nat option \<Rightarrow> 'j l2tp_manager \<Rightarrow> api_status \<times> 'j l2tp_manager" where
  "bindSessionToBackhaul c cb = om_post (N_Signal (BindSession_Signal c cb))"

definition unbindSessionFromBackhaul :: "l2tp_bind \<Rightarrow> nat option \<Rightarrow> 'j l2tp_manager \<Rightarrow> api_status \<times> 'j l2tp_manager" where
  "unbindSessionFromBackhaul c cb = om_post (N_Signal (UnbindSession_Signal c cb))"

definition querySessionToBackhaulBindings :: "backhaul_type \<Rightarrow> nat option \<Rightarrow> 'j l2tp_manager \<Rightarrow> api_status \<times> 'j l2tp_manager" where
  "querySessionToBackhaulBindings bh cb = om_post (N_Signal (QuerySessionBindings_Signal bh cb))"

section \<open>What holds\<close>

fun l2tp_carries :: "l2tp_signal \<Rightarrow> nat list" where
  "l2tp_carries (SetL2tpConfig_Signal e s m n cb) = opt_list cb"
| "l2tp_carries (RequestL2tpConfig_Signal cb) = opt_list cb"
| "l2tp_carries (AddTunnel_Signal c cb) = opt_list cb"
| "l2tp_carries (RemoveTunnel_Signal t cb) = opt_list cb"
| "l2tp_carries (AddSession_Signal t s p cb) = opt_list cb"
| "l2tp_carries (RemoveSession_Signal t s p cb) = opt_list cb"
| "l2tp_carries (BindSession_Signal c cb) = opt_list cb"
| "l2tp_carries (UnbindSession_Signal c cb) = opt_list cb"
| "l2tp_carries (QuerySessionBindings_Signal bh cb) = opt_list cb"

fun l2tp_holds :: "l2tp_cont \<Rightarrow> nat list" where
  "l2tp_holds (K_L2tp_Response cb) = opt_list cb"
| "l2tp_holds (K_L2tp_Config cb) = opt_list cb"
| "l2tp_holds (K_L2tp_Bindings cb) = opt_list cb"

fun l2tp_answers :: "l2tp_answer \<Rightarrow> nat list" where
  "l2tp_answers (L2tp_Response c er) = [c]"
| "l2tp_answers (L2tp_Config c cfg er) = [c]"
| "l2tp_answers (L2tp_Bindings c xs er) = [c]"

lemma l2tp_handlers_net: "l2tp_handlers X = net_handlers (nx_json X) nm_tell l2tp_idle (l2tp_serve X)"
proof
  fix c :: ostate
  show "l2tp_handlers X c = net_handlers (nx_json X) nm_tell l2tp_idle (l2tp_serve X) c"
    by (cases c rule: ostate_cases) (simp_all add: L2tpNotReady_St_def L2tpReady_St_def)
qed

interpretation l2tp: net_service X l2tp_idle "l2tp_serve X" "l2tp_response X" l2tp_carries l2tp_holds l2tp_answers
  for X :: "'j net_ext"
proof unfold_locales
  fix e k rsp and h h' :: "'j l2tp_manager"
  show "l2tp_idle e h = Inr h' \<Longrightarrow> net_serves l2tp_answers l2tp_holds (l2tp_carries e) h h'"
    by (cases e) (auto intro!: net_serves_gives net_gives_answer)
  show "l2tp_serve X e h = Inr h' \<Longrightarrow> net_serves l2tp_answers l2tp_holds (l2tp_carries e) h h'"
    by (cases e) (auto simp: net_serves_request)
  show "l2tp_response X k rsp h = Inr h' \<Longrightarrow> net_gives l2tp_answers (l2tp_holds k) h h'"
    by (cases k) (auto intro: net_gives_response net_gives_query)
qed

lemma l2tp_clients_answered:
  assumes "net_run (l2tp_handlers X) (l2tp_response X) l2tp_carries l2tp_holds X G P L h" "kMaxNest < nx_loops X"
  shows "G = mset (nm_answered l2tp_answers (nm_out h)) + (\<Sum>k\<in>#P. mset (l2tp_holds k)) + L +
    mset (nm_waiting l2tp_carries (ao_q h))"
  using l2tp.net_accounts [OF assms(1) [unfolded l2tp_handlers_net] assms(2)] by blast

lemma protocol_names: "toProtocol (fromProtocol p) = p"
  by (cases p) (simp_all add: toProtocol_def)

lemma sessions_written:
  "json_ok J \<Longrightarrow> map_result (toSessionConfig J) (map (\<lambda>s. j_members J (session_members J s)) ss) = Inr ss"
  by (induction ss) (simp_all add: toSessionConfig_def session_members_def written)

text \<open>A tunnel with all its sessions survives the wire: the configuration reported in the form in which
  a tunnel is added is read back unchanged, the sessions in their order; and a binding of a session is
  read back up to the members of its backhaul that are not sent.\<close>

theorem l2tp_tunnel_roundtrip:
  assumes "json_ok J" "backhaul_ok (lb_bhInfo b)"
  shows "toTunnelConfig J (j_members J (fromTunnelConfig J c)) = Inr c \<and>
    toBindConfig J (j_members J (fromBindConfig J b)) = Inr (b\<lparr>lb_bhInfo := sent_backhaul (lb_bhInfo b)\<rparr>)"
proof
  have items: "value_items J (j_members J (fromTunnelConfig J c)) ''sessions'' =
      Inr (map (\<lambda>s. j_members J (session_members J s)) (lt_sessions c))"
    using assms(1) by (simp add: value_items_def fromTunnelConfig_def written)
  show "toTunnelConfig J (j_members J (fromTunnelConfig J c)) = Inr c"
    unfolding toTunnelConfig_def items using assms(1)
    by (simp add: fromTunnelConfig_def sessions_written protocol_names written)
  have "toBackhaulInfo J (j_members J (fromBindConfig J b)) = Inr (sent_backhaul (lb_bhInfo b))"
    using assms by (intro backhaul_written) (auto simp: j_members_object j_members_find fromBindConfig_def)
  moreover have "value_word J (j_members J (fromBindConfig J b)) ''locId'' = Inr (lb_locId b)"
    using assms(1) by (simp add: written fromBindConfig_def backhaul_members_def Let_def)
  ultimately show "toBindConfig J (j_members J (fromBindConfig J b)) = Inr (b\<lparr>lb_bhInfo := sent_backhaul (lb_bhInfo b)\<rparr>)"
    by (simp add: toBindConfig_def)
qed

definition demo_tunnel :: l2tp_tunnel where
  "demo_tunnel = \<lparr>lt_prot = L2TP_UDP, lt_locId = 1, lt_peerId = 2, lt_localUdpPort = 5000, lt_peerUdpPort = 5001,
     lt_peerIpv6Addr = [], lt_peerIpv6GwAddr = [], lt_peerIpv4Addr = ''10.0.0.1'', lt_peerIpv4GwAddr = [],
     lt_locIface = ''eth0'', lt_ipType = IPF_IPV4, lt_sessions = [\<lparr>ls_locId = 3, ls_peerId = 4\<rparr>, \<lparr>ls_locId = 5, ls_peerId = 6\<rparr>]\<rparr>"

theorem l2tp_tunnel_roundtrip_witness:
  "toTunnelConfig tree_lib (j_members tree_lib (fromTunnelConfig tree_lib demo_tunnel)) = Inr demo_tunnel \<and>
   toBindConfig tree_lib (j_members tree_lib (fromBindConfig tree_lib \<lparr>lb_locId = 3, lb_bhInfo = no_backhaul\<rparr>)) =
     Inr \<lparr>lb_locId = 3, lb_bhInfo = no_backhaul\<rparr>"
  using l2tp_tunnel_roundtrip [OF tree_lib_ok, of "\<lparr>lb_locId = 3, lb_bhInfo = no_backhaul\<rparr>" demo_tunnel]
  by (simp add: no_backhaul_def backhaul_ok_def in_int_def sent_backhaul_def DEFAULT_SLOT_def)

end
