(* ===== verification/Net_Settings.thy ===== *)
theory Net_Settings
  imports Net_Shell
begin

text \<open>
  \<open>SimulaDataSettingsManager\<close> of \<open>component/net/DataSettingsManager.cpp\<close>. Its operations send their
  requests on the client's thread; the configurations of IP pass-through and of interfaces are
  answered from mirrors that indications of the modem replace.
\<close>

section \<open>Data\<close>

datatype dds_type = DDS_PERMANENT | DDS_TEMPORARY

record dds_info =
  dds_type_of :: dds_type
  dds_slotId :: int

datatype operation = OP_UNKNOWN | OP_DISABLE | OP_ENABLE
datatype ip_assign_type = IPA_UNKNOWN | STATIC_IP | DYNAMIC_IP
datatype ip_assign_operation = IPO_UNKNOWN | IPO_DISABLE | IPO_ENABLE | IPO_RECONFIGURE
datatype band_priority = BP_N79 | BP_WLAN

record band_config =
  bc_priority :: band_priority
  bc_wlanWaitTimeInSec :: "32 word"
  bc_n79WaitTimeInSec :: "32 word"

record ippt_params =
  ip_profileId :: int
  ip_vlanId :: "16 word"
  ip_slotId :: int

record ippt_config =
  ic_ipptOpr :: operation
  ic_nwInterface :: interface_type
  ic_macAddr :: string

record ip_config_params =
  icp_ifType :: interface_type
  icp_ipFamilyType :: ip_family
  icp_vlanId :: "32 word"

record ip_config =
  icf_ipType :: ip_assign_type
  icf_ipOpr :: ip_assign_operation
  icf_ipAddr :: ip_addr

datatype 'j set_signal =
    WwanConnectivityEvt_Signal "'j envelope"
  | DdsChangedEvt_Signal "'j envelope"
  | IpptConfigSyncEvt_Signal "'j envelope"
  | IpConfigSyncEvt_Signal "'j envelope"

datatype set_note = On_Settings_Service service_status | On_Wwan_Connectivity int bool | On_Dds_Change dds_info

text \<open>The callbacks of the requests; that of a write to a mirror only logs.\<close>

datatype set_cont =
    K_Set_Response "nat option"
  | K_Backhaul_Pref "nat option"
  | K_Band "nat option"
  | K_Wwan "nat option" int
  | K_MacSec "nat option"
  | K_Dds "nat option"
  | K_Mirror_Write string

datatype set_answer =
    Set_Response nat error_code
  | Backhaul_Pref nat "backhaul_type list" error_code
  | Band_Answer nat bool "band_config option" error_code
  | Wwan_Answer nat int bool error_code
  | MacSec_Answer nat bool error_code
  | Dds_Answer nat dds_info error_code

type_synonym 'j set_effect = "('j, set_note, set_cont, set_answer) om_effect"

text \<open>
  The keys of the mirrors: profile, VLAN and slot; interface, family and VLAN (the code converts the
  two enumerations to their numbers, which are distinct).
\<close>

record 'j settings_manager = "(('j, 'j set_signal) net_event, 'j set_effect) net_manager" +
  ds_ippt_nat_enabled :: bool
  ds_ippt_mirror :: "((int \<times> int \<times> int) \<times> ippt_config) list"
  ds_ip_config_mirror :: "((interface_type \<times> ip_family \<times> int) \<times> ip_config) list"

definition EC_REQUEST_NOT_SUPPORTED :: error_code where "EC_REQUEST_NOT_SUPPORTED = 6"

section \<open>Wire names\<close>

definition fromDds :: "dds_type \<Rightarrow> string" where
  "fromDds t = (if t = DDS_TEMPORARY then ''TEMPORARY'' else ''PERMANENT'')"

definition toDds :: "string \<Rightarrow> dds_type" where
  "toDds s = (if s = ''TEMPORARY'' then DDS_TEMPORARY else DDS_PERMANENT)"

definition fromOperation :: "operation \<Rightarrow> string" where
  "fromOperation t = (if t = OP_ENABLE then ''ENABLE'' else if t = OP_DISABLE then ''DISABLE'' else ''UNKNOWN'')"

definition toOperation :: "string \<Rightarrow> operation" where
  "toOperation s = (if s = ''ENABLE'' then OP_ENABLE else if s = ''DISABLE'' then OP_DISABLE else OP_UNKNOWN)"

definition fromIpType :: "ip_assign_type \<Rightarrow> string" where
  "fromIpType t = (if t = STATIC_IP then ''STATIC_IP'' else if t = DYNAMIC_IP then ''DYNAMIC_IP'' else ''UNKNOWN'')"

definition toIpType :: "string \<Rightarrow> ip_assign_type" where
  "toIpType s = (if s = ''STATIC_IP'' then STATIC_IP else if s = ''DYNAMIC_IP'' then DYNAMIC_IP else IPA_UNKNOWN)"

definition fromIpOperation :: "ip_assign_operation \<Rightarrow> string" where
  "fromIpOperation t =
     (if t = IPO_ENABLE then ''ENABLE'' else if t = IPO_DISABLE then ''DISABLE''
      else if t = IPO_RECONFIGURE then ''RECONFIGURE'' else ''UNKNOWN'')"

definition toIpOperation :: "string \<Rightarrow> ip_assign_operation" where
  "toIpOperation s =
     (if s = ''ENABLE'' then IPO_ENABLE else if s = ''DISABLE'' then IPO_DISABLE
      else if s = ''RECONFIGURE'' then IPO_RECONFIGURE else IPO_UNKNOWN)"

definition fromIppt :: "'j json_lib \<Rightarrow> ippt_params \<Rightarrow> ippt_config \<Rightarrow> (string \<times> 'j) list" where
  "fromIppt J p c =
     [(''profileId'', j_of_int J (ip_profileId p)), (''vlanId'', j_of_int J (sint (ip_vlanId p))),
      (''slot'', j_of_int J (ip_slotId p)), (''ipptOpr'', j_of_string J (fromOperation (ic_ipptOpr c)))] @
     only_if (ic_nwInterface c \<noteq> IT_UNKNOWN) ''nwInterface'' (j_of_string J (fromIfaceType (ic_nwInterface c))) @
     only_if (ic_macAddr c \<noteq> []) ''macAddr'' (j_of_string J (ic_macAddr c))"

definition toIppt :: "'j json_lib \<Rightarrow> 'j \<Rightarrow> ippt_config result" where
  "toIppt J j =
     bindE (value_string J j ''ipptOpr'') (\<lambda>o1.
     bindE (value_string J j ''nwInterface'') (\<lambda>i.
     bindE (value_string J j ''macAddr'') (\<lambda>m.
       Inr \<lparr>ic_ipptOpr = toOperation o1, ic_nwInterface = toIfaceType i, ic_macAddr = m\<rparr>)))"

text \<open>\<open>gwMask\<close> of the address is neither sent nor read.\<close>

definition fromIpConfig :: "'j json_lib \<Rightarrow> ip_config_params \<Rightarrow> ip_config \<Rightarrow> (string \<times> 'j) list" where
  "fromIpConfig J p c =
     (let a = icf_ipAddr c in
      [(''ifType'', j_of_string J (fromIfaceType (icp_ifType p))), (''ipFamily'', j_of_string J (fromIpFamily (icp_ipFamilyType p))),
       (''ipType'', j_of_string J (fromIpType (icf_ipType c))), (''ipOpr'', j_of_string J (fromIpOperation (icf_ipOpr c)))] @
      only_if (icp_vlanId p \<noteq> -1) ''vlanId'' (j_of_int J (uint (icp_vlanId p))) @
      only_if (ifAddress a \<noteq> []) ''ifAddress'' (j_of_string J (ifAddress a)) @
      only_if (ifMask a \<noteq> 0) ''ifMask'' (j_of_int J (uint (ifMask a))) @
      only_if (gwAddress a \<noteq> []) ''gwAddress'' (j_of_string J (gwAddress a)) @
      only_if (primaryDnsAddress a \<noteq> []) ''primaryDnsAddress'' (j_of_string J (primaryDnsAddress a)) @
      only_if (secondaryDnsAddress a \<noteq> []) ''secondaryDnsAddress'' (j_of_string J (secondaryDnsAddress a)))"

definition toIpConfig :: "'j json_lib \<Rightarrow> 'j \<Rightarrow> ip_config result" where
  "toIpConfig J j =
     bindE (value_string J j ''ipType'') (\<lambda>t.
     bindE (value_string J j ''ipOpr'') (\<lambda>o1.
     bindE (value_string J j ''ifAddress'') (\<lambda>a.
     bindE (value_word J j ''ifMask'') (\<lambda>m.
     bindE (value_string J j ''gwAddress'') (\<lambda>g.
     bindE (value_string J j ''primaryDnsAddress'') (\<lambda>d1.
     bindE (value_string J j ''secondaryDnsAddress'') (\<lambda>d2.
       Inr \<lparr>icf_ipType = toIpType t, icf_ipOpr = toIpOperation o1,
            icf_ipAddr = \<lparr>ifAddress = a, ifMask = m, gwAddress = g, gwMask = 0, primaryDnsAddress = d1, secondaryDnsAddress = d2\<rparr>\<rparr>)))))))"

section \<open>Mirrors\<close>

definition ippt_entry :: "'j json_lib \<Rightarrow> 'j \<Rightarrow> ((int \<times> int \<times> int) \<times> ippt_config) result" where
  "ippt_entry J e =
     bindE (value_int_or (-1) J e ''profileId'') (\<lambda>p.
     bindE (value_int_or (-1) J e ''vlanId'') (\<lambda>v.
     bindE (value_int_or 1 J e ''slot'') (\<lambda>s.
     bindE (toIppt J e) (\<lambda>c. Inr ((p, v, s), c)))))"

definition ip_config_entry :: "'j json_lib \<Rightarrow> 'j \<Rightarrow> ((interface_type \<times> ip_family \<times> int) \<times> ip_config) result" where
  "ip_config_entry J e =
     bindE (value_string J e ''ifType'') (\<lambda>i.
     bindE (value_string J e ''ipFamily'') (\<lambda>f.
     bindE (value_int_or (-1) J e ''vlanId'') (\<lambda>v.
     bindE (toIpConfig J e) (\<lambda>c. Inr ((toIfaceType i, toIpFamily f, v), c)))))"

text \<open>The loops \<open>mirror_[key] = value\<close> over the entries.\<close>

fun store_entries :: "('j \<Rightarrow> ('k \<times> 'v) result) \<Rightarrow> 'j list \<Rightarrow> ('k \<times> 'v) list \<Rightarrow> ('k \<times> 'v) list result" where
  "store_entries rd [] m = Inr m"
| "store_entries rd (e # es) m = bindE (rd e) (\<lambda>(k, v). store_entries rd es (AList.update k v m))"

definition applyIpptSync :: "'j json_lib \<Rightarrow> 'j \<Rightarrow> 'j settings_manager \<Rightarrow> 'j settings_manager result" where
  "applyIpptSync J d h =
     bindE (value_bool_or True J d ''natEnabled'') (\<lambda>nat.
     bindE (value_items J d ''entries'') (\<lambda>es.
     bindE (store_entries (ippt_entry J) es []) (\<lambda>m.
       Inr (h\<lparr>ds_ippt_nat_enabled := nat, ds_ippt_mirror := m\<rparr>))))"

definition applyIpConfigSync :: "'j json_lib \<Rightarrow> 'j \<Rightarrow> 'j settings_manager \<Rightarrow> 'j settings_manager result" where
  "applyIpConfigSync J d h =
     bindE (value_items J d ''entries'') (\<lambda>es.
     bindE (store_entries (ip_config_entry J) es []) (\<lambda>m. Inr (h\<lparr>ds_ip_config_mirror := m\<rparr>)))"

section \<open>Listeners and state handlers\<close>

text \<open>The broadcast also removes listeners that cannot be locked.\<close>

definition set_broadcastToListeners :: "set_note \<Rightarrow> 'j settings_manager \<Rightarrow> 'j settings_manager" where
  "set_broadcastToListeners nt h =
     (let ls = filter (\<lambda>l. l \<in> set (om_live h)) (nm_listeners h) in om_notify ls nt (h\<lparr>nm_listeners := ls\<rparr>))"

definition set_tell :: "service_status \<Rightarrow> 'j settings_manager \<Rightarrow> 'j settings_manager" where
  "set_tell st = set_broadcastToListeners (On_Settings_Service st)"

definition set_with_data :: "('j \<Rightarrow> 'j settings_manager \<Rightarrow> 'j settings_manager result) \<Rightarrow> 'j envelope \<Rightarrow> 'j settings_manager \<Rightarrow> 'j settings_manager result" where
  "set_with_data f env h = (case env_data env of None \<Rightarrow> Inr h | Some d \<Rightarrow> f d h)"

definition set_wwanEvt :: "'j json_lib \<Rightarrow> 'j \<Rightarrow> 'j settings_manager \<Rightarrow> 'j settings_manager result" where
  "set_wwanEvt J d h =
     bindE (value_int_or 1 J d ''slot'') (\<lambda>s.
     bindE (value_bool_or True J d ''isConnectivityAllowed'') (\<lambda>a. Inr (set_broadcastToListeners (On_Wwan_Connectivity s a) h)))"

definition set_ddsEvt :: "'j json_lib \<Rightarrow> 'j \<Rightarrow> 'j settings_manager \<Rightarrow> 'j settings_manager result" where
  "set_ddsEvt J d h =
     bindE (value_string J d ''ddsType'') (\<lambda>t.
     bindE (value_int_or 1 J d ''slot'') (\<lambda>s.
       Inr (set_broadcastToListeners (On_Dds_Change \<lparr>dds_type_of = toDds t, dds_slotId = s\<rparr>) h)))"

fun set_idle :: "'j json_lib \<Rightarrow> 'j set_signal \<Rightarrow> 'j settings_manager \<Rightarrow> 'j settings_manager result" where
  "set_idle J (IpptConfigSyncEvt_Signal env) h = set_with_data (applyIpptSync J) env h"
| "set_idle J (IpConfigSyncEvt_Signal env) h = set_with_data (applyIpConfigSync J) env h"
| "set_idle J (WwanConnectivityEvt_Signal env) h = Inr h"
| "set_idle J (DdsChangedEvt_Signal env) h = Inr h"

fun set_serve :: "'j json_lib \<Rightarrow> 'j set_signal \<Rightarrow> 'j settings_manager \<Rightarrow> 'j settings_manager result" where
  "set_serve J (WwanConnectivityEvt_Signal env) h = set_with_data (set_wwanEvt J) env h"
| "set_serve J (DdsChangedEvt_Signal env) h = set_with_data (set_ddsEvt J) env h"
| "set_serve J (IpptConfigSyncEvt_Signal env) h = set_with_data (applyIpptSync J) env h"
| "set_serve J (IpConfigSyncEvt_Signal env) h = set_with_data (applyIpConfigSync J) env h"

definition SetNotReady_St :: "'j net_ext \<Rightarrow> ('j, 'j set_signal) net_event event \<Rightarrow> 'j settings_manager \<Rightarrow> (status \<times> 'j settings_manager) result" where
  "SetNotReady_St X = net_NotReady_St (nx_json X) (set_idle (nx_json X))"

definition SetReady_St :: "'j net_ext \<Rightarrow> ('j, 'j set_signal) net_event event \<Rightarrow> 'j settings_manager \<Rightarrow> (status \<times> 'j settings_manager) result" where
  "SetReady_St X = net_Ready_St (nx_json X) set_tell (set_serve (nx_json X))"

fun settings_handlers :: "'j net_ext \<Rightarrow> ostate \<Rightarrow> ('j, 'j set_signal) net_event event \<Rightarrow> 'j settings_manager \<Rightarrow> (status \<times> 'j settings_manager) result" where
  "settings_handlers X Operating = net_Operating_St"
| "settings_handlers X (Leaf NotReady) = SetNotReady_St X"
| "settings_handlers X (Leaf Ready) = SetReady_St X"

section \<open>Operations\<close>

text \<open>A request sent from the client's thread, when the manager is ready.\<close>

definition set_request :: "'j net_ext \<Rightarrow> string \<Rightarrow> string \<Rightarrow> (string \<times> 'j) list \<Rightarrow> set_cont \<Rightarrow> 'j settings_manager \<Rightarrow> 'j settings_manager" where
  "set_request X topic schema ms k = om_request (nx_pa_id X) (nx_topic X topic) schema (j_members (nx_json X) ms) k"

definition set_send :: "'j net_ext \<Rightarrow> string \<Rightarrow> string \<Rightarrow> (string \<times> 'j) list \<Rightarrow> set_cont \<Rightarrow> 'j settings_manager
    \<Rightarrow> api_status \<times> 'j settings_manager" where
  "set_send X topic schema ms k h =
     (if \<not> om_isReadyDerived h then (NOTREADY, h) else (SUCCESS, set_request X topic schema ms k h))"

definition restoreFactorySettings :: "'j net_ext \<Rightarrow> operation_type \<Rightarrow> nat option \<Rightarrow> bool \<Rightarrow> 'j settings_manager \<Rightarrow> api_status \<times> 'j settings_manager" where
  "restoreFactorySettings X ty cb reboot =
     set_send X ''net_settings.restore_factory_settings.req'' ''net_settings.restore_factory_settings.rsp''
       [(''opType'', j_of_string (nx_json X) (opTypeToWire ty)), (''isRebootNeeded'', j_of_bool (nx_json X) reboot)] (K_Set_Response cb)"

definition setBackhaulPreference :: "'j net_ext \<Rightarrow> backhaul_type list \<Rightarrow> nat option \<Rightarrow> 'j settings_manager \<Rightarrow> api_status \<times> 'j settings_manager" where
  "setBackhaulPreference X p cb =
     set_send X ''net_settings.set_backhaul_pref.req'' ''net_settings.set_backhaul_pref.rsp''
       [(''backhaulPref'', j_of_list (nx_json X) (map (\<lambda>b. j_of_string (nx_json X) (fromBackhaul b)) p))] (K_Set_Response cb)"

definition requestBackhaulPreference :: "'j net_ext \<Rightarrow> nat option \<Rightarrow> 'j settings_manager \<Rightarrow> api_status \<times> 'j settings_manager" where
  "requestBackhaulPreference X cb =
     set_send X ''net_settings.request_backhaul_pref.req'' ''net_settings.request_backhaul_pref.rsp'' [] (K_Backhaul_Pref cb)"

definition band_members :: "'j json_lib \<Rightarrow> band_config \<Rightarrow> (string \<times> 'j) list" where
  "band_members J c =
     [(''priority'', j_of_string J (if bc_priority c = BP_WLAN then ''WLAN'' else ''N79'')),
      (''wlanWaitTimeInSec'', j_of_int J (uint (bc_wlanWaitTimeInSec c))), (''n79WaitTimeInSec'', j_of_int J (uint (bc_n79WaitTimeInSec c)))]"

definition setBandInterferenceConfig :: "'j net_ext \<Rightarrow> bool \<Rightarrow> band_config option \<Rightarrow> nat option \<Rightarrow> 'j settings_manager \<Rightarrow> api_status \<times> 'j settings_manager" where
  "setBandInterferenceConfig X e c cb =
     set_send X ''net_settings.set_band_interference.req'' ''net_settings.set_band_interference.rsp''
       ([(''enable'', j_of_bool (nx_json X) e)] @
        (case c of None \<Rightarrow> [] | Some c \<Rightarrow> [(''config'', j_members (nx_json X) (band_members (nx_json X) c))])) (K_Set_Response cb)"

definition requestBandInterferenceConfig :: "'j net_ext \<Rightarrow> nat option \<Rightarrow> 'j settings_manager \<Rightarrow> api_status \<times> 'j settings_manager" where
  "requestBandInterferenceConfig X cb =
     set_send X ''net_settings.request_band_interference.req'' ''net_settings.request_band_interference.rsp'' [] (K_Band cb)"

definition setWwanConnectivityConfig :: "'j net_ext \<Rightarrow> int \<Rightarrow> bool \<Rightarrow> nat option \<Rightarrow> 'j settings_manager \<Rightarrow> api_status \<times> 'j settings_manager" where
  "setWwanConnectivityConfig X s a cb =
     set_send X ''net_settings.set_wwan_connectivity.req'' ''net_settings.set_wwan_connectivity.rsp''
       [(''slot'', j_of_int (nx_json X) s), (''allow'', j_of_bool (nx_json X) a)] (K_Set_Response cb)"

definition requestWwanConnectivityConfig :: "'j net_ext \<Rightarrow> int \<Rightarrow> nat option \<Rightarrow> 'j settings_manager \<Rightarrow> api_status \<times> 'j settings_manager" where
  "requestWwanConnectivityConfig X s cb =
     set_send X ''net_settings.request_wwan_connectivity.req'' ''net_settings.request_wwan_connectivity.rsp''
       [(''slot'', j_of_int (nx_json X) s)] (K_Wwan cb s)"

definition setMacSecState :: "'j net_ext \<Rightarrow> bool \<Rightarrow> nat option \<Rightarrow> 'j settings_manager \<Rightarrow> api_status \<times> 'j settings_manager" where
  "setMacSecState X e cb =
     set_send X ''net_settings.set_macsec_state.req'' ''net_settings.set_macsec_state.rsp''
       [(''enable'', j_of_bool (nx_json X) e)] (K_Set_Response cb)"

definition requestMacSecState :: "'j net_ext \<Rightarrow> nat option \<Rightarrow> 'j settings_manager \<Rightarrow> api_status \<times> 'j settings_manager" where
  "requestMacSecState X cb =
     set_send X ''net_settings.request_macsec_state.req'' ''net_settings.request_macsec_state.rsp'' [] (K_MacSec cb)"

definition switchBackHaul :: "'j net_ext \<Rightarrow> backhaul_info \<Rightarrow> backhaul_info \<Rightarrow> bool \<Rightarrow> nat option \<Rightarrow> 'j settings_manager \<Rightarrow> api_status \<times> 'j settings_manager" where
  "switchBackHaul X s d applyAll cb =
     set_send X ''net_settings.switch_backhaul.req'' ''net_settings.switch_backhaul.rsp''
       [(''source'', fromBackhaulInfo (nx_json X) s), (''dest'', fromBackhaulInfo (nx_json X) d),
        (''applyToAll'', j_of_bool (nx_json X) applyAll)] (K_Set_Response cb)"

definition requestDdsSwitch :: "'j net_ext \<Rightarrow> dds_info \<Rightarrow> nat option \<Rightarrow> 'j settings_manager \<Rightarrow> api_status \<times> 'j settings_manager" where
  "requestDdsSwitch X d cb =
     set_send X ''net_settings.request_dds_switch.req'' ''net_settings.request_dds_switch.rsp''
       [(''slot'', j_of_int (nx_json X) (dds_slotId d)), (''ddsType'', j_of_string (nx_json X) (fromDds (dds_type_of d)))] (K_Set_Response cb)"

definition requestCurrentDds :: "'j net_ext \<Rightarrow> nat option \<Rightarrow> 'j settings_manager \<Rightarrow> api_status \<times> 'j settings_manager" where
  "requestCurrentDds X cb =
     set_send X ''net_settings.request_current_dds.req'' ''net_settings.request_current_dds.rsp'' [] (K_Dds cb)"

text \<open>The synchronous operations: writes only send, reads only look into the mirrors.\<close>

definition publishMirrorWrite :: "'j net_ext \<Rightarrow> string \<Rightarrow> string \<Rightarrow> (string \<times> 'j) list \<Rightarrow> 'j settings_manager \<Rightarrow> error_code \<times> 'j settings_manager" where
  "publishMirrorWrite X topic schema ms h =
     (if \<not> om_isReadyDerived h then (EC_DEVICE_NOT_READY, h)
      else (EC_SUCCESS, set_request X topic schema ms (K_Mirror_Write topic) h))"

definition setIpPassThroughConfig :: "'j net_ext \<Rightarrow> ippt_params \<Rightarrow> ippt_config \<Rightarrow> 'j settings_manager \<Rightarrow> error_code \<times> 'j settings_manager" where
  "setIpPassThroughConfig X p c =
     publishMirrorWrite X ''net_settings.set_ippt_config.req'' ''net_settings.set_ippt_config.rsp'' (fromIppt (nx_json X) p c)"

definition setIpPassThroughNatConfig :: "'j net_ext \<Rightarrow> bool \<Rightarrow> 'j settings_manager \<Rightarrow> error_code \<times> 'j settings_manager" where
  "setIpPassThroughNatConfig X e =
     publishMirrorWrite X ''net_settings.set_ippt_nat_config.req'' ''net_settings.set_ippt_nat_config.rsp''
       [(''enableNat'', j_of_bool (nx_json X) e)]"

text \<open>A read returns the error code and the new value of the reference parameter.\<close>

definition getIpPassThroughNatConfig :: "bool \<Rightarrow> 'j settings_manager \<Rightarrow> error_code \<times> bool" where
  "getIpPassThroughNatConfig e h = (if \<not> om_isReadyDerived h then (EC_DEVICE_NOT_READY, e) else (EC_SUCCESS, ds_ippt_nat_enabled h))"

definition getIpPassThroughConfig :: "ippt_params \<Rightarrow> ippt_config \<Rightarrow> 'j settings_manager \<Rightarrow> error_code \<times> ippt_config" where
  "getIpPassThroughConfig p c h =
     (if \<not> om_isReadyDerived h then (EC_DEVICE_NOT_READY, c)
      else case map_of (ds_ippt_mirror h) (ip_profileId p, sint (ip_vlanId p), ip_slotId p) of
        None \<Rightarrow> (EC_INVALID_ARGUMENTS, c)
      | Some v \<Rightarrow> (EC_SUCCESS, v))"

definition setIpConfig :: "'j net_ext \<Rightarrow> ip_config_params \<Rightarrow> ip_config \<Rightarrow> 'j settings_manager \<Rightarrow> error_code \<times> 'j settings_manager" where
  "setIpConfig X p c h =
     (if icp_ipFamilyType p = IPF_IPV4V6 then (EC_REQUEST_NOT_SUPPORTED, h)
      else publishMirrorWrite X ''net_settings.set_ip_config.req'' ''net_settings.set_ip_config.rsp'' (fromIpConfig (nx_json X) p c) h)"

definition getIpConfig :: "ip_config_params \<Rightarrow> ip_config \<Rightarrow> 'j settings_manager \<Rightarrow> error_code \<times> ip_config" where
  "getIpConfig p c h =
     (if \<not> om_isReadyDerived h then (EC_DEVICE_NOT_READY, c)
      else case map_of (ds_ip_config_mirror h) (icp_ifType p, icp_ipFamilyType p, sint (icp_vlanId p)) of
        None \<Rightarrow> (EC_INVALID_ARGUMENTS, c)
      | Some v \<Rightarrow> (EC_SUCCESS, v))"

section \<open>Responses\<close>

text \<open>An element of the preference list that is not a string is read as an empty name.\<close>

definition pref_of :: "'j json_lib \<Rightarrow> 'j \<Rightarrow> backhaul_type" where
  "pref_of J v = toBackhaul (case j_string J v of None \<Rightarrow> [] | Some s \<Rightarrow> s)"

definition pref_response :: "'j json_lib \<Rightarrow> nat option \<Rightarrow> 'j envelope option \<Rightarrow> 'j settings_manager \<Rightarrow> 'j settings_manager result" where
  "pref_response J cb rsp h =
     (case good_data rsp of
        None \<Rightarrow> Inr (om_answer (\<lambda>c. Backhaul_Pref c [] (query_error rsp)) cb h)
      | Some d \<Rightarrow> bindE (value_items J d ''backhaulPref'') (\<lambda>vs.
          Inr (om_answer (\<lambda>c. Backhaul_Pref c (map (pref_of J) vs) EC_SUCCESS) cb h)))"

definition read_band :: "'j json_lib \<Rightarrow> 'j \<Rightarrow> (bool \<times> band_config option) result" where
  "read_band J d =
     bindE (value_bool J d ''isEnabled'') (\<lambda>e.
       case j_find J d ''config'' of
         None \<Rightarrow> Inr (e, None)
       | Some q \<Rightarrow>
           (if e then
              bindE (value_string J q ''priority'') (\<lambda>p.
              bindE (value_word_or 30 J q ''wlanWaitTimeInSec'') (\<lambda>w.
              bindE (value_word_or 30 J q ''n79WaitTimeInSec'') (\<lambda>n.
                Inr (e, Some \<lparr>bc_priority = (if p = ''WLAN'' then BP_WLAN else BP_N79), bc_wlanWaitTimeInSec = w, bc_n79WaitTimeInSec = n\<rparr>))))
            else Inr (e, None)))"

definition read_dds :: "'j json_lib \<Rightarrow> 'j \<Rightarrow> dds_info result" where
  "read_dds J d =
     bindE (value_string J d ''ddsType'') (\<lambda>t. bindE (value_int_or 1 J d ''slot'') (\<lambda>s. Inr \<lparr>dds_type_of = toDds t, dds_slotId = s\<rparr>))"

definition read_wwan :: "'j json_lib \<Rightarrow> int \<Rightarrow> 'j \<Rightarrow> (int \<times> bool) result" where
  "read_wwan J s d = bindE (value_int_or s J d ''slot'') (\<lambda>s. bindE (value_bool J d ''isAllowed'') (\<lambda>a. Inr (s, a)))"

fun set_response :: "'j json_lib \<Rightarrow> set_cont \<Rightarrow> 'j envelope option \<Rightarrow> 'j settings_manager \<Rightarrow> 'j settings_manager result" where
  "set_response J (K_Set_Response cb) rsp h = completeResponseCb J Set_Response cb rsp h"
| "set_response J (K_Backhaul_Pref cb) rsp h = pref_response J cb rsp h"
| "set_response J (K_Band cb) rsp h = completeQueryCb (read_band J) (\<lambda>c (e, b). Band_Answer c e b) (False, None) cb rsp h"
| "set_response J (K_Wwan cb s) rsp h = completeQueryCb (read_wwan J s) (\<lambda>c (s, a). Wwan_Answer c s a) (s, False) cb rsp h"
| "set_response J (K_MacSec cb) rsp h = completeQueryCb (\<lambda>d. value_bool J d ''enabled'') MacSec_Answer False cb rsp h"
| "set_response J (K_Dds cb) rsp h =
     completeQueryCb (read_dds J) Dds_Answer \<lparr>dds_type_of = DDS_PERMANENT, dds_slotId = 0\<rparr> cb rsp h"
| "set_response J (K_Mirror_Write topic) rsp h =
     (case rsp of
        None \<Rightarrow> Inr h
      | Some env \<Rightarrow> (case env_error env of None \<Rightarrow> Inr h | Some e \<Rightarrow> bindE (value_string_or ''?'' J e ''code'') (\<lambda>_. Inr h)))"

section \<open>Lifecycle\<close>

definition set_new :: "nat option \<Rightarrow> 'j settings_manager" where
  "set_new initCb =
     \<lparr>hstate = Top_St, htemp = Top_St, last_ignored = False, trace_fn = False, probe_fn = False, instr_log = [],
      ao_name = ''DataSettingsManager'', ao_inst = False, ao_q = [], ao_running = False,
      om_status = SERVICE_UNAVAILABLE, om_gate = gate_new initCb, om_conn_token = 0, om_live = [],
      om_io = \<lparr>io_counter = 0, io_now = 0, io_out = []\<rparr>, nm_listeners = [],
      ds_ippt_nat_enabled = True, ds_ippt_mirror = [], ds_ip_config_mirror = []\<rparr>"

definition set_topics :: "'j net_ext \<Rightarrow> (string \<times> string) list" where
  "set_topics X = map (\<lambda>n. (nx_topic X n, n))
     [''net_settings.subsys_ready_net_settings.ind'', ''net_settings.wwan_connectivity_changed.ind'',
      ''net_settings.dds_changed.ind'', ''net_settings.ippt_config_sync.ind'', ''net_settings.ip_config_sync.ind'']"

definition set_start :: "'j net_ext \<Rightarrow> 'j settings_manager \<Rightarrow> 'j settings_manager result" where
  "set_start X = net_start X (set_topics X) (settings_handlers X)"

text \<open>Unlike in the other managers the token of the observer is kept.\<close>

definition set_unsubscribeFromBridge :: "'j net_ext \<Rightarrow> 'j settings_manager \<Rightarrow> 'j settings_manager" where
  "set_unsubscribeFromBridge X h =
     (let h = fold (\<lambda>t. om_emit (Om_Unsubscribed t)) (map fst (set_topics X)) h
      in om_emit Om_Bridge_Drained (om_emit (Om_Connectivity_Unsubscribed (om_conn_token h)) h))"

definition set_destroy :: "nat \<Rightarrow> 'j net_ext \<Rightarrow> 'j settings_manager \<Rightarrow> 'j settings_manager result" where
  "set_destroy k X h = stop k (nx_loops X) (settings_handlers X) False (set_unsubscribeFromBridge X h)"

text \<open>The five forwarders of indications.\<close>

definition handleReadyInd :: "'j envelope \<Rightarrow> 'j settings_manager \<Rightarrow> 'j settings_manager" where
  "handleReadyInd env = post_fifo (N_ReadinessEvt_Signal env)"

definition handleWwanInd :: "'j envelope \<Rightarrow> 'j settings_manager \<Rightarrow> 'j settings_manager" where
  "handleWwanInd env = post_fifo (N_Signal (WwanConnectivityEvt_Signal env))"

definition handleDdsInd :: "'j envelope \<Rightarrow> 'j settings_manager \<Rightarrow> 'j settings_manager" where
  "handleDdsInd env = post_fifo (N_Signal (DdsChangedEvt_Signal env))"

definition handleIpptSyncInd :: "'j envelope \<Rightarrow> 'j settings_manager \<Rightarrow> 'j settings_manager" where
  "handleIpptSyncInd env = post_fifo (N_Signal (IpptConfigSyncEvt_Signal env))"

definition handleIpConfigSyncInd :: "'j envelope \<Rightarrow> 'j settings_manager \<Rightarrow> 'j settings_manager" where
  "handleIpConfigSyncInd env = post_fifo (N_Signal (IpConfigSyncEvt_Signal env))"

section \<open>The chart\<close>

lemma settings_handlers_net:
  "settings_handlers X = net_handlers (nx_json X) set_tell (set_idle (nx_json X)) (set_serve (nx_json X))"
proof
  fix c :: ostate
  show "settings_handlers X c = net_handlers (nx_json X) set_tell (set_idle (nx_json X)) (set_serve (nx_json X)) c"
    by (cases c rule: ostate_cases) (simp_all add: SetNotReady_St_def SetReady_St_def)
qed

lemma set_view_upd [simp]:
  "op_view (h\<lparr>ds_ippt_nat_enabled := a, ds_ippt_mirror := b\<rparr>) = op_view h" "op_view (h\<lparr>ds_ip_config_mirror := c\<rparr>) = op_view h"
  "posts_only g (h\<lparr>ds_ippt_nat_enabled := a, ds_ippt_mirror := b\<rparr>) = posts_only g h"
  "posts_only g (h\<lparr>ds_ip_config_mirror := c\<rparr>) = posts_only g h"
  "op_view (h'\<lparr>nm_listeners := ls\<rparr>) = op_view h'" "posts_only g' (h'\<lparr>nm_listeners := ls\<rparr>) = posts_only g' h'"
  by (simp_all add: op_view_def posts_only_def)

lemma set_broadcast_calm [simp]:
  "op_view (set_broadcastToListeners nt h) = op_view h" "posts_only g (set_broadcastToListeners nt h) = posts_only g h"
  by (simp_all add: set_broadcastToListeners_def Let_def)

lemmas set_signal_defs = set_with_data_def set_wwanEvt_def set_ddsEvt_def applyIpptSync_def applyIpConfigSync_def bindE_eq_Inr

interpretation settings: net_chart "nx_json X" set_tell "set_idle (nx_json X)" "set_serve (nx_json X)" for X :: "'j net_ext"
proof unfold_locales
  fix st x and h h' g :: "'j settings_manager" and e
  show "set_tell st (h\<lparr>htemp := x\<rparr>) = (set_tell st h)\<lparr>htemp := x\<rparr>"
  proof -
    have "h\<lparr>htemp := x, nm_listeners := ls\<rparr> = h\<lparr>nm_listeners := ls, htemp := x\<rparr>" for ls by simp
    then show ?thesis by (simp only: set_tell_def set_broadcastToListeners_def Let_def) simp
  qed
  show "posts_only g (set_tell st h) = posts_only g h" "op_view (set_tell st h) = op_view h" by (simp_all add: set_tell_def)
  show "set_idle (nx_json X) e h = Inr h' \<Longrightarrow> posts_only h h' \<and> op_view h' = op_view h"
    by (cases e) (auto simp: set_signal_defs split: option.splits)
  show "set_serve (nx_json X) e h = Inr h' \<Longrightarrow> posts_only h h' \<and> op_view h' = op_view h"
    by (cases e) (auto simp: set_signal_defs split: option.splits)
qed

section \<open>The mirrors follow the modem\<close>

text \<open>What a client can see of the mirrors, and the snapshot that a sync indication carries: of two
  entries with the same key the later one counts.\<close>

type_synonym settings_view = "bool \<times> (int \<times> int \<times> int \<Rightarrow> ippt_config option) \<times> (interface_type \<times> ip_family \<times> int \<Rightarrow> ip_config option)"

definition settings_view :: "'j settings_manager \<Rightarrow> settings_view" where
  "settings_view h = (ds_ippt_nat_enabled h, map_of (ds_ippt_mirror h), map_of (ds_ip_config_mirror h))"

definition snapshot_of :: "('j \<Rightarrow> ('k \<times> 'v) result) \<Rightarrow> 'j json_lib \<Rightarrow> 'j \<Rightarrow> ('k \<Rightarrow> 'v option) result" where
  "snapshot_of rd J d = bindE (value_items J d ''entries'') (\<lambda>es. bindE (map_result rd es) (\<lambda>kvs. Inr (map_of (rev kvs))))"

fun snapshot :: "'j json_lib \<Rightarrow> ('j, 'j set_signal) net_event \<Rightarrow> settings_view \<Rightarrow> settings_view" where
  "snapshot J (N_Signal (IpptConfigSyncEvt_Signal env)) (e, M, C) =
     (case env_data env of
        None \<Rightarrow> (e, M, C)
      | Some d \<Rightarrow> (case (value_bool_or True J d ''natEnabled'', snapshot_of (ippt_entry J) J d) of
                    (Inr e', Inr M') \<Rightarrow> (e', M', C) | _ \<Rightarrow> (e, M, C)))"
| "snapshot J (N_Signal (IpConfigSyncEvt_Signal env)) (e, M, C) =
     (case env_data env of
        None \<Rightarrow> (e, M, C)
      | Some d \<Rightarrow> (case snapshot_of (ip_config_entry J) J d of Inr C' \<Rightarrow> (e, M, C') | Inl _ \<Rightarrow> (e, M, C)))"
| "snapshot J _ v = v"

lemma store_entries_all:
  "store_entries rd es m = bindE (map_result rd es) (\<lambda>kvs. Inr (fold (\<lambda>(k, v). AList.update k v) kvs m))"
proof (induction es arbitrary: m)
  case (Cons e es)
  show ?case by (cases "rd e"; cases "map_result rd es") (auto simp: Cons.IH)
qed simp

lemma map_of_stored: "map_of (fold (\<lambda>(k, v). AList.update k v) kvs m) = map_of (rev kvs @ m)"
  by (induction kvs arbitrary: m) (auto simp: update_conv' map_add_def fun_eq_iff split: option.splits)

lemma store_snapshot:
  assumes "value_items J d ''entries'' = Inr es" "store_entries rd es [] = Inr m"
  shows "snapshot_of rd J d = Inr (map_of m)"
  using assms by (auto simp: snapshot_of_def store_entries_all bindE_eq_Inr map_of_stored)

lemma set_view_tell: "settings_view (set_tell st h) = settings_view h"
  by (simp add: set_tell_def set_broadcastToListeners_def settings_view_def Let_def om_notify_def om_emit_def om_do_def)

lemma set_serve_idle:
  assumes "set_idle J e h = Inr h' \<or> set_serve J e h = Inr h'"
  shows "settings_view h' = snapshot J (N_Signal e) (settings_view h)"
proof -
  have brd: "settings_view (set_broadcastToListeners nt h) = settings_view h" for nt h
    by (simp add: set_broadcastToListeners_def settings_view_def Let_def om_notify_def om_emit_def om_do_def)
  show ?thesis
  proof (cases e)
    case (IpptConfigSyncEvt_Signal env)
    with assms show ?thesis
      by (auto simp: set_with_data_def applyIpptSync_def bindE_eq_Inr settings_view_def store_snapshot split: option.splits)
  next
    case (IpConfigSyncEvt_Signal env)
    with assms show ?thesis
      by (auto simp: set_with_data_def applyIpConfigSync_def bindE_eq_Inr settings_view_def store_snapshot split: option.splits)
  qed (use assms brd in \<open>auto simp: set_with_data_def set_wwanEvt_def set_ddsEvt_def bindE_eq_Inr split: option.splits\<close>)
qed

lemma settings_follow:
  assumes "kMaxNest < n" "hstate h = St (Leaf s)" "dispatch_all n (settings_handlers X) us h = Inr h'"
  shows "hstate h' = St (Leaf (fold (track (net_up (nx_json X)) (\<lambda>u. net_withdrawn (nx_json X) u \<noteq> None)) us s)) \<and>
    settings_view h' = fold (snapshot (nx_json X)) us (settings_view h)"
proof (rule settings.net_dispatch_view [OF assms(1,2) assms(3) [unfolded settings_handlers_net]])
  show "set_idle (nx_json X) e h = Inr h' \<Longrightarrow> settings_view h' = snapshot (nx_json X) (N_Signal e) (settings_view h)"
    "set_serve (nx_json X) e h = Inr h' \<Longrightarrow> settings_view h' = snapshot (nx_json X) (N_Signal e) (settings_view h)" for e h h'
    using set_serve_idle by blast+
qed (simp_all add: settings_view_def erase_def set_view_tell [unfolded settings_view_def])

text \<open>What a client reads, from a view and the readiness.\<close>

definition read_of :: "bool \<Rightarrow> 'v option \<Rightarrow> 'v \<Rightarrow> error_code \<times> 'v" where
  "read_of up found c = (if \<not> up then (EC_DEVICE_NOT_READY, c) else case found of None \<Rightarrow> (EC_INVALID_ARGUMENTS, c) | Some v \<Rightarrow> (EC_SUCCESS, v))"

lemma reads_of_view:
  assumes "hstate h = St (Leaf s)" "settings_view h = (e', M, C)"
  shows "getIpPassThroughNatConfig e h = read_of (s = Ready) (Some e') e"
    "getIpPassThroughConfig p c h = read_of (s = Ready) (M (ip_profileId p, sint (ip_vlanId p), ip_slotId p)) c"
    "getIpConfig q d h = read_of (s = Ready) (C (icp_ifType q, icp_ipFamilyType q, sint (icp_vlanId q))) d"
  using assms by (auto simp: read_of_def getIpPassThroughNatConfig_def getIpPassThroughConfig_def getIpConfig_def om_isReadyDerived_def
      settings_view_def)

text \<open>C27: what the synchronous reads of the settings manager return depends on the indications alone: after
  any sequence of signals, handled while ready or not, they answer from the last snapshot that the modem
  published of the table in question (its last entry for the key), whatever writes were sent in
  between; while the manager is not ready they change nothing and report so.\<close>

theorem settings_reads_follow_modem:
  assumes "kMaxNest < n" "hstate h = St (Leaf s)" "dispatch_all n (settings_handlers X) us h = Inr h'"
    and "fold (snapshot (nx_json X)) us (settings_view h) = (e', M, C)"
    and "t = fold (track (net_up (nx_json X)) (\<lambda>u. net_withdrawn (nx_json X) u \<noteq> None)) us s"
  shows "getIpPassThroughNatConfig e h' = read_of (t = Ready) (Some e') e \<and>
    getIpPassThroughConfig p c h' = read_of (t = Ready) (M (ip_profileId p, sint (ip_vlanId p), ip_slotId p)) c \<and>
    getIpConfig q d h' = read_of (t = Ready) (C (icp_ifType q, icp_ipFamilyType q, sint (icp_vlanId q))) d \<and>
    settings_view (snd (setIpPassThroughConfig X p c h')) = settings_view h' \<and>
    settings_view (snd (setIpPassThroughNatConfig X e h')) = settings_view h' \<and>
    settings_view (snd (setIpConfig X q d h')) = settings_view h'"
proof -
  from settings_follow [OF assms(1-3)] assms(4,5) have h': "hstate h' = St (Leaf t)" "settings_view h' = (e', M, C)" by simp_all
  have w: "settings_view (snd (publishMirrorWrite X topic schema ms h')) = settings_view h'" for topic schema ms
    by (simp add: publishMirrorWrite_def set_request_def om_request_def om_do_def settings_view_def case_prod_unfold)
  show ?thesis
    by (intro conjI reads_of_view [OF h']) (simp_all add: setIpPassThroughConfig_def setIpPassThroughNatConfig_def setIpConfig_def w)
qed

section \<open>What is written is read\<close>

lemma settings_names [simp]:
  shows "toOperation (fromOperation a) = a" and "toIpType (fromIpType b) = b" and "toIpOperation (fromIpOperation c) = c"
    and empty_iface: "toIfaceType [] = IT_UNKNOWN"
proof -
  show "toOperation (fromOperation a) = a" by (cases a) (simp_all add: toOperation_def fromOperation_def)
  show "toIpType (fromIpType b) = b" by (cases b) (simp_all add: toIpType_def fromIpType_def)
  show "toIpOperation (fromIpOperation c) = c" by (cases c) (simp_all add: toIpOperation_def fromIpOperation_def)
qed (simp add: toIfaceType_def)

lemma to_int32_sint [simp]:
  fixes v :: "16 word" and u :: "32 word"
  shows "to_int32 (sint v) = sint v" and "to_int32 (uint u) = sint u"
proof -
  have "- (2 ^ 15) \<le> sint v \<and> sint v < 2 ^ 15" using sint_greater_eq [of v] sint_less [of v] by simp
  then show "to_int32 (sint v) = sint v" by (simp add: in_int_def)
  show "to_int32 (uint u) = sint u"
    by (simp add: to_int32_def sint_uint signed_take_bit_eq_take_bit_shift take_bit_eq_mod)
qed

lemma ippt_entry_written:
  assumes "json_ok J" "in_int (ip_profileId p)" "in_int (ip_slotId p)"
  shows "ippt_entry J (j_members J (fromIppt J p c)) = Inr ((ip_profileId p, sint (ip_vlanId p), ip_slotId p), c)"
  using assms by (cases "ic_nwInterface c = IT_UNKNOWN"; cases "ic_macAddr c = []")
    (simp_all add: ippt_entry_def toIppt_def fromIppt_def written)

text \<open>A configuration as it comes back from the modem: without the mask of the gateway.\<close>

definition without_gwMask :: "ip_config \<Rightarrow> ip_config" where
  "without_gwMask c = c\<lparr>icf_ipAddr := (icf_ipAddr c)\<lparr>gwMask := 0\<rparr>\<rparr>"

lemma without_gwMask_id: "without_gwMask c = c \<longleftrightarrow> gwMask (icf_ipAddr c) = 0"
  by (cases c, cases "icf_ipAddr c") (auto simp: without_gwMask_def)

lemma ip_config_entry_written:
  assumes J: "json_ok J"
  shows "ip_config_entry J (j_members J (fromIpConfig J p c)) =
    Inr ((icp_ifType p, icp_ipFamilyType p, sint (icp_vlanId p)), without_gwMask c)"
proof -
  let ?j = "j_members J (fromIpConfig J p c)" and ?a = "icf_ipAddr c"
  note w = fromIpConfig_def Let_def written J
  have "value_string J ?j ''ifType'' = Inr (fromIfaceType (icp_ifType p))" "value_string J ?j ''ipFamily'' = Inr (fromIpFamily (icp_ipFamilyType p))"
    "value_string J ?j ''ipType'' = Inr (fromIpType (icf_ipType c))" "value_string J ?j ''ipOpr'' = Inr (fromIpOperation (icf_ipOpr c))"
    by (simp_all add: w)
  moreover have "value_int_or (-1) J ?j ''vlanId'' = Inr (sint (icp_vlanId p))" by (cases "icp_vlanId p = -1") (simp_all add: w)
  moreover have "value_string J ?j ''ifAddress'' = Inr (ifAddress ?a)" by (cases "ifAddress ?a = []") (simp_all add: w)
  moreover have "value_word J ?j ''ifMask'' = Inr (ifMask ?a)" by (cases "ifMask ?a = 0") (simp_all add: w)
  moreover have "value_string J ?j ''gwAddress'' = Inr (gwAddress ?a)" by (cases "gwAddress ?a = []") (simp_all add: w)
  moreover have "value_string J ?j ''primaryDnsAddress'' = Inr (primaryDnsAddress ?a)" by (cases "primaryDnsAddress ?a = []") (simp_all add: w)
  moreover have "value_string J ?j ''secondaryDnsAddress'' = Inr (secondaryDnsAddress ?a)"
    by (cases "secondaryDnsAddress ?a = []") (simp_all add: w)
  ultimately show ?thesis by (simp add: ip_config_entry_def toIpConfig_def without_gwMask_def)
qed

text \<open>A table of configurations as the modem publishes it, every entry in the form in which it is written.\<close>

definition ippt_table :: "'j json_lib \<Rightarrow> bool \<Rightarrow> (ippt_params \<times> ippt_config) list \<Rightarrow> 'j" where
  "ippt_table J e pcs =
     j_members J [(''natEnabled'', j_of_bool J e), (''entries'', j_of_list J (map (\<lambda>(p, c). j_members J (fromIppt J p c)) pcs))]"

definition ip_config_table :: "'j json_lib \<Rightarrow> (ip_config_params \<times> ip_config) list \<Rightarrow> 'j" where
  "ip_config_table J pcs = j_members J [(''entries'', j_of_list J (map (\<lambda>(p, c). j_members J (fromIpConfig J p c)) pcs))]"

definition ippt_ok :: "ippt_params \<Rightarrow> bool" where
  "ippt_ok p \<longleftrightarrow> in_int (ip_profileId p) \<and> in_int (ip_slotId p)"

lemma map_of_keys: "inj f \<Longrightarrow> map_of (map (\<lambda>(p, c). (f p, g c)) pcs) (f p) = map_option g (map_of pcs p)"
  by (induction pcs) (auto simp: inj_eq)

lemma ippt_key_inj: "inj (\<lambda>p :: ippt_params. (ip_profileId p, sint (ip_vlanId p), ip_slotId p))"
  by (rule injI) (auto intro!: ippt_params.equality dest: signed_word_eqI)

lemma ip_config_key_inj: "inj (\<lambda>p :: ip_config_params. (icp_ifType p, icp_ipFamilyType p, sint (icp_vlanId p)))"
  by (rule injI) (auto intro!: ip_config_params.equality dest: signed_word_eqI)

lemma ippt_table_read:
  assumes J: "json_ok J" and ok: "list_all (\<lambda>(p, c). ippt_ok p) pcs"
  shows "value_bool_or True J (ippt_table J e pcs) ''natEnabled'' = Inr e" (is ?A)
    and "snapshot_of (ippt_entry J) J (ippt_table J e pcs) =
      Inr (map_of (map (\<lambda>(p, c). ((ip_profileId p, sint (ip_vlanId p), ip_slotId p), c)) (rev pcs)))" (is ?B)
proof -
  show ?A using J by (simp add: ippt_table_def written)
  have items: "value_items J (ippt_table J e pcs) ''entries'' = Inr (map (\<lambda>(p, c). j_members J (fromIppt J p c)) pcs)"
    using J by (simp add: value_items_def ippt_table_def written)
  have "map_result (ippt_entry J) (map (\<lambda>(p, c). j_members J (fromIppt J p c)) pcs) =
      Inr (map (\<lambda>(p, c). ((ip_profileId p, sint (ip_vlanId p), ip_slotId p), c)) pcs)"
    using ok J by (induction pcs) (auto simp: ippt_ok_def ippt_entry_written)
  with items show ?B by (simp add: snapshot_of_def rev_map)
qed

lemma ip_config_table_read:
  assumes J: "json_ok J"
  shows "snapshot_of (ip_config_entry J) J (ip_config_table J pcs) =
      Inr (map_of (map (\<lambda>(p, c). ((icp_ifType p, icp_ipFamilyType p, sint (icp_vlanId p)), without_gwMask c)) (rev pcs)))"
proof -
  have items: "value_items J (ip_config_table J pcs) ''entries'' = Inr (map (\<lambda>(p, c). j_members J (fromIpConfig J p c)) pcs)"
    using J by (simp add: value_items_def ip_config_table_def written)
  have "map_result (ip_config_entry J) (map (\<lambda>(p, c). j_members J (fromIpConfig J p c)) pcs) =
      Inr (map (\<lambda>(p, c). ((icp_ifType p, icp_ipFamilyType p, sint (icp_vlanId p)), without_gwMask c)) pcs)"
    using J by (induction pcs) (auto simp: ip_config_entry_written)
  with items show ?thesis by (simp add: snapshot_of_def rev_map)
qed

text \<open>C28: a configuration is read back as it was written. When the modem publishes the tables of IP
  pass-through and of interface configurations, every entry in the form in which the manager sent it,
  both indications are handled, and a read returns for every key the configuration that was written
  last, member by member (interfaces, operations, addresses, masks, the VLAN at its width), and the error for
  a key that was never written. One member is lost: the mask of the gateway is neither sent nor read, so
  that an interface configuration comes back with \<open>gwMask\<close> 0 whatever was written.\<close>

theorem settings_write_read:
  assumes "json_ok (nx_json X)" "kMaxNest < n" "hstate h = St (Leaf Ready)"
    and "env_data a = Some (ippt_table (nx_json X) e pcs)" "list_all (\<lambda>(p, c). ippt_ok p) pcs"
    and "env_data b = Some (ip_config_table (nx_json X) qds)"
  shows "\<exists>h'. dispatch_all n (settings_handlers X) [N_Signal (IpptConfigSyncEvt_Signal a), N_Signal (IpConfigSyncEvt_Signal b)] h = Inr h' \<and>
    getIpPassThroughNatConfig e0 h' = (EC_SUCCESS, e) \<and>
    getIpPassThroughConfig p c h' = read_of True (map_of (rev pcs) p) c \<and>
    getIpConfig q d h' = read_of True (map_option (\<lambda>x. x\<lparr>icf_ipAddr := (icf_ipAddr x)\<lparr>gwMask := 0\<rparr>\<rparr>) (map_of (rev qds) q)) d"
proof -
  let ?us = "[N_Signal (IpptConfigSyncEvt_Signal a), N_Signal (IpConfigSyncEvt_Signal b)]"
  let ?M = "map_of (map (\<lambda>(p, c). ((ip_profileId p, sint (ip_vlanId p), ip_slotId p), c)) (rev pcs))"
  let ?C = "map_of (map (\<lambda>(p, c). ((icp_ifType p, icp_ipFamilyType p, sint (icp_vlanId p)), without_gwMask c)) (rev qds))"
  note rd = ippt_table_read [OF assms(1,5), of e] ip_config_table_read [OF assms(1), of qds]
  have "\<exists>m. store_entries (ippt_entry (nx_json X)) es [] = Inr m" if "value_items (nx_json X) (ippt_table (nx_json X) e pcs) ''entries'' = Inr es" for es
    using rd(2) that by (auto simp: snapshot_of_def store_entries_all bindE_eq_Inr)
  moreover have "\<exists>m. store_entries (ip_config_entry (nx_json X)) es [] = Inr m" if "value_items (nx_json X) (ip_config_table (nx_json X) qds) ''entries'' = Inr es" for es
    using rd(3) that by (auto simp: snapshot_of_def store_entries_all bindE_eq_Inr)
  moreover obtain es1 es2 where "value_items (nx_json X) (ippt_table (nx_json X) e pcs) ''entries'' = Inr es1"
    "value_items (nx_json X) (ip_config_table (nx_json X) qds) ''entries'' = Inr es2"
    using rd(2,3) by (auto simp: snapshot_of_def bindE_eq_Inr)
  ultimately have "\<exists>r h'. settings_handlers X s (User u) h = Inr (r, h')" if "u \<in> set ?us" for s u h
    using that rd(1) assms(4,6) by (cases s rule: ostate_cases)
      (fastforce simp: settings_handlers_net set_with_data_def applyIpptSync_def applyIpConfigSync_def super_st_def)+
  then obtain h' where h': "dispatch_all n (settings_handlers X) ?us h = Inr h'"
    using settings.op_dispatch_all_total [OF assms(2,3), of ?us] unfolding settings_handlers_net by blast
  from settings_follow [OF assms(2,3) h'] rd assms(4,6) have v: "hstate h' = St (Leaf Ready)" "settings_view h' = (e, ?M, ?C)"
    by (auto simp: track_def settings_view_def)
  note reads_of_view [OF v]
  moreover note map_of_keys [OF ippt_key_inj, of id "rev pcs" p] map_of_keys [OF ip_config_key_inj, of without_gwMask "rev qds" q]
  ultimately have "getIpPassThroughNatConfig e0 h' = (EC_SUCCESS, e)" "getIpPassThroughConfig p c h' = read_of True (map_of (rev pcs) p) c"
    "getIpConfig q d h' = read_of True (map_option without_gwMask (map_of (rev qds) q)) d" by (simp_all add: read_of_def option.map_id)
  with h' show ?thesis unfolding without_gwMask_def by blast
qed

section \<open>Witnesses\<close>

definition demo_ippt :: "(ippt_params \<times> ippt_config) list" where
  "demo_ippt =
     [(\<lparr>ip_profileId = 5, ip_vlanId = -1, ip_slotId = 1\<rparr>, \<lparr>ic_ipptOpr = OP_ENABLE, ic_nwInterface = IT_ETH, ic_macAddr = ''02:00''\<rparr>),
      (\<lparr>ip_profileId = 5, ip_vlanId = 7, ip_slotId = 1\<rparr>, \<lparr>ic_ipptOpr = OP_DISABLE, ic_nwInterface = IT_UNKNOWN, ic_macAddr = []\<rparr>)]"

definition demo_ip_config :: "(ip_config_params \<times> ip_config) list" where
  "demo_ip_config =
     [(\<lparr>icp_ifType = IT_ETH, icp_ipFamilyType = IPF_IPV4, icp_vlanId = -1\<rparr>,
       \<lparr>icf_ipType = STATIC_IP, icf_ipOpr = IPO_ENABLE,
        icf_ipAddr = \<lparr>ifAddress = ''10.0.0.2'', ifMask = 24, gwAddress = ''10.0.0.1'', gwMask = 24, primaryDnsAddress = [], secondaryDnsAddress = []\<rparr>\<rparr>)]"

definition demo_sync :: "jtree \<Rightarrow> jtree envelope" where
  "demo_sync d = fst (makeEventEnvelope 7 ''mpss'' d 42)"

definition demo_sm :: "jtree settings_manager" where
  "demo_sm = (set_new None)\<lparr>hstate := St (Leaf Ready)\<rparr>"

definition demo_syncs :: "(jtree, jtree set_signal) net_event list" where
  "demo_syncs = [N_Signal (IpptConfigSyncEvt_Signal (demo_sync (ippt_table tree_lib False demo_ippt))),
     N_Signal (IpConfigSyncEvt_Signal (demo_sync (ip_config_table tree_lib demo_ip_config)))]"

lemma demo_settings:
  "json_ok (nx_json demo_nx)" "nx_json demo_nx = tree_lib" "hstate demo_sm = St (Leaf Ready)" "env_data (demo_sync d) = Some d"
  "list_all (\<lambda>(p, c). ippt_ok p) demo_ippt"
  by (simp_all add: demo_nx_def tree_lib_ok demo_sm_def demo_sync_def makeEventEnvelope_def Let_def demo_ippt_def ippt_ok_def in_int_def
      case_prod_unfold)

lemma demo_found:
  "map_of (rev demo_ippt) (fst (demo_ippt ! 0)) = Some (snd (demo_ippt ! 0))"
  "map_of (rev demo_ip_config) (fst (demo_ip_config ! 0)) = Some (snd (demo_ip_config ! 0))"
  by code_simp+

lemmas demo_write_read_args = demo_settings(1) demo_nx_loops(1) [unfolded demo_nx_loops(2)] demo_settings(3)
  demo_settings(4) [of "ippt_table tree_lib False demo_ippt", folded demo_settings(2)] demo_settings(5)
  demo_settings(4) [of "ip_config_table tree_lib demo_ip_config", folded demo_settings(2)]

theorem settings_write_read_witness:
  "\<exists>h'. dispatch_all 9 (settings_handlers demo_nx) demo_syncs demo_sm = Inr h' \<and>
    getIpPassThroughNatConfig True h' = (EC_SUCCESS, False) \<and>
    getIpPassThroughConfig (fst (demo_ippt ! 0)) (snd (demo_ippt ! 1)) h' = (EC_SUCCESS, snd (demo_ippt ! 0)) \<and>
    getIpConfig (fst (demo_ip_config ! 0)) (snd (demo_ip_config ! 0)) h' = (EC_SUCCESS, (snd (demo_ip_config ! 0))\<lparr>icf_ipAddr := (icf_ipAddr (snd (demo_ip_config ! 0)))\<lparr>gwMask := 0\<rparr>\<rparr>)"
  using settings_write_read [OF demo_write_read_args, of True "fst (demo_ippt ! 0)" "snd (demo_ippt ! 1)"
      "fst (demo_ip_config ! 0)" "snd (demo_ip_config ! 0)"]
  unfolding demo_syncs_def demo_settings(2) demo_found read_of_def by simp

text \<open>Readiness is withdrawn after the indications: the mirrors are kept and not read.\<close>

definition demo_sm2 :: "jtree settings_manager" where
  "demo_sm2 = projr (dispatch_all 9 (settings_handlers demo_nx) (demo_syncs @ [N_BridgeConnectivityChanged_Signal False]) demo_sm)"

lemma demo_sm2_run: "dispatch_all 9 (settings_handlers demo_nx) (demo_syncs @ [N_BridgeConnectivityChanged_Signal False]) demo_sm = Inr demo_sm2"
proof -
  have "map_sum id (\<lambda>_. ()) (dispatch_all 9 (settings_handlers demo_nx) (demo_syncs @ [N_BridgeConnectivityChanged_Signal False]) demo_sm) = Inr ()"
    by code_simp
  then show ?thesis unfolding demo_sm2_def
    by (cases "dispatch_all 9 (settings_handlers demo_nx) (demo_syncs @ [N_BridgeConnectivityChanged_Signal False]) demo_sm") auto
qed

lemma demo_sm2_view:
  "fst (fold (snapshot (nx_json demo_nx)) (demo_syncs @ [N_BridgeConnectivityChanged_Signal False]) (settings_view demo_sm)) = False"
  "NotReady = fold (track (net_up (nx_json demo_nx)) (\<lambda>u. net_withdrawn (nx_json demo_nx) u \<noteq> None))
     (demo_syncs @ [N_BridgeConnectivityChanged_Signal False]) Ready"
  by code_simp+

theorem settings_reads_follow_modem_witness:
  "getIpPassThroughNatConfig True demo_sm2 = (EC_DEVICE_NOT_READY, True) \<and>
   getIpPassThroughConfig (fst (demo_ippt ! 0)) (snd (demo_ippt ! 1)) demo_sm2 = (EC_DEVICE_NOT_READY, snd (demo_ippt ! 1)) \<and>
   getIpConfig (fst (demo_ip_config ! 0)) (snd (demo_ip_config ! 0)) demo_sm2 = (EC_DEVICE_NOT_READY, snd (demo_ip_config ! 0))"
proof -
  let ?v = "fold (snapshot (nx_json demo_nx)) (demo_syncs @ [N_BridgeConnectivityChanged_Signal False]) (settings_view demo_sm)"
  show ?thesis
    using settings_reads_follow_modem [OF demo_write_read_args(2,3) demo_sm2_run, of "fst ?v" "fst (snd ?v)" "snd (snd ?v)" NotReady True
        "fst (demo_ippt ! 0)" "snd (demo_ippt ! 1)" "fst (demo_ip_config ! 0)" "snd (demo_ip_config ! 0)", OF _ demo_sm2_view(2)]
    unfolding read_of_def by (simp only: prod.collapse rstate.distinct simp_thms if_True if_False)
qed

end
