(* ===== verification/Flat_Shell.thy ===== *)
theory Flat_Shell
  imports Net_Shell
begin

text \<open>
  What the managers of \<open>component/data\<close> (profiles, serving system) and \<open>component/tel\<close> (phones, serving
  system, network selection) repeat: the chart \<open>NotReady\<close>/\<open>Ready\<close> directly below the top, listeners,
  requests, and operations of clients that are queued. \<open>flat_chart\<close> is the contract of their charts,
  \<open>flat_service\<close> adds whose callback is where. Signals of the shell, effects and external parameters are
  those of the network managers.
\<close>

section \<open>State\<close>

text \<open>Calls that listeners get: the service status, and \<open>'n\<close>, those of one manager.\<close>

datatype 'n flat_note = On_Flat_Service service_status | Note 'n

record ('u, 'x) flat_manager = "(rstate, 'u) active_object" +
  fm_status :: service_status
  fm_slotId :: int
  fm_conn_token :: nat
  fm_listeners :: "nat list"
  fm_live :: "nat list"
  fm_io :: "'x io"

section \<open>Operations\<close>

definition fm_do :: "('x io \<Rightarrow> 'x io) \<Rightarrow> ('u, 'x, 'z) flat_manager_scheme \<Rightarrow> ('u, 'x, 'z) flat_manager_scheme" where
  "fm_do f h = h\<lparr>fm_io := f (fm_io h)\<rparr>"

definition fm_emit :: "'x \<Rightarrow> ('u, 'x, 'z) flat_manager_scheme \<Rightarrow> ('u, 'x, 'z) flat_manager_scheme" where
  "fm_emit x = fm_do (io_emit x)"

definition fm_request :: "'j net_ext \<Rightarrow> string \<Rightarrow> string \<Rightarrow> (string \<times> 'j) list \<Rightarrow> 'k \<Rightarrow>
    ('u, ('j, 'n, 'k, 'a) om_effect, 'z) flat_manager_scheme \<Rightarrow> ('u, ('j, 'n, 'k, 'a) om_effect, 'z) flat_manager_scheme" where
  "fm_request X topic schema ms k =
     fm_do (\<lambda>s. case io_request (nx_pa_id X) (j_members (nx_json X) ms) s of
       (req, s) \<Rightarrow> io_emit (Om_Request (nx_topic X topic) schema req k kNetRpcTimeout) s)"

text \<open>A call of a client's callback, which may be null.\<close>

definition fm_answer :: "(nat \<Rightarrow> 'a) \<Rightarrow> nat option \<Rightarrow> ('u, ('j, 'n, 'k, 'a) om_effect, 'z) flat_manager_scheme
    \<Rightarrow> ('u, ('j, 'n, 'k, 'a) om_effect, 'z) flat_manager_scheme" where
  "fm_answer f cb h = (case cb of None \<Rightarrow> h | Some c \<Rightarrow> fm_emit (Om_Answered (f c)) h)"

definition fm_broadcastToListeners :: "'n \<Rightarrow> ('u, ('j, 'n, 'k, 'a) om_effect, 'z) flat_manager_scheme
    \<Rightarrow> ('u, ('j, 'n, 'k, 'a) om_effect, 'z) flat_manager_scheme" where
  "fm_broadcastToListeners nt h =
     (let ls = filter (\<lambda>l. l \<in> set (fm_live h)) (fm_listeners h) in if ls = [] then h else fm_emit (Om_Notes ls nt) h)"

definition fm_tell :: "service_status \<Rightarrow> ('u, ('j, 'n flat_note, 'k, 'a) om_effect, 'z) flat_manager_scheme
    \<Rightarrow> ('u, ('j, 'n flat_note, 'k, 'a) om_effect, 'z) flat_manager_scheme" where
  "fm_tell st = fm_broadcastToListeners (On_Flat_Service st)"

definition fm_publishStatus :: "service_status \<Rightarrow> ('u, 'x, 'z) flat_manager_scheme \<Rightarrow> ('u, 'x, 'z) flat_manager_scheme" where
  "fm_publishStatus st h = h\<lparr>fm_status := st\<rparr>"

definition fm_getServiceStatus :: "('u, 'x, 'z) flat_manager_scheme \<Rightarrow> service_status" where
  "fm_getServiceStatus h = fm_status h"

definition fm_isReadyDerived :: "('u, 'x, 'z) flat_manager_scheme \<Rightarrow> bool" where
  "fm_isReadyDerived h \<longleftrightarrow> hstate h = St Ready"

text \<open>An operation of a client is posted when the manager is ready.\<close>

definition fm_post :: "'u \<Rightarrow> ('u, 'x, 'z) flat_manager_scheme \<Rightarrow> api_status \<times> ('u, 'x, 'z) flat_manager_scheme" where
  "fm_post e h = (if \<not> fm_isReadyDerived h then (NOTREADY, h) else (SUCCESS, post_fifo e h))"

definition fm_registerListener :: "nat \<Rightarrow> ('u, 'x, 'z) flat_manager_scheme \<Rightarrow> api_status \<times> ('u, 'x, 'z) flat_manager_scheme" where
  "fm_registerListener l h = (SUCCESS, h\<lparr>fm_listeners := fm_listeners h @ [l]\<rparr>)"

definition fm_deregisterListener :: "nat \<Rightarrow> ('u, 'x, 'z) flat_manager_scheme \<Rightarrow> api_status \<times> ('u, 'x, 'z) flat_manager_scheme" where
  "fm_deregisterListener l h = (SUCCESS, h\<lparr>fm_listeners := without_listener l (fm_live h) (fm_listeners h)\<rparr>)"

text \<open>Subscriptions in the order of \<open>start\<close>, and the withdrawal with its fence.\<close>

definition fm_subscribe :: "(string \<times> string) list \<Rightarrow> nat \<Rightarrow> ('u, ('j, 'n, 'k, 'a) om_effect, 'z) flat_manager_scheme
    \<Rightarrow> ('u, ('j, 'n, 'k, 'a) om_effect, 'z) flat_manager_scheme" where
  "fm_subscribe ts tok h =
     (fm_emit (Om_Connectivity_Subscribed tok) (fold (\<lambda>(t, sc). fm_emit (Om_Subscribed t sc)) ts h))\<lparr>fm_conn_token := tok\<rparr>"

definition fm_unsubscribe :: "string list \<Rightarrow> ('u, ('j, 'n, 'k, 'a) om_effect, 'z) flat_manager_scheme
    \<Rightarrow> ('u, ('j, 'n, 'k, 'a) om_effect, 'z) flat_manager_scheme" where
  "fm_unsubscribe ts h =
     (let h = fold (\<lambda>t. fm_emit (Om_Unsubscribed t)) ts h;
          h = fm_emit (Om_Connectivity_Unsubscribed (fm_conn_token h)) h
      in fm_emit Om_Bridge_Drained (h\<lparr>fm_conn_token := 0\<rparr>))"

text \<open>The topics of a manager, from their names.\<close>

definition named_topics :: "'j net_ext \<Rightarrow> string list \<Rightarrow> (string \<times> string) list" where
  "named_topics X = map (\<lambda>n. (nx_topic X n, n))"

definition fm_start :: "'j net_ext \<Rightarrow> (string \<times> string) list \<Rightarrow>
    (rstate \<Rightarrow> 'u event \<Rightarrow> ('u, ('j, 'n, 'k, 'a) om_effect, 'z) flat_manager_scheme
      \<Rightarrow> (status \<times> ('u, ('j, 'n, 'k, 'a) om_effect, 'z) flat_manager_scheme) result) \<Rightarrow>
    ('u, ('j, 'n, 'k, 'a) om_effect, 'z) flat_manager_scheme \<Rightarrow> ('u, ('j, 'n, 'k, 'a) om_effect, 'z) flat_manager_scheme result" where
  "fm_start X ts H h =
     (if ao_running h then Inr h
      else bindE (start_at (nx_loops X) H (St NotReady) (h\<lparr>ao_inst := True\<rparr>)) (\<lambda>h. Inr (fm_subscribe ts (nx_token X) h)))"

definition fm_destroy :: "nat \<Rightarrow> 'j net_ext \<Rightarrow> (string \<times> string) list \<Rightarrow>
    (rstate \<Rightarrow> 'u event \<Rightarrow> ('u, ('j, 'n, 'k, 'a) om_effect, 'z) flat_manager_scheme
      \<Rightarrow> (status \<times> ('u, ('j, 'n, 'k, 'a) om_effect, 'z) flat_manager_scheme) result) \<Rightarrow>
    ('u, ('j, 'n, 'k, 'a) om_effect, 'z) flat_manager_scheme \<Rightarrow> ('u, ('j, 'n, 'k, 'a) om_effect, 'z) flat_manager_scheme result" where
  "fm_destroy k X ts H h = stop k (nx_loops X) H False (fm_unsubscribe (map fst ts) h)"

text \<open>The response to an operation without result, and to a query; every failure is a timeout.\<close>

definition fm_complete :: "(nat \<Rightarrow> error_code \<Rightarrow> 'a) \<Rightarrow> nat option \<Rightarrow> 'j envelope option
    \<Rightarrow> ('u, ('j, 'n, 'k, 'a) om_effect, 'z) flat_manager_scheme \<Rightarrow> ('u, ('j, 'n, 'k, 'a) om_effect, 'z) flat_manager_scheme" where
  "fm_complete f cb rsp = fm_answer (\<lambda>c. f c (if has_error rsp then EC_OPERATION_TIMEOUT else EC_SUCCESS)) cb"

definition fm_completeQuery :: "('j \<Rightarrow> 'v result) \<Rightarrow> (nat \<Rightarrow> 'v \<Rightarrow> error_code \<Rightarrow> 'a) \<Rightarrow> 'v \<Rightarrow> nat option \<Rightarrow> 'j envelope option
    \<Rightarrow> ('u, ('j, 'n, 'k, 'a) om_effect, 'z) flat_manager_scheme \<Rightarrow> ('u, ('j, 'n, 'k, 'a) om_effect, 'z) flat_manager_scheme result" where
  "fm_completeQuery rd f none cb rsp h =
     (case cb of
        None \<Rightarrow> Inr h
      | Some c \<Rightarrow>
          (case good_data rsp of
             None \<Rightarrow> Inr (fm_emit (Om_Answered (f c none EC_OPERATION_TIMEOUT)) h)
           | Some d \<Rightarrow> bindE (rd d) (\<lambda>v. Inr (fm_emit (Om_Answered (f c v EC_SUCCESS)) h))))"

section \<open>State handlers\<close>

text \<open>
  \<open>idle\<close> and \<open>serve\<close> handle the manager's own signals in the two states, \<open>en\<close> and \<open>ex\<close> are the actions
  at the border of \<open>Ready\<close>, \<open>ws\<close> says which reported status withdraws readiness and what is then
  published.
\<close>

definition fm_available :: "'j json_lib \<Rightarrow> 'j envelope \<Rightarrow> ('u, 'x, 'z) flat_manager_scheme
    \<Rightarrow> (status \<times> ('u, 'x, 'z) flat_manager_scheme) result" where
  "fm_available J env h =
     bindE (readiness_status J ''AVAILABLE'' env) (\<lambda>up. Inr (if up then to_st (St Ready) h else (HANDLED, h)))"

definition fm_readiness :: "'j json_lib \<Rightarrow> (string \<times> service_status) list \<Rightarrow> 'j envelope \<Rightarrow> ('u, 'x, 'z) flat_manager_scheme
    \<Rightarrow> (status \<times> ('u, 'x, 'z) flat_manager_scheme) result" where
  "fm_readiness J ws env h =
     (case env_data env of
        None \<Rightarrow> Inr (HANDLED, h)
      | Some d \<Rightarrow> bindE (value_string J d ''status'') (\<lambda>s.
          Inr (case map_of ws s of None \<Rightarrow> (HANDLED, h) | Some st \<Rightarrow> to_st (St NotReady) (fm_publishStatus st h))))"

definition fm_connectivity :: "bool \<Rightarrow> ('u, 'x, 'z) flat_manager_scheme \<Rightarrow> status \<times> ('u, 'x, 'z) flat_manager_scheme" where
  "fm_connectivity b h = (if \<not> b then to_st (St NotReady) (fm_publishStatus SERVICE_UNAVAILABLE h) else (HANDLED, h))"

type_synonym ('j, 'o, 'x, 'z) flat_own =
  "'o \<Rightarrow> (('j, 'o) net_event, 'x, 'z) flat_manager_scheme \<Rightarrow> (status \<times> (('j, 'o) net_event, 'x, 'z) flat_manager_scheme) result"

fun flat_NotReady_St :: "'j json_lib \<Rightarrow> ('j, 'o, 'x, 'z) flat_own \<Rightarrow> ('j, 'o) net_event event \<Rightarrow> (('j, 'o) net_event, 'x, 'z) flat_manager_scheme
    \<Rightarrow> (status \<times> (('j, 'o) net_event, 'x, 'z) flat_manager_scheme) result" where
  "flat_NotReady_St J idle Entry_Signal h = Inr (HANDLED, h)"
| "flat_NotReady_St J idle Exit_Signal h = Inr (HANDLED, h)"
| "flat_NotReady_St J idle (User (N_ReadinessEvt_Signal env)) h = fm_available J env h"
| "flat_NotReady_St J idle (User (N_BridgeConnectivityChanged_Signal b)) h = Inr (HANDLED, h)"
| "flat_NotReady_St J idle (User (N_Signal e)) h = idle e h"
| "flat_NotReady_St J idle _ h = Inr (super_st Top_St h)"

fun flat_Ready_St :: "'j json_lib \<Rightarrow> (string \<times> service_status) list \<Rightarrow>
    ((('j, 'o) net_event, 'x, 'z) flat_manager_scheme \<Rightarrow> (('j, 'o) net_event, 'x, 'z) flat_manager_scheme) \<Rightarrow>
    ((('j, 'o) net_event, 'x, 'z) flat_manager_scheme \<Rightarrow> (('j, 'o) net_event, 'x, 'z) flat_manager_scheme) \<Rightarrow>
    ('j, 'o, 'x, 'z) flat_own \<Rightarrow> ('j, 'o) net_event event \<Rightarrow> (('j, 'o) net_event, 'x, 'z) flat_manager_scheme
    \<Rightarrow> (status \<times> (('j, 'o) net_event, 'x, 'z) flat_manager_scheme) result" where
  "flat_Ready_St J ws en ex serve Entry_Signal h = Inr (HANDLED, en h)"
| "flat_Ready_St J ws en ex serve Exit_Signal h = Inr (HANDLED, ex h)"
| "flat_Ready_St J ws en ex serve (User (N_ReadinessEvt_Signal env)) h = fm_readiness J ws env h"
| "flat_Ready_St J ws en ex serve (User (N_BridgeConnectivityChanged_Signal b)) h = Inr (fm_connectivity b h)"
| "flat_Ready_St J ws en ex serve (User (N_Signal e)) h = serve e h"
| "flat_Ready_St J ws en ex serve _ h = Inr (super_st Top_St h)"

fun flat_handlers :: "'j json_lib \<Rightarrow> (string \<times> service_status) list \<Rightarrow>
    ((('j, 'o) net_event, 'x, 'z) flat_manager_scheme \<Rightarrow> (('j, 'o) net_event, 'x, 'z) flat_manager_scheme) \<Rightarrow>
    ((('j, 'o) net_event, 'x, 'z) flat_manager_scheme \<Rightarrow> (('j, 'o) net_event, 'x, 'z) flat_manager_scheme) \<Rightarrow>
    ('j, 'o, 'x, 'z) flat_own \<Rightarrow> ('j, 'o, 'x, 'z) flat_own \<Rightarrow> rstate \<Rightarrow> ('j, 'o) net_event event
    \<Rightarrow> (('j, 'o) net_event, 'x, 'z) flat_manager_scheme \<Rightarrow> (status \<times> (('j, 'o) net_event, 'x, 'z) flat_manager_scheme) result" where
  "flat_handlers J ws en ex idle serve NotReady = flat_NotReady_St J idle"
| "flat_handlers J ws en ex idle serve Ready = flat_Ready_St J ws en ex serve"

section \<open>What the operations leave alone\<close>

lemma fm_posts [simp]:
  "posts_only g (h\<lparr>fm_io := a\<rparr>) = posts_only g h" "posts_only g (h\<lparr>fm_status := b\<rparr>) = posts_only g h"
  "posts_only g (fm_do f h) = posts_only g h" "posts_only g (fm_emit x h) = posts_only g h"
  "posts_only g' (fm_request X t sc d k h') = posts_only g' h'" "posts_only g' (fm_answer y cb h') = posts_only g' h'"
  "posts_only g' (fm_broadcastToListeners nt h') = posts_only g' h'" "posts_only g'' (fm_tell st h'') = posts_only g'' h''"
  by (simp_all add: posts_only_def fm_do_def fm_emit_def fm_request_def fm_answer_def fm_broadcastToListeners_def fm_tell_def Let_def
      split: option.split)

lemma fm_temp [simp]:
  "fm_do f (h\<lparr>htemp := x\<rparr>) = (fm_do f h)\<lparr>htemp := x\<rparr>" "fm_emit y (h\<lparr>htemp := x\<rparr>) = (fm_emit y h)\<lparr>htemp := x\<rparr>"
  "fm_broadcastToListeners nt (h'\<lparr>htemp := x\<rparr>) = (fm_broadcastToListeners nt h')\<lparr>htemp := x\<rparr>"
  "fm_tell st (h''\<lparr>htemp := x\<rparr>) = (fm_tell st h'')\<lparr>htemp := x\<rparr>"
  by (simp_all add: fm_do_def fm_emit_def fm_broadcastToListeners_def fm_tell_def Let_def)

lemma fm_do_sel [simp]:
  "fm_io (fm_do f h) = f (fm_io h)" "fm_listeners (fm_do f h) = fm_listeners h" "fm_live (fm_do f h) = fm_live h"
  "fm_status (fm_do f h) = fm_status h" "fm_slotId (fm_do f h) = fm_slotId h" "flat_manager.more (fm_do f h) = flat_manager.more h"
  "hstate (fm_do f h) = hstate h" "ao_q (fm_do f h) = ao_q h" "ao_running (fm_do f h) = ao_running h"
  by (simp_all add: fm_do_def)

lemma fm_more [simp]:
  "flat_manager.more (fm_emit x h) = flat_manager.more h" "flat_manager.more (fm_request X t sc d k h') = flat_manager.more h'"
  "flat_manager.more (fm_answer y cb h') = flat_manager.more h'" "flat_manager.more (fm_broadcastToListeners nt h') = flat_manager.more h'"
  "flat_manager.more (fm_tell st h'') = flat_manager.more h''" "flat_manager.more (h\<lparr>htemp := v\<rparr>) = flat_manager.more h"
  "flat_manager.more (h\<lparr>ao_q := q\<rparr>) = flat_manager.more h" "flat_manager.more (post_fifo u h) = flat_manager.more h"
  "flat_manager.more (erase h) = flat_manager.more h"
  by (simp_all add: fm_emit_def fm_request_def fm_answer_def fm_broadcastToListeners_def fm_tell_def Let_def post_fifo_def erase_def
      split: option.split)

section \<open>The chart\<close>

fun flat_withdrawn :: "'j json_lib \<Rightarrow> (string \<times> service_status) list \<Rightarrow> ('j, 'o) net_event \<Rightarrow> service_status option" where
  "flat_withdrawn J ws (N_ReadinessEvt_Signal env) =
     (case env_data env of
        None \<Rightarrow> None
      | Some d \<Rightarrow> (case value_string J d ''status'' of Inl _ \<Rightarrow> None | Inr s \<Rightarrow> map_of ws s))"
| "flat_withdrawn J ws (N_BridgeConnectivityChanged_Signal b) = (if b then None else Some SERVICE_UNAVAILABLE)"
| "flat_withdrawn J ws (N_Signal e) = None"

definition flat_down :: "'j json_lib \<Rightarrow> (string \<times> service_status) list \<Rightarrow> ('j, 'o) net_event \<Rightarrow> bool" where
  "flat_down J ws u \<longleftrightarrow> flat_withdrawn J ws u \<noteq> None"

text \<open>An action that only the ready state has.\<close>

definition at_ready :: "('h \<Rightarrow> 'h) \<Rightarrow> rstate \<Rightarrow> 'h \<Rightarrow> 'h" where
  "at_ready f s h = (if s = Ready then f h else h)"

lemma at_ready_simps [simp]: "at_ready f Ready h = f h" "at_ready f NotReady h = h"
  by (simp_all add: at_ready_def)

text \<open>What the handler of a manager's own signal returns: it stays in its state.\<close>

definition stays :: "('s, 'u, 'z) active_object_scheme \<Rightarrow> status \<Rightarrow> ('s, 'u, 'z) active_object_scheme \<Rightarrow> bool" where
  "stays h r h' \<longleftrightarrow> posts_only h h' \<and> r \<noteq> NEED_TO_TRANSFER \<and> (r = TO_SUPER \<longrightarrow> htemp h' = Top_St)"

lemma stays_simps [simp]: "stays h HANDLED h' = posts_only h h'" "stays h r (h\<lparr>htemp := Top_St\<rparr>) = (r \<noteq> NEED_TO_TRANSFER)"
  by (auto simp: stays_def)

lemma fm_available_Inr:
  "fm_available J env h = Inr (r, h') \<Longrightarrow>
   if net_up J (N_ReadinessEvt_Signal env) then r = NEED_TO_TRANSFER \<and> h' = h\<lparr>htemp := St Ready\<rparr> else r = HANDLED \<and> h' = h"
  by (auto simp: fm_available_def bindE_eq_Inr to_st_def split: if_splits)

lemma fm_readiness_Inr:
  "fm_readiness J ws env h = Inr (r, h') \<Longrightarrow>
   case flat_withdrawn J ws (N_ReadinessEvt_Signal env) of
     None \<Rightarrow> r = HANDLED \<and> h' = h
   | Some st \<Rightarrow> r = NEED_TO_TRANSFER \<and> h' = h\<lparr>fm_status := st, htemp := St NotReady\<rparr>"
  by (auto simp: fm_readiness_def bindE_eq_Inr to_st_def fm_publishStatus_def split: option.splits)

lemma fm_connectivity_eq:
  "fm_connectivity b h = (if b then (HANDLED, h) else (NEED_TO_TRANSFER, h\<lparr>fm_status := SERVICE_UNAVAILABLE, htemp := St NotReady\<rparr>))"
  by (simp add: fm_connectivity_def to_st_def fm_publishStatus_def)

locale flat_chart =
  fixes J :: "'j json_lib" and ws :: "(string \<times> service_status) list"
    and en ex :: "(('j, 'o) net_event, 'x, 'z) flat_manager_scheme \<Rightarrow> (('j, 'o) net_event, 'x, 'z) flat_manager_scheme"
    and idle serve :: "('j, 'o, 'x, 'z) flat_own"
  assumes border_temp: "en (h\<lparr>htemp := x\<rparr>) = (en h)\<lparr>htemp := x\<rparr>" "ex (h\<lparr>htemp := x\<rparr>) = (ex h)\<lparr>htemp := x\<rparr>"
    and border_posts: "posts_only h (en h)" "posts_only h (ex h)"
    and idle_stays: "idle e h = Inr (r, h') \<Longrightarrow> stays h r h'"
    and serve_stays: "serve e h = Inr (r, h') \<Longrightarrow> stays h r h'"

sublocale flat_chart \<subseteq> manager_shell "flat_handlers J ws en ex idle serve" "at_ready en" "at_ready ex" "net_up J" "flat_down J ws"
proof unfold_locales
  fix s h h' u r x
  let ?H = "flat_handlers J ws en ex idle serve"
  show "?H s None_Signal h = Inr (super_st Top_St h)" "?H s Init_Signal h = Inr (super_st Top_St h)" by (cases s; simp)+
  show "?H s Entry_Signal h = Inr (HANDLED, at_ready en s h)" "?H s Exit_Signal h = Inr (HANDLED, at_ready ex s h)" by (cases s; simp)+
  show "at_ready en s (h\<lparr>htemp := x\<rparr>) = (at_ready en s h)\<lparr>htemp := x\<rparr>" "at_ready ex s (h\<lparr>htemp := x\<rparr>) = (at_ready ex s h)\<lparr>htemp := x\<rparr>"
    "posts_only h (at_ready en s h)" "posts_only h (at_ready ex s h)" by (simp_all add: at_ready_def border_temp border_posts)
  assume H: "?H s (User u) h = Inr (r, h')"
  show "posts_only h h' \<and> (r = TO_SUPER \<longrightarrow> htemp h' = Top_St) \<and>
    (if track (net_up J) (flat_down J ws) u s = s then r \<noteq> NEED_TO_TRANSFER
     else r = NEED_TO_TRANSFER \<and> htemp h' = St (track (net_up J) (flat_down J ws) u s))"
  proof (cases u)
    case (N_Signal e)
    with H idle_stays [of e h r h'] serve_stays [of e h r h'] show ?thesis by (cases s) (simp_all add: track_def flat_down_def stays_def)
  next
    case (N_ReadinessEvt_Signal env)
    show ?thesis
    proof (cases s)
      case NotReady
      with H N_ReadinessEvt_Signal fm_available_Inr [of J env h r h'] show ?thesis by (simp add: track_def split: if_splits)
    next
      case Ready
      with H N_ReadinessEvt_Signal fm_readiness_Inr [of J ws env h r h'] show ?thesis
        by (cases "flat_withdrawn J ws u") (simp_all add: track_def flat_down_def)
    qed
  next
    case (N_BridgeConnectivityChanged_Signal b)
    with H show ?thesis by (cases s; cases b) (auto simp: track_def flat_down_def fm_connectivity_eq)
  qed
qed

section \<open>Whose callback is where\<close>

definition fm_out :: "('u, 'x, 'z) flat_manager_scheme \<Rightarrow> 'x list" where
  "fm_out h = io_out (fm_io h)"

text \<open>
  A step from \<open>h\<close> to \<open>h'\<close> that is responsible for the clients \<open>cs\<close>: each of them, and each that the
  manager kept for later (\<open>pending\<close>), is answered, has a request with the bridge, or is kept.
\<close>

definition fm_serves :: "('a \<Rightarrow> nat list) \<Rightarrow> ('k \<Rightarrow> nat list) \<Rightarrow>
    (('u, ('j, 'n, 'k, 'a) om_effect, 'z) flat_manager_scheme \<Rightarrow> nat list) \<Rightarrow> nat list \<Rightarrow>
    ('u, ('j, 'n, 'k, 'a) om_effect, 'z) flat_manager_scheme \<Rightarrow> ('u, ('j, 'n, 'k, 'a) om_effect, 'z) flat_manager_scheme \<Rightarrow> bool" where
  "fm_serves answers holds pending cs h h' \<longleftrightarrow>
     (\<exists>xs. fm_out h' = fm_out h @ xs \<and> ao_q h' = ao_q h \<and> ao_running h' = ao_running h \<and>
       net_clients answers holds xs + mset (pending h') = mset (pending h) + mset cs)"

text \<open>The same, without any request.\<close>

definition fm_gives :: "('a \<Rightarrow> nat list) \<Rightarrow> (('u, ('j, 'n, 'k, 'a) om_effect, 'z) flat_manager_scheme \<Rightarrow> nat list) \<Rightarrow> nat list \<Rightarrow>
    ('u, ('j, 'n, 'k, 'a) om_effect, 'z) flat_manager_scheme \<Rightarrow> ('u, ('j, 'n, 'k, 'a) om_effect, 'z) flat_manager_scheme \<Rightarrow> bool" where
  "fm_gives answers pending cs h h' \<longleftrightarrow>
     (\<exists>xs. fm_out h' = fm_out h @ xs \<and> ao_q h' = ao_q h \<and> ao_running h' = ao_running h \<and> hstate h' = hstate h \<and> nm_sent xs = [] \<and>
       mset (nm_answered answers xs) + mset (pending h') = mset (pending h) + mset cs)"

lemma fm_gives_serves: "fm_gives answers pending cs h h' \<Longrightarrow> fm_serves answers holds pending cs h h'"
  by (auto simp: fm_gives_def fm_serves_def net_clients_def)

lemma book_trans: "a + p1 = p + c \<Longrightarrow> b + p2 = p1 + d \<Longrightarrow> (a + b) + p2 = p + (c + d)" for a b c d p p1 p2 :: "'b multiset"
  by (metis add.assoc)

lemma net_clients_trans:
  "net_clients answers holds xs + p1 = p + c \<Longrightarrow> net_clients answers holds ys + p2 = p1 + d \<Longrightarrow>
   net_clients answers holds (xs @ ys) + p2 = p + (c + d)"
  unfolding net_clients_append by (rule book_trans)

lemma fm_gives_trans: "fm_gives answers pending cs h h1 \<Longrightarrow> fm_gives answers pending ds h1 h2 \<Longrightarrow> fm_gives answers pending (cs @ ds) h h2"
proof -
  assume "fm_gives answers pending cs h h1" "fm_gives answers pending ds h1 h2"
  then obtain xs ys where xy: "fm_out h1 = fm_out h @ xs" "fm_out h2 = fm_out h1 @ ys" "nm_sent xs = []" "nm_sent ys = []"
    "ao_q h1 = ao_q h" "ao_q h2 = ao_q h1" "ao_running h1 = ao_running h" "ao_running h2 = ao_running h1" "hstate h1 = hstate h" "hstate h2 = hstate h1"
    and m: "mset (nm_answered answers xs) + mset (pending h1) = mset (pending h) + mset cs"
      "mset (nm_answered answers ys) + mset (pending h2) = mset (pending h1) + mset ds"
    unfolding fm_gives_def by blast
  from xy book_trans [OF m] show ?thesis unfolding fm_gives_def
    by (intro exI [of _ "xs @ ys"]) (simp add: nm_sent_def nm_answered_def)
qed

text \<open>What is kept for later is kept in the part of the state that a manager adds.\<close>

definition of_more :: "(('u, 'x, 'z) flat_manager_scheme \<Rightarrow> 'b) \<Rightarrow> bool" where
  "of_more p \<longleftrightarrow> (\<forall>g h. flat_manager.more g = flat_manager.more h \<longrightarrow> p g = p h)"

lemma of_moreD: "of_more p \<Longrightarrow> flat_manager.more g = flat_manager.more h \<Longrightarrow> p g = p h"
  unfolding of_more_def by blast

lemma of_more_none [simp]: "of_more (\<lambda>_. c)"
  by (simp add: of_more_def)

lemma fm_gives_step:
  assumes "of_more pending" "flat_manager.more h' = flat_manager.more h" "fm_out h' = fm_out h @ xs" "nm_sent xs = []"
    "nm_answered answers xs = cs" "ao_q h' = ao_q h" "ao_running h' = ao_running h" "hstate h' = hstate h"
  shows "fm_gives answers pending cs h h'"
  unfolding fm_gives_def using of_moreD [OF assms(1,2)] assms(3-) by (intro exI [of _ xs]) simp

lemma fm_gives_none: "of_more pending \<Longrightarrow> fm_gives answers pending [] h h"
  by (rule fm_gives_step [where xs = "[]"]) (simp_all add: nm_sent_def nm_answered_def)

lemma fm_gives_temp: "of_more pending \<Longrightarrow> fm_gives answers pending [] h (h\<lparr>htemp := x\<rparr>)"
  by (rule fm_gives_step [where xs = "[]"]) (simp_all add: nm_sent_def nm_answered_def fm_out_def)

lemma fm_gives_emit: "of_more pending \<Longrightarrow> answers a = cs \<Longrightarrow> fm_gives answers pending cs h (fm_emit (Om_Answered a) h)"
  by (rule fm_gives_step [where xs = "[Om_Answered a]"]) (simp_all add: nm_sent_def nm_answered_def fm_out_def fm_emit_def)

lemma fm_gives_answer:
  "of_more pending \<Longrightarrow> (\<And>c. answers (f c) = [c]) \<Longrightarrow> fm_gives answers pending (opt_list cb) h (fm_answer f cb h)"
  by (cases cb) (simp_all add: fm_answer_def fm_gives_none fm_gives_emit)

lemma fm_gives_broadcast: "of_more pending \<Longrightarrow> fm_gives answers pending [] h (fm_broadcastToListeners nt h)"
  by (rule fm_gives_step [where xs = "if filter (\<lambda>l. l \<in> set (fm_live h)) (fm_listeners h) = [] then []
      else [Om_Notes (filter (\<lambda>l. l \<in> set (fm_live h)) (fm_listeners h)) nt]"])
    (auto simp: nm_sent_def nm_answered_def fm_out_def fm_emit_def fm_broadcastToListeners_def Let_def)

lemma fm_gives_tell: "of_more pending \<Longrightarrow> fm_gives answers pending [] h (fm_tell st h)"
  by (simp add: fm_tell_def fm_gives_broadcast)

lemma fm_gives_complete:
  "of_more pending \<Longrightarrow> (\<And>c er. answers (f c er) = [c]) \<Longrightarrow> fm_gives answers pending (opt_list cb) h (fm_complete f cb rsp h)"
  by (simp add: fm_complete_def fm_gives_answer)

lemma fm_gives_query:
  assumes "fm_completeQuery rd f v cb rsp h = Inr h'" "of_more pending" "\<And>c v er. answers (f c v er) = [c]"
  shows "fm_gives answers pending (opt_list cb) h h'"
  using assms by (auto simp: fm_completeQuery_def bindE_eq_Inr intro: fm_gives_none fm_gives_emit split: option.splits)

lemma fm_serves_request:
  assumes "of_more pending" "cs = holds k"
  shows "fm_serves answers holds pending cs h (fm_request X topic schema ms k h)"
proof -
  obtain env where "fm_out (fm_request X topic schema ms k h) = fm_out h @ [Om_Request (nx_topic X topic) schema env k kNetRpcTimeout]"
    by (simp add: fm_request_def fm_out_def case_prod_unfold)
  moreover have "pending (fm_request X topic schema ms k h) = pending h" using assms(1) by (rule of_moreD) simp
  ultimately show ?thesis using assms(2)
    by (auto simp: fm_serves_def fm_request_def net_clients_def nm_sent_def nm_answered_def)
qed

lemma fm_serves_simps:
  assumes "of_more pending"
  shows "fm_serves answers holds pending [] h h" "fm_serves answers holds pending [] h (fm_broadcastToListeners nt h)"
  by (rule fm_gives_serves, rule fm_gives_none fm_gives_broadcast, rule assms)+

section \<open>Runs\<close>

text \<open>The clients that are lost when the manager handles its next signal while not ready.\<close>

definition stale :: "('o \<Rightarrow> nat list) \<Rightarrow> (('j, 'o) net_event, 'x, 'z) flat_manager_scheme \<Rightarrow> nat list" where
  "stale drops h = (case ao_q h of N_Signal e # us \<Rightarrow> if hstate h = St NotReady then drops e else [] | _ \<Rightarrow> [])"

text \<open>
  A manager among clients, its worker and the bridge, as for the network managers. \<open>D\<close> are the clients
  whose signals were dropped. \<open>direct\<close> are operations that call their callback on the client's thread.
\<close>

inductive flat_run :: "(rstate \<Rightarrow> ('j, 'o) net_event event \<Rightarrow> (('j, 'o) net_event, ('j, 'n, 'k, 'a) om_effect, 'z) flat_manager_scheme \<Rightarrow>
      (status \<times> (('j, 'o) net_event, ('j, 'n, 'k, 'a) om_effect, 'z) flat_manager_scheme) result) \<Rightarrow>
    ('k \<Rightarrow> 'j envelope option \<Rightarrow> (('j, 'o) net_event, ('j, 'n, 'k, 'a) om_effect, 'z) flat_manager_scheme \<Rightarrow>
      (('j, 'o) net_event, ('j, 'n, 'k, 'a) om_effect, 'z) flat_manager_scheme result) \<Rightarrow>
    (nat list \<Rightarrow> (('j, 'o) net_event, ('j, 'n, 'k, 'a) om_effect, 'z) flat_manager_scheme \<Rightarrow>
      (('j, 'o) net_event, ('j, 'n, 'k, 'a) om_effect, 'z) flat_manager_scheme \<Rightarrow> bool) \<Rightarrow>
    ((('j, 'o) net_event, ('j, 'n, 'k, 'a) om_effect, 'z) flat_manager_scheme \<Rightarrow> nat list) \<Rightarrow>
    ('o \<Rightarrow> nat list) \<Rightarrow> ('o \<Rightarrow> nat list) \<Rightarrow> ('k \<Rightarrow> nat list) \<Rightarrow> 'j net_ext \<Rightarrow>
    nat multiset \<Rightarrow> 'k multiset \<Rightarrow> nat multiset \<Rightarrow> nat multiset \<Rightarrow> (('j, 'o) net_event, ('j, 'n, 'k, 'a) om_effect, 'z) flat_manager_scheme \<Rightarrow> bool"
  for H respond direct pending carries drops holds X where
  started: "fm_start X ts H h0 = Inr h \<Longrightarrow> \<not> ao_running h0 \<Longrightarrow> ao_q h0 = [] \<Longrightarrow> fm_out h0 = [] \<Longrightarrow>
    flat_run H respond direct pending carries drops holds X (mset (pending h0)) {#} {#} {#} h"
| post: "flat_run H respond direct pending carries drops holds X G P L D h \<Longrightarrow> ao_running h \<Longrightarrow>
    flat_run H respond direct pending carries drops holds X (G + mset (event_clients carries u)) P L D (post_fifo u h)"
| served: "flat_run H respond direct pending carries drops holds X G P L D h \<Longrightarrow> direct cs h h' \<Longrightarrow>
    flat_run H respond direct pending carries drops holds X (G + mset cs) P L D h'"
| work: "flat_run H respond direct pending carries drops holds X G P L D h \<Longrightarrow> run_step (nx_loops X) H h = Inr (res, h') \<Longrightarrow>
    flat_run H respond direct pending carries drops holds X G (P + mset (nm_sent (drop (length (fm_out h)) (fm_out h')))) L
      (D + mset (stale drops h)) h'"
| reply: "flat_run H respond direct pending carries drops holds X G (add_mset k P) L D h \<Longrightarrow> respond k rsp h = Inr h' \<Longrightarrow>
    flat_run H respond direct pending carries drops holds X G P L D h'"
| threw: "flat_run H respond direct pending carries drops holds X G (add_mset k P) L D h \<Longrightarrow> respond k rsp h = Inl f \<Longrightarrow>
    flat_run H respond direct pending carries drops holds X G P (L + mset (holds k)) D h"
| listeners: "flat_run H respond direct pending carries drops holds X G P L D h \<Longrightarrow>
    flat_run H respond direct pending carries drops holds X G P L D (h\<lparr>fm_listeners := ls, fm_live := lv\<rparr>)"
| time: "flat_run H respond direct pending carries drops holds X G P L D h \<Longrightarrow> io_out i = io_out (fm_io h) \<Longrightarrow>
    flat_run H respond direct pending carries drops holds X G P L D (h\<lparr>fm_io := i\<rparr>)"

locale flat_service = flat_chart "nx_json X" ws en ex idle serve
  for X :: "'j net_ext" and ws :: "(string \<times> service_status) list"
    and en ex :: "(('j, 'o) net_event, ('j, 'n, 'k, 'a) om_effect, 'z) flat_manager_scheme \<Rightarrow>
      (('j, 'o) net_event, ('j, 'n, 'k, 'a) om_effect, 'z) flat_manager_scheme"
    and idle serve :: "('j, 'o, ('j, 'n, 'k, 'a) om_effect, 'z) flat_own" +
  fixes respond :: "'k \<Rightarrow> 'j envelope option \<Rightarrow> (('j, 'o) net_event, ('j, 'n, 'k, 'a) om_effect, 'z) flat_manager_scheme \<Rightarrow>
      (('j, 'o) net_event, ('j, 'n, 'k, 'a) om_effect, 'z) flat_manager_scheme result"
    and direct :: "nat list \<Rightarrow> (('j, 'o) net_event, ('j, 'n, 'k, 'a) om_effect, 'z) flat_manager_scheme \<Rightarrow>
      (('j, 'o) net_event, ('j, 'n, 'k, 'a) om_effect, 'z) flat_manager_scheme \<Rightarrow> bool"
    and pending :: "(('j, 'o) net_event, ('j, 'n, 'k, 'a) om_effect, 'z) flat_manager_scheme \<Rightarrow> nat list"
    and carries drops :: "'o \<Rightarrow> nat list" and holds :: "'k \<Rightarrow> nat list" and answers :: "'a \<Rightarrow> nat list"
  assumes pending_more: "of_more pending"
    and border_gives: "fm_gives answers pending [] h (en h)" "fm_gives answers pending [] h (ex h)"
    and idle_gives: "idle e h = Inr (r, h') \<Longrightarrow> \<exists>cs. mset (carries e) = mset cs + mset (drops e) \<and> fm_gives answers pending cs h h'"
    and serve_serves: "serve e h = Inr (r, h') \<Longrightarrow> fm_serves answers holds pending (carries e) h h'"
    and respond_gives: "respond k rsp h = Inr h' \<Longrightarrow> fm_gives answers pending (holds k) h h'"
    and direct_gives: "direct cs h h' \<Longrightarrow> fm_gives answers pending cs h h'"

context flat_service
begin

lemma dispatch_flat_clients:
  assumes "kMaxNest < n" "hstate h = St s" "dispatch n (flat_handlers (nx_json X) ws en ex idle serve) (User u) h = Inr h'"
  shows "\<exists>s' xs. hstate h' = St s' \<and> fm_out h' = fm_out h @ xs \<and> ao_q h' = ao_q h \<and>
    net_clients answers holds xs + mset (pending h') +
      mset (case u of N_Signal e \<Rightarrow> if s = NotReady then drops e else [] | _ \<Rightarrow> []) = mset (pending h) + mset (event_clients carries u)"
proof -
  let ?d = "mset (case u of N_Signal e \<Rightarrow> if s = NotReady then drops e else [] | _ \<Rightarrow> [])" and ?t = "track (net_up (nx_json X)) (flat_down (nx_json X) ws) u s"
  define ok where "ok = (\<lambda>C (g :: (('j, 'o) net_event, ('j, 'n, 'k, 'a) om_effect, 'z) flat_manager_scheme).
    \<exists>xs. fm_out g = fm_out h @ xs \<and> ao_q g = ao_q h \<and> net_clients answers holds xs + mset (pending g) = mset (pending h) + C)"
  have er: "ok C (erase g) = ok C g" for C g
    using of_moreD [OF pending_more, of "erase g" g] by (simp add: ok_def) (simp add: fm_out_def erase_def)
  have serves: "ok (C + mset cs) g'" if "ok C g" "fm_serves answers holds pending cs g g'" for C g g' cs
  proof -
    from that obtain xs ys where xy: "fm_out g = fm_out h @ xs" "fm_out g' = fm_out g @ ys" "ao_q g = ao_q h" "ao_q g' = ao_q g"
      and m: "net_clients answers holds xs + mset (pending g) = mset (pending h) + C"
        "net_clients answers holds ys + mset (pending g') = mset (pending g) + mset cs"
      unfolding ok_def fm_serves_def by blast
    from xy net_clients_trans [OF m] show ?thesis unfolding ok_def by (intro exI [of _ "xs @ ys"]) simp
  qed
  have gives: "ok (C + mset cs) g'" if "ok C g" "fm_gives answers pending cs g g'" for C g g' cs
    using that serves fm_gives_serves by blast
  have kept: "ok C g'" if "ok C g" "fm_gives answers pending [] g g'" for C g g' using gives [OF that] by simp
  have temp: "ok C (g\<lparr>htemp := x\<rparr>) = ok C g" for C g x using er [of C "g\<lparr>htemp := x\<rparr>"] er [of C g] by simp
  have stat: "ok C (g\<lparr>fm_status := x\<rparr>) = ok C g" for C g x
    using of_moreD [OF pending_more, of "g\<lparr>fm_status := x\<rparr>" g] by (simp add: ok_def) (simp add: fm_out_def)
  have brd: "ok C (at_ready en t (at_ready ex s' g))" if "ok C g" for C t s' g
  proof -
    have "ok C (en g)" if "ok C g" for g by (rule kept [OF that border_gives(1)])
    moreover have "ok C (ex g)" if "ok C g" for g by (rule kept [OF that border_gives(2)])
    ultimately show ?thesis using that by (cases s'; cases t) auto
  qed
  have "(\<exists>C. ok C h' \<and> C + ?d = mset (event_clients carries u)) \<and> hstate h' = St ?t"
  proof (rule dispatch_post [OF assms])
    show "ok {#} h" by (simp add: ok_def net_clients_def nm_sent_def nm_answered_def)
    fix g r h1
    assume g: "ok {#} g" and H: "flat_handlers (nx_json X) ws en ex idle serve s (User u) g = Inr (r, h1)"
    have "\<exists>C. ok C h1 \<and> C + ?d = mset (event_clients carries u)"
    proof (cases u)
      case (N_Signal e)
      show ?thesis
      proof (cases s)
        case NotReady
        with H N_Signal have "idle e g = Inr (r, h1)" by simp
        from idle_gives [OF this] obtain cs where "mset (carries e) = mset cs + mset (drops e)" "fm_gives answers pending cs g h1" by blast
        with gives [OF g] N_Signal NotReady show ?thesis by (intro exI [of _ "mset cs"]) simp
      next
        case Ready
        with H N_Signal have "serve e g = Inr (r, h1)" by simp
        from serves [OF g serve_serves [OF this]] N_Signal Ready show ?thesis by auto
      qed
    next
      case (N_ReadinessEvt_Signal env)
      have "ok {#} h1"
      proof (cases s)
        case NotReady
        with H N_ReadinessEvt_Signal fm_available_Inr [of "nx_json X" env g r h1] g temp show ?thesis by (simp split: if_splits)
      next
        case Ready
        with H N_ReadinessEvt_Signal fm_readiness_Inr [of "nx_json X" ws env g r h1] g temp stat show ?thesis
          by (cases "flat_withdrawn (nx_json X) ws u") simp_all
      qed
      with N_ReadinessEvt_Signal show ?thesis by simp
    next
      case (N_BridgeConnectivityChanged_Signal b)
      with H g temp stat have "ok {#} h1" by (cases s; cases b) (auto simp: fm_connectivity_eq)
      with N_BridgeConnectivityChanged_Signal show ?thesis by simp
    qed
    then show "\<exists>C. ok C (if ?t = s then h1 else at_ready en ?t (at_ready ex s h1)) \<and> C + ?d = mset (event_clients carries u)"
    proof (elim exE conjE)
      fix C
      assume "ok C h1" and C: "C + ?d = mset (event_clients carries u)"
      then have "ok C (if ?t = s then h1 else at_ready en ?t (at_ready ex s h1))" using brd [of C h1 ?t s] by simp
      with C show ?thesis by blast
    qed
  qed (simp_all add: er)
  then show ?thesis by (fastforce simp: ok_def)
qed

lemma flat_started:
  assumes "kMaxNest < nx_loops X" "fm_start X ts (flat_handlers (nx_json X) ws en ex idle serve) h0 = Inr h" "\<not> ao_running h0"
    "ao_q h0 = []" "fm_out h0 = []"
  shows "hstate h = St NotReady \<and> ao_q h = [] \<and> ao_running h \<and> nm_answered answers (fm_out h) = [] \<and> nm_sent (fm_out h) = [] \<and>
    pending h = pending h0"
proof -
  let ?H = "flat_handlers (nx_json X) ws en ex idle serve" and ?h = "h0\<lparr>ao_inst := True\<rparr>"
  have "\<not> ao_running ?h" using assms(3) by simp
  from shell_start [OF assms(1) this, of NotReady] obtain g where g: "start_at (nx_loops X) ?H (St NotReady) ?h = Inr g"
    "hstate g = St NotReady" "ao_running g" "erase g = erase (?h\<lparr>trace_fn := True, probe_fn := True, hstate := Top_St, ao_running := True\<rparr>)"
    by (auto simp: assms)
  have q: "ao_q g = []" "fm_out g = []" "flat_manager.more g = flat_manager.more h0"
    using arg_cong [OF g(4), of ao_q] arg_cong [OF g(4), of fm_io] arg_cong [OF g(4), of flat_manager.more] assms(4,5)
    by (simp_all add: erase_def fm_out_def)
  have sub: "nm_answered answers (fm_out (fm_subscribe ts tok k)) = nm_answered answers (fm_out k) \<and>
      nm_sent (fm_out (fm_subscribe ts tok k)) = nm_sent (fm_out k) \<and> ao_q (fm_subscribe ts tok k) = ao_q k \<and>
      hstate (fm_subscribe ts tok k) = hstate k \<and> ao_running (fm_subscribe ts tok k) = ao_running k \<and>
      flat_manager.more (fm_subscribe ts tok k) = flat_manager.more k"
    for tok and k :: "(('j, 'o) net_event, ('j, 'n, 'k, 'a) om_effect, 'z) flat_manager_scheme"
  proof (induction ts arbitrary: k)
    case (Cons t ts)
    from Cons [of "fm_emit (Om_Subscribed (fst t) (snd t)) k"] show ?case
      by (simp add: fm_subscribe_def case_prod_unfold) (simp add: fm_emit_def fm_out_def nm_answered_def nm_sent_def)
  qed (simp add: fm_subscribe_def fm_emit_def fm_out_def nm_answered_def nm_sent_def)
  have h: "h = fm_subscribe ts (nx_token X) g" using assms(2,3) g(1) by (simp add: fm_start_def)
  have "pending h = pending h0" by (rule of_moreD [OF pending_more]) (simp add: h sub q)
  with h sub [of "nx_token X" g] g(2,3) q show ?thesis by (simp add: nm_answered_def nm_sent_def)
qed

text \<open>
  Every callback handed over was called, or waits exactly once: in the queue, with the bridge, in the
  state, or for good: when the callback of its request threw, or its signal was dropped.
\<close>

lemma flat_accounts:
  assumes "flat_run (flat_handlers (nx_json X) ws en ex idle serve) respond direct pending carries drops holds X G P L D h"
    "kMaxNest < nx_loops X"
  shows "(\<exists>s. hstate h = St s) \<and> G = mset (nm_answered answers (fm_out h)) + (\<Sum>k\<in>#P. mset (holds k)) + L + D +
    mset (nm_waiting carries (ao_q h)) + mset (pending h)"
  using assms
proof (induction rule: flat_run.induct)
  case (started ts h0 h)
  with flat_started [OF started.prems started(1-4)] show ?case by (auto simp: nm_waiting_def)
next
  case (post G P L D h u)
  have "pending (post_fifo u h) = pending h" by (rule of_moreD [OF pending_more]) simp
  with post show ?case by (auto simp: post_fifo_def fm_out_def nm_waiting_def)
next
  case (served G P L D h cs h')
  from direct_gives [OF served(2)] obtain xs where xs: "fm_out h' = fm_out h @ xs" "ao_q h' = ao_q h" "hstate h' = hstate h"
    "mset (nm_answered answers xs) + mset (pending h') = mset (pending h) + mset cs" by (auto simp: fm_gives_def)
  then have "mset (nm_answered answers (fm_out h')) + mset (pending h') = mset (nm_answered answers (fm_out h)) + mset (pending h) + mset cs"
    by (simp add: nm_answered_def ac_simps)
  with served(3) [OF served.prems] xs(2,3) show ?case by (auto simp: ac_simps)
next
  case (work G P L D h res h')
  from work obtain s where s: "hstate h = St s" by blast
  show ?case
  proof (cases "ao_q h")
    case Nil
    with work show ?thesis by (auto simp: run_step_def ao_pop_def nm_sent_def stale_def)
  next
    case (Cons u us)
    with work(2) have d: "dispatch (nx_loops X) (flat_handlers (nx_json X) ws en ex idle serve) (User u) (h\<lparr>ao_q := us\<rparr>) = Inr h'"
      by (auto simp: run_step_def ao_pop_def bindE_eq_Inr)
    have "hstate (h\<lparr>ao_q := us\<rparr>) = St s" using s by simp
    from dispatch_flat_clients [OF work.prems this d] obtain s' xs where h': "hstate h' = St s'" "fm_out h' = fm_out h @ xs" "ao_q h' = us"
      "net_clients answers holds xs + mset (pending h') + mset (stale drops h) = mset (pending (h\<lparr>ao_q := us\<rparr>)) + mset (event_clients carries u)"
      using s Cons by (auto simp: fm_out_def stale_def split: net_event.splits)
    have p: "pending (h\<lparr>ao_q := us\<rparr>) = pending h" by (rule of_moreD [OF pending_more]) simp
    have "(\<Sum>k\<in>#mset (nm_sent xs). mset (holds k)) = mset (concat (map holds (nm_sent xs)))"
      by (induction "nm_sent xs") (auto simp: mset_concat sum_mset_sum_list [symmetric] comp_def)
    then have "mset (nm_answered answers (fm_out h')) + (\<Sum>k\<in>#mset (nm_sent xs). mset (holds k)) + mset (pending h') + mset (stale drops h) =
        mset (nm_answered answers (fm_out h)) + mset (pending h) + mset (event_clients carries u)"
      using h'(2,4) p by (simp add: net_clients_def nm_answered_def ac_simps)
    with work(3) [OF work.prems] Cons h'(1-3) show ?thesis
      by (auto simp: nm_waiting_def ac_simps)
  qed
next
  case (reply G k P L D h rsp h')
  from respond_gives [OF reply(2)] obtain xs where xs: "fm_out h' = fm_out h @ xs" "ao_q h' = ao_q h" "hstate h' = hstate h"
    "mset (nm_answered answers xs) + mset (pending h') = mset (pending h) + mset (holds k)" by (auto simp: fm_gives_def)
  then have "mset (nm_answered answers (fm_out h')) + mset (pending h') = mset (nm_answered answers (fm_out h)) + mset (pending h) + mset (holds k)"
    by (simp add: nm_answered_def ac_simps)
  with reply(3) [OF reply.prems] xs(2,3) show ?case by (auto simp: ac_simps)
next
  case (threw G k P L D h rsp f)
  from threw(3) [OF threw.prems] show ?case by (auto simp: ac_simps)
next
  case (listeners G P L D h ls lv)
  have "pending (h\<lparr>fm_listeners := a, fm_live := b\<rparr>) = pending h" for a b by (rule of_moreD [OF pending_more]) simp
  with listeners show ?case by (auto simp: fm_out_def)
next
  case (time G P L D h i)
  have "pending (h\<lparr>fm_io := i\<rparr>) = pending h" by (rule of_moreD [OF pending_more]) simp
  with time show ?case by (auto simp: fm_out_def)
qed

end

context flat_chart
begin

text \<open>
  A part of the state that neither the shell nor the border actions touch changes only by the manager's
  own signals: after a run it is \<open>step\<close> folded over the events and the states they are handled in.
\<close>

lemma flat_dispatch_view:
  assumes "kMaxNest < n" "hstate h = St s" "dispatch_all n (flat_handlers J ws en ex idle serve) us h = Inr h'"
    and er: "\<And>h. view (erase h) = view h" and qu: "\<And>h q. view (h\<lparr>ao_q := q\<rparr>) = view h"
    and st: "\<And>h st. view (h\<lparr>fm_status := st\<rparr>) = view h" and brd: "\<And>h. view (en h) = view h" "\<And>h. view (ex h) = view h"
    and own: "\<And>e h r h'. idle e h = Inr (r, h') \<Longrightarrow> view h' = step NotReady e (view h)"
      "\<And>e h r h'. serve e h = Inr (r, h') \<Longrightarrow> view h' = step Ready e (view h)"
  shows "hstate h' = St (fold (track (net_up J) (flat_down J ws)) us s) \<and>
    view h' = snd (fold (\<lambda>u (s, v). (track (net_up J) (flat_down J ws) u s, case u of N_Signal e \<Rightarrow> step s e v | _ \<Rightarrow> v)) us (s, view h))"
proof
  let ?H = "flat_handlers J ws en ex idle serve" and ?tr = "track (net_up J) (flat_down J ws)"
  show "hstate h' = St (fold ?tr us s)" by (rule dispatch_track [OF assms(1-3)])
  have temp: "view (h\<lparr>htemp := x\<rparr>) = view h" for h x using er [of "h\<lparr>htemp := x\<rparr>"] er [of h] by (simp add: erase_def)
  have border: "view (at_ready en t (at_ready ex s h)) = view h" for s t h by (simp add: at_ready_def brd)
  have one: "view h1 = (case u of N_Signal e \<Rightarrow> step s e (view h) | _ \<Rightarrow> view h)" if H: "?H s (User u) h = Inr (r, h1)" for s u h r h1
  proof (cases u)
    case (N_ReadinessEvt_Signal env)
    with H show ?thesis using fm_available_Inr [of J env h r h1] fm_readiness_Inr [of J ws env h r h1]
      by (cases s) (auto simp: temp st split: if_splits option.splits)
  next
    case (N_BridgeConnectivityChanged_Signal b)
    with H show ?thesis by (cases s; cases b) (auto simp: fm_connectivity_eq temp st)
  next
    case (N_Signal e)
    with H own show ?thesis by (cases s) auto
  qed
  show "view h' = snd (fold (\<lambda>u (s, v). (?tr u s, case u of N_Signal e \<Rightarrow> step s e v | _ \<Rightarrow> v)) us (s, view h))"
  proof (rule dispatch_view [where step = "\<lambda>u s v. case u of N_Signal e \<Rightarrow> step s e v | _ \<Rightarrow> v", OF assms(1) er qu _ assms(2,3)])
    fix s u h r h1
    assume "?H s (User u) h = Inr (r, h1)"
    from one [OF this] show "view (if ?tr u s = s then h1 else at_ready en (?tr u s) (at_ready ex s h1)) =
      (case u of N_Signal e \<Rightarrow> step s e (view h) | _ \<Rightarrow> view h)" by (simp add: border)
  qed
qed

end

section \<open>Managers with an init gate\<close>

text \<open>The managers of \<open>component/data\<close>: init callbacks are kept in an \<open>InitCallbackGate\<close>.\<close>

record ('u, 'x) gate_manager = "('u, 'x) flat_manager" +
  gm_gate :: "nat init_gate"

text \<open>The constructor; \<open>z\<close> are the members that a manager adds.\<close>

definition gm_new :: "string \<Rightarrow> int \<Rightarrow> nat option \<Rightarrow> 'z \<Rightarrow> ('u, 'x, 'z) gate_manager_scheme" where
  "gm_new nm slot initCb z =
     \<lparr>hstate = Top_St, htemp = Top_St, last_ignored = False, trace_fn = False, probe_fn = False, instr_log = [],
      ao_name = nm, ao_inst = False, ao_q = [], ao_running = False,
      fm_status = SERVICE_UNAVAILABLE, fm_slotId = slot, fm_conn_token = 0, fm_listeners = [], fm_live = [],
      fm_io = \<lparr>io_counter = 0, io_now = 0, io_out = []\<rparr>, gm_gate = gate_new initCb, \<dots> = z\<rparr>"

definition gm_addInitCallback :: "nat option \<Rightarrow> ('u, 'x, 'z) gate_manager_scheme \<Rightarrow> ('u, 'x, 'z) gate_manager_scheme" where
  "gm_addInitCallback cb h = h\<lparr>gm_gate := gate_add cb (gm_gate h)\<rparr>"

definition gm_enterReady :: "('u, ('j, 'n flat_note, 'k, 'a) om_effect, 'z) gate_manager_scheme \<Rightarrow> ('u, ('j, 'n flat_note, 'k, 'a) om_effect, 'z) gate_manager_scheme" where
  "gm_enterReady h =
     (let h = fm_publishStatus SERVICE_AVAILABLE h in
      case markReadyAndFire SERVICE_AVAILABLE (gm_gate h) of
        (fired, g) \<Rightarrow> let h = h\<lparr>gm_gate := g\<rparr> in if fired then h else fm_tell SERVICE_AVAILABLE h)"

definition gm_exitReady :: "('u, ('j, 'n flat_note, 'k, 'a) om_effect, 'z) gate_manager_scheme \<Rightarrow> ('u, ('j, 'n flat_note, 'k, 'a) om_effect, 'z) gate_manager_scheme" where
  "gm_exitReady = fm_tell SERVICE_UNAVAILABLE"

definition gm_withdrawals :: "(string \<times> service_status) list" where
  "gm_withdrawals = [(''UNAVAILABLE'', SERVICE_UNAVAILABLE), (''FAILED'', SERVICE_FAILED)]"

text \<open>
  The contract: while not ready every own signal is handled or passed on without effect, so that the
  clients of requests are dropped; when ready, handlers and callbacks answer or send.
\<close>

locale gate_service =
  fixes X :: "'j net_ext"
    and idle serve :: "'o \<Rightarrow> (('j, 'o) net_event, ('j, 'n flat_note, 'k, 'a) om_effect, 'z) gate_manager_scheme \<Rightarrow>
      (status \<times> (('j, 'o) net_event, ('j, 'n flat_note, 'k, 'a) om_effect, 'z) gate_manager_scheme) result"
    and respond :: "'k \<Rightarrow> 'j envelope option \<Rightarrow> (('j, 'o) net_event, ('j, 'n flat_note, 'k, 'a) om_effect, 'z) gate_manager_scheme \<Rightarrow>
      (('j, 'o) net_event, ('j, 'n flat_note, 'k, 'a) om_effect, 'z) gate_manager_scheme result"
    and carries :: "'o \<Rightarrow> nat list" and holds :: "'k \<Rightarrow> nat list" and answers :: "'a \<Rightarrow> nat list"
  assumes idle_drops: "idle e h = Inr (r, h') \<Longrightarrow> r = HANDLED \<and> h' = h \<or> (r, h') = super_st Top_St h"
    and serve_does: "serve e h = Inr (r, h') \<Longrightarrow> r = HANDLED \<and> fm_serves answers holds (\<lambda>_. []) (carries e) h h'"
    and respond_does: "respond k rsp h = Inr h' \<Longrightarrow> fm_gives answers (\<lambda>_. []) (holds k) h h'"

sublocale gate_service \<subseteq> flat_service X gm_withdrawals gm_enterReady gm_exitReady idle serve respond "\<lambda>_ _ _. False" "\<lambda>_. []"
  carries carries holds answers
proof unfold_locales
  fix h h' :: "(('j, 'o) net_event, ('j, 'n flat_note, 'k, 'a) om_effect, 'z) gate_manager_scheme" and x e r k rsp
  have swap: "h\<lparr>htemp := x, fm_status := st, gm_gate := g\<rparr> = h\<lparr>fm_status := st, gm_gate := g, htemp := x\<rparr>" for st g by simp
  show "gm_enterReady (h\<lparr>htemp := x\<rparr>) = (gm_enterReady h)\<lparr>htemp := x\<rparr>"
    by (cases "markReadyAndFire SERVICE_AVAILABLE (gm_gate h)") (simp add: gm_enterReady_def fm_publishStatus_def Let_def, simp only: swap fm_temp, simp)
  show "gm_exitReady (h\<lparr>htemp := x\<rparr>) = (gm_exitReady h)\<lparr>htemp := x\<rparr>" by (simp add: gm_exitReady_def)
  show gives: "fm_gives answers (\<lambda>_. []) [] h (gm_enterReady h)" "fm_gives answers (\<lambda>_. []) [] h (gm_exitReady h)"
  proof -
    obtain b g where mg: "markReadyAndFire SERVICE_AVAILABLE (gm_gate h) = (b, g)" by fastforce
    let ?h = "h\<lparr>fm_status := SERVICE_AVAILABLE, gm_gate := g\<rparr>"
    have "fm_gives answers (\<lambda>_. []) [] h ?h"
      by (auto simp: fm_gives_def fm_out_def nm_sent_def nm_answered_def intro!: exI [of _ "[]"])
    from fm_gives_trans [OF this fm_gives_tell [of _ answers ?h SERVICE_AVAILABLE]] this
    show "fm_gives answers (\<lambda>_. []) [] h (gm_enterReady h)" by (simp add: gm_enterReady_def fm_publishStatus_def mg Let_def)
  qed (simp add: gm_exitReady_def fm_gives_tell)
  show "posts_only h (gm_enterReady h)" "posts_only h (gm_exitReady h)" using gives by (auto simp: fm_gives_def posts_only_def)
  show "idle e h = Inr (r, h') \<Longrightarrow> stays h r h'" using idle_drops [of e h r h'] by (auto simp: stays_def super_st_def)
  show "serve e h = Inr (r, h') \<Longrightarrow> stays h r h'" using serve_does [of e h r h'] by (auto simp: fm_serves_def stays_def posts_only_def)
  show "idle e h = Inr (r, h') \<Longrightarrow> \<exists>cs. mset (carries e) = mset cs + mset (carries e) \<and> fm_gives answers (\<lambda>_. []) cs h h'"
    using idle_drops [of e h r h'] by (auto simp: super_st_def fm_gives_none fm_gives_temp intro!: exI [of _ "[]"])
  show "serve e h = Inr (r, h') \<Longrightarrow> fm_serves answers holds (\<lambda>_. []) (carries e) h h'" using serve_does [of e h r h'] by blast
  show "respond k rsp h = Inr h' \<Longrightarrow> fm_gives answers (\<lambda>_. []) (holds k) h h'" by (rule respond_does)
qed simp_all

section \<open>Examples of runs\<close>

text \<open>A signal that waits and is handled.\<close>

definition flat_work :: "(rstate \<Rightarrow> (jtree, 'o) net_event event \<Rightarrow> ((jtree, 'o) net_event, 'x, 'z) flat_manager_scheme \<Rightarrow>
      (status \<times> ((jtree, 'o) net_event, 'x, 'z) flat_manager_scheme) result) \<Rightarrow>
    ((jtree, 'o) net_event, 'x, 'z) flat_manager_scheme \<Rightarrow> ((jtree, 'o) net_event, 'x, 'z) flat_manager_scheme" where
  "flat_work H h = snd (projr (run_step 9 H h))"

lemma flat_work_run:
  assumes "flat_run H respond direct pending carries drops holds demo_nx G P L D h" "map_sum id fst (run_step 9 H h) = Inr res"
    "nm_sent (drop (length (fm_out h)) (fm_out (flat_work H h))) = ks" "stale drops h = ds"
  shows "flat_run H respond direct pending carries drops holds demo_nx G (P + mset ks) L (D + mset ds) (flat_work H h)"
  using flat_run.work [OF assms(1), of res "flat_work H h"] Inr_fst [OF assms(2)] assms(3,4) by (simp add: flat_work_def demo_nx_loops(2))

end
