(* ===== verification/Data_Profiles.thy ===== *)
theory Data_Profiles
  imports Flat_Shell Data_Connection
begin

text \<open>
  \<open>SimulaDataProfileManager\<close> of \<open>component/data/DataProfileManager.cpp\<close>: the profiles that the modem
  stores are listed, queried, created, modified and deleted over the bridge.
\<close>

section \<open>Data\<close>

datatype auth_type = AUTH_NONE | AUTH_PAP | AUTH_CHAP | AUTH_PAP_CHAP

datatype emergency = EM_UNSPECIFIED | EM_ALLOWED | EM_NOT_ALLOWED

record profile_params =
  pp_profileName :: string
  pp_apn :: string
  pp_userName :: string
  pp_password :: string
  pp_techPref :: tech_preference
  pp_authType :: auth_type
  pp_ipFamilyType :: ip_family
  pp_apnTypes :: "16 word"
  pp_emergencyAllowed :: emergency
  pp_clatEnabled :: bool

record data_profile =
  dp_id :: int
  dp_name :: string
  dp_apn :: string
  dp_username :: string
  dp_password :: string
  dp_ipFamilyType :: ip_family
  dp_techPref :: tech_preference
  dp_authType :: auth_type
  dp_apnTypes :: "16 word"
  dp_emergencyAllowed :: emergency
  dp_clatEnabled :: bool

datatype profile_change = CREATE_PROFILE_EVENT | DELETE_PROFILE_EVENT | MODIFY_PROFILE_EVENT

datatype 'j profile_signal =
    QueryProfile_Signal profile_params "nat option"
  | RequestProfile_Signal "8 word" tech_preference "nat option"
  | RequestProfileList_Signal "nat option"
  | CreateProfile_Signal profile_params "nat option"
  | ModifyProfile_Signal "8 word" profile_params "nat option"
  | DeleteProfile_Signal "8 word" tech_preference "nat option"
  | ProfileChangedEvt_Signal "'j envelope"

datatype profile_cont = K_Profile_List "nat option" | K_Profile_Id "nat option" | K_Profile_Command "nat option" | K_Profile_One "nat option"

datatype profile_answer =
    Profile_List nat "data_profile list" error_code
  | Profile_Id nat int error_code
  | Profile_Command nat error_code
  | Profile_One nat "data_profile option" error_code

datatype profile_note = On_Profile_Update int tech_preference profile_change

type_synonym 'j profile_manager =
  "(('j, 'j profile_signal) net_event, ('j, profile_note flat_note, profile_cont, profile_answer) om_effect) gate_manager"

section \<open>The wire\<close>

fun authTypeToWire :: "auth_type \<Rightarrow> string" where
  "authTypeToWire AUTH_NONE = ''AUTH_NONE''"
| "authTypeToWire AUTH_PAP = ''AUTH_PAP''"
| "authTypeToWire AUTH_CHAP = ''AUTH_CHAP''"
| "authTypeToWire AUTH_PAP_CHAP = ''AUTH_PAP_CHAP''"

definition wireToAuthType :: "string \<Rightarrow> auth_type" where
  "wireToAuthType s =
     (if s = ''AUTH_PAP'' then AUTH_PAP
      else if s = ''AUTH_CHAP'' then AUTH_CHAP
      else if s = ''AUTH_PAP_CHAP'' then AUTH_PAP_CHAP
      else AUTH_NONE)"

fun profile_ipFamilyToWire :: "ip_family \<Rightarrow> string" where
  "profile_ipFamilyToWire IPF_IPV4 = ''IPV4''"
| "profile_ipFamilyToWire IPF_IPV6 = ''IPV6''"
| "profile_ipFamilyToWire IPF_IPV4V6 = ''IPV4V6''"
| "profile_ipFamilyToWire _ = ''UNKNOWN''"

definition wireToIpFamily :: "string \<Rightarrow> ip_family" where
  "wireToIpFamily s =
     (if s = ''IPV4'' then IPF_IPV4
      else if s = ''IPV6'' then IPF_IPV6
      else if s = ''IPV4V6'' then IPF_IPV4V6
      else IPF_UNKNOWN)"

fun techPrefToWire :: "tech_preference \<Rightarrow> string" where
  "techPrefToWire TP_3GPP = ''TP_3GPP''"
| "techPrefToWire TP_3GPP2 = ''TP_3GPP2''"
| "techPrefToWire TP_ANY = ''TP_ANY''"
| "techPrefToWire _ = ''UNKNOWN''"

definition wireToTechPref :: "string \<Rightarrow> tech_preference" where
  "wireToTechPref s =
     (if s = ''TP_3GPP'' then TP_3GPP
      else if s = ''TP_3GPP2'' then TP_3GPP2
      else if s = ''TP_ANY'' then TP_ANY
      else TP_UNKNOWN)"

fun emergencyToWire :: "emergency \<Rightarrow> string" where
  "emergencyToWire EM_ALLOWED = ''ALLOWED''"
| "emergencyToWire EM_NOT_ALLOWED = ''NOT_ALLOWED''"
| "emergencyToWire _ = ''UNSPECIFIED''"

definition wireToEmergency :: "string \<Rightarrow> emergency" where
  "wireToEmergency s =
     (if s = ''ALLOWED'' then EM_ALLOWED
      else if s = ''NOT_ALLOWED'' then EM_NOT_ALLOWED
      else EM_UNSPECIFIED)"

definition profileParamsToWire :: "'j json_lib \<Rightarrow> profile_params \<Rightarrow> (string \<times> 'j) list" where
  "profileParamsToWire J p =
     [(''profileName'', j_of_string J (pp_profileName p)),
      (''apn'', j_of_string J (pp_apn p)),
      (''userName'', j_of_string J (pp_userName p)),
      (''password'', j_of_string J (pp_password p)),
      (''techPref'', j_of_string J (techPrefToWire (pp_techPref p))),
      (''authType'', j_of_string J (authTypeToWire (pp_authType p))),
      (''ipFamilyType'', j_of_string J (profile_ipFamilyToWire (pp_ipFamilyType p))),
      (''apnTypes'', j_of_int J (uint (pp_apnTypes p))),
      (''emergencyAllowed'', j_of_string J (emergencyToWire (pp_emergencyAllowed p))),
      (''clatEnabled'', j_of_bool J (pp_clatEnabled p))]"

text \<open>\<open>ApnTypes(value("apnTypes", 0ul))\<close>: the lowest 16 bits.\<close>

definition value_apn_types :: "'j json_lib \<Rightarrow> 'j \<Rightarrow> 16 word result" where
  "value_apn_types J j = value_as (\<lambda>v. map_option word_of_int (j_number J v)) J j ''apnTypes'' 0"

definition wireToDataProfile :: "'j json_lib \<Rightarrow> 'j \<Rightarrow> data_profile result" where
  "wireToDataProfile J j =
     bindE (value_int_or PROFILE_ID_INVALID J j ''id'') (\<lambda>i.
     bindE (value_string J j ''profileName'') (\<lambda>nm.
     bindE (value_string J j ''apn'') (\<lambda>apn.
     bindE (value_string J j ''userName'') (\<lambda>usr.
     bindE (value_string J j ''password'') (\<lambda>pw.
     bindE (value_string J j ''ipFamilyType'') (\<lambda>ipf.
     bindE (value_string J j ''techPref'') (\<lambda>tp.
     bindE (value_string J j ''authType'') (\<lambda>au.
     bindE (value_apn_types J j) (\<lambda>at.
     bindE (value_string J j ''emergencyAllowed'') (\<lambda>em.
     bindE (value_bool J j ''clatEnabled'') (\<lambda>cl.
       Inr \<lparr>dp_id = i, dp_name = nm, dp_apn = apn, dp_username = usr, dp_password = pw, dp_ipFamilyType = wireToIpFamily ipf,
            dp_techPref = wireToTechPref tp, dp_authType = wireToAuthType au, dp_apnTypes = at,
            dp_emergencyAllowed = wireToEmergency em, dp_clatEnabled = cl\<rparr>)))))))))))"

definition wireToDataProfileList :: "'j json_lib \<Rightarrow> 'j \<Rightarrow> data_profile list result" where
  "wireToDataProfileList J d =
     (case j_find J d ''profiles'' of
        None \<Rightarrow> Inr []
      | Some v \<Rightarrow> (case j_array J v of None \<Rightarrow> Inr [] | Some js \<Rightarrow> map_result (wireToDataProfile J) js))"

text \<open>The filter of a query: members that are not set are left out.\<close>

definition profile_filter :: "'j json_lib \<Rightarrow> profile_params \<Rightarrow> (string \<times> 'j) list" where
  "profile_filter J p =
     only_if (pp_profileName p \<noteq> []) ''profileName'' (j_of_string J (pp_profileName p)) @
     only_if (pp_apn p \<noteq> []) ''apn'' (j_of_string J (pp_apn p)) @
     only_if (pp_techPref p \<noteq> TP_UNKNOWN) ''techPref'' (j_of_string J (techPrefToWire (pp_techPref p))) @
     only_if (pp_ipFamilyType p \<noteq> IPF_UNKNOWN) ''ipFamilyType'' (j_of_string J (profile_ipFamilyToWire (pp_ipFamilyType p)))"

section \<open>State handlers\<close>

fun profile_idle :: "'j profile_signal \<Rightarrow> 'j profile_manager \<Rightarrow> (status \<times> 'j profile_manager) result" where
  "profile_idle (ProfileChangedEvt_Signal env) h = Inr (super_st Top_St h)"
| "profile_idle _ h = Inr (HANDLED, h)"

definition profile_changedEvt :: "'j json_lib \<Rightarrow> 'j envelope \<Rightarrow> 'j profile_manager \<Rightarrow> 'j profile_manager result" where
  "profile_changedEvt J env h =
     (case env_data env of
        None \<Rightarrow> Inr h
      | Some d \<Rightarrow>
          bindE (value_int_or (-1) J d ''profileId'') (\<lambda>i.
          bindE (value_string J d ''techPref'') (\<lambda>tp.
          bindE (value_string J d ''event'') (\<lambda>ev.
            Inr (fm_broadcastToListeners
              (Note (On_Profile_Update i (wireToTechPref tp)
                (if ev = ''CREATE'' then CREATE_PROFILE_EVENT else if ev = ''DELETE'' then DELETE_PROFILE_EVENT else MODIFY_PROFILE_EVENT))) h)))))"

definition slot_member :: "'j json_lib \<Rightarrow> ('u, 'x, 'z) flat_manager_scheme \<Rightarrow> (string \<times> 'j) list" where
  "slot_member J h = [(''slot'', j_of_int J (fm_slotId h))]"

definition profile_key :: "'j json_lib \<Rightarrow> 8 word \<Rightarrow> tech_preference \<Rightarrow> (string \<times> 'j) list" where
  "profile_key J i tp = [(''profileId'', j_of_int J (uint i)), (''techPref'', j_of_string J (techPrefToWire tp))]"

fun profile_serve :: "'j net_ext \<Rightarrow> 'j profile_signal \<Rightarrow> 'j profile_manager \<Rightarrow> (status \<times> 'j profile_manager) result" where
  "profile_serve X (ProfileChangedEvt_Signal env) h = bindE (profile_changedEvt (nx_json X) env h) (\<lambda>h. Inr (HANDLED, h))"
| "profile_serve X (RequestProfileList_Signal cb) h =
     Inr (HANDLED, fm_request X ''data.request_profile_list.req'' ''data.request_profile_list.rsp'' [] (K_Profile_List cb) h)"
| "profile_serve X (CreateProfile_Signal p cb) h =
     Inr (HANDLED, fm_request X ''data.create_profile.req'' ''data.create_profile.rsp''
       (profileParamsToWire (nx_json X) p @ slot_member (nx_json X) h) (K_Profile_Id cb) h)"
| "profile_serve X (DeleteProfile_Signal i tp cb) h =
     Inr (HANDLED, fm_request X ''data.delete_profile.req'' ''data.delete_profile.rsp''
       (profile_key (nx_json X) i tp @ slot_member (nx_json X) h) (K_Profile_Command cb) h)"
| "profile_serve X (ModifyProfile_Signal i p cb) h =
     Inr (HANDLED, fm_request X ''data.modify_profile.req'' ''data.modify_profile.rsp''
       (profileParamsToWire (nx_json X) p @ (''profileId'', j_of_int (nx_json X) (uint i)) # slot_member (nx_json X) h) (K_Profile_Command cb) h)"
| "profile_serve X (QueryProfile_Signal p cb) h =
     Inr (HANDLED, fm_request X ''data.query_profile.req'' ''data.query_profile.rsp'' (profile_filter (nx_json X) p) (K_Profile_List cb) h)"
| "profile_serve X (RequestProfile_Signal i tp cb) h =
     Inr (HANDLED, fm_request X ''data.query_profile.req'' ''data.query_profile.rsp'' (profile_key (nx_json X) i tp) (K_Profile_One cb) h)"

definition ProfileNotReady_St :: "'j net_ext \<Rightarrow> ('j, 'j profile_signal) net_event event \<Rightarrow> 'j profile_manager
    \<Rightarrow> (status \<times> 'j profile_manager) result" where
  "ProfileNotReady_St X = flat_NotReady_St (nx_json X) profile_idle"

definition ProfileReady_St :: "'j net_ext \<Rightarrow> ('j, 'j profile_signal) net_event event \<Rightarrow> 'j profile_manager
    \<Rightarrow> (status \<times> 'j profile_manager) result" where
  "ProfileReady_St X = flat_Ready_St (nx_json X) gm_withdrawals gm_enterReady gm_exitReady (profile_serve X)"

fun profile_handlers :: "'j net_ext \<Rightarrow> rstate \<Rightarrow> ('j, 'j profile_signal) net_event event \<Rightarrow> 'j profile_manager
    \<Rightarrow> (status \<times> 'j profile_manager) result" where
  "profile_handlers X NotReady = ProfileNotReady_St X"
| "profile_handlers X Ready = ProfileReady_St X"

text \<open>The callbacks of the requests.\<close>

fun profile_response :: "'j net_ext \<Rightarrow> profile_cont \<Rightarrow> 'j envelope option \<Rightarrow> 'j profile_manager \<Rightarrow> 'j profile_manager result" where
  "profile_response X (K_Profile_List cb) rsp h = fm_completeQuery (wireToDataProfileList (nx_json X)) Profile_List [] cb rsp h"
| "profile_response X (K_Profile_Id cb) rsp h =
     fm_completeQuery (\<lambda>d. value_int_or PROFILE_ID_INVALID (nx_json X) d ''profileId'') Profile_Id PROFILE_ID_INVALID cb rsp h"
| "profile_response X (K_Profile_Command cb) rsp h = Inr (fm_complete Profile_Command cb rsp h)"
| "profile_response X (K_Profile_One cb) rsp h =
     fm_completeQuery (\<lambda>d. bindE (wireToDataProfileList (nx_json X) d) (\<lambda>ps. Inr (if ps = [] then None else Some (hd ps))))
       Profile_One None cb rsp h"

section \<open>The manager\<close>

definition profile_new :: "int \<Rightarrow> nat option \<Rightarrow> 'j profile_manager" where
  "profile_new slot initCb = gm_new ''DataProfileManager'' slot initCb ()"

definition profile_topics :: "'j net_ext \<Rightarrow> (string \<times> string) list" where
  "profile_topics X = named_topics X [''data.subsys_ready_profile.ind'', ''data.profile_changed.ind'']"

definition profile_start :: "'j net_ext \<Rightarrow> 'j profile_manager \<Rightarrow> 'j profile_manager result" where
  "profile_start X = fm_start X (profile_topics X) (profile_handlers X)"

definition profile_unsubscribeFromBridge :: "'j net_ext \<Rightarrow> 'j profile_manager \<Rightarrow> 'j profile_manager" where
  "profile_unsubscribeFromBridge X = fm_unsubscribe (map fst (profile_topics X))"

definition profile_destroy :: "nat \<Rightarrow> 'j net_ext \<Rightarrow> 'j profile_manager \<Rightarrow> 'j profile_manager result" where
  "profile_destroy k X h = stop k (nx_loops X) (profile_handlers X) False (profile_unsubscribeFromBridge X h)"

definition profile_handleReadinessInd :: "'j envelope \<Rightarrow> 'j profile_manager \<Rightarrow> 'j profile_manager" where
  "profile_handleReadinessInd env = post_fifo (N_ReadinessEvt_Signal env)"

definition handleProfileChangedInd :: "'j envelope \<Rightarrow> 'j profile_manager \<Rightarrow> 'j profile_manager" where
  "handleProfileChangedInd env = post_fifo (N_Signal (ProfileChangedEvt_Signal env))"

definition requestProfileList :: "nat option \<Rightarrow> 'j profile_manager \<Rightarrow> api_status \<times> 'j profile_manager" where
  "requestProfileList cb = fm_post (N_Signal (RequestProfileList_Signal cb))"

definition createProfile :: "profile_params \<Rightarrow> nat option \<Rightarrow> 'j profile_manager \<Rightarrow> api_status \<times> 'j profile_manager" where
  "createProfile p cb = fm_post (N_Signal (CreateProfile_Signal p cb))"

definition deleteProfile :: "8 word \<Rightarrow> tech_preference \<Rightarrow> nat option \<Rightarrow> 'j profile_manager \<Rightarrow> api_status \<times> 'j profile_manager" where
  "deleteProfile i tp cb = fm_post (N_Signal (DeleteProfile_Signal i tp cb))"

definition modifyProfile :: "8 word \<Rightarrow> profile_params \<Rightarrow> nat option \<Rightarrow> 'j profile_manager \<Rightarrow> api_status \<times> 'j profile_manager" where
  "modifyProfile i p cb = fm_post (N_Signal (ModifyProfile_Signal i p cb))"

definition queryProfile :: "profile_params \<Rightarrow> nat option \<Rightarrow> 'j profile_manager \<Rightarrow> api_status \<times> 'j profile_manager" where
  "queryProfile p cb = fm_post (N_Signal (QueryProfile_Signal p cb))"

definition requestProfile :: "8 word \<Rightarrow> tech_preference \<Rightarrow> nat option \<Rightarrow> 'j profile_manager \<Rightarrow> api_status \<times> 'j profile_manager" where
  "requestProfile i tp cb = fm_post (N_Signal (RequestProfile_Signal i tp cb))"

definition profile_isSubsystemReady :: "'j profile_manager \<Rightarrow> bool" where
  "profile_isSubsystemReady h = fm_isReadyDerived h"

definition profile_getSlotId :: "'j profile_manager \<Rightarrow> int" where
  "profile_getSlotId h = fm_slotId h"

section \<open>What holds\<close>

fun profile_carries :: "'j profile_signal \<Rightarrow> nat list" where
  "profile_carries (QueryProfile_Signal p cb) = opt_list cb"
| "profile_carries (RequestProfile_Signal i tp cb) = opt_list cb"
| "profile_carries (RequestProfileList_Signal cb) = opt_list cb"
| "profile_carries (CreateProfile_Signal p cb) = opt_list cb"
| "profile_carries (ModifyProfile_Signal i p cb) = opt_list cb"
| "profile_carries (DeleteProfile_Signal i tp cb) = opt_list cb"
| "profile_carries (ProfileChangedEvt_Signal env) = []"

fun profile_holds :: "profile_cont \<Rightarrow> nat list" where
  "profile_holds (K_Profile_List cb) = opt_list cb"
| "profile_holds (K_Profile_Id cb) = opt_list cb"
| "profile_holds (K_Profile_Command cb) = opt_list cb"
| "profile_holds (K_Profile_One cb) = opt_list cb"

fun profile_answers :: "profile_answer \<Rightarrow> nat list" where
  "profile_answers (Profile_List c ps er) = [c]"
| "profile_answers (Profile_Id c i er) = [c]"
| "profile_answers (Profile_Command c er) = [c]"
| "profile_answers (Profile_One c p er) = [c]"

lemma profile_handlers_flat:
  "profile_handlers X = flat_handlers (nx_json X) gm_withdrawals gm_enterReady gm_exitReady profile_idle (profile_serve X)"
proof
  fix s
  show "profile_handlers X s = flat_handlers (nx_json X) gm_withdrawals gm_enterReady gm_exitReady profile_idle (profile_serve X) s"
    by (cases s) (simp_all add: ProfileNotReady_St_def ProfileReady_St_def)
qed

interpretation profiles: gate_service X profile_idle "profile_serve X" "profile_response X" profile_carries profile_holds profile_answers
  for X :: "'j net_ext"
proof unfold_locales
  fix e k rsp r and h h' :: "'j profile_manager"
  show "profile_idle e h = Inr (r, h') \<Longrightarrow> r = HANDLED \<and> h' = h \<or> (r, h') = super_st Top_St h" by (cases e) auto
  show "profile_serve X e h = Inr (r, h') \<Longrightarrow> r = HANDLED \<and> fm_serves profile_answers profile_holds (\<lambda>_. []) (profile_carries e) h h'"
    by (cases e) (auto simp: profile_changedEvt_def bindE_eq_Inr fm_serves_simps fm_serves_request split: option.splits)
  show "profile_response X k rsp h = Inr h' \<Longrightarrow> fm_gives profile_answers (\<lambda>_. []) (profile_holds k) h h'"
    by (cases k) (auto intro: fm_gives_query fm_gives_complete)
qed

lemma profile_names [simp]:
  shows "wireToAuthType (authTypeToWire a) = a" and "wireToIpFamily (profile_ipFamilyToWire f) = f"
    and "wireToTechPref (techPrefToWire t) = t" and "wireToEmergency (emergencyToWire m) = m"
proof -
  show "wireToAuthType (authTypeToWire a) = a" by (cases a) (simp_all add: wireToAuthType_def)
  show "wireToIpFamily (profile_ipFamilyToWire f) = f" by (cases f) (simp_all add: wireToIpFamily_def)
  show "wireToTechPref (techPrefToWire t) = t" by (cases t) (simp_all add: wireToTechPref_def)
  show "wireToEmergency (emergencyToWire m) = m" by (cases m) (simp_all add: wireToEmergency_def)
qed

text \<open>The profile that parameters describe.\<close>

definition profile_of :: "int \<Rightarrow> profile_params \<Rightarrow> data_profile" where
  "profile_of i p =
     \<lparr>dp_id = i, dp_name = pp_profileName p, dp_apn = pp_apn p, dp_username = pp_userName p, dp_password = pp_password p,
      dp_ipFamilyType = pp_ipFamilyType p, dp_techPref = pp_techPref p, dp_authType = pp_authType p, dp_apnTypes = pp_apnTypes p,
      dp_emergencyAllowed = pp_emergencyAllowed p, dp_clatEnabled = pp_clatEnabled p\<rparr>"

lemma profile_written:
  assumes "json_ok J" "in_int i"
  shows "wireToDataProfile J (j_members J (profileParamsToWire J p @ [(''id'', j_of_int J i)])) = Inr (profile_of i p)"
  using assms by (simp add: wireToDataProfile_def profileParamsToWire_def value_apn_types_def profile_of_def written)

text \<open>The data of a response that lists profiles, in the form in which they were sent.\<close>

definition profile_list_data :: "'j json_lib \<Rightarrow> (int \<times> profile_params) list \<Rightarrow> 'j" where
  "profile_list_data J ps =
     j_members J [(''profiles'', j_of_list J (map (\<lambda>(i, p). j_members J (profileParamsToWire J p @ [(''id'', j_of_int J i)])) ps))]"

lemma profile_list_written:
  assumes "json_ok J" "\<forall>(i, p)\<in>set ps. in_int i"
  shows "wireToDataProfileList J (profile_list_data J ps) = Inr (map (\<lambda>(i, p). profile_of i p) ps)"
proof -
  have "map_result (wireToDataProfile J) (map (\<lambda>(i, p). j_members J (profileParamsToWire J p @ [(''id'', j_of_int J i)])) ps) =
      Inr (map (\<lambda>(i, p). profile_of i p) ps)"
    using assms(2) by (induction ps) (auto simp: profile_written [OF assms(1)])
  with assms(1) show ?thesis by (simp add: wireToDataProfileList_def profile_list_data_def written)
qed

text \<open>The filter of a query as the modem reads it: an absent member does not constrain.\<close>

lemma profile_filter_read:
  assumes "json_ok J"
  shows "value_string J (j_members J (profile_filter J p)) ''profileName'' = Inr (pp_profileName p)"
    "value_string J (j_members J (profile_filter J p)) ''apn'' = Inr (pp_apn p)"
    "map_sum id wireToTechPref (value_string J (j_members J (profile_filter J p)) ''techPref'') = Inr (pp_techPref p)"
    "map_sum id wireToIpFamily (value_string J (j_members J (profile_filter J p)) ''ipFamilyType'') = Inr (pp_ipFamilyType p)"
    "k \<notin> {''profileName'', ''apn'', ''techPref'', ''ipFamilyType''} \<Longrightarrow> j_find J (j_members J (profile_filter J p)) k = None"
  using assms by (auto simp: profile_filter_def written wireToTechPref_def [of "[]"] wireToIpFamily_def [of "[]"])

text \<open>The members that the filter has.\<close>

lemma profile_filter_members:
  assumes "json_ok J"
  shows "{k. j_find J (j_members J (profile_filter J q)) k \<noteq> None} =
      (if pp_profileName q \<noteq> [] then {''profileName''} else {}) \<union> (if pp_apn q \<noteq> [] then {''apn''} else {}) \<union>
      (if pp_techPref q \<noteq> TP_UNKNOWN then {''techPref''} else {}) \<union> (if pp_ipFamilyType q \<noteq> IPF_UNKNOWN then {''ipFamilyType''} else {})"
proof -
  have "{k. j_find J (j_members J ms) k \<noteq> None} = fst ` set ms" for ms
    using assms by (auto simp: written map_of_eq_None_iff image_iff)
  then show ?thesis by (auto simp: profile_filter_def only_if_def)
qed

section \<open>Properties\<close>

text \<open>C33: profiles survive the wire in both directions. A response that lists profiles in the form in which
  they were created is handed to the client's callback complete and in order, each with its identifier and
  every parameter, the APN mask at its 16 bits; a request for one profile gets the first of them, and none
  when there is none. The filter of a query has a member for the profile name and for the APN exactly when
  the client gave one that is not empty, and for the technology and the IP family exactly when the client
  asked for one other than unknown, with the value the client gave; it has no other member.\<close>

theorem profiles_roundtrip:
  assumes "json_ok (nx_json X)" "\<forall>(i, p)\<in>set ps. in_int i" "good_data (Some env) = Some (profile_list_data (nx_json X) ps)"
  shows "profile_response X (K_Profile_List (Some c)) (Some env) h =
      Inr (fm_emit (Om_Answered (Profile_List c (map (\<lambda>(i, p). profile_of i p) ps) EC_SUCCESS)) h) \<and>
    profile_response X (K_Profile_One (Some c)) (Some env) h =
      Inr (fm_emit (Om_Answered (Profile_One c (if ps = [] then None else Some (case hd ps of (i, p) \<Rightarrow> profile_of i p)) EC_SUCCESS)) h) \<and>
    value_string (nx_json X) (j_members (nx_json X) (profile_filter (nx_json X) q)) ''apn'' = Inr (pp_apn q) \<and>
    value_string (nx_json X) (j_members (nx_json X) (profile_filter (nx_json X) q)) ''profileName'' = Inr (pp_profileName q) \<and>
    map_sum id wireToTechPref (value_string (nx_json X) (j_members (nx_json X) (profile_filter (nx_json X) q)) ''techPref'') = Inr (pp_techPref q) \<and>
    map_sum id wireToIpFamily (value_string (nx_json X) (j_members (nx_json X) (profile_filter (nx_json X) q)) ''ipFamilyType'') =
      Inr (pp_ipFamilyType q) \<and>
    {k. j_find (nx_json X) (j_members (nx_json X) (profile_filter (nx_json X) q)) k \<noteq> None} =
      (if pp_profileName q \<noteq> [] then {''profileName''} else {}) \<union> (if pp_apn q \<noteq> [] then {''apn''} else {}) \<union>
      (if pp_techPref q \<noteq> TP_UNKNOWN then {''techPref''} else {}) \<union> (if pp_ipFamilyType q \<noteq> IPF_UNKNOWN then {''ipFamilyType''} else {})"
proof (intro conjI)
  note read = profile_list_written [OF assms(1,2)]
  show "profile_response X (K_Profile_List (Some c)) (Some env) h =
      Inr (fm_emit (Om_Answered (Profile_List c (map (\<lambda>(i, p). profile_of i p) ps) EC_SUCCESS)) h)"
    by (simp add: fm_completeQuery_def assms(3) read)
  show "profile_response X (K_Profile_One (Some c)) (Some env) h =
      Inr (fm_emit (Om_Answered (Profile_One c (if ps = [] then None else Some (case hd ps of (i, p) \<Rightarrow> profile_of i p)) EC_SUCCESS)) h)"
    by (simp add: fm_completeQuery_def assms(3) read hd_map)
  show "{k. j_find (nx_json X) (j_members (nx_json X) (profile_filter (nx_json X) q)) k \<noteq> None} =
      (if pp_profileName q \<noteq> [] then {''profileName''} else {}) \<union> (if pp_apn q \<noteq> [] then {''apn''} else {}) \<union>
      (if pp_techPref q \<noteq> TP_UNKNOWN then {''techPref''} else {}) \<union> (if pp_ipFamilyType q \<noteq> IPF_UNKNOWN then {''ipFamilyType''} else {})"
    by (rule profile_filter_members [OF assms(1)])
qed (rule profile_filter_read [OF assms(1)])+

definition demo_profile :: profile_params where
  "demo_profile = \<lparr>pp_profileName = ''internet'', pp_apn = ''apn.example'', pp_userName = [], pp_password = [], pp_techPref = TP_3GPP,
     pp_authType = AUTH_PAP_CHAP, pp_ipFamilyType = IPF_IPV4V6, pp_apnTypes = 0x8011, pp_emergencyAllowed = EM_NOT_ALLOWED, pp_clatEnabled = True\<rparr>"

definition demo_profiles_env :: "jtree envelope" where
  "demo_profiles_env = fst (makeEventEnvelope 7 ''mpss'' (profile_list_data tree_lib [(3, demo_profile)]) 42)"

theorem profiles_roundtrip_witness:
  "profile_response demo_nx (K_Profile_One (Some 7)) (Some demo_profiles_env) (profile_new 1 None) =
     Inr (fm_emit (Om_Answered (Profile_One 7 (Some (profile_of 3 demo_profile)) EC_SUCCESS)) (profile_new 1 None))"
proof -
  have "good_data (Some demo_profiles_env) = Some (profile_list_data (nx_json demo_nx) [(3, demo_profile)])"
    by (simp add: demo_profiles_env_def makeEventEnvelope_def good_data_def has_error_def case_prod_unfold Let_def demo_nx_def)
  from profiles_roundtrip [OF _ _ this, of 7 "profile_new 1 None" demo_profile] show ?thesis
    by (simp add: demo_nx_def tree_lib_ok in_int_def)
qed

text \<open>C31: every client of the profile manager is accounted for. In every run, the callbacks that were handed
  over are those that were called, those of operations still queued, those of requests that the bridge
  holds, those whose response made the callback throw, and those (\<open>D\<close>) whose operation reached the worker
  when the manager was no longer ready, with multiplicity.\<close>

theorem profile_clients_accounted:
  assumes "flat_run (profile_handlers X) (profile_response X) (\<lambda>_ _ _. False) (\<lambda>_. []) profile_carries profile_carries profile_holds X G P L D h"
    "kMaxNest < nx_loops X"
  shows "G = mset (nm_answered profile_answers (fm_out h)) + (\<Sum>k\<in>#P. mset (profile_holds k)) + L + D +
    mset (nm_waiting profile_carries (ao_q h))"
  using profiles.flat_accounts [OF assms(1) [unfolded profile_handlers_flat] assms(2)] by simp

text \<open>The manager gets ready, loses its bridge, and accepts an operation before its worker has noticed: the
  operation was accepted, and its callback is never called.\<close>

definition demo_pm0 :: "jtree profile_manager" where
  "demo_pm0 = projr (profile_start demo_nx (profile_new 1 None))"

definition demo_pm1 :: "jtree profile_manager" where
  "demo_pm1 = flat_work (profile_handlers demo_nx) (post_fifo (N_ReadinessEvt_Signal demo_net_up) demo_pm0)"

definition demo_pm2 :: "jtree profile_manager" where
  "demo_pm2 = snd (requestProfileList (Some 7) (post_fifo (N_BridgeConnectivityChanged_Signal False) demo_pm1))"

definition demo_pm3 :: "jtree profile_manager" where
  "demo_pm3 = flat_work (profile_handlers demo_nx) demo_pm2"

definition demo_pm4 :: "jtree profile_manager" where
  "demo_pm4 = flat_work (profile_handlers demo_nx) demo_pm3"

lemma demo_pm_runs:
  "map_sum id (\<lambda>_. ()) (profile_start demo_nx (profile_new 1 None)) = Inr ()" "ao_running demo_pm0" "ao_running demo_pm1"
  "map_sum id fst (run_step 9 (profile_handlers demo_nx) (post_fifo (N_ReadinessEvt_Signal demo_net_up) demo_pm0)) = Inr Dispatched"
  "map_sum id fst (run_step 9 (profile_handlers demo_nx) demo_pm2) = Inr Dispatched"
  "map_sum id fst (run_step 9 (profile_handlers demo_nx) demo_pm3) = Inr Dispatched"
  "nm_sent (drop (length (fm_out (post_fifo (N_ReadinessEvt_Signal demo_net_up) demo_pm0))) (fm_out demo_pm1)) = []"
  "nm_sent (drop (length (fm_out demo_pm2)) (fm_out demo_pm3)) = []" "nm_sent (drop (length (fm_out demo_pm3)) (fm_out demo_pm4)) = []"
  "stale profile_carries (post_fifo (N_ReadinessEvt_Signal demo_net_up) demo_pm0) = []"
  "stale profile_carries demo_pm2 = []" "stale profile_carries demo_pm3 = [7]"
  "fst (requestProfileList (Some 7) (post_fifo (N_BridgeConnectivityChanged_Signal False) demo_pm1)) = SUCCESS"
  by code_simp+

lemma demo_pm_run:
  "flat_run (profile_handlers demo_nx) (profile_response demo_nx) (\<lambda>_ _ _. False) (\<lambda>_. []) profile_carries profile_carries profile_holds demo_nx
    {#7#} {#} {#} {#7#} demo_pm4"
proof -
  let ?run = "flat_run (profile_handlers demo_nx) (profile_response demo_nx) (\<lambda>_ _ _. False) (\<lambda>_. []) profile_carries profile_carries profile_holds demo_nx"
  have "profile_start demo_nx (profile_new 1 None) = Inr demo_pm0"
    using demo_pm_runs(1) unfolding demo_pm0_def by (cases "profile_start demo_nx (profile_new 1 None)") auto
  then have r0: "?run {#} {#} {#} {#} demo_pm0"
    unfolding profile_start_def by (rule flat_run.started [where pending = "\<lambda>_. []", simplified]) (simp_all add: profile_new_def gm_new_def fm_out_def)
  have "?run {#} {#} {#} {#} (post_fifo (N_ReadinessEvt_Signal demo_net_up) demo_pm0)"
    using flat_run.post [OF r0 demo_pm_runs(2), of "N_ReadinessEvt_Signal demo_net_up"] by simp
  from flat_work_run [OF this demo_pm_runs(4) demo_pm_runs(7) [unfolded demo_pm1_def] demo_pm_runs(10), folded demo_pm1_def]
  have r1: "?run {#} {#} {#} {#} demo_pm1" by simp
  let ?lost = "post_fifo (N_BridgeConnectivityChanged_Signal False) demo_pm1"
  have up: "ao_running ?lost" using demo_pm_runs(3) by (simp add: post_fifo_def)
  have "?run {#} {#} {#} {#} ?lost" using flat_run.post [OF r1 demo_pm_runs(3), of "N_BridgeConnectivityChanged_Signal False"] by simp
  from flat_run.post [OF this up, of "N_Signal (RequestProfileList_Signal (Some 7))"]
  have "?run {#7#} {#} {#} {#} (post_fifo (N_Signal (RequestProfileList_Signal (Some 7))) ?lost)" by simp
  moreover have "demo_pm2 = post_fifo (N_Signal (RequestProfileList_Signal (Some 7))) ?lost"
    using demo_pm_runs(13) by (simp add: demo_pm2_def requestProfileList_def fm_post_def split: if_splits)
  ultimately have "?run {#7#} {#} {#} {#} demo_pm2" by simp
  from flat_work_run [OF this demo_pm_runs(5) demo_pm_runs(8) [unfolded demo_pm3_def] demo_pm_runs(11), folded demo_pm3_def]
  have "?run {#7#} {#} {#} {#} demo_pm3" by simp
  from flat_work_run [OF this demo_pm_runs(6) demo_pm_runs(9) [unfolded demo_pm4_def] demo_pm_runs(12), folded demo_pm4_def]
  show ?thesis by simp
qed

theorem profile_clients_accounted_witness:
  "{#7#} = mset (nm_answered profile_answers (fm_out demo_pm4)) + (\<Sum>k\<in>#{#}. mset (profile_holds k)) + {#} + {#7#} +
    mset (nm_waiting profile_carries (ao_q demo_pm4))"
  by (rule profile_clients_accounted [OF demo_pm_run demo_nx_loops(1)])

end
