(* ===== verification/Data_Serving.thy ===== *)
theory Data_Serving
  imports Flat_Shell
begin

text \<open>
  \<open>SimulaServingSystemManager\<close> of \<open>component/data/ServingSystemManager.cpp\<close>: service state, roaming and
  the data radio bearer as the modem reports them.
\<close>

section \<open>Data\<close>

datatype data_service_state = DSS_UNKNOWN | DSS_IN_SERVICE | DSS_OUT_OF_SERVICE

datatype network_rat = RAT_UNKNOWN | RAT_CDMA_1X | RAT_CDMA_EVDO | RAT_GSM | RAT_WCDMA | RAT_LTE | RAT_TDSCDMA | RAT_NR5G

datatype drb_status = DRB_ACTIVE | DRB_DORMANT | DRB_UNKNOWN

datatype roaming_type = ROAM_UNKNOWN | ROAM_DOMESTIC | ROAM_INTERNATIONAL

datatype nr_icon = ICON_NONE | ICON_BASIC | ICON_UWB

record data_service_status =
  dss_serviceState :: data_service_state
  dss_networkRat :: network_rat

record roaming_status =
  rs_isRoaming :: bool
  rs_type :: roaming_type

text \<open>\<open>ServiceStatus{}\<close> and \<open>RoamingStatus{}\<close>.\<close>

definition no_service :: data_service_status where
  "no_service = \<lparr>dss_serviceState = DSS_UNKNOWN, dss_networkRat = RAT_UNKNOWN\<rparr>"

definition no_roaming :: roaming_status where
  "no_roaming = \<lparr>rs_isRoaming = False, rs_type = ROAM_UNKNOWN\<rparr>"

datatype 'j serving_signal =
    RequestServiceStatus_Signal "nat option"
  | RequestRoamingStatus_Signal "nat option"
  | RequestNrIconType_Signal "nat option"
  | MakeDormant_Signal "nat option"
  | ServStateEvt_Signal "'j envelope"
  | ServRoamingEvt_Signal "'j envelope"

datatype serving_cont = K_Service_Status "nat option" | K_Roaming_Status "nat option" | K_Nr_Icon "nat option" | K_Dormant "nat option"

datatype serving_answer =
    Service_Status_Answer nat data_service_status error_code
  | Roaming_Status_Answer nat roaming_status error_code
  | Nr_Icon_Answer nat nr_icon error_code
  | Dormant_Answer nat error_code

text \<open>The calls of one broadcast: \<open>onDrbStatusChanged\<close> and \<open>onServiceStateChanged\<close>, and \<open>onRoamingStatusChanged\<close>.\<close>

datatype serving_note = On_Serving_State drb_status data_service_status | On_Roaming roaming_status

record ('u, 'x) serving_manager = "('u, 'x) gate_manager" +
  sv_drb_status :: drb_status

type_synonym 'j serving_mgr =
  "(('j, 'j serving_signal) net_event, ('j, serving_note flat_note, serving_cont, serving_answer) om_effect) serving_manager"

section \<open>The wire\<close>

definition wireToServiceState :: "string \<Rightarrow> data_service_state" where
  "wireToServiceState s =
     (if s = ''IN_SERVICE'' then DSS_IN_SERVICE else if s = ''OUT_OF_SERVICE'' then DSS_OUT_OF_SERVICE else DSS_UNKNOWN)"

definition wireToNetworkRat :: "string \<Rightarrow> network_rat" where
  "wireToNetworkRat s =
     (if s = ''GSM'' then RAT_GSM
      else if s = ''WCDMA'' then RAT_WCDMA
      else if s = ''LTE'' then RAT_LTE
      else if s = ''CDMA_1X'' then RAT_CDMA_1X
      else if s = ''CDMA_EVDO'' then RAT_CDMA_EVDO
      else RAT_UNKNOWN)"

definition wireToDrbStatus :: "string \<Rightarrow> drb_status" where
  "wireToDrbStatus s = (if s = ''ACTIVE'' then DRB_ACTIVE else if s = ''DORMANT'' then DRB_DORMANT else DRB_UNKNOWN)"

definition wireToRoamingType :: "string \<Rightarrow> roaming_type" where
  "wireToRoamingType s =
     (if s = ''DOMESTIC'' then ROAM_DOMESTIC else if s = ''INTERNATIONAL'' then ROAM_INTERNATIONAL else ROAM_UNKNOWN)"

definition wireToNrIconType :: "string \<Rightarrow> nr_icon" where
  "wireToNrIconType s = (if s = ''BASIC'' then ICON_BASIC else if s = ''UWB'' then ICON_UWB else ICON_NONE)"

definition read_service_status :: "'j json_lib \<Rightarrow> 'j \<Rightarrow> data_service_status result" where
  "read_service_status J d =
     bindE (value_string J d ''serviceState'') (\<lambda>st.
     bindE (value_string J d ''networkRat'') (\<lambda>rat.
       Inr \<lparr>dss_serviceState = wireToServiceState st, dss_networkRat = wireToNetworkRat rat\<rparr>))"

definition read_roaming :: "'j json_lib \<Rightarrow> 'j \<Rightarrow> roaming_status result" where
  "read_roaming J d =
     bindE (value_bool J d ''isRoaming'') (\<lambda>r.
     bindE (value_string J d ''roamingType'') (\<lambda>ty. Inr \<lparr>rs_isRoaming = r, rs_type = wireToRoamingType ty\<rparr>))"

section \<open>State handlers\<close>

definition publishDrb :: "drb_status \<Rightarrow> 'j serving_mgr \<Rightarrow> 'j serving_mgr" where
  "publishDrb d h = h\<lparr>sv_drb_status := d\<rparr>"

fun serving_idle :: "'j serving_signal \<Rightarrow> 'j serving_mgr \<Rightarrow> (status \<times> 'j serving_mgr) result" where
  "serving_idle (ServStateEvt_Signal env) h = Inr (super_st Top_St h)"
| "serving_idle (ServRoamingEvt_Signal env) h = Inr (super_st Top_St h)"
| "serving_idle _ h = Inr (HANDLED, h)"

definition serving_stateEvt :: "'j json_lib \<Rightarrow> 'j envelope \<Rightarrow> 'j serving_mgr \<Rightarrow> 'j serving_mgr result" where
  "serving_stateEvt J env h =
     (case env_data env of
        None \<Rightarrow> Inr h
      | Some d \<Rightarrow>
          bindE (value_string J d ''drbStatus'') (\<lambda>s.
            let drb = wireToDrbStatus s; h = publishDrb drb h in
            bindE (read_service_status J d) (\<lambda>st. Inr (fm_broadcastToListeners (Note (On_Serving_State drb st)) h))))"

definition serving_roamingEvt :: "'j json_lib \<Rightarrow> 'j envelope \<Rightarrow> 'j serving_mgr \<Rightarrow> 'j serving_mgr result" where
  "serving_roamingEvt J env h =
     (case env_data env of
        None \<Rightarrow> Inr h
      | Some d \<Rightarrow> bindE (read_roaming J d) (\<lambda>r. Inr (fm_broadcastToListeners (Note (On_Roaming r)) h)))"

definition serving_ask :: "'j net_ext \<Rightarrow> string \<Rightarrow> string \<Rightarrow> serving_cont \<Rightarrow> 'j serving_mgr \<Rightarrow> 'j serving_mgr" where
  "serving_ask X topic schema k h = fm_request X topic schema [(''slot'', j_of_int (nx_json X) (fm_slotId h))] k h"

fun serving_serve :: "'j net_ext \<Rightarrow> 'j serving_signal \<Rightarrow> 'j serving_mgr \<Rightarrow> (status \<times> 'j serving_mgr) result" where
  "serving_serve X (ServStateEvt_Signal env) h = bindE (serving_stateEvt (nx_json X) env h) (\<lambda>h. Inr (HANDLED, h))"
| "serving_serve X (ServRoamingEvt_Signal env) h = bindE (serving_roamingEvt (nx_json X) env h) (\<lambda>h. Inr (HANDLED, h))"
| "serving_serve X (RequestServiceStatus_Signal cb) h =
     Inr (HANDLED, serving_ask X ''data.request_service_status.req'' ''data.request_service_status.rsp'' (K_Service_Status cb) h)"
| "serving_serve X (RequestRoamingStatus_Signal cb) h =
     Inr (HANDLED, serving_ask X ''data.request_roaming_status.req'' ''data.request_roaming_status.rsp'' (K_Roaming_Status cb) h)"
| "serving_serve X (RequestNrIconType_Signal cb) h =
     Inr (HANDLED, serving_ask X ''data.request_nr_icon_type.req'' ''data.request_nr_icon_type.rsp'' (K_Nr_Icon cb) h)"
| "serving_serve X (MakeDormant_Signal cb) h =
     Inr (HANDLED, serving_ask X ''data.make_dormant.req'' ''data.make_dormant.rsp'' (K_Dormant cb) h)"

definition ServNotReady_St :: "'j net_ext \<Rightarrow> ('j, 'j serving_signal) net_event event \<Rightarrow> 'j serving_mgr \<Rightarrow> (status \<times> 'j serving_mgr) result" where
  "ServNotReady_St X = flat_NotReady_St (nx_json X) serving_idle"

definition ServReady_St :: "'j net_ext \<Rightarrow> ('j, 'j serving_signal) net_event event \<Rightarrow> 'j serving_mgr \<Rightarrow> (status \<times> 'j serving_mgr) result" where
  "ServReady_St X = flat_Ready_St (nx_json X) gm_withdrawals gm_enterReady gm_exitReady (serving_serve X)"

fun serving_handlers :: "'j net_ext \<Rightarrow> rstate \<Rightarrow> ('j, 'j serving_signal) net_event event \<Rightarrow> 'j serving_mgr \<Rightarrow> (status \<times> 'j serving_mgr) result" where
  "serving_handlers X NotReady = ServNotReady_St X"
| "serving_handlers X Ready = ServReady_St X"

fun serving_response :: "'j net_ext \<Rightarrow> serving_cont \<Rightarrow> 'j envelope option \<Rightarrow> 'j serving_mgr \<Rightarrow> 'j serving_mgr result" where
  "serving_response X (K_Service_Status cb) rsp h =
     fm_completeQuery (read_service_status (nx_json X)) Service_Status_Answer no_service cb rsp h"
| "serving_response X (K_Roaming_Status cb) rsp h = fm_completeQuery (read_roaming (nx_json X)) Roaming_Status_Answer no_roaming cb rsp h"
| "serving_response X (K_Nr_Icon cb) rsp h =
     fm_completeQuery (\<lambda>d. bindE (value_string (nx_json X) d ''iconType'') (\<lambda>s. Inr (wireToNrIconType s))) Nr_Icon_Answer ICON_NONE cb rsp h"
| "serving_response X (K_Dormant cb) rsp h = Inr (fm_complete Dormant_Answer cb rsp h)"

section \<open>The manager\<close>

definition serving_new :: "int \<Rightarrow> nat option \<Rightarrow> 'j serving_mgr" where
  "serving_new slot initCb = gm_new ''ServingSystemManager'' slot initCb \<lparr>sv_drb_status = DRB_UNKNOWN\<rparr>"

definition serving_topics :: "'j net_ext \<Rightarrow> (string \<times> string) list" where
  "serving_topics X = named_topics X [''data.subsys_ready_serv.ind'', ''data.serv_state.ind'', ''data.serv_roaming.ind'']"

definition serving_start :: "'j net_ext \<Rightarrow> 'j serving_mgr \<Rightarrow> 'j serving_mgr result" where
  "serving_start X = fm_start X (serving_topics X) (serving_handlers X)"

definition serving_unsubscribeFromBridge :: "'j net_ext \<Rightarrow> 'j serving_mgr \<Rightarrow> 'j serving_mgr" where
  "serving_unsubscribeFromBridge X = fm_unsubscribe (map fst (serving_topics X))"

definition serving_destroy :: "nat \<Rightarrow> 'j net_ext \<Rightarrow> 'j serving_mgr \<Rightarrow> 'j serving_mgr result" where
  "serving_destroy k X h = stop k (nx_loops X) (serving_handlers X) False (serving_unsubscribeFromBridge X h)"

definition serving_handleReadinessInd :: "'j envelope \<Rightarrow> 'j serving_mgr \<Rightarrow> 'j serving_mgr" where
  "serving_handleReadinessInd env = post_fifo (N_ReadinessEvt_Signal env)"

definition handleServStateInd :: "'j envelope \<Rightarrow> 'j serving_mgr \<Rightarrow> 'j serving_mgr" where
  "handleServStateInd env = post_fifo (N_Signal (ServStateEvt_Signal env))"

definition handleServRoamingInd :: "'j envelope \<Rightarrow> 'j serving_mgr \<Rightarrow> 'j serving_mgr" where
  "handleServRoamingInd env = post_fifo (N_Signal (ServRoamingEvt_Signal env))"

definition getDrbStatus :: "'j serving_mgr \<Rightarrow> drb_status" where
  "getDrbStatus h = sv_drb_status h"

definition requestServiceStatus :: "nat option \<Rightarrow> 'j serving_mgr \<Rightarrow> api_status \<times> 'j serving_mgr" where
  "requestServiceStatus cb = fm_post (N_Signal (RequestServiceStatus_Signal cb))"

definition requestRoamingStatus :: "nat option \<Rightarrow> 'j serving_mgr \<Rightarrow> api_status \<times> 'j serving_mgr" where
  "requestRoamingStatus cb = fm_post (N_Signal (RequestRoamingStatus_Signal cb))"

definition requestNrIconType :: "nat option \<Rightarrow> 'j serving_mgr \<Rightarrow> api_status \<times> 'j serving_mgr" where
  "requestNrIconType cb = fm_post (N_Signal (RequestNrIconType_Signal cb))"

definition makeDormant :: "nat option \<Rightarrow> 'j serving_mgr \<Rightarrow> api_status \<times> 'j serving_mgr" where
  "makeDormant cb = fm_post (N_Signal (MakeDormant_Signal cb))"

definition serving_getSlotId :: "'j serving_mgr \<Rightarrow> int" where
  "serving_getSlotId h = fm_slotId h"

section \<open>What holds\<close>

fun serving_carries :: "'j serving_signal \<Rightarrow> nat list" where
  "serving_carries (RequestServiceStatus_Signal cb) = opt_list cb"
| "serving_carries (RequestRoamingStatus_Signal cb) = opt_list cb"
| "serving_carries (RequestNrIconType_Signal cb) = opt_list cb"
| "serving_carries (MakeDormant_Signal cb) = opt_list cb"
| "serving_carries _ = []"

fun serving_holds :: "serving_cont \<Rightarrow> nat list" where
  "serving_holds (K_Service_Status cb) = opt_list cb"
| "serving_holds (K_Roaming_Status cb) = opt_list cb"
| "serving_holds (K_Nr_Icon cb) = opt_list cb"
| "serving_holds (K_Dormant cb) = opt_list cb"

fun serving_answers :: "serving_answer \<Rightarrow> nat list" where
  "serving_answers (Service_Status_Answer c v er) = [c]"
| "serving_answers (Roaming_Status_Answer c v er) = [c]"
| "serving_answers (Nr_Icon_Answer c v er) = [c]"
| "serving_answers (Dormant_Answer c er) = [c]"

lemma serving_handlers_flat:
  "serving_handlers X = flat_handlers (nx_json X) gm_withdrawals gm_enterReady gm_exitReady serving_idle (serving_serve X)"
proof
  fix s
  show "serving_handlers X s = flat_handlers (nx_json X) gm_withdrawals gm_enterReady gm_exitReady serving_idle (serving_serve X) s"
    by (cases s) (simp_all add: ServNotReady_St_def ServReady_St_def)
qed

lemma publishDrb_serves: "fm_serves serving_answers serving_holds (\<lambda>_. []) cs (publishDrb d h) h' = fm_serves serving_answers serving_holds (\<lambda>_. []) cs h h'"
  by (simp add: fm_serves_def publishDrb_def fm_out_def)

interpretation serving: gate_service X serving_idle "serving_serve X" "serving_response X" serving_carries serving_holds serving_answers
  for X :: "'j net_ext"
proof unfold_locales
  fix e k rsp r and h h' :: "'j serving_mgr"
  show "serving_idle e h = Inr (r, h') \<Longrightarrow> r = HANDLED \<and> h' = h \<or> (r, h') = super_st Top_St h" by (cases e) auto
  have brd: "fm_serves serving_answers serving_holds (\<lambda>_. []) [] h (fm_broadcastToListeners nt (publishDrb d h))" for nt d
    using fm_serves_simps(2) [of "\<lambda>_. []" serving_answers serving_holds "publishDrb d h" nt] by (simp add: publishDrb_serves)
  show "serving_serve X e h = Inr (r, h') \<Longrightarrow> r = HANDLED \<and> fm_serves serving_answers serving_holds (\<lambda>_. []) (serving_carries e) h h'"
    by (cases e) (auto simp: serving_stateEvt_def serving_roamingEvt_def serving_ask_def bindE_eq_Inr Let_def fm_serves_simps fm_serves_request brd
        split: option.splits)
  show "serving_response X k rsp h = Inr h' \<Longrightarrow> fm_gives serving_answers (\<lambda>_. []) (serving_holds k) h h'"
    by (cases k) (auto intro: fm_gives_query fm_gives_complete)
qed

lemma serving_clients_accounted:
  assumes "flat_run (serving_handlers X) (serving_response X) (\<lambda>_ _ _. False) (\<lambda>_. []) serving_carries serving_carries serving_holds X G P L D h"
    "kMaxNest < nx_loops X"
  shows "G = mset (nm_answered serving_answers (fm_out h)) + (\<Sum>k\<in>#P. mset (serving_holds k)) + L + D +
    mset (nm_waiting serving_carries (ao_q h))"
  using serving.flat_accounts [OF assms(1) [unfolded serving_handlers_flat] assms(2)] by simp

text \<open>The bearer status that a sequence of signals leaves: that of the last indication with one that is
  handled while the manager is ready.\<close>

fun drb_reported :: "'j json_lib \<Rightarrow> rstate \<Rightarrow> 'j serving_signal \<Rightarrow> drb_status \<Rightarrow> drb_status" where
  "drb_reported J Ready (ServStateEvt_Signal env) v =
     (case env_data env of
        None \<Rightarrow> v
      | Some d \<Rightarrow> (case value_string J d ''drbStatus'' of Inl _ \<Rightarrow> v | Inr s \<Rightarrow> wireToDrbStatus s))"
| "drb_reported J _ _ v = v"

primrec drb_after :: "'j json_lib \<Rightarrow> ('j, 'j serving_signal) net_event list \<Rightarrow> rstate \<Rightarrow> drb_status \<Rightarrow> drb_status" where
  "drb_after J [] s v = v"
| "drb_after J (u # us) s v =
     drb_after J us (track (net_up J) (flat_down J gm_withdrawals) u s) (case u of N_Signal e \<Rightarrow> drb_reported J s e v | _ \<Rightarrow> v)"

lemma drb_after_fold:
  "snd (fold (\<lambda>u (s, v). (track (net_up J) (flat_down J gm_withdrawals) u s, case u of N_Signal e \<Rightarrow> drb_reported J s e v | _ \<Rightarrow> v)) us (s, v)) =
   drb_after J us s v"
  by (induction us arbitrary: s v) auto

lemma drb_kept:
  "sv_drb_status (fm_broadcastToListeners nt h) = sv_drb_status (h :: 'j serving_mgr)"
  "sv_drb_status (fm_tell st h) = sv_drb_status h" "sv_drb_status (fm_request X topic schema ms k h) = sv_drb_status h"
  by (simp_all add: fm_tell_def fm_broadcastToListeners_def fm_emit_def fm_do_def fm_request_def Let_def)

text \<open>The bearer status that clients of the data serving system read is the modem's: after any sequence of
  signals it is that of the last service indication handled while the manager was ready; indications
  while it is not ready, requests, responses and changes of readiness leave it as it was.\<close>

theorem drb_follows_modem:
  fixes X :: "'j net_ext"
  assumes "kMaxNest < n" "hstate h = St s" "dispatch_all n (serving_handlers X) us h = Inr h'"
  shows "getDrbStatus h' = drb_after (nx_json X) us s (getDrbStatus h) \<and>
    hstate h' = St (fold (track (net_up (nx_json X)) (flat_down (nx_json X) gm_withdrawals)) us s)"
proof -
  have "hstate h' = St (fold (track (net_up (nx_json X)) (flat_down (nx_json X) gm_withdrawals)) us s) \<and>
    sv_drb_status h' = snd (fold (\<lambda>u (s, v). (track (net_up (nx_json X)) (flat_down (nx_json X) gm_withdrawals) u s,
      case u of N_Signal e \<Rightarrow> drb_reported (nx_json X) s e v | _ \<Rightarrow> v)) us (s, sv_drb_status h))"
  proof (rule serving.flat_dispatch_view [OF assms(1,2) assms(3) [unfolded serving_handlers_flat]])
    fix e r and h h1 :: "'j serving_mgr"
    show "serving_idle e h = Inr (r, h1) \<Longrightarrow> sv_drb_status h1 = drb_reported (nx_json X) NotReady e (sv_drb_status h)"
      by (cases e) (auto simp: super_st_def)
    show "serving_serve X e h = Inr (r, h1) \<Longrightarrow> sv_drb_status h1 = drb_reported (nx_json X) Ready e (sv_drb_status h)"
      by (cases e) (auto simp: serving_stateEvt_def serving_roamingEvt_def serving_ask_def bindE_eq_Inr Let_def drb_kept publishDrb_def
          split: option.splits)
    show "sv_drb_status (gm_enterReady h) = sv_drb_status h" "sv_drb_status (gm_exitReady h) = sv_drb_status h"
      by (simp_all add: gm_enterReady_def gm_exitReady_def fm_publishStatus_def drb_kept Let_def case_prod_unfold)
  qed (simp_all add: erase_def)
  then show ?thesis by (simp add: getDrbStatus_def drb_after_fold)
qed

definition demo_serving :: "jtree serving_mgr" where
  "demo_serving = projr (serving_start demo_nx (serving_new 1 None))"

definition demo_serv_state :: "string \<Rightarrow> jtree envelope" where
  "demo_serv_state drb = fst (makeEventEnvelope 7 ''mpss'' (JObj [(''drbStatus'', JStr drb), (''serviceState'', JStr ''IN_SERVICE''), (''networkRat'', JStr ''LTE'')]) 42)"

definition demo_serv_events :: "(jtree, jtree serving_signal) net_event list" where
  "demo_serv_events = [N_Signal (ServStateEvt_Signal (demo_serv_state ''ACTIVE'')), N_ReadinessEvt_Signal demo_net_up,
     N_Signal (ServStateEvt_Signal (demo_serv_state ''DORMANT'')), N_Signal (MakeDormant_Signal (Some 3)),
     N_BridgeConnectivityChanged_Signal False, N_Signal (ServStateEvt_Signal (demo_serv_state ''ACTIVE''))]"

lemma demo_serving_runs:
  "hstate demo_serving = St NotReady" "getDrbStatus demo_serving = DRB_UNKNOWN"
  "drb_after tree_lib demo_serv_events NotReady DRB_UNKNOWN = DRB_DORMANT"
  "map_sum id (\<lambda>_. ()) (dispatch_all 9 (serving_handlers demo_nx) demo_serv_events demo_serving) = Inr ()"
  by code_simp+

theorem drb_follows_modem_witness:
  "getDrbStatus (projr (dispatch_all 9 (serving_handlers demo_nx) demo_serv_events demo_serving)) = DRB_DORMANT"
proof -
  have "dispatch_all 9 (serving_handlers demo_nx) demo_serv_events demo_serving =
      Inr (projr (dispatch_all 9 (serving_handlers demo_nx) demo_serv_events demo_serving))"
    using demo_serving_runs(4) by (cases "dispatch_all 9 (serving_handlers demo_nx) demo_serv_events demo_serving") auto
  from drb_follows_modem [OF _ demo_serving_runs(1) this] show ?thesis
    by (simp add: kMaxNest_def demo_serving_runs(2,3) demo_nx_def)
qed

text \<open>A technology that the modem reports and listeners never learn: 5G arrives as \<open>UNKNOWN\<close>.\<close>

lemma nr5g_unknown: "wireToNetworkRat ''NR5G'' = RAT_UNKNOWN"
  by (simp add: wireToNetworkRat_def)

end
