(* ===== verification/Radio_Shell.thy ===== *)
theory Radio_Shell
  imports Flat_Shell
begin

text \<open>
  What the managers of \<open>component/tel\<close> for phones, serving system and network selection add to the flat
  shell: init callbacks are kept in a list that only the worker touches (\<open>init_cbs_\<close>), and operations that
  find the manager no longer ready are answered. \<open>radio_service\<close> is their contract.
\<close>

section \<open>State and operations\<close>

record ('u, 'x) radio_manager = "('u, 'x) flat_manager" +
  rm_init_cbs :: "nat list"

datatype 'o radio_signal = SetInitCb_Signal nat | Radio_Signal 'o

text \<open>Calls of an init callback, and the answers of one manager.\<close>

datatype 'a radio_answer = Init_Called nat service_status | Reply 'a

definition rm_new :: "string \<Rightarrow> int \<Rightarrow> nat option \<Rightarrow> 'z \<Rightarrow> ('u, 'x, 'z) radio_manager_scheme" where
  "rm_new nm slot initCb z =
     \<lparr>hstate = Top_St, htemp = Top_St, last_ignored = False, trace_fn = False, probe_fn = False, instr_log = [],
      ao_name = nm, ao_inst = False, ao_q = [], ao_running = False,
      fm_status = SERVICE_UNAVAILABLE, fm_slotId = slot, fm_conn_token = 0, fm_listeners = [], fm_live = [],
      fm_io = \<lparr>io_counter = 0, io_now = 0, io_out = []\<rparr>, rm_init_cbs = opt_list initCb, \<dots> = z\<rparr>"

definition rm_calls :: "service_status \<Rightarrow> nat list \<Rightarrow> ('u, ('j, 'n, 'k, 'a radio_answer) om_effect, 'z) radio_manager_scheme
    \<Rightarrow> ('u, ('j, 'n, 'k, 'a radio_answer) om_effect, 'z) radio_manager_scheme" where
  "rm_calls st = fold (\<lambda>c. fm_emit (Om_Answered (Init_Called c st)))"

definition rm_fire :: "service_status \<Rightarrow> ('u, ('j, 'n, 'k, 'a radio_answer) om_effect, 'z) radio_manager_scheme
    \<Rightarrow> ('u, ('j, 'n, 'k, 'a radio_answer) om_effect, 'z) radio_manager_scheme" where
  "rm_fire st h = rm_calls st (rm_init_cbs h) (h\<lparr>rm_init_cbs := []\<rparr>)"

definition rm_enterReady :: "('u, ('j, 'n flat_note, 'k, 'a radio_answer) om_effect, 'z) radio_manager_scheme
    \<Rightarrow> ('u, ('j, 'n flat_note, 'k, 'a radio_answer) om_effect, 'z) radio_manager_scheme" where
  "rm_enterReady h = fm_tell SERVICE_AVAILABLE (rm_fire SERVICE_AVAILABLE (fm_publishStatus SERVICE_AVAILABLE h))"

definition rm_exitReady :: "('u, ('j, 'n flat_note, 'k, 'a radio_answer) om_effect, 'z) radio_manager_scheme
    \<Rightarrow> ('u, ('j, 'n flat_note, 'k, 'a radio_answer) om_effect, 'z) radio_manager_scheme" where
  "rm_exitReady h = fm_tell SERVICE_UNAVAILABLE (if rm_init_cbs h \<noteq> [] then rm_fire SERVICE_UNAVAILABLE h else h)"

definition rm_withdrawals :: "(string \<times> service_status) list" where
  "rm_withdrawals = [(''UNAVAILABLE'', SERVICE_UNAVAILABLE)]"

definition rm_setInitCallback :: "nat option \<Rightarrow> (('j, 'o radio_signal) net_event, ('j, 'n, 'k, 'a radio_answer) om_effect, 'z) radio_manager_scheme
    \<Rightarrow> (('j, 'o radio_signal) net_event, ('j, 'n, 'k, 'a radio_answer) om_effect, 'z) radio_manager_scheme" where
  "rm_setInitCallback cb h =
     (case cb of
        None \<Rightarrow> h
      | Some c \<Rightarrow>
          if fm_isReadyDerived h then fm_emit (Om_Answered (Init_Called c SERVICE_AVAILABLE)) h
          else post_fifo (N_Signal (SetInitCb_Signal c)) h)"

section \<open>Handlers of the own signals\<close>

type_synonym ('j, 'o, 'x, 'z) radio_own =
  "'o \<Rightarrow> (('j, 'o radio_signal) net_event, 'x, 'z) radio_manager_scheme
     \<Rightarrow> (status \<times> (('j, 'o radio_signal) net_event, 'x, 'z) radio_manager_scheme) result"

fun radio_idle :: "('j, 'o, 'x, 'z) radio_own \<Rightarrow> 'o radio_signal \<Rightarrow> (('j, 'o radio_signal) net_event, 'x, 'z) radio_manager_scheme
    \<Rightarrow> (status \<times> (('j, 'o radio_signal) net_event, 'x, 'z) radio_manager_scheme) result" where
  "radio_idle idle (SetInitCb_Signal c) h = Inr (HANDLED, h\<lparr>rm_init_cbs := rm_init_cbs h @ [c]\<rparr>)"
| "radio_idle idle (Radio_Signal e) h = idle e h"

fun radio_serve :: "('j, 'o, ('j, 'n, 'k, 'a radio_answer) om_effect, 'z) radio_own \<Rightarrow> 'o radio_signal
    \<Rightarrow> (('j, 'o radio_signal) net_event, ('j, 'n, 'k, 'a radio_answer) om_effect, 'z) radio_manager_scheme
    \<Rightarrow> (status \<times> (('j, 'o radio_signal) net_event, ('j, 'n, 'k, 'a radio_answer) om_effect, 'z) radio_manager_scheme) result" where
  "radio_serve serve (SetInitCb_Signal c) h = Inr (HANDLED, fm_emit (Om_Answered (Init_Called c SERVICE_AVAILABLE)) h)"
| "radio_serve serve (Radio_Signal e) h = serve e h"

section \<open>Whose callback is where\<close>

fun radio_carries :: "('o \<Rightarrow> nat list) \<Rightarrow> 'o radio_signal \<Rightarrow> nat list" where
  "radio_carries carries (SetInitCb_Signal c) = [c]"
| "radio_carries carries (Radio_Signal e) = carries e"

fun radio_answers :: "('a \<Rightarrow> nat list) \<Rightarrow> 'a radio_answer \<Rightarrow> nat list" where
  "radio_answers answers (Init_Called c st) = [c]"
| "radio_answers answers (Reply a) = answers a"

lemma of_more_inits [simp]: "of_more rm_init_cbs"
  unfolding of_more_def
proof (intro allI impI)
  fix g h :: "('u, 'x, 'z) radio_manager_scheme"
  show "flat_manager.more g = flat_manager.more h \<Longrightarrow> rm_init_cbs g = rm_init_cbs h" by (cases g; cases h) simp
qed

text \<open>
  A step that leaves the init callbacks alone. A call on the client's thread is one answer.
\<close>

definition init_quiet :: "('u, ('j, 'n, 'k, 'a radio_answer) om_effect, 'z) radio_manager_scheme
    \<Rightarrow> ('u, ('j, 'n, 'k, 'a radio_answer) om_effect, 'z) radio_manager_scheme \<Rightarrow> bool" where
  "init_quiet h h' \<longleftrightarrow> rm_init_cbs h' = rm_init_cbs h \<and>
     (\<exists>xs. fm_out h' = fm_out h @ xs \<and> (\<forall>c st. Om_Answered (Init_Called c st) \<notin> set xs))"

definition called_at_once :: "('a \<Rightarrow> nat list) \<Rightarrow> nat list \<Rightarrow> ('u, ('j, 'n, 'k, 'a radio_answer) om_effect, 'z) radio_manager_scheme
    \<Rightarrow> ('u, ('j, 'n, 'k, 'a radio_answer) om_effect, 'z) radio_manager_scheme \<Rightarrow> bool" where
  "called_at_once answers cs h h' \<longleftrightarrow>
     (\<exists>c. cs = [c] \<and> hstate h = St Ready \<and> h' = fm_emit (Om_Answered (Init_Called c SERVICE_AVAILABLE)) h) \<or>
     (\<exists>a. cs = answers a \<and> h' = fm_emit (Om_Answered (Reply a)) h)"

lemma init_quiet_refl [simp]: "init_quiet h h" "init_quiet h (h\<lparr>htemp := x\<rparr>)"
  by (simp_all add: init_quiet_def fm_out_def)

lemma init_quiet_do: "fm_out (fm_do f h) = fm_out h @ xs \<Longrightarrow> (\<forall>c st. Om_Answered (Init_Called c st) \<notin> set xs) \<Longrightarrow> init_quiet h (fm_do f h)"
  by (auto simp: init_quiet_def fm_do_def)

lemma init_quiet_ops [simp]:
  "init_quiet h (fm_emit (Om_Answered (Reply a)) h)" "init_quiet h (fm_emit (Om_Notes ls nt) h)" "init_quiet h (fm_request X t sc ms k h)"
  "init_quiet h (fm_answer (\<lambda>c. Reply (f c)) cb h)" "init_quiet h (fm_broadcastToListeners nt h)"
proof -
  show a: "init_quiet h (fm_emit (Om_Answered (Reply a)) h)" for a unfolding fm_emit_def by (rule init_quiet_do) (auto simp: fm_out_def)
  show "init_quiet h (fm_answer (\<lambda>c. Reply (f c)) cb h)" by (cases cb) (simp_all add: fm_answer_def a)
  show n: "init_quiet h (fm_emit (Om_Notes ls nt) h)" for ls unfolding fm_emit_def by (rule init_quiet_do) (auto simp: fm_out_def)
  show "init_quiet h (fm_broadcastToListeners nt h)" by (simp add: fm_broadcastToListeners_def n Let_def)
  show "init_quiet h (fm_request X t sc ms k h)"
    unfolding fm_request_def by (rule init_quiet_do) (auto simp: fm_out_def case_prod_unfold)
qed

lemma init_quiet_complete [simp]: "init_quiet h (fm_complete (\<lambda>c er. Reply (f c er)) cb rsp h)"
  by (simp add: fm_complete_def)

lemma init_quiet_query: "fm_completeQuery rd (\<lambda>c v er. Reply (f c v er)) v cb rsp h = Inr h' \<Longrightarrow> init_quiet h h'"
  by (auto simp: fm_completeQuery_def bindE_eq_Inr split: option.splits)

lemma fire_all:
  "fm_out (rm_calls st cs h) = fm_out h @ map (\<lambda>c. Om_Answered (Init_Called c st)) cs" "rm_init_cbs (rm_calls st cs h) = rm_init_cbs h"
  "ao_q (rm_calls st cs h) = ao_q h" "ao_running (rm_calls st cs h) = ao_running h" "hstate (rm_calls st cs h) = hstate h"
  "rm_calls st cs (h\<lparr>htemp := x\<rparr>) = (rm_calls st cs h)\<lparr>htemp := x\<rparr>"
  unfolding rm_calls_def by (induction cs arbitrary: h) (simp_all add: fm_out_def, simp_all add: fm_emit_def fm_do_def)

lemma rm_fire_out:
  "fm_out (rm_fire st h) = fm_out h @ map (\<lambda>c. Om_Answered (Init_Called c st)) (rm_init_cbs h)"
  "rm_init_cbs (rm_fire st h) = []" "ao_q (rm_fire st h) = ao_q h" "ao_running (rm_fire st h) = ao_running h" "hstate (rm_fire st h) = hstate h"
  by (simp_all add: rm_fire_def fire_all) (simp add: fm_out_def)

lemma calls_count:
  "nm_answered (radio_answers answers) (map (\<lambda>c. Om_Answered (Init_Called c st)) cs) = cs"
  "nm_sent (map (\<lambda>c. Om_Answered (Init_Called c st)) cs) = []"
  by (induction cs) (auto simp: nm_answered_def nm_sent_def)

lemma rm_fire_gives: "fm_gives (radio_answers answers) rm_init_cbs [] h (rm_fire st h)"
  unfolding fm_gives_def
  by (intro exI [of _ "map (\<lambda>c. Om_Answered (Init_Called c st)) (rm_init_cbs h)"]) (simp add: rm_fire_out calls_count)

lemma rm_fire_temp: "rm_fire st (h\<lparr>htemp := x\<rparr>) = (rm_fire st h)\<lparr>htemp := x\<rparr>"
proof -
  have swap: "h\<lparr>htemp := x, rm_init_cbs := []\<rparr> = h\<lparr>rm_init_cbs := [], htemp := x\<rparr>" by simp
  show ?thesis unfolding rm_fire_def by (simp only: swap fire_all) simp
qed

text \<open>
  The contract: an operation that finds the manager not ready is answered (an indication is dropped or
  passed on), when ready it is answered or sent; no handler or callback of the manager touches the init
  callbacks.
\<close>

locale radio_service =
  fixes X :: "'j net_ext"
    and idle serve :: "('j, 'o, ('j, 'n flat_note, 'k, 'a radio_answer) om_effect, 'z) radio_own"
    and respond :: "'k \<Rightarrow> 'j envelope option \<Rightarrow> (('j, 'o radio_signal) net_event, ('j, 'n flat_note, 'k, 'a radio_answer) om_effect, 'z) radio_manager_scheme \<Rightarrow>
      (('j, 'o radio_signal) net_event, ('j, 'n flat_note, 'k, 'a radio_answer) om_effect, 'z) radio_manager_scheme result"
    and carries :: "'o \<Rightarrow> nat list" and holds :: "'k \<Rightarrow> nat list" and answers :: "'a \<Rightarrow> nat list"
  assumes idle_does: "idle e h = Inr (r, h') \<Longrightarrow> init_quiet h h' \<and>
      (r = HANDLED \<and> fm_gives (radio_answers answers) rm_init_cbs (carries e) h h' \<or> carries e = [] \<and> (r, h') = super_st Top_St h)"
    and serve_does: "serve e h = Inr (r, h') \<Longrightarrow> init_quiet h h' \<and> r = HANDLED \<and>
      fm_serves (radio_answers answers) holds rm_init_cbs (carries e) h h'"
    and respond_does: "respond k rsp h = Inr h' \<Longrightarrow> init_quiet h h' \<and> fm_gives (radio_answers answers) rm_init_cbs (holds k) h h'"

sublocale radio_service \<subseteq> flat_service X rm_withdrawals rm_enterReady rm_exitReady "radio_idle idle" "radio_serve serve" respond
  "called_at_once answers" rm_init_cbs "radio_carries carries" "\<lambda>_. []" holds "radio_answers answers"
proof unfold_locales
  fix h h' :: "(('j, 'o radio_signal) net_event, ('j, 'n flat_note, 'k, 'a radio_answer) om_effect, 'z) radio_manager_scheme" and x e r k rsp cs
  have swap: "h\<lparr>htemp := x, fm_status := st\<rparr> = h\<lparr>fm_status := st, htemp := x\<rparr>" for st by simp
  show "rm_enterReady (h\<lparr>htemp := x\<rparr>) = (rm_enterReady h)\<lparr>htemp := x\<rparr>"
    unfolding rm_enterReady_def fm_publishStatus_def by (simp only: swap rm_fire_temp fm_temp)
  show "rm_exitReady (h\<lparr>htemp := x\<rparr>) = (rm_exitReady h)\<lparr>htemp := x\<rparr>"
    by (simp add: rm_exitReady_def rm_fire_temp)
  have stat: "fm_gives (radio_answers answers) rm_init_cbs [] h (fm_publishStatus st h)" for st
    by (rule fm_gives_step [where xs = "[]"]) (simp_all add: fm_publishStatus_def fm_out_def nm_sent_def nm_answered_def)
  show gives: "fm_gives (radio_answers answers) rm_init_cbs [] h (rm_enterReady h)" "fm_gives (radio_answers answers) rm_init_cbs [] h (rm_exitReady h)"
  proof -
    show "fm_gives (radio_answers answers) rm_init_cbs [] h (rm_enterReady h)"
      using fm_gives_trans [OF fm_gives_trans [OF stat rm_fire_gives] fm_gives_tell [OF of_more_inits]] by (simp add: rm_enterReady_def)
    show "fm_gives (radio_answers answers) rm_init_cbs [] h (rm_exitReady h)"
      using fm_gives_trans [OF rm_fire_gives [of answers h SERVICE_UNAVAILABLE] fm_gives_tell [OF of_more_inits]] fm_gives_tell [OF of_more_inits]
      by (auto simp: rm_exitReady_def)
  qed
  show "posts_only h (rm_enterReady h)" "posts_only h (rm_exitReady h)" using gives by (auto simp: fm_gives_def posts_only_def)
  have add: "fm_gives (radio_answers answers) rm_init_cbs [c] h (h\<lparr>rm_init_cbs := rm_init_cbs h @ [c]\<rparr>)" for c
    by (auto simp: fm_gives_def fm_out_def nm_sent_def nm_answered_def intro!: exI [of _ "[]"])
  show idle: "radio_idle idle e h = Inr (r, h') \<Longrightarrow> \<exists>cs. mset (radio_carries carries e) = mset cs + mset [] \<and> fm_gives (radio_answers answers) rm_init_cbs cs h h'"
    using idle_does [of _ h r h'] fm_gives_temp [OF of_more_inits, of "radio_answers answers" h] add by (cases e) (fastforce simp: super_st_def)+
  show "radio_idle idle e h = Inr (r, h') \<Longrightarrow> stays h r h'"
    using idle_does [of _ h r h'] by (cases e) (fastforce simp: stays_def super_st_def posts_only_def fm_gives_def)+
  show sv: "radio_serve serve e h = Inr (r, h') \<Longrightarrow> fm_serves (radio_answers answers) holds rm_init_cbs (radio_carries carries e) h h'"
  proof (cases e)
    case (SetInitCb_Signal c)
    assume "radio_serve serve e h = Inr (r, h')"
    with SetInitCb_Signal show ?thesis by (auto intro!: fm_gives_serves fm_gives_emit)
  qed (use serve_does in auto)
  show "radio_serve serve e h = Inr (r, h') \<Longrightarrow> stays h r h'"
    using sv serve_does [of _ h r h'] by (cases e) (auto simp: fm_serves_def stays_def posts_only_def)
  show "respond k rsp h = Inr h' \<Longrightarrow> fm_gives (radio_answers answers) rm_init_cbs (holds k) h h'" using respond_does by blast
  show "called_at_once answers cs h h' \<Longrightarrow> fm_gives (radio_answers answers) rm_init_cbs cs h h'"
    by (auto simp: called_at_once_def intro: fm_gives_emit)
qed simp

section \<open>Init callbacks\<close>

text \<open>Init callbacks wait only while the manager is not ready, and none was told anything but that it is.\<close>

definition inits_fine :: "(('j, 'o) net_event, ('j, 'n, 'k, 'a radio_answer) om_effect, 'z) radio_manager_scheme \<Rightarrow> bool" where
  "inits_fine h \<longleftrightarrow> (hstate h = St Ready \<longrightarrow> rm_init_cbs h = []) \<and>
     (\<forall>c st. Om_Answered (Init_Called c st) \<in> set (fm_out h) \<longrightarrow> st = SERVICE_AVAILABLE)"

context radio_service
begin

lemma dispatch_inits:
  assumes "kMaxNest < n" "hstate h = St s" "dispatch n (flat_handlers (nx_json X) rm_withdrawals rm_enterReady rm_exitReady (radio_idle idle) (radio_serve serve)) (User u) h = Inr h'"
    "inits_fine h"
  shows "inits_fine h'"
proof -
  let ?t = "track (net_up (nx_json X)) (flat_down (nx_json X) rm_withdrawals) u s"
  define calm where "calm = (\<lambda>g :: (('j, 'o radio_signal) net_event, ('j, 'n flat_note, 'k, 'a radio_answer) om_effect, 'z) radio_manager_scheme.
    \<forall>c st. Om_Answered (Init_Called c st) \<in> set (fm_out g) \<longrightarrow> st = SERVICE_AVAILABLE)"
  have quiet: "calm g \<Longrightarrow> init_quiet g g' \<Longrightarrow> calm g' \<and> rm_init_cbs g' = rm_init_cbs g" for g g'
    unfolding calm_def init_quiet_def by (metis Un_iff set_append)
  have tell: "calm (fm_tell st g) = calm g" "rm_init_cbs (fm_tell st g) = rm_init_cbs g" for st g
    by (auto simp: calm_def fm_tell_def fm_broadcastToListeners_def fm_emit_def fm_do_def fm_out_def Let_def)
  have stat: "fm_out (g\<lparr>fm_status := st\<rparr>) = fm_out g" for g st by (simp add: fm_out_def)
  have entry: "calm g \<Longrightarrow> calm (rm_enterReady g) \<and> rm_init_cbs (rm_enterReady g) = []" for g
    by (auto simp: rm_enterReady_def tell rm_fire_out fm_publishStatus_def) (auto simp: calm_def rm_fire_out stat)
  have exit: "calm g \<Longrightarrow> rm_init_cbs g = [] \<Longrightarrow> calm (rm_exitReady g) \<and> rm_init_cbs (rm_exitReady g) = []" for g
    by (simp add: rm_exitReady_def tell)
  have upd: "calm (g\<lparr>htemp := x\<rparr>) = calm g" "calm (g\<lparr>fm_status := st\<rparr>) = calm g" "calm (erase g) = calm g"
    "calm (g\<lparr>rm_init_cbs := cs\<rparr>) = calm g" "rm_init_cbs (erase g) = rm_init_cbs g" for g x st cs
    by (simp_all add: calm_def fm_out_def erase_def)
  have out: "calm (fm_emit (Om_Answered (Init_Called c SERVICE_AVAILABLE)) g) = calm g"
    "rm_init_cbs (fm_emit (Om_Answered (Init_Called c SERVICE_AVAILABLE)) g) = rm_init_cbs g" for c g
    by (auto simp: calm_def fm_emit_def fm_do_def fm_out_def)
  have "(calm h' \<and> (?t = Ready \<longrightarrow> rm_init_cbs h' = [])) \<and> hstate h' = St ?t"
  proof (rule dispatch_post [where P = "\<lambda>g. calm g \<and> (s = Ready \<longrightarrow> rm_init_cbs g = [])", OF assms(1-3)])
    show "calm h \<and> (s = Ready \<longrightarrow> rm_init_cbs h = [])" using assms(2,4) by (auto simp: inits_fine_def calm_def)
    fix g r h1
    assume g: "calm g \<and> (s = Ready \<longrightarrow> rm_init_cbs g = [])"
      and H: "flat_handlers (nx_json X) rm_withdrawals rm_enterReady rm_exitReady (radio_idle idle) (radio_serve serve) s (User u) g = Inr (r, h1)"
    have "calm h1 \<and> (s = Ready \<longrightarrow> rm_init_cbs h1 = [])"
    proof (cases u)
      case (N_Signal e)
      show ?thesis
      proof (cases e)
        case (SetInitCb_Signal c)
        with H N_Signal g show ?thesis by (cases s) (auto simp: upd out)
      next
        case (Radio_Signal x)
        with H N_Signal g quiet [of g h1] idle_does [of x g r h1] serve_does [of x g r h1] show ?thesis by (cases s) auto
      qed
    next
      case (N_ReadinessEvt_Signal env)
      show ?thesis
      proof (cases s)
        case NotReady
        with H N_ReadinessEvt_Signal fm_available_Inr [of "nx_json X" env g r h1] g upd show ?thesis by (simp split: if_splits)
      next
        case Ready
        with H N_ReadinessEvt_Signal fm_readiness_Inr [of "nx_json X" rm_withdrawals env g r h1] g upd show ?thesis
          by (cases "flat_withdrawn (nx_json X) rm_withdrawals u") simp_all
      qed
    next
      case (N_BridgeConnectivityChanged_Signal b)
      with H g upd show ?thesis by (cases s; cases b) (auto simp: fm_connectivity_eq)
    qed
    then show "calm (if ?t = s then h1 else at_ready rm_enterReady ?t (at_ready rm_exitReady s h1)) \<and>
        (?t = Ready \<longrightarrow> rm_init_cbs (if ?t = s then h1 else at_ready rm_enterReady ?t (at_ready rm_exitReady s h1)) = [])"
      using entry [of h1] exit [of h1] by (cases s; cases ?t) auto
  qed (simp_all add: upd)
  then show ?thesis by (auto simp: inits_fine_def calm_def)
qed

lemma radio_runs:
  assumes "flat_run (flat_handlers (nx_json X) rm_withdrawals rm_enterReady rm_exitReady (radio_idle idle) (radio_serve serve)) respond
      (called_at_once answers) rm_init_cbs (radio_carries carries) (\<lambda>_. []) holds X G P L D h" "kMaxNest < nx_loops X"
  shows "inits_fine h \<and> D = {#}"
  using assms
proof (induction rule: flat_run.induct)
  case (started ts h0 h)
  from flat_started [OF started.prems started(1-4)] have "hstate h = St NotReady" "nm_answered (radio_answers answers) (fm_out h) = []" by auto
  moreover from this(2) have "Om_Answered (Init_Called c st) \<notin> set (fm_out h)" for c st
    by (auto simp: nm_answered_def dest!: split_list)
  ultimately show ?case by (simp add: inits_fine_def)
next
  case (post G P L D h u)
  then show ?case by (simp add: inits_fine_def post_fifo_def fm_out_def)
next
  case (served G P L D h cs h')
  then show ?case by (auto simp: called_at_once_def inits_fine_def fm_emit_def fm_do_def fm_out_def)
next
  case (work G P L D h res h')
  have "stale (\<lambda>_. []) h = []" by (auto simp: stale_def split: list.split net_event.split)
  moreover obtain s where s: "hstate h = St s" using flat_accounts [OF work(1) work.prems] by blast
  moreover have "inits_fine h'"
  proof (cases "ao_q h")
    case Nil
    with work show ?thesis by (auto simp: run_step_def ao_pop_def)
  next
    case (Cons u us)
    with work(2) have d: "dispatch (nx_loops X) (flat_handlers (nx_json X) rm_withdrawals rm_enterReady rm_exitReady (radio_idle idle) (radio_serve serve))
        (User u) (h\<lparr>ao_q := us\<rparr>) = Inr h'"
      by (auto simp: run_step_def ao_pop_def bindE_eq_Inr)
    have "hstate (h\<lparr>ao_q := us\<rparr>) = St s" using s by simp
    moreover have "inits_fine (h\<lparr>ao_q := us\<rparr>)" using work by (simp add: inits_fine_def fm_out_def)
    ultimately show ?thesis using dispatch_inits [OF work.prems _ d] by blast
  qed
  ultimately show ?case using work by simp
next
  case (reply G k P L D h rsp h')
  from respond_does [OF reply(2)] have "init_quiet h h'" "hstate h' = hstate h" by (auto simp: fm_gives_def)
  with reply(3) [OF reply.prems] show ?case by (auto simp: inits_fine_def init_quiet_def)
qed (auto simp: inits_fine_def fm_out_def)

end

end
