(* ===== verification/Tel_Netsel.thy ===== *)
theory Tel_Netsel
  imports Radio_Shell
begin

text \<open>
  \<open>SimulaNetworkSelectionManager\<close> of \<open>component/tel/NetworkSelectionManager.cpp\<close>.
\<close>

section \<open>Data\<close>

datatype selection_mode = SEL_UNKNOWN | SEL_AUTOMATIC | SEL_MANUAL

record mode_info =
  mi_mode :: selection_mode
  mi_mcc :: string
  mi_mnc :: string

text \<open>\<open>NetworkModeInfo{}\<close>: the mode is the enumerator with value 0.\<close>

definition no_mode_info :: mode_info where
  "no_mode_info = \<lparr>mi_mode = SEL_AUTOMATIC, mi_mcc = [], mi_mnc = []\<rparr>"

datatype netsel_signal =
    SetNetworkSelectionMode_Signal selection_mode string string "nat option"
  | RequestNetworkSelectionModeInfo_Signal "nat option"
  | RequestNetworkSelectionMode_Signal "nat option"

datatype netsel_cont = K_Netsel_Set "nat option" | K_Netsel_Info "nat option" | K_Netsel_Mode "nat option"

text \<open>The last two are the answers of operations that are not supported: preferred networks and the result of a scan.\<close>

datatype netsel_answer =
    Netsel_Response nat error_code
  | Netsel_Info nat mode_info error_code
  | Netsel_Mode nat selection_mode error_code
  | Preferred_Networks nat error_code
  | Network_Scan nat error_code

type_synonym 'j netsel_manager =
  "(('j, netsel_signal radio_signal) net_event, ('j, unit flat_note, netsel_cont, netsel_answer radio_answer) om_effect) radio_manager"

definition wireToNetworkSelectionMode :: "string \<Rightarrow> selection_mode" where
  "wireToNetworkSelectionMode s = (if s = ''AUTOMATIC'' then SEL_AUTOMATIC else if s = ''MANUAL'' then SEL_MANUAL else SEL_UNKNOWN)"

fun networkSelectionModeToWire :: "selection_mode \<Rightarrow> string" where
  "networkSelectionModeToWire SEL_AUTOMATIC = ''AUTOMATIC''"
| "networkSelectionModeToWire SEL_MANUAL = ''MANUAL''"
| "networkSelectionModeToWire _ = ''UNKNOWN''"

section \<open>State handlers\<close>

fun netsel_idle :: "netsel_signal \<Rightarrow> 'j netsel_manager \<Rightarrow> (status \<times> 'j netsel_manager) result" where
  "netsel_idle (SetNetworkSelectionMode_Signal m mcc mnc cb) h =
     Inr (HANDLED, fm_answer (\<lambda>c. Reply (Netsel_Response c EC_SUBSYSTEM_UNAVAILABLE)) cb h)"
| "netsel_idle (RequestNetworkSelectionModeInfo_Signal cb) h =
     Inr (HANDLED, fm_answer (\<lambda>c. Reply (Netsel_Info c no_mode_info EC_SUBSYSTEM_UNAVAILABLE)) cb h)"
| "netsel_idle (RequestNetworkSelectionMode_Signal cb) h =
     Inr (HANDLED, fm_answer (\<lambda>c. Reply (Netsel_Mode c SEL_AUTOMATIC EC_SUBSYSTEM_UNAVAILABLE)) cb h)"

definition mode_members :: "'j json_lib \<Rightarrow> selection_mode \<Rightarrow> string \<Rightarrow> string \<Rightarrow> (string \<times> 'j) list" where
  "mode_members J m mcc mnc =
     [(''mode'', j_of_string J (networkSelectionModeToWire m)), (''mcc'', j_of_string J mcc), (''mnc'', j_of_string J mnc)]"

fun netsel_serve :: "'j net_ext \<Rightarrow> netsel_signal \<Rightarrow> 'j netsel_manager \<Rightarrow> (status \<times> 'j netsel_manager) result" where
  "netsel_serve X (SetNetworkSelectionMode_Signal m mcc mnc cb) h =
     Inr (HANDLED, fm_request X ''radio.set_network_selection_mode.req'' ''radio.set_network_selection_mode.rsp''
       (mode_members (nx_json X) m mcc mnc @ [(''slot'', j_of_int (nx_json X) (fm_slotId h))]) (K_Netsel_Set cb) h)"
| "netsel_serve X (RequestNetworkSelectionModeInfo_Signal cb) h =
     Inr (HANDLED, fm_request X ''radio.request_network_selection_mode.req'' ''radio.request_network_selection_mode.rsp''
       [(''slot'', j_of_int (nx_json X) (fm_slotId h))] (K_Netsel_Info cb) h)"
| "netsel_serve X (RequestNetworkSelectionMode_Signal cb) h =
     Inr (HANDLED, fm_request X ''radio.request_network_selection_mode.req'' ''radio.request_network_selection_mode.rsp''
       [(''slot'', j_of_int (nx_json X) (fm_slotId h))] (K_Netsel_Mode cb) h)"

definition NetSelNotReady_St :: "'j net_ext \<Rightarrow> ('j, netsel_signal radio_signal) net_event event \<Rightarrow> 'j netsel_manager \<Rightarrow> (status \<times> 'j netsel_manager) result" where
  "NetSelNotReady_St X = flat_NotReady_St (nx_json X) (radio_idle netsel_idle)"

definition NetSelReady_St :: "'j net_ext \<Rightarrow> ('j, netsel_signal radio_signal) net_event event \<Rightarrow> 'j netsel_manager \<Rightarrow> (status \<times> 'j netsel_manager) result" where
  "NetSelReady_St X = flat_Ready_St (nx_json X) rm_withdrawals rm_enterReady rm_exitReady (radio_serve (netsel_serve X))"

fun netsel_handlers :: "'j net_ext \<Rightarrow> rstate \<Rightarrow> ('j, netsel_signal radio_signal) net_event event \<Rightarrow> 'j netsel_manager \<Rightarrow> (status \<times> 'j netsel_manager) result" where
  "netsel_handlers X NotReady = NetSelNotReady_St X"
| "netsel_handlers X Ready = NetSelReady_St X"

definition read_mode_info :: "'j json_lib \<Rightarrow> 'j \<Rightarrow> mode_info result" where
  "read_mode_info J d =
     bindE (value_string J d ''mode'') (\<lambda>m.
     bindE (value_string J d ''mcc'') (\<lambda>mcc.
     bindE (value_string J d ''mnc'') (\<lambda>mnc.
       Inr \<lparr>mi_mode = wireToNetworkSelectionMode m, mi_mcc = mcc, mi_mnc = mnc\<rparr>)))"

fun netsel_response :: "'j net_ext \<Rightarrow> netsel_cont \<Rightarrow> 'j envelope option \<Rightarrow> 'j netsel_manager \<Rightarrow> 'j netsel_manager result" where
  "netsel_response X (K_Netsel_Set cb) rsp h = Inr (fm_complete (\<lambda>c er. Reply (Netsel_Response c er)) cb rsp h)"
| "netsel_response X (K_Netsel_Info cb) rsp h =
     fm_completeQuery (read_mode_info (nx_json X)) (\<lambda>c v er. Reply (Netsel_Info c v er)) no_mode_info cb rsp h"
| "netsel_response X (K_Netsel_Mode cb) rsp h =
     fm_completeQuery (\<lambda>d. bindE (value_string (nx_json X) d ''mode'') (\<lambda>m. Inr (wireToNetworkSelectionMode m)))
       (\<lambda>c v er. Reply (Netsel_Mode c v er)) SEL_UNKNOWN cb rsp h"

section \<open>The manager\<close>

definition netsel_new :: "int \<Rightarrow> nat option \<Rightarrow> 'j netsel_manager" where
  "netsel_new slot initCb = rm_new ''NetworkSelectionManager'' slot initCb ()"

definition netsel_topics :: "'j net_ext \<Rightarrow> (string \<times> string) list" where
  "netsel_topics X = named_topics X [''radio.subsys_ready_netsel.ind'']"

definition netsel_start :: "'j net_ext \<Rightarrow> 'j netsel_manager \<Rightarrow> 'j netsel_manager result" where
  "netsel_start X = fm_start X (netsel_topics X) (netsel_handlers X)"

definition netsel_unsubscribeFromBridge :: "'j net_ext \<Rightarrow> 'j netsel_manager \<Rightarrow> 'j netsel_manager" where
  "netsel_unsubscribeFromBridge X = fm_unsubscribe (map fst (netsel_topics X))"

definition netsel_destroy :: "nat \<Rightarrow> 'j net_ext \<Rightarrow> 'j netsel_manager \<Rightarrow> 'j netsel_manager result" where
  "netsel_destroy k X h = stop k (nx_loops X) (netsel_handlers X) False (netsel_unsubscribeFromBridge X h)"

text \<open>The indication is read once on the bridge's thread, for the log, before it is posted.\<close>

definition netsel_handleReadinessInd :: "'j json_lib \<Rightarrow> 'j envelope \<Rightarrow> 'j netsel_manager \<Rightarrow> 'j netsel_manager result" where
  "netsel_handleReadinessInd J env h =
     bindE (case env_data env of None \<Rightarrow> Inr [] | Some d \<Rightarrow> value_string J d ''status'') (\<lambda>_.
       Inr (post_fifo (N_ReadinessEvt_Signal env) h))"

definition netsel_setInitCallback :: "nat option \<Rightarrow> 'j netsel_manager \<Rightarrow> 'j netsel_manager" where
  "netsel_setInitCallback = rm_setInitCallback"

definition requestNetworkSelectionMode_info :: "nat option \<Rightarrow> 'j netsel_manager \<Rightarrow> api_status \<times> 'j netsel_manager" where
  "requestNetworkSelectionMode_info cb = fm_post (N_Signal (Radio_Signal (RequestNetworkSelectionModeInfo_Signal cb)))"

definition requestNetworkSelectionMode :: "nat option \<Rightarrow> 'j netsel_manager \<Rightarrow> api_status \<times> 'j netsel_manager" where
  "requestNetworkSelectionMode cb = fm_post (N_Signal (Radio_Signal (RequestNetworkSelectionMode_Signal cb)))"

definition setNetworkSelectionMode :: "selection_mode \<Rightarrow> string \<Rightarrow> string \<Rightarrow> nat option \<Rightarrow> 'j netsel_manager \<Rightarrow> api_status \<times> 'j netsel_manager" where
  "setNetworkSelectionMode m mcc mnc cb = fm_post (N_Signal (Radio_Signal (SetNetworkSelectionMode_Signal m mcc mnc cb)))"

text \<open>Not supported: the callback is called at once.\<close>

definition requestPreferredNetworks :: "nat option \<Rightarrow> 'j netsel_manager \<Rightarrow> api_status \<times> 'j netsel_manager" where
  "requestPreferredNetworks cb h = (NOTSUPPORTED, fm_answer (\<lambda>c. Reply (Preferred_Networks c EC_NOT_SUPPORTED)) cb h)"

definition setPreferredNetworks :: "nat option \<Rightarrow> 'j netsel_manager \<Rightarrow> api_status \<times> 'j netsel_manager" where
  "setPreferredNetworks cb h = (NOTSUPPORTED, fm_answer (\<lambda>c. Reply (Netsel_Response c EC_NOT_SUPPORTED)) cb h)"

definition performNetworkScan :: "nat option \<Rightarrow> 'j netsel_manager \<Rightarrow> api_status \<times> 'j netsel_manager" where
  "performNetworkScan cb h = (NOTSUPPORTED, fm_answer (\<lambda>c. Reply (Network_Scan c EC_NOT_SUPPORTED)) cb h)"

definition performNetworkScan_info :: "nat option \<Rightarrow> 'j netsel_manager \<Rightarrow> api_status \<times> 'j netsel_manager" where
  "performNetworkScan_info cb h = (NOTSUPPORTED, fm_answer (\<lambda>c. Reply (Netsel_Response c EC_NOT_SUPPORTED)) cb h)"

definition abortNetworkScan :: "'j netsel_manager \<Rightarrow> error_code" where "abortNetworkScan h = EC_NOT_SUPPORTED"
definition setLteDubiousCell :: "'j netsel_manager \<Rightarrow> error_code" where "setLteDubiousCell h = EC_NOT_SUPPORTED"
definition setNrDubiousCell :: "'j netsel_manager \<Rightarrow> error_code" where "setNrDubiousCell h = EC_NOT_SUPPORTED"

section \<open>What holds\<close>

fun netsel_carries :: "netsel_signal \<Rightarrow> nat list" where
  "netsel_carries (SetNetworkSelectionMode_Signal m mcc mnc cb) = opt_list cb"
| "netsel_carries (RequestNetworkSelectionModeInfo_Signal cb) = opt_list cb"
| "netsel_carries (RequestNetworkSelectionMode_Signal cb) = opt_list cb"

fun netsel_holds :: "netsel_cont \<Rightarrow> nat list" where
  "netsel_holds (K_Netsel_Set cb) = opt_list cb"
| "netsel_holds (K_Netsel_Info cb) = opt_list cb"
| "netsel_holds (K_Netsel_Mode cb) = opt_list cb"

fun netsel_answers :: "netsel_answer \<Rightarrow> nat list" where
  "netsel_answers (Netsel_Response c er) = [c]"
| "netsel_answers (Netsel_Info c v er) = [c]"
| "netsel_answers (Netsel_Mode c v er) = [c]"
| "netsel_answers (Preferred_Networks c er) = [c]"
| "netsel_answers (Network_Scan c er) = [c]"

lemma netsel_handlers_flat:
  "netsel_handlers X = flat_handlers (nx_json X) rm_withdrawals rm_enterReady rm_exitReady (radio_idle netsel_idle) (radio_serve (netsel_serve X))"
proof
  fix s
  show "netsel_handlers X s = flat_handlers (nx_json X) rm_withdrawals rm_enterReady rm_exitReady (radio_idle netsel_idle) (radio_serve (netsel_serve X)) s"
    by (cases s) (simp_all add: NetSelNotReady_St_def NetSelReady_St_def)
qed

interpretation netsel: radio_service X netsel_idle "netsel_serve X" "netsel_response X" netsel_carries netsel_holds netsel_answers
  for X :: "'j net_ext"
proof unfold_locales
  fix e k rsp r and h h' :: "'j netsel_manager"
  show "netsel_idle e h = Inr (r, h') \<Longrightarrow> init_quiet h h' \<and>
      (r = HANDLED \<and> fm_gives (radio_answers netsel_answers) rm_init_cbs (netsel_carries e) h h' \<or> netsel_carries e = [] \<and> (r, h') = super_st Top_St h)"
    by (cases e) (auto intro!: fm_gives_answer)
  show "netsel_serve X e h = Inr (r, h') \<Longrightarrow> init_quiet h h' \<and> r = HANDLED \<and>
      fm_serves (radio_answers netsel_answers) netsel_holds rm_init_cbs (netsel_carries e) h h'"
    by (cases e) (auto intro!: fm_serves_request)
  show "netsel_response X k rsp h = Inr h' \<Longrightarrow> init_quiet h h' \<and> fm_gives (radio_answers netsel_answers) rm_init_cbs (netsel_holds k) h h'"
    by (cases k) (auto intro: fm_gives_query fm_gives_complete init_quiet_query)
qed

lemma netsel_wire: "wireToNetworkSelectionMode (networkSelectionModeToWire m) = m"
  by (cases m) (simp_all add: wireToNetworkSelectionMode_def)

text \<open>C30: the clients of the network selection manager, operations and init callbacks together, are accounted for.
  In every run, the callbacks handed over, the constructor's among them, are those that were called, those
  of signals still queued, those of requests with the bridge, those whose response made the callback throw,
  and the init callbacks that wait for the first readiness, with multiplicity: a callback is lost only to a response that threw, and no operation is dropped. Init
  callbacks wait only while the manager is not ready, and whoever is called is told that it is available:
  the branch that fails waiting callbacks when readiness is lost is never taken.\<close>

theorem netsel_clients_served:
  assumes "flat_run (netsel_handlers X) (netsel_response X) (called_at_once netsel_answers) rm_init_cbs (radio_carries netsel_carries) (\<lambda>_. [])
      netsel_holds X G P L D h" "kMaxNest < nx_loops X"
  shows "G = mset (nm_answered (radio_answers netsel_answers) (fm_out h)) + (\<Sum>k\<in>#P. mset (netsel_holds k)) + L +
      mset (nm_waiting (radio_carries netsel_carries) (ao_q h)) + mset (rm_init_cbs h) \<and>
    D = {#} \<and> inits_fine h"
  using netsel.flat_accounts [OF assms(1) [unfolded netsel_handlers_flat] assms(2)] netsel.radio_runs [OF assms(1) [unfolded netsel_handlers_flat] assms(2)]
  by simp

text \<open>The manager is created with one init callback, gets a second one before it is ready, and gets ready.\<close>

definition demo_ns0 :: "jtree netsel_manager" where
  "demo_ns0 = projr (netsel_start demo_nx (netsel_new 1 (Some 4)))"

definition demo_ns1 :: "jtree netsel_manager" where
  "demo_ns1 = flat_work (netsel_handlers demo_nx) (netsel_setInitCallback (Some 5) demo_ns0)"

definition demo_ns2 :: "jtree netsel_manager" where
  "demo_ns2 = flat_work (netsel_handlers demo_nx) (post_fifo (N_ReadinessEvt_Signal demo_net_up) demo_ns1)"

lemma demo_ns_runs:
  "map_sum id (\<lambda>_. ()) (netsel_start demo_nx (netsel_new 1 (Some 4))) = Inr ()" "ao_running demo_ns0" "ao_running demo_ns1"
  "\<not> fm_isReadyDerived demo_ns0" "rm_init_cbs demo_ns1 = [4, 5]"
  "map_sum id fst (run_step 9 (netsel_handlers demo_nx) (netsel_setInitCallback (Some 5) demo_ns0)) = Inr Dispatched"
  "map_sum id fst (run_step 9 (netsel_handlers demo_nx) (post_fifo (N_ReadinessEvt_Signal demo_net_up) demo_ns1)) = Inr Dispatched"
  "nm_sent (drop (length (fm_out (netsel_setInitCallback (Some 5) demo_ns0))) (fm_out demo_ns1)) = []"
  "nm_sent (drop (length (fm_out (post_fifo (N_ReadinessEvt_Signal demo_net_up) demo_ns1))) (fm_out demo_ns2)) = []"
  "nm_answered (radio_answers netsel_answers) (fm_out demo_ns2) = [4, 5]" "ao_q demo_ns2 = []" "rm_init_cbs demo_ns2 = []"
  by code_simp+

lemma demo_ns_run:
  "flat_run (netsel_handlers demo_nx) (netsel_response demo_nx) (called_at_once netsel_answers) rm_init_cbs (radio_carries netsel_carries) (\<lambda>_. [])
     netsel_holds demo_nx {#4, 5#} {#} {#} {#} demo_ns2"
proof -
  let ?run = "flat_run (netsel_handlers demo_nx) (netsel_response demo_nx) (called_at_once netsel_answers) rm_init_cbs (radio_carries netsel_carries) (\<lambda>_. [])
     netsel_holds demo_nx"
  have none: "stale (\<lambda>_. []) h = []" for h :: "jtree netsel_manager" by (auto simp: stale_def split: list.split net_event.split)
  have "netsel_start demo_nx (netsel_new 1 (Some 4)) = Inr demo_ns0"
    using demo_ns_runs(1) unfolding demo_ns0_def by (cases "netsel_start demo_nx (netsel_new 1 (Some 4))") auto
  then have "?run (mset (rm_init_cbs (netsel_new 1 (Some 4) :: jtree netsel_manager))) {#} {#} {#} demo_ns0"
    unfolding netsel_start_def by (rule flat_run.started) (simp_all add: netsel_new_def rm_new_def fm_out_def)
  then have r0: "?run {#4#} {#} {#} {#} demo_ns0" by (simp add: netsel_new_def rm_new_def)
  have p: "netsel_setInitCallback (Some 5) demo_ns0 = post_fifo (N_Signal (SetInitCb_Signal 5)) demo_ns0"
    using demo_ns_runs(4) by (simp add: netsel_setInitCallback_def rm_setInitCallback_def)
  from flat_run.post [OF r0 demo_ns_runs(2), of "N_Signal (SetInitCb_Signal 5)"] p
  have "?run {#4, 5#} {#} {#} {#} (netsel_setInitCallback (Some 5) demo_ns0)" by (simp add: add_mset_commute)
  from flat_work_run [OF this demo_ns_runs(6) demo_ns_runs(8) [unfolded demo_ns1_def] none, folded demo_ns1_def]
  have r1: "?run {#4, 5#} {#} {#} {#} demo_ns1" by simp
  from flat_run.post [OF r1 demo_ns_runs(3), of "N_ReadinessEvt_Signal demo_net_up"]
  have "?run {#4, 5#} {#} {#} {#} (post_fifo (N_ReadinessEvt_Signal demo_net_up) demo_ns1)" by simp
  from flat_work_run [OF this demo_ns_runs(7) demo_ns_runs(9) [unfolded demo_ns2_def] none, folded demo_ns2_def]
  show ?thesis by simp
qed

theorem netsel_clients_served_witness:
  "{#4, 5#} = mset (nm_answered (radio_answers netsel_answers) (fm_out demo_ns2)) + (\<Sum>k\<in>#{#}. mset (netsel_holds k)) + {#} +
      mset (nm_waiting (radio_carries netsel_carries) (ao_q demo_ns2)) + mset (rm_init_cbs demo_ns2) \<and>
    {#} = ({#} :: nat multiset) \<and> inits_fine demo_ns2"
  by (rule netsel_clients_served [OF demo_ns_run demo_nx_loops(1)])

text \<open>Operations that the manager answers at once are among the direct calls of runs.\<close>

lemma netsel_at_once:
  "called_at_once netsel_answers [c] h (snd (requestPreferredNetworks (Some c) h))" "called_at_once netsel_answers [c] h (snd (setPreferredNetworks (Some c) h))"
  "called_at_once netsel_answers [c] h (snd (performNetworkScan (Some c) h))" "called_at_once netsel_answers [c] h (snd (performNetworkScan_info (Some c) h))"
  "fm_isReadyDerived h \<Longrightarrow> called_at_once netsel_answers [c] h (netsel_setInitCallback (Some c) h)"
  by (auto simp: called_at_once_def requestPreferredNetworks_def setPreferredNetworks_def performNetworkScan_def performNetworkScan_info_def
      netsel_setInitCallback_def rm_setInitCallback_def fm_isReadyDerived_def fm_answer_def intro!: exI [of _ "_ c _"])

text \<open>The mode that is set is the mode that a response in the same form reports.\<close>

lemma mode_roundtrip:
  assumes "json_ok J"
  shows "read_mode_info J (j_members J (mode_members J m mcc mnc)) = Inr \<lparr>mi_mode = m, mi_mcc = mcc, mi_mnc = mnc\<rparr>"
  using assms by (simp add: read_mode_info_def mode_members_def netsel_wire written)

end
