(* ===== verification/Tel_Serving.thy ===== *)
theory Tel_Serving
  imports Radio_Shell
begin

text \<open>
  \<open>SimulaTelServingSystemManager\<close> of \<open>component/tel/ServingSystemManager.cpp\<close>: it answers system
  information, dual connectivity and CS capability from what the modem indicated last, and passes
  preferences of radio technologies and queries of the band to the modem.
\<close>

unbundle bit_operations_syntax

section \<open>Data\<close>

datatype radio_technology =
    RADIO_TECH_UNKNOWN | RADIO_TECH_GPRS | RADIO_TECH_EDGE | RADIO_TECH_UMTS | RADIO_TECH_IS95A | RADIO_TECH_IS95B | RADIO_TECH_1xRTT
  | RADIO_TECH_EVDO_0 | RADIO_TECH_EVDO_A | RADIO_TECH_HSDPA | RADIO_TECH_HSUPA | RADIO_TECH_HSPA | RADIO_TECH_EVDO_B | RADIO_TECH_EHRPD
  | RADIO_TECH_LTE | RADIO_TECH_HSPAP | RADIO_TECH_GSM | RADIO_TECH_TD_SCDMA | RADIO_TECH_IWLAN | RADIO_TECH_LTE_CA | RADIO_TECH_NR5G
  | RADIO_TECH_NB1_NTN

datatype service_domain = DOM_UNKNOWN | DOM_NO_SRV | DOM_CS_ONLY | DOM_PS_ONLY | DOM_CS_PS | DOM_CAMPED

datatype registration = REG_UNKNOWN | REG_NO_SERVICE | REG_LIMITED_SERVICE | REG_IN_SERVICE | REG_LIMITED_REGIONAL | REG_POWER_SAVE

datatype endc = ENDC_UNKNOWN | ENDC_AVAILABLE | ENDC_UNAVAILABLE

datatype dcnr = DCNR_UNKNOWN | DCNR_RESTRICTED | DCNR_UNRESTRICTED

datatype lte_cs = CS_UNKNOWN | CS_FULL_SERVICE | CS_CSFB_NOT_PREFERRED | CS_SMS_ONLY | CS_LIMITED | CS_BARRED

datatype rat_pref =
    PREF_CDMA_1X | PREF_CDMA_EVDO | PREF_GSM | PREF_WCDMA | PREF_LTE | PREF_TDSCDMA | PREF_NR5G | PREF_NR5G_NSA | PREF_NR5G_SA | PREF_NB1_NTN

record system_info =
  si_rat :: radio_technology
  si_domain :: service_domain
  si_state :: registration

record dc_status =
  dcs_endcAvailability :: endc
  dcs_dcnrRestriction :: dcnr

text \<open>A band and a bandwidth are the values of their enumerators.\<close>

record band_info =
  bi_band :: int
  bi_channel :: "32 word"
  bi_bandWidth :: int

text \<open>\<open>ServingSystemInfo{}\<close> and \<open>RFBandInfo{}\<close>: enumerators with value 0; and the initial members.\<close>

definition no_system_info :: system_info where
  "no_system_info = \<lparr>si_rat = RADIO_TECH_UNKNOWN, si_domain = DOM_NO_SRV, si_state = REG_NO_SERVICE\<rparr>"

definition no_band_info :: band_info where
  "no_band_info = \<lparr>bi_band = 0, bi_channel = 0, bi_bandWidth = 0\<rparr>"

definition no_dc_status :: dc_status where
  "no_dc_status = \<lparr>dcs_endcAvailability = ENDC_UNKNOWN, dcs_dcnrRestriction = DCNR_UNKNOWN\<rparr>"

text \<open>The enumerators of \<open>RFBand\<close> and \<open>RFBandWidth\<close> with their values.\<close>

definition rf_bands :: "(string \<times> int) list" where
  "rf_bands =
     [(''INVALID'', -1), (''BC_0'', 0), (''BC_1'', 1), (''BC_3'', 3), (''BC_4'', 4),
      (''BC_5'', 5), (''BC_6'', 6), (''BC_7'', 7), (''BC_8'', 8), (''BC_9'', 9),
      (''BC_10'', 10), (''BC_11'', 11), (''BC_12'', 12), (''BC_13'', 13), (''BC_14'', 14),
      (''BC_15'', 15), (''BC_16'', 16), (''BC_17'', 17), (''BC_18'', 18), (''BC_19'', 19),
      (''GSM_450'', 40), (''GSM_480'', 41), (''GSM_750'', 42), (''GSM_850'', 43), (''GSM_900_EXTENDED'', 44),
      (''GSM_900_PRIMARY'', 45), (''GSM_900_RAILWAYS'', 46), (''GSM_1800'', 47), (''GSM_1900'', 48), (''WCDMA_2100'', 80),
      (''WCDMA_PCS_1900'', 81), (''WCDMA_DCS_1800'', 82), (''WCDMA_1700_US'', 83), (''WCDMA_850'', 84), (''WCDMA_800'', 85),
      (''WCDMA_2600'', 86), (''WCDMA_900'', 87), (''WCDMA_1700_JAPAN'', 88), (''WCDMA_1500_JAPAN'', 90), (''WCDMA_850_JAPAN'', 91),
      (''E_UTRA_OPERATING_BAND_1'', 120), (''E_UTRA_OPERATING_BAND_2'', 121), (''E_UTRA_OPERATING_BAND_3'', 122), (''E_UTRA_OPERATING_BAND_4'', 123), (''E_UTRA_OPERATING_BAND_5'', 124),
      (''E_UTRA_OPERATING_BAND_6'', 125), (''E_UTRA_OPERATING_BAND_7'', 126), (''E_UTRA_OPERATING_BAND_8'', 127), (''E_UTRA_OPERATING_BAND_9'', 128), (''E_UTRA_OPERATING_BAND_10'', 129),
      (''E_UTRA_OPERATING_BAND_11'', 130), (''E_UTRA_OPERATING_BAND_12'', 131), (''E_UTRA_OPERATING_BAND_13'', 132), (''E_UTRA_OPERATING_BAND_14'', 133), (''E_UTRA_OPERATING_BAND_17'', 134),
      (''E_UTRA_OPERATING_BAND_33'', 135), (''E_UTRA_OPERATING_BAND_34'', 136), (''E_UTRA_OPERATING_BAND_35'', 137), (''E_UTRA_OPERATING_BAND_36'', 138), (''E_UTRA_OPERATING_BAND_37'', 139),
      (''E_UTRA_OPERATING_BAND_38'', 140), (''E_UTRA_OPERATING_BAND_39'', 141), (''E_UTRA_OPERATING_BAND_40'', 142), (''E_UTRA_OPERATING_BAND_18'', 143), (''E_UTRA_OPERATING_BAND_19'', 144),
      (''E_UTRA_OPERATING_BAND_20'', 145), (''E_UTRA_OPERATING_BAND_21'', 146), (''E_UTRA_OPERATING_BAND_24'', 147), (''E_UTRA_OPERATING_BAND_25'', 148), (''E_UTRA_OPERATING_BAND_41'', 149),
      (''E_UTRA_OPERATING_BAND_42'', 150), (''E_UTRA_OPERATING_BAND_43'', 151), (''E_UTRA_OPERATING_BAND_23'', 152), (''E_UTRA_OPERATING_BAND_26'', 153), (''E_UTRA_OPERATING_BAND_32'', 154),
      (''E_UTRA_OPERATING_BAND_125'', 155), (''E_UTRA_OPERATING_BAND_126'', 156), (''E_UTRA_OPERATING_BAND_127'', 157), (''E_UTRA_OPERATING_BAND_28'', 158), (''E_UTRA_OPERATING_BAND_29'', 159),
      (''E_UTRA_OPERATING_BAND_30'', 160), (''E_UTRA_OPERATING_BAND_66'', 161), (''E_UTRA_OPERATING_BAND_250'', 162), (''E_UTRA_OPERATING_BAND_46'', 163), (''E_UTRA_OPERATING_BAND_27'', 164),
      (''E_UTRA_OPERATING_BAND_31'', 165), (''E_UTRA_OPERATING_BAND_71'', 166), (''E_UTRA_OPERATING_BAND_47'', 167), (''E_UTRA_OPERATING_BAND_48'', 168), (''E_UTRA_OPERATING_BAND_67'', 169),
      (''E_UTRA_OPERATING_BAND_68'', 170), (''E_UTRA_OPERATING_BAND_49'', 171), (''E_UTRA_OPERATING_BAND_85'', 172), (''E_UTRA_OPERATING_BAND_72'', 173), (''E_UTRA_OPERATING_BAND_73'', 174),
      (''E_UTRA_OPERATING_BAND_86'', 175), (''E_UTRA_OPERATING_BAND_53'', 176), (''E_UTRA_OPERATING_BAND_87'', 177), (''E_UTRA_OPERATING_BAND_88'', 178), (''E_UTRA_OPERATING_BAND_70'', 179),
      (''TDSCDMA_BAND_A'', 200), (''TDSCDMA_BAND_B'', 201), (''TDSCDMA_BAND_C'', 202), (''TDSCDMA_BAND_D'', 203), (''TDSCDMA_BAND_E'', 204),
      (''TDSCDMA_BAND_F'', 205), (''NR5G_BAND_1'', 250), (''NR5G_BAND_2'', 251), (''NR5G_BAND_3'', 252), (''NR5G_BAND_5'', 253),
      (''NR5G_BAND_7'', 254), (''NR5G_BAND_8'', 255), (''NR5G_BAND_20'', 256), (''NR5G_BAND_28'', 257), (''NR5G_BAND_38'', 258),
      (''NR5G_BAND_41'', 259), (''NR5G_BAND_50'', 260), (''NR5G_BAND_51'', 261), (''NR5G_BAND_66'', 262), (''NR5G_BAND_70'', 263),
      (''NR5G_BAND_71'', 264), (''NR5G_BAND_74'', 265), (''NR5G_BAND_75'', 266), (''NR5G_BAND_76'', 267), (''NR5G_BAND_77'', 268),
      (''NR5G_BAND_78'', 269), (''NR5G_BAND_79'', 270), (''NR5G_BAND_80'', 271), (''NR5G_BAND_81'', 272), (''NR5G_BAND_82'', 273),
      (''NR5G_BAND_83'', 274), (''NR5G_BAND_84'', 275), (''NR5G_BAND_85'', 276), (''NR5G_BAND_257'', 277), (''NR5G_BAND_258'', 278),
      (''NR5G_BAND_259'', 279), (''NR5G_BAND_260'', 280), (''NR5G_BAND_261'', 281), (''NR5G_BAND_12'', 282), (''NR5G_BAND_25'', 283),
      (''NR5G_BAND_34'', 284), (''NR5G_BAND_39'', 285), (''NR5G_BAND_40'', 286), (''NR5G_BAND_65'', 287), (''NR5G_BAND_86'', 288),
      (''NR5G_BAND_48'', 289), (''NR5G_BAND_14'', 290), (''NR5G_BAND_13'', 291), (''NR5G_BAND_18'', 292), (''NR5G_BAND_26'', 293),
      (''NR5G_BAND_30'', 294), (''NR5G_BAND_29'', 295), (''NR5G_BAND_53'', 296), (''NR5G_BAND_46'', 297), (''NR5G_BAND_91'', 298),
      (''NR5G_BAND_92'', 299), (''NR5G_BAND_93'', 300), (''NR5G_BAND_94'', 301)]"

definition rf_band_widths :: "(string \<times> int) list" where
  "rf_band_widths =
     [(''INVALID_BANDWIDTH'', -1), (''LTE_BW_NRB_6'', 0), (''LTE_BW_NRB_15'', 1), (''LTE_BW_NRB_25'', 2), (''LTE_BW_NRB_50'', 3),
      (''LTE_BW_NRB_75'', 4), (''LTE_BW_NRB_100'', 5), (''NR5G_BW_NRB_5'', 6), (''NR5G_BW_NRB_10'', 7), (''NR5G_BW_NRB_15'', 8),
      (''NR5G_BW_NRB_20'', 9), (''NR5G_BW_NRB_25'', 10), (''NR5G_BW_NRB_30'', 11), (''NR5G_BW_NRB_40'', 12), (''NR5G_BW_NRB_50'', 13),
      (''NR5G_BW_NRB_60'', 14), (''NR5G_BW_NRB_80'', 15), (''NR5G_BW_NRB_90'', 16), (''NR5G_BW_NRB_100'', 17), (''NR5G_BW_NRB_200'', 18),
      (''NR5G_BW_NRB_400'', 19), (''GSM_BW_NRB_2'', 20), (''TDSCDMA_BW_NRB_2'', 21), (''WCDMA_BW_NRB_5'', 22), (''WCDMA_BW_NRB_10'', 23),
      (''NR5G_BW_NRB_70'', 24)]"

datatype 'j telserv_signal =
    SetRatPreference_Signal "16 word" "nat option"
  | RequestRatPreference_Signal "nat option"
  | RequestRFBandInfo_Signal "nat option"
  | SysInfoEvt_Signal "'j envelope"
  | RatPrefEvt_Signal "'j envelope"
  | DcStatusEvt_Signal "'j envelope"
  | LteCsCapabilityEvt_Signal "'j envelope"

datatype telserv_cont = K_Rat_Set "nat option" | K_Rat_Preference "nat option" | K_Rf_Band "nat option"

datatype telserv_answer = Rat_Set nat error_code | Rat_Preference nat "16 word" error_code | Rf_Band_Info nat band_info error_code

datatype telserv_note = On_System_Info system_info | On_Dc_Status dc_status | On_Lte_Cs lte_cs | On_Rat_Preference "16 word"

record ('u, 'x) telserv_manager = "('u, 'x) radio_manager" +
  tv_sys_info :: system_info
  tv_dc_status :: dc_status
  tv_lte_cs_capability :: lte_cs

type_synonym 'j telserv_mgr =
  "(('j, 'j telserv_signal radio_signal) net_event, ('j, telserv_note flat_note, telserv_cont, telserv_answer radio_answer) om_effect) telserv_manager"

section \<open>The wire\<close>

definition wireToRadioTechnology :: "string \<Rightarrow> radio_technology" where
  "wireToRadioTechnology s =
     (if s = ''RADIO_TECH_GPRS'' then RADIO_TECH_GPRS
      else if s = ''RADIO_TECH_EDGE'' then RADIO_TECH_EDGE
      else if s = ''RADIO_TECH_UMTS'' then RADIO_TECH_UMTS
      else if s = ''RADIO_TECH_LTE'' then RADIO_TECH_LTE
      else if s = ''RADIO_TECH_GSM'' then RADIO_TECH_GSM
      else if s = ''RADIO_TECH_TD_SCDMA'' then RADIO_TECH_TD_SCDMA
      else if s = ''RADIO_TECH_LTE_CA'' then RADIO_TECH_LTE_CA
      else if s = ''RADIO_TECH_NR5G'' then RADIO_TECH_NR5G
      else RADIO_TECH_UNKNOWN)"

definition wireToServiceDomain :: "string \<Rightarrow> service_domain" where
  "wireToServiceDomain s =
     (if s = ''NO_SRV'' then DOM_NO_SRV
      else if s = ''CS_ONLY'' then DOM_CS_ONLY
      else if s = ''PS_ONLY'' then DOM_PS_ONLY
      else if s = ''CS_PS'' then DOM_CS_PS
      else if s = ''CAMPED'' then DOM_CAMPED
      else DOM_UNKNOWN)"

definition wireToServiceRegistrationState :: "string \<Rightarrow> registration" where
  "wireToServiceRegistrationState s =
     (if s = ''NO_SERVICE'' then REG_NO_SERVICE
      else if s = ''LIMITED_SERVICE'' then REG_LIMITED_SERVICE
      else if s = ''IN_SERVICE'' then REG_IN_SERVICE
      else if s = ''LIMITED_REGIONAL'' then REG_LIMITED_REGIONAL
      else if s = ''POWER_SAVE'' then REG_POWER_SAVE
      else REG_UNKNOWN)"

definition wireToEndcAvailability :: "string \<Rightarrow> endc" where
  "wireToEndcAvailability s = (if s = ''AVAILABLE'' then ENDC_AVAILABLE else if s = ''UNAVAILABLE'' then ENDC_UNAVAILABLE else ENDC_UNKNOWN)"

definition wireToDcnrRestriction :: "string \<Rightarrow> dcnr" where
  "wireToDcnrRestriction s = (if s = ''RESTRICTED'' then DCNR_RESTRICTED else if s = ''UNRESTRICTED'' then DCNR_UNRESTRICTED else DCNR_UNKNOWN)"

definition wireToLteCsCapability :: "string \<Rightarrow> lte_cs" where
  "wireToLteCsCapability s =
     (if s = ''FULL_SERVICE'' then CS_FULL_SERVICE
      else if s = ''CSFB_NOT_PREFERRED'' then CS_CSFB_NOT_PREFERRED
      else if s = ''SMS_ONLY'' then CS_SMS_ONLY
      else if s = ''LIMITED'' then CS_LIMITED
      else if s = ''BARRED'' then CS_BARRED
      else CS_UNKNOWN)"

text \<open>Every enumerator but the first, the invalid one, has a branch with its own name.\<close>

definition wireToRFBand :: "string \<Rightarrow> int" where
  "wireToRFBand s = (case map_of (tl rf_bands) s of None \<Rightarrow> snd (hd rf_bands) | Some v \<Rightarrow> v)"

definition wireToRFBandWidth :: "string \<Rightarrow> int" where
  "wireToRFBandWidth s = (case map_of (tl rf_band_widths) s of None \<Rightarrow> snd (hd rf_band_widths) | Some v \<Rightarrow> v)"

text \<open>The cast of a position of the bitset to the enumeration: \<open>None\<close> is a value without enumerator.\<close>

definition rat_prefs :: "rat_pref list" where
  "rat_prefs = [PREF_CDMA_1X, PREF_CDMA_EVDO, PREF_GSM, PREF_WCDMA, PREF_LTE, PREF_TDSCDMA, PREF_NR5G, PREF_NR5G_NSA, PREF_NR5G_SA, PREF_NB1_NTN]"

definition rat_pref_at :: "nat \<Rightarrow> rat_pref option" where
  "rat_pref_at i = (if i < length rat_prefs then Some (rat_prefs ! i) else None)"

fun rat_pref_pos :: "rat_pref \<Rightarrow> nat" where
  "rat_pref_pos PREF_CDMA_1X = 0"
| "rat_pref_pos PREF_CDMA_EVDO = 1"
| "rat_pref_pos PREF_GSM = 2"
| "rat_pref_pos PREF_WCDMA = 3"
| "rat_pref_pos PREF_LTE = 4"
| "rat_pref_pos PREF_TDSCDMA = 5"
| "rat_pref_pos PREF_NR5G = 6"
| "rat_pref_pos PREF_NR5G_NSA = 7"
| "rat_pref_pos PREF_NR5G_SA = 8"
| "rat_pref_pos PREF_NB1_NTN = 9"

fun ratPrefToWire :: "rat_pref option \<Rightarrow> string" where
  "ratPrefToWire (Some PREF_CDMA_1X) = ''CDMA_1X''"
| "ratPrefToWire (Some PREF_CDMA_EVDO) = ''CDMA_EVDO''"
| "ratPrefToWire (Some PREF_GSM) = ''GSM''"
| "ratPrefToWire (Some PREF_WCDMA) = ''WCDMA''"
| "ratPrefToWire (Some PREF_LTE) = ''LTE''"
| "ratPrefToWire (Some PREF_TDSCDMA) = ''TDSCDMA''"
| "ratPrefToWire (Some PREF_NR5G) = ''NR5G''"
| "ratPrefToWire (Some PREF_NR5G_NSA) = ''NR5G_NSA''"
| "ratPrefToWire (Some PREF_NR5G_SA) = ''NR5G_SA''"
| "ratPrefToWire _ = ''NB1_NTN''"

definition wireToRatPref :: "string \<Rightarrow> rat_pref" where
  "wireToRatPref s =
     (if s = ''CDMA_1X'' then PREF_CDMA_1X
      else if s = ''CDMA_EVDO'' then PREF_CDMA_EVDO
      else if s = ''GSM'' then PREF_GSM
      else if s = ''WCDMA'' then PREF_WCDMA
      else if s = ''LTE'' then PREF_LTE
      else if s = ''TDSCDMA'' then PREF_TDSCDMA
      else if s = ''NR5G'' then PREF_NR5G
      else if s = ''NR5G_NSA'' then PREF_NR5G_NSA
      else if s = ''NR5G_SA'' then PREF_NR5G_SA
      else PREF_NB1_NTN)"

text \<open>The array of a preference, and the loop that reads it; an element that is not a string throws.\<close>

definition rat_pref_names :: "16 word \<Rightarrow> string list" where
  "rat_pref_names w = map (\<lambda>i. ratPrefToWire (rat_pref_at i)) (filter (bit w) [0..<16])"

definition get_string :: "'j json_lib \<Rightarrow> 'j \<Rightarrow> string result" where
  "get_string J j = (case j_string J j of None \<Rightarrow> Inl Uncaught_Exception | Some s \<Rightarrow> Inr s)"

definition read_rat_prefs :: "'j json_lib \<Rightarrow> 'j \<Rightarrow> 16 word result" where
  "read_rat_prefs J d =
     bindE (value_items J d ''ratPrefs'') (\<lambda>js.
     bindE (map_result (get_string J) js) (\<lambda>ss. Inr (fold (\<lambda>s w. set_bit (rat_pref_pos (wireToRatPref s)) w) ss 0)))"

definition read_system_info :: "'j json_lib \<Rightarrow> 'j \<Rightarrow> system_info result" where
  "read_system_info J d =
     bindE (value_string J d ''rat'') (\<lambda>r.
     bindE (value_string J d ''domain'') (\<lambda>dm.
     bindE (value_string J d ''state'') (\<lambda>st.
       Inr \<lparr>si_rat = wireToRadioTechnology r, si_domain = wireToServiceDomain dm, si_state = wireToServiceRegistrationState st\<rparr>)))"

definition read_dc_status :: "'j json_lib \<Rightarrow> 'j \<Rightarrow> dc_status result" where
  "read_dc_status J d =
     bindE (value_string J d ''endcAvailability'') (\<lambda>a.
     bindE (value_string J d ''dcnrRestriction'') (\<lambda>r.
       Inr \<lparr>dcs_endcAvailability = wireToEndcAvailability a, dcs_dcnrRestriction = wireToDcnrRestriction r\<rparr>))"

definition read_lte_cs :: "'j json_lib \<Rightarrow> 'j \<Rightarrow> lte_cs result" where
  "read_lte_cs J d = bindE (value_string J d ''lteCsCapability'') (\<lambda>s. Inr (wireToLteCsCapability s))"

definition read_band_info :: "'j json_lib \<Rightarrow> 'j \<Rightarrow> band_info result" where
  "read_band_info J d =
     bindE (value_string J d ''band'') (\<lambda>b.
     bindE (value_word J d ''channel'') (\<lambda>ch.
     bindE (value_string J d ''bandWidth'') (\<lambda>bw.
       Inr \<lparr>bi_band = wireToRFBand b, bi_channel = ch, bi_bandWidth = wireToRFBandWidth bw\<rparr>)))"

section \<open>State handlers\<close>

fun telserv_idle :: "'j telserv_signal \<Rightarrow> 'j telserv_mgr \<Rightarrow> (status \<times> 'j telserv_mgr) result" where
  "telserv_idle (SetRatPreference_Signal w cb) h = Inr (HANDLED, fm_answer (\<lambda>c. Reply (Rat_Set c EC_SUBSYSTEM_UNAVAILABLE)) cb h)"
| "telserv_idle (RequestRatPreference_Signal cb) h = Inr (HANDLED, fm_answer (\<lambda>c. Reply (Rat_Preference c 0 EC_SUBSYSTEM_UNAVAILABLE)) cb h)"
| "telserv_idle (RequestRFBandInfo_Signal cb) h = Inr (HANDLED, fm_answer (\<lambda>c. Reply (Rf_Band_Info c no_band_info EC_SUBSYSTEM_UNAVAILABLE)) cb h)"
| "telserv_idle _ h = Inr (HANDLED, h)"

text \<open>An indication with data: read, remember, tell the listeners.\<close>

definition telserv_indication :: "('j \<Rightarrow> 'v result) \<Rightarrow> ('v \<Rightarrow> 'j telserv_mgr \<Rightarrow> 'j telserv_mgr) \<Rightarrow> ('v \<Rightarrow> telserv_note) \<Rightarrow>
    'j envelope \<Rightarrow> 'j telserv_mgr \<Rightarrow> (status \<times> 'j telserv_mgr) result" where
  "telserv_indication rd keep nt env h =
     (case env_data env of
        None \<Rightarrow> Inr (HANDLED, h)
      | Some d \<Rightarrow> bindE (rd d) (\<lambda>v. Inr (HANDLED, fm_broadcastToListeners (Note (nt v)) (keep v h))))"

fun telserv_serve :: "'j net_ext \<Rightarrow> 'j telserv_signal \<Rightarrow> 'j telserv_mgr \<Rightarrow> (status \<times> 'j telserv_mgr) result" where
  "telserv_serve X (SysInfoEvt_Signal env) h =
     telserv_indication (read_system_info (nx_json X)) (\<lambda>v h. h\<lparr>tv_sys_info := v\<rparr>) On_System_Info env h"
| "telserv_serve X (DcStatusEvt_Signal env) h =
     telserv_indication (read_dc_status (nx_json X)) (\<lambda>v h. h\<lparr>tv_dc_status := v\<rparr>) On_Dc_Status env h"
| "telserv_serve X (LteCsCapabilityEvt_Signal env) h =
     telserv_indication (read_lte_cs (nx_json X)) (\<lambda>v h. h\<lparr>tv_lte_cs_capability := v\<rparr>) On_Lte_Cs env h"
| "telserv_serve X (RatPrefEvt_Signal env) h = telserv_indication (read_rat_prefs (nx_json X)) (\<lambda>v h. h) On_Rat_Preference env h"
| "telserv_serve X (SetRatPreference_Signal w cb) h =
     Inr (HANDLED, fm_request X ''radio.set_rat_preference.req'' ''radio.set_rat_preference.rsp''
       [(''ratPrefs'', j_of_list (nx_json X) (map (j_of_string (nx_json X)) (rat_pref_names w))), (''slot'', j_of_int (nx_json X) (fm_slotId h))]
       (K_Rat_Set cb) h)"
| "telserv_serve X (RequestRatPreference_Signal cb) h =
     Inr (HANDLED, fm_request X ''radio.request_rat_preference.req'' ''radio.request_rat_preference.rsp''
       [(''slot'', j_of_int (nx_json X) (fm_slotId h))] (K_Rat_Preference cb) h)"
| "telserv_serve X (RequestRFBandInfo_Signal cb) h =
     Inr (HANDLED, fm_request X ''radio.request_rf_band_info.req'' ''radio.request_rf_band_info.rsp''
       [(''slot'', j_of_int (nx_json X) (fm_slotId h))] (K_Rf_Band cb) h)"

definition TelServNotReady_St :: "'j net_ext \<Rightarrow> ('j, 'j telserv_signal radio_signal) net_event event \<Rightarrow> 'j telserv_mgr \<Rightarrow> (status \<times> 'j telserv_mgr) result" where
  "TelServNotReady_St X = flat_NotReady_St (nx_json X) (radio_idle telserv_idle)"

definition TelServReady_St :: "'j net_ext \<Rightarrow> ('j, 'j telserv_signal radio_signal) net_event event \<Rightarrow> 'j telserv_mgr \<Rightarrow> (status \<times> 'j telserv_mgr) result" where
  "TelServReady_St X = flat_Ready_St (nx_json X) rm_withdrawals rm_enterReady rm_exitReady (radio_serve (telserv_serve X))"

fun telserv_handlers :: "'j net_ext \<Rightarrow> rstate \<Rightarrow> ('j, 'j telserv_signal radio_signal) net_event event \<Rightarrow> 'j telserv_mgr \<Rightarrow> (status \<times> 'j telserv_mgr) result" where
  "telserv_handlers X NotReady = TelServNotReady_St X"
| "telserv_handlers X Ready = TelServReady_St X"

fun telserv_response :: "'j net_ext \<Rightarrow> telserv_cont \<Rightarrow> 'j envelope option \<Rightarrow> 'j telserv_mgr \<Rightarrow> 'j telserv_mgr result" where
  "telserv_response X (K_Rat_Set cb) rsp h = Inr (fm_complete (\<lambda>c er. Reply (Rat_Set c er)) cb rsp h)"
| "telserv_response X (K_Rat_Preference cb) rsp h =
     fm_completeQuery (read_rat_prefs (nx_json X)) (\<lambda>c v er. Reply (Rat_Preference c v er)) 0 cb rsp h"
| "telserv_response X (K_Rf_Band cb) rsp h =
     fm_completeQuery (read_band_info (nx_json X)) (\<lambda>c v er. Reply (Rf_Band_Info c v er)) no_band_info cb rsp h"

section \<open>The manager\<close>

definition telserv_new :: "int \<Rightarrow> nat option \<Rightarrow> 'j telserv_mgr" where
  "telserv_new slot initCb =
     rm_new ''TelServingSystemManager'' slot initCb
       \<lparr>tv_sys_info = no_system_info, tv_dc_status = no_dc_status, tv_lte_cs_capability = CS_UNKNOWN\<rparr>"

definition telserv_topics :: "'j net_ext \<Rightarrow> (string \<times> string) list" where
  "telserv_topics X = named_topics X
     [''radio.subsys_ready_serv.ind'', ''radio.sys_info.ind'', ''radio.dc_status.ind'', ''radio.rat_pref.ind'', ''radio.lte_cs_capability.ind'']"

definition telserv_start :: "'j net_ext \<Rightarrow> 'j telserv_mgr \<Rightarrow> 'j telserv_mgr result" where
  "telserv_start X = fm_start X (telserv_topics X) (telserv_handlers X)"

definition telserv_unsubscribeFromBridge :: "'j net_ext \<Rightarrow> 'j telserv_mgr \<Rightarrow> 'j telserv_mgr" where
  "telserv_unsubscribeFromBridge X = fm_unsubscribe (map fst (telserv_topics X))"

definition telserv_destroy :: "nat \<Rightarrow> 'j net_ext \<Rightarrow> 'j telserv_mgr \<Rightarrow> 'j telserv_mgr result" where
  "telserv_destroy k X h = stop k (nx_loops X) (telserv_handlers X) False (telserv_unsubscribeFromBridge X h)"

definition telserv_handleInd :: "('j envelope \<Rightarrow> 'j telserv_signal) \<Rightarrow> 'j envelope \<Rightarrow> 'j telserv_mgr \<Rightarrow> 'j telserv_mgr" where
  "telserv_handleInd sig env = post_fifo (N_Signal (Radio_Signal (sig env)))"

definition telserv_handleReadinessInd :: "'j envelope \<Rightarrow> 'j telserv_mgr \<Rightarrow> 'j telserv_mgr" where
  "telserv_handleReadinessInd env = post_fifo (N_ReadinessEvt_Signal env)"

definition telserv_setInitCallback :: "nat option \<Rightarrow> 'j telserv_mgr \<Rightarrow> 'j telserv_mgr" where
  "telserv_setInitCallback = rm_setInitCallback"

definition setRatPreference :: "16 word \<Rightarrow> nat option \<Rightarrow> 'j telserv_mgr \<Rightarrow> api_status \<times> 'j telserv_mgr" where
  "setRatPreference w cb = fm_post (N_Signal (Radio_Signal (SetRatPreference_Signal w cb)))"

definition requestRatPreference :: "nat option \<Rightarrow> 'j telserv_mgr \<Rightarrow> api_status \<times> 'j telserv_mgr" where
  "requestRatPreference cb = fm_post (N_Signal (Radio_Signal (RequestRatPreference_Signal cb)))"

definition requestRFBandInfo :: "nat option \<Rightarrow> 'j telserv_mgr \<Rightarrow> api_status \<times> 'j telserv_mgr" where
  "requestRFBandInfo cb = fm_post (N_Signal (Radio_Signal (RequestRFBandInfo_Signal cb)))"

definition getSystemInfo :: "'j telserv_mgr \<Rightarrow> api_status \<times> system_info" where
  "getSystemInfo h = (if \<not> fm_isReadyDerived h then (NOTREADY, no_system_info) else (SUCCESS, tv_sys_info h))"

definition getDcStatus :: "'j telserv_mgr \<Rightarrow> dc_status" where
  "getDcStatus h = tv_dc_status h"

definition getLteCsCapability :: "'j telserv_mgr \<Rightarrow> api_status \<times> lte_cs" where
  "getLteCsCapability h = (if \<not> fm_isReadyDerived h then (NOTREADY, CS_UNKNOWN) else (SUCCESS, tv_lte_cs_capability h))"

text \<open>Operations that are not supported; their callbacks are not called.\<close>

definition setServiceDomainPreference :: "nat option \<Rightarrow> 'j telserv_mgr \<Rightarrow> api_status \<times> 'j telserv_mgr" where
  "setServiceDomainPreference cb h = (NOTSUPPORTED, h)"
definition requestServiceDomainPreference :: "nat option \<Rightarrow> 'j telserv_mgr \<Rightarrow> api_status \<times> 'j telserv_mgr" where
  "requestServiceDomainPreference cb h = (NOTSUPPORTED, h)"
definition requestNetworkTime :: "nat option \<Rightarrow> 'j telserv_mgr \<Rightarrow> api_status \<times> 'j telserv_mgr" where
  "requestNetworkTime cb h = (NOTSUPPORTED, h)"
definition requestLteSib16NetworkTime :: "nat option \<Rightarrow> 'j telserv_mgr \<Rightarrow> api_status \<times> 'j telserv_mgr" where
  "requestLteSib16NetworkTime cb h = (NOTSUPPORTED, h)"
definition requestNr5gRrcUtcTime :: "nat option \<Rightarrow> 'j telserv_mgr \<Rightarrow> api_status \<times> 'j telserv_mgr" where
  "requestNr5gRrcUtcTime cb h = (NOTSUPPORTED, h)"
definition requestRFBandPreferences :: "nat option \<Rightarrow> 'j telserv_mgr \<Rightarrow> api_status \<times> 'j telserv_mgr" where
  "requestRFBandPreferences cb h = (NOTSUPPORTED, h)"
definition setRFBandPreferences :: "nat option \<Rightarrow> 'j telserv_mgr \<Rightarrow> api_status \<times> 'j telserv_mgr" where
  "setRFBandPreferences cb h = (NOTSUPPORTED, h)"
definition requestRFBandCapability :: "nat option \<Rightarrow> 'j telserv_mgr \<Rightarrow> api_status \<times> 'j telserv_mgr" where
  "requestRFBandCapability cb h = (NOTSUPPORTED, h)"
definition setHplmnSearchTime :: "32 word \<Rightarrow> 'j telserv_mgr \<Rightarrow> error_code" where
  "setHplmnSearchTime t h = EC_NOT_SUPPORTED"
definition getHplmnSearchTime :: "'j telserv_mgr \<Rightarrow> error_code \<times> 32 word" where
  "getHplmnSearchTime h = (EC_NOT_SUPPORTED, 0)"

section \<open>What holds\<close>

fun telserv_carries :: "'j telserv_signal \<Rightarrow> nat list" where
  "telserv_carries (SetRatPreference_Signal w cb) = opt_list cb"
| "telserv_carries (RequestRatPreference_Signal cb) = opt_list cb"
| "telserv_carries (RequestRFBandInfo_Signal cb) = opt_list cb"
| "telserv_carries _ = []"

fun telserv_holds :: "telserv_cont \<Rightarrow> nat list" where
  "telserv_holds (K_Rat_Set cb) = opt_list cb"
| "telserv_holds (K_Rat_Preference cb) = opt_list cb"
| "telserv_holds (K_Rf_Band cb) = opt_list cb"

fun telserv_answers :: "telserv_answer \<Rightarrow> nat list" where
  "telserv_answers (Rat_Set c er) = [c]"
| "telserv_answers (Rat_Preference c v er) = [c]"
| "telserv_answers (Rf_Band_Info c v er) = [c]"

lemma telserv_handlers_flat:
  "telserv_handlers X = flat_handlers (nx_json X) rm_withdrawals rm_enterReady rm_exitReady (radio_idle telserv_idle) (radio_serve (telserv_serve X))"
proof
  fix s
  show "telserv_handlers X s = flat_handlers (nx_json X) rm_withdrawals rm_enterReady rm_exitReady (radio_idle telserv_idle) (radio_serve (telserv_serve X)) s"
    by (cases s) (simp_all add: TelServNotReady_St_def TelServReady_St_def)
qed

text \<open>What an indication does to the shell is a broadcast.\<close>

lemma telserv_indication_does:
  assumes "telserv_indication rd keep nt env h = Inr (r, h')"
    and keep: "\<And>v. fm_out (keep v h) = fm_out h \<and> ao_q (keep v h) = ao_q h \<and> ao_running (keep v h) = ao_running h \<and> rm_init_cbs (keep v h) = rm_init_cbs h"
  shows "init_quiet h h' \<and> r = HANDLED \<and> fm_serves (radio_answers telserv_answers) telserv_holds rm_init_cbs [] h h'"
proof (cases "env_data env")
  case None
  with assms show ?thesis by (simp add: telserv_indication_def fm_serves_simps)
next
  case (Some d)
  with assms obtain v where v: "r = HANDLED" "h' = fm_broadcastToListeners (Note (nt v)) (keep v h)"
    by (auto simp: telserv_indication_def bindE_eq_Inr)
  have "init_quiet (keep v h) h'" "fm_serves (radio_answers telserv_answers) telserv_holds rm_init_cbs [] (keep v h) h'"
    unfolding v by (simp_all add: fm_serves_simps)
  with v(1) keep [of v] show ?thesis by (simp add: init_quiet_def fm_serves_def)
qed

interpretation telserv: radio_service X telserv_idle "telserv_serve X" "telserv_response X" telserv_carries telserv_holds telserv_answers
  for X :: "'j net_ext"
proof unfold_locales
  fix e k rsp r and h h' :: "'j telserv_mgr"
  show "telserv_idle e h = Inr (r, h') \<Longrightarrow> init_quiet h h' \<and>
      (r = HANDLED \<and> fm_gives (radio_answers telserv_answers) rm_init_cbs (telserv_carries e) h h' \<or> telserv_carries e = [] \<and> (r, h') = super_st Top_St h)"
    by (cases e) (auto intro!: fm_gives_answer fm_gives_none)
  show "telserv_serve X e h = Inr (r, h') \<Longrightarrow> init_quiet h h' \<and> r = HANDLED \<and>
      fm_serves (radio_answers telserv_answers) telserv_holds rm_init_cbs (telserv_carries e) h h'"
    by (cases e) (auto simp: fm_out_def intro!: fm_serves_request dest!: telserv_indication_does)
  show "telserv_response X k rsp h = Inr h' \<Longrightarrow> init_quiet h h' \<and> fm_gives (radio_answers telserv_answers) rm_init_cbs (telserv_holds k) h h'"
    by (cases k) (auto intro: fm_gives_query fm_gives_complete init_quiet_query)
qed

lemma telserv_clients_served:
  assumes "flat_run (telserv_handlers X) (telserv_response X) (called_at_once telserv_answers) rm_init_cbs (radio_carries telserv_carries) (\<lambda>_. [])
      telserv_holds X G P L D h" "kMaxNest < nx_loops X"
  shows "G = mset (nm_answered (radio_answers telserv_answers) (fm_out h)) + (\<Sum>k\<in>#P. mset (telserv_holds k)) + L +
      mset (nm_waiting (radio_carries telserv_carries) (ao_q h)) + mset (rm_init_cbs h) \<and>
    D = {#} \<and> inits_fine h"
  using telserv.flat_accounts [OF assms(1) [unfolded telserv_handlers_flat] assms(2)] telserv.radio_runs [OF assms(1) [unfolded telserv_handlers_flat] assms(2)]
  by simp

section \<open>Preferences of radio technologies\<close>

lemma rat_pref_at_pos: "i < 16 \<Longrightarrow> rat_pref_pos (wireToRatPref (ratPrefToWire (rat_pref_at i))) = min i 9"
proof -
  have "list_all (\<lambda>i. rat_pref_pos (wireToRatPref (ratPrefToWire (rat_pref_at i))) = min i 9) [0..<16]" by code_simp
  then show "i < 16 \<Longrightarrow> ?thesis" by (simp add: list_all_iff)
qed

lemma bit_set_all: "bit (fold (\<lambda>n w. set_bit n w) ns w) i \<longleftrightarrow> bit (w :: 16 word) i \<or> i \<in> set ns \<and> i < 16"
  by (induction ns arbitrary: w) (auto simp: bit_set_bit_iff)

lemma fold_pos: "fold (\<lambda>s w. set_bit (f s) w) ss w = fold (\<lambda>n w. set_bit n w) (map f ss) w"
  by (induction ss arbitrary: w) auto

text \<open>What is left of a preference: bits without enumerator count as the last enumerator.\<close>

definition sent_rat_pref :: "16 word \<Rightarrow> 16 word" where
  "sent_rat_pref w = take_bit 10 w OR (if drop_bit 10 w = 0 then 0 else set_bit 9 0)"

lemma bit_sent: "bit (sent_rat_pref w) n \<longleftrightarrow> n < 10 \<and> bit w n \<or> n = 9 \<and> drop_bit 10 w \<noteq> 0"
  unfolding sent_rat_pref_def by (simp only: bit_or_iff bit_take_bit_iff bit_set_bit_iff possible_bit_word if_distrib [of "\<lambda>v. bit v n"]) auto

lemma drop_bit_zero: "drop_bit 10 (w :: 16 word) = 0 \<longleftrightarrow> \<not> (\<exists>i\<in>{10..<16}. bit w i)"
proof -
  have "drop_bit 10 w = 0 \<longleftrightarrow> (\<forall>n. \<not> bit w (10 + n))"
  proof
    assume "drop_bit 10 w = 0"
    then have "\<not> bit (drop_bit 10 w) n" for n by simp
    then show "\<forall>n. \<not> bit w (10 + n)" by (simp add: bit_drop_bit_eq)
  qed (auto intro!: bit_eqI simp: bit_drop_bit_eq)
  also have "\<dots> \<longleftrightarrow> \<not> (\<exists>i\<in>{10..<16}. bit w i)"
  proof
    show "\<not> (\<exists>i\<in>{10..<16}. bit w i)" if none: "\<forall>n. \<not> bit w (10 + n)"
    proof
      assume "\<exists>i\<in>{10..<16}. bit w i"
      then obtain i where "10 \<le> i" "bit w i" by auto
      with none [rule_format, of "i - 10"] show False by simp
    qed
    show "\<forall>n. \<not> bit w (10 + n)" if "\<not> (\<exists>i\<in>{10..<16}. bit w i)"
      using that bit_imp_le_length [of w] by fastforce
  qed
  finally show ?thesis .
qed

lemma read_rat_pref_names:
  assumes "json_ok J" "j_is_object J d" "j_find J d ''ratPrefs'' = Some (j_of_list J (map (j_of_string J) (rat_pref_names w)))"
  shows "read_rat_prefs J d = Inr (sent_rat_pref w)"
proof -
  have "map_result (get_string J) (map (j_of_string J) ss) = Inr ss" for ss
    using assms(1) by (induction ss) (simp_all add: get_string_def json_okD)
  then have "read_rat_prefs J d = Inr (fold (\<lambda>s w. set_bit (rat_pref_pos (wireToRatPref s)) w) (rat_pref_names w) 0)"
    using assms by (simp add: read_rat_prefs_def value_items_def json_okD)
  also have "fold (\<lambda>s w. set_bit (rat_pref_pos (wireToRatPref s)) w) (rat_pref_names w) 0 = fold (\<lambda>n w. set_bit n w) (map (\<lambda>i. min i 9) (filter (bit w) [0..<16])) 0"
  proof -
    have "map (\<lambda>s. rat_pref_pos (wireToRatPref s)) (rat_pref_names w) = map (\<lambda>i. min i 9) (filter (bit w) [0..<16])"
      unfolding rat_pref_names_def map_map by (rule map_cong) (auto simp: rat_pref_at_pos)
    then show ?thesis by (subst fold_pos) simp
  qed
  also have "\<dots> = sent_rat_pref w"
  proof (rule bit_eqI)
    fix n
    assume "possible_bit TYPE(16 word) n"
    then have n: "n < 16" by simp
    have "bit (fold (\<lambda>n w. set_bit n w) (map (\<lambda>i. min i 9) (filter (bit w) [0..<16])) (0 :: 16 word)) n \<longleftrightarrow> (\<exists>i<16. bit w i \<and> min i 9 = n)"
      using n by (auto simp: bit_set_all)
    also have "\<dots> \<longleftrightarrow> (n < 10 \<and> bit w n) \<or> (n = 9 \<and> (\<exists>i\<in>{10..<16}. bit w i))"
      using n by (auto simp: min_def split: if_splits)
    also have "\<dots> \<longleftrightarrow> bit (sent_rat_pref w) n"
      using drop_bit_zero [of w] by (auto simp: bit_sent)
    finally show "bit (fold (\<lambda>n w. set_bit n w) (map (\<lambda>i. min i 9) (filter (bit w) [0..<16])) (0 :: 16 word)) n = bit (sent_rat_pref w) n" .
  qed
  finally show ?thesis .
qed

text \<open>C34: the preference of radio technologies survives the wire as far as it names technologies. What the
  manager sends for a bitset of 16 positions, read by its own reader of responses and indications, is that
  bitset when only the ten technologies are set; every position beyond them is sent, and read, as the last
  one, \<open>NB1_NTN\<close>. What was sent once is sent and read unchanged after that.\<close>

theorem rat_preference_roundtrip:
  assumes "json_ok (nx_json X)"
  shows "(\<exists>req d h'. telserv_serve X (SetRatPreference_Signal w cb) h = Inr (HANDLED, h') \<and>
      fm_out h' = fm_out h @ [Om_Request (nx_topic X ''radio.set_rat_preference.req'') ''radio.set_rat_preference.rsp'' req (K_Rat_Set cb) kNetRpcTimeout] \<and>
      env_data req = Some d \<and> read_rat_prefs (nx_json X) d = Inr (sent_rat_pref w)) \<and>
    (drop_bit 10 w = 0 \<longrightarrow> sent_rat_pref w = w) \<and> sent_rat_pref (sent_rat_pref w) = sent_rat_pref w"
proof -
  let ?ms = "[(''ratPrefs'', j_of_list (nx_json X) (map (j_of_string (nx_json X)) (rat_pref_names w))), (''slot'', j_of_int (nx_json X) (fm_slotId h))]"
  have low: "take_bit 10 v = v" if "drop_bit 10 v = 0" for v :: "16 word" using that bits_ident [of 10 v] by simp
  have idem: "drop_bit 10 (sent_rat_pref w) = 0" unfolding drop_bit_zero by (auto simp: bit_sent)
  have "read_rat_prefs (nx_json X) (j_members (nx_json X) ?ms) = Inr (sent_rat_pref w)"
    using assms by (intro read_rat_pref_names) (simp_all add: j_members_object j_members_find)
  moreover have "sent_rat_pref v = v" if "drop_bit 10 v = 0" for v using that low [OF that] by (simp add: sent_rat_pref_def)
  ultimately show ?thesis using idem by (simp add: fm_request_def fm_out_def io_request_env case_prod_unfold)
qed

theorem rat_preference_roundtrip_witness:
  "\<exists>req d h'. telserv_serve demo_nx (SetRatPreference_Signal 0x8014 (Some 3)) (telserv_new 1 None) = Inr (HANDLED, h') \<and>
      fm_out h' = fm_out (telserv_new 1 None :: jtree telserv_mgr) @ [Om_Request (nx_topic demo_nx ''radio.set_rat_preference.req'') ''radio.set_rat_preference.rsp'' req
        (K_Rat_Set (Some 3)) kNetRpcTimeout] \<and>
      env_data req = Some d \<and> read_rat_prefs (nx_json demo_nx) d = Inr 0x214"
proof -
  have "sent_rat_pref 0x8014 = 0x214" by code_simp
  with rat_preference_roundtrip [of demo_nx "0x8014" "Some 3" "telserv_new 1 None"] tree_lib_ok show ?thesis by (simp add: demo_nx_def)
qed

section \<open>What clients read\<close>

type_synonym telserv_view = "system_info \<times> dc_status \<times> lte_cs"

definition telserv_view :: "'j telserv_mgr \<Rightarrow> telserv_view" where
  "telserv_view h = (tv_sys_info h, tv_dc_status h, tv_lte_cs_capability h)"

text \<open>What an indication that is handled in a state leaves.\<close>

definition on_data :: "('j \<Rightarrow> 'v result) \<Rightarrow> 'j envelope \<Rightarrow> 'v \<Rightarrow> 'v" where
  "on_data rd env v = (case env_data env of None \<Rightarrow> v | Some d \<Rightarrow> (case rd d of Inl _ \<Rightarrow> v | Inr x \<Rightarrow> x))"

fun telserv_reported :: "'j json_lib \<Rightarrow> rstate \<Rightarrow> 'j telserv_signal radio_signal \<Rightarrow> telserv_view \<Rightarrow> telserv_view" where
  "telserv_reported J Ready (Radio_Signal (SysInfoEvt_Signal env)) (i, d, l) = (on_data (read_system_info J) env i, d, l)"
| "telserv_reported J Ready (Radio_Signal (DcStatusEvt_Signal env)) (i, d, l) = (i, on_data (read_dc_status J) env d, l)"
| "telserv_reported J Ready (Radio_Signal (LteCsCapabilityEvt_Signal env)) (i, d, l) = (i, d, on_data (read_lte_cs J) env l)"
| "telserv_reported J _ _ v = v"

primrec telserv_after :: "'j json_lib \<Rightarrow> ('j, 'j telserv_signal radio_signal) net_event list \<Rightarrow> rstate \<Rightarrow> telserv_view \<Rightarrow> telserv_view" where
  "telserv_after J [] s v = v"
| "telserv_after J (u # us) s v =
     telserv_after J us (track (net_up J) (flat_down J rm_withdrawals) u s) (case u of N_Signal e \<Rightarrow> telserv_reported J s e v | _ \<Rightarrow> v)"

lemma telserv_after_fold:
  "snd (fold (\<lambda>u (s, v). (track (net_up J) (flat_down J rm_withdrawals) u s, case u of N_Signal e \<Rightarrow> telserv_reported J s e v | _ \<Rightarrow> v)) us (s, v)) =
   telserv_after J us s v"
  by (induction us arbitrary: s v) auto

lemma telserv_view_kept [simp]:
  "telserv_view (fm_emit x h) = telserv_view h" "telserv_view (fm_broadcastToListeners nt h) = telserv_view h" "telserv_view (fm_tell st h) = telserv_view h"
  "telserv_view (fm_request X topic schema ms k h) = telserv_view h" "telserv_view (fm_answer f cb h) = telserv_view h"
  "telserv_view (h\<lparr>rm_init_cbs := cs\<rparr>) = telserv_view h" "telserv_view (h\<lparr>fm_status := st\<rparr>) = telserv_view h" "telserv_view (h\<lparr>ao_q := q\<rparr>) = telserv_view h"
  "telserv_view (erase h) = telserv_view h"
  by (simp_all add: telserv_view_def fm_tell_def fm_broadcastToListeners_def fm_emit_def fm_do_def fm_request_def fm_answer_def Let_def erase_def
      split: option.split)

lemma telserv_view_calls: "telserv_view (rm_calls st cs h) = telserv_view h"
  unfolding rm_calls_def by (induction cs arbitrary: h) simp_all

lemma telserv_view_fire: "telserv_view (rm_fire st h) = telserv_view h"
  by (simp add: rm_fire_def telserv_view_calls)

lemma telserv_view_idle: "telserv_idle x h = Inr (r, h') \<Longrightarrow> telserv_view h' = telserv_view h"
  by (cases x) auto

lemma telserv_view_upd [simp]:
  assumes "telserv_view h = (i, d, l)"
  shows "telserv_view (h\<lparr>tv_sys_info := v\<rparr>) = (v, d, l)" "telserv_view (h\<lparr>tv_dc_status := v'\<rparr>) = (i, v', l)"
    "telserv_view (h\<lparr>tv_lte_cs_capability := v''\<rparr>) = (i, d, v'')"
  using assms by (simp_all add: telserv_view_def)

lemma telserv_view_serve:
  assumes "telserv_serve X x h = Inr (r, h')"
  shows "telserv_view h' = telserv_reported (nx_json X) Ready (Radio_Signal x) (telserv_view h)"
  using assms by (cases x; cases "telserv_view h") (auto simp: telserv_indication_def on_data_def bindE_eq_Inr split: option.splits)

text \<open>C32: what clients of the telephony serving system read is what the modem indicated while the manager was
  ready. After any sequence of signals, the system information, the dual connectivity status and the CS
  capability are those of the last indication of each that was handled in the ready state, the first and
  the last withheld while the manager is not ready; an indication that is handled before readiness is lost.\<close>

theorem telserv_follows_modem:
  fixes X :: "'j net_ext"
  assumes "kMaxNest < n" "hstate h = St s" "dispatch_all n (telserv_handlers X) us h = Inr h'"
    and "telserv_after (nx_json X) us s (telserv_view h) = (i, d, l)"
    and "t = fold (track (net_up (nx_json X)) (flat_down (nx_json X) rm_withdrawals)) us s"
  shows "getSystemInfo h' = (if t = Ready then (SUCCESS, i) else (NOTREADY, no_system_info)) \<and> getDcStatus h' = d \<and>
    getLteCsCapability h' = (if t = Ready then (SUCCESS, l) else (NOTREADY, CS_UNKNOWN))"
proof -
  have "hstate h' = St t \<and> telserv_view h' = telserv_after (nx_json X) us s (telserv_view h)"
    unfolding assms(5) telserv_after_fold [symmetric]
  proof (rule telserv.flat_dispatch_view [OF assms(1,2) assms(3) [unfolded telserv_handlers_flat]])
    fix e r and h h1 :: "'j telserv_mgr"
    show "radio_idle telserv_idle e h = Inr (r, h1) \<Longrightarrow> telserv_view h1 = telserv_reported (nx_json X) NotReady e (telserv_view h)"
      using telserv_view_idle [of _ h r h1] by (cases e) auto
    show "radio_serve (telserv_serve X) e h = Inr (r, h1) \<Longrightarrow> telserv_view h1 = telserv_reported (nx_json X) Ready e (telserv_view h)"
      using telserv_view_serve [of X _ h r h1] by (cases e) auto
    show "telserv_view (rm_enterReady h) = telserv_view h" "telserv_view (rm_exitReady h) = telserv_view h"
      by (simp_all add: rm_enterReady_def rm_exitReady_def fm_publishStatus_def telserv_view_fire)
  qed simp_all
  with assms(4) show ?thesis by (auto simp: getSystemInfo_def getDcStatus_def getLteCsCapability_def fm_isReadyDerived_def telserv_view_def)
qed

text \<open>Indications before readiness, while ready, and after it was withdrawn.\<close>

definition demo_tv0 :: "jtree telserv_mgr" where
  "demo_tv0 = projr (telserv_start demo_nx (telserv_new 1 None))"

definition demo_sys :: "string \<Rightarrow> jtree envelope" where
  "demo_sys r = fst (makeEventEnvelope 7 ''mpss'' (JObj [(''rat'', JStr r), (''domain'', JStr ''CS_PS''), (''state'', JStr ''IN_SERVICE'')]) 42)"

definition demo_cs :: "jtree envelope" where
  "demo_cs = fst (makeEventEnvelope 7 ''mpss'' (JObj [(''lteCsCapability'', JStr ''SMS_ONLY'')]) 42)"

definition demo_tv_events :: "(jtree, jtree telserv_signal radio_signal) net_event list" where
  "demo_tv_events = [N_Signal (Radio_Signal (SysInfoEvt_Signal (demo_sys ''RADIO_TECH_LTE''))), N_ReadinessEvt_Signal demo_net_up,
     N_Signal (Radio_Signal (LteCsCapabilityEvt_Signal demo_cs))]"

definition demo_tv1 :: "jtree telserv_mgr" where
  "demo_tv1 = projr (dispatch_all 9 (telserv_handlers demo_nx) demo_tv_events demo_tv0)"

lemma demo_tv_runs:
  "hstate demo_tv0 = St NotReady" "map_sum id (\<lambda>_. ()) (dispatch_all 9 (telserv_handlers demo_nx) demo_tv_events demo_tv0) = Inr ()"
  "telserv_after (nx_json demo_nx) demo_tv_events NotReady (telserv_view demo_tv0) = (no_system_info, no_dc_status, CS_SMS_ONLY)"
  "Ready = fold (track (net_up (nx_json demo_nx)) (flat_down (nx_json demo_nx) rm_withdrawals)) demo_tv_events NotReady"
  by code_simp+

theorem telserv_follows_modem_witness:
  "getSystemInfo demo_tv1 = (SUCCESS, no_system_info) \<and> getDcStatus demo_tv1 = no_dc_status \<and> getLteCsCapability demo_tv1 = (SUCCESS, CS_SMS_ONLY)"
proof -
  have "dispatch_all 9 (telserv_handlers demo_nx) demo_tv_events demo_tv0 = Inr demo_tv1"
    using demo_tv_runs(2) unfolding demo_tv1_def by (cases "dispatch_all 9 (telserv_handlers demo_nx) demo_tv_events demo_tv0") auto
  from telserv_follows_modem [OF _ demo_tv_runs(1) this demo_tv_runs(3,4)] show ?thesis by (simp add: kMaxNest_def)
qed

end
