(* ===== verification/Spec2Isabelle.thy ===== *)
theory Spec2Isabelle
  imports Chart_Fabric Bridge_Spec Listener_Dispatch Power_Tcu Power_Wakeup Signal_Strength
    Tel_Call_Race Sim_Multi Data_Session_Types Data_Connection_Props Net_Vlan Net_Nat Net_L2tp Net_Settings
    Data_Profiles Data_Serving Tel_Netsel Tel_Serving
begin

text \<open>
  \<^bold>\<open>The program.\<close> The repository simulates a telematics unit. Its C++ part,
  \<open>src/pa/telaf-pa-simula/component\<close>, implements the interfaces of the Telematics SDK on top of a
  message broker: a client calls a \<^emph>\<open>manager\<close> (power, telephony, data, SIM), the manager sends a
  JSON request through the \<^emph>\<open>modem bridge\<close>, the simulated modem answers, and results and
  indications come back to the client through callbacks and listeners. Bridge, managers and the
  dispatcher of listeners are active objects of a small state chart library, \<open>component/chart\<close>:
  each has a hierarchical state machine, an event queue and a worker thread. The library also has
  a timer service, a queue of deferred events and a publish/subscribe table.

  \<^bold>\<open>Theories and the code they model\<close> (paths below \<open>src/pa/telaf-pa-simula/component\<close>).
  \<^item> \<open>Simula_Prelude\<close>: faults and results, \<open>std::map\<close> as a sorted association list, list lemmas.
  \<^item> \<open>Chart_Hsm\<close>: \<open>chart/include/chart/event.hpp\<close> and \<open>hsm.hpp\<close>. The record \<open>hsm\<close> has the members
    of class \<open>Hsm\<close>; a handler is a function of state, event and object, like the code's \<open>StateFn\<close>.
    \<open>init\<close> and \<open>dispatch\<close> follow the code loop by loop (\<open>walk\<close>, \<open>exit_to\<close>, \<open>collect_lineage\<close>,
    \<open>find_lca\<close>, \<open>transfer\<close>, \<open>init_drill\<close>); the array bound \<open>kMaxNest\<close> is an assertion.
  \<^item> \<open>Chart_Uml\<close>: the reference semantics on the tree of states, the contract of handlers (locale
    \<open>state_chart\<close>) and the refinement of it by \<open>init\<close> and \<open>dispatch\<close>.
  \<^item> \<open>Chart_Ao\<close>: \<open>active_object.hpp\<close> and \<open>defer.hpp\<close>; locales \<open>fifo\<close> (both queues) and \<open>ao_chart\<close>
    (handlers that touch the queue only by posting).
  \<^item> \<open>Chart_Timer\<close>: \<open>time_event.hpp\<close>, with the run loop cut where the code releases the mutex, and
    a step relation over all interleavings of \<open>schedule\<close>, \<open>cancel\<close> and the worker.
  \<^item> \<open>Chart_Fabric\<close>: \<open>publish_subscribe.hpp\<close> and the clean-up hooks of destroyed objects.
  \<^item> \<open>Envelope\<close>: \<open>common/Envelope.{hpp,cpp}\<close>. \<open>Init_Gate\<close>: \<open>common/InitCallbackGate.hpp\<close>.
  \<^item> \<open>Modem_Bridge\<close>: \<open>common/ModemBridge.{hpp,cpp}\<close>: the record \<open>modem_bridge\<close>, one function per
    state handler and helper, the public operations, the mosquitto callbacks. The following
    theories are about it: \<open>Bridge_Chart\<close> (it keeps the chart contract), \<open>Bridge_React\<close> (a flat
    transition table and the refinement to it), \<open>Bridge_Inv\<close> (what one reaction does to the data),
    \<open>Bridge_System\<close> (the bridge among clients, broker and timer thread as a step relation, with its
    invariants), \<open>Bridge_Live\<close> (progress), \<open>Bridge_Spec\<close> (the properties and a concrete bridge).
  \<^item> \<open>Listener_Dispatch\<close>: \<open>common/ListenerDispatchAO.{hpp,cpp}\<close>.
  \<^item> \<open>Ready_Shell\<close>: the \<open>NotReady\<close>/\<open>Ready\<close> chart that the managers repeat, as the locale
    \<open>readiness\<close>: which events raise and withdraw readiness. \<open>Power_Tcu\<close>
    (\<open>power/TcuActivityManager.{hpp,cpp}\<close>) and \<open>Power_Wakeup\<close> (\<open>power/WakeupManager.{hpp,cpp}\<close>)
    interpret it.
  \<^item> \<open>Signal_Strength\<close>: \<open>tel/SignalStrength.cpp\<close>, all seven measurement classes.
  \<^item> \<open>Manager_Io\<close>: what all managers do with bridge and clients: numbered requests, effects, members of
    responses. \<open>Tel_Call\<close>, \<open>Tel_Call_Manager\<close>: \<open>tel/Call.{hpp,cpp}\<close> and \<open>tel/CallManager.{hpp,cpp}\<close>;
    \<open>Tel_Call_Spec\<close> (the table of calls as a function from phones), \<open>Tel_Call_Books\<close> (its runs) and
    \<open>Tel_Call_Race\<close> (the table under the two threads that use it, cut where the code holds no lock).
  \<^item> \<open>Sim_Shell\<close>, \<open>Sim_Card\<close>, \<open>Sim_Subscription\<close>, \<open>Sim_Multi\<close>: the managers of \<open>sim\<close> and their factory.
  \<^item> \<open>Data_Call\<close>: wire names, decoders and the class \<open>SimulaDataCall\<close> of \<open>data/DataConnectionManager.cpp\<close>.
    \<open>Data_Session\<close>: \<open>SimulaDataCallSession\<close>, the active object of one call, with nine states;
    \<open>Data_Session_Chart\<close> (its contract and the flat view), \<open>Data_Session_Spec\<close> (its protocol),
    \<open>Data_Session_Books\<close> (its runs), \<open>Data_Session_Props\<close> and \<open>Data_Session_Types\<close> (the properties).
  \<^item> \<open>Operating_Shell\<close>: the chart \<open>Operating\<close> above \<open>NotReady\<close> and \<open>Ready\<close> of the data and network
    managers, as the locales \<open>operating_shell\<close> and \<open>op_chart\<close>. \<open>Data_Connection\<close>:
    \<open>SimulaDataConnectionManager\<close>; \<open>Data_Connection_Chart\<close>, \<open>Data_Connection_Books\<close> (manager and sessions
    as one system) and \<open>Data_Connection_Props\<close>.
  \<^item> \<open>Net_Wire\<close>: \<open>net/WireEnums.hpp\<close>, the spelling of values in messages. \<open>Net_Shell\<close>: the part of
    chart, listeners, requests and response callbacks that the network managers repeat, as the
    locales \<open>net_chart\<close> and \<open>net_service\<close> with the runs \<open>net_run\<close> of a manager among clients and bridge.
    \<open>Net_Vlan\<close>, \<open>Net_Nat\<close> (NAT and SOCKS), \<open>Net_L2tp\<close> and \<open>Net_Settings\<close>: the managers of \<open>net\<close>, each an
    interpretation of them.
  \<^item> \<open>Flat_Shell\<close>: the chart \<open>NotReady\<close>/\<open>Ready\<close> directly below the top, with listeners, requests and
    queued operations, that the remaining managers repeat: the locales \<open>flat_chart\<close> and \<open>flat_service\<close>
    with the runs \<open>flat_run\<close>; \<open>gate_service\<close> for managers with an init gate. \<open>Data_Profiles\<close>:
    \<open>data/DataProfileManager.{hpp,cpp}\<close> and \<open>data/DataProfile.cpp\<close>; \<open>Data_Serving\<close>:
    \<open>data/ServingSystemManager.{hpp,cpp}\<close>. \<open>Radio_Shell\<close>: what the telephony managers add, a list of
    init callbacks that wait for readiness, as the locale \<open>radio_service\<close>. \<open>Tel_Netsel\<close>:
    \<open>tel/NetworkSelectionManager.{hpp,cpp}\<close>; \<open>Tel_Serving\<close>: \<open>tel/ServingSystemManager.{hpp,cpp}\<close> with
    the tables of radio bands.

  \<^bold>\<open>What the theorems show.\<close>
  \<^item> \<^emph>\<open>State charts.\<close> For handlers that keep the contract, dispatch runs the exits up to the least
    common ancestor, then the entries down to the target, then the initial transitions; it never
    fails an assertion. The bridge keeps the contract, so its dispatch is this semantics, and it is
    equal to a flat table with one line per leaf state and event. A state nested deeper than
    \<open>kMaxNest\<close> fails the assertion.
  \<^item> \<^emph>\<open>Requests.\<close> In every interleaving, a callback given to \<open>send_request\<close> is invoked or is held
    exactly once by the table, the deferred events or the queue, until the bridge shuts down; it is
    never invoked more often than given; each request in flight has a timer or a queued timeout.
    The response of the peer reaches the callback of its request and no other; a timeout completes
    its own request; the loss of the link fails all of them.
  \<^item> \<^emph>\<open>Progress.\<close> The worker empties its queue in finitely many events; \<open>stop\<close> returns; after an
    unsubscription and the fence \<open>drain\<close> the observer or topic is gone.
  \<^item> \<^emph>\<open>Library.\<close> FIFO order of events, order of recalled events, timers that fire once, in order
    and never after \<open>cancel\<close>, subscriptions as a relation, JSON round trip, distinct correlation
    ids, init callbacks called once.
  \<^item> \<^emph>\<open>Managers.\<close> Service status, init callback, answers to requests and relayed indications as
    functions of the handled events; order of listener calls; signal levels.
  \<^item> \<^emph>\<open>Calls and cards.\<close> The table of calls is a function from phones to calls; under both threads a call
    that left the table has ended, or is about to be ended, or was set after it was replaced, a race of which a
    run is given; callbacks of clients are accounted for with multiplicity; an emergency call from client to modem
    and back. The factory of the SIM managers always ends up with the presence callback wired, and the
    multi-SIM manager then hears of each change of presence once.
  \<^item> \<^emph>\<open>Data calls.\<close> Each session follows its protocol: state, status of the call, timers and deferred
    events fit together, clients and listeners hear each turn of the call once, stop requests are
    accounted for, no state waits without a timer, a request or a queued event, well-typed messages
    never make it fault. The sessions in the table of the manager
    are exactly such sessions, in every interleaving. Two defects are theorems: a stop request deferred
    when the start fails is never answered, and a late report of an end destroys a newer session.
  \<^item> \<^emph>\<open>Network.\<close> Each callback handed to a manager is called, waits exactly once or is lost to a response
    that threw; configurations of
    VLANs, tunnels, translations and backhauls survive the wire; what the settings manager reads is
    the last snapshot of the modem, and a table published as it was written is read back, the mask of the
    gateway excepted, which is neither sent nor read.
  \<^item> \<^emph>\<open>Profiles, serving systems, network selection.\<close> Callbacks are accounted for with multiplicity: the
    managers of \<open>data\<close> lose exactly those whose operation is handled after readiness was withdrawn,
    those of \<open>tel\<close> drop none, init callbacks included; both lose those whose response makes the callback throw. What clients read is what the modem indicated
    while the manager was ready. Profiles and preferences survive the wire; positions of a preference
    beyond the ten technologies become the last one.

  \<^bold>\<open>Parameters.\<close> Code that is not in the repository is an argument of the definitions: the JSON
  library (\<open>json_lib\<close>, with the laws \<open>json_ok\<close>), libmosquitto's return codes, the JSON parser, the
  generated schema validators and topic names, the clients' listeners. \<open>tree_lib\<close> is a concrete
  JSON library; the witnesses use it. Callbacks and listeners are named by numbers, and their
  invocation is an effect recorded in the state.

  \<^bold>\<open>Bounds.\<close> The argument \<open>n\<close> of \<open>dispatch\<close> and \<open>init\<close> bounds loops that follow super-states or
  initial transitions; no more than \<open>kMaxNest\<close> states are nested, so \<open>kMaxNest < n\<close> is enough, and
  the refinement theorems prove it. The argument \<open>k\<close> of \<open>run\<close> bounds the number of events; the
  theorems on progress give a \<open>k\<close> for which the loop ends. Running out of either is the separate
  fault \<open>Out_Of_Fuel\<close>. Timer tokens are 64 bit; the step relation of the timers stops before the
  counter wraps around. Correlation ids are 32 bit and wrap around.

  \<^bold>\<open>Simplifications.\<close> An operation under one mutex is one step. Strings are valid UTF-8, so that
  \<open>dump\<close> does not throw. \<open>std::unordered_map\<close> iterates in order of insertion. Two readings of the
  clock within \<open>doSendRequest_\<close> are equal. A bridge is started once. The members
  \<open>backoff_multiplier\<close> and \<open>config_\<close>, which no modelled code reads, and log output are left out.

  A session is kept by value in the table of its manager, its only lasting owner (a request's callback
  locks its weak pointer only to post). Handling one event with all its effects is one step, and so is a
  response callback; for the table of calls, which a response callback shares with the worker of its manager,
  \<open>Tel_Call_Race\<close> has the finer steps.
  The number of events the worker of a session handles in a row is bounded by twice its queue plus its
  deferred events, which is proved enough. Getters of constants and operations that answer
  \<open>NOTSUPPORTED\<close> without touching the state are left out.

  The mirrors of the settings manager have enumeration values instead of their numbers in their keys;
  the operation type, which NAT and SOCKS only store, is left out; a topic is a function of its name.

  \<^bold>\<open>Not modelled.\<close> The phone manager of \<open>tel\<close> with the value classes of \<open>tel/CellInfo.cpp\<close>,
  and the factories of \<open>data\<close> and \<open>tel\<close>. Left out for good: instrumentation output,
  singletons, service stubs, the Python modem simulator and the build scripts.
\<close>

section \<open>Manager and bridge together\<close>

text \<open>C11: an emergency call from end to end. When the worker of a ready call manager reaches a queued
  \<open>makeECall\<close>, it hands the bridge exactly one request; an operational bridge publishes it, and when
  a well-formed response with its correlation id arrives, calls back with that response; the
  callback enters the call of the response in the table of calls and gives the client a reference
  to it, with success.\<close>

theorem ecall_end_to_end:
  assumes fuel: "kMaxNest < n"
    and mgr: "hstate m = St Ready" "ao_q m = RunEcallOp_Signal (Op_Make p ty msd remote dial (Some c)) # es" "call_table_ok m"
    and br: "hstate b = St Operational" "json_ok (x_json X)" "x_json X = tl_json T"
      "\<And>xs. x_publish_rc X xs = MOSQ_ERR_SUCCESS" "\<And>s e. \<not> data_invalid X s e"
      "map_of (br_in_flight b) (fst (nextCorrId (io_counter (cm_io m)))) = None"
    and rsp: "rsp = makeResponseEnvelope now src (fst (nextCorrId (io_counter (cm_io m)))) (br_pa_id b) dat"
      "env_wf (x_json X) rsp" "x_parse X body = Some (toJson (x_json X) rsp)"
      "j_find (tl_json T) dat ''call'' = Some cj" "call_fields (tl_json T) cj = Inr (i, d, nm)"
      "value_string (tl_json T) cj ''callState'' = Inr st"
  shows "\<exists>m1 req b1 b2 r m2. run_step n (call_handlers T) m = Inr (Dispatched, m1) \<and>
    io_out (cm_io m1) = io_out (cm_io m) @
      [Tel_Request (start_ecall_req T) ''ecall.start_ecall.rsp'' req (K_Start p (Some c)) kTelRpcTimeout] \<and>
    dispatch n (bridge_handlers X) (User (SendReq_Signal \<lparr>sr_topic = start_ecall_req T,
      sr_rsp_schema_id = ''ecall.start_ecall.rsp'', sr_envelope = req, sr_cb = k, sr_deadline = br_now b + kTelRpcTimeout\<rparr>)) b = Inr b1 \<and>
    dispatch n (bridge_handlers X) (User (EvtRecv_Signal topic body)) b1 = Inr b2 \<and>
    last (br_out b2) = Rpc_Called k (Some rsp) \<and>
    ecall_response T (K_Start p (Some c)) (Some rsp) m1 = (True, m2) \<and>
    last (io_out (cm_io m2)) = Make_Called c EC_SUCCESS (Some r) \<and> map_of (cm_calls m2) p = Some r \<and>
    phone_calls m2 = enter_call p i d nm (wireToCallState st) (phone_calls m)"
proof -
  let ?op = "Op_Make p ty msd remote dial (Some c)" and ?m = "m\<lparr>ao_q := es\<rparr>"
  obtain m1 where m1: "dispatch n (call_handlers T) (User (RunEcallOp_Signal ?op)) ?m = Inr m1"
    "cm_io m1 = cm_io (run_op T ?op ?m)" "cm_calls m1 = cm_calls m" "cm_store m1 = cm_store m"
    using dispatch_run_op [OF fuel, of ?m T ?op] mgr(1) by auto
  obtain req where req: "io_out (cm_io m1) = io_out (cm_io m) @
      [Tel_Request (start_ecall_req T) ''ecall.start_ecall.rsp'' req (K_Start p (Some c)) kTelRpcTimeout]"
    "env_corrId req = fst (nextCorrId (io_counter (cm_io m)))"
    using make_request [of T p ty msd remote dial "Some c" ?m] m1(2) by auto
  let ?p = "\<lparr>sr_topic = start_ecall_req T, sr_rsp_schema_id = ''ecall.start_ecall.rsp'', sr_envelope = req, sr_cb = k,
    sr_deadline = br_now b + kTelRpcTimeout\<rparr>"
  obtain b1 b2 where b: "dispatch n (bridge_handlers X) (User (SendReq_Signal ?p)) b = Inr b1"
    "dispatch n (bridge_handlers X) (User (EvtRecv_Signal topic body)) b1 = Inr b2"
    "last (br_out b2) = Rpc_Called k (Some rsp)"
    using request_then_response [OF fuel br(1,2) rsp(2), of ?p now src dat body topic] br(4-) rsp(1,3) req(2)
    by (auto simp: kTelRpcTimeout_def)
  have ok: "call_table_ok m1" using mgr(3) m1(3,4) call_table_ok_cong by blast
  have pc: "phone_calls m1 = phone_calls m" using m1(3,4) by (rule phone_calls_cong)
  have "good_data (Some rsp) = Some dat" by (simp add: rsp(1) good_data_def makeResponseEnvelope_def)
  from made_answer [OF ok this rsp(4-), of p c] obtain r m2 where
    "start_response (tl_json T) p (Some c) (Some rsp) m1 = (True, m2)"
    "last (io_out (cm_io m2)) = Make_Called c EC_SUCCESS (Some r)" "map_of (cm_calls m2) p = Some r"
    "phone_calls m2 = enter_call p i d nm (wireToCallState st) (phone_calls m)" by (auto simp: pc)
  moreover have "run_step n (call_handlers T) m = Inr (Dispatched, m1)"
    using m1(1) by (simp add: run_step_def ao_pop_def mgr(2))
  ultimately show ?thesis using req(1) b by auto
qed

definition ecall_demo_ext :: "jtree bridge_ext" where
  "ecall_demo_ext = demo_ext\<lparr>x_parse := \<lambda>_. Some (toJson tree_lib ecall_demo_rsp)\<rparr>"

theorem ecall_end_to_end_witness:
  "\<exists>m1 m2 b1 b2 r. run_step 9 (call_handlers demo_tel) demo3 = Inr (Dispatched, m1) \<and>
     dispatch 9 (bridge_handlers ecall_demo_ext) (User (EvtRecv_Signal ''t'' ''b'')) b1 = Inr b2 \<and>
     last (br_out b2) = Rpc_Called 11 (Some ecall_demo_rsp) \<and>
     ecall_response demo_tel (K_Start 1 (Some 4)) (Some ecall_demo_rsp) m1 = (True, m2) \<and>
     last (io_out (cm_io m2)) = Make_Called 4 EC_SUCCESS (Some r)"
proof -
  have m: "hstate demo3 = St Ready" "fst (nextCorrId (io_counter (cm_io demo3))) = ''00000000''"
    "ao_q demo3 = [RunEcallOp_Signal (Op_Make 1 ''AUTOMATIC'' True [] [] (Some 4))]" "cm_calls demo3 = []" "cm_store demo3 = []"
    by code_simp+
  have ok: "call_table_ok demo3" using m(4,5) by (simp add: call_table_ok_def smap_ok_def)
  let ?call = "JObj [(''callIndex'', JInt 3), (''direction'', JStr ''MO''), (''callState'', JStr ''DIALING'')]"
  have f: "call_fields tree_lib ?call = Inr (3, DIR_OUTGOING, [])" "value_string tree_lib ?call ''callState'' = Inr ''DIALING''"
    by code_simp+
  have wf: "env_wf tree_lib ecall_demo_rsp" by (simp add: env_wf_def ecall_demo_rsp_def makeResponseEnvelope_def tree_lib_def)
  have x: "x_json ecall_demo_ext = tree_lib" "tl_json demo_tel = tree_lib" "\<And>xs. x_publish_rc ecall_demo_ext xs = MOSQ_ERR_SUCCESS"
    "\<And>s e. \<not> data_invalid ecall_demo_ext s e" "x_parse ecall_demo_ext ''b'' = Some (toJson tree_lib ecall_demo_rsp)"
    by (simp_all add: ecall_demo_ext_def demo_ext_def demo_tel_def MOSQ_ERR_SUCCESS_def data_invalid_def validate_def split: option.splits)
  have "json_ok (x_json ecall_demo_ext)" "x_json ecall_demo_ext = tl_json demo_tel"
    "map_of (br_in_flight demo_operational) (fst (nextCorrId (io_counter (cm_io demo3)))) = None"
    "ecall_demo_rsp = makeResponseEnvelope 5 ''mpss'' (fst (nextCorrId (io_counter (cm_io demo3)))) (br_pa_id demo_operational)
       (JObj [(''call'', ?call)])"
    "env_wf (x_json ecall_demo_ext) ecall_demo_rsp"
    "x_parse ecall_demo_ext ''b'' = Some (toJson (x_json ecall_demo_ext) ecall_demo_rsp)"
    "j_find (tl_json demo_tel) (JObj [(''call'', ?call)]) ''call'' = Some ?call"
    "call_fields (tl_json demo_tel) ?call = Inr (3, DIR_OUTGOING, [])"
    "value_string (tl_json demo_tel) ?call ''callState'' = Inr ''DIALING''"
    using x tree_lib_ok demo_operational_sel wf m(2) f by (simp_all add: ecall_demo_rsp_def) (simp add: tree_lib_def)
  from ecall_end_to_end [OF fuel9 m(1,3) ok demo_operational_sel(1) this(1,2) x(3,4) this(3-9), of 11 "''t''"]
  show ?thesis by blast
qed

end
